(* ===== verification/Prelude.thy ===== *)
theory Prelude
  imports Main "HOL-Library.Word"
begin

text \<open>
  Shared vocabulary of the Arcadia OS development.

  \<^item> the machine integer types of the Rust sources and the wrapping arithmetic of
    \<open>usize\<close> (the kernel is built with the release profile, where \<open>+\<close> and
    \<open>-\<close> wrap around);
  \<^item> little-endian byte codecs (\<open>from_le_bytes\<close>, \<open>to_le_bytes\<close>);
  \<^item> the result-and-state computations of code that performs I/O and uses the
    question-mark operator;
  \<^item> generic facts on folds, bits and lists that several components use.
\<close>

unbundle bit_operations_syntax

section \<open>Machine integers\<close>

type_synonym u8 = "8 word"
type_synonym u16 = "16 word"
type_synonym u32 = "32 word"
type_synonym u64 = "64 word"

text \<open>A \<open>usize\<close> is modelled by a natural number below \<open>2 ^ 64\<close>; the operations
  that may leave that range wrap, as they do in a release build.\<close>

definition usize_add :: "nat \<Rightarrow> nat \<Rightarrow> nat" where
  "usize_add a b = (a + b) mod 2 ^ 64"

definition usize_sub :: "nat \<Rightarrow> nat \<Rightarrow> nat" where
  "usize_sub a b = (a + (2 ^ 64 - b mod 2 ^ 64)) mod 2 ^ 64"

lemma usize_add_eq [simp]: "a + b < 2 ^ 64 \<Longrightarrow> usize_add a b = a + b"
  by (simp add: usize_add_def)

lemma usize_sub_eq [simp]:
  assumes "b \<le> a" and "a < 2 ^ 64"
  shows "usize_sub a b = a - b"
proof -
  have "b mod 2 ^ 64 = b"
    using assms by simp
  moreover have "a + (2 ^ 64 - b) = (a - b) + 2 ^ 64"
    using assms by simp
  ultimately have "usize_sub a b = (a - b) mod 2 ^ 64"
    unfolding usize_sub_def by (metis mod_add_self2)
  then show ?thesis
    using assms by simp
qed

text \<open>Rust's \<open>saturating_sub\<close>, \<open>saturating_add\<close> and \<open>checked_add\<close> on words.\<close>

definition saturating_sub :: "'a::len word \<Rightarrow> 'a word \<Rightarrow> 'a word" where
  "saturating_sub a b = (if a < b then 0 else a - b)"

definition saturating_add :: "'a::len word \<Rightarrow> 'a word \<Rightarrow> 'a word" where
  "saturating_add a b = (if a + b < a then - 1 else a + b)"

lemma unat_saturating_sub: "unat (saturating_sub a b) = unat a - unat b"
  by (auto simp: saturating_sub_def word_less_nat_alt unat_sub word_le_nat_alt not_less)

section \<open>Little-endian codecs\<close>

definition u16_from_le :: "u8 \<Rightarrow> u8 \<Rightarrow> u16" where
  "u16_from_le b0 b1 = ucast b0 OR push_bit 8 (ucast b1)"

definition u32_from_le :: "u8 \<Rightarrow> u8 \<Rightarrow> u8 \<Rightarrow> u8 \<Rightarrow> u32" where
  "u32_from_le b0 b1 b2 b3 =
     ucast b0 OR push_bit 8 (ucast b1) OR push_bit 16 (ucast b2) OR push_bit 24 (ucast b3)"

definition u16_to_le :: "u16 \<Rightarrow> u8 list" where
  "u16_to_le w = [ucast w, ucast (drop_bit 8 w)]"

definition u32_to_le :: "u32 \<Rightarrow> u8 list" where
  "u32_to_le w = [ucast w, ucast (drop_bit 8 w), ucast (drop_bit 16 w), ucast (drop_bit 24 w)]"

text \<open>Reading a little-endian field at a byte offset of a buffer, as the
  unaligned reads of packed structures do.\<close>

definition le16_at :: "u8 list \<Rightarrow> nat \<Rightarrow> u16" where
  "le16_at bs i = u16_from_le (bs ! i) (bs ! (i + 1))"

definition le32_at :: "u8 list \<Rightarrow> nat \<Rightarrow> u32" where
  "le32_at bs i = u32_from_le (bs ! i) (bs ! (i + 1)) (bs ! (i + 2)) (bs ! (i + 3))"

definition le64_at :: "u8 list \<Rightarrow> nat \<Rightarrow> u64" where
  "le64_at bs i = ucast (le32_at bs i) OR push_bit 32 (ucast (le32_at bs (i + 4)))"

lemma u16_le_roundtrip: "u16_from_le (ucast w) (ucast (drop_bit 8 w)) = w"
  by (rule bit_word_eqI)
    (auto simp: u16_from_le_def bit_simps)

lemma u32_le_roundtrip:
  "u32_from_le (ucast w) (ucast (drop_bit 8 w)) (ucast (drop_bit 16 w)) (ucast (drop_bit 24 w)) = w"
proof (rule bit_word_eqI)
  fix n
  assume n: "n < LENGTH(32)"
  then consider "n < 8" | "8 \<le> n" "n < 16" | "16 \<le> n" "n < 24" | "24 \<le> n" "n < 32"
    by fastforce
  then show "bit (u32_from_le (ucast w) (ucast (drop_bit 8 w)) (ucast (drop_bit 16 w))
      (ucast (drop_bit 24 w))) n = bit w n"
    by cases (auto simp: u32_from_le_def bit_simps)
qed

lemma length_u16_to_le [simp]: "length (u16_to_le w) = 2"
  by (simp add: u16_to_le_def)

lemma length_u32_to_le [simp]: "length (u32_to_le w) = 4"
  by (simp add: u32_to_le_def)

lemma not_bit_u8: "8 \<le> n \<Longrightarrow> \<not> bit (b :: u8) n"
  using bit_imp_le_length [of b n] by auto

lemma u16_from_le_inverse:
  "ucast (u16_from_le b0 b1) = b0" "ucast (drop_bit 8 (u16_from_le b0 b1)) = b1"
  by (auto simp: u16_from_le_def bit_simps not_bit_u8 intro!: bit_word_eqI)

lemma u32_from_le_inverse:
  "ucast (u32_from_le b0 b1 b2 b3) = b0"
  "ucast (drop_bit 8 (u32_from_le b0 b1 b2 b3)) = b1"
  "ucast (drop_bit 16 (u32_from_le b0 b1 b2 b3)) = b2"
  "ucast (drop_bit 24 (u32_from_le b0 b1 b2 b3)) = b3"
  by (auto simp: u32_from_le_def bit_simps not_bit_u8 intro!: bit_word_eqI)

section \<open>Computations with a result and a state\<close>

text \<open>
  A method that may fail and that changes a device is a function from the state
  to a result and the state it leaves behind. An early error return keeps the
  changes made before it.
\<close>

type_synonym ('s, 'e, 'a) io = "'s \<Rightarrow> ('e + 'a) \<times> 's"

definition io_ret :: "'a \<Rightarrow> ('s, 'e, 'a) io" where
  "io_ret x = (\<lambda>s. (Inr x, s))"

definition io_err :: "'e \<Rightarrow> ('s, 'e, 'a) io" where
  "io_err e = (\<lambda>s. (Inl e, s))"

definition io_bind :: "('s, 'e, 'a) io \<Rightarrow> ('a \<Rightarrow> ('s, 'e, 'b) io) \<Rightarrow> ('s, 'e, 'b) io" where
  "io_bind m f = (\<lambda>s. case m s of (Inl e, s') \<Rightarrow> (Inl e, s') | (Inr x, s') \<Rightarrow> f x s')"

text \<open>Rust's \<open>map_err\<close> with a constant target error.\<close>

definition io_map_err :: "('e \<Rightarrow> 'f) \<Rightarrow> ('s, 'e, 'a) io \<Rightarrow> ('s, 'f, 'a) io" where
  "io_map_err g m = (\<lambda>s. case m s of (Inl e, s') \<Rightarrow> (Inl (g e), s') | (Inr x, s') \<Rightarrow> (Inr x, s'))"

text \<open>A loop that stops at the first error.\<close>

primrec io_for :: "'x list \<Rightarrow> ('x \<Rightarrow> ('s, 'e, unit) io) \<Rightarrow> ('s, 'e, unit) io" where
  "io_for [] body = io_ret ()"
| "io_for (x # xs) body = io_bind (body x) (\<lambda>_. io_for xs body)"

named_theorems io_simps "unfolding rules of result-and-state computations"

lemma io_ret_app [simp, io_simps]: "io_ret x s = (Inr x, s)"
  by (simp add: io_ret_def)

lemma io_err_app [simp, io_simps]: "io_err e s = (Inl e, s)"
  by (simp add: io_err_def)

lemma io_bind_app [io_simps]:
  "io_bind m f s = (case m s of (Inl e, s') \<Rightarrow> (Inl e, s') | (Inr x, s') \<Rightarrow> f x s')"
  by (simp add: io_bind_def)

lemma io_bind_Inr [simp]: "m s = (Inr x, s') \<Longrightarrow> io_bind m f s = f x s'"
  by (simp add: io_bind_def)

lemma io_bind_Inl [simp]: "m s = (Inl e, s') \<Longrightarrow> io_bind m f s = (Inl e, s')"
  by (simp add: io_bind_def)

lemma io_bind_eq_Inr:
  "io_bind m f s = (Inr y, s'') \<longleftrightarrow> (\<exists>x s'. m s = (Inr x, s') \<and> f x s' = (Inr y, s''))"
  by (auto simp: io_bind_def split: prod.splits sum.splits)

lemma io_map_err_Inr [simp]: "m s = (Inr x, s') \<Longrightarrow> io_map_err g m s = (Inr x, s')"
  by (simp add: io_map_err_def)

lemma io_map_err_Inl [simp]: "m s = (Inl e, s') \<Longrightarrow> io_map_err g m s = (Inl (g e), s')"
  by (simp add: io_map_err_def)

lemma io_map_err_eq_Inr: "io_map_err g m s = (Inr x, s') \<longleftrightarrow> m s = (Inr x, s')"
  by (auto simp: io_map_err_def split: prod.splits sum.splits)

lemma io_bind_assoc: "io_bind (io_bind m f) g = io_bind m (\<lambda>x. io_bind (f x) g)"
  by (auto simp: io_bind_def fun_eq_iff split: prod.splits sum.splits)

lemma io_for_append:
  "io_for (xs @ ys) body = io_bind (io_for xs body) (\<lambda>_. io_for ys body)"
proof (induction xs)
  case Nil
  show ?case by (simp add: fun_eq_iff io_bind_def)
next
  case (Cons x xs)
  then show ?case by (simp add: io_bind_assoc)
qed

text \<open>The loop rule: an invariant that every iteration keeps, while succeeding,
  holds at the end, and the loop succeeds.\<close>

lemma io_for_rule:
  assumes "I 0 s"
    and "\<And>i s. i < length xs \<Longrightarrow> I i s \<Longrightarrow> \<exists>s'. body (xs ! i) s = (Inr (), s') \<and> I (Suc i) s'"
  shows "\<exists>s'. io_for xs body s = (Inr (), s') \<and> I (length xs) s'"
  using assms
proof (induction xs arbitrary: s I)
  case Nil
  then show ?case by simp
next
  case (Cons x xs)
  obtain s1 where s1: "body x s = (Inr (), s1)" "I (Suc 0) s1"
    using Cons.prems(1) Cons.prems(2) [of 0 s] by auto
  have step: "\<exists>s'. body (xs ! i) t = (Inr (), s') \<and> I (Suc (Suc i)) s'"
    if "i < length xs" and "I (Suc i) t" for i t
    using Cons.prems(2) [of "Suc i" t] that by simp
  from Cons.IH [of "\<lambda>i. I (Suc i)", OF s1(2) step]
  show ?case using s1(1) by simp
qed

section \<open>Bits, lists and folds\<close>

text \<open>A flag test of the sources, \<open>x & (1 << n) != 0\<close>, reads bit \<open>n\<close>.\<close>

lemma and_push_bit_1_iff: "(x AND push_bit n 1 \<noteq> 0) \<longleftrightarrow> bit (x :: 'a::len word) n"
  by (simp add: bit_iff_and_push_bit_not_eq_0)

lemma div_mod_8_eq_iff: "((f::nat) div 8 = g div 8 \<and> f mod 8 = g mod 8) \<longleftrightarrow> f = g"
  by (metis div_mult_mod_eq)

lemma le_8_mult_div: "(n::nat) \<le> 8 * ((n + 7) div 8)"
  by linarith

lemma fold_upt_Suc:
  "a \<le> b \<Longrightarrow> fold f [a..<Suc b] s = f b (fold f [a..<b] s)"
  by simp

lemma fold_upt_invariant:
  assumes "I a s" and "\<And>i s. a \<le> i \<Longrightarrow> i < b \<Longrightarrow> I i s \<Longrightarrow> I (Suc i) (f i s)"
  shows "I (max a b) (fold f [a..<b] s)"
proof (cases "a \<le> b")
  case True
  then have "I b (fold f [a..<b] s)"
    using assms
  proof (induction b)
    case 0
    then show ?case by simp
  next
    case (Suc b)
    show ?case
    proof (cases "a = Suc b")
      case True
      then show ?thesis using Suc.prems by simp
    next
      case False
      then have "a \<le> b" using Suc.prems(1) by simp
      then show ?thesis
        using Suc.IH Suc.prems(2,3) by (simp add: fold_upt_Suc)
    qed
  qed
  with True show ?thesis by (simp add: max_def)
next
  case False
  then show ?thesis using assms(1) by (simp add: max_def)
qed

lemma fold_preserves:
  "P s \<Longrightarrow> (\<And>x s. P s \<Longrightarrow> P (f x s)) \<Longrightarrow> P (fold f xs s)"
  by (induction xs arbitrary: s) simp_all

lemma fold_field_const:
  "(\<And>x s. g (f x s) = g s) \<Longrightarrow> g (fold f xs s) = g s"
  by (induction xs arbitrary: s) simp_all

text \<open>A sequence of writes to named cells: a cell holds the last value written to it.\<close>

lemma fold_writes_inv:
  assumes "I m" and "\<And>i m. i < n \<Longrightarrow> I m \<Longrightarrow> I (step i m)"
  shows "I (fold step [0..<n] m)"
  using assms by (induction n) simp_all

lemma fold_writes_other:
  assumes "I m" and "\<And>i m. i < n \<Longrightarrow> I m \<Longrightarrow> I (step i m)"
    and "\<And>i m. i < n \<Longrightarrow> I m \<Longrightarrow> get (step i m) = get m"
  shows "get (fold step [0..<n] m) = get m"
  using assms
proof (induction n)
  case (Suc n)
  then show ?case
    using fold_writes_inv [of I m n step] by simp
qed simp

lemma fold_writes_last:
  assumes "I m" and "\<And>i m. i < n \<Longrightarrow> I m \<Longrightarrow> I (step i m)"
    and "\<And>i m. i < n \<Longrightarrow> I m \<Longrightarrow> get (step i m) = (if a i = x then v i else get m)"
    and "i < n" and "a i = x" and "\<And>j. i < j \<Longrightarrow> j < n \<Longrightarrow> a j \<noteq> x"
  shows "get (fold step [0..<n] m) = v i"
  using assms
proof (induction n)
  case (Suc n)
  have I: "I (fold step [0..<n] m)"
    by (rule fold_writes_inv) (use Suc.prems(1,2) in simp_all)
  show ?case
  proof (cases "i = n")
    case True
    then show ?thesis using Suc.prems(3) [OF lessI I] Suc.prems(5) by simp
  next
    case False
    then have "i < n" and "a n \<noteq> x" using Suc.prems(4,6) by auto
    moreover have "get (fold step [0..<n] m) = v i"
      by (rule Suc.IH) (use Suc.prems \<open>i < n\<close> in auto)
    ultimately show ?thesis
      using Suc.prems(3) [OF lessI I] by simp
  qed
qed simp

lemma list_len3E:
  assumes "length xs = 3"
  obtains a b c where "xs = [a, b, c]"
  using assms by (auto simp: numeral_eq_Suc length_Suc_conv)

end
