(* ===== verification/Rust_Std.thy ===== *)
theory Rust_Std
  imports Prelude
begin

text \<open>
  The parts of the Rust standard library the kernel uses on text: UTF-8 validation
  (\<open>core::str::from_utf8\<close>), lossy decoding (\<open>String::from_utf8_lossy\<close>) and
  the slicing operations on \<open>&str\<close>. A string is the list of its bytes.
\<close>

type_synonym bytes = "u8 list"

section \<open>UTF-8\<close>

definition utf8_cont :: "u8 \<Rightarrow> bool" where
  "utf8_cont b \<longleftrightarrow> 0x80 \<le> b \<and> b \<le> 0xBF"

text \<open>The bytes allowed after a given first byte of a sequence of three or four.\<close>

definition utf8_second :: "u8 \<Rightarrow> u8 \<Rightarrow> bool" where
  "utf8_second b0 b1 \<longleftrightarrow>
     (if b0 = 0xE0 then 0xA0 \<le> b1 \<and> b1 \<le> 0xBF
      else if b0 = 0xED then 0x80 \<le> b1 \<and> b1 \<le> 0x9F
      else if b0 = 0xF0 then 0x90 \<le> b1 \<and> b1 \<le> 0xBF
      else if b0 = 0xF4 then 0x80 \<le> b1 \<and> b1 \<le> 0x8F
      else utf8_cont b1)"

text \<open>The chunk at the front of a byte sequence: whether it is a character, and the number
  of bytes it takes; for an invalid chunk, the length of the longest prefix that could
  have started a character.\<close>

definition utf8_chunk :: "u8 \<Rightarrow> bytes \<Rightarrow> bool \<times> nat" where
  "utf8_chunk b rest =
     (let at = (\<lambda>i. if i < length rest then rest ! i else 0) in
      if b < 0x80 then (True, 1)
      else if 0xC2 \<le> b \<and> b \<le> 0xDF then (if utf8_cont (at 0) then (True, 2) else (False, 1))
      else if 0xE0 \<le> b \<and> b \<le> 0xEF then
        (if \<not> utf8_second b (at 0) then (False, 1)
         else if \<not> utf8_cont (at 1) then (False, 2) else (True, 3))
      else if 0xF0 \<le> b \<and> b \<le> 0xF4 then
        (if \<not> utf8_second b (at 0) then (False, 1)
         else if \<not> utf8_cont (at 1) then (False, 2)
         else if \<not> utf8_cont (at 2) then (False, 3) else (True, 4))
      else (False, 1))"

lemma utf8_chunk_pos: "0 < snd (utf8_chunk b rest)"
  by (simp add: utf8_chunk_def Let_def)

function utf8_valid :: "bytes \<Rightarrow> bool" where
  "utf8_valid [] = True"
| "utf8_valid (b # rest) =
     (case utf8_chunk b rest of (ok, n) \<Rightarrow> ok \<and> utf8_valid (drop (n - 1) rest))"
  by pat_completeness auto
termination
  by (relation "measure length") auto

definition utf8_replacement :: bytes where
  "utf8_replacement = [0xEF, 0xBF, 0xBD]"

function utf8_lossy :: "bytes \<Rightarrow> bytes" where
  "utf8_lossy [] = []"
| "utf8_lossy (b # rest) =
     (case utf8_chunk b rest of (ok, n) \<Rightarrow>
        (if ok then b # take (n - 1) rest else utf8_replacement) @ utf8_lossy (drop (n - 1) rest))"
  by pat_completeness auto
termination
  by (relation "measure length") auto

lemma utf8_lossy_valid: "utf8_valid bs \<Longrightarrow> utf8_lossy bs = bs"
proof (induction bs rule: utf8_valid.induct)
  case 1
  then show ?case by simp
next
  case (2 b rest)
  obtain ok n where c: "utf8_chunk b rest = (ok, n)" by (cases "utf8_chunk b rest")
  then have "ok" and "utf8_valid (drop (n - 1) rest)"
    using "2.prems" by simp_all
  with "2.IH" [OF c [symmetric]] c show ?case by simp
qed

lemma utf8_valid_ascii: "\<forall>b \<in> set bs. b < 0x80 \<Longrightarrow> utf8_valid bs"
  by (induction bs) (simp_all add: utf8_chunk_def Let_def)

section \<open>Slices\<close>

text \<open>The \<open>n\<close> bytes from index \<open>i\<close> on.\<close>

definition slice :: "bytes \<Rightarrow> nat \<Rightarrow> nat \<Rightarrow> bytes" where
  "slice bs i n = take n (drop i bs)"

lemma concat_slices: "concat (map (\<lambda>i. slice x (i * k) k) [0..<n]) = take (n * k) x"
proof (induction n)
  case 0
  then show ?case by simp
next
  case (Suc n)
  have "Suc n * k = n * k + k" by simp
  with Suc show ?case by (simp only: upt_Suc take_add) (simp add: slice_def)
qed

section \<open>Slices of strings\<close>

definition trim_start_slash :: "bytes \<Rightarrow> bytes" where
  "trim_start_slash p = dropWhile (\<lambda>b. b = 0x2F) p"

definition trim_end_slash :: "bytes \<Rightarrow> bytes" where
  "trim_end_slash p = rev (dropWhile (\<lambda>b. b = 0x2F) (rev p))"

text \<open>\<open>str::find\<close> and \<open>str::rfind\<close> of a character, as the parts before and after it.\<close>

definition split_first :: "u8 \<Rightarrow> bytes \<Rightarrow> (bytes \<times> bytes) option" where
  "split_first c p =
     (if c \<in> set p then Some (takeWhile (\<lambda>b. b \<noteq> c) p, tl (dropWhile (\<lambda>b. b \<noteq> c) p)) else None)"

definition split_last :: "u8 \<Rightarrow> bytes \<Rightarrow> (bytes \<times> bytes) option" where
  "split_last c p =
     map_option (\<lambda>(after, before). (rev before, rev after)) (split_first c (rev p))"

lemma split_first_Some:
  assumes "split_first c p = Some (a, b)"
  shows "p = a @ c # b" and "c \<notin> set a"
proof -
  have mem: "c \<in> set p" and ab: "a = takeWhile (\<lambda>b. b \<noteq> c) p" "b = tl (dropWhile (\<lambda>b. b \<noteq> c) p)"
    using assms by (auto simp: split_first_def split: if_splits)
  have "dropWhile (\<lambda>b. b \<noteq> c) p \<noteq> []" and "hd (dropWhile (\<lambda>b. b \<noteq> c) p) = c"
    using mem hd_dropWhile [of "\<lambda>b. b \<noteq> c" p] by auto
  then show "p = a @ c # b"
    unfolding ab by (metis list.collapse takeWhile_dropWhile_id)
  show "c \<notin> set a"
    unfolding ab by (metis set_takeWhileD)
qed

lemma split_last_Some:
  assumes "split_last c p = Some (a, b)"
  shows "p = a @ c # b" and "c \<notin> set b"
proof -
  have s: "split_first c (rev p) = Some (rev b, rev a)"
    using assms by (auto simp: split_last_def)
  have "rev p = rev b @ c # rev a" using s by (rule split_first_Some)
  then have "rev (rev p) = rev (rev b @ c # rev a)" by simp
  then show "p = a @ c # b" by simp
  show "c \<notin> set b" using split_first_Some(2) [OF s] by simp
qed

lemma split_first_length: "split_first c p = Some (a, b) \<Longrightarrow> length b < length p"
  using split_first_Some(1) by fastforce

end
