(* ===== verification/Block_Device.thy ===== *)
theory Block_Device
  imports Rust_Std
begin

text \<open>
  The trait \<open>BlockDevice\<close> of \<open>kernel/src/block/mod.rs\<close>. A trait object is a
  record of its methods over the state of the device: \<open>bd_read\<close> takes the caller's
  buffer and returns it filled, \<open>bd_write\<close> takes the buffer to write. The locale
  \<open>block_device\<close> is the contract the file system relies on: a read returns the last
  512 bytes written to that sector and a write changes no other sector.
\<close>

datatype block_error = IoError | InvalidSector | ReadOnly | DeviceNotFound

record 'd block_dev =
  bd_read :: "u32 \<Rightarrow> bytes \<Rightarrow> ('d, block_error, bytes) io"
  bd_write :: "u32 \<Rightarrow> bytes \<Rightarrow> ('d, block_error, unit) io"

text \<open>The contract: \<open>content d lba\<close> is the abstract content of a sector, the first
  \<open>capacity\<close> sectors are accessible.\<close>

locale block_device =
  fixes dev :: "'d block_dev"
    and content :: "'d \<Rightarrow> u32 \<Rightarrow> bytes"
    and capacity :: u32
    and dev_inv :: "'d \<Rightarrow> bool"
  assumes content_length: "dev_inv d \<Longrightarrow> length (content d lba) = 512"
    and read_sector: "dev_inv d \<Longrightarrow> lba < capacity \<Longrightarrow> 512 \<le> length buf \<Longrightarrow>
      \<exists>d'. bd_read dev lba buf d = (Inr (content d lba @ drop 512 buf), d') \<and>
           dev_inv d' \<and> content d' = content d"
    and write_sector: "dev_inv d \<Longrightarrow> lba < capacity \<Longrightarrow> 512 \<le> length buf \<Longrightarrow>
      \<exists>d'. bd_write dev lba buf d = (Inr (), d') \<and>
           dev_inv d' \<and> content d' = (content d)(lba := take 512 buf)"
begin

lemma read_sector_exact:
  assumes "dev_inv d" and "lba < capacity" and "length buf = 512"
  obtains d' where "bd_read dev lba buf d = (Inr (content d lba), d')" "dev_inv d'"
    "content d' = content d"
  using read_sector [OF assms(1,2), of buf] assms(3) by auto

lemma write_then_read:
  assumes "dev_inv d" and "lba < capacity" and "length data = 512" and "length buf = 512"
    and "bd_write dev lba data d = (Inr (), d1)"
  shows "fst (bd_read dev lba buf d1) = Inr data"
proof -
  have d1: "dev_inv d1" "content d1 = (content d)(lba := data)"
    using write_sector [OF assms(1,2), of data] assms(3,5) by auto
  then show ?thesis
    using read_sector [OF d1(1) assms(2), of buf] assms(4) by auto
qed

end

end
