(* ===== verification/Ata_Driver.thy ===== *)
theory Ata_Driver
  imports Block_Device
begin

text \<open>
  The ATA PIO driver: \<open>kernel/src/drivers/ata/mod.rs\<close>, the driver status and error
  types of \<open>kernel/src/drivers/mod.rs\<close> and the block device adapter
  \<open>kernel/src/block/ata.rs\<close>. Port instructions belong to the machine: they are a
  record of functions over its state, a parameter of every driver function.
\<close>

section \<open>Driver types\<close>

datatype DriverStatus = Uninitialized | Initializing | Ready | StatusError | Disabled

datatype DriverError =
  DrvDeviceNotFound | InitFailed | DrvTimeout | DrvIoError | NotReady | Unsupported | InvalidParam
  | BufferTooSmall

record 'm port_io =
  inb :: "u16 \<Rightarrow> 'm \<Rightarrow> u8 \<times> 'm"
  outb :: "u16 \<Rightarrow> u8 \<Rightarrow> 'm \<Rightarrow> 'm"
  inw :: "u16 \<Rightarrow> 'm \<Rightarrow> u16 \<times> 'm"
  outw :: "u16 \<Rightarrow> u16 \<Rightarrow> 'm \<Rightarrow> 'm"

section \<open>Constants and channels\<close>

definition PRIMARY_BASE :: u16 where "PRIMARY_BASE = 0x1F0"
definition PRIMARY_CONTROL :: u16 where "PRIMARY_CONTROL = 0x3F6"
definition SECONDARY_BASE :: u16 where "SECONDARY_BASE = 0x170"
definition SECONDARY_CONTROL :: u16 where "SECONDARY_CONTROL = 0x376"
definition SECTOR_SIZE :: nat where "SECTOR_SIZE = 512"
definition STATUS_ERR :: u8 where "STATUS_ERR = 0x01"
definition STATUS_DRQ :: u8 where "STATUS_DRQ = 0x08"
definition STATUS_DF :: u8 where "STATUS_DF = 0x20"
definition STATUS_BSY :: u8 where "STATUS_BSY = 0x80"
definition CMD_READ_SECTORS :: u8 where "CMD_READ_SECTORS = 0x20"
definition CMD_WRITE_SECTORS :: u8 where "CMD_WRITE_SECTORS = 0x30"
definition CMD_IDENTIFY_DRIVE :: u8 where "CMD_IDENTIFY_DRIVE = 0xEC"
definition CMD_FLUSH_CACHE :: u8 where "CMD_FLUSH_CACHE = 0xE7"
definition MAX_RETRIES :: nat where "MAX_RETRIES = 3"
definition POLL_TIMEOUT :: nat where "POLL_TIMEOUT = 100000"

record AtaChannel =
  base_port :: u16
  control_port :: u16

definition read_reg :: "'m port_io \<Rightarrow> AtaChannel \<Rightarrow> u16 \<Rightarrow> 'm \<Rightarrow> u8 \<times> 'm" where
  "read_reg P ch off m = inb P (base_port ch + off) m"

definition write_reg :: "'m port_io \<Rightarrow> AtaChannel \<Rightarrow> u16 \<Rightarrow> u8 \<Rightarrow> 'm \<Rightarrow> 'm" where
  "write_reg P ch off v m = outb P (base_port ch + off) v m"

definition read_data_word :: "'m port_io \<Rightarrow> AtaChannel \<Rightarrow> 'm \<Rightarrow> u16 \<times> 'm" where
  "read_data_word P ch m = inw P (base_port ch) m"

definition write_data_word :: "'m port_io \<Rightarrow> AtaChannel \<Rightarrow> u16 \<Rightarrow> 'm \<Rightarrow> 'm" where
  "write_data_word P ch v m = outw P (base_port ch) v m"

definition read_alt_status :: "'m port_io \<Rightarrow> AtaChannel \<Rightarrow> 'm \<Rightarrow> u8 \<times> 'm" where
  "read_alt_status P ch m = inb P (control_port ch) m"

definition write_control :: "'m port_io \<Rightarrow> AtaChannel \<Rightarrow> u8 \<Rightarrow> 'm \<Rightarrow> 'm" where
  "write_control P ch v m = outb P (control_port ch) v m"

section \<open>The driver\<close>

record AtaDeviceInfo =
  present :: bool
  is_ata :: bool
  sectors_28 :: u32
  lba48 :: bool
  model :: bytes
  serial :: bytes
  firmware :: bytes

definition AtaDeviceInfo_new :: AtaDeviceInfo where
  "AtaDeviceInfo_new = \<lparr> present = False, is_ata = False, sectors_28 = 0, lba48 = False,
     model = [], serial = [], firmware = [] \<rparr>"

record AtaDriver =
  drv_status :: DriverStatus
  primary_master :: AtaDeviceInfo
  primary_slave :: AtaDeviceInfo
  secondary_master :: AtaDeviceInfo
  secondary_slave :: AtaDeviceInfo

definition AtaDriver_new :: AtaDriver where
  "AtaDriver_new = \<lparr> drv_status = Uninitialized, primary_master = AtaDeviceInfo_new,
     primary_slave = AtaDeviceInfo_new, secondary_master = AtaDeviceInfo_new,
     secondary_slave = AtaDeviceInfo_new \<rparr>"

definition get_channel :: "u16 \<Rightarrow> AtaChannel" where
  "get_channel base =
     (if base = PRIMARY_BASE then \<lparr> base_port = PRIMARY_BASE, control_port = PRIMARY_CONTROL \<rparr>
      else if base = SECONDARY_BASE then \<lparr> base_port = SECONDARY_BASE, control_port = SECONDARY_CONTROL \<rparr>
      else \<lparr> base_port = PRIMARY_BASE, control_port = PRIMARY_CONTROL \<rparr>)"

definition device_info :: "AtaDriver \<Rightarrow> u16 \<Rightarrow> bool \<Rightarrow> AtaDeviceInfo" where
  "device_info d base slave =
     (if base = PRIMARY_BASE \<and> \<not> slave then primary_master d
      else if base = PRIMARY_BASE \<and> slave then primary_slave d
      else if base = SECONDARY_BASE \<and> \<not> slave then secondary_master d
      else if base = SECONDARY_BASE \<and> slave then secondary_slave d
      else primary_master d)"

primrec alt_status_reads :: "'m port_io \<Rightarrow> AtaChannel \<Rightarrow> nat \<Rightarrow> 'm \<Rightarrow> 'm" where
  "alt_status_reads P ch 0 m = m"
| "alt_status_reads P ch (Suc n) m = alt_status_reads P ch n (snd (read_alt_status P ch m))"

definition select_device :: "'m port_io \<Rightarrow> AtaChannel \<Rightarrow> bool \<Rightarrow> 'm \<Rightarrow> 'm" where
  "select_device P ch slave m =
     alt_status_reads P ch 4 (write_reg P ch 6 (if slave then 0xB0 else 0xA0) m)"

definition software_reset :: "'m port_io \<Rightarrow> AtaChannel \<Rightarrow> 'm \<Rightarrow> 'm" where
  "software_reset P ch m =
     alt_status_reads P ch 4 (write_control P ch 0x00
       (alt_status_reads P ch 4 (write_control P ch 0x04 m)))"

text \<open>The polling loops, with the number of iterations left.\<close>

primrec poll_busy_loop :: "'m port_io \<Rightarrow> AtaChannel \<Rightarrow> nat \<Rightarrow> ('m, DriverError, unit) io" where
  "poll_busy_loop P ch 0 m = (Inl DrvTimeout, m)"
| "poll_busy_loop P ch (Suc n) m =
     (case read_reg P ch 7 m of (status, m') \<Rightarrow>
        if status AND STATUS_BSY = 0 then (Inr (), m') else poll_busy_loop P ch n m')"

definition poll_bsy :: "'m port_io \<Rightarrow> AtaChannel \<Rightarrow> ('m, DriverError, unit) io" where
  "poll_bsy P ch = poll_busy_loop P ch POLL_TIMEOUT"

definition poll_not_busy :: "'m port_io \<Rightarrow> AtaChannel \<Rightarrow> ('m, DriverError, unit) io" where
  "poll_not_busy P ch = poll_busy_loop P ch POLL_TIMEOUT"

primrec poll_drq_loop :: "'m port_io \<Rightarrow> AtaChannel \<Rightarrow> nat \<Rightarrow> ('m, DriverError, unit) io" where
  "poll_drq_loop P ch 0 m = (Inl DrvTimeout, m)"
| "poll_drq_loop P ch (Suc n) m =
     (case read_reg P ch 7 m of (status, m') \<Rightarrow>
        if status AND STATUS_BSY = 0 \<and> status AND STATUS_DRQ \<noteq> 0 then (Inr (), m')
        else if status AND (STATUS_ERR OR STATUS_DF) \<noteq> 0 then (Inl DrvIoError, m')
        else poll_drq_loop P ch n m')"

definition poll_drq :: "'m port_io \<Rightarrow> AtaChannel \<Rightarrow> ('m, DriverError, unit) io" where
  "poll_drq P ch = poll_drq_loop P ch POLL_TIMEOUT"

definition swap_bytes :: "u16 \<Rightarrow> bytes" where
  "swap_bytes word = [ucast (drop_bit 8 word), ucast word]"

definition extract_string :: "u16 list \<Rightarrow> nat \<Rightarrow> nat \<Rightarrow> bytes" where
  "extract_string words start_word end_word =
     (let bytes = concat (map (\<lambda>i. swap_bytes (words ! i)) [start_word..<end_word + 1]) in
      rev (dropWhile (\<lambda>b. b = 0x20 \<or> b = 0) (rev bytes)))"

primrec read_words :: "'m port_io \<Rightarrow> AtaChannel \<Rightarrow> nat \<Rightarrow> 'm \<Rightarrow> u16 list \<times> 'm" where
  "read_words P ch 0 m = ([], m)"
| "read_words P ch (Suc n) m =
     (case read_data_word P ch m of (w, m') \<Rightarrow>
      case read_words P ch n m' of (ws, m'') \<Rightarrow> (w # ws, m''))"

definition probe_device :: "'m port_io \<Rightarrow> AtaChannel \<Rightarrow> bool \<Rightarrow> 'm \<Rightarrow> AtaDeviceInfo \<times> 'm" where
  "probe_device P ch slave m0 =
     (let info = AtaDeviceInfo_new;
          m1 = select_device P ch slave m0;
          m2 = write_reg P ch 7 CMD_IDENTIFY_DRIVE (write_reg P ch 5 0 (write_reg P ch 4 0
                 (write_reg P ch 3 0 (write_reg P ch 2 0 (write_reg P ch 1 0 m1))))) in
      case read_reg P ch 7 m2 of (status, m3) \<Rightarrow>
      if status = 0 then (info, m3)
      else case poll_bsy P ch m3 of (Inl e, m4) \<Rightarrow> (info, m4) | (Inr _, m4) \<Rightarrow>
        (case read_reg P ch 4 m4 of (mid, m5) \<Rightarrow>
         case read_reg P ch 5 m5 of (high, m6) \<Rightarrow>
         if mid \<noteq> 0 \<or> high \<noteq> 0 then (info, m6)
         else case poll_drq P ch m6 of (Inl e, m7) \<Rightarrow> (info, m7) | (Inr _, m7) \<Rightarrow>
           (case read_words P ch 256 m7 of (ident, m8) \<Rightarrow>
            case poll_not_busy P ch m8 of (Inl e, m9) \<Rightarrow> (info, m9) | (Inr _, m9) \<Rightarrow>
              (\<lparr> present = True, is_ata = True,
                 sectors_28 = push_bit 16 (ucast (ident ! 61)) OR ucast (ident ! 60),
                 lba48 = (ident ! 83 AND push_bit 10 1 \<noteq> 0),
                 model = extract_string ident 27 46,
                 serial = extract_string ident 10 19,
                 firmware = extract_string ident 23 26 \<rparr>, m9))))"

subsection \<open>Reading\<close>

text \<open>The registers of a 28-bit transfer of one sector.\<close>

definition setup_transfer ::
  "'m port_io \<Rightarrow> AtaChannel \<Rightarrow> bool \<Rightarrow> u32 \<Rightarrow> u8 \<Rightarrow> 'm \<Rightarrow> 'm" where
  "setup_transfer P ch slave sector_lba cmd m0 =
     (let m1 = select_device P ch slave m0;
          m2 = write_reg P ch 1 0x00 m1;
          m3 = write_reg P ch 2 0x01 m2;
          m4 = write_reg P ch 3 (ucast (sector_lba AND 0xFF)) m3;
          m5 = write_reg P ch 4 (ucast (drop_bit 8 sector_lba AND 0xFF)) m4;
          m6 = write_reg P ch 5 (ucast (drop_bit 16 sector_lba AND 0xFF)) m5;
          m7 = write_reg P ch 6 (0xE0 OR (if slave then 0x10 else 0x00)
                 OR ucast (drop_bit 24 sector_lba AND 0x0F)) m6 in
      write_reg P ch 7 cmd m7)"

text \<open>The transfer of the 256 words of a sector into the buffer.\<close>

definition store_word :: "nat \<Rightarrow> nat \<Rightarrow> u16 \<Rightarrow> bytes \<Rightarrow> bytes" where
  "store_word buf_offset i word buf =
     (let byte_idx = buf_offset + i * 2 in
      if byte_idx + 1 < length buf
      then buf[byte_idx := ucast (word AND 0xFF), byte_idx + 1 := ucast (drop_bit 8 word)]
      else buf)"

primrec read_data_loop ::
  "'m port_io \<Rightarrow> AtaChannel \<Rightarrow> nat \<Rightarrow> nat list \<Rightarrow> bytes \<Rightarrow> 'm \<Rightarrow> bytes \<times> 'm" where
  "read_data_loop P ch buf_offset [] buf m = (buf, m)"
| "read_data_loop P ch buf_offset (i # is) buf m =
     (case read_data_word P ch m of (word, m') \<Rightarrow>
        read_data_loop P ch buf_offset is (store_word buf_offset i word buf) m')"

text \<open>The checks after a transfer: wait until the device is no longer busy, then look at the
  error bits.\<close>

definition finish_transfer :: "'m port_io \<Rightarrow> AtaChannel \<Rightarrow> ('m, DriverError, unit) io" where
  "finish_transfer P ch m =
     (case poll_not_busy P ch m of
        (Inl e, m') \<Rightarrow> (Inl e, software_reset P ch m')
      | (Inr _, m') \<Rightarrow>
          (case read_reg P ch 7 m' of (status, m'') \<Rightarrow>
             if status AND (STATUS_ERR OR STATUS_DF) \<noteq> 0
             then (Inl DrvIoError, software_reset P ch m'')
             else (Inr (), m'')))"

text \<open>One attempt to read a sector: the outcome, the buffer and the machine.\<close>

definition read_attempt ::
  "'m port_io \<Rightarrow> AtaChannel \<Rightarrow> bool \<Rightarrow> u32 \<Rightarrow> nat \<Rightarrow> bytes \<Rightarrow> 'm \<Rightarrow>
     (DriverError + unit) \<times> bytes \<times> 'm" where
  "read_attempt P ch slave sector_lba buf_offset buf m =
     (case poll_drq P ch (setup_transfer P ch slave sector_lba CMD_READ_SECTORS m) of
        (Inl e, m') \<Rightarrow> (Inl e, buf, software_reset P ch m')
      | (Inr _, m') \<Rightarrow>
          (case read_data_loop P ch buf_offset [0..<256] buf m' of (buf', m'') \<Rightarrow>
           case finish_transfer P ch m'' of (r, m''') \<Rightarrow> (r, buf', m''')))"

text \<open>The retries of one sector; the error of the last attempt is kept.\<close>

primrec read_retries ::
  "'m port_io \<Rightarrow> AtaChannel \<Rightarrow> bool \<Rightarrow> u32 \<Rightarrow> nat \<Rightarrow> nat \<Rightarrow> DriverError \<Rightarrow> bytes \<Rightarrow> 'm \<Rightarrow>
     (DriverError + unit) \<times> bytes \<times> 'm" where
  "read_retries P ch slave sector_lba buf_offset 0 last_error buf m = (Inl last_error, buf, m)"
| "read_retries P ch slave sector_lba buf_offset (Suc n) last_error buf m =
     (case read_attempt P ch slave sector_lba buf_offset buf m of
        (Inr _, buf', m') \<Rightarrow> (Inr (), buf', m')
      | (Inl e, buf', m') \<Rightarrow> read_retries P ch slave sector_lba buf_offset n e buf' m')"

primrec read_sectors_loop ::
  "'m port_io \<Rightarrow> AtaChannel \<Rightarrow> bool \<Rightarrow> u32 \<Rightarrow> nat list \<Rightarrow> bytes \<Rightarrow> 'm \<Rightarrow>
     (DriverError + unit) \<times> bytes \<times> 'm" where
  "read_sectors_loop P ch slave lba [] buf m = (Inr (), buf, m)"
| "read_sectors_loop P ch slave lba (k # ks) buf m =
     (case read_retries P ch slave (lba + of_nat k) (k * SECTOR_SIZE) MAX_RETRIES DrvIoError buf m of
        (Inl e, buf', m') \<Rightarrow> (Inl e, buf', m')
      | (Inr _, buf', m') \<Rightarrow> read_sectors_loop P ch slave lba ks buf' m')"

definition read_sectors ::
  "'m port_io \<Rightarrow> u16 \<Rightarrow> bool \<Rightarrow> u32 \<Rightarrow> u32 \<Rightarrow> bytes \<Rightarrow> 'm \<Rightarrow> (DriverError + unit) \<times> bytes \<times> 'm" where
  "read_sectors P channel_base slave lba count buf m =
     (let channel = get_channel channel_base in
      if length buf < unat count * SECTOR_SIZE then (Inl BufferTooSmall, buf, m)
      else if 0 < count \<and> 2 ^ 32 \<le> unat lba + unat (count - 1) then (Inl InvalidParam, buf, m)
      else read_sectors_loop P channel slave lba [0..<unat count] buf m)"

subsection \<open>Writing\<close>

definition load_word :: "nat \<Rightarrow> nat \<Rightarrow> bytes \<Rightarrow> u16" where
  "load_word buf_offset i buf =
     (let byte_idx = buf_offset + i * 2 in
      if byte_idx + 1 < length buf
      then ucast (buf ! byte_idx) OR push_bit 8 (ucast (buf ! (byte_idx + 1)))
      else 0)"

definition write_data_loop ::
  "'m port_io \<Rightarrow> AtaChannel \<Rightarrow> nat \<Rightarrow> nat list \<Rightarrow> bytes \<Rightarrow> 'm \<Rightarrow> 'm" where
  "write_data_loop P ch buf_offset is buf m =
     fold (\<lambda>i m. write_data_word P ch (load_word buf_offset i buf) m) is m"

definition write_attempt ::
  "'m port_io \<Rightarrow> AtaChannel \<Rightarrow> bool \<Rightarrow> u32 \<Rightarrow> nat \<Rightarrow> bytes \<Rightarrow> ('m, DriverError, unit) io" where
  "write_attempt P ch slave sector_lba buf_offset buf m =
     (case poll_drq P ch (setup_transfer P ch slave sector_lba CMD_WRITE_SECTORS m) of
        (Inl e, m') \<Rightarrow> (Inl e, software_reset P ch m')
      | (Inr _, m') \<Rightarrow>
          (case finish_transfer P ch (write_data_loop P ch buf_offset [0..<256] buf m') of
             (Inl e, m'') \<Rightarrow> (Inl e, m'')
           | (Inr _, m'') \<Rightarrow> finish_transfer P ch (write_reg P ch 7 CMD_FLUSH_CACHE m'')))"

primrec write_retries ::
  "'m port_io \<Rightarrow> AtaChannel \<Rightarrow> bool \<Rightarrow> u32 \<Rightarrow> nat \<Rightarrow> nat \<Rightarrow> DriverError \<Rightarrow> bytes \<Rightarrow>
     ('m, DriverError, unit) io" where
  "write_retries P ch slave sector_lba buf_offset 0 last_error buf m = (Inl last_error, m)"
| "write_retries P ch slave sector_lba buf_offset (Suc n) last_error buf m =
     (case write_attempt P ch slave sector_lba buf_offset buf m of
        (Inr _, m') \<Rightarrow> (Inr (), m')
      | (Inl e, m') \<Rightarrow> write_retries P ch slave sector_lba buf_offset n e buf m')"

definition write_sectors ::
  "'m port_io \<Rightarrow> u16 \<Rightarrow> bool \<Rightarrow> u32 \<Rightarrow> u32 \<Rightarrow> bytes \<Rightarrow> ('m, DriverError, unit) io" where
  "write_sectors P channel_base slave lba count buf =
     (let channel = get_channel channel_base in
      if length buf < unat count * SECTOR_SIZE then io_err BufferTooSmall
      else if 0 < count \<and> 2 ^ 32 \<le> unat lba + unat (count - 1) then io_err InvalidParam
      else io_for [0..<unat count] (\<lambda>k. write_retries P channel slave (lba + of_nat k)
             (k * SECTOR_SIZE) MAX_RETRIES DrvIoError buf))"

subsection \<open>The driver trait\<close>

text \<open>Probing the four devices, shared by \<open>init\<close> and \<open>reset\<close>.\<close>

definition probe_all :: "'m port_io \<Rightarrow> AtaDriver \<Rightarrow> 'm \<Rightarrow> AtaDriver \<times> 'm" where
  "probe_all P d m =
     (let primary = get_channel PRIMARY_BASE; secondary = get_channel SECONDARY_BASE;
          m = software_reset P secondary (software_reset P primary m) in
      case probe_device P primary False m of (pm, m) \<Rightarrow>
      case probe_device P primary True m of (ps, m) \<Rightarrow>
      case probe_device P secondary False m of (sm, m) \<Rightarrow>
      case probe_device P secondary True m of (ss, m) \<Rightarrow>
        (d \<lparr> primary_master := pm, primary_slave := ps, secondary_master := sm,
             secondary_slave := ss \<rparr>, m))"

definition ata_probe :: "AtaDriver \<Rightarrow> bool" where
  "ata_probe d \<longleftrightarrow> present (primary_master d) \<or> present (primary_slave d)
     \<or> present (secondary_master d) \<or> present (secondary_slave d)"

definition ata_init :: "'m port_io \<Rightarrow> AtaDriver \<Rightarrow> 'm \<Rightarrow> (DriverError + unit) \<times> AtaDriver \<times> 'm" where
  "ata_init P d m =
     (case probe_all P (d \<lparr> drv_status := Initializing \<rparr>) m of (d, m) \<Rightarrow>
      let found = (present (primary_master d) \<and> is_ata (primary_master d))
            \<or> (present (primary_slave d) \<and> is_ata (primary_slave d))
            \<or> (present (secondary_master d) \<and> is_ata (secondary_master d))
            \<or> (present (secondary_slave d) \<and> is_ata (secondary_slave d)) in
      if found then (Inr (), d \<lparr> drv_status := Ready \<rparr>, m)
      else (Inl DrvDeviceNotFound, d \<lparr> drv_status := StatusError \<rparr>, m))"

definition ata_reset :: "'m port_io \<Rightarrow> AtaDriver \<Rightarrow> 'm \<Rightarrow> (DriverError + unit) \<times> AtaDriver \<times> 'm" where
  "ata_reset P d m =
     (case probe_all P (d \<lparr> drv_status := Initializing \<rparr>) m of (d, m) \<Rightarrow>
      (Inr (), d \<lparr> drv_status := (if ata_probe d then Ready else StatusError) \<rparr>, m))"

definition ata_shutdown :: "AtaDriver \<Rightarrow> AtaDriver" where
  "ata_shutdown d = d \<lparr> drv_status := Disabled \<rparr>"

text \<open>The global driver and the machine.\<close>

record 'm ata_world =
  ATA :: "AtaDriver option"
  machine :: 'm

definition init_ata_driver :: "'m port_io \<Rightarrow> 'm ata_world \<Rightarrow> (DriverError + unit) \<times> 'm ata_world" where
  "init_ata_driver P w =
     (case ata_init P AtaDriver_new (machine w) of
        (Inl e, _, m) \<Rightarrow> (Inl e, w \<lparr> machine := m \<rparr>)
      | (Inr _, d, m) \<Rightarrow> (Inr (), w \<lparr> ATA := Some d, machine := m \<rparr>))"

section \<open>The block device adapter\<close>

record AtaBlockDevice =
  abd_base_port :: u16
  abd_slave :: bool

definition abd_primary_master :: AtaBlockDevice where
  "abd_primary_master = \<lparr> abd_base_port = PRIMARY_BASE, abd_slave = False \<rparr>"

definition abd_read_sector ::
  "'m port_io \<Rightarrow> AtaBlockDevice \<Rightarrow> u32 \<Rightarrow> bytes \<Rightarrow> ('m ata_world, block_error, bytes) io" where
  "abd_read_sector P b lba buf w =
     (case ATA w of None \<Rightarrow> (Inl DeviceNotFound, w)
      | Some driver \<Rightarrow>
          (case read_sectors P (abd_base_port b) (abd_slave b) lba 1 buf (machine w) of
             (Inl e, buf', m') \<Rightarrow> (Inl IoError, w \<lparr> machine := m' \<rparr>)
           | (Inr _, buf', m') \<Rightarrow> (Inr buf', w \<lparr> machine := m' \<rparr>)))"

definition abd_write_sector ::
  "'m port_io \<Rightarrow> AtaBlockDevice \<Rightarrow> u32 \<Rightarrow> bytes \<Rightarrow> ('m ata_world, block_error, unit) io" where
  "abd_write_sector P b lba buf w =
     (case ATA w of None \<Rightarrow> (Inl DeviceNotFound, w)
      | Some driver \<Rightarrow>
          (case write_sectors P (abd_base_port b) (abd_slave b) lba 1 buf (machine w) of
             (Inl e, m') \<Rightarrow> (Inl IoError, w \<lparr> machine := m' \<rparr>)
           | (Inr _, m') \<Rightarrow> (Inr (), w \<lparr> machine := m' \<rparr>)))"

definition abd_total_sectors :: "AtaBlockDevice \<Rightarrow> 'm ata_world \<Rightarrow> u32" where
  "abd_total_sectors b w =
     (case ATA w of None \<Rightarrow> 0
      | Some d \<Rightarrow> sectors_28 (device_info d (abd_base_port b) (abd_slave b)))"

text \<open>The trait object the file system holds.\<close>

definition ata_block_dev :: "'m port_io \<Rightarrow> AtaBlockDevice \<Rightarrow> 'm ata_world block_dev" where
  "ata_block_dev P b = \<lparr> bd_read = abd_read_sector P b, bd_write = abd_write_sector P b \<rparr>"

end
