(* ===== verification/Ata_Protocol.thy ===== *)
theory Ata_Protocol
  imports Ata_Driver
begin

text \<open>
  What the driver relies on of the hardware: the PIO data-in and data-out protocols of
  an ATA drive on one channel, as the locale \<open>pio_drive\<close>. A machine state has a
  protocol phase, the values last written to the task file registers, the number of
  status reads for which the drive stays busy, and the contents of the sectors. Under
  these laws the driver transfers whole sectors, and the block device adapter keeps
  the contract \<open>block_device\<close>.
\<close>

datatype pio_phase = Pio_Idle | Pio_Read u32 nat | Pio_Write u32 "u16 list" | Pio_Identify nat

text \<open>The 28-bit address in the task file.\<close>

definition tf_lba :: "(u16 \<Rightarrow> u8) \<Rightarrow> u32" where
  "tf_lba tf = ucast (tf 3) OR push_bit 8 (ucast (tf 4)) OR push_bit 16 (ucast (tf 5))
     OR push_bit 24 (ucast (tf 6 AND 0x0F))"

text \<open>A task file that selects the drive, addresses it in LBA mode and asks for one sector.\<close>

definition tf_ready :: "bool \<Rightarrow> (u16 \<Rightarrow> u8) \<Rightarrow> bool" where
  "tf_ready slave tf \<longleftrightarrow> tf 2 = 1 \<and> bit (tf 6) 6 \<and> bit (tf 6) 4 = slave"

lemma head_register:
  assumes "s AND 0x0F = (0 :: u8)"
  shows "(0xE0 OR s OR ucast (drop_bit 24 lba AND 0x0F)) AND 0x0F = (ucast (drop_bit 24 (lba :: u32) AND 0x0F) :: u8)"
proof -
  have m: "(0x0F :: u8) = mask 4" "(0x0F :: u32) = mask 4"
    by (simp_all add: mask_eq_exp_minus_1)
  have "(0xE0 OR s OR ucast (drop_bit 24 lba AND 0x0F)) AND 0x0F =
      (0xE0 AND 0x0F) OR (s AND 0x0F) OR (ucast (drop_bit 24 lba AND 0x0F) AND (0x0F :: u8))"
    by (simp only: bit.conj_disj_distrib2)
  also have "\<dots> = ucast (drop_bit 24 lba AND 0x0F) AND (0x0F :: u8)"
    using assms by simp
  also have "\<dots> = ucast (drop_bit 24 lba AND 0x0F)"
    unfolding m by (rule bit_word_eqI) (auto simp: bit_simps)
  finally show ?thesis .
qed

lemma head_register_bits:
  "bit (0xE0 OR (if sl then 0x10 else 0x00) OR ucast (drop_bit 24 (lba :: u32) AND 0x0F) :: u8) 6"
  "bit (0xE0 OR (if sl then 0x10 else 0x00) OR ucast (drop_bit 24 (lba :: u32) AND 0x0F) :: u8) 4 = sl"
proof -
  have m: "(0x0F :: u32) = mask 4" by (simp add: mask_eq_exp_minus_1)
  have n: "bit (0xE0 :: u8) 6" "\<not> bit (0xE0 :: u8) 4" "bit (0x10 :: u8) 4"
    by code_simp+
  show "bit (0xE0 OR (if sl then 0x10 else 0x00) OR ucast (drop_bit 24 lba AND 0x0F) :: u8) 6"
    using n by (simp add: bit_or_iff)
  show "bit (0xE0 OR (if sl then 0x10 else 0x00) OR ucast (drop_bit 24 lba AND 0x0F) :: u8) 4 = sl"
    unfolding m using n by (simp add: bit_simps)
qed

lemma not_bit_28:
  assumes "unat (lba :: u32) < 2 ^ 28" and "28 \<le> n"
  shows "\<not> bit lba n"
proof -
  have "take_bit 28 lba = lba"
    using assms(1) by (simp add: word_unat_eq_iff unsigned_take_bit_eq take_bit_nat_eq_self)
  then show ?thesis
    using assms(2) by (metis bit_take_bit_iff not_less)
qed

lemma lba_registers:
  assumes "unat (lba :: u32) < 2 ^ 28" and "s AND 0x0F = 0"
    and "f 3 = ucast (lba AND 0xFF)" and "f 4 = ucast (drop_bit 8 lba AND 0xFF)"
    and "f 5 = ucast (drop_bit 16 lba AND 0xFF)"
    and "f 6 = 0xE0 OR s OR ucast (drop_bit 24 lba AND 0x0F)"
  shows "tf_lba f = lba"
proof -
  have m: "(0x0F :: u32) = mask 4" "(0xFF :: u32) = mask 8"
    by (simp_all add: mask_eq_exp_minus_1)
  have b6: "f 6 AND 0x0F = ucast (drop_bit 24 lba AND 0x0F)"
    unfolding assms(6) by (rule head_register [OF assms(2)])
  let ?r = "ucast (ucast (lba AND mask 8) :: u8) OR push_bit 8 (ucast (ucast (drop_bit 8 lba AND mask 8) :: u8))
      OR push_bit 16 (ucast (ucast (drop_bit 16 lba AND mask 8) :: u8))
      OR push_bit 24 (ucast (ucast (drop_bit 24 lba AND mask 4) :: u8)) :: u32"
  have "tf_lba f = ?r"
    unfolding tf_lba_def assms(3-5) b6 m ..
  also have "\<dots> = lba"
  proof (rule bit_word_eqI)
    fix n
    assume "n < LENGTH(32)"
    then consider "n < 8" | "8 \<le> n" "n < 16" | "16 \<le> n" "n < 24" | "24 \<le> n" "n < 28" | "28 \<le> n" "n < 32"
      by fastforce
    then show "bit ?r n = bit lba n"
      by cases (auto simp: bit_simps not_bit_28 [OF assms(1)])
  qed
  finally show ?thesis .
qed

text \<open>Storing the words of a sector one by one fills the slice of the buffer.\<close>

lemma u16_bytes: "ucast (w AND 0xFF) = (ucast w :: u8)" for w :: u16
proof -
  have m: "(0xFF :: u16) = mask 8" by (simp add: mask_eq_exp_minus_1)
  show ?thesis unfolding m by (rule bit_word_eqI) (auto simp: bit_simps)
qed

lemma store_word_step:
  assumes "length S = 512" and "i < 256" and "off + 512 \<le> length buf"
  shows "store_word off i (le16_at S (2 * i)) (take off buf @ take (2 * i) S @ drop (off + 2 * i) buf) =
    take off buf @ take (2 * Suc i) S @ drop (off + 2 * Suc i) buf"
proof -
  let ?b = "take off buf @ take (2 * i) S @ drop (off + 2 * i) buf"
  have b: "S ! (2 * i) = ucast (le16_at S (2 * i) AND 0xFF)"
      "S ! (2 * i + 1) = ucast (drop_bit 8 (le16_at S (2 * i)))"
    unfolding u16_bytes le16_at_def u16_from_le_inverse by simp_all
  have len: "length ?b = length buf" and lt: "off + i * 2 + 1 < length buf"
    using assms by auto
  have st: "store_word off i (le16_at S (2 * i)) ?b =
      ?b[off + 2 * i := S ! (2 * i), off + 2 * i + 1 := S ! (2 * i + 1)]"
    unfolding store_word_def len b using lt by (simp add: mult.commute Let_def)
  show ?thesis
    unfolding st
  proof (rule nth_equalityI)
    show "length (?b[off + 2 * i := S ! (2 * i), off + 2 * i + 1 := S ! (2 * i + 1)]) =
        length (take off buf @ take (2 * Suc i) S @ drop (off + 2 * Suc i) buf)"
      using assms by simp
    fix j
    assume "j < length (?b[off + 2 * i := S ! (2 * i), off + 2 * i + 1 := S ! (2 * i + 1)])"
    then have j: "j < length buf" unfolding length_list_update len .
    have bj: "?b ! j = (if j < off then buf ! j else if j < off + 2 * i then S ! (j - off) else buf ! j)"
      using assms j by (auto simp: nth_append)
    have rj: "(take off buf @ take (2 * Suc i) S @ drop (off + 2 * Suc i) buf) ! j =
        (if j < off then buf ! j else if j < off + 2 * Suc i then S ! (j - off) else buf ! j)"
    proof -
      have "Suc (Suc (j - 2)) = j" if "\<not> j < Suc (Suc (off + 2 * i))" using that by simp
      then show ?thesis using assms j by (auto simp: nth_append)
    qed
    consider "j = off + 2 * i" | "j = off + 2 * i + 1" | "j < off + 2 * i" | "off + 2 * i + 1 < j"
      by linarith
    then show "?b[off + 2 * i := S ! (2 * i), off + 2 * i + 1 := S ! (2 * i + 1)] ! j =
        (take off buf @ take (2 * Suc i) S @ drop (off + 2 * Suc i) buf) ! j"
      unfolding rj using len j by cases (simp_all add: nth_list_update bj)
  qed
qed

lemma load_word_bytes:
  assumes "off + 512 \<le> length buf" and "i < 256"
  shows "u16_to_le (load_word off i buf) = take 2 (drop (off + 2 * i) buf)"
proof -
  have lt: "off + i * 2 + 1 < length buf" using assms by auto
  have "load_word off i buf = u16_from_le (buf ! (off + 2 * i)) (buf ! (off + 2 * i + 1))"
    using lt by (simp add: load_word_def u16_from_le_def mult.commute Let_def)
  moreover have "take 2 (drop (off + 2 * i) buf) = [buf ! (off + 2 * i), buf ! (off + 2 * i + 1)]"
    using lt by (simp add: take_Suc_conv_app_nth numeral_2_eq_2 mult.commute)
  ultimately show ?thesis
    by (simp add: u16_to_le_def u16_from_le_inverse)
qed

text \<open>The first attempt that succeeds ends the retries.\<close>

lemma read_retries_first:
  assumes "read_attempt P ch slave lba off buf m = (Inr u, buf', m')"
  shows "read_retries P ch slave lba off MAX_RETRIES e buf m = (Inr (), buf', m')"
  using assms by (simp add: MAX_RETRIES_def numeral_3_eq_3)

lemma write_retries_first:
  assumes "write_attempt P ch slave lba off buf m = (Inr u, m')"
  shows "write_retries P ch slave lba off MAX_RETRIES e buf m = (Inr (), m')"
  using assms by (simp add: MAX_RETRIES_def numeral_3_eq_3)

locale pio_drive =
  fixes P :: "'m port_io" and ch :: AtaChannel and slave :: bool
    and phase :: "'m \<Rightarrow> pio_phase" and tf :: "'m \<Rightarrow> u16 \<Rightarrow> u8" and delay :: "'m \<Rightarrow> nat"
    and sec :: "'m \<Rightarrow> u32 \<Rightarrow> bytes" and cap :: u32 and hw :: "'m \<Rightarrow> bool"
  assumes sec_length: "hw m \<Longrightarrow> length (sec m l) = 512"
    and cap_28: "unat cap \<le> 2 ^ 28"
    and write_taskfile: "hw m \<Longrightarrow> phase m = Pio_Idle \<Longrightarrow> delay m = 0 \<Longrightarrow> off \<in> {1, 2, 3, 4, 5, 6} \<Longrightarrow>
      m' = outb P (base_port ch + off) v m \<Longrightarrow>
      hw m' \<and> phase m' = Pio_Idle \<and> delay m' = 0 \<and> tf m' = (tf m)(off := v) \<and> sec m' = sec m"
    and alt_status: "hw m \<Longrightarrow> phase m = Pio_Idle \<Longrightarrow> delay m = 0 \<Longrightarrow> m' = snd (inb P (control_port ch) m) \<Longrightarrow>
      hw m' \<and> phase m' = Pio_Idle \<and> delay m' = 0 \<and> tf m' = tf m \<and> sec m' = sec m"
    and cmd_read: "hw m \<Longrightarrow> phase m = Pio_Idle \<Longrightarrow> delay m = 0 \<Longrightarrow> tf_ready slave (tf m) \<Longrightarrow>
      tf_lba (tf m) < cap \<Longrightarrow> m' = outb P (base_port ch + 7) 0x20 m \<Longrightarrow>
      hw m' \<and> phase m' = Pio_Read (tf_lba (tf m)) 0 \<and> delay m' < 100000 \<and> sec m' = sec m"
    and cmd_write: "hw m \<Longrightarrow> phase m = Pio_Idle \<Longrightarrow> delay m = 0 \<Longrightarrow> tf_ready slave (tf m) \<Longrightarrow>
      tf_lba (tf m) < cap \<Longrightarrow> m' = outb P (base_port ch + 7) 0x30 m \<Longrightarrow>
      hw m' \<and> phase m' = Pio_Write (tf_lba (tf m)) [] \<and> delay m' < 100000 \<and> sec m' = sec m"
    and cmd_flush: "hw m \<Longrightarrow> phase m = Pio_Idle \<Longrightarrow> delay m = 0 \<Longrightarrow> m' = outb P (base_port ch + 7) 0xE7 m \<Longrightarrow>
      hw m' \<and> phase m' = Pio_Idle \<and> delay m' < 100000 \<and> sec m' = sec m"
    and status: "hw m \<Longrightarrow> (v, m') = inb P (base_port ch + 7) m \<Longrightarrow>
      hw m' \<and> phase m' = phase m \<and> delay m' = delay m - 1 \<and> sec m' = sec m \<and>
      (v AND 0x80 = 0 \<longleftrightarrow> delay m = 0) \<and> v AND 0x21 = 0 \<and>
      (delay m = 0 \<longrightarrow> (v AND 0x08 \<noteq> 0 \<longleftrightarrow> phase m \<noteq> Pio_Idle))"
    and data_in: "hw m \<Longrightarrow> phase m = Pio_Read l i \<Longrightarrow> i < 256 \<Longrightarrow> delay m = 0 \<Longrightarrow>
      (w, m') = inw P (base_port ch) m \<Longrightarrow>
      w = le16_at (sec m l) (2 * i) \<and> hw m' \<and> sec m' = sec m \<and>
      (if i = 255 then phase m' = Pio_Idle \<and> delay m' < 100000
       else phase m' = Pio_Read l (Suc i) \<and> delay m' = 0)"
    and data_out: "hw m \<Longrightarrow> phase m = Pio_Write l ws \<Longrightarrow> length ws < 256 \<Longrightarrow> delay m = 0 \<Longrightarrow>
      m' = outw P (base_port ch) w m \<Longrightarrow>
      hw m' \<and>
      (if length ws = 255
       then phase m' = Pio_Idle \<and> delay m' < 100000 \<and>
            sec m' = (sec m)(l := concat (map u16_to_le (ws @ [w])))
       else phase m' = Pio_Write l (ws @ [w]) \<and> delay m' = 0 \<and> sec m' = sec m)"
begin

definition idle :: "'m \<Rightarrow> bool" where
  "idle m \<longleftrightarrow> hw m \<and> phase m = Pio_Idle \<and> delay m = 0"

lemma write_reg_idle:
  assumes "idle m" and "off \<in> {1, 2, 3, 4, 5, 6}"
  shows "idle (write_reg P ch off v m)" "tf (write_reg P ch off v m) = (tf m)(off := v)"
    "sec (write_reg P ch off v m) = sec m"
  using write_taskfile [OF _ _ _ assms(2) refl, of m v] assms(1) by (simp_all add: idle_def write_reg_def)

lemma alt_status_reads_idle:
  assumes "idle m"
  shows "idle (alt_status_reads P ch n m) \<and> tf (alt_status_reads P ch n m) = tf m \<and>
    sec (alt_status_reads P ch n m) = sec m"
  using assms
proof (induction n arbitrary: m)
  case (Suc n)
  let ?m = "snd (read_alt_status P ch m)"
  have "idle ?m" "tf ?m = tf m" "sec ?m = sec m"
    using alt_status [OF _ _ _ refl, of m] Suc.prems by (simp_all add: idle_def read_alt_status_def)
  then show ?case using Suc.IH [of ?m] by simp
qed simp

lemma poll_busy_ok:
  assumes "hw m" and "delay m < n"
  shows "\<exists>m'. poll_busy_loop P ch n m = (Inr (), m') \<and> hw m' \<and> delay m' = 0 \<and> phase m' = phase m \<and>
    sec m' = sec m"
  using assms
proof (induction n arbitrary: m)
  case (Suc n)
  obtain v m1 where r: "read_reg P ch 7 m = (v, m1)" by (cases "read_reg P ch 7 m")
  then have s: "hw m1" "phase m1 = phase m" "delay m1 = delay m - 1" "sec m1 = sec m"
      "v AND 0x80 = 0 \<longleftrightarrow> delay m = 0"
    using status [OF Suc.prems(1), of v m1] by (auto simp: read_reg_def)
  show ?case
  proof (cases "delay m = 0")
    case True
    then show ?thesis using r s by (simp add: STATUS_BSY_def)
  next
    case False
    then show ?thesis
      using r s Suc.IH [of m1] Suc.prems(2) by (simp add: STATUS_BSY_def)
  qed
qed simp

lemma poll_drq_loop_ok:
  assumes "hw m" and "delay m < n" and "phase m \<noteq> Pio_Idle"
  shows "\<exists>m'. poll_drq_loop P ch n m = (Inr (), m') \<and> hw m' \<and> delay m' = 0 \<and> phase m' = phase m \<and>
    sec m' = sec m"
  using assms
proof (induction n arbitrary: m)
  case (Suc n)
  obtain v m1 where r: "read_reg P ch 7 m = (v, m1)" by (cases "read_reg P ch 7 m")
  then have s: "hw m1" "phase m1 = phase m" "delay m1 = delay m - 1" "sec m1 = sec m"
      "v AND 0x80 = 0 \<longleftrightarrow> delay m = 0" "v AND 0x21 = 0" "delay m = 0 \<Longrightarrow> v AND 0x08 \<noteq> 0"
    using status [OF Suc.prems(1), of v m1] Suc.prems(3) by (auto simp: read_reg_def)
  have e: "STATUS_ERR OR STATUS_DF = 0x21"
    by (simp add: STATUS_ERR_def STATUS_DF_def)
  show ?case
  proof (cases "delay m = 0")
    case True
    then show ?thesis using r s by (simp add: STATUS_BSY_def STATUS_DRQ_def)
  next
    case False
    then show ?thesis
      using r s Suc.IH [of m1] Suc.prems(2,3) by (simp add: STATUS_BSY_def e)
  qed
qed simp

lemma poll_drq_ok:
  assumes "hw m" and "delay m < 100000" and "phase m \<noteq> Pio_Idle"
  obtains m' where "poll_drq P ch m = (Inr (), m')" "hw m'" "delay m' = 0" "phase m' = phase m"
    "sec m' = sec m"
  using poll_drq_loop_ok [of m POLL_TIMEOUT] assms by (auto simp: poll_drq_def POLL_TIMEOUT_def)

lemma finish_transfer_ok:
  assumes "hw m" and "delay m < 100000" and "phase m = Pio_Idle"
  obtains m' where "finish_transfer P ch m = (Inr (), m')" "idle m'" "sec m' = sec m"
proof -
  obtain m1 where p: "poll_not_busy P ch m = (Inr (), m1)" and m1: "hw m1" "delay m1 = 0"
      "phase m1 = Pio_Idle" "sec m1 = sec m"
    using poll_busy_ok [of m POLL_TIMEOUT] assms by (auto simp: poll_not_busy_def POLL_TIMEOUT_def)
  obtain v m2 where r: "read_reg P ch 7 m1 = (v, m2)" by (cases "read_reg P ch 7 m1")
  then have m2: "hw m2" "phase m2 = Pio_Idle" "delay m2 = 0" "sec m2 = sec m" "v AND 0x21 = 0"
    using status [OF m1(1), of v m2] m1 by (auto simp: read_reg_def)
  have "STATUS_ERR OR STATUS_DF = 0x21"
    by (simp add: STATUS_ERR_def STATUS_DF_def)
  then have "finish_transfer P ch m = (Inr (), m2)"
    using p r m2(5) by (simp add: finish_transfer_def)
  with m2 that show thesis by (simp add: idle_def)
qed

subsection \<open>Transfers of a sector\<close>

lemma setup_task_file:
  assumes "idle m" and "lba < cap"
  shows "\<exists>m'. setup_transfer P ch slave lba cmd m = write_reg P ch 7 cmd m' \<and> idle m' \<and> sec m' = sec m \<and>
    tf_ready slave (tf m') \<and> tf_lba (tf m') = lba"
proof -
  let ?s = "if slave then 0x10 else 0x00 :: u8"
  let ?h = "0xE0 OR ?s OR ucast (drop_bit 24 lba AND 0x0F) :: u8"
  define m1 where "m1 = select_device P ch slave m"
  define m2 where "m2 = write_reg P ch 1 0x00 m1"
  define m3 where "m3 = write_reg P ch 2 0x01 m2"
  define m4 where "m4 = write_reg P ch 3 (ucast (lba AND 0xFF)) m3"
  define m5 where "m5 = write_reg P ch 4 (ucast (drop_bit 8 lba AND 0xFF)) m4"
  define m6 where "m6 = write_reg P ch 5 (ucast (drop_bit 16 lba AND 0xFF)) m5"
  define m7 where "m7 = write_reg P ch 6 ?h m6"
  have 1: "idle m1" "sec m1 = sec m"
    using alt_status_reads_idle [OF write_reg_idle(1) [OF assms(1)], of 6] write_reg_idle(3) [OF assms(1), of 6]
    by (simp_all add: m1_def select_device_def)
  note 2 = write_reg_idle [OF 1(1), of 1 "0x00", folded m2_def]
  note 3 = write_reg_idle [of m2 2 "0x01", folded m3_def]
  note 4 = write_reg_idle [of m3 3 "ucast (lba AND 0xFF)", folded m4_def]
  note 5 = write_reg_idle [of m4 4 "ucast (drop_bit 8 lba AND 0xFF)", folded m5_def]
  note 6 = write_reg_idle [of m5 5 "ucast (drop_bit 16 lba AND 0xFF)", folded m6_def]
  note 7 = write_reg_idle [of m6 6 ?h, folded m7_def]
  have i: "idle m7" "sec m7 = sec m"
    using 1 2 3 4 5 6 7 by simp_all
  have t: "tf m7 = (tf m1)(1 := 0x00, 2 := 0x01, 3 := ucast (lba AND 0xFF),
      4 := ucast (drop_bit 8 lba AND 0xFF), 5 := ucast (drop_bit 16 lba AND 0xFF), 6 := ?h)"
    using 1 2 3 4 5 6 7 by simp
  have "unat lba < 2 ^ 28"
    using assms(2) cap_28 by (simp add: word_less_nat_alt)
  then have l: "tf_lba (tf m7) = lba"
    by (rule lba_registers [where s = ?s]) (simp_all add: t)
  have "bit ?h 6" "bit ?h 4 = slave"
    by (simp_all add: head_register_bits)
  then have "tf_ready slave (tf m7)"
    by (simp add: tf_ready_def t)
  with i l show ?thesis
    unfolding setup_transfer_def Let_def m1_def [symmetric] m2_def [symmetric] m3_def [symmetric]
      m4_def [symmetric] m5_def [symmetric] m6_def [symmetric] m7_def [symmetric] by blast
qed

lemma read_data_loop_ok:
  assumes "hw m" and "phase m = Pio_Read l i" and "delay m = 0" and "i < 256" and "sec m = S"
    and "off + 512 \<le> length buf"
  shows "\<exists>m'. read_data_loop P ch off [i..<256] (take off buf @ take (2 * i) (S l) @ drop (off + 2 * i) buf) m
      = (take off buf @ S l @ drop (off + 512) buf, m') \<and>
    hw m' \<and> phase m' = Pio_Idle \<and> delay m' < 100000 \<and> sec m' = S"
  using assms(1-5)
proof (induction "255 - i" arbitrary: i m rule: less_induct)
  case less
  have len: "length (S l) = 512" using sec_length [OF less.prems(1)] less.prems(5) by metis
  obtain w m1 where r: "read_data_word P ch m = (w, m1)" by (cases "read_data_word P ch m")
  then have w: "w = le16_at (S l) (2 * i)" and m1: "hw m1" "sec m1 = S"
    and nx: "if i = 255 then phase m1 = Pio_Idle \<and> delay m1 < 100000
       else phase m1 = Pio_Read l (Suc i) \<and> delay m1 = 0"
    using data_in [OF less.prems(1,2,4,3), of w m1] less.prems(5) by (auto simp: read_data_word_def)
  have step: "read_data_loop P ch off [i..<256] (take off buf @ take (2 * i) (S l) @ drop (off + 2 * i) buf) m =
      read_data_loop P ch off [Suc i..<256] (take off buf @ take (2 * Suc i) (S l) @ drop (off + 2 * Suc i) buf) m1"
    using r store_word_step [OF len less.prems(4) assms(6)] unfolding w
    by (simp only: upt_conv_Cons [OF less.prems(4)] read_data_loop.simps prod.case)
  show ?case
  proof (cases "i = 255")
    case True
    then show ?thesis
      unfolding step using nx m1 len by simp
  next
    case False
    then have "255 - Suc i < 255 - i" and "Suc i < 256" using less.prems(4) by simp_all
    then show ?thesis
      unfolding step using less.hyps [of "Suc i" m1] nx m1 False by simp
  qed
qed

lemma read_attempt_ok:
  assumes "idle m" and "lba < cap" and "off + 512 \<le> length buf"
  shows "\<exists>m'. read_attempt P ch slave lba off buf m =
      (Inr (), take off buf @ sec m lba @ drop (off + 512) buf, m') \<and> idle m' \<and> sec m' = sec m"
proof -
  obtain m1 where s: "setup_transfer P ch slave lba CMD_READ_SECTORS m = write_reg P ch 7 CMD_READ_SECTORS m1"
      and m1: "idle m1" "sec m1 = sec m" "tf_ready slave (tf m1)" "tf_lba (tf m1) = lba"
    using setup_task_file [OF assms(1,2)] by metis
  let ?m2 = "write_reg P ch 7 CMD_READ_SECTORS m1"
  have m2: "hw ?m2" "phase ?m2 = Pio_Read lba 0" "delay ?m2 < 100000" "sec ?m2 = sec m"
    using cmd_read [OF _ _ _ m1(3) _ refl] m1 assms(2)
    by (simp_all add: idle_def write_reg_def CMD_READ_SECTORS_def)
  obtain m3 where p: "poll_drq P ch ?m2 = (Inr (), m3)" and m3: "hw m3" "delay m3 = 0"
      "phase m3 = Pio_Read lba 0" "sec m3 = sec m"
    using poll_drq_ok [OF m2(1,3)] m2(2,4) by (metis pio_phase.distinct(1))
  obtain m4 where l: "read_data_loop P ch off [0..<256] buf m3 = (take off buf @ sec m lba @ drop (off + 512) buf, m4)"
      and m4: "hw m4" "phase m4 = Pio_Idle" "delay m4 < 100000" "sec m4 = sec m"
    using read_data_loop_ok [OF m3(1,3,2) _ m3(4) assms(3)] by auto
  obtain m5 where "finish_transfer P ch m4 = (Inr (), m5)" "idle m5" "sec m5 = sec m"
    using finish_transfer_ok [OF m4(1,3,2)] m4(4) by metis
  then show ?thesis
    using s p l by (simp add: read_attempt_def)
qed

lemma write_data_loop_ok:
  assumes "hw m" and "phase m = Pio_Write l (map (\<lambda>i. load_word off i buf) [0..<i])" and "delay m = 0"
    and "i < 256" and "sec m = S"
  shows "\<exists>m'. write_data_loop P ch off [i..<256] buf m = m' \<and>
    hw m' \<and> phase m' = Pio_Idle \<and> delay m' < 100000 \<and>
    sec m' = S(l := concat (map (\<lambda>i. u16_to_le (load_word off i buf)) [0..<256]))"
  using assms
proof (induction "255 - i" arbitrary: i m rule: less_induct)
  case less
  let ?ws = "\<lambda>i. map (\<lambda>i. load_word off i buf) [0..<i]"
  let ?m1 = "write_data_word P ch (load_word off i buf) m"
  have st: "write_data_loop P ch off [i..<256] buf m = write_data_loop P ch off [Suc i..<256] buf ?m1"
    using less.prems(4) by (simp add: write_data_loop_def upt_conv_Cons)
  have lw: "length (?ws i) < 256" using less.prems(4) by simp
  have ws: "?ws i @ [load_word off i buf] = ?ws (Suc i)" by simp
  have m1: "hw ?m1 \<and> (if i = 255
       then phase ?m1 = Pio_Idle \<and> delay ?m1 < 100000 \<and> sec ?m1 = S(l := concat (map u16_to_le (?ws (Suc i))))
       else phase ?m1 = Pio_Write l (?ws (Suc i)) \<and> delay ?m1 = 0 \<and> sec ?m1 = S)"
    using data_out [OF less.prems(1,2) lw less.prems(3) refl, of "load_word off i buf"]
    unfolding write_data_word_def ws unfolding length_map length_upt minus_nat.diff_0 less.prems(5) .
  show ?case
  proof (cases "i = 255")
    case True
    then show ?thesis
      unfolding st using m1 by (simp add: write_data_loop_def comp_def)
  next
    case False
    then have "255 - Suc i < 255 - i" and "Suc i < 256" using less.prems(4) by simp_all
    then show ?thesis
      unfolding st using less.hyps [of "Suc i" ?m1] m1 False by simp
  qed
qed

lemma concat_load_words:
  assumes "off + 512 \<le> length buf" and "n \<le> 256"
  shows "concat (map (\<lambda>i. u16_to_le (load_word off i buf)) [0..<n]) = take (2 * n) (drop off buf)"
  using assms(2)
proof (induction n)
  case (Suc n)
  then have "u16_to_le (load_word off n buf) = take 2 (drop (2 * n) (drop off buf))"
    using load_word_bytes [OF assms(1), of n] by (simp add: add.commute)
  moreover have "2 * Suc n = 2 * n + 2" by simp
  ultimately show ?case using Suc by (simp only: upt_Suc take_add) simp
qed simp

lemma write_attempt_ok:
  assumes "idle m" and "lba < cap" and "off + 512 \<le> length buf"
  shows "\<exists>m'. write_attempt P ch slave lba off buf m = (Inr (), m') \<and> idle m' \<and>
    sec m' = (sec m)(lba := take 512 (drop off buf))"
proof -
  obtain m1 where s: "setup_transfer P ch slave lba CMD_WRITE_SECTORS m = write_reg P ch 7 CMD_WRITE_SECTORS m1"
      and m1: "idle m1" "sec m1 = sec m" "tf_ready slave (tf m1)" "tf_lba (tf m1) = lba"
    using setup_task_file [OF assms(1,2)] by metis
  let ?m2 = "write_reg P ch 7 CMD_WRITE_SECTORS m1"
  have m2: "hw ?m2" "phase ?m2 = Pio_Write lba []" "delay ?m2 < 100000" "sec ?m2 = sec m"
    using cmd_write [OF _ _ _ m1(3) _ refl] m1 assms(2)
    by (simp_all add: idle_def write_reg_def CMD_WRITE_SECTORS_def)
  obtain m3 where p: "poll_drq P ch ?m2 = (Inr (), m3)" and m3: "hw m3" "delay m3 = 0"
      "phase m3 = Pio_Write lba []" "sec m3 = sec m"
    using poll_drq_ok [OF m2(1,3)] m2(2,4) by (metis pio_phase.distinct(3))
  let ?m4 = "write_data_loop P ch off [0..<256] buf m3" and ?S = "(sec m)(lba := take 512 (drop off buf))"
  have m4: "hw ?m4" "phase ?m4 = Pio_Idle" "delay ?m4 < 100000" "sec ?m4 = ?S"
    using write_data_loop_ok [OF m3(1) _ m3(2) _ m3(4), of lba off buf 0] m3(3)
      concat_load_words [OF assms(3), of 256] by auto
  obtain m5 where f5: "finish_transfer P ch ?m4 = (Inr (), m5)" and m5: "idle m5" "sec m5 = ?S"
    using finish_transfer_ok [OF m4(1,3,2)] m4(4) by metis
  let ?m6 = "write_reg P ch 7 CMD_FLUSH_CACHE m5"
  have m6: "hw ?m6" "phase ?m6 = Pio_Idle" "delay ?m6 < 100000" "sec ?m6 = ?S"
    using cmd_flush [OF _ _ _ refl] m5 by (simp_all add: idle_def write_reg_def CMD_FLUSH_CACHE_def)
  obtain m7 where "finish_transfer P ch ?m6 = (Inr (), m7)" "idle m7" "sec m7 = ?S"
    using finish_transfer_ok [OF m6(1,3,2)] m6(4) by metis
  then show ?thesis
    using s p f5 by (simp add: write_attempt_def)
qed

subsection \<open>Several sectors\<close>

lemma sector_in_range:
  assumes "unat lba + n \<le> unat cap" and "k < n"
  shows "lba + of_nat k < cap" and "unat (lba + of_nat k) = unat lba + k"
proof -
  have "unat lba + k < 2 ^ 32"
    using assms cap_28 by simp
  moreover have "lba + of_nat k = of_nat (unat lba + k)" by simp
  ultimately show u: "unat (lba + of_nat k) = unat lba + k"
    by (simp only: unat_of_nat) simp
  show "lba + of_nat k < cap"
    unfolding word_less_nat_alt u using assms by simp
qed

lemma read_sectors_loop_ok:
  assumes "unat lba + n \<le> unat cap" and "n * 512 \<le> length buf" and "idle m" and "k \<le> n" and "sec m = S"
  shows "\<exists>m'. read_sectors_loop P ch slave lba [k..<n]
      (concat (map (\<lambda>i. S (lba + of_nat i)) [0..<k]) @ drop (k * 512) buf) m =
      (Inr (), concat (map (\<lambda>i. S (lba + of_nat i)) [0..<n]) @ drop (n * 512) buf, m') \<and>
    idle m' \<and> sec m' = S"
  using assms(3-5)
proof (induction "n - k" arbitrary: k m)
  case 0
  then show ?case by simp
next
  case (Suc j)
  let ?pre = "\<lambda>k. concat (map (\<lambda>i. S (lba + of_nat i)) [0..<k])"
  have k: "k < n" using Suc.hyps(2) by simp
  have len: "length (?pre k) = k * 512"
    using sec_length Suc.prems(1,3) by (auto simp: idle_def length_concat comp_def sum_list_triv)
  have room: "k * 512 + 512 \<le> length buf"
  proof -
    have "Suc k * 512 \<le> n * 512" using k by (intro mult_le_mono1) simp
    with assms(2) show ?thesis by simp
  qed
  obtain m1 where a: "read_attempt P ch slave (lba + of_nat k) (k * 512) (?pre k @ drop (k * 512) buf) m =
      (Inr (), ?pre (Suc k) @ drop (Suc k * 512) buf, m1)" and m1: "idle m1" "sec m1 = S"
    using read_attempt_ok [OF Suc.prems(1) sector_in_range(1) [OF assms(1) k], of "k * 512" "?pre k @ drop (k * 512) buf"]
      room len Suc.prems(3) by (auto simp: add.commute)
  have st: "read_sectors_loop P ch slave lba [k..<n] (?pre k @ drop (k * 512) buf) m =
      read_sectors_loop P ch slave lba [Suc k..<n] (?pre (Suc k) @ drop (Suc k * 512) buf) m1"
    using read_retries_first [OF a] k by (simp add: upt_conv_Cons SECTOR_SIZE_def)
  show ?case
    unfolding st using Suc.hyps(1) [OF _ m1(1) _ m1(2), of "Suc k"] Suc.hyps(2) k by simp
qed

lemma write_sectors_loop_ok:
  assumes "unat lba + n \<le> unat cap" and "n * 512 \<le> length buf" and "idle m"
  shows "\<exists>m'. io_for [0..<n] (\<lambda>k. write_retries P ch slave (lba + of_nat k) (k * 512) MAX_RETRIES DrvIoError buf) m
      = (Inr (), m') \<and> idle m' \<and>
    sec m' = fold (\<lambda>k S. S(lba + of_nat k := take 512 (drop (k * 512) buf))) [0..<n] (sec m)"
proof -
  let ?I = "\<lambda>i m'. idle m' \<and> sec m' = fold (\<lambda>k S. S(lba + of_nat k := take 512 (drop (k * 512) buf))) [0..<i] (sec m)"
  have "\<exists>m'. io_for [0..<n] (\<lambda>k. write_retries P ch slave (lba + of_nat k) (k * 512) MAX_RETRIES DrvIoError buf) m
      = (Inr (), m') \<and> ?I (length [0..<n]) m'"
  proof (rule io_for_rule)
    fix i s
    assume i: "i < length [0..<n]" and s: "?I i s"
    then have k: "i < n" by simp
    have "Suc i * 512 \<le> n * 512" using k by (intro mult_le_mono1) simp
    then have "i * 512 + 512 \<le> length buf" using assms(2) by simp
    from write_attempt_ok [of s, OF conjunct1 [OF s] sector_in_range(1) [OF assms(1) k] this] s
    obtain m1 where a: "write_attempt P ch slave (lba + of_nat i) (i * 512) buf s = (Inr (), m1)"
        and "?I (Suc i) m1"
      by auto
    then show "\<exists>s'. write_retries P ch slave (lba + of_nat ([0..<n] ! i)) ([0..<n] ! i * 512) MAX_RETRIES DrvIoError buf s
        = (Inr (), s') \<and> ?I (Suc i) s'"
      using k write_retries_first [OF a] by simp
  qed (use assms(3) in simp)
  then show ?thesis by simp
qed

end

section \<open>The block device on a drive\<close>

text \<open>The adapter \<open>b\<close> on the drive it names.\<close>

locale ata_disk = pio_drive P "get_channel (abd_base_port b)" "abd_slave b" phase tf delay sec cap hw
  for P :: "'m port_io" and b :: AtaBlockDevice and phase tf delay sec cap hw
begin

lemma no_address_overflow:
  assumes "unat lba + unat count \<le> unat cap"
  shows "\<not> (0 < count \<and> 2 ^ 32 \<le> unat lba + unat (count - 1))"
proof
  assume c: "0 < count \<and> 2 ^ 32 \<le> unat lba + unat (count - 1)"
  then have "unat (count - 1) = unat count - 1"
    by (simp add: unat_minus_one word_gt_0)
  then have "unat lba + unat (count - 1) \<le> 2 ^ 28"
    using assms cap_28 by linarith
  with c show False by simp
qed

lemma read_sectors_ok:
  assumes "idle m" and "unat lba + unat count \<le> unat cap" and "unat count * 512 \<le> length buf"
  shows "\<exists>m'. read_sectors P (abd_base_port b) (abd_slave b) lba count buf m =
      (Inr (), concat (map (\<lambda>i. sec m (lba + of_nat i)) [0..<unat count]) @ drop (unat count * 512) buf, m') \<and>
    idle m' \<and> sec m' = sec m"
  using read_sectors_loop_ok [OF assms(2,3,1), of 0] assms(3) no_address_overflow [OF assms(2)]
  by (simp add: read_sectors_def SECTOR_SIZE_def Let_def)

lemma write_sectors_ok:
  assumes "idle m" and "unat lba + unat count \<le> unat cap" and "unat count * 512 \<le> length buf"
  shows "\<exists>m'. write_sectors P (abd_base_port b) (abd_slave b) lba count buf m = (Inr (), m') \<and> idle m' \<and>
    sec m' = fold (\<lambda>k S. S(lba + of_nat k := take 512 (drop (k * 512) buf))) [0..<unat count] (sec m)"
  using write_sectors_loop_ok [OF assms(2,3,1)] assms(3) no_address_overflow [OF assms(2)]
  by (simp add: write_sectors_def SECTOR_SIZE_def Let_def)

end

text \<open>The adapter over a drive that follows the protocol keeps the contract of a block
  device: this discharges the laws the file system relies on.\<close>

sublocale ata_disk \<subseteq> blk: block_device "ata_block_dev P b" "\<lambda>w. sec (machine w)" cap
  "\<lambda>w. ATA w \<noteq> None \<and> idle (machine w)"
proof
  fix d :: "'m ata_world" and lba
  assume "ATA d \<noteq> None \<and> idle (machine d)"
  then show "length (sec (machine d) lba) = 512"
    by (simp add: idle_def sec_length)
next
  fix d :: "'m ata_world" and lba and buf :: bytes
  assume d: "ATA d \<noteq> None \<and> idle (machine d)" and "lba < cap" and len: "512 \<le> length buf"
  then have "unat lba + unat (1 :: u32) \<le> unat cap"
    by (simp add: word_less_nat_alt)
  then obtain m' where "read_sectors P (abd_base_port b) (abd_slave b) lba 1 buf (machine d) =
      (Inr (), sec (machine d) lba @ drop 512 buf, m')" "idle m'" "sec m' = sec (machine d)"
    using read_sectors_ok [of "machine d" lba 1 buf] d len by auto
  then show "\<exists>d'. bd_read (ata_block_dev P b) lba buf d = (Inr (sec (machine d) lba @ drop 512 buf), d') \<and>
      (ATA d' \<noteq> None \<and> idle (machine d')) \<and> sec (machine d') = sec (machine d)"
    using d by (auto simp: ata_block_dev_def abd_read_sector_def)
next
  fix d :: "'m ata_world" and lba and buf :: bytes
  assume d: "ATA d \<noteq> None \<and> idle (machine d)" and "lba < cap" and len: "512 \<le> length buf"
  then have "unat lba + unat (1 :: u32) \<le> unat cap"
    by (simp add: word_less_nat_alt)
  then obtain m' where "write_sectors P (abd_base_port b) (abd_slave b) lba 1 buf (machine d) = (Inr (), m')"
      "idle m'" "sec m' = (sec (machine d))(lba := take 512 buf)"
    using write_sectors_ok [of "machine d" lba 1 buf] d len by auto
  then show "\<exists>d'. bd_write (ata_block_dev P b) lba buf d = (Inr (), d') \<and>
      (ATA d' \<noteq> None \<and> idle (machine d')) \<and> sec (machine d') = (sec (machine d))(lba := take 512 buf)"
    using d by (auto simp: ata_block_dev_def abd_write_sector_def)
qed

context ata_disk
begin

lemma adapter_contract:
  "block_device (ata_block_dev P b) (\<lambda>w. sec (machine w)) cap (\<lambda>w. ATA w \<noteq> None \<and> idle (machine w))"
  by (rule blk.block_device_axioms)

end

section \<open>A drive that follows the protocol\<close>

text \<open>An executable model of an ATA drive in PIO mode on the primary channel: it stays busy
  for \<open>lat\<close> status reads after a command and holds \<open>cap\<close> sectors, and says so in its
  identity. A command it cannot serve sets the error bit. There is no second drive on the channel:
  identification of it is ignored, and the status then reads as zero.\<close>

record pio_disk =
  pd_phase :: pio_phase
  pd_tf :: "u16 \<Rightarrow> u8"
  pd_delay :: nat
  pd_sec :: "u32 \<Rightarrow> bytes"
  pd_err :: bool

definition pd_latency :: "nat \<Rightarrow> nat" where
  "pd_latency lat = min lat 99999"

definition pd_capacity :: "u32 \<Rightarrow> u32" where
  "pd_capacity cap = min cap 0x10000000"

definition pd_identity :: "u32 \<Rightarrow> u16 list" where
  "pd_identity cap = (replicate 256 0)[60 := ucast (pd_capacity cap), 61 := ucast (drop_bit 16 (pd_capacity cap))]"

definition pd_command :: "nat \<Rightarrow> u32 \<Rightarrow> u8 \<Rightarrow> pio_disk \<Rightarrow> pio_disk" where
  "pd_command lat cap cmd d =
     (let l = tf_lba (pd_tf d);
          ok = pd_phase d = Pio_Idle \<and> pd_delay d = 0 in
      if ok \<and> cmd = 0x20 \<and> tf_ready False (pd_tf d) \<and> l < pd_capacity cap
      then d \<lparr> pd_phase := Pio_Read l 0, pd_delay := pd_latency lat \<rparr>
      else if ok \<and> cmd = 0x30 \<and> tf_ready False (pd_tf d) \<and> l < pd_capacity cap
      then d \<lparr> pd_phase := Pio_Write l [], pd_delay := pd_latency lat \<rparr>
      else if ok \<and> cmd = 0xE7 then d \<lparr> pd_delay := pd_latency lat \<rparr>
      else if ok \<and> cmd = 0xEC then
        (if bit (pd_tf d 6) 4 then d else d \<lparr> pd_phase := Pio_Identify 0, pd_delay := pd_latency lat \<rparr>)
      else d \<lparr> pd_err := True \<rparr>)"

definition pd_outb :: "nat \<Rightarrow> u32 \<Rightarrow> u16 \<Rightarrow> u8 \<Rightarrow> pio_disk \<Rightarrow> pio_disk" where
  "pd_outb lat cap p v d =
     (if p = 0x1F7 then pd_command lat cap v d
      else if 0x1F1 \<le> p \<and> p \<le> 0x1F6 then d \<lparr> pd_tf := (pd_tf d)(p - 0x1F0 := v) \<rparr>
      else if p = 0x3F6 \<and> bit v 2 then d \<lparr> pd_phase := Pio_Idle, pd_delay := 4, pd_err := False \<rparr>
      else d)"

definition pd_status :: "pio_disk \<Rightarrow> u8" where
  "pd_status d =
     (if 0 < pd_delay d then 0x80
      else if bit (pd_tf d 6) 4 \<and> pd_phase d = Pio_Idle then 0
      else 0x40 OR (if pd_phase d = Pio_Idle then 0 else 0x08) OR (if pd_err d then 0x01 else 0))"

definition pd_inb :: "u16 \<Rightarrow> pio_disk \<Rightarrow> u8 \<times> pio_disk" where
  "pd_inb p d =
     (if p = 0x1F7 then (pd_status d, d \<lparr> pd_delay := pd_delay d - 1 \<rparr>)
      else if p = 0x3F6 then (pd_status d, d \<lparr> pd_delay := pd_delay d - 1 \<rparr>)
      else if 0x1F1 \<le> p \<and> p \<le> 0x1F6 then
        ((case pd_phase d of Pio_Identify i \<Rightarrow> 0 | _ \<Rightarrow> pd_tf d (p - 0x1F0)), d)
      else (0xFF, d))"

definition pd_inw :: "nat \<Rightarrow> u32 \<Rightarrow> u16 \<Rightarrow> pio_disk \<Rightarrow> u16 \<times> pio_disk" where
  "pd_inw lat cap p d =
     (if p \<noteq> 0x1F0 then (0xFFFF, d)
      else case pd_phase d of
        Pio_Read l i \<Rightarrow>
          (le16_at (pd_sec d l) (2 * i),
           if i = 255 then d \<lparr> pd_phase := Pio_Idle, pd_delay := pd_latency lat \<rparr>
           else d \<lparr> pd_phase := Pio_Read l (Suc i) \<rparr>)
      | Pio_Identify i \<Rightarrow>
          (pd_identity cap ! i,
           if i = 255 then d \<lparr> pd_phase := Pio_Idle, pd_delay := pd_latency lat \<rparr>
           else d \<lparr> pd_phase := Pio_Identify (Suc i) \<rparr>)
      | _ \<Rightarrow> (0xFFFF, d))"

definition pd_outw :: "nat \<Rightarrow> u16 \<Rightarrow> u16 \<Rightarrow> pio_disk \<Rightarrow> pio_disk" where
  "pd_outw lat p w d =
     (if p \<noteq> 0x1F0 then d
      else case pd_phase d of
        Pio_Write l ws \<Rightarrow>
          (if length ws = 255
           then d \<lparr> pd_phase := Pio_Idle, pd_delay := pd_latency lat,
                    pd_sec := (pd_sec d)(l := concat (map u16_to_le (ws @ [w]))) \<rparr>
           else d \<lparr> pd_phase := Pio_Write l (ws @ [w]) \<rparr>)
      | _ \<Rightarrow> d)"

definition pd_ports :: "nat \<Rightarrow> u32 \<Rightarrow> pio_disk port_io" where
  "pd_ports lat cap = \<lparr> inb = pd_inb, outb = pd_outb lat cap, inw = pd_inw lat cap, outw = pd_outw lat \<rparr>"

definition pd_hw :: "pio_disk \<Rightarrow> bool" where
  "pd_hw d \<longleftrightarrow> (\<forall>l. length (pd_sec d l) = 512) \<and> \<not> pd_err d"

lemma length_concat_u16: "length (concat (map u16_to_le ws)) = 2 * length ws"
  by (induction ws) simp_all

lemma primary_channel: "base_port (get_channel (abd_base_port abd_primary_master)) = 0x1F0"
  "control_port (get_channel (abd_base_port abd_primary_master)) = 0x3F6"
  "abd_slave abd_primary_master = False"
  by (simp_all add: get_channel_def abd_primary_master_def PRIMARY_BASE_def PRIMARY_CONTROL_def)

interpretation primary: ata_disk "pd_ports lat cap" abd_primary_master pd_phase pd_tf pd_delay pd_sec
  "pd_capacity cap" pd_hw
proof
  show "unat (pd_capacity cap) \<le> 2 ^ 28"
    by (simp add: pd_capacity_def min_def word_le_nat_alt)
next
  fix m off v m'
  assume a: "pd_hw m" "pd_phase m = Pio_Idle" "pd_delay m = 0" "off \<in> {1, 2, 3, 4, 5, 6 :: u16}"
    "m' = outb (pd_ports lat cap) (base_port (get_channel (abd_base_port abd_primary_master)) + off) v m"
  then have "m' = m \<lparr> pd_tf := (pd_tf m)(off := v) \<rparr>"
    by (auto simp: pd_ports_def pd_outb_def primary_channel)
  with a(1-3) show "pd_hw m' \<and> pd_phase m' = Pio_Idle \<and> pd_delay m' = 0 \<and> pd_tf m' = (pd_tf m)(off := v) \<and>
      pd_sec m' = pd_sec m"
    by (simp add: pd_hw_def)
qed (auto simp: pd_hw_def pd_ports_def pd_outb_def pd_command_def pd_inb_def pd_status_def pd_inw_def
    pd_outw_def pd_latency_def primary_channel length_concat_u16 Let_def)

text \<open>A drive whose sectors are all zero.\<close>

definition empty_pio_disk :: pio_disk where
  "empty_pio_disk = \<lparr> pd_phase = Pio_Idle, pd_tf = (\<lambda>_. 0), pd_delay = 0,
     pd_sec = (\<lambda>_. replicate 512 0), pd_err = False \<rparr>"

end
