(* ===== verification/Ata_Properties.thy ===== *)
theory Ata_Properties
  imports Ata_Protocol
begin

text \<open>
  The properties of the ATA driver: transfers over a drive that follows the protocol, the
  guards before a transfer, the timeout of a drive that stays busy, and the addresses the
  driver can form.
\<close>

section \<open>A drive that stays busy\<close>

definition stays_busy :: "'m port_io \<Rightarrow> AtaChannel \<Rightarrow> bool" where
  "stays_busy P ch \<longleftrightarrow>
     (\<forall>m. fst (inb P (base_port ch + 7) m) AND 0x80 \<noteq> 0 \<and> fst (inb P (base_port ch + 7) m) AND 0x21 = 0)"

lemma poll_drq_busy:
  assumes "stays_busy P ch"
  shows "\<exists>m'. poll_drq_loop P ch n m = (Inl DrvTimeout, m')"
proof (induction n arbitrary: m)
  case 0
  then show ?case by simp
next
  case (Suc n)
  have "STATUS_ERR OR STATUS_DF = 0x21" by (simp add: STATUS_ERR_def STATUS_DF_def)
  then show ?case
    using assms Suc.IH
    by (auto simp: stays_busy_def read_reg_def STATUS_BSY_def split: prod.split) (metis fst_conv)+
qed

lemma read_attempt_busy:
  assumes "stays_busy P ch"
  shows "\<exists>m'. read_attempt P ch slave lba off buf m = (Inl DrvTimeout, buf, m')"
proof -
  obtain m' where "poll_drq P ch (setup_transfer P ch slave lba CMD_READ_SECTORS m) = (Inl DrvTimeout, m')"
    using poll_drq_busy [OF assms] unfolding poll_drq_def by blast
  then show ?thesis by (simp add: read_attempt_def)
qed

lemma read_retries_busy:
  assumes "stays_busy P ch"
  shows "\<exists>m'. read_retries P ch slave lba off (Suc n) e buf m = (Inl DrvTimeout, buf, m')"
proof (induction n arbitrary: e m)
  case 0
  then show ?case using read_attempt_busy [OF assms, of slave lba off buf m] by auto
next
  case (Suc n)
  obtain m1 where "read_attempt P ch slave lba off buf m = (Inl DrvTimeout, buf, m1)"
    using read_attempt_busy [OF assms] by blast
  then have "read_retries P ch slave lba off (Suc (Suc n)) e buf m =
      read_retries P ch slave lba off (Suc n) DrvTimeout buf m1"
    by (subst read_retries.simps(2)) simp
  then show ?case using Suc.IH [of DrvTimeout m1] by simp
qed

section \<open>Properties\<close>

lemma write_then_read_sectors:
  assumes "ata_disk P b phase tf delay sec cap hw" and "hw m" "phase m = Pio_Idle" "delay m = 0"
    and range: "unat lba + unat count \<le> unat cap"
    and dlen: "length data = unat count * 512" and blen: "length buf = unat count * 512"
  shows "\<exists>m1 m2. write_sectors P (abd_base_port b) (abd_slave b) lba count data m = (Inr (), m1) \<and>
    read_sectors P (abd_base_port b) (abd_slave b) lba count buf m1 = (Inr (), data, m2) \<and>
    (\<forall>l. unat l < unat lba \<or> unat lba + unat count \<le> unat l \<longrightarrow> sec m2 l = sec m l)"
proof -
  note ax = assms(1)
  note pd = ata_disk.axioms [OF ax]
  have idle: "pio_drive.idle phase delay hw m"
    using assms(2-4) by (simp add: pio_drive.idle_def [OF pd])
  let ?W = "\<lambda>n. fold (\<lambda>k S. S(lba + of_nat k := take 512 (drop (k * 512) data))) [0..<n] (sec m)"
  obtain m1 where w: "write_sectors P (abd_base_port b) (abd_slave b) lba count data m = (Inr (), m1)"
      "pio_drive.idle phase delay hw m1" "sec m1 = ?W (unat count)"
    using ata_disk.write_sectors_ok [OF ax idle range, of data] dlen by auto
  obtain m2 where r: "read_sectors P (abd_base_port b) (abd_slave b) lba count buf m1 =
      (Inr (), concat (map (\<lambda>i. sec m1 (lba + of_nat i)) [0..<unat count]), m2)" "sec m2 = sec m1"
    using ata_disk.read_sectors_ok [OF ax w(2) range, of buf] blen by auto
  have addr: "unat (lba + of_nat k) = unat lba + k" if "k < unat count" for k
    by (rule pio_drive.sector_in_range(2) [OF pd range that])
  have at: "?W (unat count) (lba + of_nat i) = slice data (i * 512) 512" if i: "i < unat count" for i
  proof -
    have "lba + of_nat j \<noteq> lba + of_nat i" if "i < j" "j < unat count" for j
      using addr [of i] addr [of j] that by auto
    then show ?thesis
      unfolding slice_def
      by (intro fold_writes_last [where I = "\<lambda>_. True" and a = "\<lambda>k. lba + of_nat k"
            and x = "lba + of_nat i" and get = "\<lambda>S. S (lba + of_nat i)"]) (use i in auto)
  qed
  have other: "?W (unat count) l = sec m l" if "unat l < unat lba \<or> unat lba + unat count \<le> unat l" for l
    by (rule fold_writes_other [where I = "\<lambda>_. True" and get = "\<lambda>S. S l"]) (use that addr in auto)
  have "concat (map (\<lambda>i. sec m1 (lba + of_nat i)) [0..<unat count]) =
      concat (map (\<lambda>i. slice data (i * 512) 512) [0..<unat count])"
    unfolding w(3) by (rule arg_cong [where f = concat]) (simp add: at)
  also have "\<dots> = data"
    using dlen by (simp add: concat_slices)
  finally show ?thesis
    using w r other by auto
qed

text \<open>C16: Over a drive that follows the PIO protocol, a write of several sectors followed by a
  read of the same range returns the data written, and a sector outside the range keeps
  its contents.\<close>

theorem ata_write_read_sectors:
  assumes "ata_disk P b phase tf delay sec cap hw" and "hw m" "phase m = Pio_Idle" "delay m = 0"
    and range: "unat lba + unat count \<le> unat cap"
    and dlen: "length data = unat count * 512" and blen: "length buf = unat count * 512"
  shows "\<exists>m1 m2. write_sectors P (abd_base_port b) (abd_slave b) lba count data m = (Inr (), m1) \<and>
    read_sectors P (abd_base_port b) (abd_slave b) lba count buf m1 = (Inr (), data, m2) \<and>
    (\<forall>l. unat l < unat lba \<or> unat lba + unat count \<le> unat l \<longrightarrow> sec m2 l = sec m l)"
  by (rule write_then_read_sectors [OF assms])

theorem ata_write_read_sectors_witness:
  "\<exists>m1 m2. write_sectors (pd_ports 7 100) 0x1F0 False 40 2 (replicate 1024 0xAB) (empty_pio_disk) = (Inr (), m1) \<and>
     read_sectors (pd_ports 7 100) 0x1F0 False 40 2 (replicate 1024 0) m1 = (Inr (), replicate 1024 0xAB, m2)"
proof -
  have "pd_hw empty_pio_disk" "pd_phase empty_pio_disk = Pio_Idle" "pd_delay empty_pio_disk = 0"
    "unat (40 :: u32) + unat (2 :: u32) \<le> unat (pd_capacity 100)"
    "abd_base_port abd_primary_master = 0x1F0" "abd_slave abd_primary_master = False"
    by (simp_all add: empty_pio_disk_def pd_hw_def pd_capacity_def abd_primary_master_def PRIMARY_BASE_def)
  then show ?thesis
    using ata_write_read_sectors [OF primary.ata_disk_axioms [of 7 100], of empty_pio_disk 40 2
        "replicate 1024 0xAB" "replicate 1024 0"] by auto
qed

text \<open>C17: The adapter keeps the contract of a block device over every drive that follows the
  protocol: reading a sector fills the first 512 bytes of the buffer with its contents,
  writing one replaces it and no other.\<close>

theorem ata_block_device_contract:
  assumes "ata_disk P b phase tf delay sec cap hw"
  shows "block_device (ata_block_dev P b) (\<lambda>w. sec (machine w)) cap
    (\<lambda>w. ATA w \<noteq> None \<and> hw (machine w) \<and> phase (machine w) = Pio_Idle \<and> delay (machine w) = 0)"
  using ata_disk.adapter_contract [OF assms] by (simp add: pio_drive.idle_def [OF ata_disk.axioms [OF assms]])

theorem ata_block_device_contract_witness:
  "block_device (ata_block_dev (pd_ports 7 100) abd_primary_master) (\<lambda>w. pd_sec (machine w)) (pd_capacity 100)
    (\<lambda>w. ATA w \<noteq> None \<and> pd_hw (machine w) \<and> pd_phase (machine w) = Pio_Idle \<and> pd_delay (machine w) = 0)"
  by (rule ata_block_device_contract [OF primary.ata_disk_axioms])

text \<open>A transfer that does not fit the buffer, or whose last address is not a 32-bit number, is
  refused before any port is touched.\<close>

theorem ata_transfer_guards:
  "(length buf < unat count * 512 \<longrightarrow>
     read_sectors P base slave lba count buf m = (Inl BufferTooSmall, buf, m) \<and>
     write_sectors P base slave lba count buf m = (Inl BufferTooSmall, m)) \<and>
   (0 < count \<and> unat count * 512 \<le> length buf \<and> 2 ^ 32 \<le> unat lba + (unat count - 1) \<longrightarrow>
     read_sectors P base slave lba count buf m = (Inl InvalidParam, buf, m) \<and>
     write_sectors P base slave lba count buf m = (Inl InvalidParam, m))"
proof -
  have "unat (count - 1) = unat count - 1" if "0 < count"
    using that by (simp add: unat_minus_one word_gt_0)
  then show ?thesis
    by (auto simp: read_sectors_def write_sectors_def Let_def SECTOR_SIZE_def)
qed

theorem ata_transfer_guards_witness:
  "read_sectors (pd_ports 7 100) 0x1F0 False 0xFFFFFFFF 2 (replicate 1024 0) empty_pio_disk =
     (Inl InvalidParam, replicate 1024 0, empty_pio_disk)"
  using ata_transfer_guards [of "replicate 1024 0" 2 "pd_ports 7 100" "0x1F0" False "0xFFFFFFFF" empty_pio_disk]
  by simp

text \<open>A drive that never clears its busy bit makes every read of at least one sector fail with
  a timeout, after a bounded number of polls, and leaves the buffer alone.\<close>

theorem ata_busy_timeout:
  assumes "stays_busy P (get_channel base)" and "0 < count" and "unat count * 512 \<le> length buf"
    and "unat lba + unat count \<le> 2 ^ 32"
  shows "\<exists>m'. read_sectors P base slave lba count buf m = (Inl DrvTimeout, buf, m')"
proof -
  have c: "unat (count - 1) = unat count - 1" "0 < unat count"
    using assms(2) by (simp_all add: unat_minus_one word_gt_0 unat_gt_0)
  then have ov: "\<not> 2 ^ 32 \<le> unat lba + unat (count - 1)"
    using assms(4) by linarith
  obtain m' where "read_retries P (get_channel base) slave lba 0 (Suc 2) DrvIoError buf m = (Inl DrvTimeout, buf, m')"
    using read_retries_busy [OF assms(1)] by blast
  then have "read_sectors_loop P (get_channel base) slave lba [0..<unat count] buf m = (Inl DrvTimeout, buf, m')"
    using c(2) by (simp add: upt_conv_Cons MAX_RETRIES_def SECTOR_SIZE_def del: read_retries.simps)
  then show ?thesis
    using assms(3) ov by (simp add: read_sectors_def Let_def SECTOR_SIZE_def)
qed

text \<open>A channel with no drive that answers: every read of a port gives the busy bit.\<close>

definition busy_ports :: "unit port_io" where
  "busy_ports = \<lparr> inb = (\<lambda>p m. (0x80, m)), outb = (\<lambda>p v m. m), inw = (\<lambda>p m. (0, m)), outw = (\<lambda>p v m. m) \<rparr>"

theorem ata_busy_timeout_witness:
  "\<exists>m'. read_sectors busy_ports 0x1F0 False 0 1 (replicate 512 0) () = (Inl DrvTimeout, replicate 512 0, m')"
  using ata_busy_timeout [of busy_ports "0x1F0" 1 "replicate 512 0" 0 False "()"]
  by (simp add: stays_busy_def busy_ports_def)

text \<open>The driver only forms 28-bit addresses: a sector number from 2 to the 28 on is accepted and
  addresses the sector whose number is its low 28 bits.\<close>

theorem ata_address_wraps:
  "setup_transfer P ch slave lba cmd m = setup_transfer P ch slave (lba AND 0x0FFFFFFF) cmd m"
proof -
  have k: "(0x0FFFFFFF :: u32) = mask 28" "(0xFF :: u32) = mask 8" "(0x0F :: u32) = mask 4"
    by (simp_all add: mask_eq_exp_minus_1)
  have "(lba AND mask 28) AND mask 8 = lba AND mask 8"
    "drop_bit 8 (lba AND mask 28) AND mask 8 = drop_bit 8 lba AND mask 8"
    "drop_bit 16 (lba AND mask 28) AND mask 8 = drop_bit 16 lba AND mask 8"
    "drop_bit 24 (lba AND mask 28) AND mask 4 = drop_bit 24 lba AND mask 4"
    by (rule bit_word_eqI; auto simp: bit_simps)+
  then show ?thesis
    unfolding setup_transfer_def k by simp
qed

end
