(* ===== verification/Fat_Bpb.thy ===== *)
theory Fat_Bpb
  imports Rust_Std
begin

text \<open>
  On-disk structures of \<open>kernel/src/fs/fat32/bpb.rs\<close>: the BIOS parameter block, the
  32-byte directory entry, their packed layouts and the 8.3 names. The unaligned
  reads of the packed structs are byte decoders at the offsets of their fields.
\<close>

section \<open>Constants\<close>

definition FAT32_EOC :: u32 where "FAT32_EOC = 0x0FFFFFF8"
definition FAT32_BAD :: u32 where "FAT32_BAD = 0x0FFFFFF7"
definition FAT32_FREE :: u32 where "FAT32_FREE = 0x00000000"

definition ATTR_READ_ONLY :: u8 where "ATTR_READ_ONLY = 0x01"
definition ATTR_HIDDEN :: u8 where "ATTR_HIDDEN = 0x02"
definition ATTR_SYSTEM :: u8 where "ATTR_SYSTEM = 0x04"
definition ATTR_VOLUME_ID :: u8 where "ATTR_VOLUME_ID = 0x08"
definition ATTR_DIRECTORY :: u8 where "ATTR_DIRECTORY = 0x10"
definition ATTR_ARCHIVE :: u8 where "ATTR_ARCHIVE = 0x20"
definition ATTR_LONG_FILE_NAME :: u8 where "ATTR_LONG_FILE_NAME = 0x0F"

lemmas attr_defs = ATTR_READ_ONLY_def ATTR_HIDDEN_def ATTR_SYSTEM_def ATTR_VOLUME_ID_def
  ATTR_DIRECTORY_def ATTR_ARCHIVE_def ATTR_LONG_FILE_NAME_def

section \<open>The BIOS parameter block\<close>

record Fat32Bpb =
  jump_boot :: bytes
  oem_name :: bytes
  bpb_bytes_per_sector :: u16
  sectors_per_cluster :: u8
  reserved_sector_count :: u16
  num_fats :: u8
  root_entry_count :: u16
  total_sectors_16 :: u16
  media_type :: u8
  fat_size_16 :: u16
  sectors_per_track :: u16
  num_heads :: u16
  hidden_sectors :: u32
  total_sectors_32 :: u32
  fat_size_32 :: u32
  ext_flags :: u16
  fs_version :: u16
  root_cluster :: u32
  fs_info_sector :: u16
  backup_boot_sector :: u16
  bpb_reserved :: bytes
  drive_number :: u8
  bpb_reserved_nt :: u8
  boot_signature :: u8
  volume_serial :: u32
  volume_label :: bytes
  fs_type :: bytes

definition bpb_decode :: "bytes \<Rightarrow> Fat32Bpb" where
  "bpb_decode s =
     \<lparr> jump_boot = slice s 0 3, oem_name = slice s 3 8,
       bpb_bytes_per_sector = le16_at s 11, sectors_per_cluster = s ! 13,
       reserved_sector_count = le16_at s 14, num_fats = s ! 16,
       root_entry_count = le16_at s 17, total_sectors_16 = le16_at s 19,
       media_type = s ! 21, fat_size_16 = le16_at s 22,
       sectors_per_track = le16_at s 24, num_heads = le16_at s 26,
       hidden_sectors = le32_at s 28, total_sectors_32 = le32_at s 32,
       fat_size_32 = le32_at s 36, ext_flags = le16_at s 40, fs_version = le16_at s 42,
       root_cluster = le32_at s 44, fs_info_sector = le16_at s 48,
       backup_boot_sector = le16_at s 50, bpb_reserved = slice s 52 12,
       drive_number = s ! 64, bpb_reserved_nt = s ! 65, boot_signature = s ! 66,
       volume_serial = le32_at s 67, volume_label = slice s 71 11, fs_type = slice s 82 8 \<rparr>"

text \<open>\<open>FAT32\<close> in ASCII.\<close>

definition FAT32_str :: bytes where
  "FAT32_str = [0x46, 0x41, 0x54, 0x33, 0x32]"

definition starts_with :: "bytes \<Rightarrow> bytes \<Rightarrow> bool" where
  "starts_with s p \<longleftrightarrow> take (length p) s = p"

definition bpb_from_bytes :: "bytes \<Rightarrow> Fat32Bpb option" where
  "bpb_from_bytes sector =
     (if length sector < 90 then None
      else let bpb = bpb_decode sector in
        if fat_size_16 bpb \<noteq> 0 then None
        else if fat_size_32 bpb = 0 then None
        else let fs_type_str = (if utf8_valid (fs_type bpb) then fs_type bpb else []) in
          if \<not> starts_with fs_type_str FAT32_str then None
          else Some bpb)"

definition bytes_per_sector :: "Fat32Bpb \<Rightarrow> nat" where
  "bytes_per_sector b = unat (bpb_bytes_per_sector b)"

definition cluster_size_bytes :: "Fat32Bpb \<Rightarrow> nat" where
  "cluster_size_bytes b = unat (sectors_per_cluster b) * bytes_per_sector b"

definition fat_start_sector :: "Fat32Bpb \<Rightarrow> u32" where
  "fat_start_sector b = ucast (reserved_sector_count b)"

definition data_start_sector :: "Fat32Bpb \<Rightarrow> u32" where
  "data_start_sector b = ucast (reserved_sector_count b) + ucast (num_fats b) * fat_size_32 b"

definition cluster_to_sector :: "Fat32Bpb \<Rightarrow> u32 \<Rightarrow> u32" where
  "cluster_to_sector b cluster =
     data_start_sector b + (cluster - 2) * ucast (sectors_per_cluster b)"

text \<open>\<open>None\<close> is the panic of a division by zero.\<close>

definition total_clusters :: "Fat32Bpb \<Rightarrow> u32 option" where
  "total_clusters b =
     (let data_sectors = saturating_sub (total_sectors_32 b) (data_start_sector b) in
      if sectors_per_cluster b = 0 then None
      else Some (data_sectors div ucast (sectors_per_cluster b)))"

section \<open>Directory entries\<close>

record Fat32DirEntry =
  de_name :: bytes
  de_ext :: bytes
  de_attributes :: u8
  de_reserved_nt :: u8
  create_time_tenth :: u8
  create_time :: u16
  create_date :: u16
  access_date :: u16
  first_cluster_hi :: u16
  modify_time :: u16
  modify_date :: u16
  first_cluster_lo :: u16
  file_size :: u32

text \<open>The arrays of the struct have their declared lengths.\<close>

definition de_wf :: "Fat32DirEntry \<Rightarrow> bool" where
  "de_wf e \<longleftrightarrow> length (de_name e) = 8 \<and> length (de_ext e) = 3"

text \<open>\<open>read_unaligned\<close> of an entry, and the bytes of an entry
  (\<open>from_raw_parts\<close> in \<open>add_entry\<close>).\<close>

definition de_decode :: "bytes \<Rightarrow> Fat32DirEntry" where
  "de_decode s =
     \<lparr> de_name = slice s 0 8, de_ext = slice s 8 3, de_attributes = s ! 11,
       de_reserved_nt = s ! 12, create_time_tenth = s ! 13, create_time = le16_at s 14,
       create_date = le16_at s 16, access_date = le16_at s 18, first_cluster_hi = le16_at s 20,
       modify_time = le16_at s 22, modify_date = le16_at s 24, first_cluster_lo = le16_at s 26,
       file_size = le32_at s 28 \<rparr>"

definition de_encode :: "Fat32DirEntry \<Rightarrow> bytes" where
  "de_encode e =
     de_name e @ de_ext e @ [de_attributes e, de_reserved_nt e, create_time_tenth e]
       @ u16_to_le (create_time e) @ u16_to_le (create_date e) @ u16_to_le (access_date e)
       @ u16_to_le (first_cluster_hi e) @ u16_to_le (modify_time e) @ u16_to_le (modify_date e)
       @ u16_to_le (first_cluster_lo e) @ u32_to_le (file_size e)"

definition is_end :: "Fat32DirEntry \<Rightarrow> bool" where
  "is_end e \<longleftrightarrow> de_name e ! 0 = 0x00"

definition is_deleted :: "Fat32DirEntry \<Rightarrow> bool" where
  "is_deleted e \<longleftrightarrow> de_name e ! 0 = 0xE5"

definition is_long_name :: "Fat32DirEntry \<Rightarrow> bool" where
  "is_long_name e \<longleftrightarrow> de_attributes e AND ATTR_LONG_FILE_NAME = ATTR_LONG_FILE_NAME"

definition is_directory :: "Fat32DirEntry \<Rightarrow> bool" where
  "is_directory e \<longleftrightarrow> de_attributes e AND ATTR_DIRECTORY \<noteq> 0"

definition is_volume_label :: "Fat32DirEntry \<Rightarrow> bool" where
  "is_volume_label e \<longleftrightarrow> de_attributes e AND ATTR_VOLUME_ID \<noteq> 0"

definition first_cluster :: "Fat32DirEntry \<Rightarrow> u32" where
  "first_cluster e = push_bit 16 (ucast (first_cluster_hi e)) OR ucast (first_cluster_lo e)"

definition set_first_cluster :: "Fat32DirEntry \<Rightarrow> u32 \<Rightarrow> Fat32DirEntry" where
  "set_first_cluster e cluster =
     e \<lparr> first_cluster_hi := ucast (drop_bit 16 cluster AND 0xFFFF),
         first_cluster_lo := ucast (cluster AND 0xFFFF) \<rparr>"

text \<open>The loops over a name field stop at the first space or zero.\<close>

definition name_bytes :: "bytes \<Rightarrow> bytes" where
  "name_bytes f = takeWhile (\<lambda>b. \<not> (b = 0x20 \<or> b = 0)) f"

definition to_lower_ascii :: "u8 \<Rightarrow> u8" where
  "to_lower_ascii b = (if 0x41 \<le> b \<and> b \<le> 0x5A then b + 32 else b)"

definition full_name :: "Fat32DirEntry \<Rightarrow> bytes" where
  "full_name e =
     map to_lower_ascii (name_bytes (de_name e))
       @ (if de_ext e ! 0 \<noteq> 0x20 \<and> de_ext e ! 0 \<noteq> 0
          then 0x2E # map to_lower_ascii (name_bytes (de_ext e)) else [])"

definition full_name_upper :: "Fat32DirEntry \<Rightarrow> bytes" where
  "full_name_upper e =
     name_bytes (de_name e)
       @ (if de_ext e ! 0 \<noteq> 0x20 \<and> de_ext e ! 0 \<noteq> 0
          then 0x2E # name_bytes (de_ext e) else [])"

text \<open>\<open>set_name_83\<close>: on an empty name the length minus one wraps around and the slice
  after the (absent) dot is out of range, which panics (\<open>None\<close>).\<close>

definition dot_pos :: "bytes \<Rightarrow> nat" where
  "dot_pos n = length (takeWhile (\<lambda>b. b \<noteq> 0x2E) n)"

definition set_name_83 :: "Fat32DirEntry \<Rightarrow> bytes \<Rightarrow> Fat32DirEntry option" where
  "set_name_83 e name_upper =
     (let dp = dot_pos name_upper;
          name_part = take dp name_upper;
          copy_len = min (length name_part) 8;
          name' = take copy_len name_part @ drop copy_len (replicate 8 0x20) in
      if dp < usize_sub (length name_upper) 1 then
        (if length name_upper < dp + 1 then None
         else let ext_part = drop (dp + 1) name_upper;
                  copy_len = min (length ext_part) 3 in
           Some (e \<lparr> de_name := name',
                     de_ext := take copy_len ext_part @ drop copy_len (replicate 3 0x20) \<rparr>))
      else Some (e \<lparr> de_name := name', de_ext := replicate 3 0x20 \<rparr>))"

section \<open>Codec of directory entries\<close>

lemma length_de_encode [simp]: "de_wf e \<Longrightarrow> length (de_encode e) = 32"
  by (simp add: de_encode_def de_wf_def)

lemma de_wf_decode [simp]: "32 \<le> length s \<Longrightarrow> de_wf (de_decode s)"
  by (simp add: de_wf_def de_decode_def slice_def)

lemma list_len8E:
  assumes "length xs = 8"
  obtains a b c d e f g h where "xs = [a, b, c, d, e, f, g, h]"
  using assms by (auto simp: numeral_eq_Suc length_Suc_conv)

lemma de_decode_encode:
  assumes "de_wf e"
  shows "de_decode (de_encode e @ rest) = e"
proof -
  obtain n0 n1 n2 n3 n4 n5 n6 n7 where n: "de_name e = [n0, n1, n2, n3, n4, n5, n6, n7]"
    using assms list_len8E unfolding de_wf_def by blast
  obtain x0 x1 x2 where x: "de_ext e = [x0, x1, x2]"
    using assms list_len3E unfolding de_wf_def by blast
  show ?thesis
    by (rule Fat32DirEntry.equality)
      (simp_all add: de_decode_def de_encode_def n x slice_def le16_at_def le32_at_def
        u16_to_le_def u32_to_le_def u16_le_roundtrip u32_le_roundtrip)
qed

lemma list_len32E:
  assumes "length xs = 32"
  obtains a0 a1 a2 a3 a4 a5 a6 a7 a8 a9 a10 a11 a12 a13 a14 a15 a16 a17 a18 a19 a20 a21 a22 a23
    a24 a25 a26 a27 a28 a29 a30 a31
  where "xs = [a0, a1, a2, a3, a4, a5, a6, a7, a8, a9, a10, a11, a12, a13, a14, a15, a16, a17,
    a18, a19, a20, a21, a22, a23, a24, a25, a26, a27, a28, a29, a30, a31]"
  using assms by (auto simp: numeral_eq_Suc length_Suc_conv)

lemma de_encode_decode:
  assumes "length s = 32"
  shows "de_encode (de_decode s) = s"
  using assms
  by (rule list_len32E)
    (simp add: de_decode_def de_encode_def slice_def le16_at_def le32_at_def
      u16_to_le_def u32_to_le_def u16_from_le_inverse u32_from_le_inverse)

section \<open>First clusters\<close>

lemma first_cluster_set_first_cluster [simp]:
  "first_cluster (set_first_cluster e c) = c"
proof -
  have m: "(0xFFFF :: u32) = mask 16"
    by (simp add: mask_eq_exp_minus_1)
  show ?thesis
    unfolding m first_cluster_def set_first_cluster_def
    by (rule bit_word_eqI) (auto simp: bit_simps)
qed

lemma set_first_cluster_fields [simp]:
  "de_name (set_first_cluster e c) = de_name e" "de_ext (set_first_cluster e c) = de_ext e"
  "de_attributes (set_first_cluster e c) = de_attributes e"
  "file_size (set_first_cluster e c) = file_size e"
  "de_wf (set_first_cluster e c) = de_wf e"
  by (simp_all add: set_first_cluster_def de_wf_def)

section \<open>8.3 names\<close>

text \<open>The name an entry gives back after \<open>set_name_83\<close>: the part before the first dot cut
  to eight bytes and the part after it cut to three.\<close>

definition trunc_83 :: "bytes \<Rightarrow> bytes" where
  "trunc_83 n =
     (let base = take (dot_pos n) n; ext = drop (dot_pos n + 1) n in
      take 8 base @ (if ext = [] then [] else 0x2E # take 3 ext))"

text \<open>Bytes a name can hold: neither the padding nor the terminator.\<close>

definition name_char :: "u8 \<Rightarrow> bool" where
  "name_char b \<longleftrightarrow> b \<noteq> 0x20 \<and> b \<noteq> 0"

definition valid_83 :: "bytes \<Rightarrow> bool" where
  "valid_83 n \<longleftrightarrow> n \<noteq> [] \<and> list_all name_char n \<and> dot_pos n \<le> 8 \<and>
     (dot_pos n = length n \<or> (dot_pos n + 2 \<le> length n \<and> length n \<le> dot_pos n + 4))"

lemma dot_pos_le: "dot_pos n \<le> length n"
  by (simp add: dot_pos_def length_takeWhile_le)

lemma take_dot_pos: "take (dot_pos n) n = takeWhile (\<lambda>b. b \<noteq> 0x2E) n"
  unfolding dot_pos_def by (rule takeWhile_eq_take [symmetric])

lemma nth_dot_pos: "dot_pos n < length n \<Longrightarrow> n ! dot_pos n = 0x2E"
  unfolding dot_pos_def using nth_length_takeWhile [of "\<lambda>b. b \<noteq> 0x2E" n] by simp

lemma dot_pos_split:
  "dot_pos n < length n \<Longrightarrow> n = take (dot_pos n) n @ 0x2E # drop (dot_pos n + 1) n"
  using id_take_nth_drop [of "dot_pos n" n] nth_dot_pos [of n] by simp

lemma name_bytes_padded:
  assumes "list_all name_char xs"
  shows "name_bytes (xs @ replicate k 0x20) = xs"
  using assms
  by (induction xs) (cases k; simp add: name_bytes_def name_char_def)+

lemma name_bytes_all: "list_all name_char xs \<Longrightarrow> name_bytes xs = xs"
  using name_bytes_padded [of xs 0] by simp

lemma set_name_83_fields:
  assumes "n \<noteq> []" and "length n < 2 ^ 64" and "set_name_83 e n = Some e'"
  shows "de_name e' = take 8 (take (dot_pos n) n) @ replicate (8 - dot_pos n) 0x20"
    and "de_ext e' = take 3 (drop (dot_pos n + 1) n)
           @ replicate (3 - (length n - (dot_pos n + 1))) 0x20"
    and "de_attributes e' = de_attributes e" and "file_size e' = file_size e"
    and "first_cluster e' = first_cluster e"
proof -
  have u: "usize_sub (length n) 1 = length n - 1"
    using assms(1,2) by (cases n) simp_all
  have m: "take (min a k) xs = take k xs" if "length xs = a" for a k and xs :: bytes
    using that by (simp add: min_def)
  have d: "drop (min a k) (replicate k (0x20::u8)) = replicate (k - a) 0x20" for a k
    by (simp add: min_def)
  note eq = assms(3) [unfolded set_name_83_def Let_def u]
  show "de_name e' = take 8 (take (dot_pos n) n) @ replicate (8 - dot_pos n) 0x20"
    using eq dot_pos_le [of n] by (auto simp: m d min_def split: if_splits)
  show "de_ext e' = take 3 (drop (dot_pos n + 1) n)
           @ replicate (3 - (length n - (dot_pos n + 1))) 0x20"
    using eq dot_pos_le [of n] by (auto simp: m d split: if_splits)
  show "de_attributes e' = de_attributes e" "file_size e' = file_size e"
    "first_cluster e' = first_cluster e"
    using eq by (auto simp: first_cluster_def split: if_splits)
qed

lemma set_name_83_Some:
  assumes "n \<noteq> []" and "length n < 2 ^ 64"
  obtains e' where "set_name_83 e n = Some e'"
proof -
  have u: "usize_sub (length n) 1 = length n - 1"
    using assms by (cases n) simp_all
  show thesis
    using that assms dot_pos_le [of n]
    by (cases "set_name_83 e n") (auto simp: set_name_83_def Let_def u [simplified] split: if_splits)
qed

lemma set_name_83_wf:
  assumes "n \<noteq> []" and "length n < 2 ^ 64" and "set_name_83 e n = Some e'"
  shows "de_wf e'"
  using set_name_83_fields(1,2) [OF assms] dot_pos_le [of n] by (auto simp: de_wf_def min_def)

lemma set_name_83_empty: "set_name_83 e [] = None"
  by (simp add: set_name_83_def dot_pos_def usize_sub_def)

lemma full_name_upper_set_name_83:
  assumes "n \<noteq> []" and "length n < 2 ^ 64" and "set_name_83 e n = Some e'"
    and "list_all name_char n"
  shows "full_name_upper e' = trunc_83 n"
proof -
  define base ext where "base = take 8 (take (dot_pos n) n)" and "ext = drop (dot_pos n + 1) n"
  have ch: "list_all name_char base" "list_all name_char (take 3 ext)"
    using assms(4) unfolding base_def ext_def
    by (auto simp: list_all_iff dest!: in_set_takeD in_set_dropD)
  have nm: "de_name e' = base @ replicate (8 - dot_pos n) 0x20"
    using set_name_83_fields(1) [OF assms(1-3)] by (simp add: base_def)
  have xt: "de_ext e' = take 3 ext @ replicate (3 - length ext) 0x20"
    using set_name_83_fields(2) [OF assms(1-3)] by (simp add: ext_def)
  have hd: "de_ext e' ! 0 \<noteq> 0x20 \<and> de_ext e' ! 0 \<noteq> 0 \<longleftrightarrow> ext \<noteq> []"
    using ch(2) unfolding xt by (cases ext) (simp_all add: name_char_def)
  have "full_name_upper e' =
      name_bytes (de_name e') @ (if ext \<noteq> [] then 0x2E # name_bytes (de_ext e') else [])"
    unfolding full_name_upper_def hd ..
  also have "\<dots> = base @ (if ext \<noteq> [] then 0x2E # take 3 ext else [])"
    unfolding nm xt name_bytes_padded [OF ch(1)] name_bytes_padded [OF ch(2)] ..
  also have "\<dots> = trunc_83 n"
    by (simp add: trunc_83_def base_def ext_def)
  finally show ?thesis .
qed

lemma trunc_83_id_iff:
  assumes "n \<noteq> []" and "list_all name_char n"
  shows "trunc_83 n = n \<longleftrightarrow> valid_83 n"
proof (cases "dot_pos n = length n")
  case True
  then show ?thesis
    using assms by (auto simp: trunc_83_def valid_83_def)
next
  case False
  then have lt: "dot_pos n < length n"
    using dot_pos_le [of n] by simp
  define base ext where "base = take (dot_pos n) n" and "ext = drop (dot_pos n + 1) n"
  have n: "n = base @ 0x2E # ext"
    using dot_pos_split [OF lt] by (simp add: base_def ext_def)
  have dp: "length base = dot_pos n"
    using lt by (simp add: base_def)
  have len: "length n = dot_pos n + 1 + length ext"
    using n dp by (metis add.assoc add.commute length_Cons length_append plus_1_eq_Suc)
  have "trunc_83 n = take 8 base @ (if ext = [] then [] else 0x2E # take 3 ext)"
    by (simp add: trunc_83_def base_def ext_def)
  moreover have "take 8 base @ (if ext = [] then [] else 0x2E # take 3 ext) = n \<longleftrightarrow>
      dot_pos n \<le> 8 \<and> 1 \<le> length ext \<and> length ext \<le> 3" (is "?l = n \<longleftrightarrow> ?r")
  proof
    assume eq: "?l = n"
    then have "length ?l = length n" by simp
    then show ?r
      by (cases ext) (auto simp: len dp min_def split: if_splits)
  next
    assume ?r
    then show "?l = n" using dp by (subst n) auto
  qed
  ultimately show ?thesis
    using assms False len by (auto simp: valid_83_def)
qed

end
