(* ===== verification/Fat_Table.thy ===== *)
theory Fat_Table
  imports Block_Device Fat_Bpb
begin

text \<open>
  The mounted volume and its file allocation table: \<open>Fat32Fs\<close> with its sector and
  cluster transfers (\<open>kernel/src/fs/fat32/mod.rs\<close>) and the operations of
  \<open>kernel/src/fs/fat32/fat.rs\<close>. The device is the trait object of
  \<open>Block_Device\<close>; its state is threaded through every operation, errors keep the
  writes made before them.
\<close>

section \<open>The mounted volume\<close>

text \<open>An error is the message of the code's \<open>Err\<close>, or a panic (a division by zero, a slice
  out of range), which stops the kernel.\<close>

datatype fat_error = FatErr string | FatPanic

record 'd Fat32Fs =
  bpb :: Fat32Bpb
  fs_device :: "'d block_dev"
  partition_lba :: u32

type_synonym ('d, 'a) fat_io = "('d, fat_error, 'a) io"

definition mount :: "'d block_dev \<Rightarrow> u32 \<Rightarrow> ('d, 'd Fat32Fs) fat_io" where
  "mount device plba =
     io_bind (io_map_err (\<lambda>_. FatErr ''Failed to read boot sector'')
                (bd_read device plba (replicate 512 0)))
       (\<lambda>buf. case bpb_from_bytes buf of
          None \<Rightarrow> io_err (FatErr ''Not a FAT32 filesystem'')
        | Some b \<Rightarrow> io_ret \<lparr> bpb = b, fs_device = device, partition_lba = plba \<rparr>)"

definition read_sector_buf :: "'d Fat32Fs \<Rightarrow> u32 \<Rightarrow> bytes \<Rightarrow> ('d, bytes) fat_io" where
  "read_sector_buf fs lba buf =
     io_map_err (\<lambda>_. FatErr ''Sector read failed'')
       (bd_read (fs_device fs) (partition_lba fs + lba) buf)"

definition write_sector_buf :: "'d Fat32Fs \<Rightarrow> u32 \<Rightarrow> bytes \<Rightarrow> ('d, unit) fat_io" where
  "write_sector_buf fs lba buf =
     io_map_err (\<lambda>_. FatErr ''Sector write failed'')
       (bd_write (fs_device fs) (partition_lba fs + lba) buf)"

text \<open>Reading a cluster sector by sector into consecutive slices of the buffer.\<close>

primrec read_cluster_loop ::
  "'d Fat32Fs \<Rightarrow> u32 \<Rightarrow> nat list \<Rightarrow> bytes \<Rightarrow> ('d, bytes) fat_io" where
  "read_cluster_loop fs sector [] buf = io_ret buf"
| "read_cluster_loop fs sector (i # is) buf =
     (let bps = bytes_per_sector (bpb fs); offset = i * bps in
      io_bind (read_sector_buf fs (sector + of_nat i) (slice buf offset bps))
        (\<lambda>part. read_cluster_loop fs sector is
                   (take offset buf @ part @ drop (offset + bps) buf)))"

definition read_cluster :: "'d Fat32Fs \<Rightarrow> u32 \<Rightarrow> bytes \<Rightarrow> ('d, bytes) fat_io" where
  "read_cluster fs cluster buf =
     (if length buf < cluster_size_bytes (bpb fs)
      then io_err (FatErr ''Buffer too small for cluster'')
      else read_cluster_loop fs (cluster_to_sector (bpb fs) cluster)
             [0..<unat (sectors_per_cluster (bpb fs))] buf)"

definition write_cluster :: "'d Fat32Fs \<Rightarrow> u32 \<Rightarrow> bytes \<Rightarrow> ('d, unit) fat_io" where
  "write_cluster fs cluster buf =
     (if length buf < cluster_size_bytes (bpb fs)
      then io_err (FatErr ''Buffer too small for cluster'')
      else io_for [0..<unat (sectors_per_cluster (bpb fs))]
             (\<lambda>i. write_sector_buf fs (cluster_to_sector (bpb fs) cluster + of_nat i)
                    (slice buf (i * bytes_per_sector (bpb fs)) (bytes_per_sector (bpb fs)))))"

section \<open>The file allocation table\<close>

definition read_fat_entry :: "'d Fat32Fs \<Rightarrow> u32 \<Rightarrow> ('d, u32) fat_io" where
  "read_fat_entry fs cluster =
     (let eps = of_nat (bytes_per_sector (bpb fs) div 4) :: u32 in
      if eps = 0 then io_err FatPanic
      else let fat_sector = cluster div eps;
               fat_offset = unat (cluster mod eps) * 4 in
        io_bind (read_sector_buf fs (fat_start_sector (bpb fs) + fat_sector)
                   (replicate (bytes_per_sector (bpb fs)) 0))
          (\<lambda>buf. io_ret (le32_at buf fat_offset AND 0x0FFFFFFF)))"

definition write_fat_entry :: "'d Fat32Fs \<Rightarrow> u32 \<Rightarrow> u32 \<Rightarrow> ('d, unit) fat_io" where
  "write_fat_entry fs cluster value =
     (let eps = of_nat (bytes_per_sector (bpb fs) div 4) :: u32 in
      if eps = 0 then io_err FatPanic
      else let fat_sector = cluster div eps;
               fat_offset = unat (cluster mod eps) * 4 in
        io_bind (read_sector_buf fs (fat_start_sector (bpb fs) + fat_sector)
                   (replicate (bytes_per_sector (bpb fs)) 0))
          (\<lambda>buf. let existing = le32_at buf fat_offset;
                     new_val = (existing AND 0xF0000000) OR (value AND 0x0FFFFFFF);
                     buf' = take fat_offset buf @ u32_to_le new_val @ drop (fat_offset + 4) buf in
             io_for [0..<unat (num_fats (bpb fs))]
               (\<lambda>fat_copy. write_sector_buf fs
                  (fat_start_sector (bpb fs) + fat_sector + of_nat fat_copy * fat_size_32 (bpb fs))
                  buf')))"

text \<open>The loop of \<open>read_chain\<close>; it ends because it stops once the chain has more than
  100000 clusters.\<close>

function read_chain_loop :: "'d Fat32Fs \<Rightarrow> u32 list \<Rightarrow> u32 \<Rightarrow> ('d, u32 list) fat_io" where
  "read_chain_loop fs chain current d =
     (if current < 2 then (Inr chain, d)
      else let chain' = chain @ [current] in
        case read_fat_entry fs current d of
          (Inl e, d') \<Rightarrow> (Inl e, d')
        | (Inr next, d') \<Rightarrow>
            if FAT32_EOC \<le> next \<or> next = FAT32_BAD \<or> next = 0 then (Inr chain', d')
            else if next < 2 \<or> next = current then (Inr chain', d')
            else if next \<in> set chain' then (Inr chain', d')
            else if 100000 < length chain' then (Inr chain', d')
            else read_chain_loop fs chain' next d')"
  by pat_completeness auto
termination
  by (relation "measure (\<lambda>(fs, chain, current, d). 100001 - length chain)") auto

declare read_chain_loop.simps [simp del]

definition read_chain :: "'d Fat32Fs \<Rightarrow> u32 \<Rightarrow> ('d, u32 list) fat_io" where
  "read_chain fs start_cluster = read_chain_loop fs [] start_cluster"

definition free_chain :: "'d Fat32Fs \<Rightarrow> u32 \<Rightarrow> ('d, unit) fat_io" where
  "free_chain fs start_cluster =
     io_bind (read_chain fs start_cluster)
       (\<lambda>chain. io_for chain (\<lambda>cluster. write_fat_entry fs cluster FAT32_FREE))"

primrec alloc_scan :: "'d Fat32Fs \<Rightarrow> u32 list \<Rightarrow> ('d, u32) fat_io" where
  "alloc_scan fs [] = io_err (FatErr ''No free clusters'')"
| "alloc_scan fs (cluster # rest) =
     io_bind (read_fat_entry fs cluster)
       (\<lambda>val. if val = FAT32_FREE
          then io_bind (write_cluster fs cluster (replicate (cluster_size_bytes (bpb fs)) 0))
                 (\<lambda>_. io_ret cluster)
          else alloc_scan fs rest)"

definition alloc_cluster :: "'d Fat32Fs \<Rightarrow> ('d, u32) fat_io" where
  "alloc_cluster fs =
     (let data_sectors = saturating_sub (total_sectors_32 (bpb fs)) (data_start_sector (bpb fs)) in
      if data_sectors = 0 then io_err (FatErr ''No data sectors'')
      else if sectors_per_cluster (bpb fs) = 0 then io_err FatPanic
      else let max_cluster = data_sectors div ucast (sectors_per_cluster (bpb fs)) in
        if max_cluster < 2 then io_err (FatErr ''No clusters available'')
        else alloc_scan fs (map of_nat [2..<unat (max_cluster + 2)]))"

section \<open>Files\<close>

text \<open>The loop of \<open>read_file\<close> over the clusters of the chain: the buffer is filled from
  \<open>offset\<close> on, the result is the number of bytes copied.\<close>

primrec read_file_loop ::
  "'d Fat32Fs \<Rightarrow> u32 list \<Rightarrow> nat \<Rightarrow> nat \<Rightarrow> bytes \<Rightarrow> ('d, nat \<times> bytes) fat_io" where
  "read_file_loop fs [] offset remaining buf = io_ret (offset, buf)"
| "read_file_loop fs (cluster # rest) offset remaining buf =
     (if remaining = 0 \<or> length buf \<le> offset then io_ret (offset, buf)
      else io_bind (read_cluster fs cluster (replicate (cluster_size_bytes (bpb fs)) 0))
        (\<lambda>cluster_buf.
           let to_copy = min (min remaining (cluster_size_bytes (bpb fs))) (length buf - offset) in
           read_file_loop fs rest (offset + to_copy) (remaining - to_copy)
             (take offset buf @ take to_copy cluster_buf @ drop (offset + to_copy) buf)))"

definition read_file :: "'d Fat32Fs \<Rightarrow> u32 \<Rightarrow> u32 \<Rightarrow> bytes \<Rightarrow> ('d, nat \<times> bytes) fat_io" where
  "read_file fs start_cluster fsize buf =
     io_bind (read_chain fs start_cluster)
       (\<lambda>chain. read_file_loop fs chain 0 (unat fsize) buf)"

text \<open>The loop that extends the list of clusters to the number needed; every iteration
  adds one.\<close>

primrec extend_clusters :: "'d Fat32Fs \<Rightarrow> nat \<Rightarrow> u32 list \<Rightarrow> ('d, u32 list) fat_io" where
  "extend_clusters fs 0 clusters = io_ret clusters"
| "extend_clusters fs (Suc n) clusters =
     io_bind (alloc_cluster fs) (\<lambda>c. extend_clusters fs n (clusters @ [c]))"

text \<open>The bytes written to the \<open>i\<close>-th cluster.\<close>

definition file_cluster_buf :: "nat \<Rightarrow> bytes \<Rightarrow> nat \<Rightarrow> bytes" where
  "file_cluster_buf cluster_size data i =
     (let byte_offset = i * cluster_size in
      if byte_offset < length data then
        (let to_copy = min (length data - byte_offset) cluster_size in
         slice data byte_offset to_copy @ replicate (cluster_size - to_copy) 0)
      else replicate cluster_size 0)"

definition write_file_data :: "'d Fat32Fs \<Rightarrow> u32 \<Rightarrow> bytes \<Rightarrow> ('d, unit) fat_io" where
  "write_file_data fs start_cluster data =
     (let cluster_size = cluster_size_bytes (bpb fs) in
      if data \<noteq> [] \<and> cluster_size = 0 then io_err FatPanic
      else let clusters_needed =
             (if data = [] then 0 else (length data + cluster_size - 1) div cluster_size) in
        io_bind (read_chain fs start_cluster) (\<lambda>existing.
        io_bind (extend_clusters fs (clusters_needed - length existing) existing) (\<lambda>clusters.
        io_bind (io_for [0..<length clusters] (\<lambda>i.
                   write_cluster fs (clusters ! i) (file_cluster_buf cluster_size data i))) (\<lambda>_.
        io_bind (io_for [0..<length clusters] (\<lambda>i.
                   write_fat_entry fs (clusters ! i)
                     (if i + 1 < length clusters then clusters ! (i + 1) else FAT32_EOC))) (\<lambda>_.
        if length clusters < length existing
        then io_for (drop (length clusters) existing) (\<lambda>c. write_fat_entry fs c FAT32_FREE)
        else io_ret ())))))"

definition allocate_and_write :: "'d Fat32Fs \<Rightarrow> bytes \<Rightarrow> ('d, u32) fat_io" where
  "allocate_and_write fs data =
     io_bind (alloc_cluster fs) (\<lambda>first.
     io_bind (write_fat_entry fs first FAT32_EOC) (\<lambda>_.
     if data \<noteq> [] then io_bind (write_file_data fs first data) (\<lambda>_. io_ret first)
     else io_ret first))"

end
