(* ===== verification/Fat_View.thy ===== *)
theory Fat_View
  imports Fat_Table
begin

text \<open>
  The abstract view of a volume: what a map from sectors to their contents means as a
  file allocation table and as a set of clusters, and how writing a table entry or a
  cluster changes that view. No I/O happens here: \<open>Fat_Refine\<close> shows that the
  operations of \<open>Fat_Table\<close> act on the device as these functions act on the map.
\<close>

type_synonym sectors = "u32 \<Rightarrow> bytes"

section \<open>Geometry\<close>

definition fat_data_start :: "Fat32Bpb \<Rightarrow> nat" where
  "fat_data_start b = unat (reserved_sector_count b) + unat (num_fats b) * unat (fat_size_32 b)"

definition fat_nclusters :: "Fat32Bpb \<Rightarrow> nat" where
  "fat_nclusters b =
     (unat (total_sectors_32 b) - fat_data_start b) div unat (sectors_per_cluster b)"

text \<open>A volume whose regions fit the device: sectors of 512 bytes, tables that cover every
  cluster, cluster numbers below the reserved values, and the last sector inside the
  device.\<close>

definition fat_geometry :: "u32 \<Rightarrow> 'd Fat32Fs \<Rightarrow> bool" where
  "fat_geometry cap fs \<longleftrightarrow>
     (let b = bpb fs in
      bytes_per_sector b = 512 \<and> 0 < unat (sectors_per_cluster b) \<and> 0 < unat (num_fats b) \<and>
      fat_data_start b \<le> unat (total_sectors_32 b) \<and>
      unat (partition_lba fs) + unat (total_sectors_32 b) \<le> unat cap \<and>
      fat_nclusters b + 2 \<le> 128 * unat (fat_size_32 b) \<and>
      2 \<le> fat_nclusters b \<and> fat_nclusters b + 2 \<le> 0x0FFFFFF7)"

definition valid_cluster :: "Fat32Bpb \<Rightarrow> u32 \<Rightarrow> bool" where
  "valid_cluster b c \<longleftrightarrow> 2 \<le> unat c \<and> unat c < fat_nclusters b + 2"

text \<open>Sector addresses, as natural numbers: sector \<open>j\<close> of copy \<open>k\<close> of the
  table, and sector \<open>i\<close> of a cluster.\<close>

definition fat_addr :: "'d Fat32Fs \<Rightarrow> nat \<Rightarrow> nat \<Rightarrow> nat" where
  "fat_addr fs k j = unat (partition_lba fs) + unat (reserved_sector_count (bpb fs))
     + k * unat (fat_size_32 (bpb fs)) + j"

definition data_addr :: "'d Fat32Fs \<Rightarrow> u32 \<Rightarrow> nat \<Rightarrow> nat" where
  "data_addr fs c i = unat (partition_lba fs) + fat_data_start (bpb fs)
     + (unat c - 2) * unat (sectors_per_cluster (bpb fs)) + i"

lemma fat_geometryD:
  assumes "fat_geometry cap fs"
  shows "bytes_per_sector (bpb fs) = 512" "0 < unat (sectors_per_cluster (bpb fs))"
    "0 < unat (num_fats (bpb fs))"
    "fat_data_start (bpb fs) \<le> unat (total_sectors_32 (bpb fs))"
    "unat (partition_lba fs) + unat (total_sectors_32 (bpb fs)) \<le> unat cap"
    "fat_nclusters (bpb fs) + 2 \<le> 128 * unat (fat_size_32 (bpb fs))"
    "2 \<le> fat_nclusters (bpb fs)" "fat_nclusters (bpb fs) + 2 \<le> 0x0FFFFFF7"
  using assms by (simp_all add: fat_geometry_def Let_def)

lemma cap_less: "unat (cap :: u32) < 2 ^ 32"
  using unsigned_less [of cap] by simp

lemma of_nat_u32_eq_iff: "a < 2 ^ 32 \<Longrightarrow> b < 2 ^ 32 \<Longrightarrow> (of_nat a :: u32) = of_nat b \<longleftrightarrow> a = b"
  by (simp add: word_of_nat_eq_iff take_bit_nat_eq_self)

lemma valid_cluster_sector_bound:
  assumes "fat_geometry cap fs" and "valid_cluster (bpb fs) c"
  shows "unat c div 128 < unat (fat_size_32 (bpb fs))"
  using assms fat_geometryD(6) [OF assms(1)] unfolding valid_cluster_def
  by (intro div_less_iff_less_mult [THEN iffD2]) auto

lemma fat_addr_bound:
  assumes g: "fat_geometry cap fs" and k: "k < unat (num_fats (bpb fs))"
    and j: "j < unat (fat_size_32 (bpb fs))"
  shows "fat_addr fs k j < unat (partition_lba fs) + fat_data_start (bpb fs)"
    and "fat_addr fs k j < unat cap" and "fat_addr fs k j < 2 ^ 32"
proof -
  have "Suc k * unat (fat_size_32 (bpb fs)) \<le> unat (num_fats (bpb fs)) * unat (fat_size_32 (bpb fs))"
    using k by (intro mult_le_mono1) simp
  with j show 1: "fat_addr fs k j < unat (partition_lba fs) + fat_data_start (bpb fs)"
    by (simp add: fat_addr_def fat_data_start_def)
  with fat_geometryD(4,5) [OF g] show 2: "fat_addr fs k j < unat cap"
    by simp
  then show "fat_addr fs k j < 2 ^ 32"
    using cap_less [of cap] by simp
qed

lemma data_addr_bound:
  assumes g: "fat_geometry cap fs" and c: "valid_cluster (bpb fs) c"
    and i: "i < unat (sectors_per_cluster (bpb fs))"
  shows "unat (partition_lba fs) + fat_data_start (bpb fs) \<le> data_addr fs c i"
    and "data_addr fs c i < unat cap" and "data_addr fs c i < 2 ^ 32"
proof -
  let ?spc = "unat (sectors_per_cluster (bpb fs))"
  show "unat (partition_lba fs) + fat_data_start (bpb fs) \<le> data_addr fs c i"
    by (simp add: data_addr_def)
  have "Suc (unat c - 2) * ?spc \<le> fat_nclusters (bpb fs) * ?spc"
    using c by (intro mult_le_mono1) (auto simp: valid_cluster_def)
  also have "\<dots> \<le> unat (total_sectors_32 (bpb fs)) - fat_data_start (bpb fs)"
    unfolding fat_nclusters_def by (metis div_times_less_eq_dividend)
  finally have "data_addr fs c i < unat (partition_lba fs) + unat (total_sectors_32 (bpb fs))"
    using i fat_geometryD(4) [OF g] by (simp add: data_addr_def)
  with fat_geometryD(5) [OF g] show 2: "data_addr fs c i < unat cap"
    by simp
  then show "data_addr fs c i < 2 ^ 32"
    using cap_less [of cap] by simp
qed

lemma data_addr_inj:
  assumes "fat_geometry cap fs" and "valid_cluster (bpb fs) c" and "valid_cluster (bpb fs) c'"
    and i: "i < unat (sectors_per_cluster (bpb fs))"
    and i': "i' < unat (sectors_per_cluster (bpb fs))"
  shows "data_addr fs c i = data_addr fs c' i' \<longleftrightarrow> c = c' \<and> i = i'"
proof
  let ?spc = "unat (sectors_per_cluster (bpb fs))"
  assume "data_addr fs c i = data_addr fs c' i'"
  then have eq: "(unat c - 2) * ?spc + i = (unat c' - 2) * ?spc + i'"
    by (simp add: data_addr_def)
  have "i = ((unat c - 2) * ?spc + i) mod ?spc" and "i' = ((unat c' - 2) * ?spc + i') mod ?spc"
    using i i' by simp_all
  then have ii: "i = i'" using eq by simp
  with eq i have "unat c - 2 = unat c' - 2" by auto
  then have "unat c = unat c'"
    using assms(2,3) unfolding valid_cluster_def by linarith
  with ii show "c = c' \<and> i = i'" by (simp add: word_unat_eq_iff)
qed simp

lemma fat_addr_inj:
  assumes j: "j < unat (fat_size_32 (bpb fs))" and j': "j' < unat (fat_size_32 (bpb fs))"
  shows "fat_addr fs k j = fat_addr fs k' j' \<longleftrightarrow> k = k' \<and> j = j'"
proof
  let ?s = "unat (fat_size_32 (bpb fs))"
  assume "fat_addr fs k j = fat_addr fs k' j'"
  then have eq: "k * ?s + j = k' * ?s + j'"
    by (simp add: fat_addr_def)
  have "j = (k * ?s + j) mod ?s" and "j' = (k' * ?s + j') mod ?s"
    using j j' by simp_all
  then have jj: "j = j'" using eq by simp
  with eq j show "k = k' \<and> j = j'" by auto
qed simp

section \<open>Words and addresses\<close>

text \<open>The word arithmetic of the code does not wrap inside a volume: it computes these
  addresses.\<close>

lemma u32_div_128: "(c :: u32) div 128 = of_nat (unat c div 128)"
  by (simp add: word_arith_nat_div)

lemma fat_sector_address:
  "partition_lba fs + (fat_start_sector (bpb fs) + c div 128 + of_nat k * fat_size_32 (bpb fs))
     = of_nat (fat_addr fs k (unat c div 128))"
  by (simp add: fat_addr_def fat_start_sector_def u32_div_128 algebra_simps)

lemma fat_sector_address_0:
  "partition_lba fs + (fat_start_sector (bpb fs) + c div 128) = of_nat (fat_addr fs 0 (unat c div 128))"
  using fat_sector_address [of fs c 0] by simp

lemma cluster_sector_address:
  assumes "valid_cluster (bpb fs) c"
  shows "partition_lba fs + (cluster_to_sector (bpb fs) c + of_nat i) = of_nat (data_addr fs c i)"
proof -
  have "of_nat (unat c - 2) = c - 2"
    using assms by (simp add: valid_cluster_def of_nat_diff)
  then show ?thesis
    by (simp add: data_addr_def cluster_to_sector_def data_start_sector_def fat_data_start_def ac_simps)
qed

lemma data_start_sector_eq:
  assumes "fat_geometry cap fs"
  shows "unat (data_start_sector (bpb fs)) = fat_data_start (bpb fs)"
proof -
  have "data_start_sector (bpb fs) = of_nat (fat_data_start (bpb fs))"
    by (simp add: data_start_sector_def fat_data_start_def)
  moreover have "fat_data_start (bpb fs) < 2 ^ 32"
    using fat_geometryD(4) [OF assms] cap_less [of "total_sectors_32 (bpb fs)"] by simp
  ultimately show ?thesis
    by (simp add: unsigned_of_nat take_bit_nat_eq_self)
qed

section \<open>Sequences of sector writes\<close>

definition write_sectors_map :: "(nat \<Rightarrow> u32) \<Rightarrow> (nat \<Rightarrow> bytes) \<Rightarrow> nat \<Rightarrow> sectors \<Rightarrow> sectors" where
  "write_sectors_map a f n m = fold (\<lambda>k m. m(a k := f k)) [0..<n] m"

lemma write_sectors_map_0 [simp]: "write_sectors_map a f 0 m = m"
  by (simp add: write_sectors_map_def)

lemma write_sectors_map_Suc [simp]:
  "write_sectors_map a f (Suc n) m = (write_sectors_map a f n m)(a n := f n)"
  by (simp add: write_sectors_map_def)

lemma write_sectors_map_other:
  "(\<And>k. k < n \<Longrightarrow> a k \<noteq> x) \<Longrightarrow> write_sectors_map a f n m x = m x"
  by (induction n) auto

lemma write_sectors_map_at:
  assumes "k < n" and "inj_on a {..<n}"
  shows "write_sectors_map a f n m (a k) = f k"
  using assms
proof (induction n)
  case 0
  then show ?case by simp
next
  case (Suc n)
  show ?case
  proof (cases "k = n")
    case True
    then show ?thesis by simp
  next
    case False
    then have "k < n" using Suc.prems(1) by simp
    moreover have "inj_on a {..<n}"
      using Suc.prems(2) by (rule inj_on_subset) auto
    moreover have "a k \<noteq> a n"
      using False Suc.prems inj_onD [OF Suc.prems(2), of k n] by auto
    ultimately show ?thesis
      using Suc.IH by simp
  qed
qed

lemma write_sectors_map_length:
  assumes "\<And>x. length (m x) = 512" and "\<And>k. k < n \<Longrightarrow> length (f k) = 512"
  shows "length (write_sectors_map a f n m x) = 512"
  using assms by (induction n) auto

section \<open>Patching a little-endian field\<close>

definition patch32 :: "bytes \<Rightarrow> nat \<Rightarrow> u32 \<Rightarrow> bytes" where
  "patch32 b i v = take i b @ u32_to_le v @ drop (i + 4) b"

lemma length_patch32 [simp]: "i + 4 \<le> length b \<Longrightarrow> length (patch32 b i v) = length b"
  by (simp add: patch32_def)

lemma nth_patch32:
  assumes "i + 4 \<le> length b"
  shows "patch32 b i v ! n = (if n < i \<or> i + 4 \<le> n then b ! n else u32_to_le v ! (n - i))"
proof -
  have "n - (i + 4) + (i + 4) = n" if "i + 4 \<le> n" using that by simp
  then show ?thesis
    using assms by (auto simp: patch32_def nth_append not_less)
qed

lemma le32_at_patch32_same:
  assumes "i + 4 \<le> length b"
  shows "le32_at (patch32 b i v) i = v"
  unfolding le32_at_def nth_patch32 [OF assms]
  by (simp add: u32_to_le_def u32_le_roundtrip)

lemma le32_at_patch32_other:
  assumes "i + 4 \<le> length b" and "j + 4 \<le> i \<or> i + 4 \<le> j"
  shows "le32_at (patch32 b i v) j = le32_at b j"
  using assms(2) unfolding le32_at_def nth_patch32 [OF assms(1)] by auto

text \<open>A table entry keeps its top four bits; its value is the other 28.\<close>

lemma fat_value_mask:
  "((x AND 0xF0000000) OR (v AND 0x0FFFFFFF)) AND 0x0FFFFFFF = (v :: u32) AND 0x0FFFFFFF"
proof -
  have m: "(0x0FFFFFFF :: u32) = mask 28" and n: "(0xF0000000 :: u32) = NOT (mask 28)"
    by (simp_all add: mask_eq_exp_minus_1 not_eq_complement)
  show ?thesis
    unfolding m n by (rule bit_word_eqI) (auto simp: bit_simps)
qed

lemma fat_value_small:
  assumes "unat v < 2 ^ 28"
  shows "(v :: u32) AND 0x0FFFFFFF = v"
proof -
  have m: "(0x0FFFFFFF :: u32) = mask 28"
    by (simp add: mask_eq_exp_minus_1)
  have "take_bit 28 v = v"
    using assms by (simp add: word_unat_eq_iff unsigned_take_bit_eq take_bit_nat_eq_self)
  then show ?thesis
    unfolding m take_bit_eq_mask [symmetric] .
qed

section \<open>The view of a volume\<close>

definition sectors_wf :: "sectors \<Rightarrow> bool" where
  "sectors_wf m \<longleftrightarrow> (\<forall>a. length (m a) = 512)"

definition fat_entry :: "'d Fat32Fs \<Rightarrow> sectors \<Rightarrow> u32 \<Rightarrow> u32" where
  "fat_entry fs m c =
     le32_at (m (of_nat (fat_addr fs 0 (unat c div 128)))) (unat c mod 128 * 4) AND 0x0FFFFFFF"

definition cluster_data :: "'d Fat32Fs \<Rightarrow> sectors \<Rightarrow> u32 \<Rightarrow> bytes" where
  "cluster_data fs m c =
     concat (map (\<lambda>i. m (of_nat (data_addr fs c i))) [0..<unat (sectors_per_cluster (bpb fs))])"

definition fat_put :: "'d Fat32Fs \<Rightarrow> sectors \<Rightarrow> u32 \<Rightarrow> u32 \<Rightarrow> sectors" where
  "fat_put fs m c v =
     (let j = unat c div 128; b = m (of_nat (fat_addr fs 0 j)); i = unat c mod 128 * 4;
          b' = patch32 b i ((le32_at b i AND 0xF0000000) OR (v AND 0x0FFFFFFF)) in
      write_sectors_map (\<lambda>k. of_nat (fat_addr fs k j)) (\<lambda>k. b') (unat (num_fats (bpb fs))) m)"

definition cluster_put :: "'d Fat32Fs \<Rightarrow> sectors \<Rightarrow> u32 \<Rightarrow> bytes \<Rightarrow> sectors" where
  "cluster_put fs m c x =
     write_sectors_map (\<lambda>i. of_nat (data_addr fs c i)) (\<lambda>i. slice x (i * 512) 512)
       (unat (sectors_per_cluster (bpb fs))) m"

text \<open>All copies of the table are equal.\<close>

definition fat_mirrored :: "'d Fat32Fs \<Rightarrow> sectors \<Rightarrow> bool" where
  "fat_mirrored fs m \<longleftrightarrow>
     (\<forall>k < unat (num_fats (bpb fs)). \<forall>j < unat (fat_size_32 (bpb fs)).
        m (of_nat (fat_addr fs k j)) = m (of_nat (fat_addr fs 0 j)))"

lemma sectors_wfD [simp]: "sectors_wf m \<Longrightarrow> length (m a) = 512"
  by (simp add: sectors_wf_def)

lemma patch_index: "unat (c :: u32) mod 128 * 4 + 4 \<le> 512"
proof -
  have "unat c mod 128 \<le> 127" by simp
  then show ?thesis by linarith
qed

lemma fat_put_wf:
  assumes "sectors_wf m"
  shows "sectors_wf (fat_put fs m c v)"
  using assms patch_index [of c] unfolding sectors_wf_def fat_put_def Let_def
  by (auto intro!: write_sectors_map_length)

lemma fat_addr_inj_on:
  assumes "fat_geometry cap fs" and "j < unat (fat_size_32 (bpb fs))"
  shows "inj_on (\<lambda>k. of_nat (fat_addr fs k j) :: u32) {..<unat (num_fats (bpb fs))}"
proof (rule inj_onI)
  fix k k'
  assume k: "k \<in> {..<unat (num_fats (bpb fs))}" "k' \<in> {..<unat (num_fats (bpb fs))}"
    and "(of_nat (fat_addr fs k j) :: u32) = of_nat (fat_addr fs k' j)"
  then have "fat_addr fs k j = fat_addr fs k' j"
    using fat_addr_bound(3) [OF assms(1) _ assms(2)] by (subst (asm) of_nat_u32_eq_iff) auto
  then show "k = k'"
    using fat_addr_inj assms(2) by blast
qed

lemma fat_put_at:
  assumes "fat_geometry cap fs" and "valid_cluster (bpb fs) c"
    and k: "k < unat (num_fats (bpb fs))" and j: "j < unat (fat_size_32 (bpb fs))"
  shows "fat_put fs m c v (of_nat (fat_addr fs k j)) =
    (if j = unat c div 128
     then (let b = m (of_nat (fat_addr fs 0 j)); i = unat c mod 128 * 4 in
             patch32 b i ((le32_at b i AND 0xF0000000) OR (v AND 0x0FFFFFFF)))
     else m (of_nat (fat_addr fs k j)))"
proof (cases "j = unat c div 128")
  case True
  then show ?thesis
    unfolding fat_put_def Let_def
    using write_sectors_map_at [OF k fat_addr_inj_on [OF assms(1) j], where m = m] by auto
next
  case False
  note cb = valid_cluster_sector_bound [OF assms(1,2)]
  have "(of_nat (fat_addr fs k' (unat c div 128)) :: u32) \<noteq> of_nat (fat_addr fs k j)"
    if "k' < unat (num_fats (bpb fs))" for k'
    using False fat_addr_inj [OF cb j] fat_addr_bound(3) [OF assms(1) that cb]
      fat_addr_bound(3) [OF assms(1) k j] by (simp add: of_nat_u32_eq_iff)
  with False show ?thesis
    unfolding fat_put_def Let_def by (simp add: write_sectors_map_other)
qed

lemma cluster_index_neq:
  assumes "(c :: u32) \<noteq> c'" and "unat c div 128 = unat c' div 128"
  shows "unat c' mod 128 * 4 + 4 \<le> unat c mod 128 * 4 \<or> unat c mod 128 * 4 + 4 \<le> unat c' mod 128 * 4"
proof -
  have "unat c \<noteq> unat c'" using assms(1) by (simp add: word_unat_eq_iff)
  then have "unat c mod 128 \<noteq> unat c' mod 128"
    using assms(2) by (metis div_mult_mod_eq)
  then show ?thesis by linarith
qed

lemma fat_entry_fat_put:
  assumes "fat_geometry cap fs" and "valid_cluster (bpb fs) c" and "valid_cluster (bpb fs) c'"
    and "sectors_wf m"
  shows "fat_entry fs (fat_put fs m c v) c' = (if c' = c then v AND 0x0FFFFFFF else fat_entry fs m c')"
proof -
  have 0: "0 < unat (num_fats (bpb fs))" using fat_geometryD(3) [OF assms(1)] .
  have j: "unat c' div 128 < unat (fat_size_32 (bpb fs))"
    by (rule valid_cluster_sector_bound [OF assms(1,3)])
  have len: "unat c mod 128 * 4 + 4 \<le> length (m a)" for a
    using patch_index [of c] assms(4) by simp
  show ?thesis
  proof (cases "c' = c")
    case True
    with j show ?thesis
      unfolding fat_entry_def fat_put_at [OF assms(1,2) 0 j] Let_def
      by (simp add: le32_at_patch32_same [OF len] fat_value_mask)
  next
    case False
    then show ?thesis
      unfolding fat_entry_def fat_put_at [OF assms(1,2) 0 j] Let_def
      using cluster_index_neq [of c c'] by (auto simp: le32_at_patch32_other [OF len])
  qed
qed

lemma fat_mirrored_fat_put:
  assumes "fat_geometry cap fs" and "valid_cluster (bpb fs) c" and "fat_mirrored fs m"
  shows "fat_mirrored fs (fat_put fs m c v)"
  unfolding fat_mirrored_def
proof (intro allI impI)
  fix k j
  assume k: "k < unat (num_fats (bpb fs))" and j: "j < unat (fat_size_32 (bpb fs))"
  have 0: "0 < unat (num_fats (bpb fs))" using fat_geometryD(3) [OF assms(1)] .
  show "fat_put fs m c v (of_nat (fat_addr fs k j)) = fat_put fs m c v (of_nat (fat_addr fs 0 j))"
    unfolding fat_put_at [OF assms(1,2) k j] fat_put_at [OF assms(1,2) 0 j]
    using assms(3) [unfolded fat_mirrored_def, rule_format, OF k j] by (simp only:)
qed

lemma data_fat_disjoint:
  assumes "fat_geometry cap fs" and "valid_cluster (bpb fs) c"
    and "i < unat (sectors_per_cluster (bpb fs))" and "k < unat (num_fats (bpb fs))"
    and "j < unat (fat_size_32 (bpb fs))"
  shows "(of_nat (data_addr fs c i) :: u32) \<noteq> of_nat (fat_addr fs k j)"
  using data_addr_bound(1,3) [OF assms(1-3)] fat_addr_bound(1,3) [OF assms(1,4,5)]
  by (simp add: of_nat_u32_eq_iff)

lemma data_addr_inj_on:
  assumes "fat_geometry cap fs" and "valid_cluster (bpb fs) c"
  shows "inj_on (\<lambda>i. of_nat (data_addr fs c i) :: u32) {..<unat (sectors_per_cluster (bpb fs))}"
proof (rule inj_onI)
  fix i i'
  assume i: "i \<in> {..<unat (sectors_per_cluster (bpb fs))}"
      "i' \<in> {..<unat (sectors_per_cluster (bpb fs))}"
    and "(of_nat (data_addr fs c i) :: u32) = of_nat (data_addr fs c i')"
  then have "data_addr fs c i = data_addr fs c i'"
    using data_addr_bound(3) [OF assms] by (subst (asm) of_nat_u32_eq_iff) auto
  then show "i = i'"
    using data_addr_inj [OF assms(1,2,2)] i by auto
qed

lemma cluster_data_cong:
  assumes "\<And>i. i < unat (sectors_per_cluster (bpb fs)) \<Longrightarrow>
    m (of_nat (data_addr fs c i)) = m' (of_nat (data_addr fs c i))"
  shows "cluster_data fs m c = cluster_data fs m' c"
  unfolding cluster_data_def by (rule arg_cong [where f = concat]) (simp add: assms)

lemma cluster_data_fat_put:
  assumes "fat_geometry cap fs" and "valid_cluster (bpb fs) c" and "valid_cluster (bpb fs) c'"
  shows "cluster_data fs (fat_put fs m c v) c' = cluster_data fs m c'"
proof (rule cluster_data_cong)
  fix i
  assume i: "i < unat (sectors_per_cluster (bpb fs))"
  show "fat_put fs m c v (of_nat (data_addr fs c' i)) = m (of_nat (data_addr fs c' i))"
    unfolding fat_put_def Let_def
    by (rule write_sectors_map_other)
      (metis data_fat_disjoint [OF assms(1,3) i] valid_cluster_sector_bound [OF assms(1,2)])
qed

lemma fat_entry_cluster_put:
  assumes "fat_geometry cap fs" and "valid_cluster (bpb fs) c" and "valid_cluster (bpb fs) c'"
  shows "fat_entry fs (cluster_put fs m c x) c' = fat_entry fs m c'"
proof -
  have "cluster_put fs m c x (of_nat (fat_addr fs 0 (unat c' div 128)))
      = m (of_nat (fat_addr fs 0 (unat c' div 128)))"
    unfolding cluster_put_def
    by (rule write_sectors_map_other)
      (metis data_fat_disjoint [OF assms(1,2)] valid_cluster_sector_bound [OF assms(1,3)]
        fat_geometryD(3) [OF assms(1)])
  then show ?thesis by (simp add: fat_entry_def)
qed

lemma fat_mirrored_cluster_put:
  assumes "fat_geometry cap fs" and "valid_cluster (bpb fs) c" and "fat_mirrored fs m"
  shows "fat_mirrored fs (cluster_put fs m c x)"
proof -
  have same: "cluster_put fs m c x (of_nat (fat_addr fs k j)) = m (of_nat (fat_addr fs k j))"
    if "k < unat (num_fats (bpb fs))" and "j < unat (fat_size_32 (bpb fs))" for k j
    unfolding cluster_put_def
    by (rule write_sectors_map_other) (metis data_fat_disjoint [OF assms(1,2) _ that])
  show ?thesis
    unfolding fat_mirrored_def
  proof (intro allI impI)
    fix k j
    assume k: "k < unat (num_fats (bpb fs))" and j: "j < unat (fat_size_32 (bpb fs))"
    show "cluster_put fs m c x (of_nat (fat_addr fs k j))
        = cluster_put fs m c x (of_nat (fat_addr fs 0 j))"
      unfolding same [OF k j] same [OF fat_geometryD(3) [OF assms(1)] j]
      using assms(3) [unfolded fat_mirrored_def] k j by blast
  qed
qed

lemma cluster_put_wf:
  assumes "sectors_wf m" and "512 * unat (sectors_per_cluster (bpb fs)) \<le> length x"
  shows "sectors_wf (cluster_put fs m c x)"
proof -
  have "length (slice x (i * 512) 512) = 512" if "i < unat (sectors_per_cluster (bpb fs))" for i
    using that assms(2) by (simp add: slice_def)
  with assms(1) show ?thesis
    unfolding sectors_wf_def cluster_put_def by (auto intro!: write_sectors_map_length)
qed

lemma cluster_data_cluster_put:
  assumes "fat_geometry cap fs" and "valid_cluster (bpb fs) c" and "valid_cluster (bpb fs) c'"
  shows "cluster_data fs (cluster_put fs m c x) c' =
    (if c' = c then take (cluster_size_bytes (bpb fs)) x else cluster_data fs m c')"
proof (cases "c' = c")
  case True
  have "cluster_data fs (cluster_put fs m c x) c =
      concat (map (\<lambda>i. slice x (i * 512) 512) [0..<unat (sectors_per_cluster (bpb fs))])"
    unfolding cluster_data_def cluster_put_def
    by (rule arg_cong [where f = concat])
      (simp add: write_sectors_map_at [OF _ data_addr_inj_on [OF assms(1,2)]])
  with True show ?thesis
    by (simp add: concat_slices cluster_size_bytes_def fat_geometryD(1) [OF assms(1)])
next
  case False
  have "cluster_data fs (cluster_put fs m c x) c' = cluster_data fs m c'"
  proof (rule cluster_data_cong)
    fix i
    assume i: "i < unat (sectors_per_cluster (bpb fs))"
    show "cluster_put fs m c x (of_nat (data_addr fs c' i)) = m (of_nat (data_addr fs c' i))"
      unfolding cluster_put_def
      by (rule write_sectors_map_other)
        (metis False data_addr_inj [OF assms(1,2,3)] data_addr_bound(3) [OF assms(1)]
          of_nat_u32_eq_iff assms(2,3) i)
  qed
  with False show ?thesis by simp
qed

lemma length_cluster_data:
  assumes "fat_geometry cap fs" and "sectors_wf m"
  shows "length (cluster_data fs m c) = cluster_size_bytes (bpb fs)"
  using assms
  by (simp add: cluster_data_def length_concat comp_def sum_list_triv cluster_size_bytes_def
      fat_geometryD(1) [OF assms(1)])

text \<open>The reserved sectors, among them the boot sector, come before the tables and the clusters.\<close>

definition is_reserved_sector :: "'d Fat32Fs \<Rightarrow> u32 \<Rightarrow> bool" where
  "is_reserved_sector fs l \<longleftrightarrow> unat l < unat (partition_lba fs) + unat (reserved_sector_count (bpb fs))"

lemma reserved_address:
  "is_reserved_sector fs l \<Longrightarrow> unat (partition_lba fs) + unat (reserved_sector_count (bpb fs)) \<le> n \<Longrightarrow> n < 2 ^ 32 \<Longrightarrow>
    (of_nat n :: u32) \<noteq> l"
  by (auto simp: is_reserved_sector_def unat_of_nat)

lemma reserved_fat_put:
  assumes g: "fat_geometry cap fs" and c: "valid_cluster (bpb fs) c" and l: "is_reserved_sector fs l"
  shows "fat_put fs m c v l = m l"
proof -
  note j = valid_cluster_sector_bound [OF g c]
  have "(of_nat (fat_addr fs k (unat c div 128)) :: u32) \<noteq> l" if "k < unat (num_fats (bpb fs))" for k
    by (rule reserved_address [OF l _ fat_addr_bound(3) [OF g that j]]) (simp add: fat_addr_def)
  then show ?thesis by (simp add: fat_put_def Let_def write_sectors_map_other)
qed

lemma reserved_cluster_put:
  assumes g: "fat_geometry cap fs" and c: "valid_cluster (bpb fs) c" and l: "is_reserved_sector fs l"
  shows "cluster_put fs m c x l = m l"
proof -
  have "(of_nat (data_addr fs c i) :: u32) \<noteq> l" if "i < unat (sectors_per_cluster (bpb fs))" for i
    by (rule reserved_address [OF l _ data_addr_bound(3) [OF g c that]]) (simp add: data_addr_def fat_data_start_def)
  then show ?thesis by (simp add: cluster_put_def write_sectors_map_other)
qed

section \<open>Chains of the table\<close>

text \<open>\<open>read_chain\<close> over a table given as a function.\<close>

function chain_from :: "(u32 \<Rightarrow> u32) \<Rightarrow> u32 list \<Rightarrow> u32 \<Rightarrow> u32 list" where
  "chain_from get chain current =
     (if current < 2 then chain
      else let chain' = chain @ [current]; next = get current in
        if FAT32_EOC \<le> next \<or> next = FAT32_BAD \<or> next = 0 \<or> next < 2 \<or> next = current
           \<or> next \<in> set chain' \<or> 100000 < length chain' then chain'
        else chain_from get chain' next)"
  by pat_completeness auto
termination
  by (relation "measure (\<lambda>(get, chain, current). 100001 - length chain)") auto

declare chain_from.simps [simp del]

text \<open>An intact chain: distinct clusters, each linked to the next, the last one marked as
  the end.\<close>

definition linked :: "(u32 \<Rightarrow> u32) \<Rightarrow> u32 list \<Rightarrow> bool" where
  "linked get cs \<longleftrightarrow> (\<forall>i. Suc i < length cs \<longrightarrow> get (cs ! i) = cs ! Suc i)"

definition intact_chain :: "Fat32Bpb \<Rightarrow> (u32 \<Rightarrow> u32) \<Rightarrow> u32 list \<Rightarrow> bool" where
  "intact_chain b get cs \<longleftrightarrow>
     cs \<noteq> [] \<and> distinct cs \<and> list_all (valid_cluster b) cs \<and> length cs \<le> 100001 \<and>
     linked get cs \<and> FAT32_EOC \<le> get (last cs)"

text \<open>Every entry of a cluster of the volume is free, an end or reserved mark, or the
  number of a cluster of the volume.\<close>

definition fat_closed :: "Fat32Bpb \<Rightarrow> (u32 \<Rightarrow> u32) \<Rightarrow> bool" where
  "fat_closed b get \<longleftrightarrow>
     (\<forall>c. valid_cluster b c \<longrightarrow> get c < 2 \<or> valid_cluster b (get c) \<or> FAT32_BAD \<le> get c)"

lemma linked_snoc:
  "linked get (cs @ [c]) \<longleftrightarrow> linked get cs \<and> (cs = [] \<or> get (last cs) = c)"
proof -
  have "(\<forall>i. Suc i < Suc (length cs) \<longrightarrow> get ((cs @ [c]) ! i) = (cs @ [c]) ! Suc i) \<longleftrightarrow>
      (\<forall>i. Suc i < length cs \<longrightarrow> get (cs ! i) = cs ! Suc i) \<and>
      (cs \<noteq> [] \<longrightarrow> get (cs ! (length cs - 1)) = c)" (is "?l \<longleftrightarrow> ?a \<and> ?b")
  proof
    assume l: ?l
    have ?a
    proof (intro allI impI)
      fix i assume "Suc i < length cs"
      then show "get (cs ! i) = cs ! Suc i" using l [rule_format, of i] by (simp add: nth_append)
    qed
    moreover have ?b
      using l [rule_format, of "length cs - 1"] by (auto simp: nth_append neq_Nil_conv)
    ultimately show "?a \<and> ?b" ..
  next
    assume ab: "?a \<and> ?b"
    show ?l
    proof (intro allI impI)
      fix i assume i: "Suc i < Suc (length cs)"
      show "get ((cs @ [c]) ! i) = (cs @ [c]) ! Suc i"
      proof (cases "Suc i < length cs")
        case True
        then show ?thesis using ab by (simp add: nth_append)
      next
        case False
        then have "i = length cs - 1" and "cs \<noteq> []" using i by auto
        then show ?thesis using ab by (simp add: nth_append)
      qed
    qed
  qed
  then show ?thesis
    by (cases "cs = []") (simp_all add: linked_def last_conv_nth)
qed

lemma chain_from_stop:
  assumes "\<not> current < 2"
    and "FAT32_EOC \<le> get current \<or> get current = FAT32_BAD \<or> get current = 0 \<or> get current < 2
      \<or> get current = current \<or> get current \<in> set (chain @ [current]) \<or> 100000 < length (chain @ [current])"
  shows "chain_from get chain current = chain @ [current]"
  using assms by (subst chain_from.simps) (simp only: Let_def if_True if_False simp_thms)

lemma chain_from_step:
  assumes "\<not> current < 2"
    and "\<not> (FAT32_EOC \<le> get current \<or> get current = FAT32_BAD \<or> get current = 0 \<or> get current < 2
      \<or> get current = current \<or> get current \<in> set (chain @ [current]) \<or> 100000 < length (chain @ [current]))"
  shows "chain_from get chain current = chain_from get (chain @ [current]) (get current)"
  using assms by (subst chain_from.simps) (simp only: Let_def if_True if_False simp_thms)

text \<open>The loop rule of the chain walk.\<close>

lemma chain_from_rule:
  assumes "P chain current" and "\<And>ch cur. P ch cur \<Longrightarrow> cur < 2 \<Longrightarrow> Q ch"
    and "\<And>ch cur. P ch cur \<Longrightarrow> \<not> cur < 2 \<Longrightarrow> Q (ch @ [cur])"
    and "\<And>ch cur. P ch cur \<Longrightarrow> \<not> cur < 2 \<Longrightarrow> get cur < FAT32_BAD \<Longrightarrow>
      \<not> get cur < 2 \<Longrightarrow> get cur \<notin> set (ch @ [cur]) \<Longrightarrow> length ch < 100000 \<Longrightarrow> P (ch @ [cur]) (get cur)"
  shows "Q (chain_from get chain current)"
  using assms
proof (induction get chain current rule: chain_from.induct)
  case (1 g chain current)
  show ?case
  proof (cases "current < 2")
    case True
    then show ?thesis using 1(2,3) by (simp add: chain_from.simps)
  next
    case False
    let ?stop = "FAT32_EOC \<le> g current \<or> g current = FAT32_BAD \<or> g current = 0 \<or> g current < 2
      \<or> g current = current \<or> g current \<in> set (chain @ [current]) \<or> 100000 < length (chain @ [current])"
    show ?thesis
    proof (cases ?stop)
      case True
      show ?thesis
        unfolding chain_from_stop [where get = g and chain = chain, OF False True]
        by (rule 1(4) [OF 1(2) False])
    next
      case go: False
      have "g current < FAT32_BAD"
        using go by (auto simp: FAT32_EOC_def FAT32_BAD_def word_less_nat_alt word_le_nat_alt
            word_unat_eq_iff)
      then have P: "P (chain @ [current]) (g current)"
        using go by (intro 1(5) [OF 1(2) False]) auto
      show ?thesis
        unfolding chain_from_step [where get = g and chain = chain, OF False go]
        by (rule 1(1) [OF False refl refl go P 1(3-5)])
    qed
  qed
qed

lemma chain_from_props:
  assumes "2 \<le> c"
  shows "distinct (chain_from get [] c)" "linked get (chain_from get [] c)"
    "list_all (\<lambda>x. 2 \<le> x) (chain_from get [] c)" "length (chain_from get [] c) \<le> 100001"
    "chain_from get [] c \<noteq> []" "hd (chain_from get [] c) = c"
proof -
  let ?P = "\<lambda>ch cur. distinct (ch @ [cur]) \<and> linked get (ch @ [cur]) \<and>
    list_all (\<lambda>x. 2 \<le> x) (ch @ [cur]) \<and> length (ch @ [cur]) \<le> 100001 \<and> hd (ch @ [cur]) = c"
  let ?Q = "\<lambda>r. distinct r \<and> linked get r \<and> list_all (\<lambda>x. 2 \<le> x) r \<and> length r \<le> 100001 \<and>
    r \<noteq> [] \<and> hd r = c"
  have "?Q (chain_from get [] c)"
  proof (rule chain_from_rule [where P = ?P])
    show "?P [] c" using assms by (simp add: linked_def)
  next
    fix ch cur
    assume "?P ch cur" and "cur < 2"
    then show "?Q ch" by (simp add: not_less [symmetric])
  next
    fix ch cur
    assume "?P ch cur" and "\<not> cur < 2"
    then show "?Q (ch @ [cur])" by simp
  next
    fix ch cur
    assume a: "?P ch cur" "\<not> get cur < 2" "get cur \<notin> set (ch @ [cur])" "length ch < 100000"
    then have "linked get ((ch @ [cur]) @ [get cur])"
      unfolding linked_snoc [of get "ch @ [cur]"] by simp
    then show "?P (ch @ [cur]) (get cur)"
      using a by (cases ch) auto
  qed
  then show "distinct (chain_from get [] c)" "linked get (chain_from get [] c)"
    "list_all (\<lambda>x. 2 \<le> x) (chain_from get [] c)" "length (chain_from get [] c) \<le> 100001"
    "chain_from get [] c \<noteq> []" "hd (chain_from get [] c) = c"
    by blast+
qed

lemma chain_from_contains:
  assumes "\<not> c < 2"
  shows "set (ch @ [c]) \<subseteq> set (chain_from get ch c)"
proof (rule chain_from_rule [where P = "\<lambda>ch' cur. set (ch @ [c]) \<subseteq> set (ch' @ [cur]) \<and> \<not> cur < 2"])
  fix ch' cur
  assume "set (ch @ [c]) \<subseteq> set (ch' @ [cur]) \<and> \<not> cur < 2" and "\<not> get cur < 2"
  then show "set (ch @ [c]) \<subseteq> set ((ch' @ [cur]) @ [get cur]) \<and> \<not> get cur < 2" by auto
qed (use assms in auto)

lemma chain_from_valid:
  assumes "fat_closed b get" and "valid_cluster b c"
  shows "list_all (valid_cluster b) (chain_from get [] c)"
proof (rule chain_from_rule [where P = "\<lambda>ch cur. list_all (valid_cluster b) (ch @ [cur])"])
  show "list_all (valid_cluster b) ([] @ [c])" using assms(2) by simp
next
  fix ch cur
  assume "list_all (valid_cluster b) (ch @ [cur])" and "get cur < FAT32_BAD" and "\<not> get cur < 2"
  then show "list_all (valid_cluster b) ((ch @ [cur]) @ [get cur])"
    using assms(1) by (auto simp: fat_closed_def not_le [symmetric])
qed simp_all

lemma valid_cluster_range:
  assumes "fat_geometry cap fs" and "valid_cluster (bpb fs) c"
  shows "\<not> c < 2" and "c < FAT32_BAD" and "\<not> FAT32_EOC \<le> c" and "c \<noteq> 0" and "unat c < 2 ^ 28"
proof -
  have c: "2 \<le> unat c" "unat c < 0x0FFFFFF7"
    using assms(2) fat_geometryD(8) [OF assms(1)] by (auto simp: valid_cluster_def)
  then show "\<not> c < 2" "c < FAT32_BAD" "\<not> FAT32_EOC \<le> c" "unat c < 2 ^ 28"
    by (simp_all add: word_less_nat_alt word_le_nat_alt FAT32_BAD_def FAT32_EOC_def)
  show "c \<noteq> 0" using c(1) by auto
qed

text \<open>An intact chain is read back whole.\<close>

lemma chain_from_intact:
  assumes g: "fat_geometry cap fs" and "intact_chain (bpb fs) get (pre @ c # suf)"
  shows "chain_from get pre c = pre @ c # suf"
  using assms(2)
proof (induction suf arbitrary: pre c)
  case Nil
  then have "FAT32_EOC \<le> get c" and "valid_cluster (bpb fs) c"
    by (simp_all add: intact_chain_def)
  then show ?case
    using valid_cluster_range(1) [OF g] by (simp add: chain_from_stop)
next
  case (Cons c' suf)
  have v: "valid_cluster (bpb fs) c" "valid_cluster (bpb fs) c'" and l: "length pre < 100000"
    and d: "c' \<notin> set (pre @ [c])"
    using Cons.prems by (auto simp: intact_chain_def)
  have "linked get (pre @ c # c' # suf)"
    using Cons.prems by (simp add: intact_chain_def)
  then have nx: "get c = c'"
    by (auto simp: linked_def nth_append dest!: spec [of _ "length pre"])
  have "chain_from get pre c = chain_from get (pre @ [c]) c'"
    using chain_from_step [of c get pre] valid_cluster_range [OF g v(1)]
      valid_cluster_range [OF g v(2)] l d nx by auto
  also have "\<dots> = pre @ c # c' # suf"
    using Cons.IH [of "pre @ [c]" c'] Cons.prems by simp
  finally show ?case .
qed

section \<open>Free clusters\<close>

definition all_clusters :: "Fat32Bpb \<Rightarrow> u32 list" where
  "all_clusters b = map of_nat [2..<fat_nclusters b + 2]"

text \<open>The lowest free cluster of a table.\<close>

definition first_free :: "Fat32Bpb \<Rightarrow> (u32 \<Rightarrow> u32) \<Rightarrow> u32 option" where
  "first_free b get = find (\<lambda>c. get c = FAT32_FREE) (all_clusters b)"

lemma of_nat_valid_cluster:
  assumes "fat_geometry cap fs" and "2 \<le> n" and "n < fat_nclusters (bpb fs) + 2"
  shows "valid_cluster (bpb fs) (of_nat n)" and "unat (of_nat n :: u32) = n"
proof -
  have "n < 2 ^ 32" using assms(3) fat_geometryD(8) [OF assms(1)] by simp
  then show u: "unat (of_nat n :: u32) = n"
    by (simp add: unsigned_of_nat take_bit_nat_eq_self)
  show "valid_cluster (bpb fs) (of_nat n)"
    using assms(2,3) unfolding valid_cluster_def u by simp
qed

lemma length_all_clusters [simp]: "length (all_clusters b) = fat_nclusters b"
  by (simp add: all_clusters_def del: upt_Suc)

lemma nth_all_clusters [simp]: "i < fat_nclusters b \<Longrightarrow> all_clusters b ! i = of_nat (i + 2)"
  by (simp add: all_clusters_def add.commute del: upt_Suc)

lemma set_all_clusters:
  assumes "fat_geometry cap fs"
  shows "set (all_clusters (bpb fs)) = {c. valid_cluster (bpb fs) c}"
proof (intro set_eqI iffI)
  fix c
  assume "c \<in> set (all_clusters (bpb fs))"
  then obtain i where "i < fat_nclusters (bpb fs)" and "c = of_nat (i + 2)"
    by (auto simp: in_set_conv_nth simp del: of_nat_add)
  then show "c \<in> {c. valid_cluster (bpb fs) c}"
    using of_nat_valid_cluster(1) [OF assms, of "i + 2"] by simp
next
  fix c
  assume "c \<in> {c. valid_cluster (bpb fs) c}"
  then have "unat c \<in> set [2..<fat_nclusters (bpb fs) + 2]" and "c = of_nat (unat c)"
    by (auto simp: valid_cluster_def)
  then show "c \<in> set (all_clusters (bpb fs))"
    unfolding all_clusters_def by (metis image_eqI set_map)
qed

lemma first_free_Some:
  assumes "fat_geometry cap fs" and "first_free (bpb fs) get = Some c"
  shows "valid_cluster (bpb fs) c" and "get c = FAT32_FREE"
    and "\<And>c'. valid_cluster (bpb fs) c' \<Longrightarrow> c' < c \<Longrightarrow> get c' \<noteq> FAT32_FREE"
proof -
  obtain i where i: "i < length (all_clusters (bpb fs))" "get (all_clusters (bpb fs) ! i) = FAT32_FREE"
      "c = all_clusters (bpb fs) ! i" "\<forall>j<i. get (all_clusters (bpb fs) ! j) \<noteq> FAT32_FREE"
    using assms(2) unfolding first_free_def find_Some_iff by blast
  show "valid_cluster (bpb fs) c"
    using nth_mem [OF i(1)] set_all_clusters [OF assms(1)] unfolding i(3) [symmetric] by simp
  show "get c = FAT32_FREE"
    using i(2) unfolding i(3) [symmetric] .
  have ui: "unat c = i + 2"
    using i(1,3) of_nat_valid_cluster(2) [OF assms(1), of "i + 2"] by simp
  fix c'
  assume c': "valid_cluster (bpb fs) c'" "c' < c"
  then have "unat c' - 2 < i"
    using ui unfolding word_less_nat_alt valid_cluster_def by linarith
  then have "get (all_clusters (bpb fs) ! (unat c' - 2)) \<noteq> FAT32_FREE"
    using i(4) by blast
  moreover have "all_clusters (bpb fs) ! (unat c' - 2) = c'"
  proof -
    have b: "unat c' - 2 < fat_nclusters (bpb fs)" "unat c' - 2 + 2 = unat c'"
      using c'(1) unfolding valid_cluster_def by linarith+
    show ?thesis
      unfolding nth_all_clusters [OF b(1)] b(2) by simp
  qed
  ultimately show "get c' \<noteq> FAT32_FREE" by simp
qed

lemma first_free_None:
  assumes "fat_geometry cap fs"
  shows "first_free (bpb fs) get = None \<longleftrightarrow> (\<forall>c. valid_cluster (bpb fs) c \<longrightarrow> get c \<noteq> FAT32_FREE)"
  unfolding first_free_def find_None_iff using set_all_clusters [OF assms] by auto

lemma first_free_cong:
  assumes "fat_geometry cap fs" and "\<And>c. valid_cluster (bpb fs) c \<Longrightarrow> get c = get' c"
  shows "first_free (bpb fs) get = first_free (bpb fs) get'"
  unfolding first_free_def
  by (rule find_cong) (use assms(2) set_all_clusters [OF assms(1)] in auto)

section \<open>Writing the clusters and the links of a file\<close>

definition put_clusters :: "'d Fat32Fs \<Rightarrow> u32 list \<Rightarrow> bytes \<Rightarrow> nat \<Rightarrow> sectors \<Rightarrow> sectors" where
  "put_clusters fs cs data n m =
     fold (\<lambda>i m. cluster_put fs m (cs ! i) (file_cluster_buf (cluster_size_bytes (bpb fs)) data i))
       [0..<n] m"

definition put_links :: "'d Fat32Fs \<Rightarrow> u32 list \<Rightarrow> nat \<Rightarrow> sectors \<Rightarrow> sectors" where
  "put_links fs cs n m =
     fold (\<lambda>i m. fat_put fs m (cs ! i) (if i + 1 < length cs then cs ! (i + 1) else FAT32_EOC))
       [0..<n] m"

definition file_bytes :: "'d Fat32Fs \<Rightarrow> sectors \<Rightarrow> u32 list \<Rightarrow> bytes" where
  "file_bytes fs m cs = concat (map (cluster_data fs m) cs)"

lemma length_file_cluster_buf [simp]: "length (file_cluster_buf k data i) = k"
  by (simp add: file_cluster_buf_def slice_def Let_def)

lemma cluster_put_buf_wf:
  assumes "fat_geometry cap fs" and "sectors_wf m" and "length x = cluster_size_bytes (bpb fs)"
  shows "sectors_wf (cluster_put fs m c x)"
  using assms fat_geometryD(1) [OF assms(1)]
  by (intro cluster_put_wf) (simp_all add: cluster_size_bytes_def)

text \<open>In these lemmas \<open>cs\<close> is any list of clusters of the volume, repetitions
  allowed: a cluster that occurs several times keeps what was written last.\<close>

lemma put_clusters_wf:
  assumes "fat_geometry cap fs" and "sectors_wf m"
  shows "sectors_wf (put_clusters fs cs data n m)"
  unfolding put_clusters_def
  by (rule fold_writes_inv [where I = sectors_wf])
    (use assms(2) in \<open>auto intro: cluster_put_buf_wf [OF assms(1)]\<close>)

lemma put_links_wf: "sectors_wf m \<Longrightarrow> sectors_wf (put_links fs cs n m)"
  unfolding put_links_def
  by (rule fold_writes_inv [where I = sectors_wf]) (auto intro: fat_put_wf)

lemma fat_entry_put_clusters:
  assumes g: "fat_geometry cap fs" and v: "list_all (valid_cluster (bpb fs)) cs"
    and c: "valid_cluster (bpb fs) c"
  shows "fat_entry fs (put_clusters fs cs data (length cs) m) c = fat_entry fs m c"
  unfolding put_clusters_def
  by (rule fold_writes_other [where I = "\<lambda>_. True" and get = "\<lambda>m. fat_entry fs m c"])
    (use v in \<open>simp_all add: fat_entry_cluster_put [OF g _ c] list_all_length\<close>)

lemma cluster_data_put_links:
  assumes g: "fat_geometry cap fs" and v: "list_all (valid_cluster (bpb fs)) cs"
    and c: "valid_cluster (bpb fs) c"
  shows "cluster_data fs (put_links fs cs (length cs) m) c = cluster_data fs m c"
  unfolding put_links_def
  by (rule fold_writes_other [where I = "\<lambda>_. True" and get = "\<lambda>m. cluster_data fs m c"])
    (use v in \<open>simp_all add: cluster_data_fat_put [OF g _ c] list_all_length\<close>)

lemma reserved_put_clusters:
  assumes g: "fat_geometry cap fs" and v: "list_all (valid_cluster (bpb fs)) cs" and l: "is_reserved_sector fs l"
  shows "put_clusters fs cs data (length cs) m l = m l"
  unfolding put_clusters_def
  by (rule fold_writes_other [where I = "\<lambda>_. True" and get = "\<lambda>m. m l"])
    (use v in \<open>simp_all add: reserved_cluster_put [OF g _ l] list_all_length\<close>)

lemma reserved_put_links:
  assumes g: "fat_geometry cap fs" and v: "list_all (valid_cluster (bpb fs)) cs" and l: "is_reserved_sector fs l"
  shows "put_links fs cs (length cs) m l = m l"
  unfolding put_links_def
  by (rule fold_writes_other [where I = "\<lambda>_. True" and get = "\<lambda>m. m l"])
    (use v in \<open>simp_all add: reserved_fat_put [OF g _ l] list_all_length\<close>)

lemma cluster_data_put_clusters_other:
  assumes g: "fat_geometry cap fs" and v: "list_all (valid_cluster (bpb fs)) cs"
    and c: "valid_cluster (bpb fs) c" and o: "c \<notin> set cs"
  shows "cluster_data fs (put_clusters fs cs data (length cs) m) c = cluster_data fs m c"
  unfolding put_clusters_def
  by (rule fold_writes_other [where I = "\<lambda>_. True" and get = "\<lambda>m. cluster_data fs m c"])
    (use v o in \<open>auto simp: cluster_data_cluster_put [OF g _ c] list_all_length\<close>)

lemma fat_entry_put_links_other:
  assumes g: "fat_geometry cap fs" and v: "list_all (valid_cluster (bpb fs)) cs"
    and wf: "sectors_wf m" and c: "valid_cluster (bpb fs) c" and o: "c \<notin> set cs"
  shows "fat_entry fs (put_links fs cs (length cs) m) c = fat_entry fs m c"
  unfolding put_links_def
  by (rule fold_writes_other [where I = sectors_wf and get = "\<lambda>m. fat_entry fs m c"])
    (use v o wf in \<open>auto simp: fat_entry_fat_put [OF g _ c] list_all_length intro: fat_put_wf\<close>)

lemma cluster_data_put_clusters:
  assumes g: "fat_geometry cap fs" and v: "list_all (valid_cluster (bpb fs)) cs"
    and i: "i < length cs" and last: "\<And>j. i < j \<Longrightarrow> j < length cs \<Longrightarrow> cs ! j \<noteq> cs ! i"
  shows "cluster_data fs (put_clusters fs cs data (length cs) m) (cs ! i) =
    file_cluster_buf (cluster_size_bytes (bpb fs)) data i"
proof -
  have c: "valid_cluster (bpb fs) (cs ! i)" using v i by (simp add: list_all_length)
  show ?thesis
    unfolding put_clusters_def
    by (rule fold_writes_last [where I = "\<lambda>_. True" and get = "\<lambda>m. cluster_data fs m (cs ! i)"
          and a = "\<lambda>i. cs ! i" and x = "cs ! i"])
      (use v i last in \<open>auto simp: cluster_data_cluster_put [OF g _ c] list_all_length\<close>)
qed

lemma fat_entry_put_links:
  assumes g: "fat_geometry cap fs" and v: "list_all (valid_cluster (bpb fs)) cs"
    and wf: "sectors_wf m"
    and i: "i < length cs" and last: "\<And>j. i < j \<Longrightarrow> j < length cs \<Longrightarrow> cs ! j \<noteq> cs ! i"
  shows "fat_entry fs (put_links fs cs (length cs) m) (cs ! i) =
    (if i + 1 < length cs then cs ! (i + 1) else FAT32_EOC)"
proof -
  let ?v = "\<lambda>i. if i + 1 < length cs then cs ! (i + 1) else FAT32_EOC"
  have c: "valid_cluster (bpb fs) (cs ! i)" using v i by (simp add: list_all_length)
  have "unat (?v i) < 2 ^ 28"
    using valid_cluster_range(5) [OF g, of "cs ! (i + 1)"] v
    by (simp add: FAT32_EOC_def list_all_length)
  then have "?v i AND 0x0FFFFFFF = ?v i"
    by (rule fat_value_small)
  moreover have "fat_entry fs (put_links fs cs (length cs) m) (cs ! i) = ?v i AND 0x0FFFFFFF"
    unfolding put_links_def
    by (rule fold_writes_last [where I = sectors_wf and get = "\<lambda>m. fat_entry fs m (cs ! i)"
          and a = "\<lambda>i. cs ! i" and x = "cs ! i" and v = "\<lambda>i. ?v i AND 0x0FFFFFFF"])
      (use v i last wf in \<open>simp_all add: fat_entry_fat_put [OF g _ c] list_all_length fat_put_wf\<close>)
  ultimately show ?thesis by simp
qed

text \<open>A list of clusters whose last one may be repeated.\<close>

lemma padded_nth:
  assumes "ds \<noteq> []" and "i < length (ds @ replicate k (last ds))"
  shows "(ds @ replicate k (last ds)) ! i = (if i < length ds then ds ! i else last ds)"
  using assms by (auto simp: nth_append)

lemma padded_later:
  assumes "ds \<noteq> []" and "distinct ds" and "Suc i < length ds"
    and "i < j" and "j < length (ds @ replicate k (last ds))"
  shows "(ds @ replicate k (last ds)) ! j \<noteq> (ds @ replicate k (last ds)) ! i"
proof -
  have i: "(ds @ replicate k (last ds)) ! i = ds ! i"
    using assms(3) by (simp add: nth_append)
  show ?thesis
  proof (cases "j < length ds")
    case True
    then show ?thesis
      using assms(2,3,4) i by (simp add: nth_append nth_eq_iff_index_eq)
  next
    case False
    then have "(ds @ replicate k (last ds)) ! j = ds ! (length ds - 1)"
      unfolding padded_nth [OF assms(1,5)] using assms(1) by (simp add: last_conv_nth)
    then show ?thesis
      using assms(1-3) i by (simp add: nth_eq_iff_index_eq)
  qed
qed

lemma put_links_intact:
  assumes g: "fat_geometry cap fs" and v: "list_all (valid_cluster (bpb fs)) ds"
    and wf: "sectors_wf m" and ne: "ds \<noteq> []" and d: "distinct ds" and len: "length ds \<le> 100001"
    and cl: "cl = ds @ replicate k (last ds)"
  shows "intact_chain (bpb fs) (fat_entry fs (put_links fs cl (length cl) m)) ds"
proof -
  let ?get = "fat_entry fs (put_links fs cl (length cl) m)"
  have vl: "list_all (valid_cluster (bpb fs)) cl"
    using v ne unfolding cl by (auto simp: list_all_iff)
  have "?get (ds ! i) = ds ! Suc i" if i: "Suc i < length ds" for i
  proof -
    have "?get (cl ! i) = (if i + 1 < length cl then cl ! (i + 1) else FAT32_EOC)"
      by (rule fat_entry_put_links [OF g vl wf])
        (use i padded_later [OF ne d i] in \<open>auto simp: cl\<close>)
    then show ?thesis
      using i unfolding cl by (simp add: nth_append)
  qed
  moreover have "?get (cl ! (length cl - 1)) = FAT32_EOC"
    using fat_entry_put_links [OF g vl wf, of "length cl - 1"] ne unfolding cl by simp
  moreover have "cl ! (length cl - 1) = last ds"
    using ne padded_nth [OF ne, of "length cl - 1" k] unfolding cl
    by (cases k) (simp_all add: last_conv_nth)
  ultimately show ?thesis
    using assms by (simp add: intact_chain_def linked_def)
qed

lemma concat_file_cluster_buf:
  assumes "0 < k"
  shows "concat (map (file_cluster_buf k data) [0..<n]) = take (n * k) data @ replicate (n * k - length data) 0"
proof (induction n)
  case 0
  then show ?case by simp
next
  case (Suc n)
  let ?L = "length data"
  consider "?L \<le> n * k" | "n * k < ?L" "?L \<le> n * k + k" | "n * k + k < ?L" by linarith
  then show ?case
  proof cases
    case 1
    then have "file_cluster_buf k data n = replicate k 0"
      by (simp add: file_cluster_buf_def)
    then show ?thesis
      using 1 Suc by (simp add: replicate_add [symmetric] add.commute)
  next
    case 2
    then have "file_cluster_buf k data n = drop (n * k) data @ replicate (n * k + k - ?L) 0"
      by (simp add: file_cluster_buf_def Let_def slice_def)
    then show ?thesis
      using 2 Suc by (simp add: append_assoc [symmetric] add.commute)
  next
    case 3
    then have "file_cluster_buf k data n = take k (drop (n * k) data)"
      by (simp add: file_cluster_buf_def Let_def slice_def)
    then show ?thesis
      using 3 Suc by (simp add: take_add add.commute [of k])
  qed
qed

lemma file_bytes_put_clusters:
  assumes g: "fat_geometry cap fs" and v: "list_all (valid_cluster (bpb fs)) cs" and d: "distinct cs"
  shows "file_bytes fs (put_clusters fs cs data (length cs) m) cs =
    take (length cs * cluster_size_bytes (bpb fs)) data
      @ replicate (length cs * cluster_size_bytes (bpb fs) - length data) 0"
proof -
  let ?k = "cluster_size_bytes (bpb fs)"
  have k: "0 < ?k"
    using fat_geometryD(1,2) [OF g] by (simp add: cluster_size_bytes_def)
  have "map (cluster_data fs (put_clusters fs cs data (length cs) m)) cs = map (file_cluster_buf ?k data) [0..<length cs]"
    by (rule nth_equalityI)
      (use d in \<open>auto simp: cluster_data_put_clusters [OF g v] nth_eq_iff_index_eq\<close>)
  then show ?thesis
    using concat_file_cluster_buf [OF k] by (simp add: file_bytes_def)
qed

end
