(* ===== verification/Fat_Refine.thy ===== *)
theory Fat_Refine
  imports Fat_View
begin

text \<open>
  The operations of \<open>Fat_Table\<close> on a device that keeps the contract of
  \<open>block_device\<close> implement the abstract functions of \<open>Fat_View\<close>. The
  relation \<open>op_ok\<close> says that an operation succeeds with a result and leaves the
  sectors of the device with a given content; its rules follow the shape of the
  programs.
\<close>

definition mounted_on :: "'d block_dev \<Rightarrow> u32 \<Rightarrow> 'd Fat32Fs \<Rightarrow> bool" where
  "mounted_on dev cap fs \<longleftrightarrow> fs_device fs = dev \<and> fat_geometry cap fs"

context block_device
begin

definition op_ok :: "('d, 'e, 'a) io \<Rightarrow> 'd \<Rightarrow> 'a \<Rightarrow> sectors \<Rightarrow> bool" where
  "op_ok op d r m \<longleftrightarrow> (\<exists>d'. op d = (Inr r, d') \<and> dev_inv d' \<and> content d' = m)"

lemma op_okI: "op d = (Inr r, d') \<Longrightarrow> dev_inv d' \<Longrightarrow> content d' = m \<Longrightarrow> op_ok op d r m"
  by (auto simp: op_ok_def)

lemma op_okE:
  assumes "op_ok op d r m"
  obtains d' where "op d = (Inr r, d')" "dev_inv d'" "content d' = m"
  using assms by (auto simp: op_ok_def)

lemma op_ok_ret: "dev_inv d \<Longrightarrow> op_ok (io_ret x) d x (content d)"
  by (simp add: op_ok_def)

lemma op_ok_bind:
  assumes "op_ok p d x m"
    and "\<And>d'. dev_inv d' \<Longrightarrow> content d' = m \<Longrightarrow> op_ok (f x) d' y m'"
  shows "op_ok (io_bind p f) d y m'"
  using assms by (fastforce simp: op_ok_def)

lemma op_ok_for:
  assumes "dev_inv d" and "content d = M 0"
    and "\<And>i d. i < length xs \<Longrightarrow> dev_inv d \<Longrightarrow> content d = M i \<Longrightarrow> op_ok (body (xs ! i)) d () (M (Suc i))"
  shows "op_ok (io_for xs body) d () (M (length xs))"
  unfolding op_ok_def
  by (rule io_for_rule [where I = "\<lambda>i d. dev_inv d \<and> content d = M i"])
    (use assms in \<open>auto simp: op_ok_def\<close>)

lemma content_wf: "dev_inv d \<Longrightarrow> sectors_wf (content d)"
  by (simp add: sectors_wf_def content_length)

lemma of_nat_less_capacity: "a < unat capacity \<Longrightarrow> of_nat a < capacity"
  using cap_less [of capacity]
  by (simp add: word_less_nat_alt unsigned_of_nat take_bit_nat_eq_self)

lemma read_sector_buf_ok:
  assumes "dev_inv d" and "fs_device fs = dev" and "partition_lba fs + lba = of_nat a"
    and "a < unat capacity" and "length buf = 512"
  shows "op_ok (read_sector_buf fs lba buf) d (content d (of_nat a)) (content d)"
proof -
  obtain d' where "bd_read dev (of_nat a) buf d = (Inr (content d (of_nat a)), d')" "dev_inv d'"
      "content d' = content d"
    using read_sector_exact [OF assms(1) of_nat_less_capacity [OF assms(4)] assms(5)] by metis
  then show ?thesis
    using assms(2,3) by (intro op_okI [where d' = d']) (simp_all add: read_sector_buf_def)
qed

lemma write_sector_buf_ok:
  assumes "dev_inv d" and "fs_device fs = dev" and "partition_lba fs + lba = of_nat a"
    and "a < unat capacity" and "length buf = 512"
  shows "op_ok (write_sector_buf fs lba buf) d () ((content d)(of_nat a := buf))"
proof -
  obtain d' where "bd_write dev (of_nat a) buf d = (Inr (), d')" "dev_inv d'"
      "content d' = (content d)(of_nat a := buf)"
    using write_sector [OF assms(1) of_nat_less_capacity [OF assms(4)], of buf] assms(5) by auto
  then show ?thesis
    using assms(2,3) by (intro op_okI [where d' = d']) (simp_all add: write_sector_buf_def)
qed

lemma mountedD:
  assumes "mounted_on dev capacity fs"
  shows "fs_device fs = dev" and "fat_geometry capacity fs" and "bytes_per_sector (bpb fs) = 512"
  using assms fat_geometryD(1) by (auto simp: mounted_on_def)

section \<open>Table entries\<close>

lemma unat_mod_128: "unat ((c :: u32) mod 128) = unat c mod 128"
  by (simp add: unat_mod_distrib)

lemma fat_sector_0_bound:
  assumes "mounted_on dev capacity fs" and "valid_cluster (bpb fs) c"
  shows "fat_addr fs 0 (unat c div 128) < unat capacity"
  using fat_addr_bound(2) [OF mountedD(2) [OF assms(1)] fat_geometryD(3) [OF mountedD(2) [OF assms(1)]]
      valid_cluster_sector_bound [OF mountedD(2) [OF assms(1)] assms(2)]] .

lemma read_fat_entry_ok:
  assumes m: "mounted_on dev capacity fs" and c: "valid_cluster (bpb fs) c" and d: "dev_inv d"
  shows "op_ok (read_fat_entry fs c) d (fat_entry fs (content d) c) (content d)"
proof -
  have eq: "read_fat_entry fs c =
      io_bind (read_sector_buf fs (fat_start_sector (bpb fs) + c div 128) (replicate 512 0))
        (\<lambda>buf. io_ret (le32_at buf (unat c mod 128 * 4) AND 0x0FFFFFFF))"
    by (simp add: read_fat_entry_def mountedD(3) [OF m] unat_mod_128)
  show ?thesis
    unfolding eq fat_entry_def
    by (rule op_ok_bind, rule read_sector_buf_ok [OF d mountedD(1) [OF m] fat_sector_address_0
          fat_sector_0_bound [OF m c]])
      (auto intro: op_ok_ret simp: op_ok_def)
qed

lemma write_fat_entry_ok:
  assumes m: "mounted_on dev capacity fs" and c: "valid_cluster (bpb fs) c" and d: "dev_inv d"
  shows "op_ok (write_fat_entry fs c v) d () (fat_put fs (content d) c v)"
proof -
  let ?j = "unat c div 128" and ?i = "unat c mod 128 * 4"
  let ?b = "content d (of_nat (fat_addr fs 0 ?j))"
  let ?b' = "patch32 ?b ?i ((le32_at ?b ?i AND 0xF0000000) OR (v AND 0x0FFFFFFF))"
  let ?loop = "io_for [0..<unat (num_fats (bpb fs))]
      (\<lambda>k. write_sector_buf fs (fat_start_sector (bpb fs) + c div 128 + of_nat k * fat_size_32 (bpb fs)) ?b')"
  let ?M = "\<lambda>k. write_sectors_map (\<lambda>k. of_nat (fat_addr fs k ?j)) (\<lambda>k. ?b') k (content d)"
  have eq: "write_fat_entry fs c v =
      io_bind (read_sector_buf fs (fat_start_sector (bpb fs) + c div 128) (replicate 512 0))
        (\<lambda>b. io_for [0..<unat (num_fats (bpb fs))]
          (\<lambda>k. write_sector_buf fs (fat_start_sector (bpb fs) + c div 128 + of_nat k * fat_size_32 (bpb fs))
             (patch32 b ?i ((le32_at b ?i AND 0xF0000000) OR (v AND 0x0FFFFFFF)))))"
    by (simp add: write_fat_entry_def mountedD(3) [OF m] unat_mod_128 Let_def patch32_def)
  have len: "length ?b' = 512"
    using patch_index [of c] content_length [OF d] by simp
  have loop: "op_ok ?loop d' () (?M (length [0..<unat (num_fats (bpb fs))]))"
    if d': "dev_inv d'" "content d' = content d" for d'
  proof (rule op_ok_for)
    fix i s
    assume i: "i < length [0..<unat (num_fats (bpb fs))]" and s: "dev_inv s" "content s = ?M i"
    have a: "fat_addr fs i ?j < unat capacity"
      using i fat_addr_bound(2) [OF mountedD(2) [OF m] _ valid_cluster_sector_bound [OF mountedD(2) [OF m] c]]
      by simp
    show "op_ok (write_sector_buf fs (fat_start_sector (bpb fs) + c div 128
        + of_nat ([0..<unat (num_fats (bpb fs))] ! i) * fat_size_32 (bpb fs)) ?b') s () (?M (Suc i))"
      using write_sector_buf_ok [OF s(1) mountedD(1) [OF m] fat_sector_address a len] i s(2) by simp
  qed (use that in simp_all)
  show ?thesis
    unfolding eq
    by (rule op_ok_bind, rule read_sector_buf_ok [OF d mountedD(1) [OF m] fat_sector_address_0
          fat_sector_0_bound [OF m c]])
      (use loop in \<open>auto simp: fat_put_def Let_def\<close>)
qed

section \<open>Clusters\<close>

lemma read_cluster_loop_ok:
  assumes m: "mounted_on dev capacity fs" and c: "valid_cluster (bpb fs) c"
    and n: "n = unat (sectors_per_cluster (bpb fs))"
    and i: "i \<le> n" and d: "dev_inv d" and "length rest = (n - i) * 512"
  shows "op_ok (read_cluster_loop fs (cluster_to_sector (bpb fs) c) [i..<n]
      (concat (map (\<lambda>i. content d (of_nat (data_addr fs c i))) [0..<i]) @ rest))
    d (cluster_data fs (content d) c) (content d)"
  using i d assms(6)
proof (induction "n - i" arbitrary: i d rest)
  case 0
  then show ?case by (auto simp: cluster_data_def n op_ok_def)
next
  case (Suc k)
  let ?S = "\<lambda>i. content d (of_nat (data_addr fs c i))"
  let ?pre = "concat (map ?S [0..<i])"
  have lt: "i < n" using Suc.hyps(2) by simp
  have pre: "length ?pre = i * 512"
    using content_length [OF Suc.prems(2)] by (simp add: length_concat comp_def sum_list_triv)
  have rest: "512 \<le> length rest" "length (drop 512 rest) = (n - Suc i) * 512"
    using Suc.prems(3) lt by (auto simp: diff_mult_distrib)
  have sl: "slice (?pre @ rest) (i * 512) 512 = take 512 rest"
    using pre by (simp add: slice_def)
  have eq: "read_cluster_loop fs (cluster_to_sector (bpb fs) c) [i..<n] (?pre @ rest) =
      io_bind (read_sector_buf fs (cluster_to_sector (bpb fs) c + of_nat i) (take 512 rest))
        (\<lambda>part. read_cluster_loop fs (cluster_to_sector (bpb fs) c) [Suc i..<n]
           (?pre @ part @ drop 512 rest))"
    using pre sl lt mountedD(3) [OF m] by (simp add: upt_conv_Cons Let_def)
  have a: "data_addr fs c i < unat capacity"
    using data_addr_bound(2) [OF mountedD(2) [OF m] c] lt n by simp
  have step: "op_ok (read_cluster_loop fs (cluster_to_sector (bpb fs) c) [Suc i..<n]
      (?pre @ ?S i @ drop 512 rest)) d' (cluster_data fs (content d) c) (content d)"
    if d': "dev_inv d'" "content d' = content d" for d'
    using Suc.hyps(1) [of "Suc i" d' "drop 512 rest"] Suc.hyps(2) lt d' rest(2) by simp
  show ?case
    unfolding eq
    by (rule op_ok_bind, rule read_sector_buf_ok [OF Suc.prems(2) mountedD(1) [OF m]
          cluster_sector_address [OF c] a]) (use rest step in auto)
qed

lemma cluster_size_512:
  "mounted_on dev capacity fs \<Longrightarrow> cluster_size_bytes (bpb fs) = unat (sectors_per_cluster (bpb fs)) * 512"
  by (simp add: cluster_size_bytes_def mountedD(3))

lemma cluster_size_pos: "mounted_on dev capacity fs \<Longrightarrow> 0 < cluster_size_bytes (bpb fs)"
  using fat_geometryD(2) [OF mountedD(2)] by (simp add: cluster_size_512)

lemma read_cluster_ok:
  assumes m: "mounted_on dev capacity fs" and c: "valid_cluster (bpb fs) c" and d: "dev_inv d"
    and len: "length buf = cluster_size_bytes (bpb fs)"
  shows "op_ok (read_cluster fs c buf) d (cluster_data fs (content d) c) (content d)"
  using read_cluster_loop_ok [OF m c refl _ d, of 0 buf] len cluster_size_512 [OF m]
  by (simp add: read_cluster_def)

lemma write_cluster_ok:
  assumes m: "mounted_on dev capacity fs" and c: "valid_cluster (bpb fs) c" and d: "dev_inv d"
    and len: "length buf = cluster_size_bytes (bpb fs)"
  shows "op_ok (write_cluster fs c buf) d () (cluster_put fs (content d) c buf)"
proof -
  let ?n = "unat (sectors_per_cluster (bpb fs))"
  let ?M = "\<lambda>k. write_sectors_map (\<lambda>i. of_nat (data_addr fs c i)) (\<lambda>i. slice buf (i * 512) 512) k (content d)"
  let ?body = "\<lambda>i. write_sector_buf fs (cluster_to_sector (bpb fs) c + of_nat i) (slice buf (i * 512) 512)"
  have "op_ok (io_for [0..<?n] ?body) d () (?M (length [0..<?n]))"
  proof (rule op_ok_for)
    fix i s
    assume i: "i < length [0..<?n]" and s: "dev_inv s" "content s = ?M i"
    have a: "data_addr fs c i < unat capacity"
      using data_addr_bound(2) [OF mountedD(2) [OF m] c] i by simp
    have "Suc i * 512 \<le> ?n * 512"
      using i by (intro mult_le_mono1) simp
    then have l: "length (slice buf (i * 512) 512) = 512"
      using len cluster_size_512 [OF m] by (simp add: slice_def)
    show "op_ok (?body ([0..<?n] ! i)) s () (?M (Suc i))"
      using write_sector_buf_ok [OF s(1) mountedD(1) [OF m] cluster_sector_address [OF c] a l] i s(2)
      by simp
  qed (use d in simp_all)
  then show ?thesis
    using len by (simp add: write_cluster_def cluster_put_def mountedD(3) [OF m])
qed

section \<open>Chains\<close>

lemma read_chain_loop_ok:
  assumes m: "mounted_on dev capacity fs" and "dev_inv d" and "content d = sec" and "2 \<le> cur"
    and "list_all (valid_cluster (bpb fs)) (chain_from (fat_entry fs sec) ch cur)"
  shows "op_ok (read_chain_loop fs ch cur) d (chain_from (fat_entry fs sec) ch cur) sec"
  using assms(2-5)
proof (induction "100001 - length ch" arbitrary: ch cur d rule: less_induct)
  case less
  let ?get = "fat_entry fs sec" and ?next = "fat_entry fs sec cur"
  have ge2: "\<not> cur < 2"
    using less.prems(3) by simp
  have v: "valid_cluster (bpb fs) cur"
    using chain_from_contains [OF ge2, of ch ?get] less.prems(4) by (auto simp: list_all_iff)
  obtain d' where rd: "read_fat_entry fs cur d = (Inr ?next, d')" and d': "dev_inv d'" "content d' = sec"
    using read_fat_entry_ok [OF m v less.prems(1)] less.prems(2) by (auto elim!: op_okE)
  let ?stop = "FAT32_EOC \<le> ?next \<or> ?next = FAT32_BAD \<or> ?next = 0 \<or> ?next < 2
      \<or> ?next = cur \<or> ?next \<in> set (ch @ [cur]) \<or> 100000 < length (ch @ [cur])"
  show ?case
  proof (cases ?stop)
    case True
    have "read_chain_loop fs ch cur d = (Inr (ch @ [cur]), d')"
      using True by (subst read_chain_loop.simps) (auto simp: ge2 rd Let_def)
    with d' show ?thesis
      unfolding chain_from_stop [where get = ?get and chain = ch, OF ge2 True] op_ok_def by simp
  next
    case go: False
    have st: "chain_from ?get ch cur = chain_from ?get (ch @ [cur]) ?next"
      by (rule chain_from_step [where get = ?get and chain = ch, OF ge2 go])
    have "100001 - length (ch @ [cur]) < 100001 - length ch" and "2 \<le> ?next"
      using go by auto
    then have "op_ok (read_chain_loop fs (ch @ [cur]) ?next) d' (chain_from ?get (ch @ [cur]) ?next) sec"
      using less.hyps d' less.prems(4) unfolding st by blast
    moreover have "read_chain_loop fs ch cur d = read_chain_loop fs (ch @ [cur]) ?next d'"
      using go by (subst read_chain_loop.simps) (auto simp: ge2 rd Let_def)
    ultimately show ?thesis
      unfolding st op_ok_def by simp
  qed
qed

lemma read_chain_ok:
  assumes m: "mounted_on dev capacity fs" and cl: "fat_closed (bpb fs) (fat_entry fs (content d))"
    and d: "dev_inv d" and c: "valid_cluster (bpb fs) c"
  shows "op_ok (read_chain fs c) d (chain_from (fat_entry fs (content d)) [] c) (content d)"
  using valid_cluster_range(1) [OF mountedD(2) [OF m] c] unfolding read_chain_def
  by (intro read_chain_loop_ok [OF m d refl _ chain_from_valid [OF cl c]]) simp

lemma read_chain_intact:
  assumes m: "mounted_on dev capacity fs" and d: "dev_inv d"
    and i: "intact_chain (bpb fs) (fat_entry fs (content d)) (c # cs)"
  shows "op_ok (read_chain fs c) d (c # cs) (content d)"
proof -
  have r: "chain_from (fat_entry fs (content d)) [] c = c # cs"
    using chain_from_intact [OF mountedD(2) [OF m], of _ "[]"] i by simp
  have v: "list_all (valid_cluster (bpb fs)) (c # cs)"
    using i by (simp add: intact_chain_def)
  then have "2 \<le> c"
    using valid_cluster_range(1) [OF mountedD(2) [OF m], of c] by simp
  with v show ?thesis
    using read_chain_loop_ok [OF m d refl, of c "[]"] unfolding r read_chain_def by blast
qed

text \<open>The content of the sectors after the entries of a list of clusters are freed.\<close>

lemma free_list_ok:
  assumes "mounted_on dev capacity fs" and "list_all (valid_cluster (bpb fs)) cs" and "dev_inv d"
  shows "op_ok (io_for cs (\<lambda>c. write_fat_entry fs c FAT32_FREE)) d ()
    (fold (\<lambda>c m. fat_put fs m c FAT32_FREE) cs (content d))"
  using assms(2,3)
proof (induction cs arbitrary: d)
  case Nil
  then show ?case by (simp add: op_ok_def)
next
  case (Cons c cs)
  then have c: "valid_cluster (bpb fs) c" "list_all (valid_cluster (bpb fs)) cs" by simp_all
  show ?case
    by simp (rule op_ok_bind, rule write_fat_entry_ok [OF assms(1) c(1) Cons.prems(2)],
        use Cons.IH [OF c(2)] in metis)
qed

lemma free_chain_ok:
  assumes m: "mounted_on dev capacity fs" and "fat_closed (bpb fs) (fat_entry fs (content d))"
    and d: "dev_inv d" and c: "valid_cluster (bpb fs) c"
  shows "op_ok (free_chain fs c) d ()
    (fold (\<lambda>c m. fat_put fs m c FAT32_FREE) (chain_from (fat_entry fs (content d)) [] c) (content d))"
  unfolding free_chain_def
  by (rule op_ok_bind, rule read_chain_ok [OF assms])
    (metis free_list_ok [OF m chain_from_valid [OF assms(2,4)]])

section \<open>Allocation\<close>

lemma alloc_scan_ok:
  assumes m: "mounted_on dev capacity fs" and "list_all (valid_cluster (bpb fs)) cs" and "dev_inv d"
    and "find (\<lambda>c. fat_entry fs (content d) c = FAT32_FREE) cs = Some c"
  shows "op_ok (alloc_scan fs cs) d c
    (cluster_put fs (content d) c (replicate (cluster_size_bytes (bpb fs)) 0))"
  using assms(2-4)
proof (induction cs arbitrary: d)
  case Nil
  then show ?case by simp
next
  case (Cons a cs)
  obtain d' where rd: "read_fat_entry fs a d = (Inr (fat_entry fs (content d) a), d')"
      and d': "dev_inv d'" "content d' = content d"
    using read_fat_entry_ok [OF m _ Cons.prems(2), of a] Cons.prems(1) by (auto elim!: op_okE)
  show ?case
  proof (cases "fat_entry fs (content d) a = FAT32_FREE")
    case True
    with Cons.prems have "c = a" and a: "valid_cluster (bpb fs) a" by simp_all
    obtain d'' where "write_cluster fs a (replicate (cluster_size_bytes (bpb fs)) 0) d' = (Inr (), d'')"
        "dev_inv d''" "content d'' = cluster_put fs (content d) a (replicate (cluster_size_bytes (bpb fs)) 0)"
      using write_cluster_ok [OF m a d'(1), of "replicate (cluster_size_bytes (bpb fs)) 0"] d'(2)
      by (auto elim!: op_okE)
    with True rd \<open>c = a\<close> show ?thesis
      by (auto simp: op_ok_def)
  next
    case False
    then have "op_ok (alloc_scan fs cs) d' c
        (cluster_put fs (content d) c (replicate (cluster_size_bytes (bpb fs)) 0))"
      using Cons.IH [of d'] Cons.prems d' by simp
    with False rd show ?thesis
      by (simp add: op_ok_def)
  qed
qed

lemma alloc_scan_full:
  assumes m: "mounted_on dev capacity fs" and "list_all (valid_cluster (bpb fs)) cs" and "dev_inv d"
    and "find (\<lambda>c. fat_entry fs (content d) c = FAT32_FREE) cs = None"
  shows "\<exists>d'. alloc_scan fs cs d = (Inl (FatErr ''No free clusters''), d') \<and> dev_inv d' \<and>
    content d' = content d"
  using assms(2-4)
proof (induction cs arbitrary: d)
  case Nil
  then show ?case by simp
next
  case (Cons a cs)
  obtain d' where rd: "read_fat_entry fs a d = (Inr (fat_entry fs (content d) a), d')"
      and d': "dev_inv d'" "content d' = content d"
    using read_fat_entry_ok [OF m _ Cons.prems(2), of a] Cons.prems(1) by (auto elim!: op_okE)
  then show ?case
    using Cons.IH [of d'] Cons.prems by (auto split: if_splits)
qed

lemma alloc_cluster_scan:
  assumes m: "mounted_on dev capacity fs"
  shows "alloc_cluster fs = alloc_scan fs (all_clusters (bpb fs))"
proof -
  note g = mountedD(2) [OF m]
  let ?b = "bpb fs"
  let ?data = "saturating_sub (total_sectors_32 ?b) (data_start_sector ?b)"
  let ?max = "?data div ucast (sectors_per_cluster ?b)"
  have data: "unat ?data = unat (total_sectors_32 ?b) - fat_data_start ?b"
    by (simp add: unat_saturating_sub data_start_sector_eq [OF g])
  have "unat (sectors_per_cluster ?b) < 2 ^ 32"
    by (rule less_le_trans [OF unsigned_less]) simp
  then have spc: "unat (ucast (sectors_per_cluster ?b) :: u32) = unat (sectors_per_cluster ?b)"
    by (simp add: unsigned_ucast_eq take_bit_nat_eq_self)
  have mx: "unat ?max = fat_nclusters ?b"
    by (simp only: unat_div_distrib data spc fat_nclusters_def)
  have mx2: "unat (?max + 2) = fat_nclusters ?b + 2"
    using fat_geometryD(8) [OF g] by (simp add: unat_plus_if' mx)
  have n2: "2 \<le> fat_nclusters ?b" and s0: "0 < unat (sectors_per_cluster ?b)"
    by (rule fat_geometryD(7) [OF g], rule fat_geometryD(2) [OF g])
  have "?data \<noteq> 0"
    using n2 data by (auto simp: fat_nclusters_def)
  moreover have "sectors_per_cluster ?b \<noteq> 0"
    using s0 by auto
  moreover have "\<not> ?max < 2"
    using n2 mx by (simp add: word_less_nat_alt)
  ultimately show ?thesis
    by (simp add: alloc_cluster_def Let_def mx2 all_clusters_def del: upt_Suc)
qed

lemma all_clusters_valid:
  "mounted_on dev capacity fs \<Longrightarrow> list_all (valid_cluster (bpb fs)) (all_clusters (bpb fs))"
  using set_all_clusters [OF mountedD(2)] by (auto simp: list_all_iff)

lemma alloc_cluster_ok:
  assumes m: "mounted_on dev capacity fs" and "dev_inv d"
    and "first_free (bpb fs) (fat_entry fs (content d)) = Some c"
  shows "op_ok (alloc_cluster fs) d c
    (cluster_put fs (content d) c (replicate (cluster_size_bytes (bpb fs)) 0))"
  using alloc_scan_ok [OF m all_clusters_valid [OF m] assms(2)] assms(3)
  by (simp add: alloc_cluster_scan [OF m] first_free_def)

lemma alloc_cluster_full:
  assumes m: "mounted_on dev capacity fs" and "dev_inv d"
    and "first_free (bpb fs) (fat_entry fs (content d)) = None"
  shows "\<exists>d'. alloc_cluster fs d = (Inl (FatErr ''No free clusters''), d') \<and> dev_inv d' \<and>
    content d' = content d"
  using alloc_scan_full [OF m all_clusters_valid [OF m] assms(2)] assms(3)
  by (simp add: alloc_cluster_scan [OF m] first_free_def)

end

end
