(* ===== verification/Fat_File.thy ===== *)
theory Fat_File
  imports Fat_Refine
begin

text \<open>
  Reading and writing the data of a file: \<open>read_file\<close>, \<open>write_file_data\<close>
  and \<open>allocate_and_write\<close> of \<open>kernel/src/fs/fat32/mod.rs\<close> over the abstract
  view of the volume.
\<close>

text \<open>One step of a copy that is cut by the bytes remaining and by the room left.\<close>

lemma copy_step_length:
  fixes k r l x :: nat
  assumes "t = min (min r k) l"
  shows "min (min r (k + x)) l = t + min (min (r - t) x) (l - t)"
  using assms by (simp add: min_def) linarith

lemma copy_step_take:
  assumes "t = min (min r (length D)) l" and "n = min (min (r - t) x) (l - t)"
  shows "take (t + n) (D @ F) = take t D @ take n F"
proof (cases "t = length D")
  case True
  then show ?thesis by simp
next
  case False
  then have "n = 0" and "t \<le> length D" using assms by (auto simp: min_def split: if_splits)
  then show ?thesis by simp
qed

text \<open>An allocated cluster is filled with zeros.\<close>

definition zero_cluster :: "'d Fat32Fs \<Rightarrow> u32 \<Rightarrow> sectors \<Rightarrow> sectors" where
  "zero_cluster fs c m = cluster_put fs m c (replicate (cluster_size_bytes (bpb fs)) 0)"

context block_device
begin

lemma read_file_loop_ok:
  assumes m: "mounted_on dev capacity fs" and "list_all (valid_cluster (bpb fs)) cs" and "dev_inv d"
    and "off \<le> length buf"
    and "n = min (min rem (length cs * cluster_size_bytes (bpb fs))) (length buf - off)"
  shows "op_ok (read_file_loop fs cs off rem buf) d
    (off + n, take off buf @ take n (file_bytes fs (content d) cs) @ drop (off + n) buf) (content d)"
  using assms(2-5)
proof (induction cs arbitrary: d off rem buf n)
  case Nil
  then show ?case by (simp add: op_ok_def)
next
  case (Cons c cs)
  let ?k = "cluster_size_bytes (bpb fs)"
  show ?case
  proof (cases "rem = 0 \<or> length buf \<le> off")
    case True
    then have "n = 0" using Cons.prems(3,4) by auto
    with True Cons.prems show ?thesis by (auto simp: op_ok_def)
  next
    case False
    let ?D = "cluster_data fs (content d) c"
    define t where "t = min (min rem ?k) (length buf - off)"
    define n' where "n' = min (min (rem - t) (length cs * ?k)) (length buf - off - t)"
    let ?buf' = "take off buf @ take t ?D @ drop (off + t) buf"
    have lenD: "length ?D = ?k"
      by (rule length_cluster_data [OF mountedD(2) [OF m] content_wf [OF Cons.prems(2)]])
    have t: "t \<le> ?k" "t \<le> length buf - off" by (simp_all add: t_def)
    have len': "length ?buf' = length buf"
      using lenD Cons.prems(3) t by simp
    have n: "n = t + n'"
      unfolding n'_def Cons.prems(4) using copy_step_length [OF t_def] by simp
    have tk: "take n (file_bytes fs (content d) (c # cs)) = take t ?D @ take n' (file_bytes fs (content d) cs)"
      using copy_step_take [OF t_def [folded lenD] n'_def] by (simp add: n file_bytes_def)
    have res: "take off buf @ take n (file_bytes fs (content d) (c # cs)) @ drop (off + n) buf =
        take (off + t) ?buf' @ take n' (file_bytes fs (content d) cs) @ drop (off + t + n') ?buf'"
      unfolding tk using lenD t Cons.prems(3) by (simp add: n ac_simps)
    have step: "op_ok (read_file_loop fs cs (off + t) (rem - t) ?buf') d'
        (off + n, take off buf @ take n (file_bytes fs (content d) (c # cs)) @ drop (off + n) buf) (content d)"
      if d': "dev_inv d'" "content d' = content d" for d'
    proof -
      have v: "list_all (valid_cluster (bpb fs)) cs" and o: "off + t \<le> length ?buf'"
        and nn: "n' = min (min (rem - t) (length cs * ?k)) (length ?buf' - (off + t))"
        using Cons.prems(1,3) t(2) unfolding len' n'_def by simp_all
      show ?thesis
        using Cons.IH [OF v d'(1) o nn] unfolding res unfolding d'(2) n add.assoc .
    qed
    have eq: "read_file_loop fs (c # cs) off rem buf =
        io_bind (read_cluster fs c (replicate ?k 0)) (\<lambda>b. read_file_loop fs cs (off + t) (rem - t)
          (take off buf @ take t b @ drop (off + t) buf))"
      using False by (simp add: Let_def t_def)
    show ?thesis
      unfolding eq
      by (rule op_ok_bind, rule read_cluster_ok [OF m _ Cons.prems(2)])
        (use Cons.prems(1) step in auto)
  qed
qed

lemma read_file_ok:
  assumes m: "mounted_on dev capacity fs" and d: "dev_inv d"
    and i: "intact_chain (bpb fs) (fat_entry fs (content d)) (c # cs)"
    and n: "n = min (min (unat sz) (length (c # cs) * cluster_size_bytes (bpb fs))) (length buf)"
  shows "op_ok (read_file fs c sz buf) d (n, take n (file_bytes fs (content d) (c # cs)) @ drop n buf)
    (content d)"
proof -
  have v: "list_all (valid_cluster (bpb fs)) (c # cs)"
    using i by (simp add: intact_chain_def)
  have loop: "op_ok (read_file_loop fs (c # cs) 0 (unat sz) buf) d'
      (n, take n (file_bytes fs (content d) (c # cs)) @ drop n buf) (content d)"
    if d': "dev_inv d'" "content d' = content d" for d'
    using read_file_loop_ok [OF m v d'(1) le0, of n "unat sz" buf] n
    unfolding d'(2) by (simp del: read_file_loop.simps)
  show ?thesis
    unfolding read_file_def
    by (rule op_ok_bind, rule read_chain_intact [OF m d i]) (rule loop)
qed

section \<open>Writing\<close>

lemma put_clusters_ok:
  assumes m: "mounted_on dev capacity fs" and "list_all (valid_cluster (bpb fs)) cs" and "dev_inv d"
  shows "op_ok (io_for [0..<length cs] (\<lambda>i. write_cluster fs (cs ! i)
      (file_cluster_buf (cluster_size_bytes (bpb fs)) data i))) d ()
    (put_clusters fs cs data (length cs) (content d))"
proof -
  have "op_ok (io_for [0..<length cs] (\<lambda>i. write_cluster fs (cs ! i)
      (file_cluster_buf (cluster_size_bytes (bpb fs)) data i))) d ()
    (put_clusters fs cs data (length [0..<length cs]) (content d))"
  proof (rule op_ok_for)
    fix i s
    assume i: "i < length [0..<length cs]" and s: "dev_inv s" "content s = put_clusters fs cs data i (content d)"
    then have "valid_cluster (bpb fs) (cs ! i)"
      using assms(2) by (simp add: list_all_length)
    from write_cluster_ok [OF m this s(1) length_file_cluster_buf [of _ data i]] i s(2)
    show "op_ok (write_cluster fs (cs ! ([0..<length cs] ! i)) (file_cluster_buf
        (cluster_size_bytes (bpb fs)) data ([0..<length cs] ! i))) s () (put_clusters fs cs data (Suc i) (content d))"
      by (simp add: put_clusters_def)
  qed (use assms in \<open>simp_all add: put_clusters_def\<close>)
  then show ?thesis by simp
qed

lemma put_links_ok:
  assumes m: "mounted_on dev capacity fs" and "list_all (valid_cluster (bpb fs)) cs" and "dev_inv d"
  shows "op_ok (io_for [0..<length cs] (\<lambda>i. write_fat_entry fs (cs ! i)
      (if i + 1 < length cs then cs ! (i + 1) else FAT32_EOC))) d ()
    (put_links fs cs (length cs) (content d))"
proof -
  have "op_ok (io_for [0..<length cs] (\<lambda>i. write_fat_entry fs (cs ! i)
      (if i + 1 < length cs then cs ! (i + 1) else FAT32_EOC))) d ()
    (put_links fs cs (length [0..<length cs]) (content d))"
  proof (rule op_ok_for)
    fix i s
    assume i: "i < length [0..<length cs]" and s: "dev_inv s" "content s = put_links fs cs i (content d)"
    then have "valid_cluster (bpb fs) (cs ! i)"
      using assms(2) by (simp add: list_all_length)
    from write_fat_entry_ok [OF m this s(1)] i s(2)
    show "op_ok (write_fat_entry fs (cs ! ([0..<length cs] ! i))
        (if [0..<length cs] ! i + 1 < length cs then cs ! ([0..<length cs] ! i + 1) else FAT32_EOC)) s ()
        (put_links fs cs (Suc i) (content d))"
      by (simp add: put_links_def)
  qed (use assms in \<open>simp_all add: put_links_def\<close>)
  then show ?thesis by simp
qed

text \<open>Allocating several clusters in a row: no entry is written in between, so the same
  cluster is returned every time.\<close>

lemma extend_clusters_ok:
  assumes m: "mounted_on dev capacity fs" and "dev_inv d"
    and "0 < n \<Longrightarrow> first_free (bpb fs) (fat_entry fs (content d)) = Some c"
  shows "op_ok (extend_clusters fs n cl) d (cl @ replicate n c) ((zero_cluster fs c ^^ n) (content d))"
  using assms(2,3)
proof (induction n arbitrary: cl d)
  case 0
  then show ?case by (simp add: op_ok_def)
next
  case (Suc n)
  have ff: "first_free (bpb fs) (fat_entry fs (content d)) = Some c" using Suc.prems(2) by simp
  note c = first_free_Some(1) [OF mountedD(2) [OF m] ff]
  show ?case
  proof (simp only: extend_clusters.simps, rule op_ok_bind, rule alloc_cluster_ok [OF m Suc.prems(1) ff])
    fix d'
    assume d': "dev_inv d'" "content d' = cluster_put fs (content d) c (replicate (cluster_size_bytes (bpb fs)) 0)"
    then have z: "content d' = zero_cluster fs c (content d)"
      by (simp add: zero_cluster_def)
    have "first_free (bpb fs) (fat_entry fs (content d')) = Some c"
      using ff first_free_cong [OF mountedD(2) [OF m]]
        fat_entry_cluster_put [OF mountedD(2) [OF m] c] d'(2) by metis
    from Suc.IH [OF d'(1) this, of "cl @ [c]"]
    show "op_ok (extend_clusters fs n (cl @ [c])) d' (cl @ replicate (Suc n) c)
        ((zero_cluster fs c ^^ Suc n) (content d))"
      unfolding z by (simp add: funpow_swap1 funpow_Suc_right del: funpow.simps)
  qed
qed

end

text \<open>The distinct clusters of a file grown by \<open>n\<close> clusters, all of them the lowest free
  one.\<close>

definition grown :: "u32 list \<Rightarrow> nat \<Rightarrow> u32 \<Rightarrow> u32 list" where
  "grown ex n c = (if n = 0 then ex else ex @ [c])"

definition clusters_needed :: "nat \<Rightarrow> nat \<Rightarrow> nat" where
  "clusters_needed k len = (if len = 0 then 0 else (len + k - 1) div k)"

text \<open>The sectors after a file has been written to a list of clusters.\<close>

definition file_put :: "'d Fat32Fs \<Rightarrow> u32 list \<Rightarrow> bytes \<Rightarrow> sectors \<Rightarrow> sectors" where
  "file_put fs cl data m = put_links fs cl (length cl) (put_clusters fs cl data (length cl) m)"

lemma clusters_needed_le:
  assumes "0 < k"
  shows "clusters_needed k len \<le> q \<longleftrightarrow> len \<le> q * k"
proof (cases "len = 0")
  case False
  have "(len + k - 1) div k \<le> q \<longleftrightarrow> (len + k - 1) div k < Suc q" by auto
  also have "\<dots> \<longleftrightarrow> len + k - 1 < Suc q * k"
    using assms by (rule div_less_iff_less_mult)
  also have "\<dots> \<longleftrightarrow> len \<le> q * k" using assms False by auto
  finally show ?thesis using False by (simp add: clusters_needed_def)
qed (simp add: clusters_needed_def)

lemma grown_padded:
  "ex \<noteq> [] \<Longrightarrow> ex @ replicate n c = grown ex n c @ replicate (n - 1) (last (grown ex n c))"
  by (cases n) (simp_all add: grown_def)

lemma zero_clusters_wf:
  "fat_geometry cap fs \<Longrightarrow> sectors_wf m \<Longrightarrow> sectors_wf ((zero_cluster fs c ^^ n) m)"
  by (induction n) (simp_all add: zero_cluster_def cluster_put_buf_wf)

lemma fat_entry_zero_clusters:
  assumes "fat_geometry cap fs" and "valid_cluster (bpb fs) c" and "valid_cluster (bpb fs) x"
  shows "fat_entry fs ((zero_cluster fs c ^^ n) m) x = fat_entry fs m x"
  by (induction n) (simp_all add: zero_cluster_def fat_entry_cluster_put [OF assms])

lemma cluster_data_zero_clusters:
  assumes "fat_geometry cap fs" and "valid_cluster (bpb fs) c" and "valid_cluster (bpb fs) x" and "x \<noteq> c"
  shows "cluster_data fs ((zero_cluster fs c ^^ n) m) x = cluster_data fs m x"
  using assms(4)
  by (induction n) (simp_all add: zero_cluster_def cluster_data_cluster_put [OF assms(1-3)])

text \<open>A free cluster is not part of an intact chain.\<close>

lemma intact_not_free:
  assumes g: "fat_geometry cap fs" and i: "intact_chain (bpb fs) get cs" and c: "c \<in> set cs"
  shows "get c \<noteq> FAT32_FREE"
proof -
  obtain j where j: "j < length cs" "c = cs ! j" using c by (auto simp: in_set_conv_nth)
  show ?thesis
  proof (cases "Suc j < length cs")
    case True
    then have "get c = cs ! Suc j" and "valid_cluster (bpb fs) (cs ! Suc j)"
      using i j by (auto simp: intact_chain_def linked_def list_all_length)
    then show ?thesis
      using valid_cluster_range(4) [OF g] by (simp add: FAT32_FREE_def)
  next
    case False
    then have "j = length cs - 1" using j(1) by simp
    then have "c = last cs" using j i by (simp add: intact_chain_def last_conv_nth)
    then show ?thesis
      using i by (auto simp: intact_chain_def FAT32_FREE_def FAT32_EOC_def word_le_nat_alt)
  qed
qed

lemma grown_ok:
  assumes g: "fat_geometry cap fs" and i: "intact_chain (bpb fs) get ex"
    and c: "0 < n \<Longrightarrow> first_free (bpb fs) get = Some c"
  shows "grown ex n c \<noteq> []" "distinct (grown ex n c)" "list_all (valid_cluster (bpb fs)) (grown ex n c)"
    "hd (grown ex n c) = hd ex"
proof -
  have "c \<notin> set ex" "valid_cluster (bpb fs) c" if "0 < n"
    using intact_not_free [OF g i, of c] first_free_Some(1,2) [OF g c [OF that]] by auto
  then show "grown ex n c \<noteq> []" "distinct (grown ex n c)" "list_all (valid_cluster (bpb fs)) (grown ex n c)"
    "hd (grown ex n c) = hd ex"
    using i by (auto simp: grown_def intact_chain_def)
qed

text \<open>The view after the write: the chain of the file is its distinct clusters, and the
  clusters outside it keep their entry and their data.\<close>

lemma file_put_intact:
  assumes g: "fat_geometry cap fs" and i: "intact_chain (bpb fs) get ex" and "length ex \<le> 100000"
    and c: "0 < n \<Longrightarrow> first_free (bpb fs) get = Some c" and wf: "sectors_wf m"
  shows "intact_chain (bpb fs) (fat_entry fs (file_put fs (ex @ replicate n c) data m)) (grown ex n c)"
proof -
  have ne: "ex \<noteq> []" using i by (simp add: intact_chain_def)
  have len: "length (grown ex n c) \<le> 100001" using assms(3) by (simp add: grown_def)
  show ?thesis
    unfolding file_put_def
    using put_links_intact [OF g grown_ok(3) [OF g i c] put_clusters_wf [OF g wf] grown_ok(1,2) [OF g i c]
        len grown_padded [OF ne]] by simp
qed

lemma set_grown: "set (ex @ replicate n c) = set (grown ex n c)"
  by (auto simp: grown_def)

lemma file_put_other:
  assumes g: "fat_geometry cap fs" and v: "list_all (valid_cluster (bpb fs)) cl" and wf: "sectors_wf m"
    and x: "valid_cluster (bpb fs) x" "x \<notin> set cl"
  shows "fat_entry fs (file_put fs cl data m) x = fat_entry fs m x"
    and "cluster_data fs (file_put fs cl data m) x = cluster_data fs m x"
  unfolding file_put_def
  by (simp_all add: fat_entry_put_links_other [OF g v put_clusters_wf [OF g wf] x]
      fat_entry_put_clusters [OF g v x(1)] cluster_data_put_links [OF g v x(1)]
      cluster_data_put_clusters_other [OF g v x])

lemma reserved_file_put:
  "fat_geometry cap fs \<Longrightarrow> list_all (valid_cluster (bpb fs)) cl \<Longrightarrow> is_reserved_sector fs l \<Longrightarrow>
    file_put fs cl data m l = m l"
  by (simp add: file_put_def reserved_put_clusters reserved_put_links)

lemma file_bytes_file_put:
  assumes g: "fat_geometry cap fs" and v: "list_all (valid_cluster (bpb fs)) cl" and d: "distinct cl"
  shows "file_bytes fs (file_put fs cl data m) cl =
    take (length cl * cluster_size_bytes (bpb fs)) data
      @ replicate (length cl * cluster_size_bytes (bpb fs) - length data) 0"
proof -
  have "file_bytes fs (file_put fs cl data m) cl = file_bytes fs (put_clusters fs cl data (length cl) m) cl"
    using v by (auto simp: file_bytes_def file_put_def list_all_iff cluster_data_put_links [OF g v]
        intro!: arg_cong [where f = concat])
  then show ?thesis
    by (simp add: file_bytes_put_clusters [OF g v d])
qed

context block_device
begin

lemma write_file_data_ok:
  assumes m: "mounted_on dev capacity fs" and d: "dev_inv d"
    and i: "intact_chain (bpb fs) (fat_entry fs (content d)) (c0 # cs)"
    and n: "n = clusters_needed (cluster_size_bytes (bpb fs)) (length data) - length (c0 # cs)"
    and c: "0 < n \<Longrightarrow> first_free (bpb fs) (fat_entry fs (content d)) = Some c"
  shows "op_ok (write_file_data fs c0 data) d ()
    (file_put fs ((c0 # cs) @ replicate n c) data ((zero_cluster fs c ^^ n) (content d)))"
proof -
  let ?k = "cluster_size_bytes (bpb fs)" and ?cl = "(c0 # cs) @ replicate n c"
  have v: "list_all (valid_cluster (bpb fs)) ?cl"
    using grown_ok(3) [OF mountedD(2) [OF m] i c] unfolding list_all_iff set_grown .
  have eq: "write_file_data fs c0 data =
      io_bind (read_chain fs c0) (\<lambda>ex.
      io_bind (extend_clusters fs (clusters_needed ?k (length data) - length ex) ex) (\<lambda>cl.
      io_bind (io_for [0..<length cl] (\<lambda>i. write_cluster fs (cl ! i) (file_cluster_buf ?k data i))) (\<lambda>_.
      io_bind (io_for [0..<length cl] (\<lambda>i. write_fat_entry fs (cl ! i)
                 (if i + 1 < length cl then cl ! (i + 1) else FAT32_EOC))) (\<lambda>_.
      if length cl < length ex
      then io_for (drop (length cl) ex) (\<lambda>c. write_fat_entry fs c FAT32_FREE) else io_ret ()))))"
    using cluster_size_pos [OF m] by (auto simp: write_file_data_def Let_def clusters_needed_def)
  have done': "op_ok (if length ?cl < length (c0 # cs) then p else io_ret ()) d1 () (content d1)"
    if "dev_inv d1" for d1 p
    using op_ok_ret [OF that, of "()"] by simp
  show ?thesis
    unfolding eq
  proof (rule op_ok_bind, rule read_chain_intact [OF m d i], rule op_ok_bind)
    fix d1
    assume d1: "dev_inv d1" "content d1 = content d"
    show "op_ok (extend_clusters fs (clusters_needed ?k (length data) - length (c0 # cs)) (c0 # cs)) d1 ?cl
        ((zero_cluster fs c ^^ n) (content d))"
      unfolding n [symmetric] d1(2) [symmetric]
      by (rule extend_clusters_ok [OF m d1(1)]) (use c d1(2) in simp)
  next
    fix d2
    assume d2: "dev_inv d2" "content d2 = (zero_cluster fs c ^^ n) (content d)"
    show "op_ok (io_bind (io_for [0..<length ?cl] (\<lambda>i. write_cluster fs (?cl ! i) (file_cluster_buf ?k data i))) (\<lambda>_.
      io_bind (io_for [0..<length ?cl] (\<lambda>i. write_fat_entry fs (?cl ! i)
                 (if i + 1 < length ?cl then ?cl ! (i + 1) else FAT32_EOC))) (\<lambda>_.
      if length ?cl < length (c0 # cs)
      then io_for (drop (length ?cl) (c0 # cs)) (\<lambda>c. write_fat_entry fs c FAT32_FREE) else io_ret ()))) d2 ()
      (file_put fs ?cl data ((zero_cluster fs c ^^ n) (content d)))"
      unfolding file_put_def d2(2) [symmetric]
      by (rule op_ok_bind, rule put_clusters_ok [OF m v d2(1)], rule op_ok_bind, erule put_links_ok [OF m v])
        (metis done')
  qed
qed

end

end
