(* ===== verification/Fat_Dir.thy ===== *)
theory Fat_Dir
  imports Fat_File
begin

text \<open>
  Directories: \<open>kernel/src/fs/fat32/dir.rs\<close>. A directory is the sequence of the
  32-byte entries in the clusters of its chain, up to the first entry whose name
  starts with a zero byte.
\<close>

section \<open>The code\<close>

record DirEntryInfo =
  di_name :: bytes
  di_is_dir :: bool
  di_size :: u32
  di_cluster :: u32

text \<open>The loop of \<open>read_dir_entries\<close> over the entries of one cluster: whether the end
  mark was met, and the result so far.\<close>

primrec scan_dir :: "bytes \<Rightarrow> nat list \<Rightarrow> DirEntryInfo list \<Rightarrow> bool \<times> DirEntryInfo list" where
  "scan_dir buf [] result = (False, result)"
| "scan_dir buf (i # is) result =
     (let entry = de_decode (drop (i * 32) buf) in
      if is_end entry then (True, result)
      else if is_deleted entry then scan_dir buf is result
      else if is_long_name entry then scan_dir buf is result
      else if is_volume_label entry then scan_dir buf is result
      else let name = utf8_lossy (full_name entry) in
        if name = [0x2E] \<or> name = [0x2E, 0x2E] then scan_dir buf is result
        else scan_dir buf is (result @ [\<lparr> di_name = name, di_is_dir = is_directory entry,
               di_size = file_size entry, di_cluster = first_cluster entry \<rparr>]))"

primrec read_dir_loop ::
  "'d Fat32Fs \<Rightarrow> u32 list \<Rightarrow> DirEntryInfo list \<Rightarrow> ('d, DirEntryInfo list) fat_io" where
  "read_dir_loop fs [] result = io_ret result"
| "read_dir_loop fs (cluster # rest) result =
     io_bind (read_cluster fs cluster (replicate (cluster_size_bytes (bpb fs)) 0))
       (\<lambda>buf. case scan_dir buf [0..<cluster_size_bytes (bpb fs) div 32] result of
          (True, result') \<Rightarrow> io_ret result'
        | (False, result') \<Rightarrow> read_dir_loop fs rest result')"

definition read_dir_entries :: "'d Fat32Fs \<Rightarrow> u32 \<Rightarrow> ('d, DirEntryInfo list) fat_io" where
  "read_dir_entries fs dir_cluster =
     io_bind (read_chain fs dir_cluster) (\<lambda>chain. read_dir_loop fs chain [])"

text \<open>The search of \<open>find_entry\<close> and \<open>remove_entry\<close> in one cluster.\<close>

datatype dir_scan = Scan_End | Scan_Hit nat Fat32DirEntry | Scan_More

primrec scan_name :: "bytes \<Rightarrow> nat list \<Rightarrow> bytes \<Rightarrow> dir_scan" where
  "scan_name buf [] name_upper = Scan_More"
| "scan_name buf (i # is) name_upper =
     (let entry = de_decode (drop (i * 32) buf) in
      if is_end entry then Scan_End
      else if is_deleted entry \<or> is_long_name entry \<or> is_volume_label entry
        then scan_name buf is name_upper
      else if full_name_upper entry = name_upper then Scan_Hit i entry
      else scan_name buf is name_upper)"

primrec find_loop :: "'d Fat32Fs \<Rightarrow> u32 list \<Rightarrow> bytes \<Rightarrow> ('d, Fat32DirEntry option) fat_io" where
  "find_loop fs [] name_upper = io_ret None"
| "find_loop fs (cluster # rest) name_upper =
     io_bind (read_cluster fs cluster (replicate (cluster_size_bytes (bpb fs)) 0))
       (\<lambda>buf. case scan_name buf [0..<cluster_size_bytes (bpb fs) div 32] name_upper of
          Scan_End \<Rightarrow> io_ret None
        | Scan_Hit i entry \<Rightarrow> io_ret (Some entry)
        | Scan_More \<Rightarrow> find_loop fs rest name_upper)"

definition find_entry :: "'d Fat32Fs \<Rightarrow> u32 \<Rightarrow> bytes \<Rightarrow> ('d, Fat32DirEntry option) fat_io" where
  "find_entry fs dir_cluster name_upper =
     io_bind (read_chain fs dir_cluster) (\<lambda>chain. find_loop fs chain name_upper)"

text \<open>The free slot \<open>add_entry\<close> looks for in one cluster.\<close>

primrec scan_slot :: "bytes \<Rightarrow> nat list \<Rightarrow> nat option" where
  "scan_slot buf [] = None"
| "scan_slot buf (i # is) =
     (let entry = de_decode (drop (i * 32) buf) in
      if is_end entry \<or> is_deleted entry then Some i else scan_slot buf is)"

definition patch_entry :: "bytes \<Rightarrow> nat \<Rightarrow> bytes \<Rightarrow> bytes" where
  "patch_entry buf offset x = take offset buf @ x @ drop (offset + length x) buf"

primrec add_loop :: "'d Fat32Fs \<Rightarrow> u32 list \<Rightarrow> Fat32DirEntry \<Rightarrow> ('d, bool) fat_io" where
  "add_loop fs [] new_entry = io_ret False"
| "add_loop fs (cluster # rest) new_entry =
     io_bind (read_cluster fs cluster (replicate (cluster_size_bytes (bpb fs)) 0))
       (\<lambda>buf. case scan_slot buf [0..<cluster_size_bytes (bpb fs) div 32] of
          Some i \<Rightarrow> io_bind (write_cluster fs cluster (patch_entry buf (i * 32) (de_encode new_entry)))
                      (\<lambda>_. io_ret True)
        | None \<Rightarrow> add_loop fs rest new_entry)"

definition add_entry :: "'d Fat32Fs \<Rightarrow> u32 \<Rightarrow> Fat32DirEntry \<Rightarrow> ('d, unit) fat_io" where
  "add_entry fs dir_cluster new_entry =
     io_bind (read_chain fs dir_cluster) (\<lambda>chain.
     io_bind (add_loop fs chain new_entry) (\<lambda>added.
     if added then io_ret ()
     else io_bind (alloc_cluster fs) (\<lambda>new_cluster.
       if cluster_size_bytes (bpb fs) < 32 then io_err FatPanic
       else if chain = [] then io_err (FatErr ''Empty chain'')
       else io_bind (write_fat_entry fs (last chain) new_cluster) (\<lambda>_.
            io_bind (write_fat_entry fs new_cluster FAT32_EOC) (\<lambda>_.
            write_cluster fs new_cluster
              (patch_entry (replicate (cluster_size_bytes (bpb fs)) 0) 0 (de_encode new_entry)))))))"

primrec remove_loop :: "'d Fat32Fs \<Rightarrow> u32 list \<Rightarrow> bytes \<Rightarrow> ('d, Fat32DirEntry) fat_io" where
  "remove_loop fs [] name_upper = io_err (FatErr ''File not found'')"
| "remove_loop fs (cluster # rest) name_upper =
     io_bind (read_cluster fs cluster (replicate (cluster_size_bytes (bpb fs)) 0))
       (\<lambda>buf. case scan_name buf [0..<cluster_size_bytes (bpb fs) div 32] name_upper of
          Scan_End \<Rightarrow> io_err (FatErr ''File not found'')
        | Scan_Hit i entry \<Rightarrow>
            io_bind (write_cluster fs cluster (buf[i * 32 := 0xE5])) (\<lambda>_. io_ret entry)
        | Scan_More \<Rightarrow> remove_loop fs rest name_upper)"

definition remove_entry :: "'d Fat32Fs \<Rightarrow> u32 \<Rightarrow> bytes \<Rightarrow> ('d, Fat32DirEntry) fat_io" where
  "remove_entry fs dir_cluster name_upper =
     io_bind (read_chain fs dir_cluster) (\<lambda>chain. remove_loop fs chain name_upper)"

section \<open>A directory as a list of entries\<close>

definition cluster_entries :: "bytes \<Rightarrow> Fat32DirEntry list" where
  "cluster_entries buf = map (\<lambda>i. de_decode (drop (i * 32) buf)) [0..<length buf div 32]"

definition dir_entries :: "'d Fat32Fs \<Rightarrow> sectors \<Rightarrow> u32 list \<Rightarrow> Fat32DirEntry list" where
  "dir_entries fs m cs = concat (map (\<lambda>c. cluster_entries (cluster_data fs m c)) cs)"

text \<open>Entries a search considers.\<close>

definition visible :: "Fat32DirEntry \<Rightarrow> bool" where
  "visible e \<longleftrightarrow> \<not> is_deleted e \<and> \<not> is_long_name e \<and> \<not> is_volume_label e"

fun dir_index :: "Fat32DirEntry list \<Rightarrow> bytes \<Rightarrow> nat option" where
  "dir_index [] n = None"
| "dir_index (e # es) n =
     (if is_end e then None
      else if visible e \<and> full_name_upper e = n then Some 0
      else map_option Suc (dir_index es n))"

definition dir_lookup :: "Fat32DirEntry list \<Rightarrow> bytes \<Rightarrow> Fat32DirEntry option" where
  "dir_lookup es n = map_option ((!) es) (dir_index es n)"

fun dir_slot :: "Fat32DirEntry list \<Rightarrow> nat option" where
  "dir_slot [] = None"
| "dir_slot (e # es) = (if is_end e \<or> is_deleted e then Some 0 else map_option Suc (dir_slot es))"

definition mark_deleted :: "Fat32DirEntry \<Rightarrow> Fat32DirEntry" where
  "mark_deleted e = e \<lparr> de_name := (de_name e)[0 := 0xE5] \<rparr>"

text \<open>Nothing but end marks follows an end mark.\<close>

fun dir_clean :: "Fat32DirEntry list \<Rightarrow> bool" where
  "dir_clean [] = True"
| "dir_clean (e # es) = (if is_end e then list_all is_end es else dir_clean es)"

definition entry_info :: "Fat32DirEntry \<Rightarrow> DirEntryInfo" where
  "entry_info e = \<lparr> di_name = utf8_lossy (full_name e), di_is_dir = is_directory e,
     di_size = file_size e, di_cluster = first_cluster e \<rparr>"

definition dir_list :: "Fat32DirEntry list \<Rightarrow> DirEntryInfo list" where
  "dir_list es = filter (\<lambda>i. di_name i \<noteq> [0x2E] \<and> di_name i \<noteq> [0x2E, 0x2E])
     (map entry_info (filter visible (takeWhile (\<lambda>e. \<not> is_end e) es)))"

subsection \<open>Laws of the list\<close>

lemma all_less_Suc_eq_0: "(\<forall>j < Suc k. P j) \<longleftrightarrow> P 0 \<and> (\<forall>j < k. P (Suc j))"
  by (auto simp: less_Suc_eq_0_disj)

lemma dir_index_Some:
  "dir_index es n = Some k \<Longrightarrow>
     k < length es \<and> visible (es ! k) \<and> full_name_upper (es ! k) = n \<and> \<not> is_end (es ! k) \<and>
     (\<forall>j < k. \<not> is_end (es ! j) \<and> \<not> (visible (es ! j) \<and> full_name_upper (es ! j) = n))"
proof (induction es arbitrary: k)
  case (Cons e es)
  show ?case
  proof (cases "visible e \<and> full_name_upper e = n")
    case True
    with Cons.prems show ?thesis by (auto split: if_splits)
  next
    case False
    then obtain k' where "k = Suc k'" "dir_index es n = Some k'" "\<not> is_end e"
      using Cons.prems by (auto split: if_splits)
    with Cons.IH [of k'] False show ?thesis by (simp add: all_less_Suc_eq_0)
  qed
qed simp

lemma dir_lookup_Some:
  assumes "dir_lookup es n = Some e"
  shows "e \<in> set es" "visible e" "full_name_upper e = n" "\<not> is_end e"
  using assms dir_index_Some [of es n] by (auto simp: dir_lookup_def)

lemma dir_lookup_Cons:
  "dir_lookup (e # es) n =
     (if is_end e then None else if visible e \<and> full_name_upper e = n then Some e
      else dir_lookup es n)"
  by (simp add: dir_lookup_def option.map_comp comp_def)

lemma dir_lookup_Nil [simp]: "dir_lookup [] n = None"
  by (simp add: dir_lookup_def)

lemma dir_slot_Some:
  "dir_slot es = Some k \<Longrightarrow> k < length es \<and> (is_end (es ! k) \<or> is_deleted (es ! k)) \<and>
     (\<forall>j < k. \<not> is_end (es ! j) \<and> \<not> is_deleted (es ! j))"
  by (induction es arbitrary: k) (auto simp: less_Suc_eq_0_disj split: if_splits)

lemma dir_lookup_all_end: "list_all is_end es \<Longrightarrow> dir_lookup es n = None"
  by (cases es) (simp_all add: dir_lookup_Cons)

lemma dir_clean_all_end: "list_all is_end es \<Longrightarrow> dir_clean es"
  by (cases es) simp_all

text \<open>Adding an entry in the first free slot: it is found under its name when no entry had
  that name, and every other name gives what it gave before.\<close>

lemma dir_lookup_add:
  assumes "dir_slot es = Some k" and "dir_clean es" and "visible e" and "\<not> is_end e"
  shows "dir_lookup (es[k := e]) n =
    (if n = full_name_upper e \<and> dir_lookup (take k es) n = None then Some e else dir_lookup es n)"
  using assms(1,2)
proof (induction es arbitrary: k)
  case Nil
  then show ?case by simp
next
  case (Cons a es)
  show ?case
  proof (cases "is_end a \<or> is_deleted a")
    case True
    then have "k = 0" using Cons.prems(1) by simp
    moreover have "dir_lookup es n = dir_lookup (a # es) n"
      using True Cons.prems(2) by (auto simp: dir_lookup_Cons visible_def dir_lookup_all_end)
    ultimately show ?thesis
      using assms(3,4) by (simp add: dir_lookup_Cons)
  next
    case False
    then obtain k' where "k = Suc k'" "dir_slot es = Some k'"
      using Cons.prems(1) by auto
    then show ?thesis
      using Cons.IH [of k'] Cons.prems(2) False by (auto simp: dir_lookup_Cons)
  qed
qed

lemma dir_clean_add:
  assumes "dir_slot es = Some k" and "dir_clean es" and "\<not> is_end e"
  shows "dir_clean (es[k := e])"
  using assms(1,2)
proof (induction es arbitrary: k)
  case Nil
  then show ?case by simp
next
  case (Cons a es)
  then show ?case
    using assms(3) dir_clean_all_end by (auto split: if_splits)
qed

lemma is_deleted_mark [simp]: "de_name e \<noteq> [] \<Longrightarrow> is_deleted (mark_deleted e)"
  by (cases "de_name e") (simp_all add: is_deleted_def mark_deleted_def)

lemma is_end_mark [simp]: "de_name e \<noteq> [] \<Longrightarrow> \<not> is_end (mark_deleted e)"
  by (cases "de_name e") (simp_all add: is_end_def mark_deleted_def)

text \<open>Removing the entry a name stands for leaves every other name alone; the name itself
  then stands for the next entry that has it.\<close>

lemma dir_lookup_remove:
  assumes "dir_index es n = Some k" and "list_all de_wf es"
  shows "dir_lookup (es[k := mark_deleted (es ! k)]) n' =
    (if n' = n then dir_lookup (drop (Suc k) es) n else dir_lookup es n')"
  using assms
proof (induction es arbitrary: k)
  case Nil
  then show ?case by simp
next
  case (Cons a es)
  have "de_name a \<noteq> []" using Cons.prems(2) by (auto simp: de_wf_def)
  show ?case
  proof (cases "visible a \<and> full_name_upper a = n")
    case True
    then have "k = 0" and "\<not> is_end a" using Cons.prems(1) by (auto split: if_splits)
    with True \<open>de_name a \<noteq> []\<close> show ?thesis
      by (auto simp: dir_lookup_Cons visible_def)
  next
    case False
    then obtain k' where k: "k = Suc k'" "dir_index es n = Some k'" "\<not> is_end a"
      using Cons.prems(1) by (auto split: if_splits)
    then show ?thesis
      using Cons.IH [of k'] Cons.prems(2) False by (auto simp: dir_lookup_Cons)
  qed
qed

section \<open>Buffers and lists of entries\<close>

lemma de_decode_take: "de_decode (take 32 s) = de_decode s"
  by (simp add: de_decode_def slice_def le16_at_def le32_at_def min_def drop_take)

lemma length_cluster_entries [simp]: "length (cluster_entries buf) = length buf div 32"
  by (simp add: cluster_entries_def)

lemma nth_cluster_entries:
  "i < length buf div 32 \<Longrightarrow> cluster_entries buf ! i = de_decode (drop (i * 32) buf)"
  by (simp add: cluster_entries_def)

lemma cluster_entries_wf: "list_all de_wf (cluster_entries buf)"
  unfolding list_all_length
proof (intro allI impI)
  fix n
  assume "n < length (cluster_entries buf)"
  then have n: "n < length buf div 32" by simp
  then have "32 \<le> length (drop (n * 32) buf)" by auto
  then show "de_wf (cluster_entries buf ! n)"
    unfolding nth_cluster_entries [OF n] by (rule de_wf_decode)
qed

lemma cluster_entries_patch:
  assumes i: "i < length buf div 32" and e: "de_wf e"
  shows "cluster_entries (patch_entry buf (i * 32) (de_encode e)) = (cluster_entries buf)[i := e]"
proof -
  let ?p = "patch_entry buf (i * 32) (de_encode e)"
  have i32: "i * 32 + 32 \<le> length buf" using i by auto
  have len: "length ?p = length buf"
    using i32 e by (simp add: patch_entry_def)
  show ?thesis
  proof (rule nth_equalityI)
    fix j
    assume "j < length (cluster_entries ?p)"
    then have j: "j < length buf div 32" by (simp add: len)
    consider "j < i" | "j = i" | "i < j" by linarith
    then have "de_decode (drop (j * 32) ?p) = (if j = i then e else de_decode (drop (j * 32) buf))"
    proof cases
      case 1
      then have "j * 32 + 32 \<le> i * 32" by simp
      then have "take (j * 32 + 32) ?p = take (j * 32 + 32) buf"
        using i32 by (simp add: patch_entry_def)
      then have "take 32 (drop (j * 32) ?p) = take 32 (drop (j * 32) buf)"
        by (simp only: take_drop add.commute [of 32])
      then show ?thesis using 1 by (metis de_decode_take nless_le)
    next
      case 2
      then have "drop (j * 32) ?p = de_encode e @ drop (i * 32 + 32) buf"
        using i32 e by (simp add: patch_entry_def)
      then show ?thesis using 2 de_decode_encode [OF e] by simp
    next
      case 3
      then have "i * 32 + 32 \<le> j * 32" by simp
      then have "drop (j * 32) ?p = drop (j * 32) buf"
        using i32 e by (simp add: patch_entry_def)
      then show ?thesis using 3 by simp
    qed
    then show "cluster_entries ?p ! j = (cluster_entries buf)[i := e] ! j"
      using j len by (simp add: nth_cluster_entries nth_list_update)
  qed (simp add: len)
qed

lemma de_decode_mark: "32 \<le> length s \<Longrightarrow> de_decode (s[0 := 0xE5]) = mark_deleted (de_decode s)"
  by (simp add: de_decode_def mark_deleted_def slice_def le16_at_def le32_at_def
      take_update_swap drop_update_cancel)

lemma cluster_entries_mark:
  assumes i: "i < length buf div 32"
  shows "cluster_entries (buf[i * 32 := 0xE5]) =
    (cluster_entries buf)[i := mark_deleted (cluster_entries buf ! i)]"
proof (rule nth_equalityI)
  fix j
  assume "j < length (cluster_entries (buf[i * 32 := 0xE5]))"
  then have j: "j < length buf div 32" by simp
  have i32: "32 \<le> length (drop (i * 32) buf)" using i by auto
  consider "j < i" | "j = i" | "i < j" by linarith
  then have "de_decode (drop (j * 32) (buf[i * 32 := 0xE5])) =
      (if j = i then mark_deleted (de_decode (drop (i * 32) buf)) else de_decode (drop (j * 32) buf))"
  proof cases
    case 1
    then have "32 \<le> i * 32 - j * 32" and "j * 32 \<le> i * 32" by simp_all
    then have "take 32 (drop (j * 32) (buf[i * 32 := 0xE5])) = take 32 (drop (j * 32) buf)"
      by (simp add: drop_update_swap take_update_cancel)
    then show ?thesis using 1 by (metis de_decode_take nless_le)
  next
    case 2
    then show ?thesis using de_decode_mark [OF i32] by (simp add: drop_update_swap)
  next
    case 3
    then show ?thesis by (simp add: drop_update_cancel)
  qed
  then show "cluster_entries (buf[i * 32 := 0xE5]) ! j =
      (cluster_entries buf)[i := mark_deleted (cluster_entries buf ! i)] ! j"
    using j i by (simp add: nth_cluster_entries nth_list_update)
qed simp

subsection \<open>Scans\<close>

lemma scan_name_eq:
  "scan_name buf is n =
     (case dir_index (map (\<lambda>i. de_decode (drop (i * 32) buf)) is) n of
        Some k \<Rightarrow> Scan_Hit (is ! k) (de_decode (drop (is ! k * 32) buf))
      | None \<Rightarrow> if list_ex (\<lambda>i. is_end (de_decode (drop (i * 32) buf))) is then Scan_End else Scan_More)"
  by (induction "is") (auto simp: Let_def visible_def split: option.splits)

lemma scan_name_cluster:
  "scan_name buf [0..<length buf div 32] n =
     (case dir_index (cluster_entries buf) n of
        Some k \<Rightarrow> Scan_Hit k (cluster_entries buf ! k)
      | None \<Rightarrow> if list_ex is_end (cluster_entries buf) then Scan_End else Scan_More)"
proof (cases "dir_index (cluster_entries buf) n")
  case None
  then show ?thesis
    by (simp add: scan_name_eq cluster_entries_def [symmetric])
      (simp add: cluster_entries_def list_ex_iff)
next
  case (Some k)
  then have "k < length buf div 32" using dir_index_Some by fastforce
  with Some show ?thesis
    by (simp add: scan_name_eq cluster_entries_def [symmetric] nth_cluster_entries)
qed

lemma scan_slot_eq:
  "scan_slot buf is = map_option ((!) is) (dir_slot (map (\<lambda>i. de_decode (drop (i * 32) buf)) is))"
  by (induction "is") (simp_all add: Let_def option.map_comp comp_def)

lemma scan_slot_cluster: "scan_slot buf [0..<length buf div 32] = dir_slot (cluster_entries buf)"
proof (cases "dir_slot (cluster_entries buf)")
  case (Some k)
  then have "k < length buf div 32" using dir_slot_Some by fastforce
  with Some show ?thesis by (simp add: scan_slot_eq cluster_entries_def)
qed (simp add: scan_slot_eq cluster_entries_def)

lemma scan_dir_eq:
  "scan_dir buf is res =
     (list_ex (\<lambda>i. is_end (de_decode (drop (i * 32) buf))) is,
      res @ dir_list (map (\<lambda>i. de_decode (drop (i * 32) buf)) is))"
  by (induction "is" arbitrary: res)
    (simp_all add: Let_def dir_list_def visible_def entry_info_def)

lemma scan_dir_cluster:
  "scan_dir buf [0..<length buf div 32] res =
     (list_ex is_end (cluster_entries buf), res @ dir_list (cluster_entries buf))"
  by (simp add: scan_dir_eq cluster_entries_def list_ex_iff)

subsection \<open>Several clusters\<close>

lemma dir_index_append:
  "dir_index (xs @ ys) n =
     (case dir_index xs n of Some k \<Rightarrow> Some k
      | None \<Rightarrow> if list_ex is_end xs then None else map_option ((+) (length xs)) (dir_index ys n))"
  by (induction xs; cases "dir_index ys n") (auto split: option.splits)

lemma dir_lookup_append:
  "dir_lookup (xs @ ys) n =
     (case dir_lookup xs n of Some e \<Rightarrow> Some e
      | None \<Rightarrow> if list_ex is_end xs then None else dir_lookup ys n)"
  by (induction xs) (auto simp: dir_lookup_Cons split: option.splits)

lemma dir_slot_append:
  "dir_slot (xs @ ys) =
     (case dir_slot xs of Some k \<Rightarrow> Some k | None \<Rightarrow> map_option ((+) (length xs)) (dir_slot ys))"
  by (induction xs; cases "dir_slot ys") (auto split: option.splits)

lemma dir_list_append:
  "dir_list (xs @ ys) = dir_list xs @ (if list_ex is_end xs then [] else dir_list ys)"
  by (induction xs) (simp_all add: dir_list_def)

lemma dir_entries_Cons [simp]:
  "dir_entries fs m (c # cs) = cluster_entries (cluster_data fs m c) @ dir_entries fs m cs"
  by (simp add: dir_entries_def)

lemma dir_entries_Nil [simp]: "dir_entries fs m [] = []"
  by (simp add: dir_entries_def)

lemma dir_entries_wf: "list_all de_wf (dir_entries fs m cs)"
  by (induction cs) (simp_all add: cluster_entries_wf)

lemma dir_entries_put_other:
  assumes "fat_geometry cap fs" and "valid_cluster (bpb fs) c" and "list_all (valid_cluster (bpb fs)) cs"
    and "c \<notin> set cs"
  shows "dir_entries fs (cluster_put fs m c x) cs = dir_entries fs m cs"
  using assms(3,4)
  by (induction cs) (auto simp: cluster_data_cluster_put [OF assms(1,2)])

section \<open>The operations on a device\<close>

context block_device
begin

lemma read_cluster_zero_ok:
  assumes "mounted_on dev capacity fs" and "valid_cluster (bpb fs) c" and "dev_inv d"
  shows "op_ok (read_cluster fs c (replicate (cluster_size_bytes (bpb fs)) 0)) d
    (cluster_data fs (content d) c) (content d)"
  by (rule read_cluster_ok [OF assms]) simp

lemma cluster_data_length_ok:
  assumes "mounted_on dev capacity fs" and "dev_inv d"
  shows "cluster_size_bytes (bpb fs) = length (cluster_data fs (content d) c)"
  using length_cluster_data [OF mountedD(2) [OF assms(1)] content_wf [OF assms(2)]] by simp

lemma find_loop_ok:
  assumes m: "mounted_on dev capacity fs" and "list_all (valid_cluster (bpb fs)) cs" and "dev_inv d"
  shows "op_ok (find_loop fs cs n) d (dir_lookup (dir_entries fs (content d) cs) n) (content d)"
  using assms(2,3)
proof (induction cs arbitrary: d)
  case Nil
  then show ?case by (simp add: op_ok_def)
next
  case (Cons c cs)
  let ?es = "cluster_entries (cluster_data fs (content d) c)"
  show ?case
  proof (simp only: find_loop.simps, rule op_ok_bind, rule read_cluster_zero_ok [OF m _ Cons.prems(2)])
    show "valid_cluster (bpb fs) c" using Cons.prems(1) by simp
    fix d'
    assume d': "dev_inv d'" "content d' = content d"
    have IH: "op_ok (find_loop fs cs n) d' (dir_lookup (dir_entries fs (content d) cs) n) (content d)"
      using Cons.IH [OF _ d'(1)] Cons.prems(1) d'(2) by simp
    show "op_ok (case scan_name (cluster_data fs (content d) c) [0..<cluster_size_bytes (bpb fs) div 32] n of
          Scan_End \<Rightarrow> io_ret None | Scan_Hit i entry \<Rightarrow> io_ret (Some entry)
        | Scan_More \<Rightarrow> find_loop fs cs n) d'
        (dir_lookup (dir_entries fs (content d) (c # cs)) n) (content d)"
      unfolding cluster_data_length_ok [OF m Cons.prems(2), of c] scan_name_cluster
      using IH op_ok_ret [OF d'(1)] d'(2)
      by (cases "dir_index ?es n") (auto simp: dir_lookup_append dir_lookup_def [of ?es])
  qed
qed

lemma find_entry_ok:
  assumes m: "mounted_on dev capacity fs" and d: "dev_inv d"
    and i: "intact_chain (bpb fs) (fat_entry fs (content d)) (c # cs)"
  shows "op_ok (find_entry fs c n) d (dir_lookup (dir_entries fs (content d) (c # cs)) n) (content d)"
proof -
  have v: "list_all (valid_cluster (bpb fs)) (c # cs)" using i by (simp add: intact_chain_def)
  show ?thesis
    unfolding find_entry_def
    by (rule op_ok_bind, rule read_chain_intact [OF m d i]) (metis find_loop_ok [OF m v])
qed

lemma read_dir_loop_ok:
  assumes m: "mounted_on dev capacity fs" and "list_all (valid_cluster (bpb fs)) cs" and "dev_inv d"
  shows "op_ok (read_dir_loop fs cs res) d (res @ dir_list (dir_entries fs (content d) cs)) (content d)"
  using assms(2,3)
proof (induction cs arbitrary: d res)
  case Nil
  then show ?case by (simp add: op_ok_def dir_list_def)
next
  case (Cons c cs)
  let ?es = "cluster_entries (cluster_data fs (content d) c)"
  show ?case
  proof (simp only: read_dir_loop.simps, rule op_ok_bind, rule read_cluster_zero_ok [OF m _ Cons.prems(2)])
    show "valid_cluster (bpb fs) c" using Cons.prems(1) by simp
    fix d'
    assume d': "dev_inv d'" "content d' = content d"
    have IH: "op_ok (read_dir_loop fs cs (res @ dir_list ?es)) d'
        ((res @ dir_list ?es) @ dir_list (dir_entries fs (content d) cs)) (content d)"
      using Cons.IH [OF _ d'(1), of "res @ dir_list ?es"] Cons.prems(1) d'(2) by simp
    show "op_ok (case scan_dir (cluster_data fs (content d) c) [0..<cluster_size_bytes (bpb fs) div 32] res of
          (True, result') \<Rightarrow> io_ret result' | (False, result') \<Rightarrow> read_dir_loop fs cs result') d'
        (res @ dir_list (dir_entries fs (content d) (c # cs))) (content d)"
      unfolding cluster_data_length_ok [OF m Cons.prems(2), of c] scan_dir_cluster
      using IH op_ok_ret [OF d'(1)] d'(2) by (cases "list_ex is_end ?es") (simp_all add: dir_list_append)
  qed
qed

lemma read_dir_entries_ok:
  assumes m: "mounted_on dev capacity fs" and d: "dev_inv d"
    and i: "intact_chain (bpb fs) (fat_entry fs (content d)) (c # cs)"
  shows "op_ok (read_dir_entries fs c) d (dir_list (dir_entries fs (content d) (c # cs))) (content d)"
proof -
  have v: "list_all (valid_cluster (bpb fs)) (c # cs)" using i by (simp add: intact_chain_def)
  show ?thesis
    unfolding read_dir_entries_def
    by (rule op_ok_bind, rule read_chain_intact [OF m d i])
      (metis read_dir_loop_ok [OF m v, of _ "[]"] append_Nil)
qed

text \<open>Adding to a directory with a free slot and removing an entry change one cluster of the
  directory.\<close>

definition dir_step :: "'d Fat32Fs \<Rightarrow> sectors \<Rightarrow> u32 list \<Rightarrow> sectors \<Rightarrow> bool" where
  "dir_step fs m cs m' \<longleftrightarrow>
     (\<exists>c \<in> set cs. \<exists>x. length x = cluster_size_bytes (bpb fs) \<and> m' = cluster_put fs m c x)"

lemma dir_stepI:
  "c \<in> set cs \<Longrightarrow> length x = cluster_size_bytes (bpb fs) \<Longrightarrow> dir_step fs m cs (cluster_put fs m c x)"
  by (auto simp: dir_step_def)

lemma dir_step_reserved:
  "mounted_on dev capacity fs \<Longrightarrow> list_all (valid_cluster (bpb fs)) cs \<Longrightarrow> dir_step fs sec cs sec' \<Longrightarrow>
    is_reserved_sector fs l \<Longrightarrow> sec' l = sec l"
  by (auto simp: dir_step_def list_all_iff intro: reserved_cluster_put [OF mountedD(2)])

lemma dir_step_frame:
  assumes m: "mounted_on dev capacity fs" and v: "list_all (valid_cluster (bpb fs)) cs"
    and s: "dir_step fs sec cs sec'" and x: "valid_cluster (bpb fs) x"
  shows "fat_entry fs sec' x = fat_entry fs sec x"
    and "x \<notin> set cs \<Longrightarrow> cluster_data fs sec' x = cluster_data fs sec x"
proof -
  obtain c b where c: "valid_cluster (bpb fs) c" "c \<in> set cs" "sec' = cluster_put fs sec c b"
    using s v by (auto simp: dir_step_def list_all_iff)
  show "fat_entry fs sec' x = fat_entry fs sec x"
    unfolding c(3) by (rule fat_entry_cluster_put [OF mountedD(2) [OF m] c(1) x])
  show "x \<notin> set cs \<Longrightarrow> cluster_data fs sec' x = cluster_data fs sec x"
    using c by (auto simp: cluster_data_cluster_put [OF mountedD(2) [OF m] c(1) x])
qed

lemma dir_entries_put_here:
  assumes m: "mounted_on dev capacity fs" and "list_all (valid_cluster (bpb fs)) (c # cs)"
    and "distinct (c # cs)" and "length x = cluster_size_bytes (bpb fs)"
  shows "dir_entries fs (cluster_put fs sec c x) (c # cs) = cluster_entries x @ dir_entries fs sec cs"
  using assms
  by (simp add: cluster_data_cluster_put [OF mountedD(2) [OF m]]
      dir_entries_put_other [OF mountedD(2) [OF m]])

lemma dir_entries_put_later:
  assumes m: "mounted_on dev capacity fs" and "list_all (valid_cluster (bpb fs)) (c # cs)"
    and "distinct (c # cs)" and "a \<in> set cs"
  shows "dir_entries fs (cluster_put fs sec a x) (c # cs) =
    cluster_entries (cluster_data fs sec c) @ dir_entries fs (cluster_put fs sec a x) cs"
proof -
  have "a \<noteq> c" "valid_cluster (bpb fs) a" "valid_cluster (bpb fs) c"
    using assms by (auto simp: list_all_iff)
  then show ?thesis
    by (simp add: cluster_data_cluster_put [OF mountedD(2) [OF m]])
qed

lemma add_loop_ok:
  assumes m: "mounted_on dev capacity fs" and e: "de_wf e"
    and "list_all (valid_cluster (bpb fs)) cs" and "distinct cs" and "dev_inv d"
    and "dir_slot (dir_entries fs (content d) cs) = Some k"
  shows "\<exists>sec'. op_ok (add_loop fs cs e) d True sec' \<and> dir_step fs (content d) cs sec' \<and>
    dir_entries fs sec' cs = (dir_entries fs (content d) cs)[k := e]"
  using assms(3-6)
proof (induction cs arbitrary: d k)
  case Nil
  then show ?case by simp
next
  case (Cons c cs)
  let ?D = "cluster_data fs (content d) c"
  let ?es = "cluster_entries ?D"
  note len = cluster_data_length_ok [OF m Cons.prems(3), of c]
  have v: "valid_cluster (bpb fs) c" "list_all (valid_cluster (bpb fs)) cs" "distinct cs"
    using Cons.prems(1,2) by simp_all
  obtain d' where rd: "read_cluster fs c (replicate (cluster_size_bytes (bpb fs)) 0) d = (Inr ?D, d')"
      and d': "dev_inv d'" "content d' = content d"
    using read_cluster_zero_ok [OF m v(1) Cons.prems(3)] by (rule op_okE)
  have sc: "scan_slot ?D [0..<cluster_size_bytes (bpb fs) div 32] = dir_slot ?es"
    unfolding len by (rule scan_slot_cluster)
  show ?case
  proof (cases "dir_slot ?es")
    case (Some i)
    then have i: "i < length ?D div 32" and k: "k = i"
      using dir_slot_Some [of ?es i] Cons.prems(4) by (simp_all add: dir_slot_append)
    let ?x = "patch_entry ?D (i * 32) (de_encode e)"
    have x: "length ?x = cluster_size_bytes (bpb fs)"
      using i e unfolding len by (auto simp: patch_entry_def)
    obtain d'' where wr: "write_cluster fs c ?x d' = (Inr (), d'')" "dev_inv d''"
        "content d'' = cluster_put fs (content d) c ?x"
      using write_cluster_ok [OF m v(1) d'(1) x] d'(2) by (auto elim!: op_okE)
    have "op_ok (add_loop fs (c # cs) e) d True (cluster_put fs (content d) c ?x)"
      using wr Some by (auto simp: op_ok_def io_bind_app rd sc)
    moreover have "dir_step fs (content d) (c # cs) (cluster_put fs (content d) c ?x)"
      by (rule dir_stepI [OF _ x]) simp
    moreover have "dir_entries fs (cluster_put fs (content d) c ?x) (c # cs) =
        (dir_entries fs (content d) (c # cs))[k := e]"
      using dir_entries_put_here [OF m Cons.prems(1,2) x] cluster_entries_patch [OF i e] i k
      by (simp add: list_update_append)
    ultimately show ?thesis by blast
  next
    case None
    then obtain k' where k': "dir_slot (dir_entries fs (content d) cs) = Some k'" "k = length ?es + k'"
      using Cons.prems(4) by (auto simp: dir_slot_append)
    then obtain sec' where sec': "op_ok (add_loop fs cs e) d' True sec'" "dir_step fs (content d) cs sec'"
        "dir_entries fs sec' cs = (dir_entries fs (content d) cs)[k' := e]"
      using Cons.IH [OF v(2,3) d'(1)] d'(2) by metis
    have "op_ok (add_loop fs (c # cs) e) d True sec'"
      using sec'(1) None by (auto simp: op_ok_def io_bind_app rd sc)
    moreover have "dir_step fs (content d) (c # cs) sec'"
      using sec'(2) by (auto simp: dir_step_def)
    moreover have "dir_entries fs sec' (c # cs) = (dir_entries fs (content d) (c # cs))[k := e]"
    proof -
      obtain a x where a: "a \<in> set cs" "sec' = cluster_put fs (content d) a x"
        using sec'(2) by (auto simp: dir_step_def)
      show ?thesis
        using dir_entries_put_later [OF m Cons.prems(1,2) a(1)] sec'(3) unfolding a(2) k'(2)
        by (simp add: list_update_append)
    qed
    ultimately show ?thesis by blast
  qed
qed

lemma remove_loop_ok:
  assumes m: "mounted_on dev capacity fs"
    and "list_all (valid_cluster (bpb fs)) cs" and "distinct cs" and "dev_inv d"
    and "dir_index (dir_entries fs (content d) cs) n = Some k"
  shows "\<exists>sec'. op_ok (remove_loop fs cs n) d (dir_entries fs (content d) cs ! k) sec' \<and>
    dir_step fs (content d) cs sec' \<and>
    dir_entries fs sec' cs =
      (dir_entries fs (content d) cs)[k := mark_deleted (dir_entries fs (content d) cs ! k)]"
  using assms(2-5)
proof (induction cs arbitrary: d k)
  case Nil
  then show ?case by simp
next
  case (Cons c cs)
  let ?D = "cluster_data fs (content d) c"
  let ?es = "cluster_entries ?D"
  note len = cluster_data_length_ok [OF m Cons.prems(3), of c]
  have v: "valid_cluster (bpb fs) c" "list_all (valid_cluster (bpb fs)) cs" "distinct cs"
    using Cons.prems(1,2) by simp_all
  obtain d' where rd: "read_cluster fs c (replicate (cluster_size_bytes (bpb fs)) 0) d = (Inr ?D, d')"
      and d': "dev_inv d'" "content d' = content d"
    using read_cluster_zero_ok [OF m v(1) Cons.prems(3)] by (rule op_okE)
  note sc = scan_name_cluster [of ?D n, folded len]
  show ?case
  proof (cases "dir_index ?es n")
    case (Some i)
    then have i: "i < length ?D div 32" and k: "k = i"
      using dir_index_Some [of ?es n i] Cons.prems(4) by (simp_all add: dir_index_append)
    let ?x = "?D[i * 32 := 0xE5]"
    have x: "length ?x = cluster_size_bytes (bpb fs)"
      unfolding len by simp
    obtain d'' where wr: "write_cluster fs c ?x d' = (Inr (), d'')" "dev_inv d''"
        "content d'' = cluster_put fs (content d) c ?x"
      using write_cluster_ok [OF m v(1) d'(1) x] d'(2) by (auto elim!: op_okE)
    have "op_ok (remove_loop fs (c # cs) n) d (dir_entries fs (content d) (c # cs) ! k)
        (cluster_put fs (content d) c ?x)"
      using wr Some i by (simp add: op_ok_def io_bind_app rd sc k nth_append)
    moreover have "dir_step fs (content d) (c # cs) (cluster_put fs (content d) c ?x)"
      by (rule dir_stepI [OF _ x]) simp
    moreover have "dir_entries fs (cluster_put fs (content d) c ?x) (c # cs) =
        (dir_entries fs (content d) (c # cs))[k := mark_deleted (dir_entries fs (content d) (c # cs) ! k)]"
      using dir_entries_put_here [OF m Cons.prems(1,2) x] cluster_entries_mark [OF i] i k
      by (simp add: list_update_append nth_append)
    ultimately show ?thesis by blast
  next
    case None
    then obtain k' where ne: "\<not> list_ex is_end ?es"
        and k': "dir_index (dir_entries fs (content d) cs) n = Some k'" "k = length ?es + k'"
      using Cons.prems(4) by (auto simp: dir_index_append split: if_splits)
    then obtain sec' where sec': "op_ok (remove_loop fs cs n) d' (dir_entries fs (content d) cs ! k') sec'"
        "dir_step fs (content d) cs sec'" "dir_entries fs sec' cs =
          (dir_entries fs (content d) cs)[k' := mark_deleted (dir_entries fs (content d) cs ! k')]"
      using Cons.IH [OF v(2,3) d'(1)] d'(2) by metis
    have "op_ok (remove_loop fs (c # cs) n) d (dir_entries fs (content d) (c # cs) ! k) sec'"
      using sec'(1) None ne by (simp add: op_ok_def io_bind_app rd sc k'(2) nth_append)
    moreover have "dir_step fs (content d) (c # cs) sec'"
      using sec'(2) by (auto simp: dir_step_def)
    moreover have "dir_entries fs sec' (c # cs) =
        (dir_entries fs (content d) (c # cs))[k := mark_deleted (dir_entries fs (content d) (c # cs) ! k)]"
    proof -
      obtain a x where a: "a \<in> set cs" "sec' = cluster_put fs (content d) a x"
        using sec'(2) by (auto simp: dir_step_def)
      show ?thesis
        using dir_entries_put_later [OF m Cons.prems(1,2) a(1)] sec'(3) unfolding a(2) k'(2)
        by (simp add: list_update_append nth_append)
    qed
    ultimately show ?thesis by blast
  qed
qed

end

section \<open>Adding an entry\<close>

lemma dir_slot_None: "dir_slot es = None \<longleftrightarrow> (\<forall>e \<in> set es. \<not> is_end e \<and> \<not> is_deleted e)"
  by (induction es) auto

lemma cluster_entries_zero: "list_all is_end (cluster_entries (replicate n 0))"
  unfolding list_all_length
proof (intro allI impI)
  fix i
  assume "i < length (cluster_entries (replicate n 0))"
  then have i: "i < length (replicate n (0::u8)) div 32" by simp
  then have "i * 32 + 32 \<le> n" by auto
  then show "is_end (cluster_entries (replicate n 0) ! i)"
    unfolding nth_cluster_entries [OF i] by (simp add: is_end_def de_decode_def slice_def)
qed

lemma intact_chain_cong:
  assumes "\<And>x. valid_cluster b x \<Longrightarrow> get x = get' x"
  shows "intact_chain b get cs = intact_chain b get' cs"
proof (cases "cs \<noteq> [] \<and> list_all (valid_cluster b) cs")
  case True
  then have "get (last cs) = get' (last cs)" and "\<And>i. i < length cs \<Longrightarrow> get (cs ! i) = get' (cs ! i)"
    using assms by (simp_all add: list_all_iff list_all_length)
  then show ?thesis by (auto simp: intact_chain_def linked_def)
qed (auto simp: intact_chain_def)

lemma intact_cluster_put:
  assumes "fat_geometry cap fs" and "valid_cluster (bpb fs) c"
  shows "intact_chain (bpb fs) (fat_entry fs (cluster_put fs m c x)) cs =
    intact_chain (bpb fs) (fat_entry fs m) cs"
  by (rule intact_chain_cong) (rule fat_entry_cluster_put [OF assms])

lemma dir_entries_append: "dir_entries fs m (xs @ ys) = dir_entries fs m xs @ dir_entries fs m ys"
  by (simp add: dir_entries_def)

lemma dir_entries_fat_put:
  assumes "fat_geometry cap fs" and "valid_cluster (bpb fs) c" and "list_all (valid_cluster (bpb fs)) cs"
  shows "dir_entries fs (fat_put fs m c x) cs = dir_entries fs m cs"
  using assms(3) by (induction cs) (simp_all add: cluster_data_fat_put [OF assms(1,2)])

text \<open>Linking one more cluster to the end of an intact chain.\<close>

lemma intact_chain_snoc:
  assumes g: "fat_geometry cap fs" and i: "intact_chain (bpb fs) (fat_entry fs m) cs"
    and wf: "sectors_wf m" and c: "valid_cluster (bpb fs) c" "c \<notin> set cs" and len: "length cs \<le> 100000"
  shows "intact_chain (bpb fs) (fat_entry fs (fat_put fs (fat_put fs m (last cs) c) c FAT32_EOC)) (cs @ [c])"
proof -
  let ?get' = "fat_entry fs (fat_put fs (fat_put fs m (last cs) c) c FAT32_EOC)"
  have ne: "cs \<noteq> []" and v: "list_all (valid_cluster (bpb fs)) cs"
    using i by (simp_all add: intact_chain_def)
  then have l: "valid_cluster (bpb fs) (last cs)" by (simp add: list_all_iff)
  have get': "?get' x = (if x = c then FAT32_EOC else if x = last cs then c else fat_entry fs m x)"
    if "valid_cluster (bpb fs) x" for x
    unfolding fat_entry_fat_put [OF g c(1) that fat_put_wf [OF wf]] fat_entry_fat_put [OF g l that wf]
      fat_value_small [OF valid_cluster_range(5) [OF g c(1)]]
    by (simp add: FAT32_EOC_def)
  have "linked ?get' cs"
    unfolding linked_def
  proof (intro allI impI)
    fix j
    assume j: "Suc j < length cs"
    then have "valid_cluster (bpb fs) (cs ! j)" "cs ! j \<noteq> c" "cs ! j \<noteq> last cs"
      using v c(2) i by (auto simp: list_all_length intact_chain_def last_conv_nth nth_eq_iff_index_eq)
    moreover have "fat_entry fs m (cs ! j) = cs ! Suc j"
      using i j by (simp add: intact_chain_def linked_def)
    ultimately show "?get' (cs ! j) = cs ! Suc j" by (simp add: get')
  qed
  moreover have "?get' (last cs) = c"
    using l c(2) ne by (simp add: get') (metis last_in_set)
  ultimately have "linked ?get' (cs @ [c])" by (simp add: linked_snoc)
  then show ?thesis
    using i c len get' [OF c(1)] by (simp add: intact_chain_def)
qed

context block_device
begin

lemma add_loop_full:
  assumes m: "mounted_on dev capacity fs"
    and "list_all (valid_cluster (bpb fs)) cs" and "dev_inv d"
    and "dir_slot (dir_entries fs (content d) cs) = None"
  shows "op_ok (add_loop fs cs e) d False (content d)"
  using assms(2-4)
proof (induction cs arbitrary: d)
  case Nil
  then show ?case by (simp add: op_ok_def)
next
  case (Cons c cs)
  let ?D = "cluster_data fs (content d) c"
  obtain d' where rd: "read_cluster fs c (replicate (cluster_size_bytes (bpb fs)) 0) d = (Inr ?D, d')"
      and d': "dev_inv d'" "content d' = content d"
    using read_cluster_zero_ok [OF m _ Cons.prems(2)] Cons.prems(1) by (auto elim!: op_okE)
  have "scan_slot ?D [0..<cluster_size_bytes (bpb fs) div 32] = dir_slot (cluster_entries ?D)"
    unfolding cluster_data_length_ok [OF m Cons.prems(2), of c] by (rule scan_slot_cluster)
  moreover have n: "dir_slot (cluster_entries ?D) = None" "dir_slot (dir_entries fs (content d) cs) = None"
    using Cons.prems(3) by (auto simp: dir_slot_None)
  moreover have "op_ok (add_loop fs cs e) d' False (content d)"
    using Cons.IH [OF _ d'(1)] Cons.prems(1) n(2) d'(2) by simp
  ultimately show ?case
    by (simp add: op_ok_def io_bind_app rd)
qed

lemma add_entry_slot:
  assumes m: "mounted_on dev capacity fs" and d: "dev_inv d" and e: "de_wf e"
    and i: "intact_chain (bpb fs) (fat_entry fs (content d)) (c0 # cs)"
    and k: "dir_slot (dir_entries fs (content d) (c0 # cs)) = Some k"
  shows "\<exists>sec'. op_ok (add_entry fs c0 e) d () sec' \<and> dir_step fs (content d) (c0 # cs) sec' \<and>
    dir_entries fs sec' (c0 # cs) = (dir_entries fs (content d) (c0 # cs))[k := e]"
proof -
  have v: "list_all (valid_cluster (bpb fs)) (c0 # cs)" "distinct (c0 # cs)"
    using i by (simp_all add: intact_chain_def)
  obtain d1 where rc: "read_chain fs c0 d = (Inr (c0 # cs), d1)" and d1: "dev_inv d1" "content d1 = content d"
    using read_chain_intact [OF m d i] by (rule op_okE)
  obtain sec' where s: "op_ok (add_loop fs (c0 # cs) e) d1 True sec'"
      "dir_step fs (content d) (c0 # cs) sec'"
      "dir_entries fs sec' (c0 # cs) = (dir_entries fs (content d) (c0 # cs))[k := e]"
    using add_loop_ok [OF m e v d1(1)] k unfolding d1(2) by blast
  then have "op_ok (add_entry fs c0 e) d () sec'"
    by (auto simp: add_entry_def op_ok_def io_bind_app rc simp del: add_loop.simps)
  with s show ?thesis by blast
qed

lemma add_entry_grow:
  assumes m: "mounted_on dev capacity fs" and d: "dev_inv d" and e: "de_wf e"
    and i: "intact_chain (bpb fs) (fat_entry fs (content d)) (c0 # cs)" and len: "length (c0 # cs) \<le> 100000"
    and k: "dir_slot (dir_entries fs (content d) (c0 # cs)) = None"
    and c: "first_free (bpb fs) (fat_entry fs (content d)) = Some c"
  shows "\<exists>sec' z. op_ok (add_entry fs c0 e) d () sec' \<and>
    intact_chain (bpb fs) (fat_entry fs sec') ((c0 # cs) @ [c]) \<and>
    dir_entries fs sec' ((c0 # cs) @ [c]) = dir_entries fs (content d) (c0 # cs) @ e # z \<and> list_all is_end z"
proof -
  note g = mountedD(2) [OF m]
  let ?cs = "c0 # cs" and ?k = "cluster_size_bytes (bpb fs)"
  let ?m1 = "cluster_put fs (content d) c (replicate ?k 0)"
  let ?m3 = "fat_put fs (fat_put fs ?m1 (last ?cs) c) c FAT32_EOC"
  let ?x = "patch_entry (replicate ?k 0) 0 (de_encode e)"
  let ?m4 = "cluster_put fs ?m3 c ?x"
  have v: "list_all (valid_cluster (bpb fs)) ?cs" "distinct ?cs"
    using i by (simp_all add: intact_chain_def)
  then have l: "valid_cluster (bpb fs) (last ?cs)" by (auto simp: list_all_iff)
  have cv: "valid_cluster (bpb fs) c" and cn: "c \<notin> set ?cs"
    using first_free_Some(1,2) [OF g c] intact_not_free [OF g i, of c] by auto
  have k32: "32 \<le> ?k" "0 < ?k div 32"
    using fat_geometryD(2) [OF g] unfolding cluster_size_512 [OF m] by auto
  have x: "length ?x = ?k" using e k32 by (simp add: patch_entry_def)
  have run: "op_ok (add_entry fs c0 e) d () ?m4"
    unfolding add_entry_def
  proof (rule op_ok_bind, rule read_chain_intact [OF m d i], rule op_ok_bind)
    fix d1 assume d1: "dev_inv d1" "content d1 = content d"
    show "op_ok (add_loop fs ?cs e) d1 False (content d)"
      using add_loop_full [OF m v(1) d1(1)] k d1(2) by simp
  next
    fix d2 assume d2: "dev_inv d2" "content d2 = content d"
    show "op_ok (if False then io_ret () else io_bind (alloc_cluster fs) (\<lambda>new_cluster.
       if ?k < 32 then io_err FatPanic
       else if ?cs = [] then io_err (FatErr ''Empty chain'')
       else io_bind (write_fat_entry fs (last ?cs) new_cluster) (\<lambda>_.
            io_bind (write_fat_entry fs new_cluster FAT32_EOC) (\<lambda>_.
            write_cluster fs new_cluster ?x)))) d2 () ?m4"
      unfolding if_False
    proof (rule op_ok_bind, rule alloc_cluster_ok [OF m d2(1)])
      show "first_free (bpb fs) (fat_entry fs (content d2)) = Some c" using c d2(2) by simp
    next
      fix d3 assume d3: "dev_inv d3" "content d3 = cluster_put fs (content d2) c (replicate ?k 0)"
      have "op_ok (io_bind (write_fat_entry fs (last ?cs) c) (\<lambda>_.
            io_bind (write_fat_entry fs c FAT32_EOC) (\<lambda>_. write_cluster fs c ?x))) d3 () ?m4"
        by (rule op_ok_bind, rule write_fat_entry_ok [OF m l d3(1)], rule op_ok_bind,
            erule write_fat_entry_ok [OF m cv]) (metis write_cluster_ok [OF m cv _ x] d2(2) d3(2))
      then show "op_ok (if ?k < 32 then io_err FatPanic
       else if ?cs = [] then io_err (FatErr ''Empty chain'')
       else io_bind (write_fat_entry fs (last ?cs) c) (\<lambda>_.
            io_bind (write_fat_entry fs c FAT32_EOC) (\<lambda>_.
            write_cluster fs c ?x))) d3 () ?m4"
        using k32 by simp
    qed
  qed
  have wf1: "sectors_wf ?m1"
    by (rule cluster_put_buf_wf [OF g content_wf [OF d]]) simp
  have i1: "intact_chain (bpb fs) (fat_entry fs ?m1) ?cs"
    using i by (simp only: intact_cluster_put [OF g cv])
  have i4: "intact_chain (bpb fs) (fat_entry fs ?m4) (?cs @ [c])"
    using intact_chain_snoc [OF g i1 wf1 cv cn len] by (simp only: intact_cluster_put [OF g cv])
  have old: "dir_entries fs ?m4 ?cs = dir_entries fs (content d) ?cs"
    using dir_entries_put_other [OF g cv v(1) cn] dir_entries_fat_put [OF g _ v(1)] l cv by metis
  have new: "cluster_entries (cluster_data fs ?m4 c) = (cluster_entries (replicate ?k 0))[0 := e]"
    using cluster_entries_patch [of 0 "replicate ?k 0" e] k32 e x
    by (simp add: cluster_data_cluster_put [OF g cv cv])
  obtain z0 z where z: "cluster_entries (replicate ?k 0) = z0 # z" and "list_all is_end z"
    using cluster_entries_zero [of ?k] k32(2) length_cluster_entries [of "replicate ?k 0"]
    by (cases "cluster_entries (replicate ?k 0)") auto
  have "dir_entries fs ?m4 (?cs @ [c]) = dir_entries fs (content d) ?cs @ e # z"
    unfolding dir_entries_append old by (simp only: dir_entries_Cons dir_entries_Nil new z) simp
  with run i4 \<open>list_all is_end z\<close> show ?thesis by blast
qed

lemma remove_entry_ok:
  assumes m: "mounted_on dev capacity fs" and d: "dev_inv d"
    and i: "intact_chain (bpb fs) (fat_entry fs (content d)) (c0 # cs)"
    and k: "dir_index (dir_entries fs (content d) (c0 # cs)) n = Some k"
  shows "\<exists>sec'. op_ok (remove_entry fs c0 n) d (dir_entries fs (content d) (c0 # cs) ! k) sec' \<and>
    dir_step fs (content d) (c0 # cs) sec' \<and>
    dir_entries fs sec' (c0 # cs) = (dir_entries fs (content d) (c0 # cs))
      [k := mark_deleted (dir_entries fs (content d) (c0 # cs) ! k)]"
proof -
  have v: "list_all (valid_cluster (bpb fs)) (c0 # cs)" "distinct (c0 # cs)"
    using i by (simp_all add: intact_chain_def)
  obtain d1 where rc: "read_chain fs c0 d = (Inr (c0 # cs), d1)" and d1: "dev_inv d1" "content d1 = content d"
    using read_chain_intact [OF m d i] by (rule op_okE)
  obtain sec' where s: "op_ok (remove_loop fs (c0 # cs) n) d1 (dir_entries fs (content d) (c0 # cs) ! k) sec'"
      "dir_step fs (content d) (c0 # cs) sec'"
      "dir_entries fs sec' (c0 # cs) = (dir_entries fs (content d) (c0 # cs))
        [k := mark_deleted (dir_entries fs (content d) (c0 # cs) ! k)]"
    using remove_loop_ok [OF m v d1(1)] k unfolding d1(2) by blast
  then have "op_ok (remove_entry fs c0 n) d (dir_entries fs (content d) (c0 # cs) ! k) sec'"
    by (auto simp: remove_entry_def op_ok_def io_bind_app rc simp del: remove_loop.simps dir_entries_Cons)
  with s show ?thesis by blast
qed

lemma dir_step_intact:
  assumes m: "mounted_on dev capacity fs" and "intact_chain (bpb fs) (fat_entry fs sec) cs"
    and "list_all (valid_cluster (bpb fs)) cs'" and "dir_step fs sec cs' sec'"
  shows "intact_chain (bpb fs) (fat_entry fs sec') cs"
  using intact_chain_cong [of "bpb fs" "fat_entry fs sec'" "fat_entry fs sec" cs]
    dir_step_frame(1) [OF m assms(3,4)] assms(2) by blast

text \<open>The two ways of adding an entry, as one: in the directory that results the entry is
  found under its name, and every other name gives what it gave before.\<close>

lemma add_entry_ok:
  assumes m: "mounted_on dev capacity fs" and d: "dev_inv d" and e: "de_wf e" "visible e" "\<not> is_end e"
    and i: "intact_chain (bpb fs) (fat_entry fs (content d)) (c0 # cs)" and len: "length (c0 # cs) \<le> 100000"
    and clean: "dir_clean (dir_entries fs (content d) (c0 # cs))"
    and new: "dir_lookup (dir_entries fs (content d) (c0 # cs)) (full_name_upper e) = None"
    and room: "dir_slot (dir_entries fs (content d) (c0 # cs)) \<noteq> None \<or>
      first_free (bpb fs) (fat_entry fs (content d)) \<noteq> None"
  shows "\<exists>sec' cs'. op_ok (add_entry fs c0 e) d () sec' \<and>
    intact_chain (bpb fs) (fat_entry fs sec') (c0 # cs') \<and> dir_clean (dir_entries fs sec' (c0 # cs')) \<and>
    (\<forall>n. dir_lookup (dir_entries fs sec' (c0 # cs')) n =
       (if n = full_name_upper e then Some e else dir_lookup (dir_entries fs (content d) (c0 # cs)) n))"
proof (cases "dir_slot (dir_entries fs (content d) (c0 # cs))")
  case (Some k)
  let ?es = "dir_entries fs (content d) (c0 # cs)"
  obtain sec' where s: "op_ok (add_entry fs c0 e) d () sec'" "dir_step fs (content d) (c0 # cs) sec'"
      "dir_entries fs sec' (c0 # cs) = ?es[k := e]"
    using add_entry_slot [OF m d e(1) i Some] by blast
  have "dir_lookup (take k ?es) (full_name_upper e) = None"
    using new dir_lookup_append [of "take k ?es" "drop k ?es"]
    by (auto simp del: dir_entries_Cons split: option.splits if_splits)
  then have "dir_lookup (?es[k := e]) n = (if n = full_name_upper e then Some e else dir_lookup ?es n)" for n
    using dir_lookup_add [OF Some clean e(2,3)] by simp
  moreover have "dir_clean (?es[k := e])" by (rule dir_clean_add [OF Some clean e(3)])
  moreover have "intact_chain (bpb fs) (fat_entry fs sec') (c0 # cs)"
    using dir_step_intact [OF m i _ s(2)] i by (simp add: intact_chain_def)
  ultimately show ?thesis
    using s by metis
next
  case None
  let ?es = "dir_entries fs (content d) (c0 # cs)"
  obtain c where c: "first_free (bpb fs) (fat_entry fs (content d)) = Some c" using room None by auto
  obtain sec' z where s: "op_ok (add_entry fs c0 e) d () sec'"
      "intact_chain (bpb fs) (fat_entry fs sec') (c0 # cs @ [c])"
      "dir_entries fs sec' (c0 # cs @ [c]) = ?es @ e # z" "list_all is_end z"
    using add_entry_grow [OF m d e(1) i len None c] by auto
  have ne: "\<not> list_ex is_end ?es" using None by (auto simp: dir_slot_None list_ex_iff)
  have cl: "dir_clean (es @ e # z)" if "\<not> list_ex is_end es" for es
    using that e(3) s(4) dir_clean_all_end by (induction es) auto
  have "dir_lookup (?es @ e # z) n = (if n = full_name_upper e then Some e else dir_lookup ?es n)" for n
    using new ne e(2,3) dir_lookup_all_end [OF s(4)]
    by (auto simp: dir_lookup_append dir_lookup_Cons simp del: dir_entries_Cons split: option.splits)
  with s cl [OF ne] show ?thesis by metis
qed

end

end
