(* ===== verification/Fat_Sample.thy ===== *)
theory Fat_Sample
  imports Fat_Dir Ata_Protocol
begin

text \<open>
  A concrete volume on the primary master drive: ten clusters of one sector, one table,
  and a root directory of one empty cluster. It shows that the hypotheses of the file
  system theorems hold together: the device is the ATA adapter over a drive that
  follows the protocol.
\<close>

definition sample_dev :: "pio_disk ata_world block_dev" where
  "sample_dev = ata_block_dev (pd_ports 2 100) abd_primary_master"

definition sample_content :: "pio_disk ata_world \<Rightarrow> sectors" where
  "sample_content w = pd_sec (machine w)"

definition sample_inv :: "pio_disk ata_world \<Rightarrow> bool" where
  "sample_inv w \<longleftrightarrow> ATA w \<noteq> None \<and> primary.idle (machine w)"

lemma sample_block_device: "block_device sample_dev sample_content (pd_capacity 100) sample_inv"
  unfolding sample_dev_def sample_content_def [abs_def] sample_inv_def [abs_def]
  by (rule primary.blk.block_device_axioms)

text \<open>The boot sector: 512 bytes per sector, one sector per cluster, one reserved sector, one table of one
  sector, twelve sectors in all, the root directory in cluster 2, and the type \<open>FAT32\<close>.\<close>

definition sample_boot_sector :: bytes where
  "sample_boot_sector = (replicate 512 0)[12 := 2, 13 := 1, 14 := 1, 16 := 1, 32 := 12, 36 := 1, 44 := 2,
     82 := 0x46, 83 := 0x41, 84 := 0x54, 85 := 0x33, 86 := 0x32]"

definition sample_bpb :: Fat32Bpb where
  "sample_bpb = bpb_decode sample_boot_sector"

lemma sample_boot_sector_ok: "length sample_boot_sector = 512" "bpb_from_bytes sample_boot_sector = Some sample_bpb"
  unfolding sample_bpb_def by (simp add: sample_boot_sector_def) code_simp

definition sample_fs :: "pio_disk ata_world Fat32Fs" where
  "sample_fs = \<lparr> bpb = sample_bpb, fs_device = sample_dev, partition_lba = 0 \<rparr>"

definition sample_base :: sectors where
  "sample_base l = (if l = 0 then sample_boot_sector else replicate 512 0)"

definition sample_sectors :: sectors where
  "sample_sectors = fat_put sample_fs sample_base 2 FAT32_EOC"

definition sample_world :: "pio_disk ata_world" where
  "sample_world = \<lparr> ATA = Some AtaDriver_new,
     machine = \<lparr> pd_phase = Pio_Idle, pd_tf = (\<lambda>_. 0), pd_delay = 0, pd_sec = sample_sectors,
                 pd_err = False \<rparr> \<rparr>"

lemma sample_fields [simp]:
  "bpb sample_fs = sample_bpb" "fs_device sample_fs = sample_dev" "partition_lba sample_fs = 0"
  "bytes_per_sector sample_bpb = 512" "sectors_per_cluster sample_bpb = 1"
  "reserved_sector_count sample_bpb = 1" "num_fats sample_bpb = 1" "total_sectors_32 sample_bpb = 12"
  "fat_size_32 sample_bpb = 1" "root_cluster sample_bpb = 2"
proof -
  show "bytes_per_sector sample_bpb = 512" "sectors_per_cluster sample_bpb = 1" "reserved_sector_count sample_bpb = 1"
    "num_fats sample_bpb = 1" "total_sectors_32 sample_bpb = 12" "fat_size_32 sample_bpb = 1" "root_cluster sample_bpb = 2"
    by code_simp+
qed (simp_all add: sample_fs_def)

lemma sample_numbers [simp]: "fat_data_start sample_bpb = 2" "fat_nclusters sample_bpb = 10"
  "cluster_size_bytes sample_bpb = 512"
  by (simp_all add: fat_data_start_def fat_nclusters_def cluster_size_bytes_def)

lemma sample_capacity: "pd_capacity 100 = 100"
  by (simp add: pd_capacity_def)

lemma sample_geometry: "fat_geometry (pd_capacity 100) sample_fs"
  by (simp add: fat_geometry_def Let_def sample_capacity)

lemma sample_mounted: "mounted_on sample_dev (pd_capacity 100) sample_fs"
  by (simp add: mounted_on_def sample_geometry)

lemma sample_valid: "valid_cluster sample_bpb c \<longleftrightarrow> 2 \<le> unat c \<and> unat c < 12"
  by (simp add: valid_cluster_def)

lemma sample_wf: "sectors_wf sample_sectors"
  unfolding sample_sectors_def by (rule fat_put_wf) (simp add: sectors_wf_def sample_base_def sample_boot_sector_ok(1))

lemma sample_world_inv: "sample_inv sample_world"
  using sample_wf by (simp add: sample_inv_def sample_world_def primary.idle_def pd_hw_def sectors_wf_def)

lemma sample_world_content [simp]: "sample_content sample_world = sample_sectors"
  by (simp add: sample_content_def sample_world_def)

lemma sample_entry:
  assumes "valid_cluster sample_bpb c"
  shows "fat_entry sample_fs sample_sectors c = (if c = 2 then FAT32_EOC else 0)"
proof -
  have wf: "sectors_wf sample_base" by (simp add: sectors_wf_def sample_base_def sample_boot_sector_ok(1))
  have i: "unat c mod 128 * 4 + 3 < 512" by linarith
  have "fat_entry sample_fs sample_base c = 0"
    using assms i by (simp add: fat_entry_def fat_addr_def sample_valid sample_base_def le32_at_def u32_from_le_def)
  then show ?thesis
    using fat_entry_fat_put [OF sample_geometry, of 2 c sample_base FAT32_EOC] assms wf
    by (simp add: sample_sectors_def sample_valid FAT32_EOC_def)
qed

lemma sample_chain: "intact_chain sample_bpb (fat_entry sample_fs sample_sectors) [2]"
  by (simp add: intact_chain_def linked_def sample_entry sample_valid)

lemma sample_closed: "fat_closed sample_bpb (fat_entry sample_fs sample_sectors)"
  by (auto simp: fat_closed_def sample_entry FAT32_EOC_def FAT32_BAD_def)

lemma sample_free: "first_free sample_bpb (fat_entry sample_fs sample_sectors) = Some 3"
proof -
  have "all_clusters sample_bpb = [2, 3, 4, 5, 6, 7, 8, 9, 10, 11]"
    by (simp add: all_clusters_def upt_rec)
  then show ?thesis
    by (simp add: first_free_def sample_entry sample_valid FAT32_FREE_def FAT32_EOC_def)
qed

lemma sample_cluster:
  assumes "valid_cluster sample_bpb c"
  shows "cluster_data sample_fs sample_sectors c = replicate 512 0"
proof -
  have "cluster_data sample_fs sample_sectors c = cluster_data sample_fs sample_base c"
    unfolding sample_sectors_def using assms
    by (intro cluster_data_fat_put [OF sample_geometry]) (simp_all add: sample_valid)
  then show ?thesis using assms by (auto simp: cluster_data_def data_addr_def sample_valid sample_base_def)
qed

lemma sample_sector_0: "sample_sectors 0 = sample_boot_sector"
proof -
  have "(1 :: u32) \<noteq> 0" by simp
  then show ?thesis by (simp add: sample_sectors_def fat_put_def fat_addr_def sample_base_def Let_def)
qed

lemma sample_dir: "list_all is_end (dir_entries sample_fs sample_sectors [2])"
  "length (dir_entries sample_fs sample_sectors [2]) = 16"
  using cluster_entries_zero [of 512] by (simp_all add: sample_cluster sample_valid)

lemma dir_slot_all_end: "list_all is_end es \<Longrightarrow> es \<noteq> [] \<Longrightarrow> dir_slot es = Some 0"
  by (cases es) simp_all

lemma sample_dir_slot: "dir_slot (dir_entries sample_fs sample_sectors [2]) = Some 0"
  by (rule dir_slot_all_end [OF sample_dir(1)]) (use sample_dir(2) in \<open>auto simp del: dir_entries_Cons\<close>)

section \<open>The volume with one file\<close>

definition sample_file :: Fat32DirEntry where
  "sample_file = (de_decode (replicate 32 0))
     \<lparr> de_name := [0x41, 0x20, 0x20, 0x20, 0x20, 0x20, 0x20, 0x20], de_ext := [0x20, 0x20, 0x20],
       de_attributes := ATTR_ARCHIVE \<rparr>"

lemma sample_file_ok: "de_wf sample_file" "visible sample_file" "\<not> is_end sample_file"
  "full_name_upper sample_file = [0x41]"
  by (simp_all add: sample_file_def de_wf_def visible_def is_deleted_def is_long_name_def
      is_volume_label_def is_end_def attr_defs full_name_upper_def name_bytes_def)

definition sample_sectors_2 :: sectors where
  "sample_sectors_2 = cluster_put sample_fs sample_sectors 2
     (patch_entry (replicate 512 0) 0 (de_encode sample_file))"

definition sample_world_2 :: "pio_disk ata_world" where
  "sample_world_2 = sample_world \<lparr> machine := (machine sample_world) \<lparr> pd_sec := sample_sectors_2 \<rparr> \<rparr>"

lemma sample_world_2_content [simp]: "sample_content sample_world_2 = sample_sectors_2"
  by (simp add: sample_content_def sample_world_2_def)

lemma sample_buf_2: "length (patch_entry (replicate 512 0) 0 (de_encode sample_file)) = 512"
  using length_de_encode [OF sample_file_ok(1)] by (simp add: patch_entry_def)

lemma sample_world_2_inv: "sample_inv sample_world_2"
proof -
  have "sectors_wf sample_sectors_2"
    unfolding sample_sectors_2_def
    by (rule cluster_put_buf_wf [OF sample_geometry sample_wf]) (simp add: sample_buf_2)
  then show ?thesis
    by (simp add: sample_inv_def sample_world_2_def sample_world_def primary.idle_def pd_hw_def sectors_wf_def)
qed

lemma sample_chain_2: "intact_chain sample_bpb (fat_entry sample_fs sample_sectors_2) [2]"
  using intact_cluster_put [OF sample_geometry, of 2] sample_chain
  by (simp add: sample_sectors_2_def sample_valid)

lemma sample_dir_2:
  obtains z where "dir_entries sample_fs sample_sectors_2 [2] = sample_file # z" "list_all is_end z"
proof -
  have "cluster_data sample_fs sample_sectors_2 2 = patch_entry (replicate 512 0) 0 (de_encode sample_file)"
    using cluster_data_cluster_put [OF sample_geometry, of 2 2] sample_buf_2
    by (simp add: sample_sectors_2_def sample_valid)
  then have "dir_entries sample_fs sample_sectors_2 [2] = (cluster_entries (replicate 512 0))[0 := sample_file]"
    using cluster_entries_patch [of 0 "replicate 512 0" sample_file] sample_file_ok(1) by simp
  moreover obtain z0 z where "cluster_entries (replicate 512 0) = z0 # z" "list_all is_end z"
    using cluster_entries_zero [of 512] length_cluster_entries [of "replicate 512 0"]
    by (cases "cluster_entries (replicate 512 0)") auto
  ultimately show thesis using that by simp
qed

end
