(* ===== verification/Fat_Properties.thy ===== *)
theory Fat_Properties
  imports Fat_Sample
begin

text \<open>
  The properties of the FAT32 implementation. The device is any trait object that keeps
  the contract of \<open>Block_Device\<close>; \<open>mounted_on\<close> says that the volume is mounted on
  it and that its regions fit. The witnesses use the volume of \<open>Fat_Sample\<close>, whose
  device is the ATA adapter.
\<close>

section \<open>The table\<close>

text \<open>C9: Writing an entry of the file allocation table and reading an entry back: the entry
  written holds the low 28 bits of the value, every other entry is unchanged, all copies of
  the table stay equal and no cluster changes.\<close>

theorem fat_entry_write_read:
  assumes "block_device dev content cap dinv" and "mounted_on dev cap fs" and "dinv d"
    and "valid_cluster (bpb fs) c" and "valid_cluster (bpb fs) c'"
  shows "\<exists>d1. write_fat_entry fs c v d = (Inr (), d1) \<and> dinv d1 \<and>
    (\<exists>d2. read_fat_entry fs c' d1 =
       (Inr (if c' = c then v AND 0x0FFFFFFF else fat_entry fs (content d) c'), d2)) \<and>
    (fat_mirrored fs (content d) \<longrightarrow> fat_mirrored fs (content d1)) \<and>
    cluster_data fs (content d1) c' = cluster_data fs (content d) c'"
proof -
  have g: "fat_geometry cap fs" using assms(2) by (simp add: mounted_on_def)
  obtain d1 where w: "write_fat_entry fs c v d = (Inr (), d1)" "dinv d1" "content d1 = fat_put fs (content d) c v"
    using block_device.write_fat_entry_ok [OF assms(1,2,4,3)]
    unfolding block_device.op_ok_def [OF assms(1)] by metis
  obtain d2 where r: "read_fat_entry fs c' d1 = (Inr (fat_entry fs (content d1) c'), d2)"
    using block_device.read_fat_entry_ok [OF assms(1,2,5) w(2)]
    unfolding block_device.op_ok_def [OF assms(1)] by metis
  have wf: "sectors_wf (content d)"
    by (rule block_device.content_wf [OF assms(1,3)])
  from w r show ?thesis
    using fat_entry_fat_put [OF g assms(4,5) wf] fat_mirrored_fat_put [OF g assms(4)]
      cluster_data_fat_put [OF g assms(4,5)] by auto
qed

theorem fat_entry_write_read_witness:
  "\<exists>d1. write_fat_entry sample_fs 5 0x12345678 sample_world = (Inr (), d1) \<and> sample_inv d1 \<and>
    (\<exists>d2. read_fat_entry sample_fs 5 d1 = (Inr 0x02345678, d2))"
  using fat_entry_write_read [OF sample_block_device sample_mounted sample_world_inv, of 5 5 "0x12345678"]
  by (auto simp: sample_valid)

lemma read_chain_loop_bounded:
  assumes "read_chain_loop fs ch cur d = (Inr r, d')" and "distinct (ch @ [cur])" and "2 \<le> cur" and "length ch \<le> 100000"
  shows "distinct r \<and> length r \<le> 100001 \<and> (\<exists>ys. r = ch @ cur # ys)"
  using assms
proof (induction fs ch cur d rule: read_chain_loop.induct)
  case (1 fs ch cur d)
  have nz: "\<not> cur < 2" using "1.prems"(3) by simp
  obtain x d1 where rd: "read_fat_entry fs cur d = (x, d1)" by fastforce
  obtain nxt where x: "x = Inr nxt"
    using "1.prems"(1) nz rd by (cases x) (auto simp: read_chain_loop.simps [of fs ch cur d])
  let ?go = "\<not> (FAT32_EOC \<le> nxt \<or> nxt = FAT32_BAD \<or> nxt = 0) \<and> \<not> (nxt < 2 \<or> nxt = cur) \<and>
    nxt \<notin> set (ch @ [cur]) \<and> \<not> 100000 < length (ch @ [cur])"
  show ?case
  proof (cases ?go)
    case True
    have "read_chain_loop fs (ch @ [cur]) nxt d1 = (Inr r, d')"
      using "1.prems"(1) nz True rd x by (simp add: read_chain_loop.simps [of fs ch cur d] Let_def)
    from "1.IH" [OF nz refl rd [symmetric] x _ _ _ _ this] "1.prems"(2) True
    show ?thesis by (auto simp: not_less)
  next
    case False
    then have "r = ch @ [cur]"
      using "1.prems"(1) nz rd x by (auto simp: read_chain_loop.simps [of fs ch cur d] Let_def split: if_splits)
    then show ?thesis using "1.prems"(2,4) by simp
  qed
qed

text \<open>C10: Reading a chain always returns, whatever cycles the table contains: a list of at most 100001 clusters without
  repetitions that begins with the start cluster, or an error. It is no error when every link in the table is the number of
  a cluster of the volume (\<open>fat_closed\<close>): then every cluster of the list is one of the volume,
  each the successor of the one before it, and nothing on the device has changed. When a link leaves the volume, the code
  follows it, and the rest of the list or the error depends on the sectors there.\<close>

theorem read_chain_correct:
  assumes "block_device dev content cap dinv" and "mounted_on dev cap fs" and "dinv d"
    and "valid_cluster (bpb fs) c"
  shows "case read_chain fs c d of
      (Inr chain, d') \<Rightarrow> distinct chain \<and> length chain \<le> 100001 \<and> chain \<noteq> [] \<and> hd chain = c \<and>
        (fat_closed (bpb fs) (fat_entry fs (content d)) \<longrightarrow>
           content d' = content d \<and> list_all (valid_cluster (bpb fs)) chain \<and> linked (fat_entry fs (content d)) chain)
    | (Inl e, d') \<Rightarrow> \<not> fat_closed (bpb fs) (fat_entry fs (content d))"
proof -
  have g: "fat_geometry cap fs" using assms(2) by (simp add: mounted_on_def)
  have c2: "2 \<le> c" using valid_cluster_range(1) [OF g assms(4)] by simp
  let ?chain = "chain_from (fat_entry fs (content d)) [] c"
  have closed: "\<exists>d'. read_chain fs c d = (Inr ?chain, d') \<and> content d' = content d \<and> list_all (valid_cluster (bpb fs)) ?chain \<and>
      linked (fat_entry fs (content d)) ?chain" if cl: "fat_closed (bpb fs) (fat_entry fs (content d))"
    using block_device.read_chain_ok [OF assms(1,2) cl assms(3,4)] chain_from_props [of c "fat_entry fs (content d)"]
      chain_from_valid [OF cl assms(4)] c2
    unfolding block_device.op_ok_def [OF assms(1)] by metis
  have bounded: "distinct chain \<and> length chain \<le> 100001 \<and> chain \<noteq> [] \<and> hd chain = c" if "read_chain fs c d = (Inr chain, d')" for chain d'
    using read_chain_loop_bounded [of fs "[]" c d chain d'] that c2 by (auto simp: read_chain_def)
  show ?thesis
    using closed bounded by (cases "read_chain fs c d") (auto split: sum.split)
qed

theorem read_chain_correct_witness:
  "\<exists>chain d'. read_chain sample_fs 2 sample_world = (Inr chain, d') \<and> hd chain = 2 \<and> distinct chain \<and>
     list_all (valid_cluster sample_bpb) chain"
  using read_chain_correct [OF sample_block_device sample_mounted sample_world_inv, of 2] sample_closed
  by (auto simp: sample_valid split: prod.splits sum.splits)

text \<open>Freeing a chain marks exactly the clusters of the chain as free and keeps the data of
  every cluster.\<close>

theorem free_chain_correct:
  assumes "block_device dev content cap dinv" and "mounted_on dev cap fs" and "dinv d"
    and "fat_closed (bpb fs) (fat_entry fs (content d))" and "valid_cluster (bpb fs) c"
    and "valid_cluster (bpb fs) x"
  shows "\<exists>d'. free_chain fs c d = (Inr (), d') \<and> dinv d' \<and>
    fat_entry fs (content d') x =
      (if x \<in> set (chain_from (fat_entry fs (content d)) [] c) then FAT32_FREE
       else fat_entry fs (content d) x) \<and>
    cluster_data fs (content d') x = cluster_data fs (content d) x"
proof -
  have g: "fat_geometry cap fs" using assms(2) by (simp add: mounted_on_def)
  let ?chain = "chain_from (fat_entry fs (content d)) [] c"
  let ?free = "\<lambda>cs m. fold (\<lambda>c m. fat_put fs m c FAT32_FREE) cs m"
  obtain d' where d': "free_chain fs c d = (Inr (), d')" "dinv d'" "content d' = ?free ?chain (content d)"
    using block_device.free_chain_ok [OF assms(1,2,4,3,5)]
    unfolding block_device.op_ok_def [OF assms(1)] by metis
  have "sectors_wf m \<Longrightarrow> list_all (valid_cluster (bpb fs)) cs \<Longrightarrow>
      fat_entry fs (?free cs m) x = (if x \<in> set cs then FAT32_FREE else fat_entry fs m x) \<and>
      cluster_data fs (?free cs m) x = cluster_data fs m x" for cs m
    by (induction cs arbitrary: m)
      (auto simp: fat_put_wf fat_entry_fat_put [OF g _ assms(6)] cluster_data_fat_put [OF g _ assms(6)] FAT32_FREE_def)
  then show ?thesis
    using d' block_device.content_wf [OF assms(1,3)] chain_from_valid [OF assms(4,5)] by metis
qed

theorem free_chain_correct_witness:
  "\<exists>d'. free_chain sample_fs 2 sample_world = (Inr (), d') \<and>
     fat_entry sample_fs (sample_content d') 2 = FAT32_FREE"
  using free_chain_correct [OF sample_block_device sample_mounted sample_world_inv, of 2 2] sample_closed
    chain_from_contains [of 2 "[]" "fat_entry sample_fs sample_sectors"]
  by (auto simp: sample_valid)

text \<open>C11: Allocation returns the lowest free cluster of the volume with its data zeroed and
  leaves the table as it was; without a free cluster it fails with its error and changes
  nothing.\<close>

theorem alloc_cluster_correct:
  assumes "block_device dev content cap dinv" and "mounted_on dev cap fs" and "dinv d"
  shows "(\<exists>c d'. alloc_cluster fs d = (Inr c, d') \<and> dinv d' \<and> valid_cluster (bpb fs) c \<and>
      fat_entry fs (content d) c = FAT32_FREE \<and>
      (\<forall>x. valid_cluster (bpb fs) x \<and> x < c \<longrightarrow> fat_entry fs (content d) x \<noteq> FAT32_FREE) \<and>
      (\<forall>x. valid_cluster (bpb fs) x \<longrightarrow> fat_entry fs (content d') x = fat_entry fs (content d) x \<and>
         cluster_data fs (content d') x =
           (if x = c then replicate (cluster_size_bytes (bpb fs)) 0 else cluster_data fs (content d) x)))
    \<or> (\<exists>d'. alloc_cluster fs d = (Inl (FatErr ''No free clusters''), d') \<and> content d' = content d \<and>
      (\<forall>x. valid_cluster (bpb fs) x \<longrightarrow> fat_entry fs (content d) x \<noteq> FAT32_FREE))"
proof (cases "first_free (bpb fs) (fat_entry fs (content d))")
  case None
  have g: "fat_geometry cap fs" using assms(2) by (simp add: mounted_on_def)
  show ?thesis
    using block_device.alloc_cluster_full [OF assms None] first_free_None [OF g] None by blast
next
  case (Some c)
  have g: "fat_geometry cap fs" using assms(2) by (simp add: mounted_on_def)
  note c = first_free_Some [OF g Some]
  obtain d' where "alloc_cluster fs d = (Inr c, d')" "dinv d'"
      "content d' = cluster_put fs (content d) c (replicate (cluster_size_bytes (bpb fs)) 0)"
    using block_device.alloc_cluster_ok [OF assms Some]
    unfolding block_device.op_ok_def [OF assms(1)] by metis
  then show ?thesis
    using c fat_entry_cluster_put [OF g c(1)] cluster_data_cluster_put [OF g c(1)] by simp
qed

theorem alloc_cluster_correct_witness:
  "(\<exists>c d'. alloc_cluster sample_fs sample_world = (Inr c, d') \<and>
      fat_entry sample_fs (sample_content d') c = FAT32_FREE)"
  using alloc_cluster_correct [OF sample_block_device sample_mounted sample_world_inv]
  by (auto simp: sample_valid sample_entry FAT32_FREE_def dest: spec [of _ 3])

section \<open>Files\<close>

text \<open>The state after \<open>write_file_data\<close>, shared by the two theorems below.\<close>

lemma write_file_state:
  assumes bd: "block_device dev content cap dinv" and m: "mounted_on dev cap fs" and d: "dinv d"
    and i: "intact_chain (bpb fs) (fat_entry fs (content d)) (c0 # cs)" and len: "length (c0 # cs) \<le> 100000"
    and n: "n = clusters_needed (cluster_size_bytes (bpb fs)) (length data) - length (c0 # cs)"
    and c: "0 < n \<Longrightarrow> first_free (bpb fs) (fat_entry fs (content d)) = Some c"
  obtains d1 sec where "write_file_data fs c0 data d = (Inr (), d1)" "dinv d1"
    "content d1 = file_put fs ((c0 # cs) @ replicate n c) data sec" "sectors_wf sec"
    "intact_chain (bpb fs) (fat_entry fs (content d1)) (grown (c0 # cs) n c)"
    "\<And>x. valid_cluster (bpb fs) x \<Longrightarrow> x \<notin> set (grown (c0 # cs) n c) \<Longrightarrow>
       fat_entry fs (content d1) x = fat_entry fs (content d) x \<and>
       cluster_data fs (content d1) x = cluster_data fs (content d) x"
proof -
  have g: "fat_geometry cap fs" using m by (simp add: mounted_on_def)
  let ?sec = "(zero_cluster fs c ^^ n) (content d)"
  have wf: "sectors_wf ?sec"
    by (rule zero_clusters_wf [OF g block_device.content_wf [OF bd d]])
  obtain d1 where d1: "write_file_data fs c0 data d = (Inr (), d1)" "dinv d1"
      "content d1 = file_put fs ((c0 # cs) @ replicate n c) data ?sec"
    using block_device.write_file_data_ok [OF bd m d i n c]
    unfolding block_device.op_ok_def [OF bd] by metis
  have v: "list_all (valid_cluster (bpb fs)) ((c0 # cs) @ replicate n c)"
    using grown_ok(3) [OF g i c] unfolding list_all_iff set_grown .
  have "fat_entry fs (content d1) x = fat_entry fs (content d) x \<and>
      cluster_data fs (content d1) x = cluster_data fs (content d) x"
    if x: "valid_cluster (bpb fs) x" "x \<notin> set (grown (c0 # cs) n c)" for x
  proof (cases "n = 0")
    case True
    then show ?thesis
      using file_put_other [OF g v wf x(1)] x(2) unfolding d1(3) set_grown by simp
  next
    case False
    then have "c \<noteq> x" "valid_cluster (bpb fs) c"
      using x(2) first_free_Some(1) [OF g c] by (auto simp: grown_def)
    then show ?thesis
      using file_put_other [OF g v wf x(1)] x fat_entry_zero_clusters [OF g _ x(1)]
        cluster_data_zero_clusters [OF g _ x(1)] unfolding d1(3) set_grown by auto
  qed
  moreover have "intact_chain (bpb fs) (fat_entry fs (content d1)) (grown (c0 # cs) n c)"
    unfolding d1(3) by (rule file_put_intact [OF g i len c wf])
  ultimately show thesis
    using that d1 wf by blast
qed

text \<open>C12: What is written to a file is read back, for data that fits the clusters of the file or
  needs one more; the chain of every other file keeps its links and its data.\<close>

theorem write_read_file:
  assumes bd: "block_device dev content cap dinv" and m: "mounted_on dev cap fs" and d: "dinv d"
    and i: "intact_chain (bpb fs) (fat_entry fs (content d)) (c0 # cs)" and len: "length (c0 # cs) \<le> 100000"
    and fits: "length data \<le> (length (c0 # cs) + 1) * cluster_size_bytes (bpb fs)"
    and room: "length data \<le> length (c0 # cs) * cluster_size_bytes (bpb fs) \<or>
      first_free (bpb fs) (fat_entry fs (content d)) \<noteq> None"
    and sz: "length data < 2 ^ 32" and buf: "length buf = length data"
  shows "\<exists>d1 d2. write_file_data fs c0 data d = (Inr (), d1) \<and> dinv d1 \<and>
    read_file fs c0 (of_nat (length data)) buf d1 = (Inr (length data, data), d2) \<and>
    (\<forall>x. valid_cluster (bpb fs) x \<and> x \<notin> set (c0 # cs) \<and>
       first_free (bpb fs) (fat_entry fs (content d)) \<noteq> Some x \<longrightarrow>
       fat_entry fs (content d1) x = fat_entry fs (content d) x \<and>
       cluster_data fs (content d1) x = cluster_data fs (content d) x)"
proof -
  let ?k = "cluster_size_bytes (bpb fs)"
  define n where "n = clusters_needed ?k (length data) - length (c0 # cs)"
  have g: "fat_geometry cap fs" using m by (simp add: mounted_on_def)
  have k: "0 < ?k" using fat_geometryD(1,2) [OF g] by (simp add: cluster_size_bytes_def)
  have n1: "n \<le> 1"
    using clusters_needed_le [OF k, of "length data" "length (c0 # cs) + 1"] fits by (simp add: n_def)
  have n0: "length data \<le> length (c0 # cs) * ?k" if "n = 0"
    using clusters_needed_le [OF k, of "length data" "length (c0 # cs)"] that by (simp add: n_def)
  have "n = 0" if "length data \<le> length (c0 # cs) * ?k"
    using clusters_needed_le [OF k, of "length data" "length (c0 # cs)"] that by (simp add: n_def)
  then obtain c where c: "0 < n \<Longrightarrow> first_free (bpb fs) (fat_entry fs (content d)) = Some c"
    using room by fastforce
  let ?cl = "(c0 # cs) @ replicate n c"
  have gr: "grown (c0 # cs) n c = ?cl" using n1 by (cases n) (simp_all add: grown_def)
  obtain d1 sec where w: "write_file_data fs c0 data d = (Inr (), d1)" "dinv d1"
      "content d1 = file_put fs ?cl data sec" "intact_chain (bpb fs) (fat_entry fs (content d1)) ?cl"
      "\<And>x. valid_cluster (bpb fs) x \<Longrightarrow> x \<notin> set ?cl \<Longrightarrow>
         fat_entry fs (content d1) x = fat_entry fs (content d) x \<and>
         cluster_data fs (content d1) x = cluster_data fs (content d) x"
    using write_file_state [OF bd m d i len n_def c] unfolding gr by metis
  have cap': "length data \<le> length ?cl * ?k"
    using n0 fits n1 by (cases n) auto
  have "file_bytes fs (content d1) ?cl = take (length ?cl * ?k) data @ replicate (length ?cl * ?k - length data) 0"
    unfolding w(3) using w(4) by (intro file_bytes_file_put [OF g]) (simp_all add: intact_chain_def)
  then have fb: "take (length data) (file_bytes fs (content d1) ?cl) = data"
    using cap' by simp
  have un: "unat (of_nat (length data) :: u32) = length data"
    using sz by (simp add: unat_of_nat)
  have mn: "length data = min (min (unat (of_nat (length data) :: u32)) (length (c0 # (cs @ replicate n c)) * ?k)) (length buf)"
    unfolding un buf using cap' by simp
  have "\<exists>d2. read_file fs c0 (of_nat (length data)) buf d1 = (Inr (length data, data), d2)"
    using block_device.read_file_ok [OF bd m w(2) _ mn] w(4) fb buf
    unfolding block_device.op_ok_def [OF bd] by auto
  moreover have "x \<notin> set ?cl" if "x \<notin> set (c0 # cs)" "first_free (bpb fs) (fat_entry fs (content d)) \<noteq> Some x" for x
    using that c by auto
  ultimately show ?thesis
    using w(1,2,5) by blast
qed

theorem write_read_file_witness:
  "\<exists>d1 d2. write_file_data sample_fs 2 (replicate 600 0x41) sample_world = (Inr (), d1) \<and>
     read_file sample_fs 2 600 (replicate 600 0) d1 = (Inr (600, replicate 600 0x41), d2)"
  using write_read_file [OF sample_block_device sample_mounted sample_world_inv, of 2 "[]"
      "replicate 600 0x41" "replicate 600 0"] sample_chain sample_free
  by fastforce

text \<open>C13: A file that needs two or more new clusters is written to one new cluster over and over
  again, because allocation does not mark the cluster it returns: the call succeeds, the
  chain of the file grows by one cluster only, and the file reads back shorter than what
  was written.\<close>

theorem write_file_loses_data:
  assumes bd: "block_device dev content cap dinv" and m: "mounted_on dev cap fs" and d: "dinv d"
    and i: "intact_chain (bpb fs) (fat_entry fs (content d)) (c0 # cs)" and len: "length (c0 # cs) \<le> 100000"
    and long: "(length (c0 # cs) + 1) * cluster_size_bytes (bpb fs) < length data"
    and free: "first_free (bpb fs) (fat_entry fs (content d)) = Some c"
    and sz: "length data < 2 ^ 32" and buf: "length buf = length data"
  shows "\<exists>d1 d2 r. write_file_data fs c0 data d = (Inr (), d1) \<and>
    chain_from (fat_entry fs (content d1)) [] c0 = (c0 # cs) @ [c] \<and>
    read_file fs c0 (of_nat (length data)) buf d1 =
      (Inr ((length (c0 # cs) + 1) * cluster_size_bytes (bpb fs), r), d2)"
proof -
  let ?k = "cluster_size_bytes (bpb fs)"
  define n where "n = clusters_needed ?k (length data) - length (c0 # cs)"
  have g: "fat_geometry cap fs" using m by (simp add: mounted_on_def)
  have k: "0 < ?k" using fat_geometryD(1,2) [OF g] by (simp add: cluster_size_bytes_def)
  have "n \<noteq> 0"
    using clusters_needed_le [OF k, of "length data" "length (c0 # cs)"] long by (simp add: n_def)
  then have gr: "grown (c0 # cs) n c = c0 # cs @ [c]" by (simp add: grown_def)
  obtain d1 where w: "write_file_data fs c0 data d = (Inr (), d1)" "dinv d1"
      "intact_chain (bpb fs) (fat_entry fs (content d1)) (c0 # cs @ [c])"
    using write_file_state [OF bd m d i len n_def free] unfolding gr by metis
  have un: "unat (of_nat (length data) :: u32) = length data"
    using sz by (simp add: unat_of_nat)
  have mn: "(length (c0 # cs) + 1) * ?k =
      min (min (unat (of_nat (length data) :: u32)) (length (c0 # (cs @ [c])) * ?k)) (length buf)"
    unfolding un buf using long by simp
  have "\<exists>r d2. read_file fs c0 (of_nat (length data)) buf d1 = (Inr ((length (c0 # cs) + 1) * ?k, r), d2)"
    using block_device.read_file_ok [OF bd m w(2,3) mn]
    unfolding block_device.op_ok_def [OF bd] by auto
  moreover have "chain_from (fat_entry fs (content d1)) [] c0 = c0 # cs @ [c]"
    using chain_from_intact [OF g, of _ "[]"] w(3) by simp
  ultimately show ?thesis using w(1) by auto
qed

theorem write_file_loses_data_witness:
  "\<exists>d1 d2 r. write_file_data sample_fs 2 (replicate 1200 0x41) sample_world = (Inr (), d1) \<and>
     read_file sample_fs 2 1200 (replicate 1200 0) d1 = (Inr (1024, r), d2)"
  using write_file_loses_data [OF sample_block_device sample_mounted sample_world_inv, of 2 "[]"
      "replicate 1200 0x41" 3 "replicate 1200 0"] sample_chain sample_free
  by fastforce

section \<open>Directory entries and names\<close>

text \<open>The packed layout of a directory entry loses nothing: the bytes of an entry decode to
  the entry, and any 32 bytes decode to an entry with those bytes.\<close>

theorem dir_entry_codec:
  "(de_wf e \<longrightarrow> length (de_encode e) = 32 \<and> de_decode (de_encode e) = e) \<and>
   (length s = 32 \<longrightarrow> de_wf (de_decode s) \<and> de_encode (de_decode s) = s) \<and>
   first_cluster (set_first_cluster e c) = c"
  using de_decode_encode [of e "[]"] de_encode_decode [of s] by simp

theorem dir_entry_codec_witness:
  "de_encode (de_decode (replicate 32 0x41)) = replicate 32 0x41"
  using dir_entry_codec [of "de_decode (replicate 32 0x41)" "replicate 32 0x41" 0] by simp

text \<open>After \<open>set_name_83\<close> an entry gives back the name with the part before the first dot
  cut to eight bytes and the part after it cut to three, so a name survives the round trip
  exactly when it is an 8.3 name; on the empty name the code panics.\<close>

theorem set_name_83_roundtrip:
  assumes "list_all name_char n" and "length n < 2 ^ 64"
  shows "(n = [] \<longrightarrow> set_name_83 e n = None) \<and>
    (n \<noteq> [] \<longrightarrow> (\<exists>e'. set_name_83 e n = Some e' \<and> de_wf e' \<and> full_name_upper e' = trunc_83 n \<and>
       (full_name_upper e' = n \<longleftrightarrow> valid_83 n) \<and> de_attributes e' = de_attributes e \<and>
       first_cluster e' = first_cluster e \<and> file_size e' = file_size e))"
proof (cases "n = []")
  case True
  then show ?thesis by (simp add: set_name_83_empty)
next
  case False
  obtain e' where e': "set_name_83 e n = Some e'"
    by (rule set_name_83_Some [OF False assms(2)])
  show ?thesis
    using False e' set_name_83_wf [OF False assms(2) e'] trunc_83_id_iff [OF False assms(1)]
      full_name_upper_set_name_83 [OF False assms(2) e' assms(1)]
      set_name_83_fields(3-5) [OF False assms(2) e'] by simp
qed

theorem set_name_83_roundtrip_witness:
  "\<exists>e'. set_name_83 (de_decode (replicate 32 0)) [0x41, 0x2E, 0x54, 0x58, 0x54] = Some e' \<and>
     full_name_upper e' = [0x41, 0x2E, 0x54, 0x58, 0x54]"
  using set_name_83_roundtrip [of "[0x41, 0x2E, 0x54, 0x58, 0x54]" "de_decode (replicate 32 0)"]
  by (auto simp: name_char_def valid_83_def dot_pos_def)

section \<open>Directories\<close>

text \<open>C14: An entry added to a directory, in a free slot or in a new cluster, is found under its
  name, and a search for any other name gives what it gave before.\<close>

theorem add_entry_find:
  assumes bd: "block_device dev content cap dinv" and m: "mounted_on dev cap fs" and d: "dinv d"
    and e: "de_wf e" "visible e" "\<not> is_end e"
    and i: "intact_chain (bpb fs) (fat_entry fs (content d)) (c0 # cs)" and len: "length (c0 # cs) \<le> 100000"
    and clean: "dir_clean (dir_entries fs (content d) (c0 # cs))"
    and new: "dir_lookup (dir_entries fs (content d) (c0 # cs)) (full_name_upper e) = None"
    and room: "dir_slot (dir_entries fs (content d) (c0 # cs)) \<noteq> None \<or>
      first_free (bpb fs) (fat_entry fs (content d)) \<noteq> None"
  shows "\<exists>d1. add_entry fs c0 e d = (Inr (), d1) \<and> dinv d1 \<and>
    (\<exists>d2. find_entry fs c0 (full_name_upper e) d1 = (Inr (Some e), d2)) \<and>
    (\<forall>n. n \<noteq> full_name_upper e \<longrightarrow> fst (find_entry fs c0 n d1) = fst (find_entry fs c0 n d))"
proof -
  obtain sec' cs' d1 where a: "add_entry fs c0 e d = (Inr (), d1)" "dinv d1" "content d1 = sec'"
      "intact_chain (bpb fs) (fat_entry fs sec') (c0 # cs')"
      "\<And>n. dir_lookup (dir_entries fs sec' (c0 # cs')) n =
       (if n = full_name_upper e then Some e else dir_lookup (dir_entries fs (content d) (c0 # cs)) n)"
    using block_device.add_entry_ok [OF bd m d e i len clean new room]
    unfolding block_device.op_ok_def [OF bd] by metis
  have f1: "\<exists>d2. find_entry fs c0 n d1 = (Inr (dir_lookup (dir_entries fs sec' (c0 # cs')) n), d2)" for n
    using block_device.find_entry_ok [OF bd m a(2)] a(3,4)
    unfolding block_device.op_ok_def [OF bd] by metis
  have f0: "\<exists>d2. find_entry fs c0 n d = (Inr (dir_lookup (dir_entries fs (content d) (c0 # cs)) n), d2)" for n
    using block_device.find_entry_ok [OF bd m d i]
    unfolding block_device.op_ok_def [OF bd] by metis
  have "fst (find_entry fs c0 n d1) = fst (find_entry fs c0 n d)" if "n \<noteq> full_name_upper e" for n
    using f1 [of n] f0 [of n] a(5) [of n] that by auto
  moreover have "\<exists>d2. find_entry fs c0 (full_name_upper e) d1 = (Inr (Some e), d2)"
    using f1 [of "full_name_upper e"] a(5) [of "full_name_upper e"] by simp
  ultimately show ?thesis using a(1,2) by blast
qed

theorem add_entry_find_witness:
  "\<exists>d1 d2. add_entry sample_fs 2 sample_file sample_world = (Inr (), d1) \<and>
     find_entry sample_fs 2 [0x41] d1 = (Inr (Some sample_file), d2)"
  using add_entry_find [OF sample_block_device sample_mounted sample_world_inv sample_file_ok(1-3), of 2 "[]"]
    sample_chain sample_dir_slot dir_clean_all_end [OF sample_dir(1)] dir_lookup_all_end [OF sample_dir(1)]
    sample_file_ok(4)
  by (simp del: dir_entries_Cons) blast

text \<open>C15: Removing a name that stands for one entry only returns that entry; afterwards the name
  is not found and a search for any other name gives what it gave before.\<close>

theorem remove_entry_find:
  assumes bd: "block_device dev content cap dinv" and m: "mounted_on dev cap fs" and d: "dinv d"
    and i: "intact_chain (bpb fs) (fat_entry fs (content d)) (c0 # cs)"
    and k: "dir_index (dir_entries fs (content d) (c0 # cs)) n = Some k"
    and once: "dir_lookup (drop (Suc k) (dir_entries fs (content d) (c0 # cs))) n = None"
  shows "\<exists>d1. remove_entry fs c0 n d = (Inr (dir_entries fs (content d) (c0 # cs) ! k), d1) \<and> dinv d1 \<and>
    (\<exists>d2. find_entry fs c0 n d1 = (Inr None, d2)) \<and>
    (\<forall>n'. n' \<noteq> n \<longrightarrow> fst (find_entry fs c0 n' d1) = fst (find_entry fs c0 n' d))"
proof -
  let ?es = "dir_entries fs (content d) (c0 # cs)"
  obtain sec' d1 where a: "remove_entry fs c0 n d = (Inr (?es ! k), d1)" "dinv d1" "content d1 = sec'"
      "block_device.dir_step fs (content d) (c0 # cs) sec'"
      "dir_entries fs sec' (c0 # cs) = ?es[k := mark_deleted (?es ! k)]"
    using block_device.remove_entry_ok [OF bd m d i k]
    unfolding block_device.op_ok_def [OF bd] by metis
  have i': "intact_chain (bpb fs) (fat_entry fs (content d1)) (c0 # cs)"
    unfolding a(3) using block_device.dir_step_intact [OF bd m i _ a(4)] i by (simp add: intact_chain_def)
  have lk: "dir_lookup (dir_entries fs sec' (c0 # cs)) n' = (if n' = n then None else dir_lookup ?es n')" for n'
    unfolding a(5) dir_lookup_remove [OF k dir_entries_wf] once ..
  have f1: "\<exists>d2. find_entry fs c0 n' d1 = (Inr (dir_lookup (dir_entries fs sec' (c0 # cs)) n'), d2)" for n'
    using block_device.find_entry_ok [OF bd m a(2) i'] a(3)
    unfolding block_device.op_ok_def [OF bd] by metis
  have f0: "\<exists>d2. find_entry fs c0 n' d = (Inr (dir_lookup ?es n'), d2)" for n'
    using block_device.find_entry_ok [OF bd m d i]
    unfolding block_device.op_ok_def [OF bd] by metis
  have "fst (find_entry fs c0 n' d1) = fst (find_entry fs c0 n' d)" if "n' \<noteq> n" for n'
    using f1 [of n'] f0 [of n'] lk [of n'] that by auto
  moreover have "\<exists>d2. find_entry fs c0 n d1 = (Inr None, d2)"
    using f1 [of n] lk [of n] by simp
  ultimately show ?thesis using a(1,2) by blast
qed

theorem remove_entry_find_witness:
  "\<exists>d1 d2. remove_entry sample_fs 2 [0x41] sample_world_2 = (Inr sample_file, d1) \<and>
     find_entry sample_fs 2 [0x41] d1 = (Inr None, d2)"
proof -
  obtain z where z: "dir_entries sample_fs sample_sectors_2 [2] = sample_file # z" "list_all is_end z"
    by (rule sample_dir_2)
  have "dir_index (dir_entries sample_fs sample_sectors_2 [2]) [0x41] = Some 0"
    unfolding z(1) using sample_file_ok by simp
  then show ?thesis
    using remove_entry_find [OF sample_block_device sample_mounted sample_world_2_inv, of 2 "[]" "[0x41]" 0]
      sample_chain_2 dir_lookup_all_end [OF z(2)]
    by (simp add: z(1) del: dir_entries_Cons) blast
qed

text \<open>Listing a directory gives, in order, the visible entries before the end mark with their
  name, kind, size and first cluster, without the entries for the directory itself and its
  parent.\<close>

theorem read_dir_entries_correct:
  assumes bd: "block_device dev content cap dinv" and m: "mounted_on dev cap fs" and d: "dinv d"
    and i: "intact_chain (bpb fs) (fat_entry fs (content d)) (c0 # cs)"
  shows "\<exists>d'. read_dir_entries fs c0 d = (Inr (dir_list (dir_entries fs (content d) (c0 # cs))), d') \<and>
    dinv d' \<and> content d' = content d \<and>
    (\<forall>x \<in> set (dir_list (dir_entries fs (content d) (c0 # cs))).
       \<exists>e \<in> set (dir_entries fs (content d) (c0 # cs)). visible e \<and> \<not> is_end e \<and> x = entry_info e)"
  using block_device.read_dir_entries_ok [OF bd m d i]
  unfolding block_device.op_ok_def [OF bd] dir_list_def by (fastforce dest: set_takeWhileD)

theorem read_dir_entries_correct_witness:
  "\<exists>d'. read_dir_entries sample_fs 2 sample_world = (Inr [], d')"
proof -
  have "dir_list (dir_entries sample_fs sample_sectors [2]) = []"
    using sample_dir by (cases "dir_entries sample_fs sample_sectors [2]") (simp_all add: dir_list_def)
  then show ?thesis
    using read_dir_entries_correct [OF sample_block_device sample_mounted sample_world_inv, of 2 "[]"] sample_chain
    by (auto simp del: dir_entries_Cons)
qed

end
