(* ===== verification/Vfs.thy ===== *)
theory Vfs
  imports Fat_Dir
begin

text \<open>
  The virtual file system: \<open>kernel/src/fs/vfs/mod.rs\<close>. Paths are byte strings. The
  methods on \<open>&self\<close> are computations over the device; the methods on
  \<open>&mut self\<close> also change the manager, so they run over both.
\<close>

section \<open>Types\<close>

datatype VfsError =
  NotFound | NotADirectory | NotAFile | AlreadyExists | PermissionDenied | VfsIoError | NoSpace
  | InvalidPath

text \<open>A failed call returns an error, or panics inside the file system.\<close>

datatype vfs_fail = Vfs VfsError | Vfs_Panic

datatype FileMode = Read | Write | Create | CreateNew

record VfsNode =
  node_path :: bytes
  node_is_dir :: bool
  node_size :: u32
  node_cluster :: u32

record FileDescriptor =
  fd_num :: nat
  fd_path :: bytes
  fd_mode :: FileMode
  fd_pos :: nat
  fd_size :: u32
  fd_cluster :: u32

record 'd VfsManager =
  mount_point :: bytes
  fat_fs :: "'d Fat32Fs option"
  vfs_root :: u32
  file_table :: "FileDescriptor list"
  next_fd :: nat
  cwd :: bytes

type_synonym ('d, 'a) vfs_io = "('d, vfs_fail, 'a) io"

text \<open>Replacing an error of the file system by an error of this layer; a panic stays one.\<close>

definition lift_fat :: "VfsError \<Rightarrow> ('d, 'a) fat_io \<Rightarrow> ('d, 'a) vfs_io" where
  "lift_fat e op = io_map_err (\<lambda>x. case x of FatErr _ \<Rightarrow> Vfs e | FatPanic \<Rightarrow> Vfs_Panic) op"

definition vfs_err :: "VfsError \<Rightarrow> ('d, 'a) vfs_io" where
  "vfs_err e = io_err (Vfs e)"

definition ok_or :: "'a option \<Rightarrow> vfs_fail \<Rightarrow> ('d, 'a) vfs_io" where
  "ok_or x e = (case x of None \<Rightarrow> io_err e | Some y \<Rightarrow> io_ret y)"

definition to_upper_ascii :: "u8 \<Rightarrow> u8" where
  "to_upper_ascii b = (if 0x61 \<le> b \<and> b \<le> 0x7A then b - 32 else b)"

definition to_upper_83 :: "bytes \<Rightarrow> bytes" where
  "to_upper_83 name = utf8_lossy (map to_upper_ascii name)"

section \<open>Mounting\<close>

text \<open>\<open>None\<close> is a panic: the message after a mount prints the number of clusters, and on a
  volume with no sectors in a cluster the division by zero stops the kernel.\<close>

definition init_vfs :: "'d block_dev \<Rightarrow> 'd \<Rightarrow> ('d VfsManager \<times> 'd) option" where
  "init_vfs device d =
     (case mount device 0 d of
        (Inr fs, d') \<Rightarrow>
          (case total_clusters (bpb fs) of
             None \<Rightarrow> None
           | Some n \<Rightarrow>
               Some (\<lparr> mount_point = [0x2F], fat_fs = Some fs, vfs_root = root_cluster (bpb fs), file_table = [],
                  next_fd = 3, cwd = [0x2F] \<rparr>, d'))
      | (Inl e, d') \<Rightarrow>
          Some (\<lparr> mount_point = [0x2F], fat_fs = None, vfs_root = 0, file_table = [], next_fd = 3,
             cwd = [0x2F] \<rparr>, d'))"

lemma init_vfs_None: "init_vfs device d = None \<longleftrightarrow> (\<exists>fs d'. mount device 0 d = (Inr fs, d') \<and> sectors_per_cluster (bpb fs) = 0)"
  by (auto simp: init_vfs_def total_clusters_def Let_def split: prod.split sum.split)

lemma init_vfs_Some: "init_vfs device d = Some (v, d') \<Longrightarrow> file_table v = [] \<and> next_fd v = 3"
  by (auto simp: init_vfs_def split: prod.splits sum.splits option.splits)

definition is_mounted :: "'d VfsManager \<Rightarrow> bool" where
  "is_mounted v \<longleftrightarrow> fat_fs v \<noteq> None"

definition vfs_fs :: "'d VfsManager \<Rightarrow> ('d, 'd Fat32Fs) vfs_io" where
  "vfs_fs v = ok_or (fat_fs v) (Vfs VfsIoError)"

section \<open>Paths\<close>

text \<open>The loop of \<open>resolve_path\<close>. The second component of its result is always the empty
  string and is left out.\<close>

definition path_split :: "bytes \<Rightarrow> bytes \<times> bytes" where
  "path_split remaining = (case split_first 0x2F remaining of Some (c, rest) \<Rightarrow> (c, rest) | None \<Rightarrow> (remaining, []))"

lemma path_split_shorter: "remaining \<noteq> [] \<Longrightarrow> length (snd (path_split remaining)) < length remaining"
  by (auto simp: path_split_def split_first_length split: option.split)

lemma path_split_rest: "(c, rest) = path_split r \<Longrightarrow> r \<noteq> [] \<Longrightarrow> length rest < length r"
  by (metis path_split_shorter snd_conv)

definition dotdot_cluster :: "u32 \<Rightarrow> DirEntryInfo list \<Rightarrow> u32" where
  "dotdot_cluster root entries =
     (case find (\<lambda>e. di_name e = [0x2E, 0x2E]) entries of Some e \<Rightarrow> di_cluster e | None \<Rightarrow> root)"

definition find_component :: "bytes \<Rightarrow> DirEntryInfo list \<Rightarrow> DirEntryInfo option" where
  "find_component upper_name entries = find (\<lambda>e. to_upper_83 (di_name e) = upper_name) entries"

function resolve_loop :: "'d Fat32Fs \<Rightarrow> u32 \<Rightarrow> u32 \<Rightarrow> bytes \<Rightarrow> ('d, u32) vfs_io" where
  "resolve_loop fs root current_cluster remaining d =
     (if remaining = [] then (Inr current_cluster, d)
      else case path_split remaining of (component, rest) \<Rightarrow>
        if component = [] \<or> component = [0x2E] then resolve_loop fs root current_cluster rest d
        else if component = [0x2E, 0x2E] then
          (if current_cluster = root then resolve_loop fs root current_cluster rest d
           else case lift_fat VfsIoError (read_dir_entries fs current_cluster) d of
               (Inl e, d') \<Rightarrow> (Inl e, d')
             | (Inr entries, d') \<Rightarrow> resolve_loop fs root (dotdot_cluster root entries) rest d')
        else case lift_fat VfsIoError (read_dir_entries fs current_cluster) d of
            (Inl e, d') \<Rightarrow> (Inl e, d')
          | (Inr entries, d') \<Rightarrow>
              (case find_component (to_upper_83 component) entries of
                 None \<Rightarrow> (Inl (Vfs NotFound), d')
               | Some entry \<Rightarrow> resolve_loop fs root (di_cluster entry) rest d'))"
  by pat_completeness auto
termination
  by (relation "measure (\<lambda>(fs, root, cur, remaining, d). length remaining)")
    (simp_all add: path_split_rest)

declare resolve_loop.simps [simp del]

definition resolve_path :: "'d VfsManager \<Rightarrow> bytes \<Rightarrow> ('d, u32) vfs_io" where
  "resolve_path v path =
     io_bind (vfs_fs v) (\<lambda>fs.
       let path' = trim_start_slash path in
       if path' = [] \<or> path' = [0x2E] then io_ret (vfs_root v)
       else resolve_loop fs (vfs_root v) (vfs_root v) path')"

definition canonicalize :: "'d VfsManager \<Rightarrow> bytes \<Rightarrow> bytes" where
  "canonicalize v path =
     (if path \<noteq> [] \<and> hd path = 0x2F then path
      else let full = cwd v;
               full' = (if full \<noteq> [] \<and> last full = 0x2F then full else full @ [0x2F]) in
        full' @ path)"

definition resolve_parent :: "'d VfsManager \<Rightarrow> bytes \<Rightarrow> ('d, u32 \<times> bytes) vfs_io" where
  "resolve_parent v path =
     (let path' = trim_start_slash path in
      if path' = [] then io_ret (vfs_root v, [])
      else case split_last 0x2F path' of
          Some (parent, name) \<Rightarrow>
            if parent = [] then io_ret (vfs_root v, name)
            else io_bind (resolve_path v parent) (\<lambda>cluster. io_ret (cluster, name))
        | None \<Rightarrow> io_ret (vfs_root v, path'))"

section \<open>Listing and status\<close>

definition list_dir :: "'d VfsManager \<Rightarrow> bytes \<Rightarrow> ('d, VfsNode list) vfs_io" where
  "list_dir v path =
     io_bind (vfs_fs v) (\<lambda>fs.
     io_bind (resolve_path v path) (\<lambda>cluster.
     io_bind (lift_fat VfsIoError (read_dir_entries fs cluster)) (\<lambda>entries.
     io_ret (map (\<lambda>e. \<lparr> node_path = di_name e, node_is_dir = di_is_dir e, node_size = di_size e,
                        node_cluster = di_cluster e \<rparr>) entries))))"

definition stat :: "'d VfsManager \<Rightarrow> bytes \<Rightarrow> ('d, VfsNode) vfs_io" where
  "stat v path =
     io_bind (vfs_fs v) (\<lambda>fs.
     io_bind (resolve_path v path) (\<lambda>cluster.
     let path_clean = canonicalize v path in
     io_bind (resolve_parent v path_clean) (\<lambda>(_, file_name).
     if file_name = [] then
       io_ret \<lparr> node_path = path_clean, node_is_dir = True, node_size = 0, node_cluster = cluster \<rparr>
     else io_bind (resolve_parent v path_clean) (\<lambda>(parent_cluster, _).
       io_bind (lift_fat VfsIoError (find_entry fs parent_cluster (to_upper_83 file_name))) (\<lambda>found.
       io_bind (ok_or found (Vfs NotFound)) (\<lambda>entry.
       io_ret \<lparr> node_path = path_clean, node_is_dir = is_directory entry,
                node_size = file_size entry, node_cluster = first_cluster entry \<rparr>))))))"

section \<open>Creating, deleting and reading whole files\<close>

definition zeroed_entry :: Fat32DirEntry where
  "zeroed_entry = de_decode (replicate 32 0)"

text \<open>A new entry with a name, attributes, first cluster and size.\<close>

definition make_entry :: "bytes \<Rightarrow> u8 \<Rightarrow> u32 \<Rightarrow> u32 \<Rightarrow> ('d, Fat32DirEntry) vfs_io" where
  "make_entry upper_name attr cluster fsize =
     io_bind (ok_or (set_name_83 zeroed_entry upper_name) Vfs_Panic) (\<lambda>e.
     io_ret ((set_first_cluster (e \<lparr> de_attributes := attr \<rparr>) cluster) \<lparr> file_size := fsize \<rparr>))"

definition mkdir :: "'d VfsManager \<Rightarrow> bytes \<Rightarrow> ('d, unit) vfs_io" where
  "mkdir v path =
     io_bind (vfs_fs v) (\<lambda>fs.
     io_bind (resolve_parent v path) (\<lambda>(parent_cluster, dir_name).
     if dir_name = [] then vfs_err InvalidPath
     else let upper_name = to_upper_83 dir_name in
       io_bind (lift_fat VfsIoError (find_entry fs parent_cluster upper_name)) (\<lambda>existing.
       if existing \<noteq> None then vfs_err AlreadyExists
       else io_bind (lift_fat NoSpace (alloc_cluster fs)) (\<lambda>new_cluster.
         let cluster_buf = replicate (cluster_size_bytes (bpb fs)) 0;
             dot_entry = set_first_cluster (zeroed_entry \<lparr> de_name := 0x2E # replicate 7 0x20,
                           de_attributes := 0x10 \<rparr>) new_cluster;
             dotdot_entry = set_first_cluster (zeroed_entry \<lparr> de_name := 0x2E # 0x2E # replicate 6 0x20,
                           de_attributes := 0x10 \<rparr>) parent_cluster in
         if cluster_size_bytes (bpb fs) < 64 then io_err Vfs_Panic
         else
         io_bind (lift_fat VfsIoError (write_cluster fs new_cluster
           (patch_entry (patch_entry cluster_buf 0 (de_encode dot_entry)) 32 (de_encode dotdot_entry)))) (\<lambda>_.
         io_bind (lift_fat VfsIoError (write_fat_entry fs new_cluster FAT32_EOC)) (\<lambda>_.
         io_bind (make_entry upper_name 0x10 new_cluster 0) (\<lambda>new_entry.
         lift_fat VfsIoError (add_entry fs parent_cluster new_entry))))))))"

text \<open>The loop of \<open>update_dir_entry\<close>: unlike the other searches it does not stop at an end
  mark.\<close>

primrec scan_update :: "bytes \<Rightarrow> nat list \<Rightarrow> bytes \<Rightarrow> (nat \<times> Fat32DirEntry) option" where
  "scan_update buf [] name_upper = None"
| "scan_update buf (i # is) name_upper =
     (let e = de_decode (drop (i * 32) buf) in
      if is_end e \<or> is_deleted e \<or> is_long_name e \<or> is_volume_label e
        then scan_update buf is name_upper
      else if full_name_upper e = name_upper then Some (i, e)
      else scan_update buf is name_upper)"

primrec update_dir_loop ::
  "'d Fat32Fs \<Rightarrow> u32 list \<Rightarrow> bytes \<Rightarrow> u32 \<Rightarrow> u32 \<Rightarrow> ('d, unit) vfs_io" where
  "update_dir_loop fs [] name_upper new_cluster new_size = vfs_err NotFound"
| "update_dir_loop fs (cluster # rest) name_upper new_cluster new_size =
     io_bind (lift_fat VfsIoError (read_cluster fs cluster (replicate (cluster_size_bytes (bpb fs)) 0)))
       (\<lambda>buf. case scan_update buf [0..<cluster_size_bytes (bpb fs) div 32] name_upper of
          Some (i, e) \<Rightarrow>
            lift_fat VfsIoError (write_cluster fs cluster (patch_entry buf (i * 32)
              (de_encode ((set_first_cluster e new_cluster) \<lparr> file_size := new_size \<rparr>))))
        | None \<Rightarrow> update_dir_loop fs rest name_upper new_cluster new_size)"

definition update_dir_entry ::
  "'d VfsManager \<Rightarrow> u32 \<Rightarrow> bytes \<Rightarrow> u32 \<Rightarrow> u32 \<Rightarrow> ('d, unit) vfs_io" where
  "update_dir_entry v dir_cluster name_upper new_cluster new_size =
     io_bind (vfs_fs v) (\<lambda>fs.
     io_bind (lift_fat VfsIoError (read_chain fs dir_cluster)) (\<lambda>chain.
     update_dir_loop fs chain name_upper new_cluster new_size))"

definition create_file :: "'d VfsManager \<Rightarrow> bytes \<Rightarrow> bytes \<Rightarrow> ('d, unit) vfs_io" where
  "create_file v path data =
     io_bind (vfs_fs v) (\<lambda>fs.
     io_bind (resolve_parent v path) (\<lambda>(parent_cluster, file_name).
     if file_name = [] then vfs_err InvalidPath
     else let upper_name = to_upper_83 file_name in
       io_bind (lift_fat VfsIoError (find_entry fs parent_cluster upper_name)) (\<lambda>existing.
       case existing of
         Some entry \<Rightarrow>
           if is_directory entry then vfs_err NotAFile
           else io_bind (if 2 \<le> first_cluster entry
                         then lift_fat VfsIoError (free_chain fs (first_cluster entry)) else io_ret ()) (\<lambda>_.
             io_bind (if data = [] then
                        io_bind (lift_fat NoSpace (alloc_cluster fs)) (\<lambda>c.
                        io_bind (lift_fat VfsIoError (write_fat_entry fs c FAT32_EOC)) (\<lambda>_. io_ret c))
                      else lift_fat NoSpace (allocate_and_write fs data)) (\<lambda>new_cluster.
             update_dir_entry v parent_cluster upper_name new_cluster (of_nat (length data))))
       | None \<Rightarrow>
           io_bind (lift_fat NoSpace (allocate_and_write fs data)) (\<lambda>first.
           io_bind (make_entry upper_name 0x20 first (of_nat (length data))) (\<lambda>new_entry.
           lift_fat VfsIoError (add_entry fs parent_cluster new_entry))))))"

definition vfs_delete :: "'d VfsManager \<Rightarrow> bytes \<Rightarrow> ('d, unit) vfs_io" where
  "vfs_delete v path =
     io_bind (vfs_fs v) (\<lambda>fs.
     io_bind (resolve_parent v path) (\<lambda>(parent_cluster, file_name).
     if file_name = [] then vfs_err InvalidPath
     else io_bind (lift_fat VfsIoError (remove_entry fs parent_cluster (to_upper_83 file_name))) (\<lambda>removed.
       if 2 \<le> first_cluster removed
       then lift_fat VfsIoError (free_chain fs (first_cluster removed)) else io_ret ())))"

definition read_file_content :: "'d VfsManager \<Rightarrow> bytes \<Rightarrow> ('d, bytes) vfs_io" where
  "read_file_content v path =
     io_bind (vfs_fs v) (\<lambda>fs.
     io_bind (resolve_parent v path) (\<lambda>(_, file_name).
     if file_name = [] then io_ret []
     else io_bind (resolve_parent v path) (\<lambda>(parent_cluster, _).
       io_bind (lift_fat VfsIoError (find_entry fs parent_cluster (to_upper_83 file_name))) (\<lambda>found.
       io_bind (ok_or found (Vfs NotFound)) (\<lambda>entry.
       if is_directory entry then vfs_err NotAFile
       else if file_size entry = 0 then io_ret []
       else io_bind (lift_fat VfsIoError (read_file fs (first_cluster entry) (file_size entry)
              (replicate (unat (file_size entry)) 0))) (\<lambda>(n, buf). io_ret buf))))))"

section \<open>File descriptors\<close>

text \<open>Calls that change the manager run over the manager and the device.\<close>

type_synonym ('d, 'a) vfs_st = "('d VfsManager \<times> 'd, vfs_fail, 'a) io"

definition on_device :: "('d VfsManager \<Rightarrow> ('d, 'a) vfs_io) \<Rightarrow> ('d, 'a) vfs_st" where
  "on_device op = (\<lambda>(v, d). case op v d of (r, d') \<Rightarrow> (r, (v, d')))"

definition push_fd :: "bytes \<Rightarrow> FileMode \<Rightarrow> u32 \<Rightarrow> u32 \<Rightarrow> ('d, nat) vfs_st" where
  "push_fd path mode fsize cluster = (\<lambda>(v, d).
     (Inr (next_fd v),
      (v \<lparr> next_fd := next_fd v + 1,
           file_table := file_table v @ [\<lparr> fd_num = next_fd v, fd_path = path, fd_mode = mode, fd_pos = 0,
             fd_size = fsize, fd_cluster = cluster \<rparr>] \<rparr>, d)))"

definition vfs_open :: "bytes \<Rightarrow> FileMode \<Rightarrow> ('d, nat) vfs_st" where
  "vfs_open path mode =
     io_bind (on_device vfs_fs) (\<lambda>fs.
     io_bind (on_device (\<lambda>v. io_ret (canonicalize v path))) (\<lambda>path_clean.
     io_bind (on_device (\<lambda>v. resolve_parent v path_clean)) (\<lambda>(parent_cluster, file_name).
     if file_name = [] then
       (if mode = Read
        then io_bind (on_device (\<lambda>v. resolve_path v path_clean)) (\<lambda>cluster. push_fd path_clean mode 0 cluster)
        else io_err (Vfs InvalidPath))
     else let upper_name = to_upper_83 file_name in
       io_bind (on_device (\<lambda>v. lift_fat VfsIoError (find_entry fs parent_cluster upper_name))) (\<lambda>existing.
       case mode of
         Read \<Rightarrow> io_bind (on_device (\<lambda>v. ok_or existing (Vfs NotFound))) (\<lambda>entry.
           if is_directory entry then io_err (Vfs NotAFile)
           else push_fd path_clean mode (file_size entry) (first_cluster entry))
       | Write \<Rightarrow> io_bind (on_device (\<lambda>v. ok_or existing (Vfs NotFound))) (\<lambda>entry.
           if is_directory entry then io_err (Vfs NotAFile)
           else push_fd path_clean mode (file_size entry) (first_cluster entry))
       | _ \<Rightarrow>
           (case existing of
              Some entry \<Rightarrow>
                if mode = CreateNew then io_err (Vfs AlreadyExists)
                else if is_directory entry then io_err (Vfs NotAFile)
                else push_fd path_clean mode (file_size entry) (first_cluster entry)
            | None \<Rightarrow>
                io_bind (on_device (\<lambda>v. lift_fat NoSpace (allocate_and_write fs []))) (\<lambda>first.
                io_bind (on_device (\<lambda>v. make_entry upper_name 0x20 first 0)) (\<lambda>new_entry.
                io_bind (on_device (\<lambda>v. lift_fat VfsIoError (add_entry fs parent_cluster new_entry))) (\<lambda>_.
                push_fd path_clean mode 0 first))))))))"

text \<open>Reading takes the buffer and returns it with the number of bytes read.\<close>

definition vfs_read :: "'d VfsManager \<Rightarrow> nat \<Rightarrow> bytes \<Rightarrow> ('d, nat \<times> bytes) vfs_io" where
  "vfs_read v fd buf =
     io_bind (ok_or (find (\<lambda>f. fd_num f = fd) (file_table v)) (Vfs NotFound)) (\<lambda>f.
     io_bind (vfs_fs v) (\<lambda>fs.
     let bytes_left = unat (fd_size f) - fd_pos f in
     if bytes_left = 0 then io_ret (0, buf)
     else let to_read = min (length buf) bytes_left in
       io_bind (lift_fat VfsIoError (read_file fs (fd_cluster f) (fd_size f)
                  (replicate (unat (fd_size f)) 0))) (\<lambda>(_, file_buf).
       let end = min (fd_pos f + to_read) (unat (fd_size f));
           available = end - fd_pos f in
       if 0 < available
       then io_ret (available, slice file_buf (fd_pos f) available @ drop available buf)
       else io_ret (0, buf))))"

text \<open>The loop of \<open>update_file_size\<close> over the clusters of the directory.\<close>

primrec update_size_loop :: "'d Fat32Fs \<Rightarrow> u32 list \<Rightarrow> bytes \<Rightarrow> u32 \<Rightarrow> ('d, unit) vfs_io" where
  "update_size_loop fs [] name_upper new_size = io_ret ()"
| "update_size_loop fs (cluster # rest) name_upper new_size =
     io_bind (lift_fat VfsIoError (read_cluster fs cluster (replicate (cluster_size_bytes (bpb fs)) 0)))
       (\<lambda>buf. case scan_name buf [0..<cluster_size_bytes (bpb fs) div 32] name_upper of
          Scan_End \<Rightarrow> io_ret ()
        | Scan_Hit i e \<Rightarrow>
            lift_fat VfsIoError (write_cluster fs cluster
              (patch_entry buf (i * 32) (de_encode (e \<lparr> file_size := new_size \<rparr>))))
        | Scan_More \<Rightarrow> update_size_loop fs rest name_upper new_size)"

definition update_file_size :: "'d VfsManager \<Rightarrow> bytes \<Rightarrow> u32 \<Rightarrow> ('d, unit) vfs_io" where
  "update_file_size v path new_size =
     io_bind (vfs_fs v) (\<lambda>fs.
     io_bind (resolve_parent v path) (\<lambda>(parent_cluster, file_name).
     if file_name = [] then io_ret ()
     else io_bind (lift_fat VfsIoError (read_chain fs parent_cluster)) (\<lambda>chain.
       update_size_loop fs chain (to_upper_83 file_name) new_size)))"

text \<open>The bytes written when the position is not zero: the file as it was, extended by zeros,
  with the data at the position.\<close>

definition merge_data :: "bytes \<Rightarrow> nat \<Rightarrow> bytes \<Rightarrow> bytes" where
  "merge_data full pos data =
     (let write_end = min (pos + length data) (length full) in
      take pos full @ take (write_end - pos) data @ drop write_end full)"

text \<open>\<open>Iterator::position\<close> of the descriptor with a number.\<close>

primrec find_index_fd :: "nat \<Rightarrow> FileDescriptor list \<Rightarrow> nat option" where
  "find_index_fd fd [] = None"
| "find_index_fd fd (f # fs) = (if fd_num f = fd then Some 0 else map_option Suc (find_index_fd fd fs))"

text \<open>The part of \<open>write\<close> that changes the clusters of the file.\<close>

definition write_contents :: "'d Fat32Fs \<Rightarrow> FileDescriptor \<Rightarrow> bytes \<Rightarrow> ('d, unit) vfs_st" where
  "write_contents fs f data =
     (if fd_pos f = 0
      then on_device (\<lambda>v. lift_fat VfsIoError (write_file_data fs (fd_cluster f) data))
      else let new_end = fd_pos f + length data;
               buf_size = max new_end (unat (fd_size f)) in
        io_bind (if 0 < fd_size f
                 then io_bind (on_device (\<lambda>v. lift_fat VfsIoError (read_file fs (fd_cluster f)
                        (fd_size f) (replicate buf_size 0)))) (\<lambda>(_, full). io_ret full)
                 else io_ret (replicate buf_size 0)) (\<lambda>full.
        on_device (\<lambda>v. lift_fat VfsIoError (write_file_data fs (fd_cluster f)
          (merge_data full (fd_pos f) data)))))"

definition vfs_write :: "nat \<Rightarrow> bytes \<Rightarrow> ('d, nat) vfs_st" where
  "vfs_write fd data = (\<lambda>(v, d).
     case find_index_fd fd (file_table v) of
       None \<Rightarrow> (Inl (Vfs NotFound), (v, d))
     | Some idx \<Rightarrow>
         let f = file_table v ! idx in
         if fd_mode f = Read then (Inl (Vfs PermissionDenied), (v, d))
         else io_bind (on_device vfs_fs) (\<lambda>fs.
           io_bind (write_contents fs f data) (\<lambda>_.
           let pos' = fd_pos f + length data;
               size' = (of_nat (max pos' (unat (fd_size f))) :: u32) in
           io_bind (\<lambda>(v, d). (Inr (), (v \<lparr> file_table := (file_table v)
                      [idx := f \<lparr> fd_pos := pos', fd_size := size' \<rparr>] \<rparr>, d))) (\<lambda>_.
           io_bind (if 0 < size' then on_device (\<lambda>v. update_file_size v (fd_path f) size')
                    else io_ret ()) (\<lambda>_.
           io_ret (length data))))) (v, d))"

definition vfs_close :: "nat \<Rightarrow> ('d, unit) vfs_st" where
  "vfs_close fd = (\<lambda>(v, d).
     (Inr (), (v \<lparr> file_table := filter (\<lambda>f. fd_num f \<noteq> fd) (file_table v) \<rparr>, d)))"

end
