(* ===== verification/Vfs_Laws.thy ===== *)
theory Vfs_Laws
  imports Vfs Fat_Sample
begin

text \<open>
  Lemmas on the virtual file system: upper-casing and paths, the table of file
  descriptors, and the calls on a volume whose root directory is intact.
\<close>

section \<open>Mounting\<close>

context block_device
begin

lemma mount_ok:
  assumes "dev_inv d" and "0 < capacity" and "bpb_from_bytes (content d 0) = Some b"
  shows "op_ok (mount dev 0) d \<lparr> bpb = b, fs_device = dev, partition_lba = 0 \<rparr> (content d)"
proof -
  obtain d' where "bd_read dev 0 (replicate 512 0) d = (Inr (content d 0), d')" "dev_inv d'" "content d' = content d"
    using read_sector_exact [OF assms(1,2), of "replicate 512 0"] by auto
  then show ?thesis
    using assms(3) by (auto simp: op_ok_def mount_def io_bind_app io_map_err_def)
qed

end

section \<open>Upper case and paths\<close>

lemma to_upper_idem [simp]: "to_upper_ascii (to_upper_ascii b) = to_upper_ascii b"
  unfolding to_upper_ascii_def by (auto simp: word_le_nat_alt unat_sub)

lemma to_upper_special [simp]:
  "to_upper_ascii b = 0x2F \<longleftrightarrow> b = 0x2F" "to_upper_ascii b = 0x2E \<longleftrightarrow> b = 0x2E"
  unfolding to_upper_ascii_def by (auto simp: word_le_nat_alt word_unat_eq_iff unat_sub)

lemma map_upper_special [simp]:
  "map to_upper_ascii p = [0x2E] \<longleftrightarrow> p = [0x2E]"
  "map to_upper_ascii p = [0x2E, 0x2E] \<longleftrightarrow> p = [0x2E, 0x2E]"
  by (auto simp: map_eq_Cons_conv)

lemma to_upper_83_map [simp]: "to_upper_83 (map to_upper_ascii n) = to_upper_83 n"
  by (simp add: to_upper_83_def comp_def)

lemma split_first_map:
  assumes "\<And>b. f b = c \<longleftrightarrow> b = c"
  shows "split_first c (map f p) = map_option (map_prod (map f) (map f)) (split_first c p)"
proof -
  have "c \<in> set (map f p) \<longleftrightarrow> c \<in> set p"
    using assms by (metis image_eqI image_iff set_map)
  then show ?thesis
    using assms by (auto simp: split_first_def takeWhile_map dropWhile_map comp_def map_tl)
qed

lemma path_split_map: "path_split (map to_upper_ascii p) = map_prod (map to_upper_ascii) (map to_upper_ascii) (path_split p)"
  by (simp add: path_split_def split_first_map split: option.split)

lemma resolve_loop_upper: "resolve_loop fs root cur (map to_upper_ascii p) d = resolve_loop fs root cur p d"
proof (induction p arbitrary: cur d rule: length_induct)
  case (1 p)
  show ?case
  proof (cases "p = []")
    case True
    then show ?thesis by simp
  next
    case False
    obtain c rest where s: "path_split p = (c, rest)" by (cases "path_split p")
    then have "length rest < length p" using path_split_rest False by metis
    then have IH: "resolve_loop fs root cur' (map to_upper_ascii rest) d' = resolve_loop fs root cur' rest d'" for cur' d'
      using 1 by blast
    show ?thesis
      using False
      by (subst (1 2) resolve_loop.simps) (simp add: path_split_map s IH split: prod.splits sum.splits option.splits)
  qed
qed

lemma trim_upper: "trim_start_slash (map to_upper_ascii p) = map to_upper_ascii (trim_start_slash p)"
  by (simp add: trim_start_slash_def dropWhile_map comp_def)

section \<open>File descriptors\<close>

definition fd_inv :: "'d VfsManager \<Rightarrow> bool" where
  "fd_inv v \<longleftrightarrow> distinct (map fd_num (file_table v)) \<and> (\<forall>f \<in> set (file_table v). 3 \<le> fd_num f \<and> fd_num f < next_fd v)
     \<and> 3 \<le> next_fd v"

text \<open>\<open>leaves J v op\<close>: run from the manager \<open>v\<close>, the call leaves a manager and a
  result related by \<open>J\<close>. Steps on the device keep the manager.\<close>

definition leaves :: "((vfs_fail + 'a) \<Rightarrow> 'd VfsManager \<Rightarrow> bool) \<Rightarrow> 'd VfsManager \<Rightarrow> ('d, 'a) vfs_st \<Rightarrow> bool" where
  "leaves J v op \<longleftrightarrow> (\<forall>d. J (fst (op (v, d))) (fst (snd (op (v, d)))))"

lemma leavesD: "leaves J v op \<Longrightarrow> op (v, d) = (r, (v', d')) \<Longrightarrow> J r v'"
  by (metis fst_conv leaves_def snd_conv)

lemma leaves_err: "J (Inl e) v \<Longrightarrow> leaves J v (io_err e)" and leaves_ret: "J (Inr x) v \<Longrightarrow> leaves J v (io_ret x)"
  by (simp_all add: leaves_def)

lemma leaves_bind_device:
  assumes "\<And>e. J (Inl e) v" and "\<And>x. leaves J v (f x)"
  shows "leaves J v (io_bind (on_device op) f)"
  unfolding leaves_def
proof
  fix d
  obtain r d' where "op v d = (r, d')" by (cases "op v d")
  then show "J (fst (io_bind (on_device op) f (v, d))) (fst (snd (io_bind (on_device op) f (v, d))))"
    using assms by (cases r) (simp_all add: io_bind_app on_device_def leaves_def)
qed

lemma leaves_bind:
  assumes "leaves K v p" and "\<And>e v'. K (Inl e) v' \<Longrightarrow> J (Inl e) v'"
    and "\<And>x v'. K (Inr x) v' \<Longrightarrow> leaves J v' (f x)"
  shows "leaves J v (io_bind p f)"
  unfolding leaves_def
proof
  fix d
  obtain r v' d' where p: "p (v, d) = (r, v', d')" by (cases "p (v, d)") auto
  then have "K r v'" by (rule leavesD [OF assms(1)])
  then show "J (fst (io_bind p f (v, d))) (fst (snd (io_bind p f (v, d))))"
    using assms(2,3) p by (cases r) (auto simp: io_bind_app leaves_def)
qed

lemma leaves_on_device: "(\<And>r. J r v) \<Longrightarrow> leaves J v (on_device op)"
  by (simp add: leaves_def on_device_def split: prod.split)

text \<open>Opening either fails and leaves the manager alone, or adds a descriptor with the next
  number at the end of the table.\<close>

definition opened :: "'d VfsManager \<Rightarrow> (vfs_fail + nat) \<Rightarrow> 'd VfsManager \<Rightarrow> bool" where
  "opened v r v' =
     (case r of Inl e \<Rightarrow> v' = v
      | Inr fd \<Rightarrow> fd = next_fd v \<and>
          (\<exists>f. fd_num f = fd \<and> fd_pos f = 0 \<and>
             v' = v \<lparr> next_fd := next_fd v + 1, file_table := file_table v @ [f] \<rparr>))"

lemma leaves_push_fd: "leaves (opened v) v (push_fd path mode sz c)"
  by (simp add: leaves_def push_fd_def opened_def)
    (metis FileDescriptor.select_convs(1,4))

lemma opened_Inl [simp]: "opened v (Inl e) v"
  by (simp add: opened_def)

lemma leaves_open: "leaves (opened v) v (vfs_open path mode)"
  unfolding vfs_open_def Let_def
  by (auto intro!: leaves_bind_device leaves_err leaves_push_fd split: prod.split option.split FileMode.split)

lemma find_index_fd_Some:
  "find_index_fd fd fs = Some i \<Longrightarrow> i < length fs \<and> fd_num (fs ! i) = fd"
  by (induction fs arbitrary: i) (auto split: if_splits)

text \<open>Writing changes at most the position and the size of the descriptor it writes to.\<close>

definition written :: "nat \<Rightarrow> 'd VfsManager \<Rightarrow> (vfs_fail + nat) \<Rightarrow> 'd VfsManager \<Rightarrow> bool" where
  "written fd v r v' \<longleftrightarrow>
     v' = v \<or> (\<exists>i f. i < length (file_table v) \<and> fd_num (file_table v ! i) = fd \<and> fd_num f = fd \<and>
       v' = v \<lparr> file_table := (file_table v)[i := f] \<rparr>)"

lemma leaves_write:
  fixes v :: "'d VfsManager"
  shows "leaves (written fd v) v (vfs_write fd data)"
proof (cases "find_index_fd fd (file_table v)")
  case None
  then show ?thesis by (simp add: leaves_def vfs_write_def written_def)
next
  case (Some i)
  let ?f = "file_table v ! i"
  note i = find_index_fd_Some [OF Some]
  show ?thesis
  proof (cases "fd_mode ?f = Read")
    case True
    with Some show ?thesis by (simp add: leaves_def vfs_write_def written_def Let_def)
  next
    case False
    let ?pos = "fd_pos ?f + length data"
    let ?size = "of_nat (max ?pos (unat (fd_size ?f))) :: u32"
    let ?v' = "v \<lparr> file_table := (file_table v)[i := ?f \<lparr> fd_pos := ?pos, fd_size := ?size \<rparr>] \<rparr>"
    have X: "leaves (\<lambda>r v'. v' = v) v (write_contents fs ?f data)" for fs
      unfolding write_contents_def Let_def
      by (auto intro!: leaves_on_device leaves_bind_device leaves_ret
          leaves_bind [where K = "\<lambda>r v'. v' = v"] split: prod.split)
    have U: "leaves (\<lambda>r v'. v' = ?v') v
        (\<lambda>(v, d). (Inr (), (v \<lparr> file_table := (file_table v)[i := ?f \<lparr> fd_pos := ?pos, fd_size := ?size \<rparr>] \<rparr>, d)))"
      by (simp add: leaves_def)
    have "fd_num (?f \<lparr> fd_pos := ?pos, fd_size := ?size \<rparr>) = fd" using i by simp
    with i have w: "written fd v r v" "written fd v r ?v'" for r
      unfolding written_def by blast+
    have eq: "vfs_write fd data (v, d) = io_bind (on_device vfs_fs) (\<lambda>fs. io_bind (write_contents fs ?f data) (\<lambda>_.
        io_bind (\<lambda>(v, d). (Inr (), (v \<lparr> file_table := (file_table v)[i := ?f \<lparr> fd_pos := ?pos, fd_size := ?size \<rparr>] \<rparr>, d)))
          (\<lambda>_. io_bind (if 0 < ?size then on_device (\<lambda>v. update_file_size v (fd_path ?f) ?size) else io_ret ())
          (\<lambda>_. io_ret (length data))))) (v, d)" for d
      using Some False by (simp add: vfs_write_def Let_def)
    have "leaves (written fd v) v (io_bind (on_device vfs_fs) (\<lambda>fs. io_bind (write_contents fs ?f data) (\<lambda>_.
        io_bind (\<lambda>(v, d). (Inr (), (v \<lparr> file_table := (file_table v)[i := ?f \<lparr> fd_pos := ?pos, fd_size := ?size \<rparr>] \<rparr>, d)))
          (\<lambda>_. io_bind (if 0 < ?size then on_device (\<lambda>v. update_file_size v (fd_path ?f) ?size) else io_ret ())
          (\<lambda>_. io_ret (length data))))))"
      using w
      by (auto intro!: leaves_bind_device leaves_bind [OF X] leaves_bind [OF U] leaves_ret
          leaves_bind [where K = "\<lambda>r v'. v' = ?v'"] leaves_on_device)
    then show ?thesis
      unfolding leaves_def eq .
  qed
qed

lemma fd_inv_opened: "fd_inv v \<Longrightarrow> opened v r v' \<Longrightarrow> fd_inv v'"
  by (fastforce simp: opened_def fd_inv_def split: sum.splits)

lemma fd_inv_written:
  assumes "fd_inv v" and "written fd v r v'"
  shows "fd_inv v'"
proof (cases "v' = v")
  case False
  then obtain i f where i: "i < length (file_table v)" "fd_num (file_table v ! i) = fd_num f"
      and v': "v' = v \<lparr> file_table := (file_table v)[i := f] \<rparr>"
    using assms(2) unfolding written_def by metis
  have "map fd_num ((file_table v)[i := f]) = map fd_num (file_table v)"
    using i by (simp add: map_update) (metis list_update_id nth_map)
  moreover have "\<exists>g \<in> set (file_table v). fd_num g = fd_num h" if "h \<in> set ((file_table v)[i := f])" for h
    using that i(2) set_update_subset_insert [of "file_table v" i f] nth_mem [OF i(1)] by (metis insertE subsetD)
  ultimately show ?thesis
    using assms(1) unfolding fd_inv_def v' by simp metis
qed (use assms in simp)

section \<open>Names and new entries\<close>

lemma valid_83_length: "valid_83 n \<Longrightarrow> length n \<le> 12"
  unfolding valid_83_def by linarith

lemma make_entry_ok:
  assumes v: "valid_83 n" and h: "hd n \<noteq> 0xE5"
  obtains e where "make_entry n attr c sz = io_ret e" "de_wf e" "full_name_upper e = n" "\<not> is_end e"
    "\<not> is_deleted e" "de_attributes e = attr" "first_cluster e = c" "file_size e = sz"
proof -
  have n: "n \<noteq> []" "list_all name_char n" using v by (simp_all add: valid_83_def)
  have len: "length n < 2 ^ 64" using valid_83_length [OF v] by simp
  obtain e0 where e0: "set_name_83 zeroed_entry n = Some e0"
    by (rule set_name_83_Some [OF n(1) len])
  let ?e = "(set_first_cluster (e0 \<lparr> de_attributes := attr \<rparr>) c) \<lparr> file_size := sz \<rparr>"
  have "full_name_upper e0 = n"
    using full_name_upper_set_name_83 [OF n(1) len e0 n(2)] trunc_83_id_iff [OF n] v by simp
  then have fn: "full_name_upper ?e = n" by (auto simp: full_name_upper_def split: if_splits)
  have "de_name ?e ! 0 = (if dot_pos n = 0 then 0x20 else n ! 0)"
    using set_name_83_fields(1) [OF n(1) len e0] n(1) dot_pos_le [of n]
    by (auto simp: nth_append)
  moreover have "n ! 0 \<noteq> 0xE5" "n ! 0 \<noteq> 0"
    using h n by (cases n; simp add: name_char_def)+
  ultimately have "\<not> is_end ?e" "\<not> is_deleted ?e"
    unfolding is_end_def is_deleted_def by simp_all
  moreover have "de_wf ?e"
    using set_name_83_wf [OF n(1) len e0] by (simp add: de_wf_def)
  moreover have "first_cluster ?e = c"
    using first_cluster_set_first_cluster [of "e0 \<lparr> de_attributes := attr \<rparr>" c]
    by (simp add: first_cluster_def)
  moreover have "make_entry n attr c sz = io_ret ?e"
    by (rule ext) (simp add: make_entry_def ok_or_def e0 io_bind_app)
  moreover have "de_attributes ?e = attr" "file_size ?e = sz" by simp_all
  ultimately show thesis
    using that [of ?e] fn by blast
qed

lemma intact_chain_cong_set:
  assumes "\<And>x. x \<in> set cs \<Longrightarrow> get x = get' x"
  shows "intact_chain b get cs = intact_chain b get' cs"
proof (cases "cs = []")
  case False
  then have "get (last cs) = get' (last cs)" and "\<And>i. i < length cs \<Longrightarrow> get (cs ! i) = get' (cs ! i)"
    using assms by simp_all
  then show ?thesis by (auto simp: intact_chain_def linked_def)
qed (simp add: intact_chain_def)

lemma dir_entries_cong_set:
  "(\<And>x. x \<in> set cs \<Longrightarrow> cluster_data fs m x = cluster_data fs m' x) \<Longrightarrow> dir_entries fs m cs = dir_entries fs m' cs"
  by (induction cs) simp_all

text \<open>A name in the root directory.\<close>

definition root_name :: "bytes \<Rightarrow> bytes \<Rightarrow> bool" where
  "root_name path name \<longleftrightarrow> trim_start_slash path = name \<and> name \<noteq> [] \<and> 0x2F \<notin> set name"

lemma resolve_parent_root: "root_name path name \<Longrightarrow> resolve_parent v path = io_ret (vfs_root v, name)"
  by (simp add: resolve_parent_def root_name_def split_last_def split_first_def)

lemma root_name_nonempty: "root_name path name \<Longrightarrow> name \<noteq> []"
  by (simp add: root_name_def)

context block_device
begin

lemma op_ok_lift: "op_ok p d x m \<Longrightarrow> op_ok (lift_fat e p) d x m"
  by (auto simp: op_ok_def lift_fat_def)

lemma op_ok_fs: "fat_fs v = Some fs \<Longrightarrow> dev_inv d \<Longrightarrow> op_ok (vfs_fs v) d fs (content d)"
  by (simp add: op_ok_def vfs_fs_def ok_or_def)

text \<open>A new file of at most one cluster.\<close>

lemma allocate_and_write_ok:
  assumes m: "mounted_on dev capacity fs" and d: "dev_inv d"
    and c: "first_free (bpb fs) (fat_entry fs (content d)) = Some c"
    and len: "length data \<le> cluster_size_bytes (bpb fs)"
  shows "\<exists>sec. op_ok (allocate_and_write fs data) d c sec \<and> intact_chain (bpb fs) (fat_entry fs sec) [c] \<and>
    take (length data) (cluster_data fs sec c) = data \<and>
    (\<forall>x. valid_cluster (bpb fs) x \<and> x \<noteq> c \<longrightarrow>
       fat_entry fs sec x = fat_entry fs (content d) x \<and> cluster_data fs sec x = cluster_data fs (content d) x) \<and>
    (\<forall>l. is_reserved_sector fs l \<longrightarrow> sec l = content d l)"
proof -
  let ?k = "cluster_size_bytes (bpb fs)"
  note g = mountedD(2) [OF m]
  have cv: "valid_cluster (bpb fs) c" by (rule first_free_Some(1) [OF g c])
  let ?m1 = "cluster_put fs (content d) c (replicate ?k 0)"
  let ?m2 = "fat_put fs ?m1 c FAT32_EOC"
  have wf1: "sectors_wf ?m1" by (rule cluster_put_buf_wf [OF g content_wf [OF d]]) simp
  have eoc: "FAT32_EOC AND 0x0FFFFFFF = FAT32_EOC" by (simp add: FAT32_EOC_def)
  have fe: "fat_entry fs ?m2 x = (if x = c then FAT32_EOC else fat_entry fs (content d) x)"
    if "valid_cluster (bpb fs) x" for x
    unfolding fat_entry_fat_put [OF g cv that wf1] fat_entry_cluster_put [OF g cv that] eoc ..
  have cd: "cluster_data fs ?m2 x = (if x = c then replicate ?k 0 else cluster_data fs (content d) x)"
    if "valid_cluster (bpb fs) x" for x
    unfolding cluster_data_fat_put [OF g cv that] cluster_data_cluster_put [OF g cv that] by simp
  have i2: "intact_chain (bpb fs) (fat_entry fs ?m2) [c]"
    using cv by (simp add: intact_chain_def linked_def fe)
  have r2: "?m2 l = content d l" if "is_reserved_sector fs l" for l
    using reserved_fat_put [OF g cv that] reserved_cluster_put [OF g cv that] by simp
  obtain d1 where a1: "alloc_cluster fs d = (Inr c, d1)" "dev_inv d1" "content d1 = ?m1"
    using alloc_cluster_ok [OF m d c] by (rule op_okE)
  obtain d2 where a2: "write_fat_entry fs c FAT32_EOC d1 = (Inr (), d2)" "dev_inv d2" "content d2 = ?m2"
    using write_fat_entry_ok [OF m cv a1(2)] a1(3) by (auto elim!: op_okE)
  show ?thesis
  proof (cases "data = []")
    case True
    then have "op_ok (allocate_and_write fs data) d c ?m2"
      using a1 a2 by (auto simp: op_ok_def allocate_and_write_def io_bind_app)
    with True i2 fe cd r2 show ?thesis by auto
  next
    case False
    let ?m3 = "file_put fs [c] data ?m2"
    have z: "clusters_needed ?k (length data) - length [c] = 0"
      using clusters_needed_le [OF cluster_size_pos [OF m], of "length data" 1] len by simp
    have "op_ok (write_file_data fs c data) d2 () ?m3"
      using write_file_data_ok [OF m a2(2), of c "[]" 0 data c] i2 a2(3) z by simp
    then have op: "op_ok (allocate_and_write fs data) d c ?m3"
      using a1 a2 False by (auto simp: op_ok_def allocate_and_write_def io_bind_app)
    have v1: "list_all (valid_cluster (bpb fs)) [c]" using cv by simp
    have wf2: "sectors_wf ?m2" by (rule fat_put_wf [OF wf1])
    have "intact_chain (bpb fs) (fat_entry fs ?m3) [c]"
      using file_put_intact [OF g i2, of 0 c ?m2 data] wf2 by (simp add: grown_def)
    moreover have "take (length data) (cluster_data fs ?m3 c) = data"
      using file_bytes_file_put [OF g v1, of data ?m2] len by (simp add: file_bytes_def)
    moreover have "fat_entry fs ?m3 x = fat_entry fs (content d) x \<and> cluster_data fs ?m3 x = cluster_data fs (content d) x"
      if "valid_cluster (bpb fs) x \<and> x \<noteq> c" for x
      using file_put_other [OF g v1 wf2, of x data] fe [of x] cd [of x] that by simp
    moreover have "?m3 l = content d l" if "is_reserved_sector fs l" for l
      using reserved_file_put [OF g v1 that] r2 [OF that] by simp
    ultimately show ?thesis using op by blast
  qed
qed

text \<open>The state of the volume after a new file has been created in the root directory.\<close>

lemma create_file_ok:
  assumes m: "mounted_on dev capacity fs" and d: "dev_inv d" and v: "fat_fs v = Some fs"
    and i: "intact_chain (bpb fs) (fat_entry fs (content d)) (vfs_root v # cs)"
    and clean: "dir_clean (dir_entries fs (content d) (vfs_root v # cs))"
    and p: "root_name path name" and n: "valid_83 (to_upper_83 name)" "hd (to_upper_83 name) \<noteq> 0xE5"
    and new: "dir_lookup (dir_entries fs (content d) (vfs_root v # cs)) (to_upper_83 name) = None"
    and slot: "dir_slot (dir_entries fs (content d) (vfs_root v # cs)) = Some k"
    and c: "first_free (bpb fs) (fat_entry fs (content d)) = Some c"
    and len: "length data \<le> cluster_size_bytes (bpb fs)"
  shows "\<exists>sec e. op_ok (create_file v path data) d () sec \<and>
    intact_chain (bpb fs) (fat_entry fs sec) (vfs_root v # cs) \<and>
    intact_chain (bpb fs) (fat_entry fs sec) [c] \<and> take (length data) (cluster_data fs sec c) = data \<and>
    first_cluster e = c \<and> file_size e = of_nat (length data) \<and> \<not> is_directory e \<and>
    (\<forall>n'. dir_lookup (dir_entries fs sec (vfs_root v # cs)) n' =
       (if n' = to_upper_83 name then Some e else dir_lookup (dir_entries fs (content d) (vfs_root v # cs)) n')) \<and>
    (\<forall>l. is_reserved_sector fs l \<longrightarrow> sec l = content d l)"
proof -
  note g = mountedD(2) [OF m]
  let ?cs = "vfs_root v # cs" and ?u = "to_upper_83 name"
  have vl: "list_all (valid_cluster (bpb fs)) ?cs" using i by (simp add: intact_chain_def)
  have cn: "c \<notin> set ?cs"
    using intact_not_free [OF g i, of c] first_free_Some(2) [OF g c] by auto
  obtain e where e: "make_entry ?u 0x20 c (of_nat (length data)) = (io_ret e :: ('d, Fat32DirEntry) vfs_io)"
      "de_wf e" "full_name_upper e = ?u" "\<not> is_end e" "\<not> is_deleted e" "de_attributes e = 0x20"
      "first_cluster e = c" "file_size e = of_nat (length data)"
    by (rule make_entry_ok [OF n])
  have vis: "visible e" "\<not> is_directory e"
    using e(5,6) by (simp_all add: visible_def is_long_name_def is_volume_label_def is_directory_def attr_defs)
  obtain d1 where f: "find_entry fs (vfs_root v) ?u d = (Inr None, d1)" "dev_inv d1" "content d1 = content d"
    using find_entry_ok [OF m d i, of ?u] new by (auto simp del: dir_entries_Cons elim!: op_okE)
  obtain sec2 where a: "op_ok (allocate_and_write fs data) d1 c sec2" "intact_chain (bpb fs) (fat_entry fs sec2) [c]"
      "take (length data) (cluster_data fs sec2 c) = data"
      "\<And>x. valid_cluster (bpb fs) x \<Longrightarrow> x \<noteq> c \<Longrightarrow> fat_entry fs sec2 x = fat_entry fs (content d) x \<and>
         cluster_data fs sec2 x = cluster_data fs (content d) x"
      "\<And>l. is_reserved_sector fs l \<Longrightarrow> sec2 l = content d l"
    using allocate_and_write_ok [OF m f(2) _ len] c f(3) by metis
  obtain d2 where d2: "allocate_and_write fs data d1 = (Inr c, d2)" "dev_inv d2" "content d2 = sec2"
    using a(1) by (rule op_okE)
  have same: "x \<in> set ?cs \<Longrightarrow> valid_cluster (bpb fs) x \<and> x \<noteq> c" for x
    using vl cn by (auto simp: list_all_iff)
  have i2: "intact_chain (bpb fs) (fat_entry fs (content d2)) ?cs"
    unfolding d2(3) using intact_chain_cong_set [of ?cs "fat_entry fs sec2" "fat_entry fs (content d)"] same a(4) i
    by blast
  have es: "dir_entries fs (content d2) ?cs = dir_entries fs (content d) ?cs"
    unfolding d2(3) using same a(4) by (intro dir_entries_cong_set) blast
  obtain sec where s: "op_ok (add_entry fs (vfs_root v) e) d2 () sec" "dir_step fs sec2 ?cs sec"
      "dir_entries fs sec ?cs = (dir_entries fs (content d) ?cs)[k := e]"
    using add_entry_slot [OF m d2(2) e(2) i2, unfolded es, OF slot] unfolding d2(3) by blast
  have "op_ok (create_file v path data) d () sec"
  proof -
    have "create_file v path data d = lift_fat VfsIoError (add_entry fs (vfs_root v) e) d2"
      using f(1) d2(1) e(1)
      by (simp add: create_file_def vfs_fs_def ok_or_def v io_bind_app resolve_parent_root [OF p]
          lift_fat_def io_map_err_def Let_def root_name_nonempty [OF p])
    then show ?thesis
      using op_ok_lift [OF s(1), of VfsIoError] by (simp add: op_ok_def)
  qed
  moreover have "intact_chain (bpb fs) (fat_entry fs sec) ?cs" "intact_chain (bpb fs) (fat_entry fs sec) [c]"
    using dir_step_intact [OF m _ vl s(2)] i2 a(2) unfolding d2(3) by blast+
  moreover have "take (length data) (cluster_data fs sec c) = data"
    using dir_step_frame(2) [OF m vl s(2) first_free_Some(1) [OF g c] cn] a(3) by simp
  moreover have "dir_lookup (take k (dir_entries fs (content d) ?cs)) ?u = None"
    using new dir_lookup_append [of "take k (dir_entries fs (content d) ?cs)" "drop k (dir_entries fs (content d) ?cs)"]
    by (auto simp del: dir_entries_Cons split: option.splits if_splits)
  then have "dir_lookup (dir_entries fs sec ?cs) n' =
      (if n' = ?u then Some e else dir_lookup (dir_entries fs (content d) ?cs) n')" for n'
    unfolding s(3) dir_lookup_add [OF slot clean vis(1) e(4)] e(3) by simp
  moreover have "sec l = content d l" if "is_reserved_sector fs l" for l
    using dir_step_reserved [OF m vl s(2) that] a(5) [OF that] by simp
  ultimately show ?thesis
    using e(7,8) vis(2) by blast
qed

lemma read_file_content_ok:
  assumes m: "mounted_on dev capacity fs" and d: "dev_inv d" and v: "fat_fs v = Some fs"
    and i: "intact_chain (bpb fs) (fat_entry fs (content d)) (vfs_root v # cs)"
    and p: "root_name path name"
    and e: "dir_lookup (dir_entries fs (content d) (vfs_root v # cs)) (to_upper_83 name) = Some e"
      "\<not> is_directory e" "first_cluster e = c" "file_size e = of_nat (length data)"
    and c: "intact_chain (bpb fs) (fat_entry fs (content d)) [c]" "take (length data) (cluster_data fs (content d) c) = data"
    and len: "length data \<le> cluster_size_bytes (bpb fs)" "length data < 2 ^ 32"
  shows "op_ok (read_file_content v path) d data (content d)"
proof -
  obtain d1 where f: "find_entry fs (vfs_root v) (to_upper_83 name) d = (Inr (Some e), d1)" "dev_inv d1" "content d1 = content d"
    using find_entry_ok [OF m d i, of "to_upper_83 name"] e(1) by (auto simp del: dir_entries_Cons elim!: op_okE)
  have un: "unat (file_size e) = length data" and z: "file_size e = 0 \<longleftrightarrow> data = []"
    using len(2) unfolding e(4) by (auto simp: unat_of_nat word_unat_eq_iff)
  show ?thesis
  proof (cases "data = []")
    case True
    then show ?thesis
      using f e(2) z by (auto simp: op_ok_def read_file_content_def vfs_fs_def ok_or_def v io_bind_app
          resolve_parent_root [OF p] lift_fat_def io_map_err_def root_name_nonempty [OF p])
  next
    case False
    have mn: "length data = min (min (unat (file_size e)) (length [c] * cluster_size_bytes (bpb fs)))
        (length (replicate (unat (file_size e)) (0::u8)))"
      using len(1) un by simp
    obtain d2 where r: "read_file fs c (file_size e) (replicate (unat (file_size e)) 0) d1 = (Inr (length data, data), d2)"
        "dev_inv d2" "content d2 = content d"
      using read_file_ok [OF m f(2) _ mn] c f(3) un by (auto simp: file_bytes_def elim!: op_okE)
    then show ?thesis
      using f e(2,3) z False by (auto simp: op_ok_def read_file_content_def vfs_fs_def ok_or_def v io_bind_app
          resolve_parent_root [OF p] lift_fat_def io_map_err_def root_name_nonempty [OF p])
  qed
qed

end

section \<open>A file that is stored\<close>

text \<open>A file of at most one cluster in the root directory, with the name in its upper-case form.\<close>

definition stored_file :: "'d Fat32Fs \<Rightarrow> sectors \<Rightarrow> u32 list \<Rightarrow> bytes \<Rightarrow> bytes \<Rightarrow> bool" where
  "stored_file fs m cs n data \<longleftrightarrow> intact_chain (bpb fs) (fat_entry fs m) cs \<and>
     length data \<le> cluster_size_bytes (bpb fs) \<and> length data < 2 ^ 32 \<and>
     (\<exists>e. dir_lookup (dir_entries fs m cs) n = Some e \<and> \<not> is_directory e \<and> file_size e = of_nat (length data) \<and>
        intact_chain (bpb fs) (fat_entry fs m) [first_cluster e] \<and>
        take (length data) (cluster_data fs m (first_cluster e)) = data)"

context block_device
begin

lemma read_stored_file:
  assumes m: "mounted_on dev capacity fs" and d: "dev_inv d" and v: "fat_fs v = Some fs" and p: "root_name path name"
    and s: "stored_file fs (content d) (vfs_root v # cs) (to_upper_83 name) data"
  shows "op_ok (read_file_content v path) d data (content d)"
  using s unfolding stored_file_def by (blast intro: read_file_content_ok [OF m d v _ p])

lemma create_stored_file:
  fixes v :: "'d VfsManager"
  assumes m: "mounted_on dev capacity fs" and d: "dev_inv d" and v: "fat_fs v = Some fs"
    and i: "intact_chain (bpb fs) (fat_entry fs (content d)) (vfs_root v # cs)"
    and clean: "dir_clean (dir_entries fs (content d) (vfs_root v # cs))"
    and p: "root_name path name" and n: "valid_83 (to_upper_83 name)" "hd (to_upper_83 name) \<noteq> 0xE5"
    and new: "dir_lookup (dir_entries fs (content d) (vfs_root v # cs)) (to_upper_83 name) = None"
    and slot: "dir_slot (dir_entries fs (content d) (vfs_root v # cs)) \<noteq> None"
    and c: "first_free (bpb fs) (fat_entry fs (content d)) \<noteq> None"
    and len: "length data \<le> cluster_size_bytes (bpb fs)" "length data < 2 ^ 32"
  obtains d1 where "create_file v path data d = (Inr (), d1)" "dev_inv d1"
    "stored_file fs (content d1) (vfs_root v # cs) (to_upper_83 name) data"
    "\<forall>n'. n' \<noteq> to_upper_83 name \<longrightarrow> dir_lookup (dir_entries fs (content d1) (vfs_root v # cs)) n' =
       dir_lookup (dir_entries fs (content d) (vfs_root v # cs)) n'"
    "\<forall>l. is_reserved_sector fs l \<longrightarrow> content d1 l = content d l"
proof -
  obtain c k where ck: "first_free (bpb fs) (fat_entry fs (content d)) = Some c"
      "dir_slot (dir_entries fs (content d) (vfs_root v # cs)) = Some k"
    using slot c by blast
  obtain sec e where s: "op_ok (create_file v path data) d () sec"
      "intact_chain (bpb fs) (fat_entry fs sec) (vfs_root v # cs)" "intact_chain (bpb fs) (fat_entry fs sec) [c]"
      "take (length data) (cluster_data fs sec c) = data" "first_cluster e = c" "file_size e = of_nat (length data)"
      "\<not> is_directory e"
      "\<And>n'. dir_lookup (dir_entries fs sec (vfs_root v # cs)) n' =
        (if n' = to_upper_83 name then Some e else dir_lookup (dir_entries fs (content d) (vfs_root v # cs)) n')"
      "\<And>l. is_reserved_sector fs l \<Longrightarrow> sec l = content d l"
    using create_file_ok [OF m d v i clean p n new ck(2,1) len(1)] by blast
  obtain d1 where d1: "create_file v path data d = (Inr (), d1)" "dev_inv d1" "content d1 = sec"
    using s(1) by (rule op_okE)
  have "stored_file fs sec (vfs_root v # cs) (to_upper_83 name) data"
    using s(2-7) s(8) [of "to_upper_83 name"] len by (auto simp: stored_file_def simp del: dir_entries_Cons)
  with d1 s(8,9) that show thesis by simp
qed

end

end
