(* ===== verification/Vfs_Files.thy ===== *)
theory Vfs_Files
  imports Vfs_Laws
begin

text \<open>
  Reading and writing through a file descriptor, on a file of the root directory whose
  chain of clusters is intact.
\<close>

section \<open>The size in the directory\<close>

definition resized :: "u32 \<Rightarrow> Fat32DirEntry \<Rightarrow> Fat32DirEntry" where
  "resized sz e = e \<lparr> file_size := sz \<rparr>"

lemma resized_simps [simp]:
  "is_end (resized sz e) = is_end e" "visible (resized sz e) = visible e"
  "full_name_upper (resized sz e) = full_name_upper e" "de_wf (resized sz e) = de_wf e"
  "first_cluster (resized sz e) = first_cluster e" "is_directory (resized sz e) = is_directory e"
  "file_size (resized sz e) = sz"
  by (simp_all add: resized_def is_end_def visible_def is_deleted_def is_long_name_def is_volume_label_def
      full_name_upper_def de_wf_def first_cluster_def is_directory_def)

lemma dir_index_resize: "dir_index (es[k := resized sz (es ! k)]) n = dir_index es n"
proof (induction es arbitrary: k)
  case (Cons e es)
  then show ?case by (cases k) simp_all
qed simp

lemma dir_lookup_resize:
  assumes "dir_index es n = Some k"
  shows "dir_lookup (es[k := resized sz (es ! k)]) n' =
    (if n' = n then map_option (resized sz) (dir_lookup es n) else dir_lookup es n')"
proof (cases "dir_index es n'")
  case (Some k')
  have "full_name_upper (es ! k') = n'" "full_name_upper (es ! k) = n"
    using dir_index_Some [OF Some] dir_index_Some [OF assms] by blast+
  then have "k' = k \<longleftrightarrow> n' = n"
    using Some assms by (metis option.inject)
  with Some assms dir_index_Some [OF assms] show ?thesis
    by (auto simp: dir_lookup_def dir_index_resize)
next
  case None
  with assms show ?thesis by (auto simp: dir_lookup_def dir_index_resize)
qed

context block_device
begin

lemma update_size_loop_ok:
  assumes m: "mounted_on dev capacity fs"
    and "list_all (valid_cluster (bpb fs)) cs" and "distinct cs" and "dev_inv d"
    and "dir_index (dir_entries fs (content d) cs) n = Some k"
  shows "\<exists>sec'. op_ok (update_size_loop fs cs n sz) d () sec' \<and> dir_step fs (content d) cs sec' \<and>
    dir_entries fs sec' cs =
      (dir_entries fs (content d) cs)[k := resized sz (dir_entries fs (content d) cs ! k)]"
  using assms(2-5)
proof (induction cs arbitrary: d k)
  case Nil
  then show ?case by simp
next
  case (Cons c cs)
  let ?D = "cluster_data fs (content d) c"
  let ?es = "cluster_entries ?D"
  note len = cluster_data_length_ok [OF m Cons.prems(3), of c]
  have v: "valid_cluster (bpb fs) c" "list_all (valid_cluster (bpb fs)) cs" "distinct cs"
    using Cons.prems(1,2) by simp_all
  obtain d' where rd: "read_cluster fs c (replicate (cluster_size_bytes (bpb fs)) 0) d = (Inr ?D, d')"
      and d': "dev_inv d'" "content d' = content d"
    using read_cluster_zero_ok [OF m v(1) Cons.prems(3)] by (rule op_okE)
  note sc = scan_name_cluster [of ?D n, folded len]
  show ?case
  proof (cases "dir_index ?es n")
    case (Some i)
    then have i: "i < length ?D div 32" and k: "k = i"
      using dir_index_Some [of ?es n i] Cons.prems(4) by (simp_all add: dir_index_append)
    have w: "de_wf (resized sz (?es ! i))"
      using cluster_entries_wf [of ?D] i by (simp add: list_all_length)
    let ?x = "patch_entry ?D (i * 32) (de_encode (resized sz (?es ! i)))"
    have x: "length ?x = cluster_size_bytes (bpb fs)"
      using i length_de_encode [OF w] unfolding len by (simp add: patch_entry_def)
    obtain d'' where wr: "write_cluster fs c ?x d' = (Inr (), d'')" "dev_inv d''"
        "content d'' = cluster_put fs (content d) c ?x"
      using write_cluster_ok [OF m v(1) d'(1) x] d'(2) by (auto elim!: op_okE)
    have "op_ok (update_size_loop fs (c # cs) n sz) d () (cluster_put fs (content d) c ?x)"
      using wr Some by (auto simp: op_ok_def io_bind_app rd sc lift_fat_def io_map_err_def resized_def)
    moreover have "dir_step fs (content d) (c # cs) (cluster_put fs (content d) c ?x)"
      by (rule dir_stepI [OF _ x]) simp
    moreover have "dir_entries fs (cluster_put fs (content d) c ?x) (c # cs) =
        (dir_entries fs (content d) (c # cs))[k := resized sz (dir_entries fs (content d) (c # cs) ! k)]"
      using dir_entries_put_here [OF m Cons.prems(1,2) x] cluster_entries_patch [OF i w] i k
      by (simp add: list_update_append nth_append)
    ultimately show ?thesis by blast
  next
    case None
    then obtain k' where ne: "\<not> list_ex is_end ?es"
        and k': "dir_index (dir_entries fs (content d) cs) n = Some k'" "k = length ?es + k'"
      using Cons.prems(4) by (auto simp: dir_index_append split: if_splits)
    then obtain sec' where sec': "op_ok (update_size_loop fs cs n sz) d' () sec'"
        "dir_step fs (content d) cs sec'" "dir_entries fs sec' cs =
          (dir_entries fs (content d) cs)[k' := resized sz (dir_entries fs (content d) cs ! k')]"
      using Cons.IH [OF v(2,3) d'(1)] d'(2) by metis
    have "op_ok (update_size_loop fs (c # cs) n sz) d () sec'"
      using sec'(1) None ne by (simp add: op_ok_def io_bind_app rd sc lift_fat_def io_map_err_def)
    moreover have "dir_step fs (content d) (c # cs) sec'"
      using sec'(2) by (auto simp: dir_step_def)
    moreover have "dir_entries fs sec' (c # cs) =
        (dir_entries fs (content d) (c # cs))[k := resized sz (dir_entries fs (content d) (c # cs) ! k)]"
    proof -
      obtain a x where a: "a \<in> set cs" "sec' = cluster_put fs (content d) a x"
        using sec'(2) by (auto simp: dir_step_def)
      show ?thesis
        using dir_entries_put_later [OF m Cons.prems(1,2) a(1)] sec'(3) unfolding a(2) k'(2)
        by (simp add: list_update_append nth_append)
    qed
    ultimately show ?thesis by blast
  qed
qed

lemma update_file_size_ok:
  assumes m: "mounted_on dev capacity fs" and d: "dev_inv d" and v: "fat_fs v = Some fs"
    and i: "intact_chain (bpb fs) (fat_entry fs (content d)) (vfs_root v # cs)"
    and p: "root_name path name"
    and k: "dir_index (dir_entries fs (content d) (vfs_root v # cs)) (to_upper_83 name) = Some k"
  shows "\<exists>sec'. op_ok (update_file_size v path sz) d () sec' \<and> dir_step fs (content d) (vfs_root v # cs) sec' \<and>
    (\<forall>n. dir_lookup (dir_entries fs sec' (vfs_root v # cs)) n =
       (if n = to_upper_83 name then map_option (resized sz) (dir_lookup (dir_entries fs (content d) (vfs_root v # cs)) n)
        else dir_lookup (dir_entries fs (content d) (vfs_root v # cs)) n))"
proof -
  let ?cs = "vfs_root v # cs"
  have vl: "list_all (valid_cluster (bpb fs)) ?cs" "distinct ?cs" using i by (simp_all add: intact_chain_def)
  obtain d1 where rc: "read_chain fs (vfs_root v) d = (Inr ?cs, d1)" and d1: "dev_inv d1" "content d1 = content d"
    using read_chain_intact [OF m d i] by (rule op_okE)
  obtain sec' where s: "op_ok (update_size_loop fs ?cs (to_upper_83 name) sz) d1 () sec'"
      "dir_step fs (content d) ?cs sec'"
      "dir_entries fs sec' ?cs = (dir_entries fs (content d) ?cs)[k := resized sz (dir_entries fs (content d) ?cs ! k)]"
    using update_size_loop_ok [OF m vl d1(1)] k unfolding d1(2) by blast
  have "op_ok (update_file_size v path sz) d () sec'"
    using s(1) by (auto simp: update_file_size_def op_ok_def io_bind_app vfs_fs_def ok_or_def v rc lift_fat_def
        io_map_err_def resolve_parent_root [OF p] root_name_nonempty [OF p] simp del: update_size_loop.simps)
  moreover have "dir_lookup (dir_entries fs sec' ?cs) n =
      (if n = to_upper_83 name then map_option (resized sz) (dir_lookup (dir_entries fs (content d) ?cs) n)
       else dir_lookup (dir_entries fs (content d) ?cs) n)" for n
    unfolding s(3) dir_lookup_resize [OF k] by simp
  ultimately show ?thesis using s(2) by blast
qed


section \<open>Reading\<close>

lemma vfs_read_ok:
  assumes m: "mounted_on dev capacity fs" and d: "dev_inv d" and v: "fat_fs v = Some fs"
    and f: "find (\<lambda>f. fd_num f = fd) (file_table v) = Some f"
    and i: "intact_chain (bpb fs) (fat_entry fs (content d)) (fd_cluster f # cs)"
    and len: "unat (fd_size f) \<le> length (fd_cluster f # cs) * cluster_size_bytes (bpb fs)"
    and n: "n = min (length buf) (unat (fd_size f) - fd_pos f)"
  shows "op_ok (vfs_read v fd buf) d
    (n, take n (drop (fd_pos f) (file_bytes fs (content d) (fd_cluster f # cs))) @ drop n buf) (content d)"
proof (cases "n = 0")
  case True
  show ?thesis
  proof (cases "unat (fd_size f) - fd_pos f = 0")
    case True
    with n d show ?thesis
      by (simp add: vfs_read_def op_ok_def ok_or_def f vfs_fs_def v io_bind_app)
  next
    case nz: False
    with True n have b: "buf = []" by (auto simp: min_def split: if_splits)
    let ?sz = "fd_size f"
    have mn: "unat ?sz = min (min (unat ?sz) (length (fd_cluster f # cs) * cluster_size_bytes (bpb fs)))
        (length (replicate (unat ?sz) (0::u8)))" using len by simp
    obtain x d' where "read_file fs (fd_cluster f) ?sz (replicate (unat ?sz) 0) d = (Inr x, d')" "dev_inv d'"
        "content d' = content d"
      using read_file_ok [OF m d i mn] by (auto simp del: length_Cons elim!: op_okE)
    with nz b n show ?thesis
      by (auto simp: vfs_read_def op_ok_def ok_or_def f vfs_fs_def v io_bind_app lift_fat_def io_map_err_def
          Let_def split: prod.splits)
  qed
next
  case False
  let ?sz = "fd_size f" and ?B = "file_bytes fs (content d) (fd_cluster f # cs)"
  have mn: "unat ?sz = min (min (unat ?sz) (length (fd_cluster f # cs) * cluster_size_bytes (bpb fs)))
      (length (replicate (unat ?sz) (0::u8)))" using len by simp
  obtain d' where r: "read_file fs (fd_cluster f) ?sz (replicate (unat ?sz) 0) d = (Inr (unat ?sz, take (unat ?sz) ?B), d')"
      "dev_inv d'" "content d' = content d"
    using read_file_ok [OF m d i mn] by (auto elim!: op_okE)
  have lt: "fd_pos f < unat ?sz" "0 < n" "fd_pos f + n \<le> unat ?sz" using False n by auto
  have e: "min (fd_pos f + n) (unat ?sz) - fd_pos f = n" using lt by simp
  have sl: "slice (take (unat ?sz) ?B) (fd_pos f) n = take n (drop (fd_pos f) ?B)"
    using lt(3) by (simp add: slice_def drop_take min_def)
  show ?thesis
    using r lt by (simp add: vfs_read_def op_ok_def ok_or_def f vfs_fs_def v io_bind_app lift_fat_def io_map_err_def
        Let_def n [symmetric] e sl)
qed

section \<open>Writing\<close>

end

text \<open>The bytes a write hands to the file system: at position zero the data alone, elsewhere the
  file with the data merged in.\<close>

definition written_bytes :: "bytes \<Rightarrow> FileDescriptor \<Rightarrow> bytes \<Rightarrow> bytes" where
  "written_bytes old f data =
     (if fd_pos f = 0 then data
      else merge_data (take (unat (fd_size f)) old
        @ replicate (max (fd_pos f + length data) (unat (fd_size f)) - unat (fd_size f)) 0) (fd_pos f) data)"

lemma length_merge_data:
  "pos \<le> length full \<Longrightarrow> length (merge_data full pos data) = length full"
  by (auto simp: merge_data_def Let_def min_def)

context block_device
begin

text \<open>The first half of a write: the device after the bytes have reached the clusters.\<close>

lemma write_contents_ok:
  fixes v :: "'d VfsManager"
  assumes m: "mounted_on dev capacity fs" and d: "dev_inv d"
    and i: "intact_chain (bpb fs) (fat_entry fs (content d)) (fd_cluster f # fcs)"
    and C: "C = length (fd_cluster f # fcs) * cluster_size_bytes (bpb fs)"
    and len: "unat (fd_size f) \<le> C" "fd_pos f + length data \<le> C"
    and B: "B = written_bytes (file_bytes fs (content d) (fd_cluster f # fcs)) f data"
  shows "\<exists>d'. write_contents fs f data (v, d) = (Inr (), (v, d')) \<and> dev_inv d' \<and>
    content d' = file_put fs (fd_cluster f # fcs) B (content d) \<and> length B \<le> C"
proof -
  let ?k = "cluster_size_bytes (bpb fs)" and ?cl = "fd_cluster f # fcs"
  let ?N = "max (fd_pos f + length data) (unat (fd_size f))"
  let ?old = "file_bytes fs (content d) ?cl"
  have k: "0 < ?k" by (rule cluster_size_pos [OF m])
  have put: "\<exists>d'. write_file_data fs (fd_cluster f) b d1 = (Inr (), d') \<and> dev_inv d' \<and>
      content d' = file_put fs ?cl b (content d)"
    if "dev_inv d1" "content d1 = content d" "length b \<le> C" for d1 b
  proof -
    have z: "0 = clusters_needed ?k (length b) - length ?cl"
      using clusters_needed_le [OF k, of "length b" "length ?cl"] that(3) by (simp add: C)
    show ?thesis
      using write_file_data_ok [OF m that(1) _ z, of 0] i that(2) by (auto simp: op_ok_def)
  qed
  show ?thesis
  proof (cases "fd_pos f = 0")
    case True
    then show ?thesis
      using put [OF d refl, of data] len(2) B
      by (auto simp: write_contents_def written_bytes_def on_device_def lift_fat_def io_map_err_def)
  next
    case False
    have mn: "unat (fd_size f) = min (min (unat (fd_size f)) (length ?cl * ?k)) (length (replicate ?N (0::u8)))"
      using len(1) by (simp add: C)
    have full: "\<exists>d1. (if 0 < fd_size f
          then io_bind (on_device (\<lambda>v. lift_fat VfsIoError (read_file fs (fd_cluster f) (fd_size f) (replicate ?N 0))))
             (\<lambda>(_, full). io_ret full) else io_ret (replicate ?N 0)) (v, d) =
          (Inr (take (unat (fd_size f)) ?old @ replicate (?N - unat (fd_size f)) 0), (v, d1)) \<and> dev_inv d1 \<and>
          content d1 = content d"
    proof (cases "0 < fd_size f")
      case True
      then show ?thesis
        using read_file_ok [OF m d i mn]
        by (auto simp: op_ok_def io_bind_app on_device_def lift_fat_def io_map_err_def)
    next
      case False
      then have "fd_size f = 0" by (simp add: word_neq_0_conv [symmetric])
      with d show ?thesis by simp
    qed
    then obtain d1 where d1: "dev_inv d1" "content d1 = content d" and r: "(if 0 < fd_size f
          then io_bind (on_device (\<lambda>v. lift_fat VfsIoError (read_file fs (fd_cluster f) (fd_size f) (replicate ?N 0))))
             (\<lambda>(_, full). io_ret full) else io_ret (replicate ?N 0)) (v, d) =
          (Inr (take (unat (fd_size f)) ?old @ replicate (?N - unat (fd_size f)) 0), (v, d1))" by blast
    have "length ?old = C"
      using i by (simp add: C file_bytes_def length_concat cluster_data_length_ok [OF m d, symmetric] sum_list_triv comp_def)
    then have lf: "length (take (unat (fd_size f)) ?old @ replicate (?N - unat (fd_size f)) 0) = ?N"
      using len(1) by simp
    then have "length B = ?N"
      using length_merge_data [of "fd_pos f" "take (unat (fd_size f)) ?old @ replicate (?N - unat (fd_size f)) 0" data] False B
      by (simp add: written_bytes_def)
    then show ?thesis
      using put [OF d1, of B] len B False r
      by (auto simp: write_contents_def written_bytes_def on_device_def lift_fat_def io_map_err_def io_bind_app Let_def)
  qed
qed


lemma file_bytes_cong:
  "(\<And>x. x \<in> set cs \<Longrightarrow> cluster_data fs m1 x = cluster_data fs m2 x) \<Longrightarrow> file_bytes fs m1 cs = file_bytes fs m2 cs"
  by (simp add: file_bytes_def cong: map_cong)

lemma vfs_write_ok:
  fixes v :: "'d VfsManager"
  assumes m: "mounted_on dev capacity fs" and d: "dev_inv d" and v: "fat_fs v = Some fs"
    and idx: "find_index_fd fd (file_table v) = Some idx" and f: "f = file_table v ! idx" "fd_mode f \<noteq> Read"
    and ir: "intact_chain (bpb fs) (fat_entry fs (content d)) (vfs_root v # cs)"
    and i: "intact_chain (bpb fs) (fat_entry fs (content d)) (fd_cluster f # fcs)"
    and disj: "set (vfs_root v # cs) \<inter> set (fd_cluster f # fcs) = {}"
    and p: "root_name (fd_path f) name"
    and e: "dir_lookup (dir_entries fs (content d) (vfs_root v # cs)) (to_upper_83 name) = Some e"
    and C: "C = length (fd_cluster f # fcs) * cluster_size_bytes (bpb fs)"
    and len: "unat (fd_size f) \<le> C" "fd_pos f + length data \<le> C" "fd_pos f + length data < 2 ^ 32" "data \<noteq> []"
    and B: "B = written_bytes (file_bytes fs (content d) (fd_cluster f # fcs)) f data"
    and N: "N = max (fd_pos f + length data) (unat (fd_size f))"
  shows "\<exists>d'. vfs_write fd data (v, d) = (Inr (length data), (v \<lparr> file_table := (file_table v)
        [idx := f \<lparr> fd_pos := fd_pos f + length data, fd_size := of_nat N \<rparr>] \<rparr>, d')) \<and> dev_inv d' \<and>
    file_bytes fs (content d') (fd_cluster f # fcs) = B @ replicate (C - length B) 0 \<and>
    dir_lookup (dir_entries fs (content d') (vfs_root v # cs)) (to_upper_83 name) = Some (resized (of_nat N) e)"
proof -
  let ?cl = "fd_cluster f # fcs" and ?root = "vfs_root v # cs"
  let ?m1 = "file_put fs ?cl B (content d)"
  note g = mountedD(2) [OF m]
  have vr: "list_all (valid_cluster (bpb fs)) ?root" and vl: "list_all (valid_cluster (bpb fs)) ?cl"
    and dl: "distinct ?cl" using ir i by (simp_all add: intact_chain_def)
  obtain d1 where w: "write_contents fs f data (v, d) = (Inr (), (v, d1))" "dev_inv d1" "content d1 = ?m1" "length B \<le> C"
    using write_contents_ok [OF m d i C len(1,2) B] by blast
  have other: "fat_entry fs ?m1 x = fat_entry fs (content d) x" "cluster_data fs ?m1 x = cluster_data fs (content d) x"
    if "x \<in> set ?root" for x
    using file_put_other [OF g vl content_wf [OF d], of x B] vr disj that by (auto simp: list_all_iff)
  have ir1: "intact_chain (bpb fs) (fat_entry fs (content d1)) ?root"
    unfolding w(3) using intact_chain_cong_set [of ?root] other(1) ir by blast
  have es: "dir_entries fs ?m1 ?root = dir_entries fs (content d) ?root"
    using other(2) by (rule dir_entries_cong_set)
  obtain k where k: "dir_index (dir_entries fs (content d) ?root) (to_upper_83 name) = Some k"
    using e by (auto simp: dir_lookup_def simp del: dir_entries_Cons)
  let ?v = "v \<lparr> file_table := (file_table v)[idx := f \<lparr> fd_pos := fd_pos f + length data, fd_size := of_nat N \<rparr>] \<rparr>"
  obtain sec where s: "op_ok (update_file_size ?v (fd_path f) (of_nat N)) d1 () sec" "dir_step fs ?m1 ?root sec"
      "dir_lookup (dir_entries fs sec ?root) (to_upper_83 name) = Some (resized (of_nat N) e)"
    using update_file_size_ok [OF m w(2), of ?v cs "fd_path f" name k "of_nat N"] v ir1 p k e
    unfolding w(3) by (auto simp: es simp del: dir_entries_Cons)
  obtain d2 where d2: "update_file_size ?v (fd_path f) (of_nat N) d1 = (Inr (), d2)" "dev_inv d2" "content d2 = sec"
    using s(1) by (rule op_okE)
  have "unat (fd_size f) < 2 ^ 32" using unsigned_less [of "fd_size f"] by simp
  then have "N < 2 ^ 32" "0 < N"
    using N len(3,4) by (auto simp: less_max_iff_disj)
  then have pos: "0 < (of_nat N :: u32)"
    by (simp add: word_less_nat_alt unat_of_nat)
  have "file_bytes fs sec ?cl = file_bytes fs ?m1 ?cl"
    using dir_step_frame(2) [OF m vr s(2)] vl disj by (intro file_bytes_cong) (auto simp: list_all_iff)
  also have "\<dots> = B @ replicate (C - length B) 0"
    using file_bytes_file_put [OF g vl dl] w(4) C by simp
  finally have "file_bytes fs (content d2) ?cl = B @ replicate (C - length B) 0" unfolding d2(3) .
  moreover have "vfs_write fd data (v, d) = (Inr (length data), (?v, d2))"
    using idx f(2) w(1) v d2(1) pos
    by (simp add: vfs_write_def f(1) [symmetric] Let_def io_bind_app on_device_def vfs_fs_def ok_or_def N [symmetric])
  ultimately show ?thesis
    using d2 s(3) by blast
qed

end

end
