(* ===== verification/Vfs_Properties.thy ===== *)
theory Vfs_Properties
  imports Vfs_Files
begin

text \<open>
  The properties of the virtual file system. The witnesses use the volume of
  \<open>Fat_Sample\<close>.
\<close>

section \<open>Paths\<close>

text \<open>Path lookup does not depend on the case of ASCII letters: a path and its upper-case
  form resolve to the same cluster, with the same reads of the device, or fail in the same
  way.\<close>

theorem resolve_path_ignores_case: "resolve_path v (map to_upper_ascii p) = resolve_path v p"
  by (rule ext) (simp add: resolve_path_def trim_upper resolve_loop_upper Let_def io_bind_app split: sum.split prod.split)

text \<open>No listing holds the entry \<open>..\<close>, so the search of \<open>resolve_path\<close> for it
  never succeeds.\<close>

definition no_dotdot :: "DirEntryInfo list \<Rightarrow> bool" where
  "no_dotdot es \<longleftrightarrow> [0x2E, 0x2E] \<notin> di_name ` set es"

lemma no_dotdot_Nil [simp]: "no_dotdot []"
  by (simp add: no_dotdot_def)

lemma scan_dir_no_dotdot: "no_dotdot res \<Longrightarrow> no_dotdot (snd (scan_dir buf is res))"
  by (auto simp: scan_dir_eq dir_list_def no_dotdot_def)

lemma read_dir_loop_no_dotdot: "no_dotdot res \<Longrightarrow> read_dir_loop fs cs res d = (Inr es, d') \<Longrightarrow> no_dotdot es"
proof (induction cs arbitrary: res d)
  case (Cons c cs)
  obtain r d1 where r: "read_cluster fs c (replicate (cluster_size_bytes (bpb fs)) 0) d = (r, d1)" by fastforce
  with Cons.prems(2) obtain buf where buf: "r = Inr buf" by (cases r) (simp_all add: io_bind_app)
  obtain b res' where s: "scan_dir buf [0..<cluster_size_bytes (bpb fs) div 32] res = (b, res')" by fastforce
  then have "no_dotdot res'" using scan_dir_no_dotdot [OF Cons.prems(1)] by (metis snd_conv)
  with Cons.IH Cons.prems(2) r buf s show ?case by (cases b) (auto simp: io_bind_app)
qed simp

lemma read_dir_no_dotdot:
  assumes "read_dir_entries fs c d = (Inr es, d')"
  shows "dotdot_cluster root es = root"
proof -
  have "no_dotdot es"
    using assms
    by (auto simp: read_dir_entries_def io_bind_app dest: read_dir_loop_no_dotdot [OF no_dotdot_Nil]
        split: sum.splits prod.splits)
  then have "find (\<lambda>e. di_name e = [0x2E, 0x2E]) es = None"
    by (force simp: find_None_iff no_dotdot_def)
  then show ?thesis by (simp add: dotdot_cluster_def)
qed

lemma path_split_dotdot:
  "path_split (p @ [0x2F, 0x2E, 0x2E]) =
     (if 0x2F \<in> set p then (fst (path_split p), snd (path_split p) @ [0x2F, 0x2E, 0x2E]) else (p, [0x2E, 0x2E]))"
  by (auto simp: path_split_def split_first_def takeWhile_append dropWhile_append
      dest: dropWhile_eq_Nil_conv [THEN iffD1] split: if_splits)

lemma resolve_loop_dotdot_end: "resolve_loop fs root cur [0x2E, 0x2E] d = (Inr c, d') \<Longrightarrow> c = root"
  by (subst (asm) resolve_loop.simps)
    (auto simp: path_split_def split_first_def resolve_loop.simps [where remaining = "[]"] lift_fat_def io_map_err_def
      dest: read_dir_no_dotdot split: if_splits prod.splits sum.splits)

lemma resolve_loop_dotdot:
  "resolve_loop fs root cur (p @ [0x2F, 0x2E, 0x2E]) d = (Inr c, d') \<Longrightarrow> c = root"
proof (induction p arbitrary: cur d rule: length_induct)
  case (1 p)
  obtain x rest where s: "path_split (p @ [0x2F, 0x2E, 0x2E]) = (x, rest)" by fastforce
  have IH: "c = root" if "resolve_loop fs root cur' rest d1 = (Inr c, d')" for cur' d1
  proof (cases "0x2F \<in> set p")
    case True
    then have r: "rest = snd (path_split p) @ [0x2F, 0x2E, 0x2E]" using s by (simp add: path_split_dotdot)
    have "length (snd (path_split p)) < length p" using True by (intro path_split_shorter) auto
    with 1(1) that show ?thesis unfolding r by blast
  next
    case False
    with s that show ?thesis by (auto simp: path_split_dotdot intro: resolve_loop_dotdot_end)
  qed
  from 1(2) show ?case
    by (subst (asm) resolve_loop.simps) (auto simp: s dest: IH split: if_splits prod.splits sum.splits option.splits)
qed

text \<open>C18: A path that ends in \<open>/..\<close> never resolves to a directory other than the root:
  the listing drops the entries \<open>.\<close> and \<open>..\<close>, so that the search for the parent falls
  back to the root.\<close>

theorem resolve_dotdot_is_root:
  assumes "resolve_path v (p @ [0x2F, 0x2E, 0x2E]) d = (Inr c, d')"
  shows "c = vfs_root v"
proof -
  let ?t = "[0x2F, 0x2E, 0x2E] :: bytes"
  have "trim_start_slash (p @ ?t) = (if trim_start_slash p = [] then [0x2E, 0x2E] else trim_start_slash p @ ?t)"
    by (auto simp: trim_start_slash_def dropWhile_append)
  then show ?thesis
    using assms
    by (auto simp: resolve_path_def Let_def io_bind_app dest: resolve_loop_dotdot resolve_loop_dotdot_end
        split: if_splits sum.splits prod.splits)
qed

text \<open>The manager over the sample volume. Its root holds the file \<open>A\<close> of
  \<open>sample_world_2\<close>, which has no cluster.\<close>

definition sample_vfs :: "pio_disk ata_world VfsManager" where
  "sample_vfs = \<lparr> mount_point = [0x2F], fat_fs = Some sample_fs, vfs_root = 2, file_table = [],
     next_fd = 3, cwd = [0x2F] \<rparr>"

lemma sample_resolve_dotdot: "\<exists>d'. resolve_path sample_vfs ([0x41] @ [0x2F, 0x2E, 0x2E]) sample_world_2 = (Inr 2, d')"
proof -
  let ?fs = "sample_fs"
  obtain z where z: "dir_entries ?fs sample_sectors_2 [2] = sample_file # z" "list_all is_end z"
    by (rule sample_dir_2)
  let ?i = "entry_info sample_file"
  have n: "di_name ?i = [0x61]" "di_cluster ?i = 0"
    by (simp_all add: sample_file_def entry_info_def full_name_def name_bytes_def to_lower_ascii_def utf8_chunk_def first_cluster_def de_decode_def
        le16_at_def u16_from_le_def)
  have tz: "takeWhile (\<lambda>e. \<not> is_end e) z = []" using z(2) by (cases z) simp_all
  have "dir_list (sample_file # z) = [?i]"
    using sample_file_ok by (simp add: dir_list_def tz n)
  then obtain d1 where rd: "read_dir_entries ?fs 2 sample_world_2 = (Inr [?i], d1)"
    using block_device.read_dir_entries_ok [OF sample_block_device sample_mounted sample_world_2_inv, of 2 "[]"] sample_chain_2
      z(1) by (auto simp: block_device.op_ok_def [OF sample_block_device] simp del: dir_entries_Cons)
  have rd0: "read_dir_entries ?fs 0 d = (Inr [], d)" for d
    by (simp add: read_dir_entries_def read_chain_def read_chain_loop.simps io_bind_app)
  have l3: "resolve_loop ?fs 2 2 [] d = (Inr 2, d)" for d :: "pio_disk ata_world"
    by (subst resolve_loop.simps) simp
  have l2: "resolve_loop ?fs 2 0 [0x2E, 0x2E] d = (Inr 2, d)" for d
    by (subst resolve_loop.simps)
      (simp add: path_split_def split_first_def lift_fat_def io_map_err_def rd0 dotdot_cluster_def l3)
  have "resolve_loop ?fs 2 2 [0x41, 0x2F, 0x2E, 0x2E] sample_world_2 = (Inr 2, d1)"
    by (subst resolve_loop.simps)
      (simp add: path_split_def split_first_def lift_fat_def io_map_err_def rd find_component_def n to_upper_83_def
        to_upper_ascii_def utf8_chunk_def l2)
  then show ?thesis
    by (simp add: resolve_path_def sample_vfs_def vfs_fs_def ok_or_def io_bind_app trim_start_slash_def)
qed

theorem resolve_dotdot_is_root_witness:
  "\<exists>c d'. resolve_path sample_vfs ([0x41] @ [0x2F, 0x2E, 0x2E]) sample_world_2 = (Inr c, d') \<and> c = vfs_root sample_vfs"
proof -
  obtain d' where d': "resolve_path sample_vfs ([0x41] @ [0x2F, 0x2E, 0x2E]) sample_world_2 = (Inr 2, d')"
    using sample_resolve_dotdot by blast
  with resolve_dotdot_is_root [OF d'] show ?thesis by simp
qed

section \<open>Whole files\<close>

text \<open>C19: A new file in the root directory can be read back: \<open>create_file\<close> with a name
  of the form 8.3 that is not in use and data of at most one cluster succeeds when the
  directory has a free slot and the volume a free cluster, \<open>read_file_content\<close> then
  returns the data, and every other name of the directory finds what it found before.\<close>

theorem create_then_read:
  assumes bd: "block_device dev content cap dinv" and m: "mounted_on dev cap fs" and d: "dinv d"
    and v: "fat_fs v = Some fs"
    and i: "intact_chain (bpb fs) (fat_entry fs (content d)) (vfs_root v # cs)"
    and clean: "dir_clean (dir_entries fs (content d) (vfs_root v # cs))"
    and p: "root_name path name" and n: "valid_83 (to_upper_83 name)" "hd (to_upper_83 name) \<noteq> 0xE5"
    and new: "dir_lookup (dir_entries fs (content d) (vfs_root v # cs)) (to_upper_83 name) = None"
    and slot: "dir_slot (dir_entries fs (content d) (vfs_root v # cs)) \<noteq> None"
    and c: "first_free (bpb fs) (fat_entry fs (content d)) \<noteq> None"
    and len: "length data \<le> cluster_size_bytes (bpb fs)" "length data < 2 ^ 32"
  shows "\<exists>d1 d2. create_file v path data d = (Inr (), d1) \<and> dinv d1 \<and>
    read_file_content v path d1 = (Inr data, d2) \<and>
    (\<forall>n'. n' \<noteq> to_upper_83 name \<longrightarrow> dir_lookup (dir_entries fs (content d1) (vfs_root v # cs)) n' =
       dir_lookup (dir_entries fs (content d) (vfs_root v # cs)) n')"
proof -
  obtain d1 where d1: "create_file v path data d = (Inr (), d1)" "dinv d1"
      "stored_file fs (content d1) (vfs_root v # cs) (to_upper_83 name) data"
      "\<forall>n'. n' \<noteq> to_upper_83 name \<longrightarrow> dir_lookup (dir_entries fs (content d1) (vfs_root v # cs)) n' =
         dir_lookup (dir_entries fs (content d) (vfs_root v # cs)) n'"
      "\<forall>l. is_reserved_sector fs l \<longrightarrow> content d1 l = content d l"
    by (rule block_device.create_stored_file [OF bd m d v i clean p n new slot c len])
  obtain d2 where "read_file_content v path d1 = (Inr data, d2)"
    using block_device.read_stored_file [OF bd m d1(2) v p d1(3)] unfolding block_device.op_ok_def [OF bd] by blast
  with d1 show ?thesis by blast
qed

lemma sample_root: "dir_clean (dir_entries sample_fs sample_sectors [2])"
  "dir_lookup (dir_entries sample_fs sample_sectors [2]) n = None"
  using dir_clean_all_end [OF sample_dir(1)] dir_lookup_all_end [OF sample_dir(1)] by simp_all

theorem create_then_read_witness:
  "\<exists>d1 d2. create_file sample_vfs [0x2F, 0x68, 0x69] [1, 2, 3] sample_world = (Inr (), d1) \<and>
     read_file_content sample_vfs [0x2F, 0x68, 0x69] d1 = (Inr [1, 2, 3], d2)"
proof -
  have u: "to_upper_83 [0x68, 0x69] = [0x48, 0x49]"
    by (simp add: to_upper_83_def to_upper_ascii_def utf8_chunk_def)
  have v: "fat_fs sample_vfs = Some sample_fs" "vfs_root sample_vfs = 2" by (simp_all add: sample_vfs_def)
  have "valid_83 [0x48, 0x49]" by code_simp
  then show ?thesis
    using create_then_read [OF sample_block_device sample_mounted sample_world_inv v(1), of "[]" "[0x2F, 0x68, 0x69]"
      "[0x68, 0x69]" "[1, 2, 3]"] sample_chain sample_root sample_dir_slot sample_free
    by (auto simp: v u root_name_def trim_start_slash_def simp del: dir_entries_Cons)
qed

section \<open>File descriptors\<close>

text \<open>The managers that the kernel can reach: the mounted one, and what \<open>open\<close>,
  \<open>write\<close>, \<open>close\<close> and a change of the working directory make of one. The calls
  may find the device in any state, since other calls change it in between.\<close>

inductive vfs_reach :: "'d block_dev \<Rightarrow> 'd VfsManager \<Rightarrow> bool" for dev where
  reach_init: "init_vfs dev d = Some (v, d') \<Longrightarrow> vfs_reach dev v"
| reach_open: "vfs_reach dev v \<Longrightarrow> vfs_open path mode (v, d) = (r, (v', d')) \<Longrightarrow> vfs_reach dev v'"
| reach_write: "vfs_reach dev v \<Longrightarrow> vfs_write fd data (v, d) = (r, (v', d')) \<Longrightarrow> vfs_reach dev v'"
| reach_close: "vfs_reach dev v \<Longrightarrow> vfs_close fd (v, d) = (r, (v', d')) \<Longrightarrow> vfs_reach dev v'"
| reach_chdir: "vfs_reach dev v \<Longrightarrow> vfs_reach dev (v \<lparr> cwd := path \<rparr>)"

lemma fd_inv_init: "init_vfs dev d = Some (v, d') \<Longrightarrow> fd_inv v"
  using init_vfs_Some [of dev d v d'] by (simp add: fd_inv_def)

lemma fd_inv_cwd [simp]: "fd_inv (v \<lparr> cwd := path \<rparr>) = fd_inv v"
  by (simp add: fd_inv_def)

lemma fd_inv_close: "fd_inv v \<Longrightarrow> vfs_close fd (v, d) = (r, (v', d')) \<Longrightarrow> fd_inv v'"
  by (auto simp: vfs_close_def fd_inv_def distinct_map_filter)

lemma vfs_reach_inv: "vfs_reach dev v \<Longrightarrow> fd_inv v"
proof (induction rule: vfs_reach.induct)
  case (reach_open v path mode d r v' d')
  then show ?case by (metis fd_inv_opened leavesD leaves_open)
next
  case (reach_write v fd data d r v' d')
  then show ?case by (metis fd_inv_written leavesD leaves_write)
next
  case (reach_close v fd d r v' d')
  then show ?case by (metis fd_inv_close)
qed (simp_all add: fd_inv_init)

text \<open>C20: In every reachable manager the open descriptors have pairwise different numbers, all
  at least 3 and below the next one; a successful \<open>open\<close> returns a number that no open
  descriptor has, at position 0, and leaves the others as they were; a failed one changes
  nothing.\<close>

theorem fd_table_invariant:
  assumes "vfs_reach dev v" and "vfs_open path mode (v, d) = (r, (v', d'))"
  shows "distinct (map fd_num (file_table v)) \<and> (\<forall>f \<in> set (file_table v). 3 \<le> fd_num f \<and> fd_num f < next_fd v) \<and>
    (case r of
       Inl e \<Rightarrow> v' = v
     | Inr fd \<Rightarrow> 3 \<le> fd \<and> fd \<notin> set (map fd_num (file_table v)) \<and>
         (\<exists>f. fd_num f = fd \<and> fd_pos f = 0 \<and> file_table v' = file_table v @ [f]))"
proof -
  have "fd_inv v" by (rule vfs_reach_inv [OF assms(1)])
  moreover have "opened v r v'" by (rule leavesD [OF leaves_open assms(2)])
  ultimately show ?thesis
    by (auto simp: fd_inv_def opened_def split: sum.splits)
qed

theorem fd_table_invariant_witness:
  "\<exists>v d r v' d'. init_vfs sample_dev sample_world = Some (v, d) \<and> vfs_open [0x2F] Read (v, d) = (r, (v', d')) \<and>
     (case r of Inl e \<Rightarrow> v' = v | Inr fd \<Rightarrow> 3 \<le> fd \<and> fd \<notin> set (map fd_num (file_table v)))"
proof -
  have "bpb_from_bytes (sample_content sample_world 0) = Some sample_bpb" "0 < pd_capacity 100"
    by (simp_all add: sample_content_def sample_world_def sample_sector_0 sample_boot_sector_ok(2) pd_capacity_def)
  from block_device.mount_ok [OF sample_block_device sample_world_inv this(2,1)]
  obtain d where "mount sample_dev 0 sample_world = (Inr \<lparr> bpb = sample_bpb, fs_device = sample_dev, partition_lba = 0 \<rparr>, d)"
    unfolding block_device.op_ok_def [OF sample_block_device] by blast
  moreover have "sectors_per_cluster sample_bpb \<noteq> 0" by simp
  ultimately obtain v where v: "init_vfs sample_dev sample_world = Some (v, d)"
    by (simp add: init_vfs_def total_clusters_def)
  obtain r v' d' where o: "vfs_open [0x2F] Read (v, d) = (r, (v', d'))"
    by (cases "vfs_open [0x2F] Read (v, d)") auto
  from fd_table_invariant [OF reach_init [OF v] o] v o show ?thesis
    by (cases r) auto
qed

text \<open>The sample volume with a file \<open>HI\<close> of three bytes, and a manager with a descriptor
  open on it.\<close>

definition sample_fd :: "nat \<Rightarrow> FileDescriptor" where
  "sample_fd pos = \<lparr> fd_num = 3, fd_path = [0x2F, 0x68, 0x69], fd_mode = Write, fd_pos = pos, fd_size = 3, fd_cluster = 3 \<rparr>"

definition sample_vfs_open :: "nat \<Rightarrow> pio_disk ata_world VfsManager" where
  "sample_vfs_open pos = sample_vfs \<lparr> file_table := [sample_fd pos], next_fd := 4 \<rparr>"

lemma sample_name: "to_upper_83 [0x68, 0x69] = [0x48, 0x49]" "root_name [0x2F, 0x68, 0x69] [0x68, 0x69]"
  "valid_83 [0x48, 0x49]"
proof -
  show "valid_83 [0x48, 0x49]" by code_simp
qed (simp_all add: to_upper_83_def to_upper_ascii_def utf8_chunk_def root_name_def trim_start_slash_def)

lemma sample_file_world:
  obtains w e where "sample_inv w" "intact_chain sample_bpb (fat_entry sample_fs (sample_content w)) [2]"
    "intact_chain sample_bpb (fat_entry sample_fs (sample_content w)) [3]"
    "take 3 (file_bytes sample_fs (sample_content w) [3]) = [1, 2, 3]"
    "dir_lookup (dir_entries sample_fs (sample_content w) [2]) [0x48, 0x49] = Some e"
proof -
  have v: "fat_fs sample_vfs = Some sample_fs" "vfs_root sample_vfs = 2" by (simp_all add: sample_vfs_def)
  obtain sec e where s: "block_device.op_ok sample_content sample_inv
        (create_file sample_vfs [0x2F, 0x68, 0x69] [1, 2, 3]) sample_world () sec"
      "intact_chain sample_bpb (fat_entry sample_fs sec) [2]" "intact_chain sample_bpb (fat_entry sample_fs sec) [3]"
      "take 3 (cluster_data sample_fs sec 3) = [1, 2, 3]"
      "dir_lookup (dir_entries sample_fs sec [2]) [0x48, 0x49] = Some e"
    using block_device.create_file_ok [OF sample_block_device sample_mounted sample_world_inv v(1), of "[]"
        "[0x2F, 0x68, 0x69]" "[0x68, 0x69]" 0 3 "[1, 2, 3]"] sample_chain sample_root sample_dir_slot sample_free sample_name
    by (auto simp: v numeral_3_eq_3 simp del: dir_entries_Cons)
  then show thesis
    using that unfolding block_device.op_ok_def [OF sample_block_device] by (auto simp: file_bytes_def simp del: dir_entries_Cons)
qed

lemma sample_vfs_open_simps [simp]:
  "fat_fs (sample_vfs_open pos) = Some sample_fs" "vfs_root (sample_vfs_open pos) = 2"
  "file_table (sample_vfs_open pos) = [sample_fd pos]"
  by (simp_all add: sample_vfs_open_def sample_vfs_def)

lemma sample_fd_simps [simp]:
  "fd_num (sample_fd pos) = 3" "fd_path (sample_fd pos) = [0x2F, 0x68, 0x69]" "fd_mode (sample_fd pos) = Write"
  "fd_pos (sample_fd pos) = pos" "fd_size (sample_fd pos) = 3" "fd_cluster (sample_fd pos) = 3"
  by (simp_all add: sample_fd_def)

text \<open>Reading through a descriptor returns the bytes of the file from its position on, as
  many as fit the buffer, and does not move the position: the next read returns the same
  bytes again.\<close>

theorem fd_read_repeats:
  assumes bd: "block_device dev content cap dinv" and m: "mounted_on dev cap fs" and d: "dinv d"
    and v: "fat_fs v = Some fs" and f: "find (\<lambda>f. fd_num f = fd) (file_table v) = Some f"
    and i: "intact_chain (bpb fs) (fat_entry fs (content d)) (fd_cluster f # cs)"
    and len: "unat (fd_size f) \<le> length (fd_cluster f # cs) * cluster_size_bytes (bpb fs)"
    and n: "n = min (length buf) (unat (fd_size f) - fd_pos f)"
    and out: "out = take n (drop (fd_pos f) (file_bytes fs (content d) (fd_cluster f # cs))) @ drop n buf"
  shows "\<exists>d1 d2. vfs_read v fd buf d = (Inr (n, out), d1) \<and> vfs_read v fd out d1 = (Inr (n, out), d2) \<and>
    content d2 = content d"
proof -
  let ?B = "file_bytes fs (content d) (fd_cluster f # cs)"
  obtain d1 where d1: "vfs_read v fd buf d = (Inr (n, out), d1)" "dinv d1" "content d1 = content d"
    using block_device.vfs_read_ok [OF bd m d v f i len n] unfolding block_device.op_ok_def [OF bd] out by blast
  have "length ?B = length (fd_cluster f # cs) * cluster_size_bytes (bpb fs)"
    using block_device.cluster_data_length_ok [OF bd m d]
    by (simp add: file_bytes_def length_concat sum_list_triv comp_def)
  then have "length out = length buf" "take n (drop (fd_pos f) ?B) @ drop n out = out"
    using len n out by simp_all
  then have "block_device.op_ok content dinv (vfs_read v fd out) d1 (n, out) (content d)"
    using block_device.vfs_read_ok [OF bd m d1(2) v f, of cs n out, unfolded d1(3), OF i len] n by simp
  then show ?thesis
    using d1(1) unfolding block_device.op_ok_def [OF bd] by blast
qed

theorem fd_read_repeats_witness:
  "\<exists>w d1 d2. vfs_read (sample_vfs_open 1) 3 [9] w = (Inr (1, [2]), d1) \<and>
     vfs_read (sample_vfs_open 1) 3 [2] d1 = (Inr (1, [2]), d2)"
proof -
  obtain w e where w: "sample_inv w" "intact_chain sample_bpb (fat_entry sample_fs (sample_content w)) [3]"
      "take 3 (file_bytes sample_fs (sample_content w) [3]) = [1, 2, 3]"
    by (rule sample_file_world)
  have "take 1 (drop 1 (file_bytes sample_fs (sample_content w) [3])) = [2]"
    using arg_cong [OF w(3), of "\<lambda>xs. take 1 (drop 1 xs)"] by (simp add: drop_take)
  then show ?thesis
    using fd_read_repeats [OF sample_block_device sample_mounted w(1), of "sample_vfs_open 1" 3 "sample_fd 1" "[]" 1 "[9]" "[2]"] w(2)
    by simp blast
qed

text \<open>C21: Writing through a descriptor to a file of the root directory, within its clusters,
  stores the data at the position of the descriptor, moves the position behind it, and
  records the larger of the old size and the new position as the size, in the descriptor
  and in the directory. From a position other than zero the rest of the file is kept; from
  position zero everything behind the data becomes zero, although the size still counts
  it.\<close>

theorem fd_write_effect:
  assumes bd: "block_device dev content cap dinv" and m: "mounted_on dev cap fs" and d: "dinv d" and v: "fat_fs v = Some fs"
    and idx: "find_index_fd fd (file_table v) = Some idx" and f: "f = file_table v ! idx" "fd_mode f \<noteq> Read"
    and ir: "intact_chain (bpb fs) (fat_entry fs (content d)) (vfs_root v # cs)"
    and i: "intact_chain (bpb fs) (fat_entry fs (content d)) (fd_cluster f # fcs)"
    and disj: "set (vfs_root v # cs) \<inter> set (fd_cluster f # fcs) = {}"
    and p: "root_name (fd_path f) name"
    and e: "dir_lookup (dir_entries fs (content d) (vfs_root v # cs)) (to_upper_83 name) = Some e"
    and C: "C = length (fd_cluster f # fcs) * cluster_size_bytes (bpb fs)"
    and len: "unat (fd_size f) \<le> C" "fd_pos f \<le> unat (fd_size f)" "fd_pos f + length data \<le> C"
      "fd_pos f + length data < 2 ^ 32" "data \<noteq> []"
    and old: "old = take (unat (fd_size f)) (file_bytes fs (content d) (fd_cluster f # fcs))"
    and N: "N = max (fd_pos f + length data) (unat (fd_size f))"
  shows "\<exists>v' d'. vfs_write fd data (v, d) = (Inr (length data), (v', d')) \<and> dinv d' \<and>
    file_table v' = (file_table v)[idx := f \<lparr> fd_pos := fd_pos f + length data, fd_size := of_nat N \<rparr>] \<and>
    dir_lookup (dir_entries fs (content d') (vfs_root v # cs)) (to_upper_83 name) = Some (e \<lparr> file_size := of_nat N \<rparr>) \<and>
    take N (file_bytes fs (content d') (fd_cluster f # fcs)) =
      (if fd_pos f = 0 then data @ replicate (N - length data) 0
       else take (fd_pos f) old @ data @ drop (fd_pos f + length data) old)"
proof -
  let ?cl = "fd_cluster f # fcs"
  let ?B = "written_bytes (file_bytes fs (content d) ?cl) f data"
  obtain d' where d': "vfs_write fd data (v, d) = (Inr (length data), (v \<lparr> file_table := (file_table v)
        [idx := f \<lparr> fd_pos := fd_pos f + length data, fd_size := of_nat N \<rparr>] \<rparr>, d'))" "dinv d'"
      "file_bytes fs (content d') ?cl = ?B @ replicate (C - length ?B) 0"
      "dir_lookup (dir_entries fs (content d') (vfs_root v # cs)) (to_upper_83 name) = Some (resized (of_nat N) e)"
    using block_device.vfs_write_ok [OF bd m d v idx f ir i disj p e C len(1,3-5) refl N] by blast
  have "length (file_bytes fs (content d) ?cl) = C"
    using block_device.cluster_data_length_ok [OF bd m d]
    by (simp add: C file_bytes_def length_concat sum_list_triv comp_def)
  then have old': "length old = unat (fd_size f)" using len(1) by (simp add: old)
  have "take N (?B @ replicate (C - length ?B) 0) =
      (if fd_pos f = 0 then data @ replicate (N - length data) 0
       else take (fd_pos f) old @ data @ drop (fd_pos f + length data) old)"
  proof (cases "fd_pos f = 0")
    case True
    then have "?B = data" "length data \<le> N" "N \<le> C" using N len(1,3) by (simp_all add: written_bytes_def)
    then show ?thesis using True by simp
  next
    case False
    have "?B = take (fd_pos f) old @ data @ drop (fd_pos f + length data) old"
      using False len(2) old' by (simp add: written_bytes_def merge_data_def Let_def N old [symmetric] max_def min_def)
    moreover from this have "length ?B = N" using len(2) old' N by simp
    then have "take N (?B @ replicate (C - length ?B) 0) = ?B" by simp
    ultimately show ?thesis using False by (simp only: if_False)
  qed
  then show ?thesis
    using d' by (simp add: resized_def del: dir_entries_Cons)
qed

theorem fd_write_effect_witness:
  "\<exists>w v' d'. take 3 (file_bytes sample_fs (sample_content w) [3]) = [1, 2, 3] \<and>
     vfs_write 3 [7] (sample_vfs_open 0, w) = (Inr 1, (v', d')) \<and>
     take 3 (file_bytes sample_fs (sample_content d') [3]) = [7, 0, 0]"
proof -
  obtain w e where w: "sample_inv w" "intact_chain sample_bpb (fat_entry sample_fs (sample_content w)) [2]"
      "intact_chain sample_bpb (fat_entry sample_fs (sample_content w)) [3]"
      "take 3 (file_bytes sample_fs (sample_content w) [3]) = [1, 2, 3]"
      "dir_lookup (dir_entries sample_fs (sample_content w) [2]) [0x48, 0x49] = Some e"
    by (rule sample_file_world)
  let ?v = "sample_vfs_open 0" and ?f = "sample_fd 0"
  have p: "fat_fs ?v = Some sample_fs" "find_index_fd 3 (file_table ?v) = Some 0" "?f = file_table ?v ! 0" "fd_mode ?f \<noteq> Read"
      "intact_chain (bpb sample_fs) (fat_entry sample_fs (sample_content w)) (vfs_root ?v # [])"
      "intact_chain (bpb sample_fs) (fat_entry sample_fs (sample_content w)) (fd_cluster ?f # [])"
      "set (vfs_root ?v # []) \<inter> set (fd_cluster ?f # []) = {}" "root_name (fd_path ?f) [0x68, 0x69]"
      "dir_lookup (dir_entries sample_fs (sample_content w) (vfs_root ?v # [])) (to_upper_83 [0x68, 0x69]) = Some e"
      "512 = length (fd_cluster ?f # []) * cluster_size_bytes (bpb sample_fs)"
      "unat (fd_size ?f) \<le> 512" "fd_pos ?f \<le> unat (fd_size ?f)" "fd_pos ?f + length [7 :: u8] \<le> 512"
      "fd_pos ?f + length [7 :: u8] < 2 ^ 32" "[7 :: u8] \<noteq> []"
      "[1, 2, 3] = take (unat (fd_size ?f)) (file_bytes sample_fs (sample_content w) (fd_cluster ?f # []))"
      "3 = max (fd_pos ?f + length [7 :: u8]) (unat (fd_size ?f))"
    using w sample_name by (simp_all del: dir_entries_Cons)
  obtain v' d' where "vfs_write 3 [7] (?v, w) = (Inr (length [7 :: u8]), (v', d'))"
      "take 3 (file_bytes sample_fs (sample_content d') [3]) = [7] @ replicate (3 - length [7 :: u8]) 0"
    using fd_write_effect [OF sample_block_device sample_mounted w(1) p] by (auto simp del: dir_entries_Cons)
  moreover have "replicate (3 - length [7 :: u8]) (0 :: u8) = [0, 0]" by (simp add: numeral_2_eq_2)
  ultimately show ?thesis using w(4) by auto
qed

end
