(* ===== verification/Mbr.thy ===== *)
theory Mbr
  imports Ata_Properties
begin

text \<open>
  The partition table: \<open>kernel/src/fs/mbr.rs\<close>. The table is parsed from sector 0 of the
  primary drive. Sums wrap, as in the release build. Of \<open>size_human\<close> the model keeps the
  unit and the number of bytes it divides; the floating-point printing is left out.
\<close>

section \<open>Partition types\<close>

definition MBR_BOOT_SIG :: u16 where "MBR_BOOT_SIG = 0xAA55"
definition MAX_PARTITIONS :: nat where "MAX_PARTITIONS = 4"

datatype PartitionType =
  PT_Empty | Fat12 | Fat16Small | Fat16Large | Fat32Chs | Fat32Lba | Ntfs | LinuxSwap | Linux | Extended | PT_Unknown u8

definition pt_from_byte :: "u8 \<Rightarrow> PartitionType" where
  "pt_from_byte byte =
     (if byte = 0x00 then PT_Empty
      else if byte = 0x01 then Fat12
      else if byte = 0x04 \<or> byte = 0x06 then Fat16Small
      else if byte = 0x0B then Fat32Chs
      else if byte = 0x0C then Fat32Lba
      else if byte = 0x07 then Ntfs
      else if byte = 0x82 then LinuxSwap
      else if byte = 0x83 then Linux
      else if byte = 0x05 \<or> byte = 0x0F then Extended
      else PT_Unknown byte)"

primrec pt_name :: "PartitionType \<Rightarrow> string" where
  "pt_name PT_Empty = ''Empty''"
| "pt_name Fat12 = ''FAT12''"
| "pt_name Fat16Small = ''FAT16''"
| "pt_name Fat16Large = ''FAT16 (Large)''"
| "pt_name Fat32Chs = ''FAT32 (CHS)''"
| "pt_name Fat32Lba = ''FAT32 (LBA)''"
| "pt_name Ntfs = ''NTFS''"
| "pt_name LinuxSwap = ''Linux Swap''"
| "pt_name Linux = ''Linux''"
| "pt_name Extended = ''Extended''"
| "pt_name (PT_Unknown b) = ''Unknown''"

section \<open>Entries\<close>

record PartitionEntry =
  boot_indicator :: u8
  partition_type :: PartitionType
  type_byte :: u8
  chs_first :: bytes
  chs_last :: bytes
  lba_first :: u32
  sector_count :: u32

definition part_is_active :: "PartitionEntry \<Rightarrow> bool" where
  "part_is_active p \<longleftrightarrow> boot_indicator p = 0x80"

definition part_is_empty :: "PartitionEntry \<Rightarrow> bool" where
  "part_is_empty p \<longleftrightarrow> partition_type p = PT_Empty"

definition lba_last :: "PartitionEntry \<Rightarrow> u32" where
  "lba_last p = (if sector_count p > 0 then lba_first p + sector_count p - 1 else lba_first p)"

definition part_size_bytes :: "PartitionEntry \<Rightarrow> u64" where
  "part_size_bytes p = ucast (sector_count p) * of_nat SECTOR_SIZE"

datatype human_size = GiB u64 | MiB u64 | KiB u64 | Bytes u64

definition size_human :: "PartitionEntry \<Rightarrow> human_size" where
  "size_human p =
     (let bytes = part_size_bytes p in
      if bytes \<ge> 1024 * 1024 * 1024 then GiB bytes
      else if bytes \<ge> 1024 * 1024 then MiB bytes
      else if bytes \<ge> 1024 then KiB bytes
      else Bytes bytes)"

section \<open>The table\<close>

record MbrTable =
  boot_sig :: u16
  partitions :: "PartitionEntry list"
  mbr_valid :: bool

definition empty_entry :: PartitionEntry where
  "empty_entry = \<lparr> boot_indicator = 0, partition_type = PT_Empty, type_byte = 0, chs_first = replicate 3 0,
     chs_last = replicate 3 0, lba_first = 0, sector_count = 0 \<rparr>"

definition MbrTable_new :: MbrTable where
  "MbrTable_new = \<lparr> boot_sig = 0, partitions = replicate MAX_PARTITIONS empty_entry, mbr_valid = False \<rparr>"

definition parse_entry :: "bytes \<Rightarrow> PartitionEntry" where
  "parse_entry entry = \<lparr> boot_indicator = entry ! 0, partition_type = pt_from_byte (entry ! 4), type_byte = entry ! 4,
     chs_first = slice entry 1 3, chs_last = slice entry 5 3, lba_first = le32_at entry 8, sector_count = le32_at entry 12 \<rparr>"

definition mbr_parse :: "bytes \<Rightarrow> MbrTable" where
  "mbr_parse sector =
     (if length sector < SECTOR_SIZE then MbrTable_new
      else let sig = u16_from_le (sector ! 510) (sector ! 511) in
        \<lparr> boot_sig = sig,
          partitions = map (\<lambda>i. parse_entry (slice sector (446 + i * 16) 16)) [0..<MAX_PARTITIONS],
          mbr_valid = (sig = MBR_BOOT_SIG) \<rparr>)"

definition partition_count :: "MbrTable \<Rightarrow> nat" where
  "partition_count t = (if \<not> mbr_valid t then 0 else length (filter (\<lambda>p. \<not> part_is_empty p) (partitions t)))"

definition active_partition :: "MbrTable \<Rightarrow> PartitionEntry option" where
  "active_partition t = find part_is_active (partitions t)"

datatype mbr_error = No_Driver | Read_Error

definition read_mbr :: "'m port_io \<Rightarrow> 'm ata_world \<Rightarrow> (mbr_error + MbrTable) \<times> 'm ata_world" where
  "read_mbr P w =
     (case ATA w of
        None \<Rightarrow> (Inl No_Driver, w)
      | Some driver \<Rightarrow>
          (case read_sectors P PRIMARY_BASE False 0 1 (replicate SECTOR_SIZE 0) (machine w) of
             (Inl e, buf, m) \<Rightarrow> (Inl Read_Error, w \<lparr> machine := m \<rparr>)
           | (Inr _, buf, m) \<Rightarrow> (Inr (mbr_parse buf), w \<lparr> machine := m \<rparr>)))"

section \<open>The format\<close>

text \<open>The bytes of an entry on disk, and of a boot sector with a table of them.\<close>

definition entry_bytes :: "PartitionEntry \<Rightarrow> bytes" where
  "entry_bytes p = [boot_indicator p] @ chs_first p @ [type_byte p] @ chs_last p @ u32_to_le (lba_first p) @ u32_to_le (sector_count p)"

definition boot_sector :: "bytes \<Rightarrow> PartitionEntry list \<Rightarrow> u16 \<Rightarrow> bytes" where
  "boot_sector code ps sig = code @ concat (map entry_bytes ps) @ u16_to_le sig"

definition entry_wf :: "PartitionEntry \<Rightarrow> bool" where
  "entry_wf p \<longleftrightarrow> length (chs_first p) = 3 \<and> length (chs_last p) = 3 \<and> partition_type p = pt_from_byte (type_byte p)"

lemma length_entry_bytes [simp]: "entry_wf p \<Longrightarrow> length (entry_bytes p) = 16"
  by (simp add: entry_bytes_def entry_wf_def)

lemma parse_entry_bytes:
  assumes "entry_wf p"
  shows "parse_entry (entry_bytes p) = p"
proof -
  obtain a b c where f: "chs_first p = [a, b, c]" using assms list_len3E unfolding entry_wf_def by blast
  obtain x y z where l: "chs_last p = [x, y, z]" using assms list_len3E unfolding entry_wf_def by blast
  show ?thesis using assms
    by (intro PartitionEntry.equality)
      (simp_all add: parse_entry_def entry_bytes_def entry_wf_def f l slice_def le32_at_def u32_to_le_def u32_le_roundtrip)
qed

lemma parse_boot_sector:
  assumes "length code = 446" and "length ps = 4" and "\<forall>p\<in>set ps. entry_wf p"
  shows "mbr_parse (boot_sector code ps sig) = \<lparr> boot_sig = sig, partitions = ps, mbr_valid = (sig = 0xAA55) \<rparr>"
    and "length (boot_sector code ps sig) = 512"
proof -
  obtain p0 p1 p2 p3 where p: "ps = [p0, p1, p2, p3]"
    using assms(2) by (auto simp: numeral_eq_Suc length_Suc_conv)
  have w: "entry_wf p0" "entry_wf p1" "entry_wf p2" "entry_wf p3" using assms(3) p by simp_all
  show l: "length (boot_sector code ps sig) = 512" using assms(1) w by (simp add: boot_sector_def p)
  have e: "slice (boot_sector code ps sig) 446 16 = entry_bytes p0" "slice (boot_sector code ps sig) 462 16 = entry_bytes p1"
    "slice (boot_sector code ps sig) 478 16 = entry_bytes p2" "slice (boot_sector code ps sig) 494 16 = entry_bytes p3"
    using assms(1) w by (simp_all add: slice_def boot_sector_def p)
  have s: "boot_sector code ps sig ! 510 = u16_to_le sig ! 0" "boot_sector code ps sig ! 511 = u16_to_le sig ! 1"
    using assms(1) w by (simp_all add: boot_sector_def p nth_append)
  have "[0..<MAX_PARTITIONS] = [0, 1, 2, 3]" by (simp add: MAX_PARTITIONS_def upt_rec)
  then show "mbr_parse (boot_sector code ps sig) = \<lparr> boot_sig = sig, partitions = ps, mbr_valid = (sig = 0xAA55) \<rparr>"
    using w l by (simp add: mbr_parse_def SECTOR_SIZE_def Let_def e [unfolded p] s [unfolded p] parse_entry_bytes u16_to_le_def u16_le_roundtrip
        MBR_BOOT_SIG_def p)
qed

lemma unat_lba_last:
  assumes "0 < sector_count p" and "unat (lba_first p) + unat (sector_count p) \<le> 2 ^ 32"
  shows "unat (lba_last p) = unat (lba_first p) + unat (sector_count p) - 1"
proof -
  have pos: "0 < unat (sector_count p)" using assms(1) by (simp add: word_less_nat_alt)
  have "sector_count p \<noteq> 0" using assms(1) by auto
  then have "unat (sector_count p - 1) = unat (sector_count p) - 1" by (rule unat_minus_one)
  then have "unat (lba_first p + (sector_count p - 1)) = unat (lba_first p) + (unat (sector_count p) - 1)"
    using assms(2) pos by (simp add: unat_add_lem [THEN iffD1])
  then show ?thesis using assms(1) pos by (simp add: lba_last_def add_diff_eq)
qed

section \<open>Properties\<close>

text \<open>C31: On a drive that follows the protocol and whose sector 0 holds a boot sector with four
  partition entries, \<open>read_mbr\<close> returns exactly those entries, with the signature and
  whether it is the boot signature; the drive keeps its contents. The partitions counted
  are those with a type byte other than zero, and none when the signature is wrong. The
  last sector of a partition that ends below sector \<open>2 ^ 32\<close> is the first one plus the length minus one.\<close>

theorem read_mbr_correct:
  assumes "ata_disk P abd_primary_master phase tf delay sec cap hw" and "hw (machine w)" "phase (machine w) = Pio_Idle"
      "delay (machine w) = 0" and "ATA w \<noteq> None" and "0 < cap"
    and "sec (machine w) 0 = boot_sector code ps sig" "length code = 446" "length ps = 4" "\<forall>p\<in>set ps. entry_wf p"
  shows "\<exists>w'. read_mbr P w = (Inr \<lparr> boot_sig = sig, partitions = ps, mbr_valid = (sig = 0xAA55) \<rparr>, w') \<and>
    sec (machine w') = sec (machine w) \<and>
    partition_count (mbr_parse (sec (machine w) 0)) =
      (if sig = 0xAA55 then length (filter (\<lambda>p. type_byte p \<noteq> 0) ps) else 0) \<and>
    (\<forall>p\<in>set ps. 0 < sector_count p \<longrightarrow> unat (lba_first p) + unat (sector_count p) \<le> 2 ^ 32 \<longrightarrow>
      unat (lba_last p) = unat (lba_first p) + unat (sector_count p) - 1)"
proof -
  have i: "pio_drive.idle phase delay hw (machine w)"
    using assms(2-4) by (simp add: pio_drive.idle_def [OF ata_disk.axioms [OF assms(1)]])
  have c: "unat (0 :: u32) + unat (1 :: u32) \<le> unat cap" using assms(6) by (simp add: word_less_nat_alt)
  obtain m' where m: "read_sectors P PRIMARY_BASE False 0 1 (replicate SECTOR_SIZE 0) (machine w) =
      (Inr (), sec (machine w) 0, m')" "sec m' = sec (machine w)"
    using ata_disk.read_sectors_ok [OF assms(1) i c, of "replicate SECTOR_SIZE 0"]
    by (auto simp: abd_primary_master_def SECTOR_SIZE_def)
  note b = parse_boot_sector [OF assms(8-10), of sig]
  have e: "part_is_empty p \<longleftrightarrow> type_byte p = 0" if "p \<in> set ps" for p
    using assms(10) that by (auto simp: part_is_empty_def entry_wf_def pt_from_byte_def)
  have "partition_count (mbr_parse (sec (machine w) 0)) = (if sig = 0xAA55 then length (filter (\<lambda>p. type_byte p \<noteq> 0) ps) else 0)"
    using filter_cong [OF refl, of ps "\<lambda>p. \<not> part_is_empty p"] e by (simp add: assms(7) b partition_count_def)
  then show ?thesis using assms(5,7) m b(1) unat_lba_last by (auto simp: read_mbr_def)
qed

definition mbr_disk :: "pio_disk ata_world" where
  "mbr_disk = \<lparr> ATA = Some AtaDriver_new, machine = empty_pio_disk \<lparr> pd_sec := (\<lambda>l. boot_sector (replicate 446 0)
     [empty_entry \<lparr> boot_indicator := 0x80, partition_type := Fat32Lba, type_byte := 0x0C, lba_first := 2048, sector_count := 100 \<rparr>,
      empty_entry, empty_entry, empty_entry] 0xAA55) \<rparr> \<rparr>"

theorem read_mbr_correct_witness:
  "\<exists>t w'. read_mbr (pd_ports 7 100) mbr_disk = (Inr t, w') \<and> partition_count t = 1 \<and>
     map_option lba_last (active_partition t) = Some 2147"
proof -
  let ?p = "empty_entry \<lparr> boot_indicator := 0x80, partition_type := Fat32Lba, type_byte := 0x0C, lba_first := 2048,
    sector_count := 100 \<rparr>"
  let ?ps = "[?p, empty_entry, empty_entry, empty_entry]"
  have w: "\<forall>p\<in>set ?ps. entry_wf p" by (simp add: entry_wf_def empty_entry_def pt_from_byte_def)
  note b = parse_boot_sector [where code = "replicate 446 0" and sig = "0xAA55", OF _ _ w]
  have hw: "pd_hw (machine mbr_disk)" using b(2) by (simp add: mbr_disk_def pd_hw_def empty_pio_disk_def)
  have "ATA mbr_disk \<noteq> None" "pd_phase (machine mbr_disk) = Pio_Idle" "pd_delay (machine mbr_disk) = 0"
    "pd_sec (machine mbr_disk) 0 = boot_sector (replicate 446 0) ?ps 0xAA55" "0 < pd_capacity 100"
    by (simp_all add: mbr_disk_def empty_pio_disk_def pd_capacity_def)
  then obtain w' where r: "read_mbr (pd_ports 7 100) mbr_disk = (Inr \<lparr> boot_sig = 0xAA55, partitions = ?ps, mbr_valid = True \<rparr>, w')"
    using read_mbr_correct [OF primary.ata_disk_axioms [of 7 100] hw _ _ _ _ _ _ _ w, of "replicate 446 0" "0xAA55"] by auto
  have "partition_count \<lparr> boot_sig = 0xAA55, partitions = ?ps, mbr_valid = True \<rparr> = 1"
    by (simp add: partition_count_def part_is_empty_def empty_entry_def)
  moreover have "map_option lba_last (active_partition \<lparr> boot_sig = 0xAA55, partitions = ?ps, mbr_valid = True \<rparr>) = Some 2147"
    by (simp add: active_partition_def part_is_active_def lba_last_def)
  ultimately show ?thesis using r by blast
qed

end
