(* ===== verification/Frame_Allocator.thy ===== *)
theory Frame_Allocator
  imports Prelude
begin

text \<open>
  The physical frame allocator of \<open>kernel/src/memory/physmem.rs\<close>
  (\<open>PhysicalFrameAllocator\<close>): a bitmap with one bit per 4 KiB frame, a search
  hint \<open>next_free\<close> and counters.

  The static array \<open>BITMAP\<close> is a field of the record, since every method of the
  allocator works on it. Frame indices and counts are \<open>usize\<close> values; physical
  addresses are \<open>u64\<close> words. The addresses the allocator builds are shown to stay
  below \<open>2 ^ 52\<close>, the range in which \<open>PhysAddr::new\<close> of the \<open>x86_64\<close>
  crate accepts its argument.

  The abstraction is the set of reserved frames (\<open>reserved_set\<close>); every operation
  is described by what it does to that set.
\<close>

section \<open>State\<close>

definition FRAME_SIZE :: u64 where
  "FRAME_SIZE = 4096"

definition MAX_TRACKED_FRAMES :: nat where
  "MAX_TRACKED_FRAMES = 4 * 1024 * 1024 * 1024 div 4096"

definition BITMAP_SIZE :: nat where
  "BITMAP_SIZE = (MAX_TRACKED_FRAMES + 7) div 8"

record memory_statistics =
  total_bytes :: u64
  usable_bytes :: u64
  reserved_bytes :: u64
  st_allocated_frames :: nat
  st_free_frames :: nat
  st_total_frames :: nat
  allocation_failures :: u64
  double_free_attempts :: u64
  invalid_free_attempts :: u64
  largest_free_block :: nat
  free_block_count :: nat

datatype pmm_error =
  OutOfMemory | AllocationTooLarge | InvalidFree | DoubleFree | NotInitialized

record frame_allocator =
  BITMAP :: "u8 list"
  total_frames :: nat
  allocated_frames :: nat
  next_free :: nat
  stats :: memory_statistics
  validation_enabled :: bool

definition pfa_new :: "u8 list \<Rightarrow> u64 \<Rightarrow> frame_allocator" where
  "pfa_new bitmap total_memory_bytes =
     (let frames = min (unat (total_memory_bytes div FRAME_SIZE)) MAX_TRACKED_FRAMES;
          bitmap_bytes = (frames + 7) div 8
      in \<lparr>BITMAP = replicate bitmap_bytes 0 @ drop bitmap_bytes bitmap,
          total_frames = frames,
          allocated_frames = 0,
          next_free = 0,
          stats = \<lparr>total_bytes = total_memory_bytes, usable_bytes = 0, reserved_bytes = 0,
            st_allocated_frames = 0, st_free_frames = frames, st_total_frames = frames,
            allocation_failures = 0, double_free_attempts = 0, invalid_free_attempts = 0,
            largest_free_block = frames, free_block_count = (if frames > 0 then 1 else 0)\<rparr>,
          validation_enabled = True\<rparr>)"

section \<open>Bitmap access\<close>

definition is_frame_reserved :: "frame_allocator \<Rightarrow> nat \<Rightarrow> bool" where
  "is_frame_reserved s frame =
     (if frame \<ge> total_frames s then True
      else (BITMAP s ! (frame div 8)) AND push_bit (frame mod 8) 1 \<noteq> 0)"

definition mark_frame_reserved :: "frame_allocator \<Rightarrow> nat \<Rightarrow> frame_allocator" where
  "mark_frame_reserved s frame =
     (if frame < total_frames s
      then s\<lparr>BITMAP := (BITMAP s)[frame div 8 :=
             (BITMAP s ! (frame div 8)) OR push_bit (frame mod 8) 1]\<rparr>
      else s)"

definition mark_frame_free :: "frame_allocator \<Rightarrow> nat \<Rightarrow> frame_allocator" where
  "mark_frame_free s frame =
     (if frame < total_frames s
      then s\<lparr>BITMAP := (BITMAP s)[frame div 8 :=
               (BITMAP s ! (frame div 8)) AND NOT (push_bit (frame mod 8) 1)],
             next_free := (if frame < next_free s then frame else next_free s)\<rparr>
      else s)"

text \<open>The loop that moves \<open>next_free\<close> past reserved frames. The three places that
  contain it differ in the frame they start from.\<close>

function skip_reserved :: "frame_allocator \<Rightarrow> nat \<Rightarrow> nat" where
  "skip_reserved s n =
     (if n < total_frames s \<and> is_frame_reserved s n then skip_reserved s (n + 1) else n)"
  by pat_completeness auto
termination
  by (relation "measure (\<lambda>(s, n). total_frames s - n)") auto

declare skip_reserved.simps [simp del]

definition recalculate_next_free :: "frame_allocator \<Rightarrow> frame_allocator" where
  "recalculate_next_free s = s\<lparr>next_free := skip_reserved s 0\<rparr>"

section \<open>Reservation\<close>

definition reserve_frame :: "nat \<Rightarrow> frame_allocator \<Rightarrow> frame_allocator" where
  "reserve_frame frame s =
     (if \<not> is_frame_reserved s frame
      then (mark_frame_reserved s frame)\<lparr>allocated_frames := usize_add (allocated_frames s) 1\<rparr>
      else s)"

definition reserve_range :: "frame_allocator \<Rightarrow> u64 \<Rightarrow> u64 \<Rightarrow> (pmm_error + unit) \<times> frame_allocator"
  where
  "reserve_range s start end_addr =
     (let start_frame = unat (start div FRAME_SIZE);
          end_frame = unat ((end_addr + FRAME_SIZE - 1) div FRAME_SIZE);
          capped_end = min end_frame (total_frames s)
      in (Inr (), recalculate_next_free (fold reserve_frame [start_frame..<capped_end] s)))"

definition standard_reservations :: "(u64 \<times> u64) list" where
  "standard_reservations =
     [(0x00000000, 0x00100000),
      (0x00001000, 0x00005000),
      (0x00000500, 0x00000600),
      (0x00100000, 0x00200000),
      (0x00070000, 0x00090000),
      (0x00060000, 0x00065000),
      (0x00065000, 0x0006A000),
      (0x00400000, 0x00420000),
      (0x000A0000, 0x000C0000)]"

text \<open>Each call is followed by an \<open>expect\<close>, which never fires since
  \<open>reserve_range\<close> always returns \<open>Ok\<close>.\<close>

definition init_standard_reservations :: "frame_allocator \<Rightarrow> frame_allocator" where
  "init_standard_reservations s =
     fold (\<lambda>(start, end_addr) s. snd (reserve_range s start end_addr)) standard_reservations s"

section \<open>Allocation\<close>

definition count_failure :: "frame_allocator \<Rightarrow> frame_allocator" where
  "count_failure s =
     (if validation_enabled s
      then s\<lparr>stats := (stats s)\<lparr>allocation_failures := allocation_failures (stats s) + 1\<rparr>\<rparr>
      else s)"

definition allocate_frame :: "frame_allocator \<Rightarrow> u64 option \<times> frame_allocator" where
  "allocate_frame s =
     (if next_free s \<ge> total_frames s then (None, count_failure s)
      else
        let frame = next_free s;
            s1 = (mark_frame_reserved s frame)\<lparr>allocated_frames := usize_add (allocated_frames s) 1\<rparr>;
            s2 = s1\<lparr>next_free := skip_reserved s1 (next_free s1)\<rparr>
        in (Some (of_nat frame * FRAME_SIZE), s2))"

text \<open>The search loop of \<open>allocate_frames\<close>: the first start position, from
  \<open>start_frame\<close> on, with \<open>count\<close> free frames; a reserved frame at some offset
  moves the position past it.\<close>

function find_block :: "frame_allocator \<Rightarrow> nat \<Rightarrow> nat \<Rightarrow> nat option" where
  "find_block s count start_frame =
     (if start_frame + count \<le> total_frames s
      then (case List.find (\<lambda>offset. is_frame_reserved s (start_frame + offset)) [0..<count] of
              Some offset \<Rightarrow> find_block s count (start_frame + (offset + 1))
            | None \<Rightarrow> Some start_frame)
      else None)"
  by pat_completeness auto
termination
  by (relation "measure (\<lambda>(s, count, start). total_frames s + 1 - start)") auto

declare find_block.simps [simp del]

definition allocate_frames :: "frame_allocator \<Rightarrow> nat \<Rightarrow> u64 option \<times> frame_allocator" where
  "allocate_frames s count =
     (if count = 0 then (None, s)
      else if count > total_frames s then (None, count_failure s)
      else case find_block s count (next_free s) of
             None \<Rightarrow> (None, count_failure s)
           | Some start_frame \<Rightarrow>
               let s1 = fold (\<lambda>offset s. mark_frame_reserved s (start_frame + offset)) [0..<count] s;
                   s2 = s1\<lparr>allocated_frames := usize_add (allocated_frames s1) count\<rparr>;
                   s3 = s2\<lparr>next_free := skip_reserved s2 (start_frame + count)\<rparr>
               in (Some (of_nat start_frame * FRAME_SIZE), s3))"

section \<open>Deallocation\<close>

definition count_invalid_free :: "frame_allocator \<Rightarrow> frame_allocator" where
  "count_invalid_free s =
     (if validation_enabled s
      then s\<lparr>stats := (stats s)\<lparr>invalid_free_attempts := invalid_free_attempts (stats s) + 1\<rparr>\<rparr>
      else s)"

definition count_double_free :: "frame_allocator \<Rightarrow> frame_allocator" where
  "count_double_free s =
     (if validation_enabled s
      then s\<lparr>stats := (stats s)\<lparr>double_free_attempts := double_free_attempts (stats s) + 1\<rparr>\<rparr>
      else s)"

definition free_frame :: "frame_allocator \<Rightarrow> u64 \<Rightarrow> (pmm_error + unit) \<times> frame_allocator" where
  "free_frame s addr =
     (let frame = unat (addr div FRAME_SIZE) in
      if frame \<ge> total_frames s then (Inl InvalidFree, count_invalid_free s)
      else if \<not> is_frame_reserved s frame then (Inl DoubleFree, count_double_free s)
      else
        let s1 = mark_frame_free s frame
        in (Inr (), s1\<lparr>allocated_frames := usize_sub (allocated_frames s1) 1\<rparr>))"

definition free_frames ::
  "frame_allocator \<Rightarrow> u64 \<Rightarrow> nat \<Rightarrow> (pmm_error + unit) \<times> frame_allocator" where
  "free_frames s addr count =
     (let start_frame = unat (addr div FRAME_SIZE);
          end_frame = usize_add start_frame count
      in
      if end_frame > total_frames s then (Inl InvalidFree, count_invalid_free s)
      else if validation_enabled s
           \<and> (\<exists>frame \<in> set [start_frame..<end_frame]. \<not> is_frame_reserved s frame)
      then (Inl DoubleFree, count_double_free s)
      else
        let s1 = fold (\<lambda>frame s. mark_frame_free s frame) [start_frame..<end_frame] s
        in (Inr (), s1\<lparr>allocated_frames := usize_sub (allocated_frames s1) count\<rparr>))"

section \<open>Statistics and validation\<close>

text \<open>One iteration of the fragmentation scan over
  \<open>(free_blocks, largest_block, current_block)\<close>.\<close>

definition frag_step :: "frame_allocator \<Rightarrow> nat \<Rightarrow> nat \<times> nat \<times> nat \<Rightarrow> nat \<times> nat \<times> nat" where
  "frag_step s frame acc =
     (case acc of (free_blocks, largest_block, current_block) \<Rightarrow>
        if \<not> is_frame_reserved s frame then (free_blocks, largest_block, current_block + 1)
        else if current_block > 0
             then (free_blocks + 1,
                   if current_block > largest_block then current_block else largest_block, 0)
             else (free_blocks, largest_block, current_block))"

definition update_fragmentation_stats :: "frame_allocator \<Rightarrow> frame_allocator" where
  "update_fragmentation_stats s =
     (case fold (frag_step s) [0..<total_frames s] (0, 0, 0) of
        (free_blocks, largest_block, current_block) \<Rightarrow>
          let (fb, lb) =
            (if current_block > 0
             then (free_blocks + 1,
                   if current_block > largest_block then current_block else largest_block)
             else (free_blocks, largest_block))
          in s\<lparr>stats := (stats s)\<lparr>free_block_count := fb, largest_free_block := lb\<rparr>\<rparr>)"

definition update_statistics :: "frame_allocator \<Rightarrow> u64 \<Rightarrow> u64 \<Rightarrow> frame_allocator" where
  "update_statistics s usable reserved =
     update_fragmentation_stats
       (s\<lparr>stats := (stats s)\<lparr>usable_bytes := usable, reserved_bytes := reserved,
            st_free_frames := usize_sub (total_frames s) (allocated_frames s),
            st_allocated_frames := allocated_frames s\<rparr>\<rparr>)"

definition free_frame_count :: "frame_allocator \<Rightarrow> nat" where
  "free_frame_count s = usize_sub (total_frames s) (allocated_frames s)"

definition set_validation :: "frame_allocator \<Rightarrow> bool \<Rightarrow> frame_allocator" where
  "set_validation s enabled = s\<lparr>validation_enabled := enabled\<rparr>"

text \<open>\<open>u8::count_ones\<close>.\<close>

definition count_ones :: "u8 \<Rightarrow> nat" where
  "count_ones b = length (filter (bit b) [0..<8])"

definition validate_bitmap :: "frame_allocator \<Rightarrow> bool" where
  "validate_bitmap s =
     (let bitmap_bytes = (total_frames s + 7) div 8;
          counted = fold (\<lambda>byte n. n + count_ones byte) (take bitmap_bytes (BITMAP s)) 0
      in counted = allocated_frames s)"

definition self_test :: "frame_allocator \<Rightarrow> bool \<times> frame_allocator" where
  "self_test s =
     (if \<not> validate_bitmap s then (False, s)
      else case allocate_frame s of
        (None, s1) \<Rightarrow> (False, s1)
      | (Some addr, s1) \<Rightarrow>
          if \<not> validate_bitmap s1 then (False, snd (free_frame s1 addr))
          else case free_frame s1 addr of
            (Inl e, s2) \<Rightarrow> (False, s2)
          | (Inr _, s2) \<Rightarrow>
              if \<not> validate_bitmap s2 then (False, s2)
              else
                let (r3, s3) = free_frame s2 addr in
                if r3 \<noteq> Inl DoubleFree then (False, s3)
                else
                  let (r4, s4) = free_frame s3 (of_nat MAX_TRACKED_FRAMES * FRAME_SIZE + 0x1000) in
                  if r4 \<noteq> Inl InvalidFree then (False, s4)
                  else
                    let s5 = (case allocate_frames s4 4 of
                                (None, t) \<Rightarrow> t
                              | (Some block, t) \<Rightarrow> snd (free_frames t block 4))
                    in (validate_bitmap s5, s5))"

definition frame_to_address :: "nat \<Rightarrow> u64" where
  "frame_to_address frame = of_nat frame * FRAME_SIZE"

definition address_to_frame :: "u64 \<Rightarrow> nat" where
  "address_to_frame addr = unat (addr div FRAME_SIZE)"

definition pfa_default :: "u8 list \<Rightarrow> frame_allocator" where
  "pfa_default bitmap = pfa_new bitmap (128 * 1024 * 1024)"

section \<open>Abstraction and invariant\<close>

definition reserved_set :: "frame_allocator \<Rightarrow> nat set" where
  "reserved_set s = {f. f < total_frames s \<and> is_frame_reserved s f}"

text \<open>The bitmap is long enough for every tracked frame, and the bits of the last byte
  that stand for no frame are clear.\<close>

definition bitmap_wf :: "frame_allocator \<Rightarrow> bool" where
  "bitmap_wf s \<longleftrightarrow>
     (total_frames s + 7) div 8 \<le> length (BITMAP s) \<and>
     total_frames s \<le> MAX_TRACKED_FRAMES \<and>
     (\<forall>f. total_frames s \<le> f \<and> f < 8 * ((total_frames s + 7) div 8) \<longrightarrow>
          \<not> bit (BITMAP s ! (f div 8)) (f mod 8))"

text \<open>The count is the number of reserved frames, and the hint is a free frame or the
  end of the tracked range.\<close>

definition pfa_inv :: "frame_allocator \<Rightarrow> bool" where
  "pfa_inv s \<longleftrightarrow>
     bitmap_wf s \<and>
     allocated_frames s = card (reserved_set s) \<and>
     next_free s \<le> total_frames s \<and>
     (next_free s < total_frames s \<longrightarrow> \<not> is_frame_reserved s (next_free s))"

text \<open>The stronger hint property that every operation but \<open>allocate_frames\<close>
  keeps: no frame below the hint is free.\<close>

definition hint_tight :: "frame_allocator \<Rightarrow> bool" where
  "hint_tight s \<longleftrightarrow> (\<forall>f < next_free s. is_frame_reserved s f)"

section \<open>Bitmap lemmas\<close>

named_theorems pfa_defs "definitions of the allocator's small helpers"

declare count_failure_def [pfa_defs] count_invalid_free_def [pfa_defs] count_double_free_def [pfa_defs]

lemma is_frame_reserved_iff:
  "is_frame_reserved s f \<longleftrightarrow> total_frames s \<le> f \<or> bit (BITMAP s ! (f div 8)) (f mod 8)"
  unfolding is_frame_reserved_def and_push_bit_1_iff by simp

lemma is_frame_reserved_out [simp]: "total_frames s \<le> f \<Longrightarrow> is_frame_reserved s f"
  by (simp add: is_frame_reserved_def)

lemma is_frame_reserved_upd [simp]:
  "is_frame_reserved (s\<lparr>next_free := n\<rparr>) = is_frame_reserved s"
  "is_frame_reserved (s\<lparr>allocated_frames := n\<rparr>) = is_frame_reserved s"
  "is_frame_reserved (s\<lparr>stats := st\<rparr>) = is_frame_reserved s"
  "is_frame_reserved (s\<lparr>validation_enabled := v\<rparr>) = is_frame_reserved s"
  by (simp_all add: is_frame_reserved_def fun_eq_iff)

lemma reserved_set_upd [simp]:
  "reserved_set (s\<lparr>next_free := n\<rparr>) = reserved_set s"
  "reserved_set (s\<lparr>allocated_frames := n\<rparr>) = reserved_set s"
  "reserved_set (s\<lparr>stats := st\<rparr>) = reserved_set s"
  "reserved_set (s\<lparr>validation_enabled := v\<rparr>) = reserved_set s"
  by (simp_all add: reserved_set_def)

lemma bitmap_wf_upd [simp]:
  "bitmap_wf (s\<lparr>next_free := n\<rparr>) = bitmap_wf s"
  "bitmap_wf (s\<lparr>allocated_frames := n\<rparr>) = bitmap_wf s"
  "bitmap_wf (s\<lparr>stats := st\<rparr>) = bitmap_wf s"
  "bitmap_wf (s\<lparr>validation_enabled := v\<rparr>) = bitmap_wf s"
  by (simp_all add: bitmap_wf_def)

lemma finite_reserved_set [simp]: "finite (reserved_set s)"
  by (simp add: reserved_set_def)

lemma reserved_set_subset: "reserved_set s \<subseteq> {..<total_frames s}"
  by (auto simp: reserved_set_def)

lemma card_reserved_le: "card (reserved_set s) \<le> total_frames s"
  using card_mono [OF _ reserved_set_subset] by simp

lemma mem_reserved_set: "f \<in> reserved_set s \<longleftrightarrow> f < total_frames s \<and> is_frame_reserved s f"
  by (simp add: reserved_set_def)

lemma bitmap_wf_index:
  "bitmap_wf s \<Longrightarrow> f < total_frames s \<Longrightarrow> f div 8 < length (BITMAP s)"
  unfolding bitmap_wf_def by auto

lemma total_frames_bound: "bitmap_wf s \<Longrightarrow> total_frames s \<le> 1048576"
  by (simp add: bitmap_wf_def MAX_TRACKED_FRAMES_def)

lemma mark_frame_reserved_fields [simp]:
  "total_frames (mark_frame_reserved s f) = total_frames s"
  "allocated_frames (mark_frame_reserved s f) = allocated_frames s"
  "next_free (mark_frame_reserved s f) = next_free s"
  "stats (mark_frame_reserved s f) = stats s"
  "validation_enabled (mark_frame_reserved s f) = validation_enabled s"
  "length (BITMAP (mark_frame_reserved s f)) = length (BITMAP s)"
  by (simp_all add: mark_frame_reserved_def)

lemma mark_frame_free_fields [simp]:
  "total_frames (mark_frame_free s f) = total_frames s"
  "allocated_frames (mark_frame_free s f) = allocated_frames s"
  "stats (mark_frame_free s f) = stats s"
  "validation_enabled (mark_frame_free s f) = validation_enabled s"
  "length (BITMAP (mark_frame_free s f)) = length (BITMAP s)"
  by (simp_all add: mark_frame_free_def)

lemma next_free_mark_frame_free:
  "f < total_frames s \<Longrightarrow> next_free (mark_frame_free s f) = min f (next_free s)"
  by (simp add: mark_frame_free_def)

text \<open>Reading any bit after one of the two bitmap updates.\<close>

lemma bit_mark_frame_reserved:
  assumes "bitmap_wf s" and "f < total_frames s"
  shows "bit (BITMAP (mark_frame_reserved s f) ! (g div 8)) (g mod 8) \<longleftrightarrow>
         bit (BITMAP s ! (g div 8)) (g mod 8) \<or> g = f"
proof -
  have "f div 8 < length (BITMAP s)"
    using assms by (rule bitmap_wf_index)
  then show ?thesis
    using assms(2) div_mod_8_eq_iff [of f g]
    by (auto simp: mark_frame_reserved_def nth_list_update bit_simps)
qed

lemma bit_mark_frame_free:
  assumes "bitmap_wf s" and "f < total_frames s"
  shows "bit (BITMAP (mark_frame_free s f) ! (g div 8)) (g mod 8) \<longleftrightarrow>
         bit (BITMAP s ! (g div 8)) (g mod 8) \<and> g \<noteq> f"
proof -
  have "f div 8 < length (BITMAP s)"
    using assms by (rule bitmap_wf_index)
  then show ?thesis
    using assms(2) div_mod_8_eq_iff [of f g]
    by (auto simp: mark_frame_free_def nth_list_update bit_simps)
qed

lemma is_frame_reserved_mark_reserved [simp]:
  "bitmap_wf s \<Longrightarrow> f < total_frames s \<Longrightarrow>
   is_frame_reserved (mark_frame_reserved s f) g \<longleftrightarrow> is_frame_reserved s g \<or> g = f"
  by (auto simp: is_frame_reserved_iff bit_mark_frame_reserved)

lemma is_frame_reserved_mark_free [simp]:
  "bitmap_wf s \<Longrightarrow> f < total_frames s \<Longrightarrow>
   is_frame_reserved (mark_frame_free s f) g \<longleftrightarrow> is_frame_reserved s g \<and> g \<noteq> f"
  by (auto simp: is_frame_reserved_iff bit_mark_frame_free)

lemma bitmap_wf_mark_frame_reserved [simp]:
  "bitmap_wf s \<Longrightarrow> bitmap_wf (mark_frame_reserved s f)"
proof (cases "f < total_frames s")
  case True
  assume "bitmap_wf s"
  then show ?thesis
    using True bit_mark_frame_reserved [OF \<open>bitmap_wf s\<close> True]
    by (auto simp: bitmap_wf_def)
qed (simp add: mark_frame_reserved_def)

lemma bitmap_wf_mark_frame_free [simp]:
  "bitmap_wf s \<Longrightarrow> bitmap_wf (mark_frame_free s f)"
proof (cases "f < total_frames s")
  case True
  assume "bitmap_wf s"
  then show ?thesis
    using True bit_mark_frame_free [OF \<open>bitmap_wf s\<close> True]
    by (auto simp: bitmap_wf_def)
qed (simp add: mark_frame_free_def)

lemma reserved_set_mark_reserved [simp]:
  "bitmap_wf s \<Longrightarrow> f < total_frames s \<Longrightarrow>
   reserved_set (mark_frame_reserved s f) = insert f (reserved_set s)"
  by (auto simp: reserved_set_def)

lemma reserved_set_mark_free [simp]:
  "bitmap_wf s \<Longrightarrow> f < total_frames s \<Longrightarrow>
   reserved_set (mark_frame_free s f) = reserved_set s - {f}"
  by (auto simp: reserved_set_def)

lemma skip_reserved_props:
  assumes "n \<le> total_frames s"
  shows "n \<le> skip_reserved s n \<and> skip_reserved s n \<le> total_frames s
    \<and> (skip_reserved s n < total_frames s \<longrightarrow> \<not> is_frame_reserved s (skip_reserved s n))
    \<and> (\<forall>f. n \<le> f \<and> f < skip_reserved s n \<longrightarrow> is_frame_reserved s f)"
  using assms
proof (induction s n rule: skip_reserved.induct)
  case (1 s n)
  show ?case
  proof (cases "n < total_frames s \<and> is_frame_reserved s n")
    case True
    then have "skip_reserved s n = skip_reserved s (n + 1)"
      by (simp add: skip_reserved.simps)
    with "1.IH" [OF True] True show ?thesis
      by (auto simp: Suc_le_eq le_eq_less_or_eq [of n])
  next
    case False
    then show ?thesis
      using "1.prems" by (auto simp: skip_reserved.simps [of s n])
  qed
qed

lemmas skip_reserved_ge = skip_reserved_props [THEN conjunct1]
  and skip_reserved_le = skip_reserved_props [THEN conjunct2, THEN conjunct1]
  and skip_reserved_free = skip_reserved_props [THEN conjunct2, THEN conjunct2, THEN conjunct1, rule_format]
  and skip_reserved_below = skip_reserved_props [THEN conjunct2, THEN conjunct2, THEN conjunct2, rule_format]

section \<open>Reservation\<close>

text \<open>The part of the invariant that does not mention the hint.\<close>

definition pfa_core :: "frame_allocator \<Rightarrow> bool" where
  "pfa_core s \<longleftrightarrow> bitmap_wf s \<and> allocated_frames s = card (reserved_set s)"

lemma pfa_inv_core: "pfa_inv s \<Longrightarrow> pfa_core s"
  by (simp add: pfa_inv_def pfa_core_def)

lemma pfa_core_upd [simp]:
  "pfa_core (s\<lparr>next_free := n\<rparr>) = pfa_core s"
  "pfa_core (s\<lparr>stats := st\<rparr>) = pfa_core s"
  "pfa_core (s\<lparr>validation_enabled := v\<rparr>) = pfa_core s"
  by (simp_all add: pfa_core_def)

lemma count_stats_inv [simp]:
  "pfa_inv (count_failure s) = pfa_inv s" "hint_tight (count_failure s) = hint_tight s"
  "pfa_inv (count_invalid_free s) = pfa_inv s" "hint_tight (count_invalid_free s) = hint_tight s"
  "pfa_inv (count_double_free s) = pfa_inv s" "hint_tight (count_double_free s) = hint_tight s"
  by (simp_all add: pfa_defs pfa_inv_def hint_tight_def)

lemma count_stats_fields [simp]:
  "reserved_set (count_failure s) = reserved_set s"
  "reserved_set (count_invalid_free s) = reserved_set s"
  "reserved_set (count_double_free s) = reserved_set s"
  "total_frames (count_failure s) = total_frames s"
  "total_frames (count_invalid_free s) = total_frames s"
  "total_frames (count_double_free s) = total_frames s"
  "validation_enabled (count_failure s) = validation_enabled s"
  "validation_enabled (count_invalid_free s) = validation_enabled s"
  "validation_enabled (count_double_free s) = validation_enabled s"
  by (simp_all add: pfa_defs)

lemma core_bounds:
  assumes "pfa_core s"
  shows "allocated_frames s \<le> total_frames s" and "total_frames s \<le> 1048576"
  using assms card_reserved_le [of s] total_frames_bound [of s] by (auto simp: pfa_core_def)

lemma recalculate_next_free_props [simp]:
  "total_frames (recalculate_next_free s) = total_frames s"
  "reserved_set (recalculate_next_free s) = reserved_set s"
  "allocated_frames (recalculate_next_free s) = allocated_frames s"
  "stats (recalculate_next_free s) = stats s"
  "validation_enabled (recalculate_next_free s) = validation_enabled s"
  by (simp_all add: recalculate_next_free_def)

lemma recalculate_next_free_inv:
  "pfa_core s \<Longrightarrow> pfa_inv (recalculate_next_free s) \<and> hint_tight (recalculate_next_free s)"
  using skip_reserved_props [of 0 s]
  by (auto simp: pfa_inv_def hint_tight_def pfa_core_def recalculate_next_free_def)

lemma reserve_frame_fields [simp]:
  "total_frames (reserve_frame f s) = total_frames s"
  "stats (reserve_frame f s) = stats s"
  "validation_enabled (reserve_frame f s) = validation_enabled s"
  by (simp_all add: reserve_frame_def)

lemma reserve_frame_core:
  assumes "pfa_core s" and "f < total_frames s"
  shows "pfa_core (reserve_frame f s)" and "reserved_set (reserve_frame f s) = insert f (reserved_set s)"
proof -
  have wf: "bitmap_wf s"
    using assms(1) by (simp add: pfa_core_def)
  have bounds: "allocated_frames s + 1 < 2 ^ 64"
    using core_bounds [OF assms(1)] by simp
  show "reserved_set (reserve_frame f s) = insert f (reserved_set s)"
    using assms wf by (auto simp: reserve_frame_def mem_reserved_set)
  show "pfa_core (reserve_frame f s)"
  proof (cases "is_frame_reserved s f")
    case True
    then show ?thesis using assms(1) by (simp add: reserve_frame_def)
  next
    case False
    then have "f \<notin> reserved_set s"
      by (simp add: mem_reserved_set)
    with False assms wf bounds show ?thesis
      by (simp add: reserve_frame_def pfa_core_def)
  qed
qed

lemma fold_reserve_frame:
  fixes a b :: nat and s :: frame_allocator
  assumes "pfa_core s" and "b \<le> total_frames s"
  defines "t \<equiv> fold reserve_frame [a..<b] s"
  shows "pfa_core t" and "reserved_set t = reserved_set s \<union> {a..<b}"
    and "total_frames t = total_frames s" and "stats t = stats s"
    and "validation_enabled t = validation_enabled s"
proof -
  let ?I = "\<lambda>i u. pfa_core u \<and> total_frames u = total_frames s
      \<and> reserved_set u = reserved_set s \<union> {a..<i}"
  have "?I (max a b) t"
    unfolding t_def
  proof (rule fold_upt_invariant)
    show "?I a s" using assms(1) by simp
  next
    fix i u
    assume "a \<le> i" "i < b" "?I i u"
    then show "?I (Suc i) (reserve_frame i u)"
      using reserve_frame_core [of u i] assms(2) by (auto simp: atLeastLessThanSuc)
  qed
  then show "pfa_core t" and "reserved_set t = reserved_set s \<union> {a..<b}"
    and "total_frames t = total_frames s"
    by (auto simp: max_def split: if_splits)
  show "stats t = stats s" "validation_enabled t = validation_enabled s"
    unfolding t_def by (rule fold_field_const, simp)+
qed

lemma reserve_range_ok [simp]: "fst (reserve_range s a b) = Inr ()"
  by (simp add: reserve_range_def Let_def)

definition range_frames :: "frame_allocator \<Rightarrow> u64 \<Rightarrow> u64 \<Rightarrow> nat set" where
  "range_frames s start end_addr =
     {unat (start div FRAME_SIZE) ..<
      min (unat ((end_addr + FRAME_SIZE - 1) div FRAME_SIZE)) (total_frames s)}"

lemma reserve_range_spec:
  fixes a b :: u64 and s :: frame_allocator
  assumes "pfa_core s"
  defines "t \<equiv> snd (reserve_range s a b)"
  shows "pfa_inv t" "hint_tight t" "reserved_set t = reserved_set s \<union> range_frames s a b"
    "total_frames t = total_frames s" "stats t = stats s"
    "validation_enabled t = validation_enabled s"
proof -
  let ?b = "min (unat ((b + FRAME_SIZE - 1) div FRAME_SIZE)) (total_frames s)"
  have t: "t = recalculate_next_free (fold reserve_frame [unat (a div FRAME_SIZE)..<?b] s)"
    by (simp add: t_def reserve_range_def Let_def)
  note fold = fold_reserve_frame [OF assms(1), of ?b "unat (a div FRAME_SIZE)"]
  have "pfa_inv t \<and> hint_tight t"
    unfolding t by (rule recalculate_next_free_inv) (simp add: fold)
  then show "pfa_inv t" "hint_tight t" by auto
  show "reserved_set t = reserved_set s \<union> range_frames s a b"
    "total_frames t = total_frames s" "stats t = stats s"
    "validation_enabled t = validation_enabled s"
    unfolding t using fold by (simp_all add: range_frames_def)
qed

lemma range_frames_total: "total_frames t = total_frames s \<Longrightarrow> range_frames t = range_frames s"
  by (simp add: range_frames_def fun_eq_iff)

text \<open>A sequence of reservations reserves the union of the ranges.\<close>

lemma fold_reserve_range:
  fixes rs :: "(u64 \<times> u64) list" and s :: frame_allocator
  assumes "pfa_core s"
  defines "t \<equiv> fold (\<lambda>(a, b) s. snd (reserve_range s a b)) rs s"
  shows "pfa_core t" "rs \<noteq> [] \<Longrightarrow> pfa_inv t \<and> hint_tight t"
    "reserved_set t = reserved_set s \<union> (\<Union>(a, b) \<in> set rs. range_frames s a b)"
    "total_frames t = total_frames s" "stats t = stats s"
    "validation_enabled t = validation_enabled s"
proof -
  have "pfa_core t \<and> (rs \<noteq> [] \<longrightarrow> pfa_inv t \<and> hint_tight t)
    \<and> reserved_set t = reserved_set s \<union> (\<Union>(a, b) \<in> set rs. range_frames s a b)
    \<and> total_frames t = total_frames s \<and> stats t = stats s
    \<and> validation_enabled t = validation_enabled s"
    unfolding t_def using assms(1)
  proof (induction rs arbitrary: s)
    case Nil
    then show ?case by simp
  next
    case (Cons r rs)
    obtain a b where r: "r = (a, b)" by (cases r)
    let ?u = "snd (reserve_range s a b)"
    note u = reserve_range_spec [OF Cons.prems, of a b]
    have "range_frames ?u = range_frames s"
      using u(4) by (rule range_frames_total)
    then show ?case
      using Cons.IH [OF pfa_inv_core [OF u(1)]] u r
      by (cases rs) (auto simp: Un_assoc)
  qed
  then show "pfa_core t" "rs \<noteq> [] \<Longrightarrow> pfa_inv t \<and> hint_tight t"
    "reserved_set t = reserved_set s \<union> (\<Union>(a, b) \<in> set rs. range_frames s a b)"
    "total_frames t = total_frames s" "stats t = stats s"
    "validation_enabled t = validation_enabled s"
    by auto
qed

section \<open>Addresses\<close>

lemma unat_frame_to_address:
  assumes "f \<le> 1048576"
  shows "unat (frame_to_address f) = f * 4096"
proof -
  have "unat (of_nat f :: u64) = f"
    using assms by (simp add: unat_of_nat)
  then show ?thesis
    using assms by (simp add: frame_to_address_def FRAME_SIZE_def unat_mult_lem [THEN iffD1])
qed

lemma address_to_frame_inverse [simp]:
  "f \<le> 1048576 \<Longrightarrow> address_to_frame (frame_to_address f) = f"
  by (simp add: address_to_frame_def unat_div unat_frame_to_address FRAME_SIZE_def)

lemma frame_to_address_range: "f \<le> 1048576 \<Longrightarrow> unat (frame_to_address f) < 2 ^ 52"
  by (simp add: unat_frame_to_address)

lemmas address_folds = frame_to_address_def [symmetric] address_to_frame_def [symmetric]

section \<open>Allocation\<close>

lemma allocate_frame_none:
  "next_free s \<ge> total_frames s \<Longrightarrow> allocate_frame s = (None, count_failure s)"
  by (simp add: allocate_frame_def)

lemma allocate_frame_some:
  assumes inv: "pfa_inv s" and nf: "next_free s < total_frames s"
  defines "t \<equiv> snd (allocate_frame s)"
  shows "fst (allocate_frame s) = Some (frame_to_address (next_free s))"
    and "next_free s \<notin> reserved_set s"
    and "reserved_set t = insert (next_free s) (reserved_set s)"
    and "pfa_inv t" and "hint_tight s \<Longrightarrow> hint_tight t"
    and "total_frames t = total_frames s" and "stats t = stats s"
    and "validation_enabled t = validation_enabled s"
    and "next_free s < next_free t"
proof -
  let ?n = "next_free s"
  define u where
    "u = (mark_frame_reserved s ?n)\<lparr>allocated_frames := usize_add (allocated_frames s) 1\<rparr>"
  have wf: "bitmap_wf s" and free: "\<not> is_frame_reserved s ?n"
    using inv nf by (auto simp: pfa_inv_def)
  have eq: "allocate_frame s = (Some (frame_to_address ?n), u\<lparr>next_free := skip_reserved u ?n\<rparr>)"
    using nf by (simp add: allocate_frame_def Let_def u_def frame_to_address_def)
  then have t: "t = u\<lparr>next_free := skip_reserved u ?n\<rparr>"
    by (simp add: t_def)
  have bounds: "allocated_frames s + 1 < 2 ^ 64"
    using core_bounds [OF pfa_inv_core [OF inv]] by simp
  have tf: "total_frames u = total_frames s"
    by (simp add: u_def)
  have ru: "is_frame_reserved u g \<longleftrightarrow> is_frame_reserved s g \<or> g = ?n" for g
    using wf nf by (simp add: u_def)
  have alloc: "allocated_frames u = Suc (allocated_frames s)"
    using bounds by (simp add: u_def)
  note skip = skip_reserved_props [of ?n u]
  show "fst (allocate_frame s) = Some (frame_to_address ?n)"
    by (simp add: eq)
  show notin: "?n \<notin> reserved_set s"
    using free by (simp add: mem_reserved_set)
  show rs: "reserved_set t = insert ?n (reserved_set s)"
    using wf nf by (simp add: t u_def)
  show "total_frames t = total_frames s" "stats t = stats s"
    "validation_enabled t = validation_enabled s"
    by (simp_all add: t u_def)
  have "bitmap_wf u"
    using wf by (simp add: u_def)
  moreover have "card (reserved_set t) = Suc (card (reserved_set s))"
    using notin by (simp add: rs)
  ultimately show "pfa_inv t"
    using inv nf skip tf alloc rs by (auto simp: pfa_inv_def t)
  show "?n < next_free t"
  proof -
    have "skip_reserved u ?n \<noteq> ?n"
      using skip nf ru tf by auto
    then show ?thesis using skip nf tf by (simp add: t)
  qed
  show "hint_tight t" if "hint_tight s"
    using that skip nf tf ru unfolding hint_tight_def t
    by simp (metis linorder_not_le)
qed

lemma find_offset_None:
  "List.find P [0..<n] = None \<longleftrightarrow> (\<forall>i<n. \<not> P i)"
  by (auto simp: find_None_iff)

lemma find_offset_Some:
  "List.find P [0..<n] = Some i \<Longrightarrow> i < n \<and> P i"
  by (auto simp: find_Some_iff)

text \<open>The search finds the first block of free frames at or after the position it
  starts from, and fails only when there is none.\<close>

definition block_free :: "frame_allocator \<Rightarrow> nat \<Rightarrow> nat \<Rightarrow> bool" where
  "block_free s count b \<longleftrightarrow> b + count \<le> total_frames s \<and> (\<forall>f \<in> {b..<b + count}. \<not> is_frame_reserved s f)"

lemma find_block_spec:
  "case find_block s count start of
     Some b \<Rightarrow> start \<le> b \<and> block_free s count b \<and> (\<forall>b'. start \<le> b' \<and> b' < b \<longrightarrow> \<not> block_free s count b')
   | None \<Rightarrow> \<forall>b'\<ge>start. \<not> block_free s count b'"
proof (induction s count start rule: find_block.induct)
  case (1 s count start)
  let ?find = "List.find (\<lambda>offset. is_frame_reserved s (start + offset)) [0..<count]"
  show ?case
  proof (cases "start + count \<le> total_frames s")
    case False
    then show ?thesis
      by (auto simp: find_block.simps [of s count start] block_free_def)
  next
    case le: True
    show ?thesis
    proof (cases ?find)
      case None
      then have "\<not> is_frame_reserved s (start + i)" if "i < count" for i
        using that by (auto simp: find_None_iff)
      then have "\<not> is_frame_reserved s f" if "f \<in> {start..<start + count}" for f
        using that by (metis atLeastLessThan_iff le_Suc_ex nat_add_left_cancel_less)
      then show ?thesis
        using le None by (simp add: find_block.simps [of s count start] block_free_def)
    next
      case (Some i)
      then have i: "i < count" "is_frame_reserved s (start + i)"
        using find_offset_Some by auto
      have skip: "\<not> block_free s count b'" if "start \<le> b'" "b' < start + (i + 1)" for b'
      proof -
        have "start + i \<in> {b'..<b' + count}"
          using that i(1) by auto
        then show ?thesis
          using i(2) unfolding block_free_def by blast
      qed
      have "find_block s count start = find_block s count (start + (i + 1))"
        using le Some by (simp add: find_block.simps [of s count start])
      then show ?thesis
        using "1.IH" [OF le Some] skip
        by (simp split: option.splits) (metis add_leD1 linorder_not_le)+
    qed
  qed
qed

lemma fold_mark_reserved:
  fixes b count :: nat and s :: frame_allocator
  assumes "bitmap_wf s" and "b + count \<le> total_frames s"
  defines "t \<equiv> fold (\<lambda>offset s. mark_frame_reserved s (b + offset)) [0..<count] s"
  shows "bitmap_wf t" "reserved_set t = reserved_set s \<union> {b..<b + count}"
    "total_frames t = total_frames s" "allocated_frames t = allocated_frames s"
    "next_free t = next_free s" "stats t = stats s" "validation_enabled t = validation_enabled s"
proof -
  let ?I = "\<lambda>i u. bitmap_wf u \<and> total_frames u = total_frames s
      \<and> reserved_set u = reserved_set s \<union> {b..<b + i}"
  have "?I (max 0 count) t"
    unfolding t_def
    by (rule fold_upt_invariant) (use assms in \<open>auto simp: atLeastLessThanSuc\<close>)
  then show "bitmap_wf t" "reserved_set t = reserved_set s \<union> {b..<b + count}"
    "total_frames t = total_frames s" by auto
  show "allocated_frames t = allocated_frames s" "next_free t = next_free s"
    "stats t = stats s" "validation_enabled t = validation_enabled s"
    unfolding t_def by (rule fold_field_const, simp)+
qed

lemma reserved_set_iff:
  "f < total_frames s \<Longrightarrow> is_frame_reserved s f \<longleftrightarrow> f \<in> reserved_set s"
  by (simp add: mem_reserved_set)

lemma allocate_frames_none:
  assumes "count > total_frames s \<or> find_block s count (next_free s) = None" and "count \<noteq> 0"
  shows "allocate_frames s count = (None, count_failure s)"
  using assms by (auto simp: allocate_frames_def split: option.splits)

lemma allocate_frames_some:
  fixes s :: frame_allocator and count b :: nat
  assumes inv: "pfa_inv s" and cnt: "0 < count" "count \<le> total_frames s"
    and find: "find_block s count (next_free s) = Some b"
  defines "t \<equiv> snd (allocate_frames s count)"
  shows "fst (allocate_frames s count) = Some (frame_to_address b)"
    and "b + count \<le> total_frames s"
    and "{b..<b + count} \<inter> reserved_set s = {}"
    and "reserved_set t = reserved_set s \<union> {b..<b + count}"
    and "pfa_inv t" and "total_frames t = total_frames s" and "stats t = stats s"
    and "validation_enabled t = validation_enabled s"
    and "b + count \<le> next_free t"
proof -
  define u1 where "u1 = fold (\<lambda>offset s. mark_frame_reserved s (b + offset)) [0..<count] s"
  define u where "u = u1\<lparr>allocated_frames := usize_add (allocated_frames u1) count\<rparr>"
  have wf: "bitmap_wf s"
    using inv by (simp add: pfa_inv_def)
  from find_block_spec [where s = s and count = count and start = "next_free s"] find
  have blk: "block_free s count b" by simp
  then show le: "b + count \<le> total_frames s"
    by (simp add: block_free_def)
  note u1 = fold_mark_reserved [OF wf le, folded u1_def]
  from blk show disj: "{b..<b + count} \<inter> reserved_set s = {}"
    by (auto simp: block_free_def mem_reserved_set)
  have eq: "allocate_frames s count =
      (Some (frame_to_address b), u\<lparr>next_free := skip_reserved u (b + count)\<rparr>)"
    using cnt find by (simp add: allocate_frames_def Let_def u_def u1_def frame_to_address_def)
  then have t: "t = u\<lparr>next_free := skip_reserved u (b + count)\<rparr>"
    by (simp add: t_def)
  show "fst (allocate_frames s count) = Some (frame_to_address b)"
    by (simp add: eq)
  show rs: "reserved_set t = reserved_set s \<union> {b..<b + count}"
    by (simp add: t u_def u1)
  show "total_frames t = total_frames s" "stats t = stats s"
    "validation_enabled t = validation_enabled s"
    by (simp_all add: t u_def u1)
  show "b + count \<le> next_free t"
    using le u1(3) skip_reserved_ge [of "b + count" u] by (simp add: t u_def)
  have "card (reserved_set s \<union> {b..<b + count}) = card (reserved_set s) + count"
    using disj by (subst card_Un_disjoint) auto
  moreover have "allocated_frames s + count < 2 ^ 64"
    using core_bounds [OF pfa_inv_core [OF inv]] cnt by simp
  ultimately show "pfa_inv t"
    using inv u1 rs le skip_reserved_props [of "b + count" u]
    by (auto simp: pfa_inv_def t u_def)
qed

section \<open>Deallocation\<close>

lemma free_frame_invalid:
  "address_to_frame addr \<ge> total_frames s \<Longrightarrow>
   free_frame s addr = (Inl InvalidFree, count_invalid_free s)"
  by (simp add: free_frame_def address_folds)

lemma free_frame_double:
  "address_to_frame addr < total_frames s \<Longrightarrow> address_to_frame addr \<notin> reserved_set s \<Longrightarrow>
   free_frame s addr = (Inl DoubleFree, count_double_free s)"
  by (simp add: free_frame_def address_folds mem_reserved_set)

lemma free_frame_ok:
  fixes s :: frame_allocator and addr :: u64
  assumes inv: "pfa_inv s" and mem: "address_to_frame addr \<in> reserved_set s"
  defines "t \<equiv> snd (free_frame s addr)" and "f \<equiv> address_to_frame addr"
  shows "fst (free_frame s addr) = Inr ()"
    and "reserved_set t = reserved_set s - {f}"
    and "pfa_inv t" and "hint_tight s \<Longrightarrow> hint_tight t"
    and "total_frames t = total_frames s" and "stats t = stats s"
    and "validation_enabled t = validation_enabled s"
proof -
  let ?u = "mark_frame_free s f"
  have wf: "bitmap_wf s" and f: "f < total_frames s" "is_frame_reserved s f"
    using inv mem by (auto simp: pfa_inv_def mem_reserved_set f_def)
  have eq: "free_frame s addr = (Inr (), ?u\<lparr>allocated_frames := usize_sub (allocated_frames ?u) 1\<rparr>)"
    using f by (simp add: free_frame_def address_folds f_def [symmetric] Let_def)
  then have t: "t = ?u\<lparr>allocated_frames := usize_sub (allocated_frames ?u) 1\<rparr>"
    by (simp add: t_def)
  show "fst (free_frame s addr) = Inr ()"
    by (simp add: eq)
  show rs: "reserved_set t = reserved_set s - {f}"
    using wf f by (simp add: t)
  show "total_frames t = total_frames s" "stats t = stats s"
    "validation_enabled t = validation_enabled s"
    by (simp_all add: t)
  have pos: "0 < card (reserved_set s)"
    using mem by (auto simp: card_gt_0_iff)
  have "card (reserved_set s - {f}) = card (reserved_set s) - 1"
    using mem by (simp add: f_def)
  moreover have "usize_sub (card (reserved_set s)) 1 = card (reserved_set s) - 1"
    using core_bounds [OF pfa_inv_core [OF inv]] inv pos by (simp add: pfa_inv_def)
  ultimately show "pfa_inv t"
    using inv wf f rs by (auto simp: pfa_inv_def t next_free_mark_frame_free min_def)
  show "hint_tight t" if "hint_tight s"
    using that wf f by (auto simp: hint_tight_def t next_free_mark_frame_free)
qed

text \<open>The hint part of the invariant, kept by every \<open>mark_frame_free\<close>.\<close>

definition hint_ok :: "frame_allocator \<Rightarrow> bool" where
  "hint_ok s \<longleftrightarrow> next_free s \<le> total_frames s \<and>
     (next_free s < total_frames s \<longrightarrow> \<not> is_frame_reserved s (next_free s))"

lemma pfa_inv_split: "pfa_inv s \<longleftrightarrow> pfa_core s \<and> hint_ok s"
  by (auto simp: pfa_inv_def pfa_core_def hint_ok_def)

lemma mark_frame_free_hints:
  assumes "bitmap_wf s" and "f < total_frames s"
  shows "hint_ok s \<Longrightarrow> hint_ok (mark_frame_free s f)"
    and "hint_tight s \<Longrightarrow> hint_tight (mark_frame_free s f)"
  using assms by (auto simp: hint_ok_def hint_tight_def next_free_mark_frame_free min_def)

lemma fold_mark_free:
  fixes a b :: nat and s :: frame_allocator
  assumes "bitmap_wf s" and "b \<le> total_frames s"
  defines "t \<equiv> fold (\<lambda>frame s. mark_frame_free s frame) [a..<b] s"
  shows "bitmap_wf t" "reserved_set t = reserved_set s - {a..<b}"
    "total_frames t = total_frames s" "allocated_frames t = allocated_frames s"
    "stats t = stats s" "validation_enabled t = validation_enabled s"
    "hint_ok s \<Longrightarrow> hint_ok t" "hint_tight s \<Longrightarrow> hint_tight t"
proof -
  let ?I = "\<lambda>i u. bitmap_wf u \<and> total_frames u = total_frames s
      \<and> reserved_set u = reserved_set s - {a..<i} \<and> (hint_ok s \<longrightarrow> hint_ok u)
      \<and> (hint_tight s \<longrightarrow> hint_tight u)"
  have "?I (max a b) t"
    unfolding t_def
    by (rule fold_upt_invariant)
      (use assms in \<open>auto simp: atLeastLessThanSuc mark_frame_free_hints\<close>)
  then show "bitmap_wf t" "reserved_set t = reserved_set s - {a..<b}"
    "total_frames t = total_frames s" "hint_ok s \<Longrightarrow> hint_ok t" "hint_tight s \<Longrightarrow> hint_tight t"
    by (auto simp: max_def split: if_splits)
  show "allocated_frames t = allocated_frames s"
    "stats t = stats s" "validation_enabled t = validation_enabled s"
    unfolding t_def by (rule fold_field_const, simp)+
qed

lemma free_frames_invalid:
  "usize_add (address_to_frame addr) count > total_frames s \<Longrightarrow>
   free_frames s addr count = (Inl InvalidFree, count_invalid_free s)"
  by (simp add: free_frames_def address_folds)

lemma free_frames_double:
  assumes "address_to_frame addr + count \<le> total_frames s" and "total_frames s < 2 ^ 64"
    and "validation_enabled s"
    and "\<not> {address_to_frame addr ..< address_to_frame addr + count} \<subseteq> reserved_set s"
  shows "free_frames s addr count = (Inl DoubleFree, count_double_free s)"
proof -
  have "\<exists>f \<in> {address_to_frame addr ..< address_to_frame addr + count}. \<not> is_frame_reserved s f"
    using assms(1,4) by (force simp: mem_reserved_set)
  then show ?thesis
    using assms(1-3) by (simp add: free_frames_def address_folds)
qed

lemma free_frames_ok:
  fixes s :: frame_allocator and addr :: u64 and count :: nat
  assumes inv: "pfa_inv s"
    and le: "address_to_frame addr + count \<le> total_frames s"
    and sub: "{address_to_frame addr ..< address_to_frame addr + count} \<subseteq> reserved_set s"
  defines "t \<equiv> snd (free_frames s addr count)" and "f \<equiv> address_to_frame addr"
  shows "fst (free_frames s addr count) = Inr ()"
    and "reserved_set t = reserved_set s - {f..<f + count}"
    and "pfa_inv t" and "hint_tight s \<Longrightarrow> hint_tight t"
    and "total_frames t = total_frames s" and "stats t = stats s"
    and "validation_enabled t = validation_enabled s"
proof -
  define u where "u = fold (\<lambda>frame s. mark_frame_free s frame) [f..<f + count] s"
  have wf: "bitmap_wf s" and hint: "hint_ok s"
    using inv by (auto simp: pfa_inv_split pfa_core_def)
  have le': "f + count \<le> total_frames s"
    using le by (simp add: f_def)
  note u = fold_mark_free [OF wf le', of f, folded u_def]
  have "usize_add f count = f + count"
    using le' total_frames_bound [OF wf] by simp
  moreover have "\<not> (\<exists>x \<in> set [f..<f + count]. \<not> is_frame_reserved s x)"
    using sub by (auto simp: f_def mem_reserved_set subset_iff)
  ultimately have eq: "free_frames s addr count =
      (Inr (), u\<lparr>allocated_frames := usize_sub (allocated_frames u) count\<rparr>)"
    using le' by (simp add: free_frames_def address_folds f_def [symmetric] u_def Let_def)
  then have t: "t = u\<lparr>allocated_frames := usize_sub (allocated_frames u) count\<rparr>"
    by (simp add: t_def)
  show "fst (free_frames s addr count) = Inr ()"
    by (simp add: eq)
  show rs: "reserved_set t = reserved_set s - {f..<f + count}"
    by (simp add: t u)
  show "total_frames t = total_frames s" "stats t = stats s"
    "validation_enabled t = validation_enabled s"
    by (simp_all add: t u)
  have "card (reserved_set s - {f..<f + count}) = card (reserved_set s) - count"
    using sub by (subst card_Diff_subset) (auto simp: f_def)
  moreover have "count \<le> card (reserved_set s)"
    using card_mono [OF finite_reserved_set sub] by simp
  ultimately show "pfa_inv t"
    using inv rs u core_bounds [OF pfa_inv_core [OF inv]]
    by (auto simp: pfa_inv_split pfa_core_def hint_ok_def t)
  show "hint_tight t" if "hint_tight s"
    using that u(8) by (auto simp: hint_tight_def t)
qed

section \<open>Construction\<close>

lemma pfa_new_spec:
  fixes bm :: "u8 list" and total :: u64
  assumes "length bm = BITMAP_SIZE"
  defines "s \<equiv> pfa_new bm total"
  shows "pfa_inv s" "hint_tight s" "reserved_set s = {}"
    "total_frames s = min (unat total div 4096) MAX_TRACKED_FRAMES" "validation_enabled s"
    "length (BITMAP s) = BITMAP_SIZE"
proof -
  let ?n = "min (unat total div 4096) MAX_TRACKED_FRAMES"
  let ?k = "(?n + 7) div 8"
  have n: "min (unat (total div FRAME_SIZE)) MAX_TRACKED_FRAMES = ?n"
    by (simp add: FRAME_SIZE_def unat_div)
  show tf: "total_frames s = ?n" and "validation_enabled s"
    unfolding s_def pfa_new_def Let_def n by simp_all
  have bm: "BITMAP s = replicate ?k 0 @ drop ?k bm"
    unfolding s_def pfa_new_def Let_def n by simp
  have k: "?k \<le> BITMAP_SIZE"
    unfolding BITMAP_SIZE_def by (rule div_le_mono) simp
  then show len: "length (BITMAP s) = BITMAP_SIZE"
    using assms(1) by (simp add: bm)
  have zero: "\<not> bit (BITMAP s ! (f div 8)) (f mod 8)" if "f < 8 * ?k" for f
  proof -
    have "f div 8 < ?k" using that by (simp add: less_mult_imp_div_less mult.commute)
    then show ?thesis by (simp add: bm nth_append)
  qed
  have free: "\<not> is_frame_reserved s f" if "f < ?n" for f
  proof -
    have "f < 8 * ?k" using that le_8_mult_div [of ?n] by (rule less_le_trans)
    with that zero [of f] show ?thesis
      unfolding is_frame_reserved_iff tf not_le [symmetric] by blast
  qed
  then show rs: "reserved_set s = {}"
    by (auto simp: reserved_set_def tf)
  have nf: "next_free s = 0" and alloc: "allocated_frames s = 0"
    by (simp_all add: s_def pfa_new_def Let_def)
  have "?n \<le> MAX_TRACKED_FRAMES" by simp
  then have "bitmap_wf s"
    unfolding bitmap_wf_def tf len using k zero by blast
  then show "pfa_inv s"
    unfolding pfa_inv_def nf alloc rs tf using free by simp
  show "hint_tight s"
    by (simp add: hint_tight_def nf)
qed

section \<open>Bitmap validation\<close>

lemma card_byte_bits: "count_ones b = card {i. i < 8 \<and> bit b i}"
proof -
  have "count_ones b = length (filter (bit b) [0..<8])"
    by (simp add: count_ones_def)
  also have "\<dots> = card (set (filter (bit b) [0..<8]))"
    by (rule distinct_card [symmetric]) simp
  also have "set (filter (bit b) [0..<8]) = {i. i < 8 \<and> bit b i}"
    by auto
  finally show ?thesis .
qed

lemma fold_count_ones:
  "fold (\<lambda>byte n. n + count_ones byte) bs n = n + sum_list (map count_ones bs)"
  by (induction bs arbitrary: n) simp_all

lemma sum_count_ones:
  "k \<le> length bs \<Longrightarrow>
   sum_list (map count_ones (take k bs)) = card {f. f < 8 * k \<and> bit (bs ! (f div 8)) (f mod 8)}"
proof (induction k)
  case 0
  then show ?case by simp
next
  case (Suc k)
  let ?A = "{f. f < 8 * k \<and> bit (bs ! (f div 8)) (f mod 8)}"
  let ?B = "(\<lambda>i. 8 * k + i) ` {i. i < 8 \<and> bit (bs ! k) i}"
  have "{f. f < 8 * Suc k \<and> bit (bs ! (f div 8)) (f mod 8)} = ?A \<union> ?B"
  proof (intro set_eqI iffI)
    fix f
    assume f: "f \<in> {f. f < 8 * Suc k \<and> bit (bs ! (f div 8)) (f mod 8)}"
    show "f \<in> ?A \<union> ?B"
    proof (cases "f < 8 * k")
      case True
      then show ?thesis using f by simp
    next
      case False
      then have "f div 8 = k"
        using f by auto
      moreover from this have "f = 8 * k + f mod 8"
        by (metis mult_div_mod_eq)
      ultimately have "f div 8 = k" and "f = 8 * k + f mod 8" by simp_all
      then show ?thesis using f by (intro UnI2 image_eqI [of _ _ "f mod 8"]) auto
    qed
  qed auto
  moreover have "?A \<inter> ?B = {}" by auto
  moreover have "card ?B = count_ones (bs ! k)"
    by (subst card_image) (auto simp: inj_on_def card_byte_bits)
  ultimately have "card {f. f < 8 * Suc k \<and> bit (bs ! (f div 8)) (f mod 8)} = card ?A + count_ones (bs ! k)"
    by (simp add: card_Un_disjoint)
  then show ?case
    using Suc by (simp add: take_Suc_conv_app_nth)
qed

lemma validate_bitmap_iff:
  assumes "bitmap_wf s"
  shows "validate_bitmap s \<longleftrightarrow> allocated_frames s = card (reserved_set s)"
proof -
  let ?k = "(total_frames s + 7) div 8"
  have "{f. f < 8 * ?k \<and> bit (BITMAP s ! (f div 8)) (f mod 8)} = reserved_set s"
    using assms unfolding bitmap_wf_def reserved_set_def is_frame_reserved_iff
    by (auto simp: not_le [symmetric])
  then have "sum_list (map count_ones (take ?k (BITMAP s))) = card (reserved_set s)"
    using assms sum_count_ones [of ?k "BITMAP s"] by (simp add: bitmap_wf_def)
  then show ?thesis
    by (auto simp: validate_bitmap_def Let_def fold_count_ones)
qed

lemma validate_bitmap_inv: "pfa_inv s \<Longrightarrow> validate_bitmap s"
  by (simp add: validate_bitmap_iff pfa_inv_def)

end
