(* ===== verification/Frame_Pool.thy ===== *)
theory Frame_Pool
  imports Frame_Allocator
begin

text \<open>
  The contract of a source of physical frames, and the allocator as a provider of it.

  The locale \<open>frame_pool\<close> states what the kernel relies on when it asks for frames
  one at a time (the page-table mapper through \<open>PmmFrameAllocator\<close> in
  \<open>kernel/src/memory/vmm.rs\<close>, \<open>allocate_page\<close> and \<open>free_page\<close> in
  \<open>kernel/src/process/mod.rs\<close>): a frame that is handed out was not held before.
  The allocator's methods are shown to meet it, and the step relation
  \<open>pmm_step\<close> extends the argument to every method that changes the bitmap.
\<close>

section \<open>The interface\<close>

locale frame_pool =
  fixes alloc :: "'s \<Rightarrow> u64 option \<times> 's"
    and release :: "'s \<Rightarrow> u64 \<Rightarrow> (pmm_error + unit) \<times> 's"
    and held :: "'s \<Rightarrow> nat set"
    and tracked :: "'s \<Rightarrow> nat"
    and invar :: "'s \<Rightarrow> bool"
  assumes alloc_None: "invar s \<Longrightarrow> alloc s = (None, t) \<Longrightarrow>
      invar t \<and> held t = held s \<and> tracked t = tracked s"
    and alloc_Some: "invar s \<Longrightarrow> alloc s = (Some a, t) \<Longrightarrow>
      invar t \<and> address_to_frame a \<notin> held s \<and> address_to_frame a < tracked s \<and>
      held t = insert (address_to_frame a) (held s) \<and> tracked t = tracked s"
    and release_ok: "invar s \<Longrightarrow> release s a = (Inr (), t) \<Longrightarrow>
      invar t \<and> address_to_frame a \<in> held s \<and>
      held t = held s - {address_to_frame a} \<and> tracked t = tracked s"
    and release_err: "invar s \<Longrightarrow> release s a = (Inl e, t) \<Longrightarrow>
      invar t \<and> address_to_frame a \<notin> held s \<and> held t = held s \<and> tracked t = tracked s"
    and held_tracked: "invar s \<Longrightarrow> held s \<subseteq> {..<tracked s}"

text \<open>Asking for frames in a row, stopping at the first failure.\<close>

fun alloc_many :: "('s \<Rightarrow> u64 option \<times> 's) \<Rightarrow> nat \<Rightarrow> 's \<Rightarrow> u64 list \<times> 's" where
  "alloc_many alloc 0 s = ([], s)"
| "alloc_many alloc (Suc n) s =
     (case alloc s of
        (None, t) \<Rightarrow> ([], t)
      | (Some a, t) \<Rightarrow> (case alloc_many alloc n t of (as, u) \<Rightarrow> (a # as, u)))"

context frame_pool
begin

lemma alloc_many_spec:
  "invar s \<Longrightarrow> alloc_many alloc n s = (as, t) \<Longrightarrow>
     invar t \<and> distinct (map address_to_frame as) \<and>
     set (map address_to_frame as) \<inter> held s = {} \<and>
     held t = held s \<union> set (map address_to_frame as) \<and> tracked t = tracked s"
proof (induction n arbitrary: s as t)
  case 0
  then show ?case by simp
next
  case (Suc n)
  show ?case
  proof (cases "fst (alloc s)")
    case None
    then obtain u where "alloc s = (None, u)" by (cases "alloc s") auto
    with Suc.prems alloc_None [OF Suc.prems(1)] show ?thesis by auto
  next
    case (Some a)
    then obtain u where u: "alloc s = (Some a, u)" by (cases "alloc s") auto
    obtain bs v where v: "alloc_many alloc n u = (bs, v)" by (cases "alloc_many alloc n u")
    have as: "as = a # bs" "t = v"
      using Suc.prems(2) u v by auto
    note a = alloc_Some [OF Suc.prems(1) u]
    have "invar v \<and> distinct (map address_to_frame bs) \<and>
        set (map address_to_frame bs) \<inter> held u = {} \<and>
        held v = held u \<union> set (map address_to_frame bs) \<and> tracked v = tracked u"
      by (rule Suc.IH [OF _ v]) (use a in simp)
    then show ?thesis
      using a as by auto
  qed
qed

lemma release_after_alloc:
  assumes "invar s" and "alloc s = (Some a, t)"
  shows "fst (release t a) = Inr ()" and "held (snd (release t a)) = held s"
proof -
  obtain r u where r: "release t a = (r, u)" by (cases "release t a")
  note a = alloc_Some [OF assms]
  have "r \<noteq> Inl e" for e
    using release_err [of t a e u] a r by auto
  then have "r = Inr ()" by (cases r) auto
  then show "fst (release t a) = Inr ()" and "held (snd (release t a)) = held s"
    using release_ok [of t a u] a r by auto
qed

lemma double_release:
  assumes "invar s" and "release s a = (Inr (), t)"
  shows "\<exists>e. fst (release t a) = Inl e"
proof -
  obtain r u where r: "release t a = (r, u)" by (cases "release t a")
  show ?thesis
    using release_ok [OF assms] release_ok [of t a u] r by (cases r) auto
qed

end

section \<open>The allocator provides the interface\<close>

lemma allocate_frame_cases:
  assumes "pfa_inv s"
  obtains (full) "total_frames s \<le> next_free s" "allocate_frame s = (None, count_failure s)"
    | (frame) "next_free s < total_frames s"
        "allocate_frame s = (Some (frame_to_address (next_free s)), snd (allocate_frame s))"
proof (cases "next_free s < total_frames s")
  case True
  then show ?thesis
    using frame allocate_frame_some(1) [OF assms True] by (simp add: prod_eq_iff)
next
  case False
  then show ?thesis using full by (simp add: allocate_frame_none)
qed

lemma next_free_frame:
  "pfa_inv s \<Longrightarrow> next_free s < total_frames s \<Longrightarrow>
   address_to_frame (frame_to_address (next_free s)) = next_free s"
  using core_bounds(2) [OF pfa_inv_core, of s] by simp

lemma free_frame_cases:
  assumes "pfa_inv s"
  obtains (ok) "address_to_frame a \<in> reserved_set s" "free_frame s a = (Inr (), snd (free_frame s a))"
    | (invalid) "address_to_frame a \<notin> reserved_set s" "free_frame s a = (Inl InvalidFree, count_invalid_free s)"
    | (double) "address_to_frame a \<notin> reserved_set s" "free_frame s a = (Inl DoubleFree, count_double_free s)"
proof (cases "address_to_frame a \<in> reserved_set s")
  case True
  then show ?thesis
    using ok free_frame_ok(1) [OF assms True] by (simp add: prod_eq_iff)
next
  case False
  then show ?thesis
    using invalid double free_frame_invalid [of s a] free_frame_double [of a s]
    by (cases "address_to_frame a < total_frames s") auto
qed

interpretation pmm: frame_pool allocate_frame free_frame reserved_set total_frames pfa_inv
proof (unfold_locales, goal_cases)
  case (1 s t)
  then show ?case
    by (cases rule: allocate_frame_cases [OF 1(1)]) auto
next
  case (2 s a t)
  then show ?case
    using allocate_frame_some [OF 2(1)] next_free_frame [OF 2(1)]
    by (cases rule: allocate_frame_cases [OF 2(1)]) auto
next
  case (3 s a t)
  then show ?case
    using free_frame_ok [OF 3(1), of a] by (cases rule: free_frame_cases [OF 3(1), of a]) auto
next
  case (4 s a e t)
  then show ?case
    by (cases rule: free_frame_cases [OF 4(1), of a]) auto
next
  case (5 s)
  show ?case by (rule reserved_set_subset)
qed

section \<open>Every sequence of allocator calls\<close>

text \<open>
  The machine state is the allocator and, as a ghost component, the set of frames that
  were handed out and not released since. A block release whose end would wrap around
  \<open>usize\<close> is outside the relation (\<open>free_many\<close> requires the sum to fit).
\<close>

inductive pmm_step :: "frame_allocator \<times> nat set \<Rightarrow> frame_allocator \<times> nat set \<Rightarrow> bool" where
  alloc_one: "allocate_frame s = (Some a, t) \<Longrightarrow>
     pmm_step (s, live) (t, insert (address_to_frame a) live)"
| alloc_one_fail: "allocate_frame s = (None, t) \<Longrightarrow> pmm_step (s, live) (t, live)"
| alloc_block: "allocate_frames s n = (Some a, t) \<Longrightarrow>
     pmm_step (s, live) (t, live \<union> {address_to_frame a ..< address_to_frame a + n})"
| alloc_block_fail: "allocate_frames s n = (None, t) \<Longrightarrow> pmm_step (s, live) (t, live)"
| free_one: "free_frame s a = (Inr (), t) \<Longrightarrow> pmm_step (s, live) (t, live - {address_to_frame a})"
| free_one_fail: "free_frame s a = (Inl e, t) \<Longrightarrow> pmm_step (s, live) (t, live)"
| free_block: "free_frames s a n = (Inr (), t) \<Longrightarrow> address_to_frame a + n < 2 ^ 64 \<Longrightarrow>
     pmm_step (s, live) (t, live - {address_to_frame a ..< address_to_frame a + n})"
| free_block_fail: "free_frames s a n = (Inl e, t) \<Longrightarrow> pmm_step (s, live) (t, live)"
| reserve: "reserve_range s a b = (r, t) \<Longrightarrow> pmm_step (s, live) (t, live)"

inductive_cases alloc_frame_stepE: "pmm_step (s, live) (t, live')"

text \<open>The states reachable from a freshly initialised allocator.\<close>

inductive pmm_reachable :: "u8 list \<Rightarrow> u64 \<Rightarrow> frame_allocator \<times> nat set \<Rightarrow> bool"
  for bm :: "u8 list" and total :: u64 where
  start: "pmm_reachable bm total (init_standard_reservations (pfa_new bm total), {})"
| step: "pmm_reachable bm total x \<Longrightarrow> pmm_step x y \<Longrightarrow> pmm_reachable bm total y"

definition pmm_good :: "frame_allocator \<times> nat set \<Rightarrow> bool" where
  "pmm_good x \<longleftrightarrow> pfa_inv (fst x) \<and> validation_enabled (fst x) \<and> snd x \<subseteq> reserved_set (fst x)"

lemma init_standard_spec:
  fixes s :: frame_allocator
  assumes "pfa_core s"
  defines "t \<equiv> init_standard_reservations s"
  shows "pfa_inv t" "hint_tight t"
    "reserved_set t = reserved_set s \<union> (\<Union>(a, b) \<in> set standard_reservations. range_frames s a b)"
    "total_frames t = total_frames s" "stats t = stats s"
    "validation_enabled t = validation_enabled s"
proof -
  note spec = fold_reserve_range [OF assms(1), of standard_reservations,
      folded init_standard_reservations_def t_def]
  have "standard_reservations \<noteq> []" by (simp add: standard_reservations_def)
  with spec show "pfa_inv t" "hint_tight t"
    "reserved_set t = reserved_set s \<union> (\<Union>(a, b) \<in> set standard_reservations. range_frames s a b)"
    "total_frames t = total_frames s" "stats t = stats s"
    "validation_enabled t = validation_enabled s"
    by blast+
qed

lemma allocate_frames_cases:
  assumes "pfa_inv s"
  obtains (zero) "n = 0" "allocate_frames s n = (None, s)"
    | (fail) "n \<noteq> 0" "n > total_frames s \<or> find_block s n (next_free s) = None"
        "allocate_frames s n = (None, count_failure s)"
    | (block) b where "n \<noteq> 0" "n \<le> total_frames s" "find_block s n (next_free s) = Some b"
        "b + n \<le> total_frames s"
        "allocate_frames s n = (Some (frame_to_address b), snd (allocate_frames s n))"
        "address_to_frame (frame_to_address b) = b"
proof (cases "n = 0")
  case True
  then show ?thesis using zero by (simp add: allocate_frames_def)
next
  case pos: False
  show ?thesis
  proof (cases "n > total_frames s \<or> find_block s n (next_free s) = None")
    case True
    then show ?thesis using fail pos allocate_frames_none by blast
  next
    case False
    then obtain b where b: "n \<le> total_frames s" "find_block s n (next_free s) = Some b"
      by (auto simp: not_less)
    have le: "b + n \<le> total_frames s"
      using allocate_frames_some(2) [OF assms _ b] pos by simp
    have "address_to_frame (frame_to_address b) = b"
      using le core_bounds(2) [OF pfa_inv_core [OF assms]] by simp
    then show ?thesis
      using block [OF pos b le] allocate_frames_some(1) [OF assms _ b] pos
      by (simp add: prod_eq_iff)
  qed
qed

lemma free_frames_Inr:
  assumes inv: "pfa_inv s" and val: "validation_enabled s"
    and fit: "address_to_frame a + n < 2 ^ 64" and free: "free_frames s a n = (Inr (), t)"
  shows "address_to_frame a + n \<le> total_frames s"
    and "{address_to_frame a ..< address_to_frame a + n} \<subseteq> reserved_set s"
proof -
  show le: "address_to_frame a + n \<le> total_frames s"
    using free_frames_invalid [of s a n] free fit by fastforce
  have "total_frames s < 2 ^ 64"
    using core_bounds(2) [OF pfa_inv_core [OF inv]] by simp
  then show "{address_to_frame a ..< address_to_frame a + n} \<subseteq> reserved_set s"
    using free_frames_double [OF le _ val] free by auto
qed

lemma free_frames_Inl:
  assumes "free_frames s a n = (Inl e, t)"
  shows "t = count_invalid_free s \<or> t = count_double_free s"
  using assms by (auto simp: free_frames_def Let_def split: if_splits)

lemma pmm_step_good: "pmm_step x y \<Longrightarrow> pmm_good x \<Longrightarrow> pmm_good y"
proof (induction rule: pmm_step.induct)
  case (alloc_one s a t live)
  then have inv: "pfa_inv s" by (simp add: pmm_good_def)
  have "validation_enabled t = validation_enabled s"
    using alloc_one(1) allocate_frame_some(8) [OF inv]
    by (cases rule: allocate_frame_cases [OF inv]) auto
  with alloc_one pmm.alloc_Some [OF inv alloc_one(1)] show ?case
    by (auto simp: pmm_good_def)
next
  case (alloc_one_fail s t live)
  then have inv: "pfa_inv s" by (simp add: pmm_good_def)
  show ?case
    using alloc_one_fail by (cases rule: allocate_frame_cases [OF inv]) (auto simp: pmm_good_def)
next
  case (alloc_block s n a t live)
  then have inv: "pfa_inv s" by (simp add: pmm_good_def)
  show ?case
    using alloc_block allocate_frames_some(4,5,8) [OF inv, of n]
    by (cases rule: allocate_frames_cases [OF inv, of n]) (auto simp: pmm_good_def)
next
  case (alloc_block_fail s n t live)
  then have inv: "pfa_inv s" by (simp add: pmm_good_def)
  show ?case
    using alloc_block_fail
    by (cases rule: allocate_frames_cases [OF inv, of n]) (auto simp: pmm_good_def)
next
  case (free_one s a t live)
  then have inv: "pfa_inv s" by (simp add: pmm_good_def)
  note ok = pmm.release_ok [OF inv free_one(1)]
  have "validation_enabled t = validation_enabled s"
    using free_frame_ok(7) [OF inv, of a] ok free_one(1) by simp
  with ok free_one show ?case by (auto simp: pmm_good_def)
next
  case (free_one_fail s a e t live)
  then have inv: "pfa_inv s" by (simp add: pmm_good_def)
  show ?case
    using free_one_fail by (cases rule: free_frame_cases [OF inv, of a]) (auto simp: pmm_good_def)
next
  case (free_block s a n t live)
  then have inv: "pfa_inv s" and val: "validation_enabled s" by (simp_all add: pmm_good_def)
  note sub = free_frames_Inr [OF inv val free_block(2,1)]
  show ?case
    using free_frames_ok(2,3,7) [OF inv sub] free_block by (auto simp: pmm_good_def)
next
  case (free_block_fail s a n e t live)
  then show ?case
    using free_frames_Inl [OF free_block_fail(1)] by (auto simp: pmm_good_def)
next
  case (reserve s a b r t live)
  then have core: "pfa_core s" by (simp add: pmm_good_def pfa_inv_core)
  show ?case
    using reserve_range_spec [OF core, of a b] reserve by (auto simp: pmm_good_def)
qed

lemma pmm_reachable_good:
  assumes "length bm = BITMAP_SIZE"
  shows "pmm_reachable bm mem x \<Longrightarrow> pmm_good x"
proof (induction rule: pmm_reachable.induct)
  case start
  note new = pfa_new_spec [OF assms, of mem]
  show ?case
    using init_standard_spec [OF pfa_inv_core [OF new(1)]] new by (simp add: pmm_good_def)
next
  case (step x y)
  then show ?case by (blast intro: pmm_step_good)
qed

end
