(* ===== verification/Frame_Stats.thy ===== *)
theory Frame_Stats
  imports Frame_Pool
begin

text \<open>
  The read-only side of the frame allocator (\<open>kernel/src/memory/physmem.rs\<close>):
  what the fragmentation scan computes, and that the boot-time self test succeeds
  on every consistent allocator with a free frame and gives back what it took.
\<close>

section \<open>Fragmentation\<close>

text \<open>A frame starts a free block when it is free and the frame before it is not.\<close>

definition block_start :: "frame_allocator \<Rightarrow> nat \<Rightarrow> bool" where
  "block_start s f \<longleftrightarrow> \<not> is_frame_reserved s f \<and> (f = 0 \<or> is_frame_reserved s (f - 1))"

text \<open>What the scan knows before it looks at frame \<open>i\<close>: the last
  \<open>cb\<close> frames are free and preceded by a reserved one; the closed blocks are
  counted and bounded.\<close>

definition free_run :: "frame_allocator \<Rightarrow> nat \<Rightarrow> nat \<Rightarrow> nat \<Rightarrow> bool" where
  "free_run s i k b \<longleftrightarrow> b + k \<le> i \<and> (\<forall>f \<in> {b..<b + k}. \<not> is_frame_reserved s f)"

definition frag_inv :: "frame_allocator \<Rightarrow> nat \<Rightarrow> nat \<times> nat \<times> nat \<Rightarrow> bool" where
  "frag_inv s i acc = (case acc of (fb, lb, cb) \<Rightarrow>
     cb \<le> i \<and> (\<forall>f \<in> {i - cb..<i}. \<not> is_frame_reserved s f) \<and>
     (cb < i \<longrightarrow> is_frame_reserved s (i - cb - 1)) \<and>
     fb + (if cb > 0 then 1 else 0) = card {f. f < i \<and> block_start s f} \<and>
     (\<forall>k b. free_run s i k b \<longrightarrow> k \<le> max lb cb) \<and>
     (\<exists>b. free_run s i lb b))"

lemma free_run_Suc_reserved:
  "is_frame_reserved s i \<Longrightarrow> free_run s (Suc i) k b \<Longrightarrow> k = 0 \<or> free_run s i k b"
  by (fastforce simp: free_run_def le_Suc_eq)

lemma free_run_Suc_free:
  assumes "free_run s (Suc i) k b" and "cb \<le> i" and "cb < i \<longrightarrow> is_frame_reserved s (i - cb - 1)"
  shows "k \<le> Suc cb \<or> free_run s i k b"
proof (cases "b + k = Suc i")
  case True
  have "k \<le> Suc cb"
  proof (rule ccontr)
    assume "\<not> k \<le> Suc cb"
    then have "cb < i" and "i - cb - 1 \<in> {b..<b + k}"
      using True assms(2) by auto
    with assms show False by (auto simp: free_run_def)
  qed
  then show ?thesis ..
next
  case False
  then show ?thesis using assms(1) by (auto simp: free_run_def)
qed

lemma starts_Suc:
  "{f. f < Suc i \<and> P f} = (if P i then insert i {f. f < i \<and> P f} else {f. f < i \<and> P f})"
  by (auto simp: less_Suc_eq)

lemma frag_step_inv:
  assumes "frag_inv s i acc"
  shows "frag_inv s (Suc i) (frag_step s i acc)"
proof -
  obtain fb lb cb where acc: "acc = (fb, lb, cb)" by (cases acc)
  have cb: "cb \<le> i" "\<forall>f \<in> {i - cb..<i}. \<not> is_frame_reserved s f"
    "cb < i \<longrightarrow> is_frame_reserved s (i - cb - 1)"
    and fb: "fb + (if cb > 0 then 1 else 0) = card {f. f < i \<and> block_start s f}"
    and up: "\<And>k b. free_run s i k b \<Longrightarrow> k \<le> max lb cb" and ex: "\<exists>b. free_run s i lb b"
    using assms by (auto simp: frag_inv_def acc)
  obtain b0 where b0: "free_run s i lb b0" using ex ..
  show ?thesis
  proof (cases "is_frame_reserved s i")
    case True
    have up': "k \<le> max lb cb" if "free_run s (Suc i) k b" for k b
      using free_run_Suc_reserved [OF True that] up by auto
    have ex': "\<exists>b. free_run s (Suc i) (max lb cb) b"
    proof (cases "lb < cb")
      case lt: True
      have "free_run s (Suc i) cb (i - cb)"
        using cb(1,2) by (auto simp: free_run_def)
      with lt show ?thesis by (auto simp: max_def)
    next
      case False
      have "free_run s (Suc i) lb b0" using b0 by (auto simp: free_run_def)
      with False show ?thesis by (auto simp: max_def)
    qed
    have "card {f. f < Suc i \<and> block_start s f} = card {f. f < i \<and> block_start s f}"
      using True by (simp add: starts_Suc block_start_def)
    then show ?thesis
      using True fb up' ex' by (auto simp: frag_inv_def frag_step_def acc max_def)
  next
    case False
    have start: "block_start s i \<longleftrightarrow> cb = 0"
    proof (cases "cb = 0")
      case True
      then show ?thesis using False cb(1,3) by (auto simp: block_start_def)
    next
      case nz: False
      then have "i - 1 \<in> {i - cb..<i}" using cb(1) by auto
      then have "\<not> is_frame_reserved s (i - 1)" using cb(2) by blast
      then show ?thesis using nz cb(1) by (auto simp: block_start_def)
    qed
    have up': "k \<le> max lb (Suc cb)" if "free_run s (Suc i) k b" for k b
      using free_run_Suc_free [OF that cb(1,3)] up [of k b] by auto
    have ex': "\<exists>b. free_run s (Suc i) lb b"
      by (rule exI [of _ b0]) (use b0 in \<open>auto simp: free_run_def\<close>)
    have run: "\<forall>f \<in> {Suc i - Suc cb..<Suc i}. \<not> is_frame_reserved s f"
      using cb(2) False by (auto simp: less_Suc_eq)
    have "card {f. f < Suc i \<and> block_start s f} =
        (if cb = 0 then Suc (card {f. f < i \<and> block_start s f}) else card {f. f < i \<and> block_start s f})"
      by (simp add: starts_Suc start)
    then show ?thesis
      using False fb up' ex' run cb(1,3) by (auto simp: frag_inv_def frag_step_def acc)
  qed
qed

lemma frag_fold_inv: "frag_inv s (total_frames s) (fold (frag_step s) [0..<total_frames s] (0, 0, 0))"
proof -
  have "frag_inv s 0 (0, 0, 0)"
    by (auto simp: frag_inv_def free_run_def)
  then have "frag_inv s (max 0 (total_frames s)) (fold (frag_step s) [0..<total_frames s] (0, 0, 0))"
    by (rule fold_upt_invariant) (rule frag_step_inv)
  then show ?thesis by simp
qed

lemma update_fragmentation_fields [simp]:
  "reserved_set (update_fragmentation_stats s) = reserved_set s"
  "total_frames (update_fragmentation_stats s) = total_frames s"
  "allocated_frames (update_fragmentation_stats s) = allocated_frames s"
  "next_free (update_fragmentation_stats s) = next_free s"
  "is_frame_reserved (update_fragmentation_stats s) = is_frame_reserved s"
  "validation_enabled (update_fragmentation_stats s) = validation_enabled s"
  "bitmap_wf (update_fragmentation_stats s) = bitmap_wf s"
  by (auto simp: update_fragmentation_stats_def Let_def split: prod.splits)

lemma fragmentation_spec:
  fixes s :: frame_allocator
  defines "st \<equiv> stats (update_fragmentation_stats s)"
  shows "free_block_count st = card {f. f < total_frames s \<and> block_start s f}"
    and "\<exists>b. block_free s (largest_free_block st) b"
    and "block_free s k b \<Longrightarrow> k \<le> largest_free_block st"
proof -
  let ?n = "total_frames s"
  obtain fb lb cb where acc: "fold (frag_step s) [0..<?n] (0, 0, 0) = (fb, lb, cb)"
    by (metis surj_pair)
  have inv: "frag_inv s ?n (fb, lb, cb)"
    using frag_fold_inv [of s] by (simp add: acc)
  have st: "free_block_count st = fb + (if cb > 0 then 1 else 0)"
    "largest_free_block st = max lb cb"
    by (auto simp: st_def update_fragmentation_stats_def acc Let_def max_def)
  have run: "free_run s ?n k b \<longleftrightarrow> block_free s k b" for k b
    by (simp add: free_run_def block_free_def)
  show "free_block_count st = card {f. f < ?n \<and> block_start s f}"
    using inv by (simp add: st frag_inv_def)
  show "k \<le> largest_free_block st" if "block_free s k b"
    using inv that by (auto simp: st(2) frag_inv_def run)
  show "\<exists>b. block_free s (largest_free_block st) b"
  proof (cases "lb < cb")
    case True
    have "free_run s ?n cb (?n - cb)"
      using inv by (auto simp: frag_inv_def free_run_def)
    with True show ?thesis by (auto simp: st max_def run)
  next
    case False
    then show ?thesis using inv by (auto simp: st max_def frag_inv_def run)
  qed
qed

section \<open>The self test\<close>

lemma invalid_probe_frame:
  "address_to_frame (of_nat MAX_TRACKED_FRAMES * FRAME_SIZE + 0x1000) = MAX_TRACKED_FRAMES + 1"
  by (simp add: address_to_frame_def MAX_TRACKED_FRAMES_def FRAME_SIZE_def unat_div)

text \<open>Taking a block and giving it back leaves the reserved set as it was.\<close>

lemma allocate_free_block:
  fixes s :: frame_allocator and n :: nat
  assumes inv: "pfa_inv s"
  defines "t \<equiv> (case allocate_frames s n of (None, t) \<Rightarrow> t | (Some b, t) \<Rightarrow> snd (free_frames t b n))"
  shows "pfa_inv t \<and> reserved_set t = reserved_set s \<and> total_frames t = total_frames s"
  using inv
proof (cases rule: allocate_frames_cases [where s = s and n = n])
  case zero
  then show ?thesis using inv by (simp add: t_def)
next
  case fail
  then show ?thesis using inv by (simp add: t_def)
next
  case (block b)
  define u where "u = snd (allocate_frames s n)"
  note u = allocate_frames_some [OF inv _ block(2,3), folded u_def]
  have n: "0 < n" using block(1) by simp
  have t: "t = snd (free_frames u (frame_to_address b) n)"
    unfolding t_def by (subst block(5)) (simp add: u_def)
  have "pfa_inv t \<and> reserved_set t = reserved_set u - {b..<b + n} \<and> total_frames t = total_frames u"
    using free_frames_ok [of u "frame_to_address b" n] u n block(4,6) by (auto simp: t)
  then show ?thesis using u n by auto
qed

lemma self_test_spec:
  assumes inv: "pfa_inv s" and free: "next_free s < total_frames s"
  shows "fst (self_test s)" and "reserved_set (snd (self_test s)) = reserved_set s"
    and "pfa_inv (snd (self_test s))"
proof -
  define a where "a = frame_to_address (next_free s)"
  define s1 where "s1 = snd (allocate_frame s)"
  have fr: "address_to_frame a = next_free s"
    using next_free_frame [OF inv free] by (simp add: a_def)
  note alloc = allocate_frame_some [OF inv free, folded s1_def a_def]
  have e1: "allocate_frame s = (Some a, s1)"
    using alloc(1) by (simp add: s1_def prod_eq_iff)
  define s2 where "s2 = snd (free_frame s1 a)"
  have mem: "address_to_frame a \<in> reserved_set s1" by (simp add: fr alloc(3))
  note f1 = free_frame_ok [OF alloc(4) mem, folded s2_def]
  have e2: "free_frame s1 a = (Inr (), s2)"
    using f1(1) by (simp add: s2_def prod_eq_iff)
  have rs2: "reserved_set s2 = reserved_set s" "total_frames s2 = total_frames s"
    using f1(2,5) alloc(2,3,6) fr by auto
  define s3 where "s3 = count_double_free s2"
  have e3: "free_frame s2 a = (Inl DoubleFree, s3)"
    unfolding s3_def by (rule free_frame_double) (use rs2 fr alloc(2) free in auto)
  define s4 where "s4 = count_invalid_free s3"
  have "total_frames s3 \<le> MAX_TRACKED_FRAMES"
    using inv by (simp add: s3_def rs2 pfa_inv_def bitmap_wf_def)
  then have e4: "free_frame s3 (of_nat MAX_TRACKED_FRAMES * FRAME_SIZE + 0x1000) = (Inl InvalidFree, s4)"
    unfolding s4_def by (intro free_frame_invalid) (simp add: invalid_probe_frame)
  define s5 where "s5 = (case allocate_frames s4 4 of (None, t) \<Rightarrow> t
      | (Some b, t) \<Rightarrow> snd (free_frames t b 4))"
  have inv4: "pfa_inv s4" and rs4: "reserved_set s4 = reserved_set s"
    using f1(3) rs2 by (simp_all add: s4_def s3_def)
  note blk = allocate_free_block [OF inv4, of 4, folded s5_def]
  have "self_test s = (validate_bitmap s5, s5)"
    using validate_bitmap_inv [OF inv] validate_bitmap_inv [OF alloc(4)] validate_bitmap_inv [OF f1(3)]
    unfolding self_test_def e1 prod.case option.case e2 sum.case e3 e4 Let_def s5_def by simp
  then show "fst (self_test s)" "reserved_set (snd (self_test s)) = reserved_set s"
    "pfa_inv (snd (self_test s))"
    using blk rs4 validate_bitmap_inv by auto
qed

end
