(* ===== verification/Phys_Mem.thy ===== *)
theory Phys_Mem
  imports Frame_Stats
begin

text \<open>
  The physical memory manager of \<open>kernel/src/memory/physmem.rs\<close>: region types,
  regions, reserved regions, the manager that wraps the frame allocator, and the parser
  of the PVH boot information.

  \<open>PhysAddr::new\<close> belongs to the \<open>x86_64\<close> crate. Where its argument is
  computed from data, it is a parameter \<open>pa_new\<close> of the definitions: \<open>None\<close>
  is its panic. The law \<open>phys_addr_law\<close> is its documented behaviour (it panics when
  a bit in the range 52 to 64 is set). A \<open>None\<close> result of a definition of this
  theory is that panic.
\<close>

section \<open>Region types\<close>

datatype memory_region_type =
  Unavailable | Usable | Reserved | Acpi | AcpiNvs | Bad | BootloaderReclaimable | Kernel | Mmio

definition HVM_MEMMAP_RAM :: u32 where "HVM_MEMMAP_RAM = 1"
definition HVM_MEMMAP_RESERVED :: u32 where "HVM_MEMMAP_RESERVED = 2"
definition HVM_MEMMAP_ACPI :: u32 where "HVM_MEMMAP_ACPI = 3"
definition HVM_MEMMAP_ACPI_NVS :: u32 where "HVM_MEMMAP_ACPI_NVS = 4"
definition HVM_MEMMAP_BAD :: u32 where "HVM_MEMMAP_BAD = 5"

lemmas hvm_types = HVM_MEMMAP_RAM_def HVM_MEMMAP_RESERVED_def HVM_MEMMAP_ACPI_def
  HVM_MEMMAP_ACPI_NVS_def HVM_MEMMAP_BAD_def

fun type_is_usable :: "memory_region_type \<Rightarrow> bool" where
  "type_is_usable Usable = True"
| "type_is_usable BootloaderReclaimable = True"
| "type_is_usable _ = False"

fun type_as_str :: "memory_region_type \<Rightarrow> string" where
  "type_as_str Unavailable = ''Unavailable''"
| "type_as_str Usable = ''Usable RAM''"
| "type_as_str Reserved = ''Reserved''"
| "type_as_str Acpi = ''ACPI Tables''"
| "type_as_str AcpiNvs = ''ACPI NVS''"
| "type_as_str Bad = ''Bad Memory''"
| "type_as_str BootloaderReclaimable = ''Bootloader Reclaimable''"
| "type_as_str Kernel = ''Kernel''"
| "type_as_str Mmio = ''MMIO''"

definition from_hvm :: "u32 \<Rightarrow> memory_region_type" where
  "from_hvm t =
     (if t = HVM_MEMMAP_RAM then Usable
      else if t = HVM_MEMMAP_RESERVED then Reserved
      else if t = HVM_MEMMAP_ACPI then Acpi
      else if t = HVM_MEMMAP_ACPI_NVS then AcpiNvs
      else if t = HVM_MEMMAP_BAD then Bad
      else Reserved)"

section \<open>Regions\<close>

record memory_region =
  mr_base :: u64
  mr_size :: u64
  region_type :: memory_region_type
  mr_name :: string

definition region_new :: "u64 \<Rightarrow> u64 \<Rightarrow> memory_region_type \<Rightarrow> string \<Rightarrow> memory_region" where
  "region_new base sz ty name = \<lparr>mr_base = base, mr_size = sz, region_type = ty, mr_name = name\<rparr>"

definition region_end :: "(u64 \<Rightarrow> u64 option) \<Rightarrow> memory_region \<Rightarrow> u64 option" where
  "region_end pa_new r = pa_new (mr_base r + mr_size r)"

definition region_contains :: "memory_region \<Rightarrow> u64 \<Rightarrow> bool" where
  "region_contains r addr = (let e = mr_base r + mr_size r in addr \<ge> mr_base r \<and> addr < e)"

text \<open>The conjunction is evaluated from the left: the end of \<open>r\<close> is computed only
  when the first comparison holds.\<close>

definition region_overlaps :: "(u64 \<Rightarrow> u64 option) \<Rightarrow> memory_region \<Rightarrow> memory_region \<Rightarrow> bool option"
  where
  "region_overlaps pa_new r other =
     (case region_end pa_new other of None \<Rightarrow> None
      | Some oe \<Rightarrow>
          if mr_base r < oe
          then (case region_end pa_new r of None \<Rightarrow> None | Some e \<Rightarrow> Some (mr_base other < e))
          else Some False)"

definition region_is_usable :: "memory_region \<Rightarrow> bool" where
  "region_is_usable r = type_is_usable (region_type r)"

definition region_frame_count :: "memory_region \<Rightarrow> u64" where
  "region_frame_count r = mr_size r div FRAME_SIZE"

record reserved_region =
  rr_region :: memory_region
  rr_purpose :: string

definition reserved_region_new ::
  "u64 \<Rightarrow> u64 \<Rightarrow> memory_region_type \<Rightarrow> string \<Rightarrow> string \<Rightarrow> reserved_region" where
  "reserved_region_new base sz ty name purpose =
     \<lparr>rr_region = region_new base sz ty name, rr_purpose = purpose\<rparr>"

section \<open>The manager\<close>

record phys_mem =
  pmm_alloc :: frame_allocator
  memory_map :: "memory_region list"
  reserved_regions :: "reserved_region list"

definition pmm_new :: "u8 list \<Rightarrow> u64 \<Rightarrow> phys_mem" where
  "pmm_new bitmap total_memory_bytes =
     \<lparr>pmm_alloc = pfa_new bitmap total_memory_bytes, memory_map = [], reserved_regions = []\<rparr>"

definition build_memory_map :: "phys_mem \<Rightarrow> phys_mem" where
  "build_memory_map m =
     m\<lparr>memory_map := sort_key mr_base (memory_map m @ map rr_region (reserved_regions m))\<rparr>"

definition compute_statistics :: "phys_mem \<Rightarrow> phys_mem" where
  "compute_statistics m =
     (let (usable, reserved) =
        fold (\<lambda>r (u, v). if type_is_usable (region_type r) then (u + mr_size r, v) else (u, v + mr_size r))
          (memory_map m) (0, 0)
      in m\<lparr>pmm_alloc := update_statistics (pmm_alloc m) usable reserved\<rparr>)"

text \<open>The warning printed when the self test fails is output and has no effect on the
  state.\<close>

definition pmm_init :: "phys_mem \<Rightarrow> phys_mem" where
  "pmm_init m =
     (let m1 = m\<lparr>pmm_alloc := init_standard_reservations (pmm_alloc m)\<rparr>;
          m2 = compute_statistics (build_memory_map m1)
      in m2\<lparr>pmm_alloc := snd (self_test (pmm_alloc m2))\<rparr>)"

definition reserve_region :: "(u64 \<Rightarrow> u64 option) \<Rightarrow> phys_mem \<Rightarrow> reserved_region \<Rightarrow> phys_mem option"
  where
  "reserve_region pa_new m region =
     (case region_end pa_new (rr_region region) of None \<Rightarrow> None
      | Some end_addr \<Rightarrow>
          Some (m\<lparr>reserved_regions := reserved_regions m @ [region],
                  pmm_alloc := snd (reserve_range (pmm_alloc m) (mr_base (rr_region region)) end_addr)\<rparr>))"

definition release_reserved :: "nat \<Rightarrow> frame_allocator \<Rightarrow> frame_allocator" where
  "release_reserved frame s = (if is_frame_reserved s frame then mark_frame_free s frame else s)"

definition memmap_entry :: "(u64 \<Rightarrow> u64 option) \<Rightarrow> memory_region \<Rightarrow> phys_mem \<Rightarrow> phys_mem option" where
  "memmap_entry pa_new entry m =
     (let m1 = m\<lparr>memory_map := memory_map m @ [entry]\<rparr> in
      if region_is_usable entry then
        (case region_end pa_new entry of None \<Rightarrow> None
         | Some end_addr \<Rightarrow>
             let start_frame = unat (mr_base entry div FRAME_SIZE);
                 end_frame = unat ((end_addr + FRAME_SIZE - 1) div FRAME_SIZE);
                 capped_end = min end_frame (total_frames (pmm_alloc m1))
             in Some (m1\<lparr>pmm_alloc := fold release_reserved [start_frame..<capped_end] (pmm_alloc m1)\<rparr>))
      else reserve_region pa_new m1
             (reserved_region_new (mr_base entry) (mr_size entry) (region_type entry) (mr_name entry)
                (type_as_str (region_type entry))))"

fun memmap_entries :: "(u64 \<Rightarrow> u64 option) \<Rightarrow> memory_region list \<Rightarrow> phys_mem \<Rightarrow> phys_mem option" where
  "memmap_entries pa_new [] m = Some m"
| "memmap_entries pa_new (entry # rest) m =
     (case memmap_entry pa_new entry m of None \<Rightarrow> None | Some m' \<Rightarrow> memmap_entries pa_new rest m')"

definition init_from_memmap ::
  "(u64 \<Rightarrow> u64 option) \<Rightarrow> phys_mem \<Rightarrow> memory_region list \<Rightarrow> phys_mem option" where
  "init_from_memmap pa_new m entries =
     (case memmap_entries pa_new entries m of None \<Rightarrow> None
      | Some m1 \<Rightarrow>
          let m2 = m1\<lparr>pmm_alloc := recalculate_next_free (init_standard_reservations (pmm_alloc m1))\<rparr>;
              m3 = compute_statistics m2
          in Some (m3\<lparr>memory_map := sort_key mr_base (memory_map m3)\<rparr>))"

definition pmm_allocate_frame :: "phys_mem \<Rightarrow> u64 option \<times> phys_mem" where
  "pmm_allocate_frame m = (case allocate_frame (pmm_alloc m) of (r, a) \<Rightarrow> (r, m\<lparr>pmm_alloc := a\<rparr>))"

definition pmm_allocate_frames :: "phys_mem \<Rightarrow> nat \<Rightarrow> u64 option \<times> phys_mem" where
  "pmm_allocate_frames m count =
     (case allocate_frames (pmm_alloc m) count of (r, a) \<Rightarrow> (r, m\<lparr>pmm_alloc := a\<rparr>))"

definition pmm_free_frame :: "phys_mem \<Rightarrow> u64 \<Rightarrow> (pmm_error + unit) \<times> phys_mem" where
  "pmm_free_frame m addr = (case free_frame (pmm_alloc m) addr of (r, a) \<Rightarrow> (r, m\<lparr>pmm_alloc := a\<rparr>))"

definition pmm_free_frames :: "phys_mem \<Rightarrow> u64 \<Rightarrow> nat \<Rightarrow> (pmm_error + unit) \<times> phys_mem" where
  "pmm_free_frames m addr count =
     (case free_frames (pmm_alloc m) addr count of (r, a) \<Rightarrow> (r, m\<lparr>pmm_alloc := a\<rparr>))"

definition pmm_validate :: "phys_mem \<Rightarrow> bool" where
  "pmm_validate m = validate_bitmap (pmm_alloc m)"

section \<open>The global manager\<close>

text \<open>The static \<open>PMM\<close> with its flag \<open>PMM_INIT\<close>; using the manager before
  initialisation panics, which is the outer \<open>None\<close>.\<close>

type_synonym pmm_global = "phys_mem option"

definition physmem_init :: "u8 list \<Rightarrow> u64 \<Rightarrow> pmm_global" where
  "physmem_init bitmap total_memory = Some (pmm_init (pmm_new bitmap total_memory))"

definition physmem_init_with_memmap ::
  "(u64 \<Rightarrow> u64 option) \<Rightarrow> u8 list \<Rightarrow> u64 \<Rightarrow> memory_region list \<Rightarrow> pmm_global option" where
  "physmem_init_with_memmap pa_new bitmap total_memory entries =
     map_option Some (init_from_memmap pa_new (pmm_new bitmap total_memory) entries)"

definition physmem_is_initialized :: "pmm_global \<Rightarrow> bool" where
  "physmem_is_initialized g = (g \<noteq> None)"

definition physmem_allocate_frame :: "pmm_global \<Rightarrow> (u64 option \<times> pmm_global) option" where
  "physmem_allocate_frame g =
     (case g of None \<Rightarrow> None
      | Some m \<Rightarrow> (case pmm_allocate_frame m of (r, m') \<Rightarrow> Some (r, Some m')))"

definition physmem_free_frame :: "pmm_global \<Rightarrow> u64 \<Rightarrow> ((pmm_error + unit) \<times> pmm_global) option" where
  "physmem_free_frame g addr =
     (case g of None \<Rightarrow> None
      | Some m \<Rightarrow> (case pmm_free_frame m addr of (r, m') \<Rightarrow> Some (r, Some m')))"

definition physmem_statistics :: "pmm_global \<Rightarrow> memory_statistics option" where
  "physmem_statistics g = map_option (\<lambda>m. stats (pmm_alloc m)) g"

section \<open>PVH boot information\<close>

text \<open>Physical memory is read byte by byte; multi-byte fields are little-endian.\<close>

type_synonym phys_bytes = "u64 \<Rightarrow> u8"

definition load32 :: "phys_bytes \<Rightarrow> u64 \<Rightarrow> u32" where
  "load32 mem a = u32_from_le (mem a) (mem (a + 1)) (mem (a + 2)) (mem (a + 3))"

definition load64 :: "phys_bytes \<Rightarrow> u64 \<Rightarrow> u64" where
  "load64 mem a = ucast (load32 mem a) OR push_bit 32 (ucast (load32 mem (a + 4)))"

record hvm_start_info =
  hvm_magic :: u32
  hvm_version :: u32
  hvm_flags :: u64
  hvm_rsdp_paddr :: u64
  hvm_memmap_paddr :: u64
  hvm_memmap_entries :: u32
  hvm_cmdline_paddr :: u32

record hvm_memmap_entry =
  he_addr :: u64
  he_size :: u64
  he_mem_type :: u32
  he_reserved :: u32

definition read_hvm_start_info :: "phys_bytes \<Rightarrow> u64 \<Rightarrow> hvm_start_info" where
  "read_hvm_start_info mem p =
     \<lparr>hvm_magic = load32 mem p, hvm_version = load32 mem (p + 4), hvm_flags = load64 mem (p + 8),
      hvm_rsdp_paddr = load64 mem (p + 16), hvm_memmap_paddr = load64 mem (p + 24),
      hvm_memmap_entries = load32 mem (p + 32), hvm_cmdline_paddr = load32 mem (p + 36)\<rparr>"

definition read_hvm_memmap_entry :: "phys_bytes \<Rightarrow> u64 \<Rightarrow> hvm_memmap_entry" where
  "read_hvm_memmap_entry mem p =
     \<lparr>he_addr = load64 mem p, he_size = load64 mem (p + 8), he_mem_type = load32 mem (p + 16),
      he_reserved = load32 mem (p + 20)\<rparr>"

definition hvm_region_name :: "u32 \<Rightarrow> string" where
  "hvm_region_name t =
     (if t = HVM_MEMMAP_RAM then ''Boot RAM''
      else if t = HVM_MEMMAP_RESERVED then ''Boot Reserved''
      else if t = HVM_MEMMAP_ACPI then ''Boot ACPI''
      else if t = HVM_MEMMAP_ACPI_NVS then ''Boot ACPI NVS''
      else if t = HVM_MEMMAP_BAD then ''Boot Bad Memory''
      else ''Boot Unknown'')"

definition parse_hvm_entry ::
  "(u64 \<Rightarrow> u64 option) \<Rightarrow> phys_bytes \<Rightarrow> u64 \<Rightarrow> nat \<Rightarrow> memory_region option" where
  "parse_hvm_entry pa_new mem entry_ptr i =
     (let entry = read_hvm_memmap_entry mem (entry_ptr + of_nat i * 24)
      in map_option (\<lambda>base. region_new base (he_size entry) (from_hvm (he_mem_type entry))
                              (hvm_region_name (he_mem_type entry)))
           (pa_new (he_addr entry)))"

definition parse_hvm_start_info ::
  "(u64 \<Rightarrow> u64 option) \<Rightarrow> phys_bytes \<Rightarrow> u64 \<Rightarrow> memory_region list option" where
  "parse_hvm_start_info pa_new mem hvm_ptr =
     (if hvm_ptr = 0 then Some []
      else
        let hvm = read_hvm_start_info mem hvm_ptr in
        if hvm_memmap_paddr hvm = 0 \<or> hvm_memmap_entries hvm = 0 then Some []
        else those (map (parse_hvm_entry pa_new mem (hvm_memmap_paddr hvm))
                      [0..<unat (hvm_memmap_entries hvm)]))"

text \<open>The documented behaviour of \<open>PhysAddr::new\<close>.\<close>

definition phys_addr_law :: "(u64 \<Rightarrow> u64 option) \<Rightarrow> bool" where
  "phys_addr_law pa_new \<longleftrightarrow> (\<forall>a. pa_new a = (if a < 2 ^ 52 then Some a else None))"

section \<open>The frames of a range\<close>

lemma div_frame_size: "unat (a div FRAME_SIZE) = unat a div 4096"
  by (simp add: FRAME_SIZE_def unat_div)

lemma unat_round_up:
  assumes "unat e < 2 ^ 52"
  shows "unat (e + FRAME_SIZE - 1) = unat e + 4095"
proof -
  have "unat (e + 0xFFF) = unat e + 4095"
    using assms by (simp add: unat_word_ariths)
  moreover have "e + FRAME_SIZE - 1 = e + 0xFFF"
    by (simp add: FRAME_SIZE_def)
  ultimately show ?thesis by metis
qed

lemma range_frames_eq:
  "unat b < 2 ^ 52 \<Longrightarrow>
   range_frames s a b = {unat a div 4096 ..< min ((unat b + 4095) div 4096) (total_frames s)}"
  by (simp add: range_frames_def div_frame_size unat_round_up)

text \<open>The frames the standard reservations cover: the first two MiB and the heap.\<close>

definition standard_frames :: "nat \<Rightarrow> nat set" where
  "standard_frames n = ({0..<512} \<union> {1024..<1056}) \<inter> {..<n}"

lemma standard_union:
  "(\<Union>(a, b) \<in> set standard_reservations. range_frames s a b) = standard_frames (total_frames s)"
proof -
  have "(\<Union>(a, b) \<in> set standard_reservations. range_frames s a b) =
      {0..<min 256 (total_frames s)} \<union> {1..<min 5 (total_frames s)} \<union> {0..<min 1 (total_frames s)} \<union>
      {256..<min 512 (total_frames s)} \<union> {112..<min 144 (total_frames s)} \<union>
      {96..<min 101 (total_frames s)} \<union> {101..<min 106 (total_frames s)} \<union>
      {1024..<min 1056 (total_frames s)} \<union> {160..<min 192 (total_frames s)}"
    unfolding standard_reservations_def by (simp add: range_frames_eq Un_assoc)
  also have "\<dots> = standard_frames (total_frames s)"
    unfolding standard_frames_def by auto
  finally show ?thesis .
qed

section \<open>Reservation and release without the counter\<close>

text \<open>\<open>init_from_memmap\<close> can leave the counter behind the bitmap, so its effect on
  the bitmap is described without it.\<close>

lemma reserve_frame_wf:
  "bitmap_wf s \<Longrightarrow> f < total_frames s \<Longrightarrow>
   bitmap_wf (reserve_frame f s) \<and> reserved_set (reserve_frame f s) = insert f (reserved_set s)"
  by (auto simp: reserve_frame_def mem_reserved_set)

lemma recalculate_wf:
  "bitmap_wf s \<Longrightarrow> bitmap_wf (recalculate_next_free s) \<and> hint_ok (recalculate_next_free s)
     \<and> hint_tight (recalculate_next_free s)"
  using skip_reserved_props [of 0 s]
  by (auto simp: hint_ok_def hint_tight_def recalculate_next_free_def)

lemma reserve_range_wf:
  fixes a b :: u64 and s :: frame_allocator
  assumes "bitmap_wf s"
  defines "t \<equiv> snd (reserve_range s a b)"
  shows "bitmap_wf t" "reserved_set t = reserved_set s \<union> range_frames s a b"
    "total_frames t = total_frames s"
proof -
  define x where "x = unat (a div FRAME_SIZE)"
  define y where "y = min (unat ((b + FRAME_SIZE - 1) div FRAME_SIZE)) (total_frames s)"
  define u where "u = fold reserve_frame [x..<y] s"
  let ?I = "\<lambda>i u. bitmap_wf u \<and> total_frames u = total_frames s
      \<and> reserved_set u = reserved_set s \<union> {x..<i}"
  have "?I (max x y) u"
    unfolding u_def
  proof (rule fold_upt_invariant)
    show "?I x s" using assms(1) by simp
  next
    fix i v
    assume "x \<le> i" "i < y" "?I i v"
    moreover have "y \<le> total_frames s" by (simp add: y_def)
    ultimately show "?I (Suc i) (reserve_frame i v)"
      using reserve_frame_wf [of v i] by (auto simp: atLeastLessThanSuc)
  qed
  then have u: "bitmap_wf u" "total_frames u = total_frames s" "reserved_set u = reserved_set s \<union> {x..<y}"
    by (auto simp: max_def split: if_splits)
  have t: "t = recalculate_next_free u"
    by (simp add: t_def reserve_range_def Let_def u_def x_def y_def)
  show "bitmap_wf t" "reserved_set t = reserved_set s \<union> range_frames s a b"
    "total_frames t = total_frames s"
    using u recalculate_wf [of u] by (simp_all add: t range_frames_def x_def y_def)
qed

lemma fold_reserve_range_wf:
  "bitmap_wf s \<Longrightarrow>
   bitmap_wf (fold (\<lambda>(a, b) s. snd (reserve_range s a b)) rs s) \<and>
   reserved_set (fold (\<lambda>(a, b) s. snd (reserve_range s a b)) rs s) =
     reserved_set s \<union> (\<Union>(a, b) \<in> set rs. range_frames s a b) \<and>
   total_frames (fold (\<lambda>(a, b) s. snd (reserve_range s a b)) rs s) = total_frames s"
proof (induction rs arbitrary: s)
  case Nil
  then show ?case by simp
next
  case (Cons r rs)
  obtain a b where r: "r = (a, b)" by (cases r)
  note u = reserve_range_wf [OF Cons.prems, of a b]
  show ?case
    using Cons.IH [OF u(1)] u(2,3) range_frames_total [OF u(3)] r by (auto simp: Un_assoc)
qed

lemma release_reserved_wf:
  "bitmap_wf s \<Longrightarrow> f < total_frames s \<Longrightarrow>
   bitmap_wf (release_reserved f s) \<and> reserved_set (release_reserved f s) = reserved_set s - {f} \<and>
   total_frames (release_reserved f s) = total_frames s"
  by (auto simp: release_reserved_def mem_reserved_set)

lemma fold_release_reserved:
  fixes a b :: nat and s :: frame_allocator
  assumes "bitmap_wf s" and "b \<le> total_frames s"
  defines "t \<equiv> fold release_reserved [a..<b] s"
  shows "bitmap_wf t" "reserved_set t = reserved_set s - {a..<b}" "total_frames t = total_frames s"
    "allocated_frames t = allocated_frames s"
proof -
  let ?I = "\<lambda>i u. bitmap_wf u \<and> total_frames u = total_frames s
      \<and> reserved_set u = reserved_set s - {a..<i}"
  have "?I (max a b) t"
    unfolding t_def
    by (rule fold_upt_invariant)
      (use assms release_reserved_wf in \<open>auto simp: atLeastLessThanSuc\<close>)
  then show "bitmap_wf t" "reserved_set t = reserved_set s - {a..<b}" "total_frames t = total_frames s"
    by (auto simp: max_def split: if_splits)
  show "allocated_frames t = allocated_frames s"
    unfolding t_def by (rule fold_field_const) (simp add: release_reserved_def)
qed

section \<open>What a memory map does to the bitmap\<close>

text \<open>A region fits when its end is a physical address.\<close>

definition region_fits :: "memory_region \<Rightarrow> bool" where
  "region_fits r \<longleftrightarrow> unat (mr_base r) + unat (mr_size r) < 2 ^ 52"

text \<open>The frames a region touches, partly or fully, among the first \<open>n\<close>.\<close>

definition region_frames :: "nat \<Rightarrow> memory_region \<Rightarrow> nat set" where
  "region_frames n r =
     {unat (mr_base r) div 4096 ..< min ((unat (mr_base r) + unat (mr_size r) + 4095) div 4096) n}"

definition memmap_effect :: "nat \<Rightarrow> memory_region \<Rightarrow> nat set \<Rightarrow> nat set" where
  "memmap_effect n r R = (if region_is_usable r then R - region_frames n r else R \<union> region_frames n r)"

lemma region_end_fits:
  assumes "phys_addr_law pa_new" and "region_fits r"
  shows "region_end pa_new r = Some (mr_base r + mr_size r)"
    and "unat (mr_base r + mr_size r) = unat (mr_base r) + unat (mr_size r)"
proof -
  show eq: "unat (mr_base r + mr_size r) = unat (mr_base r) + unat (mr_size r)"
    using assms(2) by (simp add: region_fits_def unat_word_ariths)
  then have "mr_base r + mr_size r < 2 ^ 52"
    using assms(2) by (simp add: region_fits_def word_less_nat_alt)
  then show "region_end pa_new r = Some (mr_base r + mr_size r)"
    using assms(1) by (simp add: region_end_def phys_addr_law_def)
qed

lemma region_frames_range:
  assumes "phys_addr_law pa_new" and "region_fits r"
  shows "range_frames s (mr_base r) (mr_base r + mr_size r) = region_frames (total_frames s) r"
proof -
  have "unat (mr_base r + mr_size r) < 2 ^ 52"
    using region_end_fits(2) [OF assms] assms(2) by (simp add: region_fits_def)
  then show ?thesis
    using region_end_fits(2) [OF assms] by (simp add: range_frames_eq region_frames_def)
qed

lemma memmap_entry_spec:
  assumes law: "phys_addr_law pa_new" and fits: "region_fits r" and wf: "bitmap_wf (pmm_alloc m)"
  shows "\<exists>m'. memmap_entry pa_new r m = Some m' \<and> bitmap_wf (pmm_alloc m') \<and>
     total_frames (pmm_alloc m') = total_frames (pmm_alloc m) \<and>
     reserved_set (pmm_alloc m') = memmap_effect (total_frames (pmm_alloc m)) r (reserved_set (pmm_alloc m)) \<and>
     memory_map m' = memory_map m @ [r]"
proof -
  let ?s = "pmm_alloc m"
  let ?e = "mr_base r + mr_size r"
  note fin = region_end_fits [OF law fits]
  have e: "unat ((?e + FRAME_SIZE - 1) div FRAME_SIZE) = (unat (mr_base r) + unat (mr_size r) + 4095) div 4096"
    using fits fin by (simp add: div_frame_size unat_round_up region_fits_def)
  show ?thesis
  proof (cases "region_is_usable r")
    case True
    then show ?thesis
      using fin(1) e fold_release_reserved [OF wf, of "min ((unat (mr_base r) + unat (mr_size r) + 4095) div 4096) (total_frames ?s)"
          "unat (mr_base r) div 4096"]
      by (simp add: memmap_entry_def Let_def memmap_effect_def region_frames_def div_frame_size)
  next
    case False
    then show ?thesis
      using fin(1) reserve_range_wf [OF wf, of "mr_base r" ?e] region_frames_range [OF law fits]
      by (simp add: memmap_entry_def Let_def memmap_effect_def reserve_region_def
          reserved_region_new_def region_new_def region_end_def)
  qed
qed

lemma memmap_entries_spec:
  assumes law: "phys_addr_law pa_new"
  shows "bitmap_wf (pmm_alloc m) \<Longrightarrow> list_all region_fits rs \<Longrightarrow>
    \<exists>m'. memmap_entries pa_new rs m = Some m' \<and> bitmap_wf (pmm_alloc m') \<and>
     total_frames (pmm_alloc m') = total_frames (pmm_alloc m) \<and>
     reserved_set (pmm_alloc m') = fold (memmap_effect (total_frames (pmm_alloc m))) rs (reserved_set (pmm_alloc m)) \<and>
     memory_map m' = memory_map m @ rs"
proof (induction rs arbitrary: m)
  case Nil
  then show ?case by simp
next
  case (Cons r rs)
  then obtain m1 where m1: "memmap_entry pa_new r m = Some m1" "bitmap_wf (pmm_alloc m1)"
    "total_frames (pmm_alloc m1) = total_frames (pmm_alloc m)"
    "reserved_set (pmm_alloc m1) = memmap_effect (total_frames (pmm_alloc m)) r (reserved_set (pmm_alloc m))"
    "memory_map m1 = memory_map m @ [r]"
    using memmap_entry_spec [OF law, of r m] by auto
  with Cons.IH [of m1] Cons.prems show ?case by auto
qed

lemma update_statistics_fields [simp]:
  "reserved_set (update_statistics s u v) = reserved_set s"
  "total_frames (update_statistics s u v) = total_frames s"
  "allocated_frames (update_statistics s u v) = allocated_frames s"
  "next_free (update_statistics s u v) = next_free s"
  "is_frame_reserved (update_statistics s u v) = is_frame_reserved s"
  "validation_enabled (update_statistics s u v) = validation_enabled s"
  "bitmap_wf (update_statistics s u v) = bitmap_wf s"
  by (simp_all add: update_statistics_def)

lemma update_statistics_inv [simp]:
  "pfa_inv (update_statistics s u v) = pfa_inv s"
  "hint_tight (update_statistics s u v) = hint_tight s"
  "validate_bitmap (update_statistics s u v) = validate_bitmap s"
proof -
  have "BITMAP (update_statistics s u v) = BITMAP s"
    by (auto simp: update_statistics_def update_fragmentation_stats_def Let_def split: prod.splits)
  then show "validate_bitmap (update_statistics s u v) = validate_bitmap s"
    by (simp add: validate_bitmap_def)
qed (simp_all add: pfa_inv_def hint_tight_def)

lemma compute_statistics_alloc:
  "\<exists>u v. pmm_alloc (compute_statistics m) = update_statistics (pmm_alloc m) u v"
  by (auto simp: compute_statistics_def Let_def split: prod.splits)

lemma compute_statistics_map [simp]: "memory_map (compute_statistics m) = memory_map m"
  by (auto simp: compute_statistics_def Let_def split: prod.splits)

lemma init_standard_wf:
  "bitmap_wf s \<Longrightarrow> bitmap_wf (init_standard_reservations s) \<and>
   reserved_set (init_standard_reservations s) = reserved_set s \<union> standard_frames (total_frames s) \<and>
   total_frames (init_standard_reservations s) = total_frames s"
  using fold_reserve_range_wf [of s standard_reservations]
  by (simp add: init_standard_reservations_def standard_union)

lemma init_from_memmap_spec:
  fixes mem :: u64
  assumes law: "phys_addr_law pa_new" and len: "length bm = BITMAP_SIZE"
    and fits: "list_all region_fits entries"
  defines "n \<equiv> min (unat mem div 4096) MAX_TRACKED_FRAMES"
  shows "\<exists>m. init_from_memmap pa_new (pmm_new bm mem) entries = Some m \<and>
     total_frames (pmm_alloc m) = n \<and> bitmap_wf (pmm_alloc m) \<and>
     reserved_set (pmm_alloc m) = fold (memmap_effect n) entries {} \<union> standard_frames n \<and>
     hint_ok (pmm_alloc m) \<and> hint_tight (pmm_alloc m) \<and> memory_map m = sort_key mr_base entries"
proof -
  let ?m = "pmm_new bm mem"
  note new = pfa_new_spec [OF len, of mem]
  have wf: "bitmap_wf (pmm_alloc ?m)" and tf: "total_frames (pmm_alloc ?m) = n"
    using new by (simp_all add: pmm_new_def pfa_inv_def n_def)
  have "reserved_set (pmm_alloc ?m) = {}" "memory_map ?m = []"
    using new by (simp_all add: pmm_new_def)
  then obtain m1 where m1: "memmap_entries pa_new entries ?m = Some m1" "bitmap_wf (pmm_alloc m1)"
    "total_frames (pmm_alloc m1) = n"
    "reserved_set (pmm_alloc m1) = fold (memmap_effect n) entries {}" "memory_map m1 = entries"
    using memmap_entries_spec [OF law wf fits] tf by auto
  let ?a = "recalculate_next_free (init_standard_reservations (pmm_alloc m1))"
  obtain u v where uv: "pmm_alloc (compute_statistics (m1\<lparr>pmm_alloc := ?a\<rparr>)) = update_statistics ?a u v"
    using compute_statistics_alloc [of "m1\<lparr>pmm_alloc := ?a\<rparr>"] by auto
  have "hint_ok (update_statistics ?a u v) = hint_ok ?a"
    by (simp add: hint_ok_def)
  then show ?thesis
    using m1 uv init_standard_wf [OF m1(2)] recalculate_wf [of "init_standard_reservations (pmm_alloc m1)"]
    by (simp add: init_from_memmap_def Let_def)
qed

section \<open>The fallback initialisation\<close>

lemma standard_frames_bound: "512 < n \<Longrightarrow> 512 \<notin> standard_frames n \<and> {0..<512} \<subseteq> standard_frames n"
  by (auto simp: standard_frames_def)

lemma tight_next_free:
  assumes "pfa_inv s" and "hint_tight s" and "f < total_frames s" and "f \<notin> reserved_set s"
    and "{0..<f} \<subseteq> reserved_set s"
  shows "next_free s = f"
proof (rule ccontr)
  assume "next_free s \<noteq> f"
  then consider "next_free s < f" | "f < next_free s" by linarith
  then show False
  proof cases
    case 1
    then have "next_free s \<in> reserved_set s" using assms(5) by auto
    then show False using assms(1) by (auto simp: pfa_inv_def mem_reserved_set)
  next
    case 2
    then show False using assms(2-4) by (auto simp: hint_tight_def mem_reserved_set)
  qed
qed

lemma pmm_init_spec:
  fixes mem :: u64 and bm :: "u8 list"
  assumes len: "length bm = BITMAP_SIZE" and big: "2097152 + 4096 \<le> unat mem"
  defines "n \<equiv> min (unat mem div 4096) MAX_TRACKED_FRAMES"
  defines "m \<equiv> pmm_init (pmm_new bm mem)"
  shows "reserved_set (pmm_alloc m) = standard_frames n"
    and "pfa_inv (pmm_alloc m)" and "pmm_validate m"
proof -
  note new = pfa_new_spec [OF len, of mem]
  define s where "s = init_standard_reservations (pfa_new bm mem)"
  note std = init_standard_spec [OF pfa_inv_core [OF new(1)], folded s_def]
  have tf: "total_frames s = n" "total_frames (pfa_new bm mem) = n"
    using std(4) new(4) by (simp_all add: n_def)
  have rs: "reserved_set s = standard_frames n"
    using std(3) new(3) tf by (simp add: standard_union)
  have n: "512 < n"
    using big by (simp add: n_def MAX_TRACKED_FRAMES_def min_def, arith)
  have "next_free s = 512"
    by (rule tight_next_free [OF std(1,2)]) (use standard_frames_bound [OF n] n rs tf in auto)
  moreover obtain u v where uv: "pmm_alloc m = snd (self_test (update_statistics s u v))"
    using compute_statistics_alloc [of "build_memory_map (pmm_new bm mem\<lparr>pmm_alloc := s\<rparr>)"]
    by (auto simp: m_def pmm_init_def Let_def build_memory_map_def s_def pmm_new_def)
  ultimately show "reserved_set (pmm_alloc m) = standard_frames n" "pfa_inv (pmm_alloc m)"
    using self_test_spec(2,3) [of "update_statistics s u v"] std n rs tf by simp_all
  then show "pmm_validate m"
    by (simp add: pmm_validate_def validate_bitmap_inv)
qed

section \<open>The last region wins\<close>

lemma fold_memmap_effect:
  "f \<in> fold (memmap_effect n) rs R \<longleftrightarrow>
     (case find (\<lambda>r. f \<in> region_frames n r) (rev rs) of
        None \<Rightarrow> f \<in> R | Some r \<Rightarrow> \<not> region_is_usable r)"
proof (induction rs rule: rev_induct)
  case Nil
  then show ?case by simp
next
  case (snoc r rs)
  then show ?case by (auto simp: memmap_effect_def)
qed

section \<open>The counter\<close>

text \<open>How far the counter is ahead of the bitmap.\<close>

definition pfa_drift :: "nat \<Rightarrow> frame_allocator \<Rightarrow> bool" where
  "pfa_drift d s \<longleftrightarrow> bitmap_wf s \<and> allocated_frames s = card (reserved_set s) + d \<and> d < 2 ^ 60"

lemma reserve_frame_drift:
  assumes "pfa_drift d s" and "f < total_frames s"
  shows "pfa_drift d (reserve_frame f s)"
proof (cases "is_frame_reserved s f")
  case True
  then show ?thesis using assms by (simp add: reserve_frame_def)
next
  case False
  have wf: "bitmap_wf s" using assms(1) by (simp add: pfa_drift_def)
  have "allocated_frames s + 1 < 2 ^ 64"
    using assms(1) card_reserved_le [of s] total_frames_bound [OF wf] by (simp add: pfa_drift_def)
  moreover have "f \<notin> reserved_set s"
    using False by (simp add: mem_reserved_set)
  ultimately show ?thesis
    using False assms wf by (simp add: reserve_frame_def pfa_drift_def)
qed

lemma recalculate_drift: "pfa_drift d s \<Longrightarrow> pfa_drift d (recalculate_next_free s)"
  using recalculate_wf [of s] by (simp add: pfa_drift_def)

lemma reserve_range_drift:
  assumes "pfa_drift d s"
  shows "pfa_drift d (snd (reserve_range s a b))"
proof -
  let ?I = "\<lambda>i::nat. \<lambda>u. pfa_drift d u \<and> total_frames u = total_frames s"
  define x where "x = unat (a div FRAME_SIZE)"
  define y where "y = min (unat ((b + FRAME_SIZE - 1) div FRAME_SIZE)) (total_frames s)"
  have "?I (max x y) (fold reserve_frame [x..<y] s)"
  proof (rule fold_upt_invariant)
    show "?I x s" using assms by simp
  next
    fix i v
    assume "i < y" "?I i v"
    moreover have "y \<le> total_frames s" by (simp add: y_def)
    ultimately show "?I (Suc i) (reserve_frame i v)"
      using reserve_frame_drift [of d v i] by auto
  qed
  then have "pfa_drift d (recalculate_next_free (fold reserve_frame [x..<y] s))"
    using recalculate_wf by (auto simp: pfa_drift_def)
  then show ?thesis
    by (simp add: reserve_range_def Let_def x_def y_def)
qed

lemma init_standard_drift:
  assumes "pfa_drift d s"
  shows "pfa_drift d (init_standard_reservations s)"
  unfolding init_standard_reservations_def
  by (rule fold_preserves [where P = "pfa_drift d"]) (use assms in \<open>auto simp: reserve_range_drift\<close>)

text \<open>The number of frames that usable regions release while they process a map.\<close>

fun memmap_released :: "nat \<Rightarrow> memory_region list \<Rightarrow> nat set \<Rightarrow> nat" where
  "memmap_released n [] R = 0"
| "memmap_released n (r # rs) R =
     (if region_is_usable r then card (region_frames n r \<inter> R) else 0) +
     memmap_released n rs (memmap_effect n r R)"

lemma card_region_frames: "card (region_frames n r \<inter> R) \<le> n"
proof -
  have "region_frames n r \<inter> R \<subseteq> {..<n}" by (auto simp: region_frames_def)
  then show ?thesis using card_mono [of "{..<n}"] by fastforce
qed

lemma memmap_released_le: "memmap_released n rs R \<le> length rs * n"
proof (induction rs arbitrary: R)
  case Nil
  then show ?case by simp
next
  case (Cons r rs)
  show ?case
    using Cons [of "memmap_effect n r R"] card_region_frames [of n r R] by simp
qed

lemma memmap_entry_drift:
  assumes law: "phys_addr_law pa_new" and fits: "region_fits r"
    and drift: "pfa_drift d (pmm_alloc m)" and entry: "memmap_entry pa_new r m = Some m'"
    and d': "d' = d + (if region_is_usable r
       then card (region_frames (total_frames (pmm_alloc m)) r \<inter> reserved_set (pmm_alloc m)) else 0)"
    and bound: "d' < 2 ^ 60"
  shows "pfa_drift d' (pmm_alloc m')"
proof (cases "region_is_usable r")
  case False
  then show ?thesis
    using entry drift d' region_end_fits(1) [OF law fits]
    by (auto simp: memmap_entry_def Let_def reserve_region_def reserved_region_new_def
        region_new_def region_end_def reserve_range_drift)
next
  case True
  let ?s = "pmm_alloc m"
  let ?F = "region_frames (total_frames ?s) r"
  have wf: "bitmap_wf ?s" using drift by (simp add: pfa_drift_def)
  have same: "allocated_frames (pmm_alloc m') = allocated_frames ?s"
    using entry True region_end_fits(1) [OF law fits]
      fold_release_reserved(4) [OF wf]
    by (auto simp: memmap_entry_def Let_def)
  have spec: "bitmap_wf (pmm_alloc m')" "reserved_set (pmm_alloc m') = reserved_set ?s - ?F"
    using memmap_entry_spec [OF law fits wf] entry True by (auto simp: memmap_effect_def)
  have "card (reserved_set ?s) = card (reserved_set ?s - ?F) + card (?F \<inter> reserved_set ?s)"
    using card_Int_Diff [of "reserved_set ?s" ?F] by (simp add: Int_commute)
  then show ?thesis
    using drift same spec True d' bound by (simp add: pfa_drift_def)
qed

lemma memmap_entries_drift:
  assumes law: "phys_addr_law pa_new"
  shows "list_all region_fits rs \<Longrightarrow> pfa_drift d (pmm_alloc m) \<Longrightarrow>
    memmap_entries pa_new rs m = Some m' \<Longrightarrow>
    d + memmap_released (total_frames (pmm_alloc m)) rs (reserved_set (pmm_alloc m)) < 2 ^ 60 \<Longrightarrow>
    pfa_drift (d + memmap_released (total_frames (pmm_alloc m)) rs (reserved_set (pmm_alloc m))) (pmm_alloc m')"
proof (induction rs arbitrary: m d)
  case Nil
  then show ?case by simp
next
  case (Cons r rs)
  let ?n = "total_frames (pmm_alloc m)"
  let ?R = "reserved_set (pmm_alloc m)"
  define d1 where "d1 = d + (if region_is_usable r then card (region_frames ?n r \<inter> ?R) else 0)"
  have wf: "bitmap_wf (pmm_alloc m)" and fits: "region_fits r"
    using Cons.prems by (simp_all add: pfa_drift_def)
  obtain m1 where m1: "memmap_entry pa_new r m = Some m1"
    "total_frames (pmm_alloc m1) = ?n" "reserved_set (pmm_alloc m1) = memmap_effect ?n r ?R"
    using memmap_entry_spec [OF law fits wf] by auto
  have total: "d + memmap_released ?n (r # rs) ?R = d1 + memmap_released ?n rs (memmap_effect ?n r ?R)"
    by (simp add: d1_def)
  then have "d1 < 2 ^ 60" using Cons.prems(4) by simp
  then have "pfa_drift d1 (pmm_alloc m1)"
    by (rule memmap_entry_drift [OF law fits Cons.prems(2) m1(1) d1_def])
  then show ?case
    using Cons.IH [of d1 m1] Cons.prems m1 total by (simp del: memmap_released.simps)
qed

text \<open>The counter after initialisation from a map of at most \<open>2 ^ 32\<close> entries (their
  number is a \<open>u32\<close>).\<close>

lemma init_from_memmap_counter:
  fixes mem :: u64
  assumes law: "phys_addr_law pa_new" and len: "length bm = BITMAP_SIZE"
    and fits: "list_all region_fits entries" and cnt: "length entries < 2 ^ 32"
    and init: "init_from_memmap pa_new (pmm_new bm mem) entries = Some m"
  shows "allocated_frames (pmm_alloc m) = card (reserved_set (pmm_alloc m)) +
      memmap_released (min (unat mem div 4096) MAX_TRACKED_FRAMES) entries {}"
    and "pmm_validate m \<longleftrightarrow> memmap_released (min (unat mem div 4096) MAX_TRACKED_FRAMES) entries {} = 0"
proof -
  let ?m = "pmm_new bm mem"
  define n where "n = min (unat mem div 4096) MAX_TRACKED_FRAMES"
  note new = pfa_new_spec [OF len, of mem]
  have m0: "total_frames (pmm_alloc ?m) = n" "reserved_set (pmm_alloc ?m) = {}" "pfa_drift 0 (pmm_alloc ?m)"
    using new by (simp_all add: pmm_new_def pfa_inv_def n_def pfa_drift_def)
  have "n \<le> 1048576" by (simp add: n_def MAX_TRACKED_FRAMES_def)
  then have "memmap_released n entries {} \<le> 2 ^ 32 * 1048576"
    using memmap_released_le [of n entries "{}"] cnt
    by (meson le_trans less_imp_le_nat mult_le_mono)
  then have bound: "0 + memmap_released n entries {} < 2 ^ 60" by simp
  obtain m1 where m1: "memmap_entries pa_new entries ?m = Some m1"
    using init by (auto simp: init_from_memmap_def split: option.splits)
  have "pfa_drift (memmap_released n entries {}) (pmm_alloc m1)"
    using memmap_entries_drift [OF law fits m0(3) m1] bound m0 by simp
  then have "pfa_drift (memmap_released n entries {})
      (recalculate_next_free (init_standard_reservations (pmm_alloc m1)))"
    using init_standard_drift by (blast intro: recalculate_drift)
  moreover obtain u v where "pmm_alloc m = update_statistics
      (recalculate_next_free (init_standard_reservations (pmm_alloc m1))) u v"
    using init m1 compute_statistics_alloc
      [of "m1\<lparr>pmm_alloc := recalculate_next_free (init_standard_reservations (pmm_alloc m1))\<rparr>"]
    by (auto simp: init_from_memmap_def Let_def)
  ultimately have d: "pfa_drift (memmap_released n entries {}) (pmm_alloc m)"
    by (simp add: pfa_drift_def)
  then show "allocated_frames (pmm_alloc m) = card (reserved_set (pmm_alloc m)) +
      memmap_released (min (unat mem div 4096) MAX_TRACKED_FRAMES) entries {}"
    by (simp add: pfa_drift_def n_def)
  from d show "pmm_validate m \<longleftrightarrow> memmap_released (min (unat mem div 4096) MAX_TRACKED_FRAMES) entries {} = 0"
    by (simp add: pmm_validate_def pfa_drift_def validate_bitmap_iff n_def)
qed

end
