(* ===== verification/Memory_Properties.thy ===== *)
theory Memory_Properties
  imports Phys_Mem
begin

text \<open>
  The properties of the physical memory manager
  (\<open>kernel/src/memory/physmem.rs\<close>), each a short consequence of the component
  lemmas, with an instance at a concrete machine: an allocator for 256 MiB of memory
  after the standard reservations.
\<close>

section \<open>A concrete machine\<close>

definition boot_pfa :: frame_allocator where
  "boot_pfa = init_standard_reservations (pfa_new (replicate BITMAP_SIZE 0) 0x10000000)"

lemma boot_pfa_facts:
  "pfa_inv boot_pfa" "hint_tight boot_pfa" "total_frames boot_pfa = 65536"
  "reserved_set boot_pfa = standard_frames 65536" "next_free boot_pfa = 512"
  "validation_enabled boot_pfa"
proof -
  let ?bm = "replicate BITMAP_SIZE (0 :: u8)"
  have len: "length ?bm = BITMAP_SIZE" by simp
  note new = pfa_new_spec [OF len, of "0x10000000"]
  note std = init_standard_spec [OF pfa_inv_core [OF new(1)], folded boot_pfa_def]
  show inv: "pfa_inv boot_pfa" "hint_tight boot_pfa" by (fact std)+
  show tf: "total_frames boot_pfa = 65536"
    using std(4) new(4) by (simp add: MAX_TRACKED_FRAMES_def)
  show rs: "reserved_set boot_pfa = standard_frames 65536"
    using std(3,4) new(3) tf by (simp add: standard_union)
  show "next_free boot_pfa = 512"
    by (rule tight_next_free [OF inv]) (auto simp: tf rs standard_frames_def)
  show "validation_enabled boot_pfa"
    using std(6) new(5) by simp
qed

definition boot_pfa_1 :: frame_allocator where
  "boot_pfa_1 = snd (allocate_frame boot_pfa)"

lemma boot_pfa_1_facts:
  "allocate_frame boot_pfa = (Some 0x200000, boot_pfa_1)" "pfa_inv boot_pfa_1"
  "total_frames boot_pfa_1 = 65536" "reserved_set boot_pfa_1 = insert 512 (standard_frames 65536)"
  "next_free boot_pfa_1 = 513"
proof -
  have lt: "next_free boot_pfa < total_frames boot_pfa"
    by (simp add: boot_pfa_facts)
  note a = allocate_frame_some [OF boot_pfa_facts(1) lt, folded boot_pfa_1_def]
  show "allocate_frame boot_pfa = (Some 0x200000, boot_pfa_1)"
    using a(1) by (simp add: prod_eq_iff boot_pfa_1_def boot_pfa_facts frame_to_address_def FRAME_SIZE_def)
  show inv: "pfa_inv boot_pfa_1" by (fact a(4))
  show tf: "total_frames boot_pfa_1 = 65536" and
    rs: "reserved_set boot_pfa_1 = insert 512 (standard_frames 65536)"
    using a by (simp_all add: boot_pfa_facts)
  show "next_free boot_pfa_1 = 513"
    by (rule tight_next_free [OF inv a(5) [OF boot_pfa_facts(2)]])
      (auto simp: tf rs standard_frames_def)
qed

lemma boot_reachable:
  "pmm_reachable (replicate BITMAP_SIZE 0) 0x10000000 (boot_pfa, {})"
  "pmm_reachable (replicate BITMAP_SIZE 0) 0x10000000 (boot_pfa_1, {512})"
proof -
  show start: "pmm_reachable (replicate BITMAP_SIZE 0) 0x10000000 (boot_pfa, {})"
    unfolding boot_pfa_def by (rule pmm_reachable.start)
  have "pmm_step (boot_pfa, {}) (boot_pfa_1, insert (address_to_frame 0x200000) {})"
    by (rule pmm_step.alloc_one) (rule boot_pfa_1_facts(1))
  then show "pmm_reachable (replicate BITMAP_SIZE 0) 0x10000000 (boot_pfa_1, {512})"
    using pmm_reachable.step [OF start]
    by (simp add: address_to_frame_def FRAME_SIZE_def unat_div)
qed

section \<open>Allocation\<close>

text \<open>C2: in every state reachable by allocator calls from a boot without a memory map, the counter
  \<open>allocated_frames\<close> equals the number of set bits, \<open>next_free\<close> is a free
  frame or the end of the tracked range, and every frame handed out and not
  released since is still marked. After a boot with a memory map the counter can be too large (property C8).\<close>

theorem pmm_reachable_inv:
  assumes "length bm = BITMAP_SIZE" and "pmm_reachable bm mem (s, live)"
  shows "pfa_inv s \<and> live \<subseteq> reserved_set s"
  using pmm_reachable_good [OF assms] by (simp add: pmm_good_def)

theorem pmm_reachable_inv_witness:
  "pfa_inv boot_pfa_1 \<and> {512} \<subseteq> reserved_set boot_pfa_1"
  by (rule pmm_reachable_inv [OF _ boot_reachable(2)]) simp

text \<open>C3: no double allocation. In a reachable state, a frame returned by
  \<open>allocate_frame\<close> is none of the frames still handed out, lies in the tracked
  range, and its address is frame-aligned and accepted by \<open>PhysAddr::new\<close>.\<close>

theorem no_double_allocation:
  assumes "length bm = BITMAP_SIZE" and "pmm_reachable bm mem (s, live)"
    and "allocate_frame s = (Some a, t)"
  shows "address_to_frame a \<notin> live \<and> address_to_frame a < total_frames s \<and>
    unat a = 4096 * address_to_frame a \<and> unat a < 2 ^ 52"
proof -
  have inv: "pfa_inv s" and live: "live \<subseteq> reserved_set s"
    using pmm_reachable_good [OF assms(1,2)] by (auto simp: pmm_good_def)
  have lt: "next_free s < total_frames s" and a: "a = frame_to_address (next_free s)"
    using assms(3) by (cases rule: allocate_frame_cases [OF inv]; simp)+
  have "next_free s \<le> 1048576"
    using lt core_bounds(2) [OF pfa_inv_core [OF inv]] by simp
  then show ?thesis
    using lt live allocate_frame_some(2) [OF inv lt]
    by (auto simp: a unat_frame_to_address)
qed

theorem no_double_allocation_witness:
  "address_to_frame (frame_to_address 513) \<notin> {512::nat} \<and>
   address_to_frame (frame_to_address 513) < total_frames boot_pfa_1 \<and>
   unat (frame_to_address 513) = 4096 * address_to_frame (frame_to_address 513) \<and>
   unat (frame_to_address 513) < 2 ^ 52"
proof (rule no_double_allocation [OF _ boot_reachable(2)])
  show "allocate_frame boot_pfa_1 = (Some (frame_to_address 513), snd (allocate_frame boot_pfa_1))"
    using allocate_frame_some(1) [OF boot_pfa_1_facts(2)] boot_pfa_1_facts(3,5)
    by (simp add: prod_eq_iff)
qed simp

text \<open>C4: while \<open>next_free\<close> has no free frame below it, \<open>allocate_frame\<close>
  fails exactly when every tracked frame is reserved, and otherwise returns the lowest
  free frame and keeps the hint tight.\<close>

theorem allocate_frame_lowest:
  assumes "pfa_inv s" and "hint_tight s"
  shows "case allocate_frame s of
      (None, t) \<Rightarrow> reserved_set s = {..<total_frames s} \<and> reserved_set t = reserved_set s
    | (Some a, t) \<Rightarrow> address_to_frame a = (LEAST f. f \<notin> reserved_set s) \<and>
        reserved_set t = insert (address_to_frame a) (reserved_set s) \<and> hint_tight t"
proof (cases "next_free s < total_frames s")
  case True
  note a = allocate_frame_some [OF assms(1) True]
  have "(LEAST f. f \<notin> reserved_set s) = next_free s"
    by (rule Least_equality)
      (use a(2) assms(2) True in \<open>auto simp: hint_tight_def mem_reserved_set not_le [symmetric]\<close>)
  then show ?thesis
    using a(1,3,5) assms(2) next_free_frame [OF assms(1) True]
    by (auto split: prod.splits)
next
  case False
  then have "reserved_set s = {..<total_frames s}"
    using assms(2) by (auto simp: hint_tight_def mem_reserved_set)
  then show ?thesis
    using False by (simp add: allocate_frame_none)
qed

theorem allocate_frame_lowest_witness:
  "case allocate_frame boot_pfa of
      (None, t) \<Rightarrow> reserved_set boot_pfa = {..<total_frames boot_pfa} \<and> reserved_set t = reserved_set boot_pfa
    | (Some a, t) \<Rightarrow> address_to_frame a = (LEAST f. f \<notin> reserved_set boot_pfa) \<and>
        reserved_set t = insert (address_to_frame a) (reserved_set boot_pfa) \<and> hint_tight t"
  by (rule allocate_frame_lowest [OF boot_pfa_facts(1,2)])

text \<open>C5: \<open>allocate_frames\<close> is a first-fit search from \<open>next_free\<close>: it
  returns the first block of \<open>count\<close> free frames at or after it and marks
  exactly that block; it fails, changing only the failure counter, when
  there is no such block.\<close>

theorem allocate_frames_first_fit:
  assumes "pfa_inv s" and "0 < count"
  shows "case allocate_frames s count of
      (None, t) \<Rightarrow> (\<forall>b \<ge> next_free s. \<not> block_free s count b) \<and> t = count_failure s
    | (Some a, t) \<Rightarrow> \<exists>b. a = frame_to_address b \<and> next_free s \<le> b \<and> block_free s count b \<and>
        (\<forall>b'. next_free s \<le> b' \<and> b' < b \<longrightarrow> \<not> block_free s count b') \<and>
        reserved_set t = reserved_set s \<union> {b..<b + count} \<and> pfa_inv t"
proof (cases rule: allocate_frames_cases [OF assms(1), of count])
  case 1
  then show ?thesis using assms(2) by simp
next
  case 2
  have "\<not> block_free s count b" if "next_free s \<le> b" for b
    using 2(2) find_block_spec [where s = s and count = count and start = "next_free s"] that
    by (auto simp: block_free_def)
  then show ?thesis by (simp add: 2(3))
next
  case (3 b)
  have "next_free s \<le> b \<and> block_free s count b \<and>
      (\<forall>b'. next_free s \<le> b' \<and> b' < b \<longrightarrow> \<not> block_free s count b')"
    using find_block_spec [where s = s and count = count and start = "next_free s"] 3(3) by simp
  then show ?thesis
    using allocate_frames_some(1,4,5) [OF assms 3(2,3)]
    by (auto split: prod.splits)
qed

theorem allocate_frames_first_fit_witness:
  "case allocate_frames boot_pfa 4 of
      (None, t) \<Rightarrow> (\<forall>b \<ge> next_free boot_pfa. \<not> block_free boot_pfa 4 b) \<and> t = count_failure boot_pfa
    | (Some a, t) \<Rightarrow> \<exists>b. a = frame_to_address b \<and> next_free boot_pfa \<le> b \<and> block_free boot_pfa 4 b \<and>
        (\<forall>b'. next_free boot_pfa \<le> b' \<and> b' < b \<longrightarrow> \<not> block_free boot_pfa 4 b') \<and>
        reserved_set t = reserved_set boot_pfa \<union> {b..<b + 4} \<and> pfa_inv t"
  by (rule allocate_frames_first_fit [OF boot_pfa_facts(1)]) simp

text \<open>A run on a machine with four tracked frames: after boot all four are reserved;
  frames 0, 2 and 3 are released and a block of two is allocated.\<close>

lemma free_reserved_frame:
  assumes "pfa_inv s" and "hint_tight s" and "f \<in> reserved_set s"
  obtains t where "free_frame s (frame_to_address f) = (Inr (), t)" "pfa_inv t" "hint_tight t"
    "reserved_set t = reserved_set s - {f}" "total_frames t = total_frames s"
proof -
  have "f \<le> 1048576"
    using assms(3) core_bounds(2) [OF pfa_inv_core [OF assms(1)]] by (simp add: mem_reserved_set)
  then have f: "address_to_frame (frame_to_address f) = f" by simp
  with assms(3) have mem: "address_to_frame (frame_to_address f) \<in> reserved_set s" by simp
  note ok = free_frame_ok [OF assms(1) mem, unfolded f]
  show thesis
    by (rule that [of "snd (free_frame s (frame_to_address f))"])
      (use ok assms(2) in \<open>auto simp: prod_eq_iff\<close>)
qed

lemma tiny_machine:
  obtains s where "pmm_reachable (replicate BITMAP_SIZE 0) 0x4000 (s, {})" "pfa_inv s"
    "hint_tight s" "total_frames s = 4" "reserved_set s = {1}"
proof -
  let ?bm = "replicate BITMAP_SIZE (0 :: u8)"
  define s0 where "s0 = init_standard_reservations (pfa_new ?bm 0x4000)"
  have len: "length ?bm = BITMAP_SIZE" by simp
  note new = pfa_new_spec [OF len, of "0x4000"]
  note std = init_standard_spec [OF pfa_inv_core [OF new(1)], folded s0_def]
  have tf: "total_frames s0 = 4"
    using std(4) new(4) by (simp add: MAX_TRACKED_FRAMES_def)
  have rs: "reserved_set s0 = {0, 1, 2, 3}"
    using std(3,4) new(3) tf by (auto simp: standard_union standard_frames_def)
  have r0: "pmm_reachable ?bm 0x4000 (s0, {})"
    unfolding s0_def by (rule pmm_reachable.start)
  obtain s1 where s1: "free_frame s0 (frame_to_address 0) = (Inr (), s1)" "pfa_inv s1" "hint_tight s1"
    "reserved_set s1 = reserved_set s0 - {0}" "total_frames s1 = total_frames s0"
    by (rule free_reserved_frame [OF std(1,2), of 0]) (auto simp: rs)
  obtain s2 where s2: "free_frame s1 (frame_to_address 2) = (Inr (), s2)" "pfa_inv s2" "hint_tight s2"
    "reserved_set s2 = reserved_set s1 - {2}" "total_frames s2 = total_frames s1"
    by (rule free_reserved_frame [OF s1(2,3), of 2]) (auto simp: s1 rs)
  obtain s3 where s3: "free_frame s2 (frame_to_address 3) = (Inr (), s3)" "pfa_inv s3" "hint_tight s3"
    "reserved_set s3 = reserved_set s2 - {3}" "total_frames s3 = total_frames s2"
    by (rule free_reserved_frame [OF s2(2,3), of 3]) (auto simp: s1 s2 rs)
  have r1: "pmm_reachable ?bm 0x4000 (s1, {})"
    using pmm_reachable.step [OF r0 pmm_step.free_one [OF s1(1)]] by simp
  have r2: "pmm_reachable ?bm 0x4000 (s2, {})"
    using pmm_reachable.step [OF r1 pmm_step.free_one [OF s2(1)]] by simp
  have r3: "pmm_reachable ?bm 0x4000 (s3, {})"
    using pmm_reachable.step [OF r2 pmm_step.free_one [OF s3(1)]] by simp
  show thesis
    by (rule that [OF r3 s3(2,3)]) (auto simp: s1 s2 s3 rs tf)
qed

text \<open>\<open>allocate_frames\<close> moves \<open>next_free\<close> past the block it returns and
  so past smaller free gaps before it. There is a reachable state in which a tracked
  frame is free and \<open>allocate_frame\<close> nevertheless reports that no frame is left.\<close>

theorem allocate_frames_strands_frames:
  "\<exists>s live f t. pmm_reachable (replicate BITMAP_SIZE 0) 0x4000 (s, live) \<and>
     f < total_frames s \<and> \<not> is_frame_reserved s f \<and> allocate_frame s = (None, t)"
proof -
  obtain s where s: "pmm_reachable (replicate BITMAP_SIZE 0) 0x4000 (s, {})" "pfa_inv s"
    "hint_tight s" "total_frames s = 4" "reserved_set s = {1}"
    by (rule tiny_machine)
  have free: "is_frame_reserved s f \<longleftrightarrow> f = 1 \<or> 4 \<le> f" for f
    using s(4) reserved_set_iff [of f s] s(5) by (cases "f < 4") auto
  have blk: "block_free s 2 b \<longleftrightarrow> b = 2" for b
  proof -
    have "{b..<b + 2} = {b, b + 1}" by auto
    then show ?thesis by (auto simp: block_free_def free s(4))
  qed
  have nf: "next_free s = 0"
    by (rule tight_next_free [OF s(2,3)]) (auto simp: s(4,5))
  have find: "find_block s 2 (next_free s) = Some 2"
    using find_block_spec [where s = s and count = 2 and start = "next_free s"]
    by (cases "find_block s 2 (next_free s)") (auto simp: blk nf)
  define t where "t = snd (allocate_frames s 2)"
  note a = allocate_frames_some [OF s(2) _ _ find, folded t_def]
  have t: "allocate_frames s 2 = (Some (frame_to_address 2), t)"
    using a(1) s(4) by (simp add: t_def prod_eq_iff)
  have "pmm_reachable (replicate BITMAP_SIZE 0) 0x4000
      (t, {} \<union> {address_to_frame (frame_to_address 2) ..< address_to_frame (frame_to_address 2) + 2})"
    by (rule pmm_reachable.step [OF s(1) pmm_step.alloc_block [OF t]])
  moreover have "0 < total_frames t" "\<not> is_frame_reserved t 0"
    using a(4,6) s(4,5) reserved_set_iff [of 0 t] by auto
  moreover have "allocate_frame t = (None, count_failure t)"
    by (rule allocate_frame_none) (use a(6,9) s(4) in simp)
  ultimately show ?thesis by blast
qed

section \<open>Release\<close>

text \<open>C6: releasing a block is atomic. With validation enabled and a block that lies
  in the tracked range, \<open>free_frames\<close> releases all its frames when every one of
  them is allocated, and otherwise reports a double free and changes no bit.\<close>

theorem free_frames_atomic:
  assumes "pfa_inv s" and "validation_enabled s" and "address_to_frame a + n \<le> total_frames s"
  defines "blk \<equiv> {address_to_frame a ..< address_to_frame a + n}"
  shows "if blk \<subseteq> reserved_set s
    then fst (free_frames s a n) = Inr () \<and>
         reserved_set (snd (free_frames s a n)) = reserved_set s - blk \<and> pfa_inv (snd (free_frames s a n))
    else free_frames s a n = (Inl DoubleFree, count_double_free s) \<and>
         BITMAP (snd (free_frames s a n)) = BITMAP s"
proof (cases "blk \<subseteq> reserved_set s")
  case True
  then show ?thesis
    using free_frames_ok(1-3) [OF assms(1,3)] by (simp add: blk_def)
next
  case False
  have "total_frames s < 2 ^ 64"
    using core_bounds(2) [OF pfa_inv_core [OF assms(1)]] by simp
  then show ?thesis
    using False free_frames_double [OF assms(3) _ assms(2)]
    by (simp add: blk_def count_double_free_def)
qed

theorem free_frames_atomic_witness:
  "let a = frame_to_address 510; blk = {address_to_frame a ..< address_to_frame a + 4} in
   \<not> blk \<subseteq> reserved_set boot_pfa \<and>
   (if blk \<subseteq> reserved_set boot_pfa
    then fst (free_frames boot_pfa a 4) = Inr () \<and>
         reserved_set (snd (free_frames boot_pfa a 4)) = reserved_set boot_pfa - blk \<and>
         pfa_inv (snd (free_frames boot_pfa a 4))
    else free_frames boot_pfa a 4 = (Inl DoubleFree, count_double_free boot_pfa) \<and>
         BITMAP (snd (free_frames boot_pfa a 4)) = BITMAP boot_pfa)"
proof -
  have f: "address_to_frame (frame_to_address 510) = 510" by simp
  have "512 \<in> {510..<510 + 4::nat}" "512 \<notin> reserved_set boot_pfa"
    by (auto simp: boot_pfa_facts standard_frames_def)
  then have "\<not> {510..<510 + 4::nat} \<subseteq> reserved_set boot_pfa" by blast
  moreover have "address_to_frame (frame_to_address 510) + 4 \<le> total_frames boot_pfa"
    by (simp add: boot_pfa_facts)
  ultimately show ?thesis
    using free_frames_atomic [OF boot_pfa_facts(1,6), of "frame_to_address 510" 4]
    unfolding Let_def f by blast
qed

text \<open>The boot-time self test passes on every consistent allocator that has a free
  frame at its hint, and leaves the set of reserved frames as it found it.\<close>

theorem self_test_passes:
  assumes "pfa_inv s" and "next_free s < total_frames s"
  shows "fst (self_test s) \<and> reserved_set (snd (self_test s)) = reserved_set s \<and>
    pfa_inv (snd (self_test s))"
  using self_test_spec [OF assms] by simp

theorem self_test_passes_witness:
  "fst (self_test boot_pfa) \<and> reserved_set (snd (self_test boot_pfa)) = reserved_set boot_pfa \<and>
   pfa_inv (snd (self_test boot_pfa))"
  by (rule self_test_passes) (simp_all add: boot_pfa_facts)

text \<open>The fragmentation scan computes the number of maximal free blocks and the
  length of the longest one: some block of \<open>largest_free_block\<close> frames is free, and
  no longer block is.\<close>

theorem fragmentation_correct:
  "free_block_count (stats (update_fragmentation_stats s)) =
     card {f. f < total_frames s \<and> block_start s f} \<and>
   (\<exists>b. block_free s (largest_free_block (stats (update_fragmentation_stats s))) b) \<and>
   \<not> (\<exists>k b. largest_free_block (stats (update_fragmentation_stats s)) < k \<and> block_free s k b)"
  using fragmentation_spec [of s] by (auto simp: not_le [symmetric])

section \<open>Initialisation\<close>

text \<open>Initialisation without a memory map. For at least 2 MiB and one frame, exactly
  the standard frames are reserved, the bitmap validates, and the first frame handed
  out is at \<open>0x200000\<close> (the module comment describes memory up to
  \<open>0x420000\<close> as reserved).\<close>

theorem physmem_init_correct:
  assumes "length bm = BITMAP_SIZE" and "2097152 + 4096 \<le> unat mem"
  shows "\<exists>m. physmem_init bm mem = Some m \<and> pmm_validate m \<and>
    reserved_set (pmm_alloc m) = standard_frames (min (unat mem div 4096) MAX_TRACKED_FRAMES) \<and>
    pfa_inv (pmm_alloc m)"
  using pmm_init_spec [OF assms] by (simp add: physmem_init_def)

theorem physmem_init_correct_witness:
  "\<exists>m. physmem_init (replicate BITMAP_SIZE 0) 0x10000000 = Some m \<and> pmm_validate m \<and>
    reserved_set (pmm_alloc m) = standard_frames (min (unat (0x10000000::u64) div 4096) MAX_TRACKED_FRAMES) \<and>
    pfa_inv (pmm_alloc m)"
  by (rule physmem_init_correct) simp_all

text \<open>C7: initialisation from the boot loader's map. When every region ends inside the
  physical address range, initialisation succeeds; a frame is reserved exactly
  when it belongs to the standard reservations or the last region of the map that
  touches it is not usable; the hint is tight and the stored map is the given one
  sorted by base address.\<close>

theorem init_from_memmap_correct:
  assumes "phys_addr_law pa_new" and "length bm = BITMAP_SIZE" and "list_all region_fits entries"
  shows "\<exists>m. init_from_memmap pa_new (pmm_new bm mem) entries = Some m \<and>
    (\<forall>f < min (unat mem div 4096) MAX_TRACKED_FRAMES.
       is_frame_reserved (pmm_alloc m) f \<longleftrightarrow>
         f \<in> standard_frames (min (unat mem div 4096) MAX_TRACKED_FRAMES) \<or>
         (case find (\<lambda>r. f \<in> region_frames (min (unat mem div 4096) MAX_TRACKED_FRAMES) r) (rev entries) of
            None \<Rightarrow> False | Some r \<Rightarrow> \<not> region_is_usable r)) \<and>
    hint_tight (pmm_alloc m) \<and> memory_map m = sort_key mr_base entries"
proof -
  let ?n = "min (unat mem div 4096) MAX_TRACKED_FRAMES"
  obtain m where m: "init_from_memmap pa_new (pmm_new bm mem) entries = Some m"
    "total_frames (pmm_alloc m) = ?n"
    "reserved_set (pmm_alloc m) = fold (memmap_effect ?n) entries {} \<union> standard_frames ?n"
    "hint_tight (pmm_alloc m)" "memory_map m = sort_key mr_base entries"
    using init_from_memmap_spec [OF assms] by blast
  have "f \<in> fold (memmap_effect ?n) entries {} \<longleftrightarrow>
      (case find (\<lambda>r. f \<in> region_frames ?n r) (rev entries) of None \<Rightarrow> False | Some r \<Rightarrow> \<not> region_is_usable r)" for f
    by (simp add: fold_memmap_effect split: option.split)
  then show ?thesis
    using m reserved_set_iff [of _ "pmm_alloc m"] by (intro exI [of _ m]) auto
qed

definition example_map :: "memory_region list" where
  "example_map = [region_new 0 0x9FC00 Usable ''Boot RAM'', region_new 0x9FC00 0x400 Reserved ''Boot Reserved'',
     region_new 0x100000 0x7F00000 Usable ''Boot RAM'']"

definition example_pa_new :: "u64 \<Rightarrow> u64 option" where
  "example_pa_new a = (if a < 2 ^ 52 then Some a else None)"

theorem init_from_memmap_correct_witness:
  "\<exists>m. init_from_memmap example_pa_new (pmm_new (replicate BITMAP_SIZE 0) 0x10000000) example_map = Some m \<and>
    (\<forall>f < min (unat (0x10000000::u64) div 4096) MAX_TRACKED_FRAMES.
       is_frame_reserved (pmm_alloc m) f \<longleftrightarrow>
         f \<in> standard_frames (min (unat (0x10000000::u64) div 4096) MAX_TRACKED_FRAMES) \<or>
         (case find (\<lambda>r. f \<in> region_frames (min (unat (0x10000000::u64) div 4096) MAX_TRACKED_FRAMES) r) (rev example_map) of
            None \<Rightarrow> False | Some r \<Rightarrow> \<not> region_is_usable r)) \<and>
    hint_tight (pmm_alloc m) \<and> memory_map m = sort_key mr_base example_map"
proof (rule init_from_memmap_correct)
  show "phys_addr_law example_pa_new"
    by (simp add: phys_addr_law_def example_pa_new_def)
  show "list_all region_fits example_map"
    by (simp add: example_map_def region_fits_def region_new_def)
qed simp

text \<open>C8: releasing the frames of a usable region does not touch the counter. After
  initialisation from a map, \<open>allocated_frames\<close> exceeds the number of reserved
  frames by the number of frames that usable regions took back from regions listed
  before them, and \<open>validate\<close> succeeds only when there are none.\<close>

theorem memmap_counter_drift:
  assumes "phys_addr_law pa_new" and "length bm = BITMAP_SIZE" and "list_all region_fits entries"
    and "length entries < 2 ^ 32" and "init_from_memmap pa_new (pmm_new bm mem) entries = Some m"
  shows "allocated_frames (pmm_alloc m) = card (reserved_set (pmm_alloc m)) +
      memmap_released (min (unat mem div 4096) MAX_TRACKED_FRAMES) entries {} \<and>
    (pmm_validate m \<longleftrightarrow> memmap_released (min (unat mem div 4096) MAX_TRACKED_FRAMES) entries {} = 0)"
  using init_from_memmap_counter [OF assms] by simp

text \<open>The instance is a map that reserves the second half of frame 600 and then lists its
  first half as usable: the counter is one too high and validation fails.\<close>

definition drifting_map :: "memory_region list" where
  "drifting_map = [region_new 0x258800 0x800 Reserved ''Boot Reserved'',
     region_new 0x258000 0x800 Usable ''Boot RAM'']"

lemma drifting_map_released: "memmap_released 65536 drifting_map {} = 1"
  by (simp add: drifting_map_def region_is_usable_def region_new_def memmap_effect_def region_frames_def)

theorem memmap_counter_drift_witness:
  "\<exists>m. init_from_memmap example_pa_new (pmm_new (replicate BITMAP_SIZE 0) 0x10000000) drifting_map = Some m \<and>
       allocated_frames (pmm_alloc m) = card (reserved_set (pmm_alloc m)) + 1 \<and> \<not> pmm_validate m"
proof -
  have law: "phys_addr_law example_pa_new"
    by (simp add: phys_addr_law_def example_pa_new_def)
  have len: "length (replicate BITMAP_SIZE (0::u8)) = BITMAP_SIZE" by simp
  have fits: "list_all region_fits drifting_map"
    by (simp add: drifting_map_def region_fits_def region_new_def)
  have cnt: "length drifting_map < 2 ^ 32" by (simp add: drifting_map_def)
  obtain m where m: "init_from_memmap example_pa_new (pmm_new (replicate BITMAP_SIZE 0) 0x10000000) drifting_map = Some m"
    using init_from_memmap_spec [OF law len fits] by blast
  have n: "min (unat (0x10000000::u64) div 4096) MAX_TRACKED_FRAMES = 65536"
    by (simp add: MAX_TRACKED_FRAMES_def)
  show ?thesis
    using memmap_counter_drift [OF law len fits cnt m] m unfolding n drifting_map_released by simp
qed

end
