(* ===== verification/Kernel_Memory.thy ===== *)
theory Kernel_Memory
  imports Phys_Mem
begin

text \<open>
  Physical memory as the kernel accesses it through raw pointers: bytes by address, words of
  eight bytes in little-endian order, and the stack discipline of \<open>push\<close> and
  \<open>pop\<close>. Addresses wrap around as pointers do.
\<close>

section \<open>Words in memory\<close>

definition store64 :: "phys_bytes \<Rightarrow> u64 \<Rightarrow> u64 \<Rightarrow> phys_bytes" where
  "store64 m a v = m(a := ucast v, a + 1 := ucast (drop_bit 8 v), a + 2 := ucast (drop_bit 16 v),
     a + 3 := ucast (drop_bit 24 v), a + 4 := ucast (drop_bit 32 v), a + 5 := ucast (drop_bit 40 v),
     a + 6 := ucast (drop_bit 48 v), a + 7 := ucast (drop_bit 56 v))"

text \<open>Two words do not overlap when their addresses are at least eight apart, in either
  direction around the address space.\<close>

definition apart :: "u64 \<Rightarrow> u64 \<Rightarrow> bool" where
  "apart a b \<longleftrightarrow> 8 \<le> unat (a - b) \<and> 8 \<le> unat (b - a)"

lemma apart_sym: "apart a b \<Longrightarrow> apart b a"
  by (simp add: apart_def)

lemma apart_neq:
  assumes "apart a b" and "unat i < 8" and "unat j < 8"
  shows "a + i \<noteq> b + j"
proof
  assume "a + i = b + j"
  then have "a - b = j - i" and "b - a = i - j" by (simp_all add: algebra_simps)
  moreover have "i \<le> j \<or> j \<le> i" by auto
  ultimately show False
    using assms by (auto simp: apart_def unat_sub word_le_nat_alt)
qed

lemma word_eight_bytes:
  fixes v :: u64
  shows "ucast (u32_from_le (ucast v) (ucast (drop_bit 8 v)) (ucast (drop_bit 16 v)) (ucast (drop_bit 24 v))) OR
    push_bit 32 (ucast (u32_from_le (ucast (drop_bit 32 v)) (ucast (drop_bit 40 v)) (ucast (drop_bit 48 v))
      (ucast (drop_bit 56 v)))) = v"
  (is "?w = v")
proof (rule bit_word_eqI)
  fix n
  assume "n < LENGTH(64)"
  then consider "n < 8" | "8 \<le> n" "n < 16" | "16 \<le> n" "n < 24" | "24 \<le> n" "n < 32"
    | "32 \<le> n" "n < 40" | "40 \<le> n" "n < 48" | "48 \<le> n" "n < 56" | "56 \<le> n" "n < 64"
    by fastforce
  then show "bit ?w n = bit v n"
    by cases (auto simp: u32_from_le_def bit_simps)
qed

lemma load64_store64 [simp]: "load64 (store64 m a v) a = v"
  unfolding load64_def load32_def store64_def
  by (simp add: word_eight_bytes add.assoc)

lemma load64_store64_other:
  assumes "apart a b"
  shows "load64 (store64 m b v) a = load64 m a"
proof -
  have n: "a + i \<noteq> b + j" if "unat i < 8" "unat j < 8" for i j
    using apart_neq [OF assms that] .
  have "store64 m b v (a + i) = m (a + i)" if "unat i < 8" for i
    unfolding store64_def using n [OF that, of 0] n [OF that, of 1] n [OF that, of 2] n [OF that, of 3] n [OF that, of 4]
      n [OF that, of 5] n [OF that, of 6] n [OF that, of 7] by simp
  from this [of 0] this [of 1] this [of 2] this [of 3] this [of 4] this [of 5] this [of 6] this [of 7]
  show ?thesis by (simp add: load64_def load32_def add.assoc)
qed

section \<open>The stack\<close>

definition push64 :: "u64 \<Rightarrow> phys_bytes \<times> u64 \<Rightarrow> phys_bytes \<times> u64" where
  "push64 v = (\<lambda>(m, rsp). (store64 m (rsp - 8) v, rsp - 8))"

definition push_all :: "u64 list \<Rightarrow> phys_bytes \<times> u64 \<Rightarrow> phys_bytes \<times> u64" where
  "push_all vs s = fold push64 vs s"

text \<open>The words at and above a stack pointer, in the order in which \<open>pop\<close> takes them.\<close>

definition stack_words :: "nat \<Rightarrow> phys_bytes \<Rightarrow> u64 \<Rightarrow> u64 list" where
  "stack_words n m rsp = map (\<lambda>i. load64 m (rsp + 8 * of_nat i)) [0..<n]"

lemma length_stack_words [simp]: "length (stack_words n m rsp) = n"
  by (simp add: stack_words_def)

lemma nth_stack_words: "i < n \<Longrightarrow> stack_words n m rsp ! i = load64 m (rsp + 8 * of_nat i)"
  by (simp add: stack_words_def)

lemma stack_words_Suc: "stack_words (Suc n) m rsp = load64 m rsp # stack_words n m (rsp + 8)"
  unfolding stack_words_def by (rule nth_equalityI) (auto simp: nth_Cons algebra_simps split: nat.split simp del: upt_Suc)

lemma apart_stack:
  assumes "0 < k" and "k < 2 ^ 60"
  shows "apart (a + 8 * of_nat k) a"
proof -
  have k: "unat (8 * of_nat k :: u64) = 8 * k"
    using assms by (simp add: unat_word_ariths unat_of_nat)
  then have "unat (a - (a + 8 * of_nat k)) = 2 ^ 64 - 8 * k"
    using assms unat_sub_if_size [of 0 "8 * of_nat k :: u64"] by (simp add: word_size)
  with k show ?thesis
    using assms by (simp add: apart_def)
qed

lemma stack_words_push:
  assumes "n < 2 ^ 59"
  shows "stack_words (Suc n) (store64 m (rsp - 8) v) (rsp - 8) = v # stack_words n m rsp"
proof -
  have "load64 (store64 m (rsp - 8) v) (rsp + 8 * of_nat i) = load64 m (rsp + 8 * of_nat i)" if "i < n" for i
    using apart_stack [of "Suc i" "rsp - 8"] that assms by (intro load64_store64_other) (simp add: algebra_simps)
  then show ?thesis by (simp add: stack_words_Suc) (simp add: stack_words_def)
qed

text \<open>What has been pushed is popped in reverse order, and the words that were on the stack
  follow.\<close>

lemma push_all_words:
  assumes "length vs + n < 2 ^ 59" and "push_all vs (m, rsp) = (m', rsp')"
  shows "stack_words (length vs + n) m' rsp' = rev vs @ stack_words n m rsp"
  using assms
proof (induction vs arbitrary: m rsp n)
  case Nil
  then show ?case by (simp add: push_all_def)
next
  case (Cons v vs)
  have "push_all vs (store64 m (rsp - 8) v, rsp - 8) = (m', rsp')"
    using Cons.prems(2) by (simp add: push_all_def push64_def)
  then have "stack_words (length vs + Suc n) m' rsp' = rev vs @ stack_words (Suc n) (store64 m (rsp - 8) v) (rsp - 8)"
    using Cons.prems(1) by (intro Cons.IH) simp_all
  then show ?case
    using stack_words_push [of n m rsp v] Cons.prems(1) by simp
qed

lemma push_all_rsp: "push_all vs (m, rsp) = (m', rsp') \<Longrightarrow> rsp' = rsp - 8 * of_nat (length vs)"
proof (induction vs arbitrary: m rsp)
  case (Cons v vs)
  then have "push_all vs (store64 m (rsp - 8) v, rsp - 8) = (m', rsp')"
    by (simp add: push_all_def push64_def)
  from Cons.IH [OF this] show ?case by (simp add: algebra_simps)
qed (simp add: push_all_def)

end
