(* ===== verification/Process_Context.thy ===== *)
theory Process_Context
  imports Kernel_Memory
begin

text \<open>
  Process control blocks and saved register states: \<open>kernel/src/process/pcb.rs\<close>,
  \<open>kernel/src/process/context.rs\<close> and the entry stub of
  \<open>kernel/src/process/syscall.rs\<close>. The assembly is modelled instruction by instruction
  on a register state and memory; \<open>iretq\<close> and the interrupt entry load and store the
  five words of the interrupt frame, without the privilege checks of the processor.
\<close>

section \<open>Registers\<close>

definition USER_CS :: u64 where "USER_CS = 0x2B"
definition USER_SS :: u64 where "USER_SS = 0x23"

record Context =
  cx_r15 :: u64
  cx_r14 :: u64
  cx_r13 :: u64
  cx_r12 :: u64
  cx_r11 :: u64
  cx_r10 :: u64
  cx_r9 :: u64
  cx_r8 :: u64
  cx_rbp :: u64
  cx_rdi :: u64
  cx_rsi :: u64
  cx_rdx :: u64
  cx_rcx :: u64
  cx_rbx :: u64
  cx_rax :: u64
  cx_rip :: u64
  cx_cs :: u64
  cx_rflags :: u64
  cx_rsp :: u64
  cx_ss :: u64

type_synonym cpu_state = "Context \<times> phys_bytes"

text \<open>The general registers from \<open>r15\<close> up to \<open>rax\<close>, and the interrupt frame: the
  words of a saved state in the order of their addresses.\<close>

definition gpr_words :: "Context \<Rightarrow> u64 list" where
  "gpr_words c = [cx_r15 c, cx_r14 c, cx_r13 c, cx_r12 c, cx_r11 c, cx_r10 c, cx_r9 c, cx_r8 c, cx_rbp c,
     cx_rdi c, cx_rsi c, cx_rdx c, cx_rcx c, cx_rbx c, cx_rax c]"

definition frame_words :: "Context \<Rightarrow> u64 list" where
  "frame_words c = [cx_rip c, cx_cs c, cx_rflags c, cx_rsp c, cx_ss c]"

definition context_of_words :: "u64 list \<Rightarrow> Context" where
  "context_of_words w = \<lparr> cx_r15 = w ! 0, cx_r14 = w ! 1, cx_r13 = w ! 2, cx_r12 = w ! 3, cx_r11 = w ! 4,
     cx_r10 = w ! 5, cx_r9 = w ! 6, cx_r8 = w ! 7, cx_rbp = w ! 8, cx_rdi = w ! 9, cx_rsi = w ! 10,
     cx_rdx = w ! 11, cx_rcx = w ! 12, cx_rbx = w ! 13, cx_rax = w ! 14, cx_rip = w ! 15, cx_cs = w ! 16,
     cx_rflags = w ! 17, cx_rsp = w ! 18, cx_ss = w ! 19 \<rparr>"

lemma context_of_words_id [simp]: "context_of_words (gpr_words c @ frame_words c) = c"
  by (simp add: context_of_words_def gpr_words_def frame_words_def)

lemma length_gpr_words [simp]: "length (gpr_words c) = 15" and length_frame_words [simp]: "length (frame_words c) = 5"
  by (simp_all add: gpr_words_def frame_words_def)

text \<open>Fifteen \<open>pop\<close> instructions from \<open>r15\<close> to \<open>rax\<close>, then \<open>iretq\<close>.\<close>

definition pop_and_iretq :: "phys_bytes \<Rightarrow> u64 \<Rightarrow> Context" where
  "pop_and_iretq m rsp = context_of_words (stack_words 20 m rsp)"

section \<open>Saving, restoring and switching\<close>

text \<open>\<open>save_context\<close> stores the live registers (\<open>rdi\<close> holds the pointer itself) and
  then copies the interrupt frame word by word through \<open>r8\<close>.\<close>

definition copy_word :: "u64 \<Rightarrow> nat \<Rightarrow> cpu_state \<Rightarrow> cpu_state" where
  "copy_word ctx i = (\<lambda>(c, m). let w = load64 m (cx_rsp c + 8 * of_nat i) in
     (c \<lparr> cx_r8 := w \<rparr>, store64 m (ctx + 8 * of_nat i) w))"

definition store_words :: "u64 \<Rightarrow> u64 list \<Rightarrow> phys_bytes \<Rightarrow> phys_bytes" where
  "store_words a ws m = fold (\<lambda>(i, w) m. store64 m (a + 8 * of_nat i) w) (enumerate 0 ws) m"

definition save_context :: "u64 \<Rightarrow> cpu_state \<Rightarrow> cpu_state" where
  "save_context ctx = (\<lambda>(c, m).
     let c0 = c \<lparr> cx_rdi := ctx \<rparr> in
     fold (copy_word ctx) [15, 16, 17, 18, 19] (c0, store_words ctx (gpr_words c0) m))"

text \<open>\<open>restore_context\<close> loads the registers by their offsets and leaves through
  \<open>iretq\<close> with the stack pointer at the saved frame.\<close>

definition restore_context :: "u64 \<Rightarrow> phys_bytes \<Rightarrow> Context" where
  "restore_context ctx m =
     (let at = (\<lambda>i :: nat. load64 m (ctx + 8 * of_nat i)); rsp = ctx + 8 * 15 in
      \<lparr> cx_r15 = at 0, cx_r14 = at 1, cx_r13 = at 2, cx_r12 = at 3, cx_r11 = at 4, cx_r10 = at 5, cx_r9 = at 6,
        cx_r8 = at 7, cx_rbp = at 8, cx_rdi = at 9, cx_rsi = at 10, cx_rdx = at 11, cx_rcx = at 12,
        cx_rbx = at 13, cx_rax = at 14, cx_rip = load64 m rsp, cx_cs = load64 m (rsp + 8),
        cx_rflags = load64 m (rsp + 16), cx_rsp = load64 m (rsp + 24), cx_ss = load64 m (rsp + 32) \<rparr>)"

definition switch_context :: "u64 \<Rightarrow> u64 \<Rightarrow> cpu_state \<Rightarrow> cpu_state" where
  "switch_context old_rsp_ptr new_rsp = (\<lambda>(c, m).
     let m' = store64 m old_rsp_ptr (cx_rsp c) in (pop_and_iretq m' new_rsp, m'))"

lemma restore_is_pop: "restore_context ctx m = pop_and_iretq m ctx"
  by (simp add: restore_context_def pop_and_iretq_def context_of_words_def nth_stack_words Let_def algebra_simps)

section \<open>Process control blocks\<close>

definition MAX_PROCESSES :: nat where "MAX_PROCESSES = 8"
definition USER_STACK_SIZE :: u64 where "USER_STACK_SIZE = 8 * 1024"
definition KERNEL_STACK_SIZE :: u64 where "KERNEL_STACK_SIZE = 8 * 1024"
definition USER_STACK_TOP :: u64 where "USER_STACK_TOP = 0x00007FFFFFFFF000"

datatype ProcessState = Unused | Ready | Running | Blocked | Sleeping | Exited

record ProcessControlBlock =
  pcb_pid :: u32
  pcb_state :: ProcessState
  kernel_rsp :: u64
  user_rsp :: u64
  pml4_phys :: u64
  elf_entry :: u64
  exit_code :: u32
  kernel_stack_phys :: u64
  user_stack_phys :: u64
  sleep_until :: u64

text \<open>\<open>ProcessControlBlock::new\<close> takes the next process number from a counter, which
  wraps.\<close>

definition pcb_new :: "u32 \<Rightarrow> ProcessControlBlock \<times> u32" where
  "pcb_new next_pid =
     (\<lparr> pcb_pid = next_pid, pcb_state = Unused, kernel_rsp = 0, user_rsp = USER_STACK_TOP, pml4_phys = 0,
        elf_entry = 0, exit_code = 0, kernel_stack_phys = 0, user_stack_phys = 0, sleep_until = 0 \<rparr>, next_pid + 1)"

definition initial_words :: "ProcessControlBlock \<Rightarrow> u64 list" where
  "initial_words p = [USER_SS, user_rsp p, 0x200, USER_CS, elf_entry p] @ replicate 15 0"

definition build_initial_kernel_stack ::
  "ProcessControlBlock \<Rightarrow> phys_bytes \<Rightarrow> ProcessControlBlock \<times> phys_bytes" where
  "build_initial_kernel_stack p m =
     (case push_all (initial_words p) (m, kernel_stack_phys p + KERNEL_STACK_SIZE) of
        (m', frame) \<Rightarrow> (p \<lparr> kernel_rsp := frame \<rparr>, m'))"

lemma build_stack_words:
  assumes "build_initial_kernel_stack p m = (p', m')"
  shows "stack_words 20 m' (kernel_rsp p') = rev (initial_words p)"
    and "kernel_rsp p' = kernel_stack_phys p + KERNEL_STACK_SIZE - 160"
    and "p' = p \<lparr> kernel_rsp := kernel_rsp p' \<rparr>"
proof -
  obtain f where f: "push_all (initial_words p) (m, kernel_stack_phys p + KERNEL_STACK_SIZE) = (m', f)"
      and p': "p' = p \<lparr> kernel_rsp := f \<rparr>"
    using assms by (auto simp: build_initial_kernel_stack_def split: prod.splits)
  have len: "length (initial_words p) = 20" by (simp add: initial_words_def)
  then show "stack_words 20 m' (kernel_rsp p') = rev (initial_words p)"
    using push_all_words [OF _ f, of 0] p' by (simp add: stack_words_def)
  show "kernel_rsp p' = kernel_stack_phys p + KERNEL_STACK_SIZE - 160"
    using push_all_rsp [OF f] len p' by simp
  show "p' = p \<lparr> kernel_rsp := kernel_rsp p' \<rparr>" using p' by simp
qed

section \<open>System call entry\<close>

text \<open>An interrupt from user mode: the processor takes the stack pointer from the task state
  segment, aligns it to sixteen bytes and pushes the interrupt frame.\<close>

definition interrupt_entry :: "u64 \<Rightarrow> cpu_state \<Rightarrow> phys_bytes \<times> u64" where
  "interrupt_entry rsp0 = (\<lambda>(c, m). push_all (rev (frame_words c)) (m, rsp0 AND NOT 0xF))"

text \<open>The entry stub up to the call of the dispatcher: fifteen pushes, and the arguments taken
  from the saved registers.\<close>

definition syscall_args :: "phys_bytes \<Rightarrow> u64 \<Rightarrow> u64 \<times> u64 \<times> u64 \<times> u64" where
  "syscall_args m rsp =
     (load64 m (rsp + 8 * 14), load64 m (rsp + 8 * 9), load64 m (rsp + 8 * 10), load64 m (rsp + 8 * 11))"

definition syscall_prologue :: "u64 \<Rightarrow> cpu_state \<Rightarrow> phys_bytes \<times> u64" where
  "syscall_prologue rsp0 = (\<lambda>(c, m). push_all (rev (gpr_words c)) (interrupt_entry rsp0 (c, m)))"

text \<open>The stub after a dispatcher that returned: the return value replaces the saved
  \<open>rax\<close>, and the saved state is popped.\<close>

definition syscall_epilogue :: "u64 \<Rightarrow> phys_bytes \<Rightarrow> u64 \<Rightarrow> cpu_state" where
  "syscall_epilogue ret m rsp = (let m' = store64 m (rsp + 8 * 14) ret in (pop_and_iretq m' rsp, m'))"

lemma syscall_prologue_words:
  assumes "syscall_prologue rsp0 (c, m) = (m', rsp)"
  shows "stack_words 20 m' rsp = gpr_words c @ frame_words c"
proof -
  obtain m1 r1 where i: "push_all (rev (frame_words c)) (m, rsp0 AND NOT 0xF) = (m1, r1)" by fastforce
  then have g: "push_all (rev (gpr_words c)) (m1, r1) = (m', rsp)"
    using assms by (simp add: syscall_prologue_def interrupt_entry_def)
  have "stack_words 5 m1 r1 = frame_words c"
    using push_all_words [OF _ i, of 0] by (simp add: stack_words_def)
  moreover have "stack_words 20 m' rsp = gpr_words c @ stack_words 5 m1 r1"
    using push_all_words [OF _ g, of 5] by simp
  ultimately show ?thesis by simp
qed

lemma apart_words:
  assumes "i < j" and "j < 2 ^ 59"
  shows "apart (rsp + 8 * of_nat j) (rsp + 8 * of_nat i)"
proof -
  have "apart (rsp + 8 * of_nat i + 8 * of_nat (j - i)) (rsp + 8 * of_nat i)"
    using assms by (intro apart_stack) simp_all
  moreover have "rsp + 8 * of_nat i + 8 * of_nat (j - i) = rsp + 8 * of_nat j"
    using assms(1) by (simp add: of_nat_diff algebra_simps)
  ultimately show ?thesis by simp
qed

lemma stack_words_store:
  assumes "i < n" and "n < 2 ^ 59"
  shows "stack_words n (store64 m (rsp + 8 * of_nat i) v) rsp = (stack_words n m rsp)[i := v]"
proof (rule nth_equalityI)
  fix j
  assume "j < length (stack_words n (store64 m (rsp + 8 * of_nat i) v) rsp)"
  then have j: "j < n" by simp
  show "stack_words n (store64 m (rsp + 8 * of_nat i) v) rsp ! j = (stack_words n m rsp)[i := v] ! j"
  proof (cases "j = i")
    case True
    with j show ?thesis by (simp add: nth_stack_words)
  next
    case False
    have "apart (rsp + 8 * of_nat j) (rsp + 8 * of_nat i)"
      using apart_words [of i j rsp] apart_words [of j i rsp] False j assms by (cases "i < j") (auto intro: apart_sym)
    with j False show ?thesis by (simp add: nth_stack_words load64_store64_other)
  qed
qed simp

end
