(* ===== verification/Page_Tables.thy ===== *)
theory Page_Tables
  imports Kernel_Memory
begin

text \<open>
  The page table walks of \<open>kernel/src/process/mod.rs\<close>. Tables are read from physical
  memory, which the kernel maps one to one. What the \<open>x86_64\<close> crate contributes (the
  fields of an entry, \<open>VirtAddr::new\<close> and the table indices, \<open>PhysAddr::new\<close>) is a
  parameter; \<open>x86_law\<close> is its documented behaviour. The section on paging is a specification: how the
  processor translates an address, and which addresses it gives programs.
\<close>

section \<open>The crate\<close>

record x86_crate =
  pte_present :: "u64 \<Rightarrow> bool"
  pte_user :: "u64 \<Rightarrow> bool"
  pte_huge :: "u64 \<Rightarrow> bool"
  pte_addr :: "u64 \<Rightarrow> u64"
  virt_new :: "u64 \<Rightarrow> u64 option"
  p4_index :: "u64 \<Rightarrow> nat"
  p3_index :: "u64 \<Rightarrow> nat"
  p2_index :: "u64 \<Rightarrow> nat"
  p1_index :: "u64 \<Rightarrow> nat"
  phys_new :: "u64 \<Rightarrow> u64 option"

text \<open>A canonical address is the sign extension of its low 48 bits; \<open>VirtAddr::new\<close> panics on
  any other.\<close>

definition canonical :: "u64 \<Rightarrow> bool" where
  "canonical a \<longleftrightarrow> a < 0x0000800000000000 \<or> 0xFFFF800000000000 \<le> a"

definition x86_law :: "x86_crate \<Rightarrow> bool" where
  "x86_law cr \<longleftrightarrow>
     (\<forall>e. pte_present cr e = bit e 0 \<and> pte_user cr e = bit e 2 \<and> pte_huge cr e = bit e 7 \<and>
          pte_addr cr e = e AND 0x000FFFFFFFFFF000) \<and>
     (\<forall>a. virt_new cr a = (if canonical a then Some a else None)) \<and>
     (\<forall>a. p4_index cr a = unat (drop_bit 39 a AND 0x1FF) \<and> p3_index cr a = unat (drop_bit 30 a AND 0x1FF) \<and>
          p2_index cr a = unat (drop_bit 21 a AND 0x1FF) \<and> p1_index cr a = unat (drop_bit 12 a AND 0x1FF)) \<and>
     phys_addr_law (phys_new cr)"

text \<open>An entry of a table at a physical address.\<close>

definition pt_entry :: "phys_bytes \<Rightarrow> u64 \<Rightarrow> nat \<Rightarrow> u64" where
  "pt_entry m table i = load64 m (table + 8 * of_nat i)"

text \<open>\<open>Page::containing_address\<close> and \<open>PhysFrame::containing_address\<close>.\<close>

definition page_of :: "u64 \<Rightarrow> u64" where "page_of a = a AND NOT 0xFFF"

section \<open>Paging\<close>

text \<open>How the processor itself resolves an address, with the bits of the architecture: the leaf entry
  of an address and the size of its page as a power of two, when every entry on the way is
  present. The kernel turns neither execute-disable nor the protection of user pages from the kernel on, so
  that in ring 0 a present page can be read and executed.\<close>

definition table_index :: "nat \<Rightarrow> u64 \<Rightarrow> nat" where
  "table_index k a = unat (drop_bit k a AND 0x1FF)"

definition next_table :: "u64 \<Rightarrow> u64" where
  "next_table e = e AND 0x000FFFFFFFFFF000"

definition page_leaf :: "phys_bytes \<Rightarrow> u64 \<Rightarrow> u64 \<Rightarrow> (nat \<times> u64) option" where
  "page_leaf m root a =
     (let p4 = pt_entry m root (table_index 39 a) in
      if \<not> bit p4 0 then None
      else let p3 = pt_entry m (next_table p4) (table_index 30 a) in
      if \<not> bit p3 0 then None
      else if bit p3 7 then Some (30, p3)
      else let p2 = pt_entry m (next_table p3) (table_index 21 a) in
      if \<not> bit p2 0 then None
      else if bit p2 7 then Some (21, p2)
      else let p1 = pt_entry m (next_table p2) (table_index 12 a) in
      if \<not> bit p1 0 then None else Some (12, p1))"

definition translate :: "phys_bytes \<Rightarrow> u64 \<Rightarrow> u64 \<Rightarrow> u64 option" where
  "translate m root a =
     (if canonical a
      then map_option (\<lambda>(k, e). (next_table e AND NOT (mask k)) OR (a AND mask k)) (page_leaf m root a)
      else None)"

text \<open>A byte that a program may use: it is mapped, and when its page has 4 KiB, for programs.\<close>

definition user_mapped :: "phys_bytes \<Rightarrow> u64 \<Rightarrow> u64 \<Rightarrow> bool" where
  "user_mapped m root a = (case page_leaf m root a of None \<Rightarrow> False | Some (k, e) \<Rightarrow> k = 12 \<longrightarrow> bit e 2)"

section \<open>Checking user pointers\<close>

text \<open>The walk for one address: not accessible, accessible, or in a large page of a size that
  the loop then skips.\<close>

datatype walk = Denied | Page_Ok | Skip_To u64

definition walk_page :: "x86_crate \<Rightarrow> phys_bytes \<Rightarrow> u64 \<Rightarrow> u64 \<Rightarrow> u64 \<Rightarrow> walk" where
  "walk_page cr m pml4 virt addr =
     (let p4 = pt_entry m pml4 (p4_index cr virt) in
      if \<not> pte_present cr p4 then Denied
      else let p3 = pt_entry m (pte_addr cr p4) (p3_index cr virt) in
      if \<not> pte_present cr p3 then Denied
      else if pte_huge cr p3 then Skip_To ((addr AND NOT (2 ^ 30 - 1)) + 2 ^ 30)
      else let p2 = pt_entry m (pte_addr cr p3) (p2_index cr virt) in
      if \<not> pte_present cr p2 then Denied
      else if pte_huge cr p2 then Skip_To ((addr AND NOT (2 ^ 21 - 1)) + 2 ^ 21)
      else let p1 = pt_entry m (pte_addr cr p2) (p1_index cr virt) in
      if \<not> pte_present cr p1 then Denied
      else if \<not> pte_user cr p1 then Denied
      else Page_Ok)"

text \<open>The loop over the pages. The outer option is \<open>None\<close> when the loop does not end, the
  inner one when \<open>VirtAddr::new\<close> panics.\<close>

partial_function (option) validate_loop ::
  "x86_crate \<Rightarrow> phys_bytes \<Rightarrow> u64 \<Rightarrow> u64 \<Rightarrow> u64 \<Rightarrow> bool option option" where
  "validate_loop cr m pml4 end_page addr =
     (if \<not> addr \<le> end_page then Some (Some True)
      else case virt_new cr addr of
          None \<Rightarrow> Some None
        | Some virt \<Rightarrow>
            (case walk_page cr m pml4 virt addr of
               Denied \<Rightarrow> Some (Some False)
             | Skip_To a \<Rightarrow> validate_loop cr m pml4 end_page a
             | Page_Ok \<Rightarrow> validate_loop cr m pml4 end_page (addr + 4096)))"

definition KERNEL_SPACE :: u64 where "KERNEL_SPACE = 0xFFFF800000000000"

definition validate_user_ptr :: "x86_crate \<Rightarrow> phys_bytes \<Rightarrow> u64 \<Rightarrow> u64 \<Rightarrow> u64 \<Rightarrow> bool option option" where
  "validate_user_ptr cr m cr3 ptr len =
     (if ptr = 0 \<or> len = 0 then Some (Some False)
      else if ptr \<ge> KERNEL_SPACE then Some (Some False)
      else let end = saturating_add ptr len in
        if end < ptr \<or> end > KERNEL_SPACE then Some (Some False)
        else validate_loop cr m cr3 ((end - 1) AND NOT 0xFFF) (ptr AND NOT 0xFFF))"

section \<open>Freeing an address space\<close>

text \<open>\<open>free_page\<close> ignores the result of the allocator; \<open>None\<close> is a panic.\<close>

definition free_page :: "x86_crate \<Rightarrow> u64 \<Rightarrow> pmm_global \<Rightarrow> pmm_global option" where
  "free_page cr phys g =
     (case phys_new cr phys of None \<Rightarrow> None
      | Some a \<Rightarrow> map_option snd (physmem_free_frame g a))"

primrec fold_opt :: "('a \<Rightarrow> 's \<Rightarrow> 's option) \<Rightarrow> 'a list \<Rightarrow> 's \<Rightarrow> 's option" where
  "fold_opt f [] s = Some s"
| "fold_opt f (x # xs) s = (case f x s of None \<Rightarrow> None | Some s' \<Rightarrow> fold_opt f xs s')"

text \<open>The recursion over the levels. The outer call has level 4 and looks at the lower half of
  the entries only.\<close>

fun free_user_page_tables :: "x86_crate \<Rightarrow> phys_bytes \<Rightarrow> nat \<Rightarrow> u64 \<Rightarrow> pmm_global \<Rightarrow> pmm_global option" where
  "free_user_page_tables cr m 0 table g = Some g"
| "free_user_page_tables cr m (Suc level) table g =
     fold_opt (\<lambda>i g.
         let e = pt_entry m table i in
         if \<not> pte_present cr e then Some g
         else if pte_huge cr e then Some g
         else let child = pte_addr cr e in
           if level = 0 then free_page cr child g
           else free_user_page_tables cr m level child g)
       [0..<if level = 3 then 256 else 512] g"

definition free_process_address_space :: "x86_crate \<Rightarrow> phys_bytes \<Rightarrow> u64 \<Rightarrow> pmm_global \<Rightarrow> pmm_global option" where
  "free_process_address_space cr m pml4 g =
     (if pml4 = 0 then Some g
      else case free_user_page_tables cr m 4 pml4 g of None \<Rightarrow> None | Some g' \<Rightarrow> free_page cr pml4 g')"

section \<open>Laws of the walk\<close>

lemma unat_align_down: "unat (w AND NOT (mask k) :: 'a::len word) = unat w div 2 ^ k * 2 ^ k"
proof -
  have "unat (w AND NOT (mask k)) = push_bit k (drop_bit k (unat w))"
    by (rule bit_eqI) (auto simp: bit_simps dest: bit_imp_le_length)
  then show ?thesis by (simp add: push_bit_eq_mult drop_bit_eq_div)
qed

lemma align_masks: "(0xFFF :: u64) = mask 12" "(2 ^ 21 - 1 :: u64) = mask 21" "(2 ^ 30 - 1 :: u64) = mask 30"
  by (simp_all add: mask_eq_exp_minus_1)

lemma unat_index: "unat (drop_bit k a AND 0x1FF :: u64) = unat a div 2 ^ k mod 512"
proof -
  have "(0x1FF :: u64) = mask 9" by (simp add: mask_eq_exp_minus_1)
  then have "unat (drop_bit k a AND 0x1FF :: u64) = take_bit 9 (unat (drop_bit k a))"
    by (metis take_bit_eq_mask unsigned_take_bit_eq)
  moreover have "unat (drop_bit k a) = drop_bit k (unat a)"
    by (rule bit_eqI) (simp add: bit_simps)
  ultimately show ?thesis by (simp only: take_bit_eq_mod drop_bit_eq_div) simp
qed

text \<open>The step to the next large page does not wrap below kernel space.\<close>

lemma unat_next_large:
  assumes "unat a < 2 ^ 64 - 2 ^ 47" and "k \<le> 30"
  shows "unat ((a AND NOT (mask k)) + 2 ^ k :: u64) = (unat a div 2 ^ k + 1) * 2 ^ k"
proof -
  have k: "(2 :: nat) ^ k \<le> 2 ^ 30" using power_increasing [OF assms(2), of "2 :: nat"] by simp
  have "unat (of_nat (2 ^ k) :: u64) = 2 ^ k"
    unfolding unat_of_nat using k by simp
  then have u: "unat (2 ^ k :: u64) = 2 ^ k" by simp
  have "q + 2 ^ k < 2 ^ 64" if "q \<le> unat a" for q
    using assms(1) k that by simp
  then have "unat (a AND NOT (mask k)) + unat (2 ^ k :: u64) < 2 ^ 64"
    unfolding unat_align_down u by simp
  then show ?thesis
    by (simp add: unat_word_ariths unat_align_down u)
qed

lemma unat_next_page: "unat a < 2 ^ 64 - 2 ^ 47 \<Longrightarrow> unat (a + 4096 :: u64) = unat a + 4096"
  by (simp add: unat_word_ariths)

lemma div_pow_mono: "a div 2 ^ k = b div 2 ^ k \<Longrightarrow> k \<le> l \<Longrightarrow> a div 2 ^ l = b div 2 ^ (l :: nat)" for a b :: nat
  by (metis div_exp_eq le_add_diff_inverse)

lemma div_same_large:
  assumes "a \<le> b" and "b < (a div 2 ^ k + 1) * 2 ^ k"
  shows "b div 2 ^ k = a div (2 :: nat) ^ k"
proof (rule antisym)
  show "a div 2 ^ k \<le> b div 2 ^ k" by (rule div_le_mono [OF assms(1)])
  show "b div 2 ^ k \<le> a div 2 ^ k"
    using assms(2) by (simp add: div_less_iff_less_mult less_Suc_eq_le [symmetric] mult.commute)
qed

lemma less_next_multiple: "0 < d \<Longrightarrow> (x :: nat) < (x div d + 1) * d"
  using div_less_iff_less_mult [of d x "x div d + 1"] by linarith

lemma x86_lawD:
  assumes "x86_law cr"
  shows "virt_new cr a = (if canonical a then Some a else None)"
    and "p4_index cr a = unat a div 2 ^ 39 mod 512" "p3_index cr a = unat a div 2 ^ 30 mod 512"
      "p2_index cr a = unat a div 2 ^ 21 mod 512" "p1_index cr a = unat a div 2 ^ 12 mod 512"
  using assms by (simp_all add: x86_law_def unat_index del: drop_bit_numeral_bit1)

text \<open>The walk of the check denies an address exactly when a program may not use it; addresses of one page
  are alike.\<close>

lemma walk_page_user: "x86_law cr \<Longrightarrow> walk_page cr m root a b = Denied \<longleftrightarrow> \<not> user_mapped m root a"
  by (simp add: x86_law_def walk_page_def user_mapped_def page_leaf_def table_index_def next_table_def Let_def)

lemma user_mapped_page: "user_mapped m root (a AND NOT 0xFFF) = user_mapped m root a"
proof -
  have "table_index k (a AND NOT (mask 12)) = table_index k a" if "12 \<le> k" for k
  proof -
    have "drop_bit k (a AND NOT (mask 12)) = drop_bit k a"
      using that by (intro bit_word_eqI) (auto simp: bit_simps dest: bit_imp_le_length)
    then show ?thesis by (simp add: table_index_def)
  qed
  then show ?thesis by (simp add: user_mapped_def page_leaf_def align_masks(1) Let_def)
qed

lemma walk_skip:
  assumes law: "x86_law cr" and w: "walk_page cr m pml4 a a = Skip_To s" and a: "unat a < 2 ^ 64 - 2 ^ 47"
  obtains k where "k = 21 \<or> k = 30" "unat s = (unat a div 2 ^ k + 1) * 2 ^ k"
    "\<And>b. unat b div 2 ^ k = unat a div 2 ^ k \<Longrightarrow> walk_page cr m pml4 b b \<noteq> Denied"
proof -
  note idx = x86_lawD(2-5) [OF law]
  let ?p4 = "pt_entry m pml4 (p4_index cr a)"
  let ?p3 = "pt_entry m (pte_addr cr ?p4) (p3_index cr a)"
  let ?p2 = "pt_entry m (pte_addr cr ?p3) (p2_index cr a)"
  have same: "p4_index cr b = p4_index cr a" "p3_index cr b = p3_index cr a" if "unat b div 2 ^ 30 = unat a div 2 ^ 30" for b
    using that div_pow_mono [OF that, of 39] unfolding idx by simp_all
  have p4: "pte_present cr ?p4" and p3: "pte_present cr ?p3"
    using w by (auto simp: walk_page_def Let_def split: if_splits)
  show thesis
  proof (cases "pte_huge cr ?p3")
    case True
    then have "s = (a AND NOT (mask 30)) + 2 ^ 30"
      using w p4 p3 by (simp add: walk_page_def Let_def align_masks [symmetric])
    then have "unat s = (unat a div 2 ^ 30 + 1) * 2 ^ 30"
      using unat_next_large [OF a, of 30] by simp
    moreover have "walk_page cr m pml4 b b \<noteq> Denied" if "unat b div 2 ^ 30 = unat a div 2 ^ 30" for b
      using same [OF that] p4 p3 True by (simp add: walk_page_def Let_def)
    ultimately show thesis using that [of 30] by blast
  next
    case False
    then have p2: "pte_present cr ?p2" "pte_huge cr ?p2" "s = (a AND NOT (mask 21)) + 2 ^ 21"
      using w p4 p3 by (auto simp: walk_page_def Let_def align_masks [symmetric] split: if_splits)
    then have "unat s = (unat a div 2 ^ 21 + 1) * 2 ^ 21"
      using unat_next_large [OF a, of 21] by simp
    moreover have "walk_page cr m pml4 b b \<noteq> Denied" if b: "unat b div 2 ^ 21 = unat a div 2 ^ 21" for b
      using same [OF div_pow_mono [OF b]] b p4 p3 p2 False by (simp add: walk_page_def Let_def idx)
    ultimately show thesis using that [of 21] by blast
  qed
qed

text \<open>The next address of the loop is larger, and skips only pages that are not denied.\<close>

definition next_addr :: "walk \<Rightarrow> u64 \<Rightarrow> u64" where
  "next_addr w a = (case w of Skip_To s \<Rightarrow> s | _ \<Rightarrow> a + 4096)"

lemma next_addr_props:
  assumes law: "x86_law cr" and a: "unat a < 2 ^ 64 - 2 ^ 47" "4096 dvd unat a"
    and w: "walk_page cr m pml4 a a = w" "w \<noteq> Denied"
  shows "unat a < unat (next_addr w a)" "4096 dvd unat (next_addr w a)"
    "\<And>b. unat a \<le> unat b \<Longrightarrow> unat b < unat (next_addr w a) \<Longrightarrow> 4096 dvd unat b \<Longrightarrow> walk_page cr m pml4 b b \<noteq> Denied"
    "unat a < 2 ^ 47 \<Longrightarrow> unat (next_addr w a) \<le> 2 ^ 47"
proof -
  have up: "(x div 2 ^ k + 1) * 2 ^ k \<le> 2 ^ 47" if "x < 2 ^ 47" "k \<le> 47" for x k :: nat
  proof -
    have "(2 :: nat) ^ 47 = 2 ^ (47 - k) * 2 ^ k" using that(2) by (simp flip: power_add)
    then have "x div 2 ^ k < 2 ^ (47 - k)" using that(1) by (simp only: div_less_iff_less_mult zero_less_power zero_less_numeral)
    then have "(x div 2 ^ k + 1) * 2 ^ k \<le> 2 ^ (47 - k) * 2 ^ k" by (intro mult_right_mono) simp_all
    then show ?thesis using \<open>2 ^ 47 = 2 ^ (47 - k) * 2 ^ k\<close> by simp
  qed
  have "unat a < unat (next_addr w a) \<and> 4096 dvd unat (next_addr w a) \<and>
    (\<forall>b. unat a \<le> unat b \<longrightarrow> unat b < unat (next_addr w a) \<longrightarrow> 4096 dvd unat b \<longrightarrow> walk_page cr m pml4 b b \<noteq> Denied) \<and>
    (unat a < 2 ^ 47 \<longrightarrow> unat (next_addr w a) \<le> 2 ^ 47)"
  proof (cases w)
    case Page_Ok
    have "b = a" if "unat a \<le> unat b" "unat b < unat a + 4096" "4096 dvd unat b" for b
    proof -
      have "4096 dvd unat b - unat a" using that(1,3) a(2) by (simp add: dvd_diff_nat)
      with that(1,2) have "unat b - unat a = 0" by (auto dest: dvd_imp_le)
      with that(1) show ?thesis by (simp add: word_unat_eq_iff)
    qed
    moreover have "unat a + 4096 \<le> 2 ^ 47" if "unat a < 2 ^ 47"
      using up [OF that, of 12] a(2) by simp
    ultimately show ?thesis using Page_Ok a w by (auto simp: next_addr_def unat_next_page)
  next
    case (Skip_To s)
    then have sk: "walk_page cr m pml4 a a = Skip_To s" using w(1) by simp
    obtain k where k: "k = 21 \<or> k = 30" "unat s = (unat a div 2 ^ k + 1) * 2 ^ k"
        "\<And>b. unat b div 2 ^ k = unat a div 2 ^ k \<Longrightarrow> walk_page cr m pml4 b b \<noteq> Denied"
      by (rule walk_skip [OF law sk a(1)]) blast
    have "unat a < (unat a div 2 ^ k + 1) * 2 ^ k"
      by (rule less_next_multiple) simp
    moreover have "(4096 :: nat) dvd 2 ^ k" using k(1) by auto
    then have "4096 dvd unat s" unfolding k(2) by simp
    moreover have "unat s \<le> 2 ^ 47" if "unat a < 2 ^ 47"
      unfolding k(2) using k(1) by (intro up [OF that]) auto
    moreover have "walk_page cr m pml4 b b \<noteq> Denied" if "unat a \<le> unat b" "unat b < unat s" for b
      by (rule k(3), rule div_same_large) (use that k(2) in simp_all)
    ultimately show ?thesis
      using Skip_To k(2) by (simp add: next_addr_def)
  qed (use w in simp)
  then show "unat a < unat (next_addr w a)" "4096 dvd unat (next_addr w a)"
    "\<And>b. unat a \<le> unat b \<Longrightarrow> unat b < unat (next_addr w a) \<Longrightarrow> 4096 dvd unat b \<Longrightarrow> walk_page cr m pml4 b b \<noteq> Denied"
    "unat a < 2 ^ 47 \<Longrightarrow> unat (next_addr w a) \<le> 2 ^ 47"
    by blast+
qed

lemma validate_loop_step:
  assumes "x86_law cr"
  shows "validate_loop cr m pml4 end_page a =
    (if \<not> a \<le> end_page then Some (Some True)
     else if \<not> canonical a then Some None
     else if walk_page cr m pml4 a a = Denied then Some (Some False)
     else validate_loop cr m pml4 end_page (next_addr (walk_page cr m pml4 a a) a))"
  by (subst validate_loop.simps)
    (simp add: x86_lawD(1) [OF assms] next_addr_def split: walk.split)

lemma validate_loop_ok:
  assumes law: "x86_law cr" and e: "unat end_page < 2 ^ 64 - 2 ^ 47" and a: "4096 dvd unat a"
  shows "\<exists>r. validate_loop cr m pml4 end_page a = Some r \<and>
    (r = Some True \<longrightarrow> (\<forall>b. unat a \<le> unat b \<longrightarrow> unat b \<le> unat end_page \<longrightarrow> 4096 dvd unat b \<longrightarrow>
       walk_page cr m pml4 b b \<noteq> Denied)) \<and>
    (r = Some True \<longrightarrow> unat a < 2 ^ 47 \<longrightarrow> unat end_page < 2 ^ 47)"
  using a
proof (induction "unat end_page + 1 - unat a" arbitrary: a rule: less_induct)
  case less
  note step = validate_loop_step [OF law, of m pml4 end_page a]
  let ?w = "walk_page cr m pml4 a a"
  show ?case
  proof (cases "a \<le> end_page \<and> canonical a \<and> ?w \<noteq> Denied")
    case False
    then show ?thesis
      by (subst step) (auto simp: word_le_nat_alt canonical_def word_less_nat_alt)
  next
    case True
    then have le: "unat a \<le> unat end_page" and a: "unat a < 2 ^ 64 - 2 ^ 47"
      using e by (simp_all add: word_le_nat_alt)
    note n = next_addr_props [OF law a less.prems refl, of m pml4]
    let ?n = "next_addr ?w a"
    have dec: "unat end_page + 1 - unat ?n < unat end_page + 1 - unat a"
      using n(1) True le by linarith
    have "\<exists>r. validate_loop cr m pml4 end_page ?n = Some r \<and>
      (r = Some True \<longrightarrow> (\<forall>b. unat ?n \<le> unat b \<longrightarrow> unat b \<le> unat end_page \<longrightarrow> 4096 dvd unat b \<longrightarrow>
         walk_page cr m pml4 b b \<noteq> Denied)) \<and>
      (r = Some True \<longrightarrow> unat ?n < 2 ^ 47 \<longrightarrow> unat end_page < 2 ^ 47)"
      using less.hyps [OF dec n(2)] True by blast
    then obtain r where r: "validate_loop cr m pml4 end_page ?n = Some r"
        "\<And>b. r = Some True \<Longrightarrow> unat ?n \<le> unat b \<Longrightarrow> unat b \<le> unat end_page \<Longrightarrow> 4096 dvd unat b \<Longrightarrow>
           walk_page cr m pml4 b b \<noteq> Denied"
        "r = Some True \<Longrightarrow> unat ?n < 2 ^ 47 \<Longrightarrow> unat end_page < 2 ^ 47"
      by blast
    have "unat end_page < 2 ^ 47" if "r = Some True" "unat a < 2 ^ 47"
    proof (cases "unat ?n < 2 ^ 47")
      case False
      then have eq: "unat ?n = 2 ^ 47" using n(4) True that(2) by simp
      then have "\<not> canonical ?n" by (simp add: canonical_def word_le_nat_alt word_less_nat_alt)
      then have "\<not> ?n \<le> end_page"
        using r(1) that(1) validate_loop_step [OF law, of m pml4 end_page ?n] by (auto split: if_splits)
      with eq show ?thesis by (simp add: word_le_nat_alt)
    qed (use r(3) that in blast)
    moreover have "walk_page cr m pml4 b b \<noteq> Denied"
      if "r = Some True" "unat a \<le> unat b" "unat b \<le> unat end_page" "4096 dvd unat b" for b
      using r(2) [OF that(1) _ that(3,4)] n(3) [OF _ that(2) _ that(4)] True by fastforce
    moreover have "validate_loop cr m pml4 end_page a = Some r"
      using True r(1) by (subst step) simp
    ultimately show ?thesis by blast
  qed
qed

text \<open>Below the canonical hole the loop does not panic, and it accepts when no page is denied.\<close>

lemma validate_loop_accepts:
  assumes law: "x86_law cr" and e: "unat end_page < 2 ^ 47" and a: "4096 dvd unat a"
  shows "validate_loop cr m pml4 end_page a \<noteq> Some None" (is ?P)
    and "(\<And>b. unat a \<le> unat b \<Longrightarrow> unat b \<le> unat end_page \<Longrightarrow> 4096 dvd unat b \<Longrightarrow> walk_page cr m pml4 b b \<noteq> Denied) \<Longrightarrow>
      validate_loop cr m pml4 end_page a = Some (Some True)"
proof -
  have "?P \<and> ((\<forall>b. unat a \<le> unat b \<longrightarrow> unat b \<le> unat end_page \<longrightarrow> 4096 dvd unat b \<longrightarrow> walk_page cr m pml4 b b \<noteq> Denied) \<longrightarrow>
      validate_loop cr m pml4 end_page a = Some (Some True))"
    using a
  proof (induction "unat end_page + 1 - unat a" arbitrary: a rule: less_induct)
    case less
    note step = validate_loop_step [OF law, of m pml4 end_page a]
    let ?w = "walk_page cr m pml4 a a"
    let ?n = "next_addr ?w a"
    have c: "canonical a" if "a \<le> end_page"
      using that e by (simp add: canonical_def word_le_nat_alt word_less_nat_alt)
    show ?case
    proof (cases "a \<le> end_page \<and> ?w \<noteq> Denied")
      case False
      then show ?thesis using c less.prems by (subst (1 2) step) (auto simp: word_le_nat_alt)
    next
      case True
      then have le: "unat a \<le> unat end_page" and a: "unat a < 2 ^ 64 - 2 ^ 47"
        using e by (simp_all add: word_le_nat_alt)
      note n = next_addr_props [OF law a less.prems refl, of m pml4]
      have s: "validate_loop cr m pml4 end_page a = validate_loop cr m pml4 end_page ?n"
        using True c by (subst step) simp
      have "unat end_page + 1 - unat ?n < unat end_page + 1 - unat a" using n(1) True le by linarith
      from less.hyps [OF this n(2)] n(1) True show ?thesis unfolding s by force
    qed
  qed
  then show ?P and "(\<And>b. unat a \<le> unat b \<Longrightarrow> unat b \<le> unat end_page \<Longrightarrow> 4096 dvd unat b \<Longrightarrow> walk_page cr m pml4 b b \<noteq> Denied) \<Longrightarrow>
      validate_loop cr m pml4 end_page a = Some (Some True)" by blast+
qed

text \<open>A crate that behaves as documented.\<close>

definition documented_crate :: x86_crate where
  "documented_crate = \<lparr> pte_present = (\<lambda>e. bit e 0), pte_user = (\<lambda>e. bit e 2), pte_huge = (\<lambda>e. bit e 7),
     pte_addr = (\<lambda>e. e AND 0x000FFFFFFFFFF000), virt_new = (\<lambda>a. if canonical a then Some a else None),
     p4_index = (\<lambda>a. unat (drop_bit 39 a AND 0x1FF)), p3_index = (\<lambda>a. unat (drop_bit 30 a AND 0x1FF)),
     p2_index = (\<lambda>a. unat (drop_bit 21 a AND 0x1FF)), p1_index = (\<lambda>a. unat (drop_bit 12 a AND 0x1FF)),
     phys_new = (\<lambda>a. if a < 2 ^ 52 then Some a else None) \<rparr>"

lemma documented_crate_law: "x86_law documented_crate"
  by (simp add: x86_law_def documented_crate_def phys_addr_law_def)

end
