(* ===== verification/Elf.thy ===== *)
theory Elf
  imports Rust_Std
begin

text \<open>
  The ELF loader front end: \<open>kernel/src/elf/mod.rs\<close>. The packed headers are decoded
  from their bytes. A read of a program header that leaves the buffer is undefined
  behaviour of the source, and slicing past the end is a panic: both are results of the
  model, so that the theorems can say when they occur. \<open>elf_identified\<close> is a specification: the
  bytes that identify an executable for this processor.
\<close>

section \<open>Headers\<close>

definition ELF_MAGIC :: bytes where "ELF_MAGIC = [0x7F, 0x45, 0x4C, 0x46]"
definition ELFCLASS64 :: u8 where "ELFCLASS64 = 2"
definition ELFDATA2LSB :: u8 where "ELFDATA2LSB = 1"
definition ET_EXEC :: u16 where "ET_EXEC = 2"
definition EM_X86_64 :: u16 where "EM_X86_64 = 0x3E"
definition PT_LOAD :: u32 where "PT_LOAD = 1"

lemmas elf_consts = ELF_MAGIC_def ELFCLASS64_def ELFDATA2LSB_def ET_EXEC_def EM_X86_64_def PT_LOAD_def

record Elf64Header =
  e_ident :: bytes
  e_type :: u16
  e_machine :: u16
  e_version :: u32
  e_entry :: u64
  e_phoff :: u64
  e_shoff :: u64
  e_flags :: u32
  e_ehsize :: u16
  e_phentsize :: u16
  e_phnum :: u16
  e_shentsize :: u16
  e_shnum :: u16
  e_shstrndx :: u16

definition ehdr_decode :: "bytes \<Rightarrow> Elf64Header" where
  "ehdr_decode b = \<lparr> e_ident = take 16 b, e_type = le16_at b 16, e_machine = le16_at b 18,
     e_version = le32_at b 20, e_entry = le64_at b 24, e_phoff = le64_at b 32, e_shoff = le64_at b 40,
     e_flags = le32_at b 48, e_ehsize = le16_at b 52, e_phentsize = le16_at b 54, e_phnum = le16_at b 56,
     e_shentsize = le16_at b 58, e_shnum = le16_at b 60, e_shstrndx = le16_at b 62 \<rparr>"

definition ehdr_parse :: "bytes \<Rightarrow> Elf64Header option" where
  "ehdr_parse data =
     (if length data < 64 then None
      else if take 4 data \<noteq> ELF_MAGIC then None
      else if data ! 4 \<noteq> ELFCLASS64 \<or> data ! 5 \<noteq> ELFDATA2LSB then None
      else let header = ehdr_decode data in
        if e_type header \<noteq> ET_EXEC \<or> e_machine header \<noteq> EM_X86_64 then None else Some header)"

record Elf64ProgramHeader =
  p_type :: u32
  p_flags :: u32
  p_offset :: u64
  p_vaddr :: u64
  p_paddr :: u64
  p_filesz :: u64
  p_memsz :: u64
  p_align :: u64

definition phdr_decode :: "bytes \<Rightarrow> Elf64ProgramHeader" where
  "phdr_decode b = \<lparr> p_type = le32_at b 0, p_flags = le32_at b 4, p_offset = le64_at b 8,
     p_vaddr = le64_at b 16, p_paddr = le64_at b 24, p_filesz = le64_at b 32, p_memsz = le64_at b 40,
     p_align = le64_at b 48 \<rparr>"

definition is_loadable :: "Elf64ProgramHeader \<Rightarrow> bool" where
  "is_loadable ph \<longleftrightarrow> p_type ph = PT_LOAD"

definition is_executable :: "Elf64ProgramHeader \<Rightarrow> bool" where
  "is_executable ph \<longleftrightarrow> p_flags ph AND 1 \<noteq> 0"

definition is_writable :: "Elf64ProgramHeader \<Rightarrow> bool" where
  "is_writable ph \<longleftrightarrow> p_flags ph AND 2 \<noteq> 0"

section \<open>Parsing\<close>

record ElfSegment =
  seg_vaddr :: u64
  seg_memsz :: u64
  seg_filesz :: u64
  seg_data_offset :: u64
  seg_writable :: bool
  seg_executable :: bool

record ElfLoadInfo =
  elf_entry_point :: u64
  segments :: "ElfSegment list"
  segment_count :: nat

definition empty_segment :: ElfSegment where
  "empty_segment = \<lparr> seg_vaddr = 0, seg_memsz = 0, seg_filesz = 0, seg_data_offset = 0,
     seg_writable = False, seg_executable = False \<rparr>"

datatype elf_fail = Elf_Err string | Elf_Panic | Elf_Overread

definition segment_of :: "Elf64ProgramHeader \<Rightarrow> ElfSegment" where
  "segment_of ph = \<lparr> seg_vaddr = p_vaddr ph, seg_memsz = p_memsz ph, seg_filesz = p_filesz ph,
     seg_data_offset = p_offset ph, seg_writable = is_writable ph, seg_executable = is_executable ph \<rparr>"

text \<open>One iteration of the loop over the program headers. The additions wrap.\<close>

definition parse_phdr :: "bytes \<Rightarrow> nat \<Rightarrow> nat \<Rightarrow> nat \<Rightarrow> ElfLoadInfo \<Rightarrow> elf_fail + ElfLoadInfo" where
  "parse_phdr data phoff phentsize i info =
     (let offset = usize_add phoff (i * phentsize) in
      if usize_add offset phentsize > length data then Inl (Elf_Err ''Program header out of bounds'')
      else if offset > length data then Inl Elf_Panic
      else if length data - offset < 56 then Inl Elf_Overread
      else let ph = phdr_decode (drop offset data) in
        if is_loadable ph then
          (if segment_count info \<ge> 4 then Inl (Elf_Err ''Too many loadable segments'')
           else Inr (info \<lparr> segments := (segments info)[segment_count info := segment_of ph],
                            segment_count := segment_count info + 1 \<rparr>))
        else Inr info)"

primrec parse_phdrs :: "bytes \<Rightarrow> nat \<Rightarrow> nat \<Rightarrow> nat list \<Rightarrow> ElfLoadInfo \<Rightarrow> elf_fail + ElfLoadInfo" where
  "parse_phdrs data phoff phentsize [] info = Inr info"
| "parse_phdrs data phoff phentsize (i # is) info =
     (case parse_phdr data phoff phentsize i info of
        Inl e \<Rightarrow> Inl e
      | Inr info' \<Rightarrow> parse_phdrs data phoff phentsize is info')"

definition parse_elf :: "bytes \<Rightarrow> elf_fail + ElfLoadInfo" where
  "parse_elf data =
     (case ehdr_parse data of
        None \<Rightarrow> Inl (Elf_Err ''Invalid ELF header'')
      | Some header \<Rightarrow>
          let phoff = unat (e_phoff header); phentsize = unat (e_phentsize header); phnum = unat (e_phnum header) in
          if phnum > 4 then Inl (Elf_Err ''Too many program headers'')
          else
            (case parse_phdrs data phoff phentsize [0..<phnum]
                    \<lparr> elf_entry_point = e_entry header, segments = replicate 4 empty_segment, segment_count = 0 \<rparr> of
               Inl e \<Rightarrow> Inl e
             | Inr info \<Rightarrow>
                 if segment_count info = 0 then Inl (Elf_Err ''No loadable segments'') else Inr info))"

section \<open>The loadable headers\<close>

text \<open>Specification: the program headers of a file, and the segments of the loadable ones.\<close>

definition phdr_at :: "bytes \<Rightarrow> nat \<Rightarrow> nat \<Rightarrow> nat \<Rightarrow> Elf64ProgramHeader" where
  "phdr_at data phoff phentsize i = phdr_decode (drop (phoff + i * phentsize) data)"

definition load_segments :: "bytes \<Rightarrow> nat \<Rightarrow> nat \<Rightarrow> nat list \<Rightarrow> ElfSegment list" where
  "load_segments data phoff phentsize is =
     map segment_of (filter is_loadable (map (phdr_at data phoff phentsize) is))"

text \<open>A table of program headers that lies in the file, with entries of at least the size of a
  header.\<close>

definition table_fits :: "bytes \<Rightarrow> nat \<Rightarrow> nat \<Rightarrow> nat \<Rightarrow> bool" where
  "table_fits data phoff phentsize phnum \<longleftrightarrow>
     56 \<le> phentsize \<and> phoff + phnum * phentsize \<le> length data \<and> length data < 2 ^ 63"

lemma parse_phdr_fits:
  assumes "table_fits data phoff phentsize n" and "i < n" and "segment_count info < 4"
  shows "parse_phdr data phoff phentsize i info =
    (let ph = phdr_at data phoff phentsize i in
     if is_loadable ph
     then Inr (info \<lparr> segments := (segments info)[segment_count info := segment_of ph],
                      segment_count := segment_count info + 1 \<rparr>)
     else Inr info)"
proof -
  have "Suc i * phentsize \<le> n * phentsize" using assms(2) by (intro mult_right_mono) simp_all
  then have b: "phoff + i * phentsize + phentsize \<le> length data" "length data < 2 ^ 63" "56 \<le> phentsize"
    using assms(1) by (simp_all add: table_fits_def)
  then have "usize_add phoff (i * phentsize) = phoff + i * phentsize"
    "usize_add (phoff + i * phentsize) phentsize = phoff + i * phentsize + phentsize"
    by (simp_all add: usize_add_def)
  with b assms(3) show ?thesis
    by (simp add: parse_phdr_def phdr_at_def Let_def)
qed

lemma parse_phdrs_fits:
  assumes "table_fits data phoff phentsize n" and "\<And>i. i \<in> set is \<Longrightarrow> i < n"
    and "segment_count info + length is \<le> 4" and "length (segments info) = 4"
    and "take (segment_count info) (segments info) = pre"
  shows "\<exists>info'. parse_phdrs data phoff phentsize is info = Inr info' \<and>
    elf_entry_point info' = elf_entry_point info \<and> length (segments info') = 4 \<and>
    segment_count info' = segment_count info + length (load_segments data phoff phentsize is) \<and>
    take (segment_count info') (segments info') = pre @ load_segments data phoff phentsize is"
  using assms(2-5)
proof (induction "is" arbitrary: info pre)
  case Nil
  then show ?case by (simp add: load_segments_def)
next
  case (Cons i "is")
  let ?ph = "phdr_at data phoff phentsize i"
  have p: "parse_phdr data phoff phentsize i info =
      (if is_loadable ?ph
       then Inr (info \<lparr> segments := (segments info)[segment_count info := segment_of ?ph],
                        segment_count := segment_count info + 1 \<rparr>)
       else Inr info)"
    using parse_phdr_fits [OF assms(1), of i info] Cons.prems by (simp add: Let_def)
  show ?case
  proof (cases "is_loadable ?ph")
    case True
    let ?info = "info \<lparr> segments := (segments info)[segment_count info := segment_of ?ph], segment_count := segment_count info + 1 \<rparr>"
    have "take (segment_count ?info) (segments ?info) = pre @ [segment_of ?ph]"
      using Cons.prems(2-4) by (simp add: take_Suc_conv_app_nth)
    from Cons.IH [OF _ _ _ this] Cons.prems True p show ?thesis
      by (auto simp: load_segments_def)
  next
    case False
    from Cons.IH [OF _ _ _ Cons.prems(4)] Cons.prems False p show ?thesis
      by (auto simp: load_segments_def)
  qed
qed

text \<open>A table that leaves the file: the loop ends at the first header that does.\<close>

lemma parse_phdrs_leaves:
  assumes "56 \<le> phentsize" "phentsize < 2 ^ 16" "phoff < 2 ^ 62" "length data < 2 ^ 63" and n: "n \<le> 4" "length data < phoff + n * phentsize"
  shows "i < n \<Longrightarrow> segment_count info \<le> i \<Longrightarrow>
    parse_phdrs data phoff phentsize [i..<n] info = Inl (Elf_Err ''Program header out of bounds'')"
proof (induction "n - i" arbitrary: i info)
  case (Suc k)
  have up: "[i..<n] = i # [Suc i..<n]" using Suc.prems(1) by (rule upt_conv_Cons)
  have "i * phentsize \<le> 4 * 2 ^ 16" using Suc.prems(1) n(1) assms(2) by (intro mult_le_mono) simp_all
  then have a: "usize_add phoff (i * phentsize) = phoff + i * phentsize"
      "usize_add (phoff + i * phentsize) phentsize = phoff + i * phentsize + phentsize"
    using assms(2,3) by (simp_all add: usize_add_def)
  show ?case
  proof (cases "phoff + Suc i * phentsize \<le> length data")
    case False
    then have "parse_phdr data phoff phentsize i info = Inl (Elf_Err ''Program header out of bounds'')"
      by (simp add: parse_phdr_def Let_def a)
    then show ?thesis by (simp add: up)
  next
    case True
    then have t: "table_fits data phoff phentsize (Suc i)" using assms(1,4) by (simp add: table_fits_def)
    have "i < 4" using Suc.prems(1) n(1) by simp
    then obtain info' where p: "parse_phdr data phoff phentsize i info = Inr info'" "segment_count info' \<le> Suc i"
      using parse_phdr_fits [OF t, of i info] Suc.prems(2)
      by (cases "is_loadable (phdr_at data phoff phentsize i)") (simp_all add: Let_def)
    have "Suc i < n" using True n(2) Suc.prems(1) by (cases "Suc i = n") auto
    with Suc.hyps(1) [of "Suc i" info'] Suc.hyps(2) p show ?thesis by (simp add: up)
  qed
qed simp

text \<open>Specification: the header of a 64-bit little-endian executable for x86-64, by its bytes.\<close>

definition elf_identified :: "bytes \<Rightarrow> bool" where
  "elf_identified data \<longleftrightarrow> 64 \<le> length data \<and> data ! 0 = 0x7F \<and> data ! 1 = 0x45 \<and> data ! 2 = 0x4C \<and> data ! 3 = 0x46 \<and>
     data ! 4 = 2 \<and> data ! 5 = 1 \<and> data ! 16 = 2 \<and> data ! 17 = 0 \<and> data ! 18 = 0x3E \<and> data ! 19 = 0"

lemma u16_from_le_iff: "u16_from_le a b = w \<longleftrightarrow> a = ucast w \<and> b = ucast (drop_bit 8 w)"
proof
  assume "a = ucast w \<and> b = ucast (drop_bit 8 w)"
  then show "u16_from_le a b = w"
    by (auto simp: u16_from_le_def bit_simps intro!: bit_word_eqI)
qed (use u16_from_le_inverse in auto)

lemma ehdr_parse_iff: "ehdr_parse data = (if elf_identified data then Some (ehdr_decode data) else None)"
proof (cases "64 \<le> length data")
  case True
  have "take 4 data = [data ! 0, data ! 1, data ! 2, data ! 3]"
  proof (rule nth_equalityI)
    fix i assume "i < length (take 4 data)"
    then have "i = 0 \<or> i = 1 \<or> i = 2 \<or> i = 3" by auto
    then show "take 4 data ! i = [data ! 0, data ! 1, data ! 2, data ! 3] ! i" by auto
  qed (use True in simp)
  then show ?thesis
    using True by (auto simp: ehdr_parse_def elf_identified_def elf_consts Let_def ehdr_decode_def le16_at_def u16_from_le_iff)
qed (simp add: ehdr_parse_def elf_identified_def)

end
