(* ===== verification/Process.thy ===== *)
theory Process
  imports Process_Context Page_Tables Elf
begin

text \<open>
  Processes and system calls: \<open>kernel/src/process/mod.rs\<close> and the dispatcher of
  \<open>kernel/src/process/syscall.rs\<close>. The state holds physical memory, the frame allocator,
  the process table and the global variables of the module, the page table register, the
  kernel stack of the task state segment and the bytes sent to the serial port.
  \<open>map_to\<close>, the mapper of the \<open>x86_64\<close> crate, is a parameter: given the root table, a page,
  a frame and flags it returns whether it succeeded, and the memory and the allocator it
  leaves behind. Entering a process depends on two things that are not in the source: the addresses of the
  instructions behind the switch of the tables, and whether \<open>iretq\<close> takes the selectors; they are
  a parameter (\<open>user_switch\<close>).
\<close>

section \<open>State\<close>

record proc_world =
  w_mem :: phys_bytes
  w_pmm :: pmm_global
  w_procs :: "ProcessControlBlock list"
  CURRENT_PID :: u32
  KERNEL_PML4_PHYS :: u64
  SHELL_RSP :: u64
  EXIT_REQUESTED :: bool
  EXIT_CODE :: u32
  w_cr3 :: u64
  w_rsp0 :: u64
  w_serial :: bytes

datatype proc_fail = Proc_Err string | Proc_Panic

type_synonym 'a proc_io = "(proc_world, proc_fail, 'a) io"

type_synonym map_to = "phys_bytes \<Rightarrow> pmm_global \<Rightarrow> u64 \<Rightarrow> u64 \<Rightarrow> u64 \<Rightarrow> u64 \<Rightarrow> bool \<times> phys_bytes \<times> pmm_global"

definition PTE_PRESENT :: u64 where "PTE_PRESENT = 1"
definition PTE_WRITABLE :: u64 where "PTE_WRITABLE = 2"
definition PTE_USER :: u64 where "PTE_USER = 4"

definition empty_pcb :: ProcessControlBlock where
  "empty_pcb = \<lparr> pcb_pid = 0, pcb_state = Unused, kernel_rsp = 0, user_rsp = 0, pml4_phys = 0, elf_entry = 0,
     exit_code = 0, kernel_stack_phys = 0, user_stack_phys = 0, sleep_until = 0 \<rparr>"

definition initial_table :: "ProcessControlBlock list" where
  "initial_table = replicate MAX_PROCESSES empty_pcb"

definition save_kernel_state :: "u64 \<Rightarrow> proc_world \<Rightarrow> proc_world" where
  "save_kernel_state rsp w = w \<lparr> SHELL_RSP := rsp, KERNEL_PML4_PHYS := w_cr3 w \<rparr>"

section \<open>Pages\<close>

definition allocate_page :: "u64 option proc_io" where
  "allocate_page = (\<lambda>w. case physmem_allocate_frame (w_pmm w) of
     None \<Rightarrow> (Inl Proc_Panic, w)
   | Some (r, g) \<Rightarrow> (Inr r, w \<lparr> w_pmm := g \<rparr>))"

definition fill_bytes :: "u64 \<Rightarrow> bytes \<Rightarrow> phys_bytes \<Rightarrow> phys_bytes" where
  "fill_bytes a bs m = (\<lambda>x. if unat (x - a) < length bs then bs ! unat (x - a) else m x)"

definition zero_page :: "u64 \<Rightarrow> unit proc_io" where
  "zero_page phys = (\<lambda>w. (Inr (), w \<lparr> w_mem := fill_bytes phys (replicate 4096 0) (w_mem w) \<rparr>))"

definition alloc_zeroed :: "string \<Rightarrow> u64 proc_io" where
  "alloc_zeroed msg = io_bind allocate_page (\<lambda>r. case r of
     None \<Rightarrow> io_err (Proc_Err msg)
   | Some p \<Rightarrow> io_bind (zero_page p) (\<lambda>_. io_ret p))"

definition create_user_page_tables :: "u64 option proc_io" where
  "create_user_page_tables = io_bind allocate_page (\<lambda>r. case r of
     None \<Rightarrow> io_ret None
   | Some new_pml4 \<Rightarrow> io_bind (zero_page new_pml4) (\<lambda>_.
       (\<lambda>w. (Inr (Some new_pml4),
         w \<lparr> w_mem := fill_bytes (new_pml4 + 256 * 8)
           (map (\<lambda>i. w_mem w (KERNEL_PML4_PHYS w + 256 * 8 + of_nat i)) [0..<256 * 8]) (w_mem w) \<rparr>))))"

definition map_user_page :: "x86_crate \<Rightarrow> map_to \<Rightarrow> u64 \<Rightarrow> u64 \<Rightarrow> u64 \<Rightarrow> u64 \<Rightarrow> unit proc_io" where
  "map_user_page cr mt pml4 virt phys flags = (\<lambda>w.
     case (virt_new cr virt, phys_new cr phys) of
       (Some v, Some p) \<Rightarrow>
         (case mt (w_mem w) (w_pmm w) pml4 (page_of v) (page_of p) flags of
            (ok, m, g) \<Rightarrow> (if ok then Inr () else Inl (Proc_Err ''Failed to map page''), w \<lparr> w_mem := m, w_pmm := g \<rparr>))
     | _ \<Rightarrow> (Inl Proc_Panic, w))"

section \<open>Launching\<close>

text \<open>The bytes of the file copied to one page of a segment: the additions and subtractions
  wrap, and a slice outside the file panics.\<close>

definition page_copy :: "bytes \<Rightarrow> ElfSegment \<Rightarrow> nat \<Rightarrow> bytes option" where
  "page_copy elf_data seg page_idx =
     (let off = of_nat page_idx * 4096;
          data_offset = seg_data_offset seg + off in
      if data_offset < seg_data_offset seg + seg_filesz seg then
        (let copy_start = off;
             copy_end = min (copy_start + 4096) (seg_filesz seg - off) in
         if copy_start < seg_filesz seg \<and> 0 < copy_end then
           (let s = unat data_offset; e = unat (data_offset + (copy_end - copy_start)) in
            if s \<le> e \<and> e \<le> length elf_data then Some (slice elf_data s (e - s)) else None)
         else Some [])
      else Some [])"

definition load_page :: "x86_crate \<Rightarrow> map_to \<Rightarrow> bytes \<Rightarrow> u64 \<Rightarrow> ElfSegment \<Rightarrow> nat \<Rightarrow> unit proc_io" where
  "load_page cr mt elf_data pml4 seg page_idx =
     io_bind (alloc_zeroed ''Out of memory for ELF'') (\<lambda>page_phys.
     let virt = seg_vaddr seg + of_nat page_idx * 4096 in
     case page_copy elf_data seg page_idx of
       None \<Rightarrow> io_err Proc_Panic
     | Some bs \<Rightarrow>
         io_bind (\<lambda>w. (Inr (), w \<lparr> w_mem := fill_bytes page_phys bs (w_mem w) \<rparr>)) (\<lambda>_.
         map_user_page cr mt pml4 virt page_phys
           (PTE_PRESENT OR PTE_USER OR (if seg_writable seg then PTE_WRITABLE else 0))))"

definition load_segment :: "x86_crate \<Rightarrow> map_to \<Rightarrow> bytes \<Rightarrow> u64 \<Rightarrow> ElfSegment \<Rightarrow> unit proc_io" where
  "load_segment cr mt elf_data pml4 seg =
     io_for [0..<unat ((seg_memsz seg + 4095) div 4096)] (load_page cr mt elf_data pml4 seg)"

text \<open>The slot of the process is updated field by field, so that an error keeps what was
  written before it.\<close>

definition update_proc :: "nat \<Rightarrow> (ProcessControlBlock \<Rightarrow> ProcessControlBlock) \<Rightarrow> unit proc_io" where
  "update_proc i f = (\<lambda>w. (Inr (), w \<lparr> w_procs := (w_procs w)[i := f (w_procs w ! i)] \<rparr>))"

primrec find_slot :: "(ProcessControlBlock \<Rightarrow> bool) \<Rightarrow> ProcessControlBlock list \<Rightarrow> nat option" where
  "find_slot P [] = None"
| "find_slot P (p # ps) = (if P p then Some 0 else map_option Suc (find_slot P ps))"

definition build_stack_at :: "nat \<Rightarrow> unit proc_io" where
  "build_stack_at i = (\<lambda>w. case build_initial_kernel_stack (w_procs w ! i) (w_mem w) of
     (p, m) \<Rightarrow> (Inr (), w \<lparr> w_procs := (w_procs w)[i := p], w_mem := m \<rparr>))"

definition launch_stacks :: "x86_crate \<Rightarrow> map_to \<Rightarrow> ElfLoadInfo \<Rightarrow> u64 \<Rightarrow> nat \<Rightarrow> unit proc_io" where
  "launch_stacks cr mt elf_info pml4 i =
     io_bind (alloc_zeroed ''Out of memory for user stack'') (\<lambda>user_stack.
     io_bind (map_user_page cr mt pml4 (USER_STACK_TOP - USER_STACK_SIZE) user_stack
                (PTE_PRESENT OR PTE_WRITABLE OR PTE_USER)) (\<lambda>_.
     io_bind (update_proc i (\<lambda>p. p \<lparr> user_stack_phys := user_stack, user_rsp := USER_STACK_TOP \<rparr>)) (\<lambda>_.
     io_bind (alloc_zeroed ''Out of memory for kernel stack'') (\<lambda>kernel_stack.
     io_bind (update_proc i (\<lambda>p. p \<lparr> kernel_stack_phys := kernel_stack,
                kernel_rsp := kernel_stack + KERNEL_STACK_SIZE \<rparr>)) (\<lambda>_.
     io_bind (map_user_page cr mt pml4 kernel_stack kernel_stack (PTE_PRESENT OR PTE_WRITABLE)) (\<lambda>_.
     io_bind (update_proc i (\<lambda>p. p \<lparr> elf_entry := elf_entry_point elf_info \<rparr>)) (\<lambda>_.
     io_bind (build_stack_at i) (\<lambda>_.
     io_bind (update_proc i (\<lambda>p. p \<lparr> pcb_state := Running \<rparr>)) (\<lambda>_.
     (\<lambda>w. (Inr (), w \<lparr> CURRENT_PID := pcb_pid (w_procs w ! i) \<rparr>)))))))))))"

definition launch_in_slot :: "x86_crate \<Rightarrow> map_to \<Rightarrow> bytes \<Rightarrow> ElfLoadInfo \<Rightarrow> nat \<Rightarrow> unit proc_io" where
  "launch_in_slot cr mt elf_data elf_info i =
     io_bind create_user_page_tables (\<lambda>r. case r of
       None \<Rightarrow> io_err (Proc_Err ''Failed to create page tables'')
     | Some pml4 \<Rightarrow>
         io_bind (update_proc i (\<lambda>p. p \<lparr> pml4_phys := pml4 \<rparr>)) (\<lambda>_.
         io_bind (io_for (take (segment_count elf_info) (segments elf_info)) (load_segment cr mt elf_data pml4)) (\<lambda>_.
         launch_stacks cr mt elf_info pml4 i)))"

definition launch_init_process :: "x86_crate \<Rightarrow> map_to \<Rightarrow> bytes \<Rightarrow> unit proc_io" where
  "launch_init_process cr mt elf_data = (\<lambda>w.
     case parse_elf elf_data of
       Inl (Elf_Err e) \<Rightarrow> (Inl (Proc_Err e), w)
     | Inl _ \<Rightarrow> (Inl Proc_Panic, w)
     | Inr elf_info \<Rightarrow>
         (case find_slot (\<lambda>p. pcb_state p = Unused) (w_procs w) of
            None \<Rightarrow> (Inl (Proc_Err ''No free process slot''), w)
          | Some i \<Rightarrow> launch_in_slot cr mt elf_data elf_info i w))"

text \<open>Entering user mode. The switch of the page tables comes before the frame is popped, so that from there
  on the instructions and the frame are reached through the tables of the process. What the processor
  adds is a parameter: the addresses of the instructions behind the switch, which the linker chose, and
  whether the descriptor table in use lets \<open>iretq\<close> load a pair of selectors. Without a running process,
  or with an address the crate refuses, the source panics; an instruction or a byte of the frame that is
  not mapped faults, and so do selectors that are not allowed; and at an address of the kernel that the
  tables of the process map elsewhere, whatever is there is executed.\<close>

record user_switch =
  sw_code :: "u64 list"
  sw_selectors :: "u64 \<Rightarrow> u64 \<Rightarrow> bool"

datatype user_entry =
  Entry_Panic | Page_Fault u64 proc_world | Foreign_Code u64 proc_world | Protection_Fault proc_world
  | Entered Context proc_world

definition frame_bytes :: "u64 \<Rightarrow> u64 list" where
  "frame_bytes rsp = map (\<lambda>i. rsp + of_nat i) [0..<160]"

definition virtual_bytes :: "phys_bytes \<Rightarrow> u64 \<Rightarrow> phys_bytes" where
  "virtual_bytes m root a = (case translate m root a of None \<Rightarrow> 0 | Some p \<Rightarrow> m p)"

definition after_switch :: "user_switch \<Rightarrow> u64 \<Rightarrow> proc_world \<Rightarrow> user_entry" where
  "after_switch sw rsp w =
     (let va = translate (w_mem w) (w_cr3 w) in
      case List.find (\<lambda>a. va a \<noteq> Some a) (sw_code sw) of
        Some a \<Rightarrow> if va a = None then Page_Fault a w else Foreign_Code a w
      | None \<Rightarrow>
          (case List.find (\<lambda>a. va a = None) (frame_bytes rsp) of
             Some a \<Rightarrow> Page_Fault a w
           | None \<Rightarrow>
               let c = pop_and_iretq (virtual_bytes (w_mem w) (w_cr3 w)) rsp in
               if sw_selectors sw (cx_cs c) (cx_ss c) then Entered c w else Protection_Fault w))"

definition enter_user_mode :: "x86_crate \<Rightarrow> user_switch \<Rightarrow> proc_world \<Rightarrow> user_entry" where
  "enter_user_mode cr sw w =
     (case find_slot (\<lambda>p. pcb_state p = Running) (w_procs w) of
        None \<Rightarrow> Entry_Panic
      | Some i \<Rightarrow>
          let p = w_procs w ! i in
          (case (virt_new cr (kernel_rsp p), phys_new cr (pml4_phys p)) of
             (Some rsp0, Some root) \<Rightarrow> after_switch sw (kernel_rsp p) (w \<lparr> w_rsp0 := rsp0, w_cr3 := page_of root \<rparr>)
           | _ \<Rightarrow> Entry_Panic))"

text \<open>The state an attempt leaves, unless it panics.\<close>

definition entry_world :: "user_entry \<Rightarrow> proc_world option" where
  "entry_world e = (case e of Entry_Panic \<Rightarrow> None | Page_Fault a w \<Rightarrow> Some w | Foreign_Code a w \<Rightarrow> Some w
     | Protection_Fault w \<Rightarrow> Some w | Entered c w \<Rightarrow> Some w)"

lemma entry_keeps:
  "entry_world (enter_user_mode cr sw w) = Some w' \<Longrightarrow> w_procs w' = w_procs w \<and> w_mem w' = w_mem w"
  by (auto simp: enter_user_mode_def after_switch_def entry_world_def Let_def
      split: option.splits if_splits)

section \<open>Exit\<close>

definition exit_fields :: "u32 \<Rightarrow> ProcessControlBlock \<Rightarrow> ProcessControlBlock" where
  "exit_fields code p = p \<lparr> pcb_state := Exited, exit_code := code, kernel_rsp := 0, kernel_stack_phys := 0,
     user_stack_phys := 0 \<rparr>"

definition free_nonzero :: "x86_crate \<Rightarrow> u64 \<Rightarrow> pmm_global \<Rightarrow> pmm_global option" where
  "free_nonzero cr a g = (if a \<noteq> 0 then free_page cr a g else Some g)"

text \<open>The result is the state in which the kernel continues at the saved shell stack; \<open>None\<close>
  is a panic.\<close>

definition exit_process :: "x86_crate \<Rightarrow> u32 \<Rightarrow> proc_world \<Rightarrow> proc_world option" where
  "exit_process cr code w =
     (let (pml4, kstack, ustack, w1) =
        (case find_slot (\<lambda>p. pcb_state p = Running) (w_procs w) of
           Some i \<Rightarrow> (let p = w_procs w ! i in (pml4_phys p, kernel_stack_phys p, user_stack_phys p,
                       w \<lparr> w_procs := (w_procs w)[i := exit_fields code p] \<rparr>))
         | None \<Rightarrow> (0, 0, 0, w)) in
      case free_process_address_space cr (w_mem w1) pml4 (w_pmm w1) of None \<Rightarrow> None
      | Some g1 \<Rightarrow> (case free_nonzero cr ustack g1 of None \<Rightarrow> None
      | Some g2 \<Rightarrow> (case free_nonzero cr kstack g2 of None \<Rightarrow> None
      | Some g3 \<Rightarrow> (case phys_new cr (KERNEL_PML4_PHYS w1) of None \<Rightarrow> None
      | Some root \<Rightarrow>
          Some (w1 \<lparr> w_pmm := g3, w_cr3 := page_of root, w_rsp0 := 0x80000, CURRENT_PID := 0, EXIT_CODE := code,
                     EXIT_REQUESTED := True \<rparr>)))))"

section \<open>System calls\<close>

definition SYS_WRITE :: u64 where "SYS_WRITE = 1"
definition SYS_EXIT :: u64 where "SYS_EXIT = 2"
definition SYS_YIELD :: u64 where "SYS_YIELD = 3"

text \<open>A dispatched call returns a value, or ends the process, or panics, or does not return. A
  byte is printed as the character with that code, in UTF-8.\<close>

datatype syscall_result = Returned u64 proc_world | Ended proc_world | Sys_Panic | Sys_Diverges

definition char_utf8 :: "u8 \<Rightarrow> bytes" where
  "char_utf8 b = (if b < 0x80 then [b] else [0xC0 OR drop_bit 6 b, 0x80 OR (b AND 0x3F)])"

text \<open>User addresses are read through the page tables of the process: \<open>user_byte\<close> is the
  byte the processor finds there.\<close>

definition sys_write :: "x86_crate \<Rightarrow> (proc_world \<Rightarrow> u64 \<Rightarrow> u8) \<Rightarrow> u64 \<Rightarrow> u64 \<Rightarrow> proc_world \<Rightarrow> syscall_result" where
  "sys_write cr user_byte buf len w =
     (if len = 0 then Returned 0 w
      else case validate_user_ptr cr (w_mem w) (w_cr3 w) buf len of
          None \<Rightarrow> Sys_Diverges
        | Some None \<Rightarrow> Sys_Panic
        | Some (Some False) \<Rightarrow> Returned (- 1) w
        | Some (Some True) \<Rightarrow>
            Returned len (w \<lparr> w_serial := w_serial w
              @ concat (map (\<lambda>i. char_utf8 (user_byte w (buf + of_nat i))) [0..<unat len]) \<rparr>))"

definition sys_exit :: "x86_crate \<Rightarrow> u64 \<Rightarrow> proc_world \<Rightarrow> syscall_result" where
  "sys_exit cr code w =
     (case exit_process cr (ucast code) (w \<lparr> EXIT_REQUESTED := True \<rparr>) of
        None \<Rightarrow> Sys_Panic | Some w' \<Rightarrow> Ended w')"

definition sys_yield :: "proc_world \<Rightarrow> syscall_result" where
  "sys_yield w = Returned 0 w"

definition syscall_dispatch ::
  "x86_crate \<Rightarrow> (proc_world \<Rightarrow> u64 \<Rightarrow> u8) \<Rightarrow> u64 \<Rightarrow> u64 \<Rightarrow> u64 \<Rightarrow> u64 \<Rightarrow> proc_world \<Rightarrow> syscall_result" where
  "syscall_dispatch cr user_byte num arg0 arg1 arg2 w =
     (if num = SYS_WRITE then sys_write cr user_byte arg0 arg1 w
      else if num = SYS_EXIT then sys_exit cr arg0 w
      else if num = SYS_YIELD then sys_yield w
      else Returned (- 1) w)"

text \<open>The entry stub around the dispatcher. \<open>scratch\<close> stands for the frames of the called
  functions: the memory they leave behind. On the exit path the kernel is back in the shell,
  without a user state.\<close>

datatype syscall_outcome = To_User Context proc_world | To_Shell proc_world | Kernel_Panic | Kernel_Hang

definition syscall_entry ::
  "x86_crate \<Rightarrow> (proc_world \<Rightarrow> u64 \<Rightarrow> u8) \<Rightarrow> (u64 \<Rightarrow> phys_bytes \<Rightarrow> phys_bytes) \<Rightarrow> Context \<Rightarrow> proc_world \<Rightarrow> syscall_outcome" where
  "syscall_entry cr user_byte scratch c w =
     (case syscall_prologue (w_rsp0 w) (c, w_mem w) of (m, rsp) \<Rightarrow>
      case syscall_args m rsp of (num, arg0, arg1, arg2) \<Rightarrow>
      case syscall_dispatch cr user_byte num arg0 arg1 arg2 (w \<lparr> w_mem := scratch rsp m \<rparr>) of
        Sys_Panic \<Rightarrow> Kernel_Panic
      | Sys_Diverges \<Rightarrow> Kernel_Hang
      | Ended w' \<Rightarrow> To_Shell w'
      | Returned ret w' \<Rightarrow>
          if EXIT_REQUESTED w' then To_Shell w'
          else (case syscall_epilogue ret (w_mem w') rsp of (c', m') \<Rightarrow> To_User c' (w' \<lparr> w_mem := m' \<rparr>)))"

end
