(* ===== verification/Process_Properties.thy ===== *)
theory Process_Properties
  imports Process
begin

text \<open>
  The properties of processes and system calls.
\<close>

section \<open>Launching a process\<close>

lemma io_bind_InrE:
  assumes "io_bind p f s = (Inr y, s')"
  obtains x s1 where "p s = (Inr x, s1)" "f x s1 = (Inr y, s')"
  using assms by (auto simp: io_bind_def split: prod.splits sum.splits)

text \<open>A computation that leaves the process table alone.\<close>

definition keeps_procs :: "'a proc_io \<Rightarrow> bool" where
  "keeps_procs p \<longleftrightarrow> (\<forall>w. w_procs (snd (p w)) = w_procs w)"

lemma keeps_procsD: "keeps_procs p \<Longrightarrow> p w = (r, w') \<Longrightarrow> w_procs w' = w_procs w"
  by (metis keeps_procs_def snd_conv)

lemma keeps_bind: "keeps_procs p \<Longrightarrow> (\<And>x. keeps_procs (f x)) \<Longrightarrow> keeps_procs (io_bind p f)"
  by (auto simp: keeps_procs_def io_bind_def split: prod.splits sum.splits) (metis snd_conv)+

lemma keeps_err: "keeps_procs (io_err e)" and keeps_ret: "keeps_procs (io_ret x)"
  by (simp_all add: keeps_procs_def io_err_def io_ret_def)

lemma keeps_alloc: "keeps_procs allocate_page" and keeps_zero: "keeps_procs (zero_page p)"
  by (simp_all add: keeps_procs_def allocate_page_def zero_page_def split: option.split prod.split)

lemma keeps_alloc_zeroed: "keeps_procs (alloc_zeroed msg)"
  unfolding alloc_zeroed_def
  by (intro keeps_bind keeps_alloc) (auto intro: keeps_bind keeps_zero keeps_err keeps_ret split: option.split)

lemma keeps_map: "keeps_procs (map_user_page cr mt pml4 virt phys flags)"
  by (simp add: keeps_procs_def map_user_page_def split: option.split prod.split)

lemma keeps_mem: "keeps_procs (\<lambda>w. (r, w \<lparr> w_mem := f w \<rparr>))"
  by (simp add: keeps_procs_def)

lemmas keeps_intros = keeps_bind keeps_err keeps_ret keeps_alloc keeps_zero keeps_alloc_zeroed keeps_map keeps_mem

lemma keeps_create: "keeps_procs create_user_page_tables"
  unfolding create_user_page_tables_def
  by (auto intro!: keeps_intros split: option.split)

lemma keeps_for: "(\<And>x. keeps_procs (f x)) \<Longrightarrow> keeps_procs (io_for xs f)"
  by (induction xs) (auto intro: keeps_bind keeps_ret)

lemma keeps_load_segment: "keeps_procs (load_segment cr mt d pml4 seg)"
  unfolding load_segment_def load_page_def Let_def
  by (auto intro!: keeps_for keeps_intros split: option.split)

lemma find_slot_Some: "find_slot P ps = Some i \<Longrightarrow> i < length ps \<and> P (ps ! i)"
  by (induction ps arbitrary: i) (auto split: if_splits)

lemma find_slot_unique:
  "i < length ps \<Longrightarrow> P (ps ! i) \<Longrightarrow> (\<And>j. j < length ps \<Longrightarrow> j \<noteq> i \<Longrightarrow> \<not> P (ps ! j)) \<Longrightarrow> find_slot P ps = Some i"
proof (induction ps arbitrary: i)
  case (Cons p ps)
  show ?case
  proof (cases i)
    case 0
    with Cons.prems show ?thesis by simp
  next
    case (Suc k)
    have "\<not> P p" using Cons.prems(3) [of 0] Suc by simp
    moreover have "find_slot P ps = Some k"
      using Cons.prems(1,2) Suc Cons.prems(3) [of "Suc j" for j] by (intro Cons.IH) auto
    ultimately show ?thesis using Suc by simp
  qed
qed simp

text \<open>What a successful launch has done to the process table and, last of all, to memory.\<close>

lemma update_proc_app [simp]: "update_proc i f w = (Inr (), w \<lparr> w_procs := (w_procs w)[i := f (w_procs w ! i)] \<rparr>)"
  by (simp add: update_proc_def)

lemma launch_stacks_effect:
  assumes "launch_stacks cr mt info pml4 i w = (Inr (), w')" and "i < length (w_procs w)"
  obtains p m where "user_rsp p = USER_STACK_TOP" "elf_entry p = elf_entry_point info" "pcb_pid p = pcb_pid (w_procs w ! i)"
    "pml4_phys p = pml4_phys (w_procs w ! i)"
    "w_procs w' = (w_procs w)[i := (fst (build_initial_kernel_stack p m)) \<lparr> pcb_state := Running \<rparr>]"
    "w_mem w' = snd (build_initial_kernel_stack p m)" "CURRENT_PID w' = pcb_pid (w_procs w ! i)"
proof -
  define q1 where "q1 us = (\<lambda>p :: ProcessControlBlock. p \<lparr> user_stack_phys := us, user_rsp := USER_STACK_TOP \<rparr>)" for us
  define q2 where "q2 ks = (\<lambda>p :: ProcessControlBlock. p \<lparr> kernel_stack_phys := ks, kernel_rsp := ks + KERNEL_STACK_SIZE \<rparr>)" for ks
  define upd where "upd f w = w \<lparr> w_procs := (w_procs w)[i := f (w_procs w ! i)] \<rparr>" for f and w :: proc_world
  from assms(1) obtain us w1 w2 ks w4 w5 w7 where
      s1: "alloc_zeroed ''Out of memory for user stack'' w = (Inr us, w1)"
      and s2: "map_user_page cr mt pml4 (USER_STACK_TOP - USER_STACK_SIZE) us (PTE_PRESENT OR PTE_WRITABLE OR PTE_USER) w1 = (Inr (), w2)"
      and s3: "alloc_zeroed ''Out of memory for kernel stack'' (upd (q1 us) w2) = (Inr ks, w4)"
      and s4: "map_user_page cr mt pml4 ks ks (PTE_PRESENT OR PTE_WRITABLE) (upd (q2 ks) w4) = (Inr (), w5)"
      and b: "build_stack_at i (upd (elf_entry_update (\<lambda>_. elf_entry_point info)) w5) = (Inr (), w7)"
      and w': "w' = (let w8 = upd (pcb_state_update (\<lambda>_. Running)) w7 in w8 \<lparr> CURRENT_PID := pcb_pid (w_procs w8 ! i) \<rparr>)"
    unfolding launch_stacks_def q1_def q2_def upd_def by (elim io_bind_InrE) (auto simp: Let_def)
  note alloc = keeps_procsD [OF keeps_alloc_zeroed] and map = keeps_procsD [OF keeps_map]
  let ?ps = "w_procs w"
  let ?p = "(q2 ks (q1 us (?ps ! i))) \<lparr> elf_entry := elf_entry_point info \<rparr>"
  let ?B = "build_initial_kernel_stack ?p (w_mem w5)"
  have "w_procs w5 = ?ps[i := q2 ks (q1 us (?ps ! i))]"
    using alloc [OF s1] map [OF s2] alloc [OF s3] map [OF s4] assms(2) by (simp add: upd_def)
  then have w7: "w_procs w7 = ?ps[i := fst ?B]" "w_mem w7 = snd ?B"
    using b assms(2) by (auto simp: build_stack_at_def upd_def split: prod.splits)
  have "w_procs w' = ?ps[i := (fst ?B) \<lparr> pcb_state := Running \<rparr>]" "w_mem w' = snd ?B"
    unfolding w' Let_def upd_def using w7 assms(2) by simp_all
  moreover have "CURRENT_PID w' = pcb_pid (?ps ! i)"
    unfolding w' Let_def upd_def using w7 assms(2)
    by (simp add: q1_def q2_def build_initial_kernel_stack_def split: prod.split)
  ultimately show thesis
    using that [of ?p "w_mem w5"] by (simp add: q1_def q2_def)
qed

lemma launch_effect:
  assumes "launch_init_process cr mt elf w = (Inr (), w')"
  obtains info i p m where "parse_elf elf = Inr info" "find_slot (\<lambda>p. pcb_state p = Unused) (w_procs w) = Some i"
    "user_rsp p = USER_STACK_TOP" "elf_entry p = elf_entry_point info" "pcb_pid p = pcb_pid (w_procs w ! i)"
    "w_procs w' = (w_procs w)[i := (fst (build_initial_kernel_stack p m)) \<lparr> pcb_state := Running \<rparr>]"
    "w_mem w' = snd (build_initial_kernel_stack p m)" "CURRENT_PID w' = pcb_pid (w_procs w ! i)"
proof -
  obtain info i where info: "parse_elf elf = Inr info"
      and i: "find_slot (\<lambda>p. pcb_state p = Unused) (w_procs w) = Some i"
      and L: "launch_in_slot cr mt elf info i w = (Inr (), w')"
    using assms by (auto simp: launch_init_process_def split: sum.splits elf_fail.splits option.splits)
  note il = find_slot_Some [OF i]
  obtain r w1 where c: "create_user_page_tables w = (Inr r, w1)" and L1: "(case r of
       None \<Rightarrow> io_err (Proc_Err ''Failed to create page tables'')
     | Some pml4 \<Rightarrow>
         io_bind (update_proc i (\<lambda>p. p \<lparr> pml4_phys := pml4 \<rparr>)) (\<lambda>_.
         io_bind (io_for (take (segment_count info) (segments info)) (load_segment cr mt elf pml4)) (\<lambda>_.
         launch_stacks cr mt info pml4 i))) w1 = (Inr (), w')"
    using L unfolding launch_in_slot_def by (rule io_bind_InrE)
  obtain pml4 where r: "r = Some pml4" using L1 by (cases r) (simp_all add: io_err_def)
  let ?w2 = "w1 \<lparr> w_procs := (w_procs w1)[i := (w_procs w1 ! i) \<lparr> pml4_phys := pml4 \<rparr>] \<rparr>"
  obtain w3 where f: "io_for (take (segment_count info) (segments info)) (load_segment cr mt elf pml4) ?w2 = (Inr (), w3)"
      and L2: "launch_stacks cr mt info pml4 i w3 = (Inr (), w')"
    using L1 r by (auto elim!: io_bind_InrE)
  have "w_procs w3 = (w_procs w)[i := (w_procs w ! i) \<lparr> pml4_phys := pml4 \<rparr>]"
    using keeps_procsD [OF keeps_for [OF keeps_load_segment] f] keeps_procsD [OF keeps_create c] by simp
  then show thesis
    using launch_stacks_effect [OF L2] il that [OF info i] by (auto simp: list_update_overwrite)
qed

text \<open>The register state of a new process.\<close>

definition first_context :: "u64 \<Rightarrow> Context" where
  "first_context entry = \<lparr> cx_r15 = 0, cx_r14 = 0, cx_r13 = 0, cx_r12 = 0, cx_r11 = 0, cx_r10 = 0, cx_r9 = 0, cx_r8 = 0,
     cx_rbp = 0, cx_rdi = 0, cx_rsi = 0, cx_rdx = 0, cx_rcx = 0, cx_rbx = 0, cx_rax = 0, cx_rip = entry, cx_cs = USER_CS,
     cx_rflags = 0x200, cx_rsp = USER_STACK_TOP, cx_ss = USER_SS \<rparr>"

lemma replicate_15: "replicate 15 x = [x, x, x, x, x, x, x, x, x, x, x, x, x, x, x]"
  by (simp add: eval_nat_numeral)

lemma initial_context: "context_of_words (rev (initial_words p)) = (first_context (elf_entry p)) \<lparr> cx_rsp := user_rsp p \<rparr>"
  by (simp add: context_of_words_def initial_words_def first_context_def replicate_15)

text \<open>The state after a launch: only the first unused slot of the table has changed, and the frame that
  \<open>enter_user_mode\<close> is to pop is in memory.\<close>

lemma launch_frame:
  assumes "launch_init_process cr mt elf w = (Inr (), w')" and "list_all (\<lambda>p. pcb_state p \<noteq> Running) (w_procs w)"
  obtains info i p where "parse_elf elf = Inr info" "i < length (w_procs w)" "pcb_state (w_procs w ! i) = Unused"
    "w_procs w' = (w_procs w)[i := p]" "pcb_state p = Running" "kernel_rsp p = kernel_stack_phys p + 8032"
    "pop_and_iretq (w_mem w') (kernel_rsp p) = first_context (elf_entry_point info)"
    "find_slot (\<lambda>p. pcb_state p = Running) (w_procs w') = Some i" "w_procs w' ! i = p"
proof -
  obtain info i p m where info: "parse_elf elf = Inr info" and i: "find_slot (\<lambda>p. pcb_state p = Unused) (w_procs w) = Some i"
      and p: "user_rsp p = USER_STACK_TOP" "elf_entry p = elf_entry_point info"
      and ps: "w_procs w' = (w_procs w)[i := (fst (build_initial_kernel_stack p m)) \<lparr> pcb_state := Running \<rparr>]"
      and m: "w_mem w' = snd (build_initial_kernel_stack p m)"
    by (rule launch_effect [OF assms(1)])
  note il = find_slot_Some [OF i]
  obtain p' m' where b: "build_initial_kernel_stack p m = (p', m')" by fastforce
  note bw = build_stack_words [OF b]
  let ?r = "p' \<lparr> pcb_state := Running \<rparr>"
  have "find_slot (\<lambda>p. pcb_state p = Running) (w_procs w') = Some i"
    using il assms(2) unfolding ps b by (intro find_slot_unique) (auto simp: list_all_length)
  moreover have "pop_and_iretq (w_mem w') (kernel_rsp ?r) = first_context (elf_entry_point info)"
    unfolding m b snd_conv pop_and_iretq_def by (simp add: bw(1) initial_context p) (simp add: first_context_def)
  moreover have "kernel_stack_phys p' = kernel_stack_phys p" by (subst bw(3)) simp
  then have "kernel_rsp ?r = kernel_stack_phys ?r + 8032" using bw(2) by (simp add: KERNEL_STACK_SIZE_def)
  ultimately show thesis
    using info il ps b by (intro that [of info i ?r]) simp_all
qed

text \<open>A small ELF file with one header and one segment.\<close>

definition tiny_ehdr :: bytes where
  "tiny_ehdr =
    [0x7F, 0x45, 0x4C, 0x46, 2, 1, 1, 0, 0, 0, 0, 0, 0, 0, 0, 0,
     2, 0, 0x3E, 0, 1, 0, 0, 0, 0x78, 0, 0x40, 0, 0, 0, 0, 0,
     0x40, 0, 0, 0, 0, 0, 0, 0, 0, 0, 0, 0, 0, 0, 0, 0,
     0, 0, 0, 0, 0x40, 0, 0x38, 0, 1, 0, 0, 0, 0, 0, 0, 0]"

definition tiny_phdr :: bytes where
  "tiny_phdr =
    [1, 0, 0, 0, 5, 0, 0, 0, 0, 0, 0, 0, 0, 0, 0, 0,
     0, 0, 0x40, 0, 0, 0, 0, 0, 0, 0, 0, 0, 0, 0, 0, 0,
     0x78, 0, 0, 0, 0, 0, 0, 0, 0x78, 0, 0, 0, 0, 0, 0, 0,
     0, 0x10, 0, 0, 0, 0, 0, 0]"

definition tiny_elf :: bytes where "tiny_elf = tiny_ehdr @ tiny_phdr"

lemma length_tiny [simp]: "length tiny_ehdr = 64" "length tiny_phdr = 56" "length tiny_elf = 120"
  by (simp_all add: tiny_ehdr_def tiny_phdr_def tiny_elf_def)

definition tiny_info :: ElfLoadInfo where
  "tiny_info = \<lparr> elf_entry_point = 0x400078,
     segments = \<lparr> seg_vaddr = 0x400000, seg_memsz = 0x78, seg_filesz = 0x78, seg_data_offset = 0,
       seg_writable = False, seg_executable = True \<rparr> # replicate 3 empty_segment, segment_count = 1 \<rparr>"

lemma tiny_nth: "i < 64 \<Longrightarrow> tiny_elf ! i = tiny_ehdr ! i"
  by (simp add: tiny_elf_def nth_append)

lemma tiny_fields:
  "le16_at tiny_elf 16 = 2" "le16_at tiny_elf 18 = 0x3E" "le64_at tiny_elf 24 = 0x400078" "le64_at tiny_elf 32 = 64"
  "le16_at tiny_elf 54 = 56" "le16_at tiny_elf 56 = 1"
  by (simp_all add: le16_at_def le32_at_def le64_at_def u16_from_le_def u32_from_le_def tiny_nth) (simp_all add: tiny_ehdr_def)

lemma tiny_phdr_fields:
  "le32_at tiny_phdr 0 = 1" "le32_at tiny_phdr 4 = 5" "le64_at tiny_phdr 8 = 0" "le64_at tiny_phdr 16 = 0x400000"
  "le64_at tiny_phdr 32 = 0x78" "le64_at tiny_phdr 40 = 0x78"
  by (simp_all add: le16_at_def le32_at_def le64_at_def u16_from_le_def u32_from_le_def tiny_phdr_def)

lemma parse_tiny_elf: "parse_elf tiny_elf = Inr tiny_info"
proof -
  have "take 4 tiny_elf = ELF_MAGIC" "tiny_elf ! 4 = ELFCLASS64" "tiny_elf ! 5 = ELFDATA2LSB"
    by (simp_all add: tiny_nth) (simp_all add: tiny_elf_def tiny_ehdr_def elf_consts)
  then have h: "ehdr_parse tiny_elf = Some (ehdr_decode tiny_elf)"
    by (simp add: ehdr_parse_def Let_def ehdr_decode_def tiny_fields elf_consts)
  have r4: "replicate 4 x = x # replicate 3 x" for x :: ElfSegment
    by (simp add: eval_nat_numeral)
  have d: "drop 64 tiny_elf = tiny_phdr" by (simp add: tiny_elf_def)
  have "parse_phdr tiny_elf 64 56 0 \<lparr> elf_entry_point = 0x400078, segments = replicate 4 empty_segment, segment_count = 0 \<rparr> = Inr tiny_info"
    by (simp add: parse_phdr_def Let_def d phdr_decode_def tiny_phdr_fields is_loadable_def PT_LOAD_def segment_of_def
        is_writable_def is_executable_def tiny_info_def r4)
  then show ?thesis
    by (simp add: parse_elf_def h ehdr_decode_def tiny_fields tiny_info_def)
qed

text \<open>A frame allocator with eight frames, a mapper that always succeeds, and the crate as its
  documentation describes it.\<close>

definition tiny_pmm :: phys_mem where
  "tiny_pmm = \<lparr> pmm_alloc = \<lparr> BITMAP = [1], total_frames = 8, allocated_frames = 1, next_free = 1,
       stats = stats (pfa_new [] 0), validation_enabled = True \<rparr>, memory_map = [], reserved_regions = [] \<rparr>"

definition tiny_frames :: "nat \<Rightarrow> pmm_global" where
  "tiny_frames n = Some (tiny_pmm \<lparr> pmm_alloc := (pmm_alloc tiny_pmm)
     \<lparr> BITMAP := [of_nat (2 ^ n - 1)], allocated_frames := n, next_free := n \<rparr> \<rparr>)"

definition tiny_world :: proc_world where
  "tiny_world = \<lparr> w_mem = (\<lambda>_. 0), w_pmm = tiny_frames 1, w_procs = initial_table, CURRENT_PID = 0, KERNEL_PML4_PHYS = 0,
     SHELL_RSP = 0, EXIT_REQUESTED = False, EXIT_CODE = 0, w_cr3 = 0, w_rsp0 = 0, w_serial = [] \<rparr>"

definition tiny_map :: map_to where
  "tiny_map m g pml4 page frame flags = (True, m, g)"

lemma skip_one:
  "n < total_frames s \<Longrightarrow> is_frame_reserved s n \<Longrightarrow> \<not> is_frame_reserved s (Suc n) \<Longrightarrow> skip_reserved s n = Suc n"
  by (simp add: skip_reserved.simps [of s n] skip_reserved.simps [of s "Suc n"])

lemma tiny_alloc:
  assumes "n \<in> {1, 2, 3, 4}"
  shows "physmem_allocate_frame (tiny_frames n) = Some (Some (of_nat n * 4096), tiny_frames (Suc n))"
proof -
  let ?s = "\<lparr> BITMAP = [of_nat (2 ^ Suc n - 1)], total_frames = 8, allocated_frames = Suc n, next_free = n,
       stats = stats (pfa_new [] 0), validation_enabled = True \<rparr>"
  have "skip_reserved ?s n = Suc n"
    using assms by (intro skip_one) (auto simp: is_frame_reserved_def)
  moreover have "mark_frame_reserved (pmm_alloc (the (tiny_frames n))) n \<lparr> allocated_frames := Suc n \<rparr> = ?s"
    using assms by (auto simp: mark_frame_reserved_def tiny_frames_def tiny_pmm_def)
  ultimately show ?thesis
    using assms by (auto simp: physmem_allocate_frame_def tiny_frames_def tiny_pmm_def pmm_allocate_frame_def allocate_frame_def
        Let_def FRAME_SIZE_def)
qed

lemma tiny_page_copy: "\<exists>bs. page_copy tiny_elf (hd (segments tiny_info)) 0 = Some bs \<and> length bs = 0x78"
  by (simp add: page_copy_def tiny_info_def Let_def slice_def)

lemma tiny_addresses: "virt_new documented_crate a = (if canonical a then Some a else None)"
  "phys_new documented_crate a = (if a < 2 ^ 52 then Some a else None)"
  by (simp_all add: documented_crate_def)

lemma tiny_alloc_zeroed:
  assumes "n \<in> {1, 2, 3, 4}" and "w_pmm w = tiny_frames n"
  shows "alloc_zeroed msg w = (Inr (of_nat n * 4096), w \<lparr> w_pmm := tiny_frames (Suc n),
    w_mem := fill_bytes (of_nat n * 4096) (replicate 4096 0) (w_mem w) \<rparr>)"
  using tiny_alloc [OF assms(1)] assms(2)
  by (auto simp: alloc_zeroed_def allocate_page_def zero_page_def io_bind_app)

lemma tiny_map_page:
  assumes "canonical virt" and "phys < 2 ^ 52"
  shows "map_user_page documented_crate tiny_map pml4 virt phys flags w = (Inr (), w)"
  using assms by (simp add: map_user_page_def tiny_addresses tiny_map_def)

text \<open>The first entry of the new top table, at \<open>0x1000\<close>, is empty and stays so.\<close>

lemma load64_fill:
  "\<forall>i\<in>{0, 1, 2, 3, 4, 5, 6, 7}. \<not> unat (a + i - b) < length bs \<Longrightarrow> load64 (fill_bytes b bs m) a = load64 m a"
  by (simp add: load64_def load32_def fill_bytes_def add.assoc)

lemma load64_zeroed: "load64 (fill_bytes a (replicate 4096 0) m) a = 0"
proof -
  have b: "fill_bytes a (replicate 4096 0) m (a + i) = 0" if "unat i < 4096" for i
    using that by (simp only: fill_bytes_def length_replicate add_diff_cancel_left' if_True nth_replicate)
  from b [of 0] show ?thesis by (simp add: load64_def load32_def b add.assoc u32_from_le_def)
qed

lemma tiny_create:
  assumes "w_pmm w = tiny_frames 1"
  shows "\<exists>m. create_user_page_tables w = (Inr (Some 4096), w \<lparr> w_pmm := tiny_frames 2, w_mem := m \<rparr>) \<and> load64 m 0x1000 = 0"
proof -
  obtain bs where bs: "length bs = 2048" "create_user_page_tables w = (Inr (Some 0x1000), w \<lparr> w_pmm := tiny_frames 2,
      w_mem := fill_bytes 0x1800 bs (fill_bytes 0x1000 (replicate 4096 0) (w_mem w)) \<rparr>)"
  proof (rule that)
    let ?m = "fill_bytes 0x1000 (replicate 4096 0) (w_mem w)"
    show "length (map (\<lambda>i. ?m (KERNEL_PML4_PHYS w + 256 * 8 + of_nat i)) [0..<256 * 8]) = 2048"
      by (simp only: length_map length_upt)
    show "create_user_page_tables w = (Inr (Some 0x1000), w \<lparr> w_pmm := tiny_frames 2,
        w_mem := fill_bytes 0x1800 (map (\<lambda>i. ?m (KERNEL_PML4_PHYS w + 256 * 8 + of_nat i)) [0..<256 * 8]) ?m \<rparr>)"
      using tiny_alloc [of 1] assms
      by (simp add: create_user_page_tables_def allocate_page_def zero_page_def io_bind_app numeral_2_eq_2 del: upt_rec_numeral)
  qed
  have "load64 (fill_bytes 0x1800 bs (fill_bytes 0x1000 (replicate 4096 0) (w_mem w))) 0x1000 =
      load64 (fill_bytes 0x1000 (replicate 4096 0) (w_mem w)) 0x1000"
    by (rule load64_fill) (simp add: bs(1))
  with bs(2) show ?thesis by (auto simp: load64_zeroed)
qed

lemma tiny_load:
  assumes "w_pmm w = tiny_frames 2"
  shows "\<exists>m. load_segment documented_crate tiny_map tiny_elf pml4 (hd (segments tiny_info)) w =
    (Inr (), w \<lparr> w_pmm := tiny_frames 3, w_mem := m \<rparr>) \<and> load64 m 0x1000 = load64 (w_mem w) 0x1000"
proof -
  obtain bs where bs: "page_copy tiny_elf (hd (segments tiny_info)) 0 = Some bs" "length bs = 0x78" using tiny_page_copy by blast
  define m where "m = fill_bytes 8192 (replicate 4096 0) (w_mem w)"
  have a: "alloc_zeroed ''Out of memory for ELF'' w = (Inr 8192, w \<lparr> w_pmm := tiny_frames 3, w_mem := m \<rparr>)"
    using tiny_alloc_zeroed [of 2 w "''Out of memory for ELF''"] assms by (auto simp: eval_nat_numeral m_def)
  have "load64 (fill_bytes 8192 bs m) 0x1000 = load64 m 0x1000" "load64 m 0x1000 = load64 (w_mem w) 0x1000"
    unfolding m_def by (rule load64_fill, simp add: bs(2))+
  have "canonical 0x400000" by (simp add: canonical_def)
  then have "load_page documented_crate tiny_map tiny_elf pml4 (hd (segments tiny_info)) 0 w =
      (Inr (), w \<lparr> w_pmm := tiny_frames 3, w_mem := fill_bytes 8192 bs m \<rparr>)"
    using a bs by (simp add: load_page_def io_bind_app Let_def tiny_map_page tiny_info_def)
  with \<open>load64 (fill_bytes 8192 bs m) 0x1000 = load64 m 0x1000\<close> \<open>load64 m 0x1000 = load64 (w_mem w) 0x1000\<close> show ?thesis
    by (auto simp: load_segment_def tiny_info_def io_bind_app)
qed

lemma tiny_build:
  assumes "kernel_stack_phys p = 0x4000"
  obtains p' m' where "build_initial_kernel_stack p m = (p', m')" "kernel_stack_phys p' = 0x4000" "pml4_phys p' = pml4_phys p"
    "load64 m' 0x1000 = load64 m 0x1000"
  using assms
  by (simp add: build_initial_kernel_stack_def initial_words_def replicate_15 push_all_def push64_def KERNEL_STACK_SIZE_def
      load64_store64_other apart_def split: prod.split)

lemma tiny_stacks:
  assumes "w_pmm w = tiny_frames 3" and "0 < length (w_procs w)"
  shows "\<exists>w'. launch_stacks documented_crate tiny_map info pml4 0 w = (Inr (), w') \<and>
    kernel_stack_phys (w_procs w' ! 0) = 0x4000 \<and> pml4_phys (w_procs w' ! 0) = pml4_phys (w_procs w ! 0) \<and>
    load64 (w_mem w') 0x1000 = load64 (w_mem w) 0x1000"
proof -
  have f: "load64 (fill_bytes b (replicate 4096 0) m) 0x1000 = load64 m 0x1000" if "b \<in> {0x3000, 0x4000}" for b m
    using that by (intro load64_fill) auto
  have a3: "alloc_zeroed msg w = (Inr 0x3000, w \<lparr> w_pmm := tiny_frames 4,
      w_mem := fill_bytes 0x3000 (replicate 4096 0) (w_mem w) \<rparr>)" if "w_pmm w = tiny_frames 3" for msg w
    using tiny_alloc_zeroed [of 3 w msg] that by (simp add: eval_nat_numeral)
  have a4: "alloc_zeroed msg w = (Inr 0x4000, w \<lparr> w_pmm := tiny_frames 5,
      w_mem := fill_bytes 0x4000 (replicate 4096 0) (w_mem w) \<rparr>)" if "w_pmm w = tiny_frames 4" for msg w
    using tiny_alloc_zeroed [of 4 w msg] that by (simp add: eval_nat_numeral)
  have "canonical (USER_STACK_TOP - USER_STACK_SIZE)" "canonical 0x4000"
    by (simp_all add: canonical_def USER_STACK_TOP_def USER_STACK_SIZE_def)
  note c = this
  let ?p = "(w_procs w ! 0) \<lparr> user_stack_phys := 0x3000, user_rsp := USER_STACK_TOP, kernel_stack_phys := 0x4000,
      kernel_rsp := 0x4000 + KERNEL_STACK_SIZE, elf_entry := elf_entry_point info \<rparr>"
  obtain p' m' where b: "build_initial_kernel_stack ?p (fill_bytes 0x4000 (replicate 4096 0) (fill_bytes 0x3000 (replicate 4096 0) (w_mem w))) = (p', m')"
      "kernel_stack_phys p' = 0x4000" "pml4_phys p' = pml4_phys (w_procs w ! 0)" "load64 m' 0x1000 = load64 (w_mem w) 0x1000"
    by (rule tiny_build [of ?p "fill_bytes 0x4000 (replicate 4096 0) (fill_bytes 0x3000 (replicate 4096 0) (w_mem w))"])
      (simp_all add: f)
  show ?thesis
    using assms c b by (simp add: launch_stacks_def io_bind_app a3 a4 tiny_map_page build_stack_at_def)
qed

text \<open>The launch succeeds, and the first instruction behind the switch of the tables faults.\<close>

definition tiny_switch :: user_switch where
  "tiny_switch = \<lparr> sw_code = [0x100000], sw_selectors = (\<lambda>cs ss. True) \<rparr>"

lemma tiny_launch:
  "\<exists>w' w''. launch_init_process documented_crate tiny_map tiny_elf tiny_world = (Inr (), w') \<and>
     (\<forall>sel. enter_user_mode documented_crate (tiny_switch \<lparr> sw_selectors := sel \<rparr>) w' = Page_Fault 0x100000 w'')"
proof -
  let ?info = "tiny_info" and ?cr = documented_crate
  have i: "find_slot (\<lambda>p. pcb_state p = Unused) (w_procs tiny_world) = Some 0"
    by (simp add: tiny_world_def initial_table_def MAX_PROCESSES_def empty_pcb_def eval_nat_numeral)
  obtain m1 where c: "create_user_page_tables tiny_world = (Inr (Some 4096), tiny_world \<lparr> w_pmm := tiny_frames 2, w_mem := m1 \<rparr>)" "load64 m1 0x1000 = 0"
    using tiny_create [of tiny_world] by (auto simp: tiny_world_def)
  let ?w2 = "tiny_world \<lparr> w_pmm := tiny_frames 2, w_mem := m1, w_procs := (w_procs tiny_world)[0 := (w_procs tiny_world ! 0) \<lparr> pml4_phys := 4096 \<rparr>] \<rparr>"
  obtain m2 where l: "load_segment ?cr tiny_map tiny_elf 4096 (hd (segments ?info)) ?w2 =
      (Inr (), ?w2 \<lparr> w_pmm := tiny_frames 3, w_mem := m2 \<rparr>)" "load64 m2 0x1000 = 0"
    using c(2) tiny_load [of ?w2 4096] by auto
  have "0 < length (w_procs tiny_world)" by (simp add: tiny_world_def initial_table_def MAX_PROCESSES_def)
  then obtain w' where s: "launch_stacks ?cr tiny_map ?info 4096 0 (?w2 \<lparr> w_pmm := tiny_frames 3, w_mem := m2 \<rparr>) = (Inr (), w')"
      "kernel_stack_phys (w_procs w' ! 0) = 0x4000" "pml4_phys (w_procs w' ! 0) = 4096"
      "load64 (w_mem w') 0x1000 = 0"
    using l(2) tiny_stacks [of "?w2 \<lparr> w_pmm := tiny_frames 3, w_mem := m2 \<rparr>" ?info 4096] by auto
  have "take (segment_count ?info) (segments ?info) = [hd (segments ?info)]" by (simp add: tiny_info_def)
  then have "launch_in_slot ?cr tiny_map tiny_elf ?info 0 tiny_world = (Inr (), w')"
    using c(1) l(1) s(1) by (simp add: launch_in_slot_def io_bind_app)
  then have L: "launch_init_process ?cr tiny_map tiny_elf tiny_world = (Inr (), w')"
    by (simp add: launch_init_process_def parse_tiny_elf i)
  obtain info j p m where p: "find_slot (\<lambda>p. pcb_state p = Unused) (w_procs tiny_world) = Some j"
      "w_procs w' = (w_procs tiny_world)[j := (fst (build_initial_kernel_stack p m)) \<lparr> pcb_state := Running \<rparr>]"
    by (rule launch_effect [OF L])
  have j: "j = 0" using p(1) i by simp
  obtain p' m' where b: "build_initial_kernel_stack p m = (p', m')" by fastforce
  have w0: "w_procs w' ! 0 = p' \<lparr> pcb_state := Running \<rparr>" "0 < length (w_procs w')"
    using p(2) j b \<open>0 < length (w_procs tiny_world)\<close> by simp_all
  have "kernel_stack_phys p' = kernel_stack_phys p" by (subst build_stack_words(3) [OF b]) simp
  then have "kernel_rsp p' = 0x4000 + 8032"
    using build_stack_words(2) [OF b] s(2) w0(1) by (simp add: KERNEL_STACK_SIZE_def)
  then have "canonical (kernel_rsp p')" by (simp add: canonical_def)
  moreover have "find_slot (\<lambda>p. pcb_state p = Running) (w_procs w') = Some 0"
    using w0 by (cases "w_procs w'") simp_all
  moreover have "translate (w_mem w') 0x1000 0x100000 = None"
    using s(4) by (simp add: translate_def page_leaf_def table_index_def pt_entry_def Let_def)
  ultimately have "\<forall>sel. enter_user_mode ?cr (tiny_switch \<lparr> sw_selectors := sel \<rparr>) w' =
      Page_Fault 0x100000 (w' \<lparr> w_rsp0 := kernel_rsp p', w_cr3 := 0x1000 \<rparr>)"
    using s(3) w0(1) by (simp add: enter_user_mode_def after_switch_def tiny_switch_def Let_def tiny_addresses page_of_def)
  with L show ?thesis by blast
qed

text \<open>C23: What \<open>launch_init_process\<close> copies to page \<open>i\<close> of a segment whose \<open>n\<close> bytes lie in the
  file: nothing when they end before the page; nothing but a panic, since the length wraps around, when
  \<open>n < 2 * i * 4096\<close>; and else the first \<open>min 4096 (n - 2 * i * 4096)\<close> of the
  \<open>min 4096 (n - i * 4096)\<close> bytes that belong there. So the first page is always right, and a later page is
  right when it is full and \<open>n\<close> is at least \<open>(2 * i + 1) * 4096\<close>.\<close>

theorem page_copy_second_page:
  assumes "unat (seg_data_offset seg) + unat (seg_filesz seg) \<le> length elf" and "length elf < 2 ^ 62"
    and "i < 2 ^ 40"
  shows "page_copy elf seg i =
    (if unat (seg_filesz seg) \<le> i * 4096 then Some []
     else if unat (seg_filesz seg) < 2 * i * 4096 then None
     else Some (slice elf (unat (seg_data_offset seg) + i * 4096) (min 4096 (unat (seg_filesz seg) - 2 * i * 4096))))"
proof -
  let ?o = "seg_data_offset seg" and ?f = "seg_filesz seg"
  let ?off = "of_nat i * 4096 :: u64"
  have off: "unat ?off = i * 4096" using assms(3) by (simp add: unat_word_ariths unat_of_nat)
  have of: "unat (?o + ?f) = unat ?o + unat ?f" using assms(1,2) by (simp add: unat_word_ariths)
  have oo: "unat (?o + ?off) = unat ?o + i * 4096" using assms off by (simp add: unat_word_ariths)
  have o4: "unat (?off + 4096) = i * 4096 + 4096" using assms(3) off by (simp add: unat_word_ariths)
  have c1: "?o + ?off < ?o + ?f \<longleftrightarrow> i * 4096 < unat ?f" by (simp add: word_less_nat_alt of oo)
  show ?thesis
  proof (cases "unat ?f \<le> i * 4096")
    case True
    then show ?thesis by (simp add: page_copy_def Let_def c1)
  next
    case False
    have fo: "unat (?f - ?off) = unat ?f - i * 4096"
      using False off by (simp add: unat_sub word_le_nat_alt)
    define e where "e = min (?off + 4096) (?f - ?off)"
    have e: "unat e = min (i * 4096 + 4096) (unat ?f - i * 4096)"
      unfolding e_def by (simp add: min_def word_le_nat_alt o4 fo)
    have lt: "?off < ?f" "0 < e" using False off e by (simp_all add: word_less_nat_alt)
    have pc: "page_copy elf seg i = (let s = unat (?o + ?off); t = unat (?o + ?off + (e - ?off)) in
        if s \<le> t \<and> t \<le> length elf then Some (slice elf s (t - s)) else None)"
      using False lt unfolding page_copy_def Let_def e_def [symmetric] by (simp add: c1)
    have te: "?o + ?off + (e - ?off) = ?o + e" by simp
    have t: "unat (?o + e) = unat ?o + unat e"
      using assms(1,2) e False by (simp add: unat_word_ariths)
    show ?thesis
      using False e assms(1) unfolding pc te Let_def t oo
      by (auto simp: min_def)
  qed
qed

theorem page_copy_second_page_witness:
  "page_copy (replicate 6000 0) (empty_segment \<lparr> seg_filesz := 5000 \<rparr>) 0 = Some (replicate 4096 0) \<and>
   page_copy (replicate 6000 0) (empty_segment \<lparr> seg_filesz := 5000 \<rparr>) 1 = None"
  using page_copy_second_page [of "empty_segment \<lparr> seg_filesz := 5000 \<rparr>" "replicate 6000 0" 0]
    page_copy_second_page [of "empty_segment \<lparr> seg_filesz := 5000 \<rparr>" "replicate 6000 0" 1]
  by (simp add: empty_segment_def slice_def)

section \<open>ELF files\<close>

text \<open>C24: What the parser accepts. A file is refused unless its first bytes are those of a 64-bit little-endian
  executable for x86-64; then with more than four program headers; then when its table of headers leaves the
  file; then without a loadable header. Every other file is accepted, and the result has the entry point
  and the segments of the loadable headers, in order. Each refusal has its message. The hypotheses exclude tables
  whose entries are shorter than a program header, on which the parser reads beyond the file, and
  offsets that make its sums wrap.\<close>

theorem parse_elf_correct:
  assumes "64 \<le> length data \<Longrightarrow> 56 \<le> unat (le16_at data 54) \<and> unat (le64_at data 32) < 2 ^ 62" and "length data < 2 ^ 63"
    and "phoff = unat (le64_at data 32)" and "phentsize = unat (le16_at data 54)" and "phnum = unat (le16_at data 56)"
    and "segs = load_segments data phoff phentsize [0..<phnum]"
  shows "if \<not> elf_identified data then parse_elf data = Inl (Elf_Err ''Invalid ELF header'')
    else if 4 < phnum then parse_elf data = Inl (Elf_Err ''Too many program headers'')
    else if 0 < phnum \<and> length data < phoff + phnum * phentsize then parse_elf data = Inl (Elf_Err ''Program header out of bounds'')
    else if segs = [] then parse_elf data = Inl (Elf_Err ''No loadable segments'')
    else \<exists>info. parse_elf data = Inr info \<and> elf_entry_point info = le64_at data 24 \<and> length (segments info) = 4 \<and>
      segment_count info = length segs \<and> take (segment_count info) (segments info) = segs"
proof (cases "elf_identified data \<and> phnum \<le> 4")
  case False
  then show ?thesis
    using assms(5) by (auto simp: parse_elf_def ehdr_parse_iff ehdr_decode_def Let_def)
next
  case True
  let ?init = "\<lparr> elf_entry_point = le64_at data 24, segments = replicate 4 empty_segment, segment_count = 0 \<rparr>"
  have p: "parse_elf data = (case parse_phdrs data phoff phentsize [0..<phnum] ?init of
      Inl e \<Rightarrow> Inl e | Inr info \<Rightarrow> if segment_count info = 0 then Inl (Elf_Err ''No loadable segments'') else Inr info)"
    using True assms(3-5) by (simp add: parse_elf_def ehdr_parse_iff ehdr_decode_def Let_def)
  have b: "56 \<le> phentsize" "phoff < 2 ^ 62" "phentsize < 2 ^ 16"
    using True assms(1,3,4) unsigned_less [of "le16_at data 54"] by (auto simp: elf_identified_def)
  show ?thesis
  proof (cases "0 < phnum \<and> length data < phoff + phnum * phentsize")
    case out: True
    then have "parse_phdrs data phoff phentsize [0..<phnum] ?init = Inl (Elf_Err ''Program header out of bounds'')"
      using parse_phdrs_leaves [OF b(1,3,2) assms(2), of phnum 0 ?init] True by simp
    with True out show ?thesis by (simp add: p)
  next
    case fits: False
    obtain info where info: "parse_phdrs data phoff phentsize [0..<phnum] ?init = Inr info"
        "elf_entry_point info = le64_at data 24" "length (segments info) = 4" "segment_count info = length segs"
        "take (segment_count info) (segments info) = segs"
    proof (cases "phnum = 0")
      case True
      then show ?thesis using that [of ?init] assms(6) by (simp add: load_segments_def)
    next
      case False
      then have "table_fits data phoff phentsize phnum" using fits b(1) assms(2) by (simp add: table_fits_def)
      from parse_phdrs_fits [OF this, of "[0..<phnum]" ?init "[]"] that True assms(6) show ?thesis by auto
    qed
    with True fits show ?thesis by (auto simp: p)
  qed
qed

theorem parse_elf_correct_witness:
  "\<exists>info. parse_elf tiny_elf = Inr info \<and> elf_entry_point info = 0x400078 \<and> segment_count info = 1"
proof -
  have f: "unat (le64_at tiny_elf 32) = 64" "unat (le16_at tiny_elf 54) = 56" "unat (le16_at tiny_elf 56) = 1"
    by (simp_all add: tiny_fields)
  have "drop 64 tiny_elf = tiny_phdr" by (simp add: tiny_elf_def)
  then have s: "load_segments tiny_elf 64 56 [0..<1] \<noteq> []" "length (load_segments tiny_elf 64 56 [0..<1]) = 1"
    by (simp_all add: load_segments_def phdr_at_def phdr_decode_def is_loadable_def tiny_phdr_fields PT_LOAD_def)
  have "elf_identified tiny_elf"
    by (simp add: elf_identified_def tiny_nth) (simp add: tiny_ehdr_def)
  with parse_elf_correct [OF _ _ refl refl refl refl, of tiny_elf] s show ?thesis
    unfolding f by (auto simp: tiny_fields)
qed

section \<open>User pointers\<close>

text \<open>A range that passes the tests before the loop.\<close>

lemma user_range_facts:
  fixes ptr len :: u64
  defines "e \<equiv> ((ptr + len) - 1) AND NOT 0xFFF" and "a \<equiv> ptr AND NOT 0xFFF"
  assumes g: "\<not> (ptr = 0 \<or> len = 0 \<or> KERNEL_SPACE \<le> ptr \<or> saturating_add ptr len < ptr \<or> KERNEL_SPACE < saturating_add ptr len)"
  shows "validate_user_ptr cr m cr3 ptr len = validate_loop cr m cr3 e a"
    and "unat e = (unat ptr + unat len - 1) div 4096 * 4096" and "unat a = unat ptr div 4096 * 4096"
    and "unat e < 2 ^ 64 - 2 ^ 47" and "a \<le> e"
proof -
  have sa: "saturating_add ptr len = ptr + len" and nw: "\<not> ptr + len < ptr" and ke: "ptr + len \<le> KERNEL_SPACE"
    using g by (auto simp: saturating_add_def KERNEL_SPACE_def split: if_splits)
  have pl: "unat (ptr + len) = unat ptr + unat len"
    using nw by (simp add: not_less no_olen_add_nat) (simp add: unat_word_ariths)
  have pos: "0 < unat len" using g by (simp add: unat_gt_0)
  then have e1: "unat (ptr + len - 1) = unat ptr + unat len - 1"
    using pl by (subst unat_sub) (simp_all add: word_le_nat_alt)
  show ue: "unat e = (unat ptr + unat len - 1) div 4096 * 4096" and ua: "unat a = unat ptr div 4096 * 4096"
    unfolding e_def a_def align_masks(1) unat_align_down e1 by simp_all
  show "validate_user_ptr cr m cr3 ptr len = validate_loop cr m cr3 e a"
    using g by (simp add: validate_user_ptr_def Let_def sa e_def a_def)
  have le: "unat ptr + unat len \<le> 2 ^ 64 - 2 ^ 47"
    using ke pl by (simp add: word_le_nat_alt KERNEL_SPACE_def)
  have "unat e \<le> unat ptr + unat len - 1" unfolding ue by simp
  then show "unat e < 2 ^ 64 - 2 ^ 47" using le pos by linarith
  show "a \<le> e"
    unfolding word_le_nat_alt ue ua using pos by (intro mult_right_mono div_le_mono) simp_all
qed

lemma user_range_outcome:
  assumes "x86_law cr" and g: "\<not> (ptr = 0 \<or> len = 0 \<or> KERNEL_SPACE \<le> ptr \<or> saturating_add ptr len < ptr \<or> KERNEL_SPACE < saturating_add ptr len)"
  obtains r where "validate_user_ptr cr m cr3 ptr len = Some r" and "2 ^ 47 \<le> unat ptr \<Longrightarrow> r = None"
    and "r = Some True \<Longrightarrow> unat ptr < 2 ^ 47 \<Longrightarrow> unat ptr + unat len \<le> 2 ^ 47"
    and "\<And>x. r = Some True \<Longrightarrow> ptr \<le> x \<Longrightarrow> unat x < unat ptr + unat len \<Longrightarrow> user_mapped m cr3 x"
    and "unat ptr + unat len \<le> 2 ^ 47 \<Longrightarrow> r \<noteq> None"
    and "unat ptr + unat len \<le> 2 ^ 47 \<Longrightarrow> \<forall>x. ptr \<le> x \<longrightarrow> unat x < unat ptr + unat len \<longrightarrow> user_mapped m cr3 x \<Longrightarrow> r = Some True"
proof -
  let ?e = "((ptr + len) - 1) AND NOT 0xFFF" and ?a = "ptr AND NOT 0xFFF"
  note v = user_range_facts(1) [OF g, of cr m cr3] and ue = user_range_facts(2) [OF g] and ua = user_range_facts(3) [OF g]
    and e = user_range_facts(4) [OF g] and ae = user_range_facts(5) [OF g]
  have pos: "0 < unat len" using g by (simp add: unat_gt_0)
  have a4: "4096 dvd unat ?a" unfolding ua by simp
  then obtain r where r: "validate_loop cr m cr3 ?e ?a = Some r"
      "\<And>b. r = Some True \<Longrightarrow> unat ?a \<le> unat b \<Longrightarrow> unat b \<le> unat ?e \<Longrightarrow> 4096 dvd unat b \<Longrightarrow> walk_page cr m cr3 b b \<noteq> Denied"
      "r = Some True \<Longrightarrow> unat ?a < 2 ^ 47 \<Longrightarrow> unat ?e < 2 ^ 47"
    using validate_loop_ok [OF assms(1) e, of ?a m cr3] by blast
  have e47: "unat ?e < 2 ^ 47" if "unat ptr + unat len \<le> 2 ^ 47"
  proof -
    have "unat ?e \<le> unat ptr + unat len - 1" unfolding ue by simp
    then show ?thesis using that pos by linarith
  qed
  show thesis
  proof (rule that [OF v [unfolded r(1)]])
    assume p: "2 ^ 47 \<le> unat ptr"
    have "2 ^ 47 \<le> unat ?a" using p div_le_mono [OF p, of 4096] unfolding ua by simp
    moreover have "unat ?a \<le> unat ?e" using ae by (simp add: word_le_nat_alt)
    ultimately have "\<not> canonical ?a" using e by (simp add: canonical_def word_le_nat_alt word_less_nat_alt)
    then show "r = None" using r(1) ae validate_loop_step [OF assms(1), of m cr3 ?e ?a] by simp
  next
    assume t: "r = Some True" and "unat ptr < 2 ^ 47"
    then have "unat ?a < 2 ^ 47" unfolding ua by (simp add: order_le_less_trans [OF div_times_less_eq_dividend])
    then have "(unat ptr + unat len - 1) div 4096 * 4096 < 2 ^ 35 * 4096" using r(3) [OF t] unfolding ue by simp
    then have "(unat ptr + unat len - 1) div 4096 < 2 ^ 35" by simp
    then have "unat ptr + unat len - 1 < 2 ^ 35 * 4096" by (simp add: div_less_iff_less_mult)
    then show "unat ptr + unat len \<le> 2 ^ 47" by simp
  next
    fix x assume t: "r = Some True" and x: "ptr \<le> x" "unat x < unat ptr + unat len"
    have ux: "unat (x AND NOT 0xFFF) = unat x div 4096 * 4096" unfolding align_masks(1) unat_align_down by simp
    have "walk_page cr m cr3 (x AND NOT 0xFFF) (x AND NOT 0xFFF) \<noteq> Denied"
    proof (rule r(2) [OF t])
      show "unat ?a \<le> unat (x AND NOT 0xFFF)" unfolding ua ux using x(1) by (simp add: div_le_mono word_le_nat_alt)
      show "unat (x AND NOT 0xFFF) \<le> unat ?e" unfolding ue ux using x(2) by (intro mult_right_mono div_le_mono) simp_all
    qed (unfold ux, simp)
    then show "user_mapped m cr3 x" unfolding walk_page_user [OF assms(1)] user_mapped_page by blast
  next
    assume "unat ptr + unat len \<le> 2 ^ 47"
    then show "r \<noteq> None" using validate_loop_accepts(1) [OF assms(1) e47 a4, of m cr3] r(1) by simp
  next
    assume le: "unat ptr + unat len \<le> 2 ^ 47" and "\<forall>x. ptr \<le> x \<longrightarrow> unat x < unat ptr + unat len \<longrightarrow> user_mapped m cr3 x"
    then have ok: "\<And>x. ptr \<le> x \<Longrightarrow> unat x < unat ptr + unat len \<Longrightarrow> user_mapped m cr3 x" by blast
    have "walk_page cr m cr3 b b \<noteq> Denied" if b: "unat ?a \<le> unat b" "unat b \<le> unat ?e" "4096 dvd unat b" for b
    proof -
      have "user_mapped m cr3 b"
      proof (cases "ptr \<le> b")
        case True
        have "unat ?e \<le> unat ptr + unat len - 1" unfolding ue by simp
        with b(2) pos have "unat b < unat ptr + unat len" by linarith
        with True show ?thesis by (rule ok)
      next
        case False
        then have "unat b \<le> unat ptr" by (simp add: word_le_nat_alt)
        then have "unat b div 4096 \<le> unat ptr div 4096" by (rule div_le_mono)
        then have "unat b = unat ?a" using b(1,3) unfolding ua by auto
        then have b: "b = ?a" by (simp only: word_unat_eq_iff)
        have "user_mapped m cr3 ptr" using ok [of ptr] pos by simp
        then show ?thesis unfolding b user_mapped_page .
      qed
      then show ?thesis by (simp add: walk_page_user [OF assms(1)])
    qed
    then show "r = Some True" using validate_loop_accepts(2) [OF assms(1) e47 [OF le] a4, of m cr3] r(1) by simp
  qed
qed

text \<open>C25: What \<open>validate_user_ptr\<close> decides. It always returns. It accepts a range exactly when pointer and
  length are not zero, the range ends at or below \<open>2 ^ 47\<close>, and every byte of it is mapped by the tables, in a page
  that is accessible to programs when the page has 4 KiB. Pages of 2 MiB and 1 GiB are accepted
  without a look at that bit. No range of the lower half makes the kernel panic; every one that starts
  between this half and the kernel half does, and a program can pass it to the system call.\<close>

theorem validate_user_ptr_outcome:
  assumes "x86_law cr"
  shows "\<exists>r. validate_user_ptr cr m cr3 ptr len = Some r \<and>
    (r = Some True \<longleftrightarrow> ptr \<noteq> 0 \<and> len \<noteq> 0 \<and> unat ptr + unat len \<le> 2 ^ 47 \<and>
       (\<forall>x. ptr \<le> x \<and> unat x < unat ptr + unat len \<longrightarrow> user_mapped m cr3 x)) \<and>
    (unat ptr + unat len \<le> 2 ^ 47 \<longrightarrow> r \<noteq> None) \<and>
    (0x0000800000000000 \<le> ptr \<and> ptr < KERNEL_SPACE \<and> len \<noteq> 0 \<and> unat ptr + unat len \<le> unat KERNEL_SPACE \<longrightarrow> r = None)"
proof (cases "ptr = 0 \<or> len = 0 \<or> KERNEL_SPACE \<le> ptr \<or> saturating_add ptr len < ptr \<or> KERNEL_SPACE < saturating_add ptr len")
  case True
  then have v: "validate_user_ptr cr m cr3 ptr len = Some (Some False)"
    by (auto simp: validate_user_ptr_def Let_def)
  have K: "unat KERNEL_SPACE = 2 ^ 64 - 2 ^ 47" by (simp add: KERNEL_SPACE_def)
  have low: "ptr = 0 \<or> len = 0 \<or> KERNEL_SPACE \<le> ptr" if "unat ptr + unat len \<le> unat KERNEL_SPACE"
  proof -
    have u: "unat (ptr + len) = unat ptr + unat len" using that by (simp add: K unat_word_ariths)
    then have "saturating_add ptr len = ptr + len" by (simp add: saturating_add_def word_less_nat_alt)
    with True that u show ?thesis by (auto simp: word_le_nat_alt word_less_nat_alt)
  qed
  have "ptr = 0 \<or> len = 0" if "unat ptr + unat len \<le> 2 ^ 47"
    using low that by (fastforce simp: K word_le_nat_alt)
  then show ?thesis
    using v low by (auto simp: not_le [symmetric])
next
  case False
  obtain r where r: "validate_user_ptr cr m cr3 ptr len = Some r" "2 ^ 47 \<le> unat ptr \<Longrightarrow> r = None"
      "r = Some True \<Longrightarrow> unat ptr < 2 ^ 47 \<Longrightarrow> unat ptr + unat len \<le> 2 ^ 47"
      "\<And>x. r = Some True \<Longrightarrow> ptr \<le> x \<Longrightarrow> unat x < unat ptr + unat len \<Longrightarrow> user_mapped m cr3 x"
      "unat ptr + unat len \<le> 2 ^ 47 \<Longrightarrow> r \<noteq> None"
      "unat ptr + unat len \<le> 2 ^ 47 \<Longrightarrow> \<forall>x. ptr \<le> x \<longrightarrow> unat x < unat ptr + unat len \<longrightarrow> user_mapped m cr3 x \<Longrightarrow> r = Some True"
    by (rule user_range_outcome [OF assms False, of m cr3]) (rule that)
  have "r = None" if "0x0000800000000000 \<le> ptr" using that r(2) by (simp add: word_le_nat_alt)
  moreover have "unat ptr + unat len \<le> 2 ^ 47" if "r = Some True" using that r(2,3) by (cases "unat ptr < 2 ^ 47") auto
  moreover have "ptr \<noteq> 0" "len \<noteq> 0" using False by simp_all
  ultimately show ?thesis using r(1,4,5,6) by (intro exI [of _ r]) blast
qed

text \<open>Tables with two pages of 4 KiB: one at \<open>0x1000\<close> for programs, the next for the kernel only.\<close>

definition two_pages :: phys_bytes where
  "two_pages = (\<lambda>_. 0)(0x10000 := 7, 0x10001 := 0x10, 0x10002 := 2, 0x21000 := 7, 0x21001 := 0x20, 0x21002 := 2,
     0x22000 := 7, 0x22001 := 0x30, 0x22002 := 2, 0x23008 := 7, 0x23009 := 0x40, 0x23010 := 3, 0x23011 := 0x50)"

lemma two_pages_entries:
  "pt_entry two_pages 0x10000 0 = 0x21007" "pt_entry two_pages 0x21000 0 = 0x22007" "pt_entry two_pages 0x22000 0 = 0x23007"
  "pt_entry two_pages 0x23000 (Suc 0) = 0x4007" "pt_entry two_pages 0x23000 2 = 0x5003"
  by (simp_all add: pt_entry_def load64_def load32_def u32_from_le_def two_pages_def)

theorem validate_user_ptr_outcome_witness:
  "validate_user_ptr documented_crate two_pages 0x10000 0x1FF8 8 = Some (Some True) \<and>
   validate_user_ptr documented_crate two_pages 0x10000 0x1FF8 9 = Some (Some False) \<and>
   validate_user_ptr documented_crate two_pages 0x10000 0x0000800000000000 1 = Some None"
proof -
  note out = validate_user_ptr_outcome [OF documented_crate_law, of two_pages "0x10000"]
  have idx: "table_index 39 a = 0" "table_index 30 a = 0" "table_index 21 a = 0" if "a \<in> {0x1000, 0x2000}" for a
    using that by (auto simp: table_index_def)
  have i12: "table_index 12 0x1000 = 1" "table_index 12 0x2000 = 2" by (simp_all add: table_index_def)
  have u: "user_mapped two_pages 0x10000 0x1000" "\<not> user_mapped two_pages 0x10000 0x2000"
    by (simp_all add: user_mapped_def page_leaf_def idx i12 two_pages_entries next_table_def Let_def)
  have "user_mapped two_pages 0x10000 x" if "0x1FF8 \<le> x" "unat x < 0x2000" for x
  proof -
    have "unat (x AND NOT 0xFFF) = unat x div 4096 * 4096" unfolding align_masks(1) unat_align_down by simp
    moreover have "unat x div 4096 = 1" using that by (auto simp: word_le_nat_alt intro!: div_nat_eqI)
    ultimately have "x AND NOT 0xFFF = 0x1000" by (simp add: word_unat_eq_iff)
    with u(1) user_mapped_page [of two_pages "0x10000" x] show ?thesis by simp
  qed
  then have "validate_user_ptr documented_crate two_pages 0x10000 0x1FF8 8 = Some (Some True)"
    using out [of "0x1FF8" 8] by auto
  moreover have "validate_user_ptr documented_crate two_pages 0x10000 0x1FF8 9 = Some (Some False)"
    using out [of "0x1FF8" 9] u(2) by (auto intro!: exI [of _ "0x2000"])
  moreover have "validate_user_ptr documented_crate two_pages 0x10000 0x0000800000000000 1 = Some None"
    using out [of "0x0000800000000000" 1] by (simp add: KERNEL_SPACE_def)
  ultimately show ?thesis by blast
qed

section \<open>System calls\<close>

text \<open>C26: A system call that returns to the program gives the dispatcher the arguments from the
  registers of the program and changes no register of the program but \<open>rax\<close>, which
  receives the result. The hypothesis on the called functions is the calling convention:
  they leave the frame of the entry stub alone.\<close>

theorem syscall_keeps_registers:
  assumes abi: "\<forall>rsp m. stack_words 20 (scratch rsp m) rsp = stack_words 20 m rsp"
    and e: "syscall_entry cr user_byte scratch c w = To_User c' w'"
  shows "\<exists>m ret w1. syscall_dispatch cr user_byte (cx_rax c) (cx_rdi c) (cx_rsi c) (cx_rdx c) (w \<lparr> w_mem := m \<rparr>) = Returned ret w1 \<and>
    c' = c \<lparr> cx_rax := ret \<rparr>"
proof -
  obtain m rsp where pr: "syscall_prologue (w_rsp0 w) (c, w_mem w) = (m, rsp)" by fastforce
  note W = syscall_prologue_words [OF pr]
  have at: "load64 m (rsp + 8 * of_nat i) = (gpr_words c @ frame_words c) ! i" if "i < 20" for i
    using nth_stack_words [OF that, of m rsp] W by simp
  have args: "syscall_args m rsp = (cx_rax c, cx_rdi c, cx_rsi c, cx_rdx c)"
    using at [of 14] at [of 9] at [of 10] at [of 11] by (simp add: syscall_args_def gpr_words_def nth_append)
  let ?w = "w \<lparr> w_mem := scratch rsp m \<rparr>"
  obtain ret w1 where d: "syscall_dispatch cr user_byte (cx_rax c) (cx_rdi c) (cx_rsi c) (cx_rdx c) ?w = Returned ret w1"
      and c': "c' = fst (syscall_epilogue ret (w_mem w1) rsp)"
    using e by (auto simp: syscall_entry_def pr args split: syscall_result.splits if_splits prod.splits)
  have m1: "w_mem w1 = scratch rsp m"
    using d by (auto simp: syscall_dispatch_def sys_write_def sys_exit_def sys_yield_def split: if_splits option.splits bool.splits)
  have "stack_words 20 (w_mem w1) rsp = gpr_words c @ frame_words c"
    unfolding m1 using abi W by simp
  then have "c' = context_of_words ((gpr_words c @ frame_words c)[14 := ret])"
    using stack_words_store [of 14 20 "w_mem w1" rsp ret] unfolding c' syscall_epilogue_def pop_and_iretq_def by (simp add: Let_def)
  then have "c' = c \<lparr> cx_rax := ret \<rparr>"
    by (simp add: gpr_words_def frame_words_def context_of_words_def)
  with d show ?thesis by blast
qed

theorem syscall_keeps_registers_witness:
  "\<exists>c' w'. syscall_entry documented_crate (\<lambda>_ _. 0) (\<lambda>_ m. m) ((first_context 7) \<lparr> cx_rax := 3, cx_rbx := 5 \<rparr>) tiny_world = To_User c' w' \<and>
     c' = (first_context 7) \<lparr> cx_rax := 0, cx_rbx := 5 \<rparr>"
proof -
  let ?c = "(first_context 7) \<lparr> cx_rax := 3, cx_rbx := 5 \<rparr>"
  have y: "syscall_dispatch documented_crate (\<lambda>_ _. 0) 3 a b d w = Returned 0 w" for a b d w
    by (simp add: syscall_dispatch_def SYS_WRITE_def SYS_EXIT_def SYS_YIELD_def sys_yield_def)
  have ex: "\<not> EXIT_REQUESTED tiny_world" by (simp add: tiny_world_def)
  obtain m rsp where pr: "syscall_prologue (w_rsp0 tiny_world) (?c, w_mem tiny_world) = (m, rsp)" by fastforce
  have "load64 m (rsp + 8 * of_nat 14) = 3"
    using nth_stack_words [of 14 20 m rsp] syscall_prologue_words [OF pr] by (simp add: gpr_words_def nth_append)
  then obtain c' w' where e: "syscall_entry documented_crate (\<lambda>_ _. 0) (\<lambda>_ m. m) ?c tiny_world = To_User c' w'"
    using ex by (cases "syscall_epilogue 0 m rsp") (auto simp: syscall_entry_def pr syscall_args_def y)
  from syscall_keeps_registers [OF _ e] e show ?thesis
    by (auto simp: y first_context_def)
qed

end
