(* ===== verification/Vmm.thy ===== *)
theory Vmm
  imports Page_Tables
begin

text \<open>
  The virtual memory manager: \<open>kernel/src/memory/vmm.rs\<close>. The walks over the tables are
  those of the source, on physical memory. \<open>OffsetPageTable\<close> of the \<open>x86_64\<close> crate is a
  parameter: its operations take the root table and the memory, and \<open>map_to\<close> also the frame
  allocator. Loads and stores that the translation buffer would serve are not distinguished;
  the flushes are counted as in the source.
\<close>

section \<open>The mapper\<close>

datatype map_to_error = FrameAllocationFailed | MapParentHuge | PageAlreadyMapped u64

datatype unmap_error = UnmapParentHuge | PageNotMapped | InvalidFrameAddress u64

record page_mapper =
  pte_flags :: "u64 \<Rightarrow> u64"
  map_to_op :: "u64 \<Rightarrow> u64 \<Rightarrow> u64 \<Rightarrow> u64 \<Rightarrow> phys_bytes \<times> pmm_global \<Rightarrow> (map_to_error + unit) \<times> phys_bytes \<times> pmm_global"
  unmap_op :: "u64 \<Rightarrow> u64 \<Rightarrow> phys_bytes \<Rightarrow> (unmap_error + u64) \<times> phys_bytes"
  translate_addr :: "u64 \<Rightarrow> u64 \<Rightarrow> phys_bytes \<Rightarrow> u64 option"
  translate_flags :: "u64 \<Rightarrow> u64 \<Rightarrow> phys_bytes \<Rightarrow> u64 option"

section \<open>State\<close>

definition PAGE_SIZE :: u64 where "PAGE_SIZE = 4096"

datatype VmmError =
  NotInitialized | AlreadyMapped | NotMapped | VmmOutOfMemory | InvalidAddress | MapFailed | UnmapFailed | ParentEntryHugePage

record VmmStatistics =
  total_mapped_pages :: nat
  total_mapped_bytes :: u64
  map_count :: u64
  unmap_count :: u64
  remap_count :: u64
  tlb_flush_count :: u64
  page_table_frames :: nat

definition VmmStatistics_new :: VmmStatistics where
  "VmmStatistics_new = \<lparr> total_mapped_pages = 0, total_mapped_bytes = 0, map_count = 0, unmap_count = 0, remap_count = 0,
     tlb_flush_count = 0, page_table_frames = 0 \<rparr>"

record MappedRegion =
  virtual_addr :: u64
  physical_addr :: u64
  mr_size :: u64
  mr_flags :: u64
  description :: string

record VirtualMemoryManager =
  page_table :: u64
  mapped_regions :: "MappedRegion list"
  vmm_stats :: VmmStatistics
  vmm_validation :: bool

text \<open>The machine around the manager: memory and the frame allocator.\<close>

record vmm_world =
  v_mgr :: VirtualMemoryManager
  v_mem :: phys_bytes
  v_pmm :: pmm_global

datatype vmm_fail = Vmm VmmError | Vmm_Panic

type_synonym 'a vmm_io = "(vmm_world, vmm_fail, 'a) io"

section \<open>Existing mappings\<close>

text \<open>The address that the four table indices select.\<close>

definition index_addr :: "nat \<Rightarrow> nat \<Rightarrow> nat \<Rightarrow> nat \<Rightarrow> u64" where
  "index_addr i4 i3 i2 i1 =
     push_bit 39 (of_nat i4) OR push_bit 30 (of_nat i3) OR push_bit 21 (of_nat i2) OR push_bit 12 (of_nat i1)"

definition record_page ::
  "x86_crate \<Rightarrow> page_mapper \<Rightarrow> u64 \<Rightarrow> u64 \<Rightarrow> nat \<Rightarrow> string \<Rightarrow> VirtualMemoryManager \<Rightarrow> VirtualMemoryManager option" where
  "record_page cr mp addr entry pages descr v =
     (case virt_new cr addr of
        None \<Rightarrow> None
      | Some virt \<Rightarrow> Some (v \<lparr>
          mapped_regions := mapped_regions v @ [\<lparr> virtual_addr = virt, physical_addr = pte_addr cr entry,
            mr_size = of_nat pages * PAGE_SIZE, mr_flags = pte_flags mp entry, description = descr \<rparr>],
          vmm_stats := (vmm_stats v) \<lparr> total_mapped_pages := total_mapped_pages (vmm_stats v) + pages \<rparr> \<rparr>))"

definition discover_pt ::
  "x86_crate \<Rightarrow> page_mapper \<Rightarrow> phys_bytes \<Rightarrow> nat \<Rightarrow> nat \<Rightarrow> nat \<Rightarrow> u64 \<Rightarrow> VirtualMemoryManager \<Rightarrow> VirtualMemoryManager option" where
  "discover_pt cr mp m i4 i3 i2 pt = fold_opt (\<lambda>i1 v.
     let e = pt_entry m pt i1 in
     if \<not> pte_present cr e then Some v
     else record_page cr mp (index_addr i4 i3 i2 i1) e 1 ''boot 4 KiB page'' v) [0..<512]"

definition discover_pd ::
  "x86_crate \<Rightarrow> page_mapper \<Rightarrow> phys_bytes \<Rightarrow> nat \<Rightarrow> nat \<Rightarrow> u64 \<Rightarrow> VirtualMemoryManager \<Rightarrow> VirtualMemoryManager option" where
  "discover_pd cr mp m i4 i3 pd = fold_opt (\<lambda>i2 v.
     let e = pt_entry m pd i2 in
     if \<not> pte_present cr e then Some v
     else if pte_huge cr e then record_page cr mp (index_addr i4 i3 i2 0) e 512 ''boot 2 MiB page'' v
     else discover_pt cr mp m i4 i3 i2 (pte_addr cr e) v) [0..<512]"

definition discover_pdp ::
  "x86_crate \<Rightarrow> page_mapper \<Rightarrow> phys_bytes \<Rightarrow> nat \<Rightarrow> u64 \<Rightarrow> VirtualMemoryManager \<Rightarrow> VirtualMemoryManager option" where
  "discover_pdp cr mp m i4 pdp = fold_opt (\<lambda>i3 v.
     let e = pt_entry m pdp i3 in
     if \<not> pte_present cr e then Some v
     else if pte_huge cr e then record_page cr mp (index_addr i4 i3 0 0) e (512 * 512) ''boot 1 GiB page'' v
     else discover_pd cr mp m i4 i3 (pte_addr cr e) v) [0..<512]"

definition discover_entry ::
  "x86_crate \<Rightarrow> page_mapper \<Rightarrow> phys_bytes \<Rightarrow> u64 \<Rightarrow> nat \<Rightarrow> VirtualMemoryManager \<Rightarrow> VirtualMemoryManager option" where
  "discover_entry cr mp m pml4 i4 v =
     (let e = pt_entry m pml4 i4 in
      if \<not> pte_present cr e then Some v else discover_pdp cr mp m i4 (pte_addr cr e) v)"

definition discover_existing_mappings ::
  "x86_crate \<Rightarrow> page_mapper \<Rightarrow> phys_bytes \<Rightarrow> VirtualMemoryManager \<Rightarrow> VirtualMemoryManager option" where
  "discover_existing_mappings cr mp m v =
     map_option (\<lambda>v. v \<lparr> vmm_stats := (vmm_stats v) \<lparr>
         total_mapped_bytes := of_nat (total_mapped_pages (vmm_stats v)) * PAGE_SIZE \<rparr> \<rparr>)
       (fold_opt (discover_entry cr mp m (page_table v)) [0..<512] v)"

text \<open>\<open>None\<close> is the panic of \<open>VirtAddr::new\<close>.\<close>

definition vmm_init :: "x86_crate \<Rightarrow> page_mapper \<Rightarrow> phys_bytes \<Rightarrow> u64 \<Rightarrow> VirtualMemoryManager option" where
  "vmm_init cr mp m cr3 = discover_existing_mappings cr mp m
     \<lparr> page_table = cr3, mapped_regions = [], vmm_stats = VmmStatistics_new, vmm_validation = True \<rparr>"

section \<open>Counting\<close>

definition count_pt :: "x86_crate \<Rightarrow> phys_bytes \<Rightarrow> u64 \<Rightarrow> nat \<Rightarrow> nat" where
  "count_pt cr m pt = fold (\<lambda>i1 n. if pte_present cr (pt_entry m pt i1) then n + 1 else n) [0..<512]"

definition count_pd :: "x86_crate \<Rightarrow> phys_bytes \<Rightarrow> u64 \<Rightarrow> nat \<Rightarrow> nat" where
  "count_pd cr m pd = fold (\<lambda>i2 n.
     let e = pt_entry m pd i2 in
     if \<not> pte_present cr e then n
     else if pte_huge cr e then n + 512
     else count_pt cr m (pte_addr cr e) n) [0..<512]"

definition count_pdp :: "x86_crate \<Rightarrow> phys_bytes \<Rightarrow> u64 \<Rightarrow> nat \<Rightarrow> nat" where
  "count_pdp cr m pdp = fold (\<lambda>i3 n.
     let e = pt_entry m pdp i3 in
     if \<not> pte_present cr e then n
     else if pte_huge cr e then n + 512 * 512
     else count_pd cr m (pte_addr cr e) n) [0..<512]"

definition count_entry :: "x86_crate \<Rightarrow> phys_bytes \<Rightarrow> u64 \<Rightarrow> nat \<Rightarrow> nat \<Rightarrow> nat" where
  "count_entry cr m pml4 i4 n =
     (let e = pt_entry m pml4 i4 in
      if \<not> pte_present cr e then n else count_pdp cr m (pte_addr cr e) n)"

definition count_mapped_pages :: "x86_crate \<Rightarrow> phys_bytes \<Rightarrow> VirtualMemoryManager \<Rightarrow> nat" where
  "count_mapped_pages cr m v = fold (count_entry cr m (page_table v)) [0..<512] 0"

definition vmm_validate :: "x86_crate \<Rightarrow> phys_bytes \<Rightarrow> VirtualMemoryManager \<Rightarrow> bool" where
  "vmm_validate cr m v \<longleftrightarrow> count_mapped_pages cr m v = total_mapped_pages (vmm_stats v)"

section \<open>Mapping\<close>

definition page_aligned :: "u64 \<Rightarrow> bool" where
  "page_aligned a \<longleftrightarrow> a AND (PAGE_SIZE - 1) = 0"

definition vmm_err :: "VmmError \<Rightarrow> 'a vmm_io" where
  "vmm_err e = io_err (Vmm e)"

definition track_page :: "u64 \<Rightarrow> u64 \<Rightarrow> u64 \<Rightarrow> string \<Rightarrow> VirtualMemoryManager \<Rightarrow> VirtualMemoryManager" where
  "track_page virt phys flags descr v = v \<lparr>
     mapped_regions := mapped_regions v @ [\<lparr> virtual_addr = virt, physical_addr = phys, mr_size = PAGE_SIZE, mr_flags = flags,
       description = descr \<rparr>],
     vmm_stats := (vmm_stats v) \<lparr> total_mapped_pages := total_mapped_pages (vmm_stats v) + 1,
       total_mapped_bytes := total_mapped_bytes (vmm_stats v) + PAGE_SIZE,
       map_count := map_count (vmm_stats v) + 1, tlb_flush_count := tlb_flush_count (vmm_stats v) + 1 \<rparr> \<rparr>"

definition map_page :: "page_mapper \<Rightarrow> u64 \<Rightarrow> u64 \<Rightarrow> u64 \<Rightarrow> unit vmm_io" where
  "map_page mp virt phys flags w =
     (if \<not> page_aligned virt \<or> \<not> page_aligned phys then vmm_err InvalidAddress w
      else case map_to_op mp (page_table (v_mgr w)) (page_of virt) (page_of phys) flags (v_mem w, v_pmm w) of
          (Inl e, m, g) \<Rightarrow>
            (Inl (Vmm (case e of FrameAllocationFailed \<Rightarrow> VmmOutOfMemory | MapParentHuge \<Rightarrow> ParentEntryHugePage
                | PageAlreadyMapped _ \<Rightarrow> AlreadyMapped)), w \<lparr> v_mem := m, v_pmm := g \<rparr>)
        | (Inr _, m, g) \<Rightarrow>
            (Inr (), w \<lparr> v_mem := m, v_pmm := g, v_mgr := track_page virt phys flags ''user mapped'' (v_mgr w) \<rparr>))"

definition region_has :: "u64 \<Rightarrow> MappedRegion \<Rightarrow> bool" where
  "region_has virt r \<longleftrightarrow> virtual_addr r \<le> virt \<and> virt < virtual_addr r + mr_size r"

definition untrack_page :: "u64 \<Rightarrow> VirtualMemoryManager \<Rightarrow> VirtualMemoryManager" where
  "untrack_page virt v = v \<lparr>
     mapped_regions := filter (\<lambda>r. \<not> region_has virt r) (mapped_regions v),
     vmm_stats := (vmm_stats v) \<lparr> total_mapped_pages := total_mapped_pages (vmm_stats v) - 1,
       total_mapped_bytes := saturating_sub (total_mapped_bytes (vmm_stats v)) PAGE_SIZE,
       unmap_count := unmap_count (vmm_stats v) + 1, tlb_flush_count := tlb_flush_count (vmm_stats v) + 1 \<rparr> \<rparr>"

definition unmap_page :: "page_mapper \<Rightarrow> u64 \<Rightarrow> u64 vmm_io" where
  "unmap_page mp virt w =
     (if \<not> page_aligned virt then vmm_err InvalidAddress w
      else case unmap_op mp (page_table (v_mgr w)) (page_of virt) (v_mem w) of
          (Inl e, m) \<Rightarrow>
            (Inl (Vmm (case e of PageNotMapped \<Rightarrow> NotMapped | UnmapParentHuge \<Rightarrow> ParentEntryHugePage
                | InvalidFrameAddress _ \<Rightarrow> UnmapFailed)), w \<lparr> v_mem := m \<rparr>)
        | (Inr frame, m) \<Rightarrow> (Inr frame, w \<lparr> v_mem := m, v_mgr := untrack_page virt (v_mgr w) \<rparr>))"

definition count_remap :: "VirtualMemoryManager \<Rightarrow> VirtualMemoryManager" where
  "count_remap v = v \<lparr> vmm_stats := (vmm_stats v) \<lparr> remap_count := remap_count (vmm_stats v) + 1 \<rparr> \<rparr>"

definition remap_page :: "page_mapper \<Rightarrow> u64 \<Rightarrow> u64 \<Rightarrow> u64 \<Rightarrow> u64 vmm_io" where
  "remap_page mp virt new_phys flags =
     io_bind (unmap_page mp virt) (\<lambda>old_phys.
     io_bind (map_page mp virt new_phys flags) (\<lambda>_.
     \<lambda>w. (Inr old_phys, w \<lparr> v_mgr := count_remap (v_mgr w) \<rparr>)))"

definition vmm_translate :: "page_mapper \<Rightarrow> u64 \<Rightarrow> vmm_world \<Rightarrow> u64 option" where
  "vmm_translate mp virt w = translate_addr mp (page_table (v_mgr w)) virt (v_mem w)"

definition map_region :: "x86_crate \<Rightarrow> page_mapper \<Rightarrow> u64 \<Rightarrow> u64 \<Rightarrow> nat \<Rightarrow> u64 \<Rightarrow> unit vmm_io" where
  "map_region cr mp virt phys count flags =
     (if \<not> page_aligned virt \<or> \<not> page_aligned phys then vmm_err InvalidAddress
      else io_for [0..<count] (\<lambda>i.
        case (virt_new cr (virt + of_nat i * PAGE_SIZE), phys_new cr (phys + of_nat i * PAGE_SIZE)) of
          (Some page_virt, Some page_phys) \<Rightarrow> map_page mp page_virt page_phys flags
        | _ \<Rightarrow> io_err Vmm_Panic))"

definition unmap_region :: "x86_crate \<Rightarrow> page_mapper \<Rightarrow> u64 \<Rightarrow> nat \<Rightarrow> unit vmm_io" where
  "unmap_region cr mp virt count =
     (if \<not> page_aligned virt then vmm_err InvalidAddress
      else io_for [0..<count] (\<lambda>i.
        case virt_new cr (virt + of_nat i * PAGE_SIZE) of
          Some page_virt \<Rightarrow> \<lambda>w. (Inr (), snd (unmap_page mp page_virt w))
        | None \<Rightarrow> io_err Vmm_Panic))"

definition identity_page :: "page_mapper \<Rightarrow> u64 \<Rightarrow> u64 \<Rightarrow> u64 \<Rightarrow> unit vmm_io" where
  "identity_page mp virt frame_phys flags w =
     (if vmm_translate mp virt w \<noteq> None then (Inr (), w)
      else case map_to_op mp (page_table (v_mgr w)) (page_of virt) (page_of frame_phys) flags (v_mem w, v_pmm w) of
          (Inr _, m, g) \<Rightarrow> (Inr (), w \<lparr> v_mem := m, v_pmm := g,
             v_mgr := track_page virt frame_phys flags ''identity map'' (v_mgr w) \<rparr>)
        | (Inl (PageAlreadyMapped _), m, g) \<Rightarrow> (Inr (), w \<lparr> v_mem := m, v_pmm := g \<rparr>)
        | (Inl FrameAllocationFailed, m, g) \<Rightarrow> (Inl (Vmm VmmOutOfMemory), w \<lparr> v_mem := m, v_pmm := g \<rparr>)
        | (Inl MapParentHuge, m, g) \<Rightarrow> (Inl (Vmm ParentEntryHugePage), w \<lparr> v_mem := m, v_pmm := g \<rparr>))"

definition identity_map :: "x86_crate \<Rightarrow> page_mapper \<Rightarrow> u64 \<Rightarrow> nat \<Rightarrow> u64 \<Rightarrow> unit vmm_io" where
  "identity_map cr mp phys count flags =
     (if \<not> page_aligned phys then vmm_err InvalidAddress
      else io_for [0..<count] (\<lambda>i.
        case phys_new cr (phys + of_nat i * PAGE_SIZE) of
          None \<Rightarrow> io_err Vmm_Panic
        | Some frame_phys \<Rightarrow>
            (case virt_new cr frame_phys of
               None \<Rightarrow> io_err Vmm_Panic
             | Some virt \<Rightarrow> identity_page mp virt frame_phys flags)))"

section \<open>The rest of the interface\<close>

definition flush_tlb :: "unit vmm_io" where
  "flush_tlb w = (let v = v_mgr w in
     (Inr (), w \<lparr> v_mgr := v \<lparr> vmm_stats := (vmm_stats v) \<lparr> tlb_flush_count := tlb_flush_count (vmm_stats v) + 1 \<rparr> \<rparr> \<rparr>))"

definition flush_tlb_page :: "u64 \<Rightarrow> unit vmm_io" where
  "flush_tlb_page virt = flush_tlb"

definition vmm_set_validation :: "bool \<Rightarrow> VirtualMemoryManager \<Rightarrow> VirtualMemoryManager" where
  "vmm_set_validation enabled v = v \<lparr> vmm_validation := enabled \<rparr>"

definition vmm_region_count :: "VirtualMemoryManager \<Rightarrow> nat" where
  "vmm_region_count v = length (mapped_regions v)"

definition is_mapped :: "page_mapper \<Rightarrow> u64 \<Rightarrow> vmm_world \<Rightarrow> bool" where
  "is_mapped mp virt w \<longleftrightarrow> vmm_translate mp virt w \<noteq> None"

definition get_mapping :: "u64 \<Rightarrow> VirtualMemoryManager \<Rightarrow> MappedRegion option" where
  "get_mapping virt v = find (region_has virt) (mapped_regions v)"

definition get_flags :: "page_mapper \<Rightarrow> u64 \<Rightarrow> vmm_world \<Rightarrow> u64 option" where
  "get_flags mp virt w = translate_flags mp (page_table (v_mgr w)) virt (v_mem w)"

section \<open>The two walks\<close>

lemma fold_adds: "(\<And>i n. f i n = n + c i) \<Longrightarrow> fold f is n = n + sum_list (map c is)" for c :: "'a \<Rightarrow> nat"
  by (induction "is" arbitrary: n) simp_all

definition pages_pt :: "x86_crate \<Rightarrow> phys_bytes \<Rightarrow> u64 \<Rightarrow> nat \<Rightarrow> nat" where
  "pages_pt cr m pt i1 = (if pte_present cr (pt_entry m pt i1) then 1 else 0)"

definition pages_pd :: "x86_crate \<Rightarrow> phys_bytes \<Rightarrow> u64 \<Rightarrow> nat \<Rightarrow> nat" where
  "pages_pd cr m pd i2 =
     (let e = pt_entry m pd i2 in
      if \<not> pte_present cr e then 0 else if pte_huge cr e then 512 else sum_list (map (pages_pt cr m (pte_addr cr e)) [0..<512]))"

definition pages_pdp :: "x86_crate \<Rightarrow> phys_bytes \<Rightarrow> u64 \<Rightarrow> nat \<Rightarrow> nat" where
  "pages_pdp cr m pdp i3 =
     (let e = pt_entry m pdp i3 in
      if \<not> pte_present cr e then 0 else if pte_huge cr e then 512 * 512
      else sum_list (map (pages_pd cr m (pte_addr cr e)) [0..<512]))"

definition pages_entry :: "x86_crate \<Rightarrow> phys_bytes \<Rightarrow> u64 \<Rightarrow> nat \<Rightarrow> nat" where
  "pages_entry cr m pml4 i4 =
     (let e = pt_entry m pml4 i4 in
      if \<not> pte_present cr e then 0 else sum_list (map (pages_pdp cr m (pte_addr cr e)) [0..<512]))"

lemma count_pt_sum: "count_pt cr m pt n = n + sum_list (map (pages_pt cr m pt) [0..<512])"
  unfolding count_pt_def by (rule fold_adds) (simp add: pages_pt_def)

lemma count_pd_sum: "count_pd cr m pd n = n + sum_list (map (pages_pd cr m pd) [0..<512])"
  unfolding count_pd_def by (rule fold_adds) (simp add: pages_pd_def Let_def count_pt_sum)

lemma count_pdp_sum: "count_pdp cr m pdp n = n + sum_list (map (pages_pdp cr m pdp) [0..<512])"
  unfolding count_pdp_def by (rule fold_adds) (simp add: pages_pdp_def Let_def count_pd_sum)

lemma count_entry_sum: "count_entry cr m pml4 i4 n = n + pages_entry cr m pml4 i4"
  by (simp add: count_entry_def pages_entry_def Let_def count_pdp_sum)

lemma count_mapped_sum: "count_mapped_pages cr m v = sum_list (map (pages_entry cr m (page_table v)) [0..<512])"
  unfolding count_mapped_pages_def by (subst fold_adds [OF count_entry_sum]) simp

text \<open>A step of the discovery that finds \<open>n\<close> pages.\<close>

definition region_bytes :: "VirtualMemoryManager \<Rightarrow> u64" where
  "region_bytes v = sum_list (map mr_size (mapped_regions v))"

definition found :: "VirtualMemoryManager \<Rightarrow> nat \<Rightarrow> VirtualMemoryManager \<Rightarrow> bool" where
  "found v n v' \<longleftrightarrow> page_table v' = page_table v \<and> total_mapped_pages (vmm_stats v') = total_mapped_pages (vmm_stats v) + n \<and>
     region_bytes v' = region_bytes v + of_nat n * PAGE_SIZE"

lemma found_none: "found v 0 v"
  by (simp add: found_def)

lemma found_trans: "found v n v' \<Longrightarrow> found v' k v'' \<Longrightarrow> found v (n + k) v''"
  by (simp add: found_def distrib_right)

lemma fold_opt_found:
  "(\<And>i v. i \<in> set is \<Longrightarrow> \<exists>v'. f i v = Some v' \<and> found v (c i) v') \<Longrightarrow>
     \<exists>v'. fold_opt f is v = Some v' \<and> found v (sum_list (map c is)) v'"
proof (induction "is" arbitrary: v)
  case (Cons i "is")
  obtain v1 where v1: "f i v = Some v1" "found v (c i) v1" using Cons.prems [of i v] by auto
  obtain v2 where "fold_opt f is v1 = Some v2" "found v1 (sum_list (map c is)) v2" using Cons.IH [of v1] Cons.prems by auto
  with v1 show ?case using found_trans [OF v1(2)] by auto
qed (simp add: found_none)

lemma fold_opt_panics:
  "(\<And>i v. i \<in> set is \<Longrightarrow> f i v = (if c i = 0 then Some v else None)) \<Longrightarrow>
     fold_opt f is v = (if sum_list (map c is) = 0 then Some v else None)" for c :: "'a \<Rightarrow> nat"
  by (induction "is" arbitrary: v) auto

lemma record_page_found:
  assumes "x86_law cr" and "canonical addr"
  shows "\<exists>v'. record_page cr mp addr e n descr v = Some v' \<and> found v n v'"
  using assms by (simp add: record_page_def x86_law_def found_def region_bytes_def)

lemma record_page_panics: "x86_law cr \<Longrightarrow> \<not> canonical addr \<Longrightarrow> record_page cr mp addr e n descr v = None"
  by (simp add: record_page_def x86_law_def)

lemma bit_index: "i < 512 \<Longrightarrow> bit (of_nat i :: u64) k \<Longrightarrow> k < 9"
proof (rule ccontr)
  assume i: "i < 512" "bit (of_nat i :: u64) k" "\<not> k < 9"
  then have "bit i k" by (simp add: bit_of_nat_iff)
  moreover have "i < 2 ^ k" using i(1,3) power_increasing [of 9 k "2 :: nat"] by simp
  ultimately show False by (simp add: bit_iff_odd)
qed

lemma index_addr_bits:
  assumes "i4 < 512" "i3 < 512" "i2 < 512" "i1 < 512"
  shows "48 \<le> k \<Longrightarrow> \<not> bit (index_addr i4 i3 i2 i1) k" and "bit (index_addr i4 i3 i2 i1) 47 \<longleftrightarrow> 256 \<le> i4"
proof -
  show "\<not> bit (index_addr i4 i3 i2 i1) k" if "48 \<le> k"
    using that bit_index [OF assms(1), of "k - 39"] bit_index [OF assms(2), of "k - 30"] bit_index [OF assms(3), of "k - 21"]
      bit_index [OF assms(4), of "k - 12"] by (auto simp: index_addr_def bit_or_iff bit_push_bit_iff)
  have "bit (index_addr i4 i3 i2 i1) 47 \<longleftrightarrow> bit (of_nat i4 :: u64) 8"
    using bit_index [OF assms(2), of 17] bit_index [OF assms(3), of 26] bit_index [OF assms(4), of 35]
    by (auto simp: index_addr_def bit_or_iff bit_push_bit_iff)
  also have "\<dots> \<longleftrightarrow> odd (i4 div 256)" by (simp add: bit_of_nat_iff) (simp add: bit_iff_odd)
  also have "\<dots> \<longleftrightarrow> 256 \<le> i4"
    using assms(1) div_nat_eqI [of 256 1 i4] by (cases "256 \<le> i4") simp_all
  finally show "bit (index_addr i4 i3 i2 i1) 47 \<longleftrightarrow> 256 \<le> i4" .
qed

lemma take_bit_self:
  "take_bit 48 a = a \<longleftrightarrow> a < 2 ^ 48" "take_bit 47 a = a \<longleftrightarrow> a < 2 ^ 47" for a :: u64
proof -
  have e: "take_bit n a = a \<longleftrightarrow> unat a < 2 ^ n" for n
    unfolding word_unat_eq_iff unsigned_take_bit_eq by (rule take_bit_nat_eq_self_iff)
  show "take_bit 48 a = a \<longleftrightarrow> a < 2 ^ 48" "take_bit 47 a = a \<longleftrightarrow> a < 2 ^ 47"
    unfolding e by (simp_all add: word_less_nat_alt)
qed

text \<open>The addresses are not sign extended, so those of the upper half are not canonical.\<close>

lemma canonical_index:
  assumes "i4 < 512" "i3 < 512" "i2 < 512" "i1 < 512"
  shows "canonical (index_addr i4 i3 i2 i1) \<longleftrightarrow> i4 < 256"
proof -
  let ?a = "index_addr i4 i3 i2 i1"
  have "bit (take_bit 48 ?a) n = bit ?a n" for n
    using index_addr_bits(1) [OF assms, of n] by (cases "48 \<le> n") (simp_all add: bit_take_bit_iff)
  then have "take_bit 48 ?a = ?a" by (intro bit_eqI) simp
  then have hi: "?a < 2 ^ 48" by (simp add: take_bit_self)
  have "take_bit 47 ?a = ?a \<longleftrightarrow> \<not> bit ?a 47"
  proof
    assume e: "take_bit 47 ?a = ?a"
    have "\<not> bit (take_bit 47 ?a) 47" by (simp add: bit_take_bit_iff)
    then show "\<not> bit ?a 47" unfolding e .
  next
    assume n: "\<not> bit ?a 47"
    have "bit (take_bit 47 ?a) k = bit ?a k" for k
      using n index_addr_bits(1) [OF assms, of k] by (cases "k = 47"; cases "48 \<le> k") (simp_all add: bit_take_bit_iff)
    then show "take_bit 47 ?a = ?a" by (intro bit_eqI) simp
  qed
  then have "?a < 2 ^ 47 \<longleftrightarrow> i4 < 256" using index_addr_bits(2) [OF assms] by (auto simp: take_bit_self)
  moreover have "\<not> 0xFFFF800000000000 \<le> ?a" using hi by (simp add: word_le_nat_alt word_less_nat_alt)
  ultimately show ?thesis by (simp add: canonical_def)
qed

text \<open>Below an entry of the lower half every page is recorded; below one of the upper half the
  first page panics.\<close>

lemma discover_pt_walk:
  assumes "x86_law cr" "i4 < 512" "i3 < 512" "i2 < 512"
  shows "i4 < 256 \<Longrightarrow> \<exists>v'. discover_pt cr mp m i4 i3 i2 pt v = Some v' \<and> found v (sum_list (map (pages_pt cr m pt) [0..<512])) v'"
    and "256 \<le> i4 \<Longrightarrow> discover_pt cr mp m i4 i3 i2 pt v = (if sum_list (map (pages_pt cr m pt) [0..<512]) = 0 then Some v else None)"
  unfolding discover_pt_def using assms canonical_index [OF assms(2-4)]
  by (intro fold_opt_found fold_opt_panics; auto simp: pages_pt_def Let_def found_none record_page_found record_page_panics)+

lemma discover_pd_walk:
  assumes "x86_law cr" "i4 < 512" "i3 < 512"
  shows "i4 < 256 \<Longrightarrow> \<exists>v'. discover_pd cr mp m i4 i3 pd v = Some v' \<and> found v (sum_list (map (pages_pd cr m pd) [0..<512])) v'"
    and "256 \<le> i4 \<Longrightarrow> discover_pd cr mp m i4 i3 pd v = (if sum_list (map (pages_pd cr m pd) [0..<512]) = 0 then Some v else None)"
  unfolding discover_pd_def using assms canonical_index [OF assms(2,3)] discover_pt_walk [OF assms]
  by (intro fold_opt_found fold_opt_panics; auto simp: pages_pd_def Let_def found_none record_page_found record_page_panics
      simp del: upt_rec_numeral)+

lemma discover_pdp_walk:
  assumes "x86_law cr" "i4 < 512"
  shows "i4 < 256 \<Longrightarrow> \<exists>v'. discover_pdp cr mp m i4 pdp v = Some v' \<and> found v (sum_list (map (pages_pdp cr m pdp) [0..<512])) v'"
    and "256 \<le> i4 \<Longrightarrow> discover_pdp cr mp m i4 pdp v = (if sum_list (map (pages_pdp cr m pdp) [0..<512]) = 0 then Some v else None)"
  unfolding discover_pdp_def using assms canonical_index [OF assms(2)] discover_pd_walk [OF assms]
  by (intro fold_opt_found fold_opt_panics; auto simp: pages_pdp_def Let_def found_none record_page_found record_page_panics)+

end
