(* ===== verification/Vmm_Laws.thy ===== *)
theory Vmm_Laws
  imports Vmm
begin

text \<open>
  What the virtual memory manager relies on and keeps. The set of mapped pages is read off
  the tables; both walks of the manager count it. The locale states the documented behaviour
  of the mapper of the \<open>x86_64\<close> crate in terms of this set and of address translation, on
  the tables it supports (\<open>pt_wf\<close>), and the invariant of the manager is proved in it.
\<close>

section \<open>Mapped pages\<close>

definition page_leaf :: "x86_crate \<Rightarrow> phys_bytes \<Rightarrow> u64 \<Rightarrow> nat \<Rightarrow> nat \<Rightarrow> nat \<Rightarrow> nat \<Rightarrow> bool" where
  "page_leaf cr m root i4 i3 i2 i1 \<longleftrightarrow>
     (let e4 = pt_entry m root i4; e3 = pt_entry m (pte_addr cr e4) i3; e2 = pt_entry m (pte_addr cr e3) i2;
          e1 = pt_entry m (pte_addr cr e2) i1 in
      pte_present cr e4 \<and> pte_present cr e3 \<and>
      (pte_huge cr e3 \<or> pte_present cr e2 \<and> (pte_huge cr e2 \<or> pte_present cr e1)))"

definition mapped_pages :: "x86_crate \<Rightarrow> phys_bytes \<Rightarrow> u64 \<Rightarrow> (nat \<times> nat \<times> nat \<times> nat) set" where
  "mapped_pages cr m root = {(i4, i3, i2, i1). i4 < 512 \<and> i3 < 512 \<and> i2 < 512 \<and> i1 < 512 \<and> page_leaf cr m root i4 i3 i2 i1}"

lemma sum_list_upto: "sum_list (map f [0..<n]) = (\<Sum>i<n. f i)" for f :: "nat \<Rightarrow> nat"
  by (induction n) simp_all

lemma pages_entry_sum:
  "pages_entry cr m root i4 = (\<Sum>i3<512. \<Sum>i2<512. \<Sum>i1<512. of_bool (page_leaf cr m root i4 i3 i2 i1))"
proof -
  have pt: "pages_pt cr m t i1 = of_bool (pte_present cr (pt_entry m t i1))" for t i1
    by (simp add: pages_pt_def)
  have pd: "pages_pd cr m t i2 = (let e2 = pt_entry m t i2 in
      \<Sum>i1<512. of_bool (pte_present cr e2 \<and> (pte_huge cr e2 \<or> pte_present cr (pt_entry m (pte_addr cr e2) i1))))" for t i2
    by (simp add: pages_pd_def sum_list_upto pt Let_def)
  have pdp: "pages_pdp cr m t i3 = (let e3 = pt_entry m t i3 in
      \<Sum>i2<512. let e2 = pt_entry m (pte_addr cr e3) i2 in \<Sum>i1<512. of_bool (pte_present cr e3 \<and>
        (pte_huge cr e3 \<or> pte_present cr e2 \<and> (pte_huge cr e2 \<or> pte_present cr (pt_entry m (pte_addr cr e2) i1)))))" for t i3
    by (simp add: pages_pdp_def sum_list_upto pd Let_def)
  show ?thesis by (simp add: pages_entry_def sum_list_upto pdp page_leaf_def Let_def)
qed

lemma finite_mapped_pages: "finite (mapped_pages cr m root)"
  by (rule finite_subset [of _ "{..<512} \<times> {..<512} \<times> {..<512} \<times> {..<512}"]) (auto simp: mapped_pages_def)

lemma count_is_card: "count_mapped_pages cr m v = card (mapped_pages cr m (page_table v))"
proof -
  let ?r = "page_table v" and ?I = "{..<512} :: nat set"
  have "count_mapped_pages cr m v = (\<Sum>i4<512. \<Sum>i3<512. \<Sum>i2<512. \<Sum>i1<512. of_bool (page_leaf cr m ?r i4 i3 i2 i1))"
    by (simp add: count_mapped_sum sum_list_upto pages_entry_sum)
  also have "\<dots> = (\<Sum>(i4, i3, i2, i1)\<in>?I \<times> ?I \<times> ?I \<times> ?I. of_bool (page_leaf cr m ?r i4 i3 i2 i1))"
    by (simp only: sum.cartesian_product)
  also have "\<dots> = (\<Sum>x\<in>?I \<times> ?I \<times> ?I \<times> ?I. of_bool (x \<in> mapped_pages cr m ?r))"
    by (intro sum.cong) (auto simp: mapped_pages_def)
  also have "\<dots> = card ((?I \<times> ?I \<times> ?I \<times> ?I) \<inter> mapped_pages cr m ?r)"
    by (subst sum_of_bool_eq) (auto simp: Int_def)
  also have "(?I \<times> ?I \<times> ?I \<times> ?I) \<inter> mapped_pages cr m ?r = mapped_pages cr m ?r"
    by (auto simp: mapped_pages_def)
  finally show ?thesis .
qed

definition page_index :: "x86_crate \<Rightarrow> u64 \<Rightarrow> nat \<times> nat \<times> nat \<times> nat" where
  "page_index cr a = (p4_index cr a, p3_index cr a, p2_index cr a, p1_index cr a)"

definition flags_ok :: "u64 \<Rightarrow> bool" where
  "flags_ok flags \<longleftrightarrow> bit flags 0 \<and> flags AND 0x000FFFFFFFFFF000 = 0"

definition page_addr :: "u64 \<Rightarrow> bool" where
  "page_addr a \<longleftrightarrow> page_aligned a \<and> canonical a"

definition frame_addr :: "u64 \<Rightarrow> bool" where
  "frame_addr a \<longleftrightarrow> page_aligned a \<and> a < 2 ^ 52"

lemma page_of_aligned: "page_aligned a \<Longrightarrow> page_of a = a"
proof -
  assume a: "page_aligned a"
  have "a = (a AND 0xFFF) OR (a AND NOT 0xFFF)" by (simp add: bit.conj_disj_distrib [symmetric])
  with a show "page_of a = a" by (simp add: page_aligned_def page_of_def PAGE_SIZE_def)
qed

lemma page_aligned_iff: "page_aligned a \<longleftrightarrow> 4096 dvd unat a"
proof -
  have k: "PAGE_SIZE - 1 = (mask 12 :: u64)" by (simp add: PAGE_SIZE_def mask_eq_exp_minus_1)
  show ?thesis
    unfolding page_aligned_def k take_bit_eq_mask [symmetric] word_unat_eq_iff unsigned_take_bit_eq take_bit_eq_mod
    by (simp add: dvd_eq_mod_eq_0 unat_mod)
qed

lemma page_aligned_next: "page_aligned a \<Longrightarrow> page_aligned (a + of_nat i * PAGE_SIZE)"
proof -
  have k: "(4096 :: nat) dvd 2 ^ LENGTH(64)" by simp
  have "4096 dvd unat (of_nat i * PAGE_SIZE)"
    unfolding unat_word_ariths(2) by (rule dvd_mod [OF _ k]) (simp add: PAGE_SIZE_def)
  then show "page_aligned a \<Longrightarrow> page_aligned (a + of_nat i * PAGE_SIZE)"
    unfolding page_aligned_iff unat_word_ariths(1) by (intro dvd_mod [OF _ k] dvd_add)
qed

section \<open>The mapper\<close>

locale paging =
  fixes cr :: x86_crate and mp :: page_mapper and pt_wf :: "u64 \<Rightarrow> phys_bytes \<times> pmm_global \<Rightarrow> bool"
  assumes law: "x86_law cr"
    and map_ok: "pt_wf root (m, g) \<Longrightarrow> page_addr page \<Longrightarrow> frame_addr frame \<Longrightarrow> flags_ok flags \<Longrightarrow>
      map_to_op mp root page frame flags (m, g) = (Inr u, m', g') \<Longrightarrow>
      pt_wf root (m', g') \<and> page_index cr page \<notin> mapped_pages cr m root \<and>
      mapped_pages cr m' root = insert (page_index cr page) (mapped_pages cr m root)"
    and map_translate: "pt_wf root (m, g) \<Longrightarrow> page_addr page \<Longrightarrow> frame_addr frame \<Longrightarrow> flags_ok flags \<Longrightarrow>
      map_to_op mp root page frame flags (m, g) = (Inr u, m', g') \<Longrightarrow> canonical a \<Longrightarrow>
      translate_addr mp root a m' = (if page_of a = page then Some (frame + (a AND 0xFFF)) else translate_addr mp root a m)"
    and map_fails: "pt_wf root (m, g) \<Longrightarrow> page_addr page \<Longrightarrow> map_to_op mp root page frame flags (m, g) = (Inl e, m', g') \<Longrightarrow>
      pt_wf root (m', g') \<and> mapped_pages cr m' root = mapped_pages cr m root \<and>
      (canonical a \<longrightarrow> translate_addr mp root a m' = translate_addr mp root a m)"
    and unmap_ok: "pt_wf root (m, g) \<Longrightarrow> page_addr page \<Longrightarrow> unmap_op mp root page m = (Inr frame, m') \<Longrightarrow>
      pt_wf root (m', g) \<and> page_index cr page \<in> mapped_pages cr m root \<and>
      mapped_pages cr m' root = mapped_pages cr m root - {page_index cr page}"
    and unmap_translate: "pt_wf root (m, g) \<Longrightarrow> page_addr page \<Longrightarrow> unmap_op mp root page m = (Inr frame, m') \<Longrightarrow> canonical a \<Longrightarrow>
      translate_addr mp root page m = Some frame \<and>
      translate_addr mp root a m' = (if page_of a = page then None else translate_addr mp root a m)"
    and unmap_fails: "pt_wf root (m, g) \<Longrightarrow> page_addr page \<Longrightarrow> unmap_op mp root page m = (Inl ue, m') \<Longrightarrow>
      pt_wf root (m', g) \<and> mapped_pages cr m' root = mapped_pages cr m root"
begin

text \<open>The counters agree with the tables.\<close>

definition consistent :: "vmm_world \<Rightarrow> bool" where
  "consistent w \<longleftrightarrow> pt_wf (page_table (v_mgr w)) (v_mem w, v_pmm w) \<and> vmm_validate cr (v_mem w) (v_mgr w) \<and>
     total_mapped_bytes (vmm_stats (v_mgr w)) = of_nat (total_mapped_pages (vmm_stats (v_mgr w))) * PAGE_SIZE"

lemma consistent_track:
  assumes "consistent w" and "page_addr virt" "frame_addr phys" "flags_ok flags"
    and "map_to_op mp (page_table (v_mgr w)) virt phys flags (v_mem w, v_pmm w) = (Inr u, m', g')"
  shows "consistent (w \<lparr> v_mem := m', v_pmm := g', v_mgr := track_page virt phys flags descr (v_mgr w) \<rparr>)"
  using assms(1) map_ok [OF _ assms(2-5)] finite_mapped_pages
  by (auto simp: consistent_def vmm_validate_def count_is_card track_page_def distrib_right)

lemma consistent_kept:
  "consistent w \<Longrightarrow> pt_wf (page_table (v_mgr w)) (m', g') \<Longrightarrow> mapped_pages cr m' (page_table (v_mgr w)) =
     mapped_pages cr (v_mem w) (page_table (v_mgr w)) \<Longrightarrow> consistent (w \<lparr> v_mem := m', v_pmm := g' \<rparr>)"
  by (simp add: consistent_def vmm_validate_def count_is_card)

lemma consistent_untrack:
  assumes "consistent w" and "page_addr virt" and "unmap_op mp (page_table (v_mgr w)) virt (v_mem w) = (Inr frame, m')"
  shows "consistent (w \<lparr> v_mem := m', v_mgr := untrack_page virt (v_mgr w) \<rparr>)"
proof -
  let ?r = "page_table (v_mgr w)" and ?s = "vmm_stats (v_mgr w)"
  have u: "pt_wf ?r (m', v_pmm w)" "page_index cr virt \<in> mapped_pages cr (v_mem w) ?r"
      "mapped_pages cr m' ?r = mapped_pages cr (v_mem w) ?r - {page_index cr virt}"
    using unmap_ok [OF _ assms(2,3)] assms(1) by (auto simp: consistent_def)
  have tp: "total_mapped_pages ?s = card (mapped_pages cr (v_mem w) ?r)"
    using assms(1) by (simp add: consistent_def vmm_validate_def count_is_card)
  have c: "card (mapped_pages cr m' ?r) = total_mapped_pages ?s - 1" unfolding u(3) tp by (rule card_Diff_singleton [OF u(2)])
  have pos: "0 < total_mapped_pages ?s" unfolding tp card_gt_0_iff using u(2) finite_mapped_pages by blast
  have "card (mapped_pages cr (v_mem w) ?r) \<le> card ({..<512} \<times> {..<512} \<times> {..<512} \<times> {..<512} :: (nat \<times> nat \<times> nat \<times> nat) set)"
    by (rule card_mono) (auto simp: mapped_pages_def)
  then have "total_mapped_pages ?s \<le> 2 ^ 36" unfolding tp by simp
  then have b: "unat (of_nat (total_mapped_pages ?s) * PAGE_SIZE) = total_mapped_pages ?s * 4096"
    by (simp add: PAGE_SIZE_def unat_word_ariths unat_of_nat)
  have "unat PAGE_SIZE = 4096" by (simp add: PAGE_SIZE_def)
  then have "\<not> of_nat (total_mapped_pages ?s) * PAGE_SIZE < PAGE_SIZE" unfolding word_less_nat_alt b using pos by simp
  then have "saturating_sub (of_nat (total_mapped_pages ?s) * PAGE_SIZE) PAGE_SIZE = of_nat (total_mapped_pages ?s - 1) * PAGE_SIZE"
    using pos by (simp add: saturating_sub_def of_nat_diff left_diff_distrib del: not_less)
  then show ?thesis
    using assms(1) u(1) c by (simp add: consistent_def vmm_validate_def count_is_card untrack_page_def)
qed

text \<open>Every operation keeps the agreement, whatever it returns.\<close>

definition stable :: "'a vmm_io \<Rightarrow> bool" where
  "stable f \<longleftrightarrow> (\<forall>w. consistent w \<longrightarrow> consistent (snd (f w)))"

lemma stable_err: "stable (io_err e)" and stable_vmm_err: "stable (vmm_err e')"
  by (simp_all add: stable_def vmm_err_def io_err_def)

lemma stable_bind: "stable f \<Longrightarrow> (\<And>x. stable (h x)) \<Longrightarrow> stable (io_bind f h)"
  unfolding stable_def
proof (intro allI impI)
  fix w assume f: "\<forall>w. consistent w \<longrightarrow> consistent (snd (f w))" and h: "\<And>x. \<forall>w. consistent w \<longrightarrow> consistent (snd (h x w))"
    and w: "consistent w"
  obtain r w' where r: "f w = (r, w')" by fastforce
  then have "consistent w'" using f w by (metis snd_conv)
  with h r show "consistent (snd (io_bind f h w))" by (cases r) simp_all
qed

lemma stable_for: "(\<And>x. stable (h x)) \<Longrightarrow> stable (io_for xs h)"
proof (induction xs)
  case Nil
  then show ?case by (simp add: stable_def)
next
  case (Cons x xs)
  then show ?case by (simp add: stable_bind)
qed

lemma stable_map_page:
  assumes "canonical virt" and "phys < 2 ^ 52" and "flags_ok flags"
  shows "stable (map_page mp virt phys flags)"
  unfolding stable_def
proof (intro allI impI)
  fix w assume w: "consistent w"
  show "consistent (snd (map_page mp virt phys flags w))"
  proof (cases "page_aligned virt \<and> page_aligned phys")
    case True
    then have a: "page_addr virt" "frame_addr phys" using assms by (simp_all add: page_addr_def frame_addr_def)
    obtain r m' g' where r: "map_to_op mp (page_table (v_mgr w)) virt phys flags (v_mem w, v_pmm w) = (r, m', g')"
      using prod_cases3 by blast
    show ?thesis
    proof (cases r)
      case (Inl e)
      with r w True show ?thesis
        using map_fails [OF _ a(1)] by (auto simp: map_page_def page_of_aligned intro!: consistent_kept) (auto simp: consistent_def)
    next
      case (Inr u)
      with r True show ?thesis
        using consistent_track [OF w a assms(3)] by (simp add: map_page_def page_of_aligned)
    qed
  next
    case False
    with w show ?thesis by (auto simp: map_page_def vmm_err_def io_err_def)
  qed
qed

lemma stable_unmap_page:
  assumes "canonical virt"
  shows "stable (unmap_page mp virt)"
  unfolding stable_def
proof (intro allI impI)
  fix w assume w: "consistent w"
  show "consistent (snd (unmap_page mp virt w))"
  proof (cases "page_aligned virt")
    case True
    then have a: "page_addr virt" using assms by (simp add: page_addr_def)
    obtain r m' where r: "unmap_op mp (page_table (v_mgr w)) virt (v_mem w) = (r, m')" by fastforce
    show ?thesis
    proof (cases r)
      case (Inl e)
      have "pt_wf (page_table (v_mgr w)) (v_mem w, v_pmm w)" using w by (simp add: consistent_def)
      with Inl r w True show ?thesis
        using unmap_fails [OF _ a] consistent_kept [OF w, of m' "v_pmm w"] by (auto simp: unmap_page_def page_of_aligned)
    next
      case (Inr u)
      with r True show ?thesis
        using consistent_untrack [OF w a] by (simp add: unmap_page_def page_of_aligned)
    qed
  next
    case False
    with w show ?thesis by (simp add: unmap_page_def vmm_err_def io_err_def)
  qed
qed

lemma stable_mgr: "(\<And>v. page_table (f v) = page_table v \<and> total_mapped_pages (vmm_stats (f v)) = total_mapped_pages (vmm_stats v) \<and>
    total_mapped_bytes (vmm_stats (f v)) = total_mapped_bytes (vmm_stats v)) \<Longrightarrow> stable (\<lambda>w. (r, w \<lparr> v_mgr := f (v_mgr w) \<rparr>))"
  by (simp add: stable_def consistent_def vmm_validate_def count_is_card)

lemma stable_remap_page:
  assumes "canonical virt" and "new_phys < 2 ^ 52" and "flags_ok flags"
  shows "stable (remap_page mp virt new_phys flags)"
  unfolding remap_page_def
  by (intro stable_bind stable_unmap_page stable_map_page assms stable_mgr) (simp add: count_remap_def)

lemma new_addresses: "virt_new cr a = Some v \<Longrightarrow> v = a \<and> canonical v" "phys_new cr a = Some p \<Longrightarrow> p = a \<and> p < 2 ^ 52"
  using law by (auto simp: x86_law_def phys_addr_law_def split: if_splits)

lemma stable_map_region: "flags_ok flags \<Longrightarrow> stable (map_region cr mp virt phys count flags)"
  unfolding map_region_def
  by (auto intro!: stable_for stable_err stable_vmm_err stable_map_page dest: new_addresses split: option.split)

lemma stable_unmap_region: "stable (unmap_region cr mp virt count)"
proof -
  have "stable (\<lambda>w. (Inr (), snd (unmap_page mp a w)))" if "canonical a" for a
    using stable_unmap_page [OF that] by (simp add: stable_def)
  with new_addresses(1) show ?thesis unfolding unmap_region_def
    by (auto intro!: stable_for stable_err stable_vmm_err split: option.split)
qed

lemma stable_identity_page:
  assumes "page_addr a" and "frame_addr a" and "flags_ok flags"
  shows "stable (identity_page mp a a flags)"
  unfolding stable_def
proof (intro allI impI)
  fix w assume w: "consistent w"
  have pa: "page_of a = a" using assms(1) by (simp add: page_addr_def page_of_aligned)
  have wf: "pt_wf (page_table (v_mgr w)) (v_mem w, v_pmm w)" using w by (simp add: consistent_def)
  obtain r m' g' where r: "map_to_op mp (page_table (v_mgr w)) a a flags (v_mem w, v_pmm w) = (r, m', g')"
    using prod_cases3 by blast
  show "consistent (snd (identity_page mp a a flags w))"
  proof (cases r)
    case (Inl e)
    then have "consistent (w \<lparr> v_mem := m', v_pmm := g' \<rparr>)"
      using r map_fails [OF wf assms(1)] by (intro consistent_kept [OF w]) auto
    with Inl r w show ?thesis by (cases e) (simp_all add: identity_page_def pa)
  next
    case (Inr u)
    with r w show ?thesis using consistent_track [OF w assms] by (simp add: identity_page_def pa)
  qed
qed

lemma stable_identity_map:
  assumes "flags_ok flags"
  shows "stable (identity_map cr mp phys count flags)"
proof (cases "page_aligned phys")
  case True
  have "stable (identity_page mp v f flags)"
    if "phys_new cr (phys + of_nat i * PAGE_SIZE) = Some f" "virt_new cr f = Some v" for f v i
    using new_addresses(2) [OF that(1)] new_addresses(1) [OF that(2)] page_aligned_next [OF True, of i]
    by (auto intro!: stable_identity_page assms simp: page_addr_def frame_addr_def)
  with True show ?thesis unfolding identity_map_def
    by (auto intro!: stable_for stable_err split: option.split)
qed (simp add: identity_map_def stable_vmm_err)

lemma stable_flush: "stable flush_tlb"
  unfolding flush_tlb_def [abs_def] Let_def by (rule stable_mgr) simp

text \<open>What the operations do to the translation of addresses.\<close>

lemma map_page_translate:
  assumes "pt_wf (page_table (v_mgr w)) (v_mem w, v_pmm w)" and "canonical virt" "phys < 2 ^ 52" "flags_ok flags"
    and "map_page mp virt phys flags w = (Inr u, w')" and "canonical a"
  shows "vmm_translate mp a w' = (if page_of a = virt then Some (phys + (a AND 0xFFF)) else vmm_translate mp a w)"
    and "pt_wf (page_table (v_mgr w')) (v_mem w', v_pmm w')"
proof -
  have al: "page_aligned virt" "page_aligned phys"
    using assms(5) by (auto simp: map_page_def vmm_err_def io_err_def split: if_splits)
  then have pa: "page_addr virt" "frame_addr phys" using assms(2,3) by (simp_all add: page_addr_def frame_addr_def)
  obtain m' g' where r: "map_to_op mp (page_table (v_mgr w)) virt phys flags (v_mem w, v_pmm w) = (Inr (), m', g')"
      "w' = w \<lparr> v_mem := m', v_pmm := g', v_mgr := track_page virt phys flags ''user mapped'' (v_mgr w) \<rparr>"
    using assms(5) al by (auto simp: map_page_def page_of_aligned split: prod.splits sum.splits)
  show "vmm_translate mp a w' = (if page_of a = virt then Some (phys + (a AND 0xFFF)) else vmm_translate mp a w)"
    using map_translate [OF assms(1) pa assms(4) r(1) assms(6)] r(2) by (simp add: vmm_translate_def track_page_def)
  show "pt_wf (page_table (v_mgr w')) (v_mem w', v_pmm w')"
    using map_ok [OF assms(1) pa assms(4) r(1)] r(2) by (simp add: track_page_def)
qed

lemma map_page_fails_translate:
  assumes "pt_wf (page_table (v_mgr w)) (v_mem w, v_pmm w)" and "canonical virt"
    and "map_page mp virt phys flags w = (Inl e, w')" and "canonical a"
  shows "vmm_translate mp a w' = vmm_translate mp a w"
proof (cases "page_aligned virt \<and> page_aligned phys")
  case True
  then have pa: "page_addr virt" using assms(2) by (simp add: page_addr_def)
  obtain e' m' g' where "map_to_op mp (page_table (v_mgr w)) virt phys flags (v_mem w, v_pmm w) = (Inl e', m', g')"
      "w' = w \<lparr> v_mem := m', v_pmm := g' \<rparr>"
    using assms(3) True by (auto simp: map_page_def page_of_aligned split: prod.splits sum.splits)
  with map_fails [OF assms(1) pa, of phys flags e' m' g' a] assms(4) show ?thesis by (simp add: vmm_translate_def)
next
  case False
  with assms(3) show ?thesis by (auto simp: map_page_def vmm_err_def io_err_def split: if_splits)
qed

lemma unmap_page_translate:
  assumes "pt_wf (page_table (v_mgr w)) (v_mem w, v_pmm w)" and "canonical virt"
    and "unmap_page mp virt w = (Inr frame, w')" and "canonical a"
  shows "vmm_translate mp virt w = Some frame"
    and "vmm_translate mp a w' = (if page_of a = virt then None else vmm_translate mp a w)"
    and "pt_wf (page_table (v_mgr w')) (v_mem w', v_pmm w')" and "page_aligned virt"
proof -
  show al: "page_aligned virt"
    using assms(3) by (auto simp: unmap_page_def vmm_err_def io_err_def split: if_splits)
  then have pa: "page_addr virt" using assms(2) by (simp add: page_addr_def)
  obtain m' where r: "unmap_op mp (page_table (v_mgr w)) virt (v_mem w) = (Inr frame, m')"
      "w' = w \<lparr> v_mem := m', v_mgr := untrack_page virt (v_mgr w) \<rparr>"
    using assms(3) al by (auto simp: unmap_page_def page_of_aligned split: prod.splits sum.splits)
  show "vmm_translate mp virt w = Some frame"
    "vmm_translate mp a w' = (if page_of a = virt then None else vmm_translate mp a w)"
    using unmap_translate [OF assms(1) pa r(1) assms(4)] r(2) by (simp_all add: vmm_translate_def untrack_page_def)
  show "pt_wf (page_table (v_mgr w')) (v_mem w', v_pmm w')"
    using unmap_ok [OF assms(1) pa r(1)] r(2) by (simp add: untrack_page_def)
qed

end

end
