(* ===== verification/Vmm_Properties.thy ===== *)
theory Vmm_Properties
  imports Vmm_Laws
begin

text \<open>
  Properties of the virtual memory manager: what initialisation finds, the agreement of its
  counters with the tables after every sequence of operations, and remapping. A mapper over a
  single page table interprets the locale.
\<close>

section \<open>Initialisation\<close>

lemma discover_entry_walk:
  assumes "x86_law cr" "i4 < 512"
  shows "i4 < 256 \<Longrightarrow> \<exists>v'. discover_entry cr mp m root i4 v = Some v' \<and> found v (pages_entry cr m root i4) v'"
    and "256 \<le> i4 \<Longrightarrow> discover_entry cr mp m root i4 v = (if pages_entry cr m root i4 = 0 then Some v else None)"
  using discover_pdp_walk [OF assms]
  by (auto simp: discover_entry_def pages_entry_def Let_def found_none simp del: sum_list_eq_0_iff upt_rec_numeral)

lemma fold_opt_append: "fold_opt f (xs @ ys) s = (case fold_opt f xs s of None \<Rightarrow> None | Some s' \<Rightarrow> fold_opt f ys s')"
  by (induction xs arbitrary: s) (simp_all split: option.split)

lemma discover_all:
  assumes "x86_law cr"
  obtains v' where "found v (sum_list (map (pages_entry cr m root) [0..<256])) v'"
    and "fold_opt (discover_entry cr mp m root) [0..<512] v =
      (if sum_list (map (pages_entry cr m root) [256..<512]) = 0 then Some v' else None)"
proof -
  have u: "[0..<512] = [0..<256] @ [256..<512]" using upt_add_eq_append [of 0 256 256] by (simp del: upt_rec_numeral)
  obtain v' where v: "fold_opt (discover_entry cr mp m root) [0..<256] v = Some v'"
      "found v (sum_list (map (pages_entry cr m root) [0..<256])) v'"
    using fold_opt_found [of "[0..<256]" "discover_entry cr mp m root" "pages_entry cr m root" v]
      discover_entry_walk(1) [OF assms] by (auto simp del: upt_rec_numeral)
  have "fold_opt (discover_entry cr mp m root) [256..<512] v' =
      (if sum_list (map (pages_entry cr m root) [256..<512]) = 0 then Some v' else None)"
    using discover_entry_walk(2) [OF assms] by (intro fold_opt_panics) (auto simp del: upt_rec_numeral)
  with v show thesis by (intro that [OF v(2)]) (simp add: u fold_opt_append del: upt_rec_numeral)
qed

lemma vmm_init_eq:
  assumes "x86_law cr"
  obtains v' where "page_table v' = cr3" "total_mapped_pages (vmm_stats v') = sum_list (map (pages_entry cr m cr3) [0..<256])"
    and "region_bytes v' = of_nat (total_mapped_pages (vmm_stats v')) * PAGE_SIZE"
    and "vmm_init cr mp m cr3 = (if sum_list (map (pages_entry cr m cr3) [256..<512]) = 0 then Some (v' \<lparr> vmm_stats := (vmm_stats v') \<lparr>
         total_mapped_bytes := of_nat (total_mapped_pages (vmm_stats v')) * PAGE_SIZE \<rparr> \<rparr>) else None)"
proof -
  let ?v0 = "\<lparr> page_table = cr3, mapped_regions = [], vmm_stats = VmmStatistics_new, vmm_validation = True \<rparr>"
  obtain v' where v: "found ?v0 (sum_list (map (pages_entry cr m cr3) [0..<256])) v'"
      "fold_opt (discover_entry cr mp m cr3) [0..<512] ?v0 =
        (if sum_list (map (pages_entry cr m cr3) [256..<512]) = 0 then Some v' else None)"
    by (rule discover_all [OF assms])
  show thesis
    by (rule that [of v']) (use v in \<open>simp_all add: found_def VmmStatistics_new_def region_bytes_def vmm_init_def
      discover_existing_mappings_def del: upt_rec_numeral sum_list_eq_0_iff\<close>)
qed

lemma vmm_init_Some:
  assumes "x86_law cr" and "vmm_init cr mp m cr3 = Some v"
  shows "page_table v = cr3 \<and> vmm_validate cr m v \<and>
    total_mapped_bytes (vmm_stats v) = of_nat (total_mapped_pages (vmm_stats v)) * PAGE_SIZE \<and>
    region_bytes v = total_mapped_bytes (vmm_stats v)"
proof -
  let ?hi = "sum_list (map (pages_entry cr m cr3) [256..<512])"
  obtain v' where v: "page_table v' = cr3" "total_mapped_pages (vmm_stats v') = sum_list (map (pages_entry cr m cr3) [0..<256])"
      "region_bytes v' = of_nat (total_mapped_pages (vmm_stats v')) * PAGE_SIZE"
      "vmm_init cr mp m cr3 = (if ?hi = 0 then Some (v' \<lparr> vmm_stats := (vmm_stats v') \<lparr>
         total_mapped_bytes := of_nat (total_mapped_pages (vmm_stats v')) * PAGE_SIZE \<rparr> \<rparr>) else None)"
    by (rule vmm_init_eq [OF assms(1), of cr3 m mp])
  have h: "?hi = 0" and e: "v = v' \<lparr> vmm_stats := (vmm_stats v') \<lparr>
      total_mapped_bytes := of_nat (total_mapped_pages (vmm_stats v')) * PAGE_SIZE \<rparr> \<rparr>"
    using v(4) unfolding assms(2) by (simp_all split: if_split_asm del: upt_rec_numeral sum_list_eq_0_iff)
  have "[0..<512] = [0..<256] @ [256..<512]" using upt_add_eq_append [of 0 256 256] by (simp del: upt_rec_numeral)
  then have "count_mapped_pages cr m v = total_mapped_pages (vmm_stats v')"
    using h by (simp only: count_mapped_sum map_append sum_list_append v(2)) (simp add: e v(1) del: upt_rec_numeral)
  then show ?thesis using v(1,3) by (simp add: e vmm_validate_def region_bytes_def)
qed

lemma vmm_init_None:
  assumes "x86_law cr"
  shows "vmm_init cr mp m cr3 = None \<longleftrightarrow> (\<exists>i4. 256 \<le> i4 \<and> i4 < 512 \<and> 0 < count_entry cr m cr3 i4 0)"
proof -
  let ?hi = "sum_list (map (pages_entry cr m cr3) [256..<512])"
  obtain v' where v: "page_table v' = cr3" "total_mapped_pages (vmm_stats v') = sum_list (map (pages_entry cr m cr3) [0..<256])"
      "region_bytes v' = of_nat (total_mapped_pages (vmm_stats v')) * PAGE_SIZE"
      "vmm_init cr mp m cr3 = (if ?hi = 0 then Some (v' \<lparr> vmm_stats := (vmm_stats v') \<lparr>
         total_mapped_bytes := of_nat (total_mapped_pages (vmm_stats v')) * PAGE_SIZE \<rparr> \<rparr>) else None)"
    by (rule vmm_init_eq [OF assms, of cr3 m mp])
  have "vmm_init cr mp m cr3 = None \<longleftrightarrow> ?hi \<noteq> 0" unfolding v(4) by (simp del: upt_rec_numeral sum_list_eq_0_iff)
  then show ?thesis by (auto simp: count_entry_sum simp del: upt_rec_numeral)
qed

text \<open>C32: Initialisation records every page that the tables map in the lower half: the
  counters then agree with the walk of \<open>validate\<close> and with the sizes of the recorded
  regions. It panics exactly when a page is mapped below an entry of the upper half, because
  the address put together from the indices is not sign extended.\<close>

theorem vmm_init_outcome:
  assumes "x86_law cr"
  shows "case vmm_init cr mp m cr3 of
      None \<Rightarrow> \<exists>i4. 256 \<le> i4 \<and> i4 < 512 \<and> 0 < count_entry cr m cr3 i4 0
    | Some v \<Rightarrow> (\<forall>i4. 256 \<le> i4 \<and> i4 < 512 \<longrightarrow> count_entry cr m cr3 i4 0 = 0) \<and> page_table v = cr3 \<and>
        vmm_validate cr m v \<and>
        total_mapped_bytes (vmm_stats v) = of_nat (total_mapped_pages (vmm_stats v)) * PAGE_SIZE \<and>
        sum_list (map mr_size (mapped_regions v)) = total_mapped_bytes (vmm_stats v)"
  using vmm_init_None [OF assms, of mp m cr3] vmm_init_Some [OF assms, of mp m cr3]
  by (auto simp: region_bytes_def split: option.split)

section \<open>A mapper over one page table\<close>

text \<open>Four tables at fixed addresses map the first 2 MiB; the frame allocator is exhausted, so
  that no other table can be added.\<close>

definition one_table_wf :: "u64 \<Rightarrow> phys_bytes \<times> pmm_global \<Rightarrow> bool" where
  "one_table_wf root s \<longleftrightarrow> root = 0x1000 \<and> (\<forall>i<512.
     pt_entry (fst s) 0x1000 i = (if i = 0 then 0x2003 else 0) \<and>
     pt_entry (fst s) 0x2000 i = (if i = 0 then 0x3003 else 0) \<and>
     pt_entry (fst s) 0x3000 i = (if i = 0 then 0x4003 else 0))"

definition one_slot :: "u64 \<Rightarrow> nat" where
  "one_slot a = unat a div 4096"

definition one_entry :: "phys_bytes \<Rightarrow> u64 \<Rightarrow> u64" where
  "one_entry m a = pt_entry m 0x4000 (one_slot a)"

definition one_set :: "phys_bytes \<Rightarrow> u64 \<Rightarrow> u64 \<Rightarrow> phys_bytes" where
  "one_set m a e = store64 m (0x4000 + 8 * of_nat (one_slot a)) e"

definition one_mapped :: "phys_bytes \<Rightarrow> u64 \<Rightarrow> bool" where
  "one_mapped m a \<longleftrightarrow> a < 0x200000 \<and> bit (one_entry m a) 0"

definition one_mapper :: page_mapper where
  "one_mapper = \<lparr> pte_flags = (\<lambda>e. e AND NOT 0x000FFFFFFFFFF000),
     map_to_op = (\<lambda>root page frame flags (m, g).
       if \<not> page < 0x200000 then (Inl FrameAllocationFailed, m, g)
       else if one_mapped m page then (Inl (PageAlreadyMapped (one_entry m page AND 0x000FFFFFFFFFF000)), m, g)
       else (Inr (), one_set m page (frame OR flags), g)),
     unmap_op = (\<lambda>root page m.
       if one_mapped m page then (Inr (one_entry m page AND 0x000FFFFFFFFFF000), one_set m page 0) else (Inl PageNotMapped, m)),
     translate_addr = (\<lambda>root a m.
       if one_mapped m a then Some ((one_entry m a AND 0x000FFFFFFFFFF000) + (a AND 0xFFF)) else None),
     translate_flags = (\<lambda>root a m. if one_mapped m a then Some (one_entry m a AND NOT 0x000FFFFFFFFFF000) else None) \<rparr>"

lemma apart_of_nat:
  assumes "x + 8 \<le> y \<or> y + 8 \<le> x" and "x < 2 ^ 32" "y < 2 ^ 32"
  shows "apart (of_nat x) (of_nat y)"
proof -
  have "unat (of_nat x :: u64) = x" "unat (of_nat y :: u64) = y" using assms by (simp_all add: unat_of_nat)
  then show ?thesis using assms by (auto simp: apart_def unat_sub_if_size word_le_nat_alt word_size)
qed

lemma one_slot_less: "a < 0x200000 \<Longrightarrow> one_slot a < 512"
  by (simp add: one_slot_def word_less_nat_alt div_less_iff_less_mult)

lemma pt_entry_one_set:
  assumes "a < 0x200000" "i < 512"
  shows "pt_entry (one_set m a e) 0x4000 i = (if i = one_slot a then e else pt_entry m 0x4000 i)"
    and "t \<in> {0x1000, 0x2000, 0x3000} \<Longrightarrow> pt_entry (one_set m a e) t i = pt_entry m t i"
proof -
  let ?j = "one_slot a"
  have j: "?j < 512" using one_slot_less [OF assms(1)] .
  have o: "load64 (one_set m a e) (of_nat (n + 8 * i)) = load64 m (of_nat (n + 8 * i))"
    if "n + 8 * i + 8 \<le> 16384 + 8 * ?j \<or> 16384 + 8 * ?j + 8 \<le> n + 8 * i" "n < 2 ^ 20" for n
    using load64_store64_other [OF apart_of_nat, of "n + 8 * i" "16384 + 8 * ?j" m e] that assms(2) j
    by (simp add: one_set_def)
  show "pt_entry (one_set m a e) 0x4000 i = (if i = ?j then e else pt_entry m 0x4000 i)"
  proof (cases "i = ?j")
    case True
    then show ?thesis by (simp add: pt_entry_def one_set_def)
  next
    case False
    then have "8 + 8 * i \<le> 8 * ?j \<or> 8 + 8 * ?j \<le> 8 * i" by linarith
    with False show ?thesis using o [of 16384] by (simp add: pt_entry_def)
  qed
  show "pt_entry (one_set m a e) t i = pt_entry m t i" if "t \<in> {0x1000, 0x2000, 0x3000}"
    using that o [of 4096] o [of 8192] o [of 12288] assms(2) by (auto simp: pt_entry_def)
qed

lemma one_table_wf_set: "one_table_wf root (m, g) \<Longrightarrow> a < 0x200000 \<Longrightarrow> one_table_wf root (one_set m a e, g')"
  by (simp add: one_table_wf_def pt_entry_one_set(2))

lemma one_mapped_pages:
  assumes "one_table_wf root (m, g)"
  shows "mapped_pages documented_crate m root = {(0, 0, 0, i1) | i1. i1 < 512 \<and> bit (pt_entry m 0x4000 i1) 0}"
proof -
  have t: "root = 0x1000" "pt_entry m 0x1000 0 = 0x2003" "pt_entry m 0x2000 0 = 0x3003" "pt_entry m 0x3000 0 = 0x4003"
      "0 < i \<Longrightarrow> i < 512 \<Longrightarrow> pt_entry m 0x1000 i = 0" "0 < i \<Longrightarrow> i < 512 \<Longrightarrow> pt_entry m 0x2000 i = 0"
      "0 < i \<Longrightarrow> i < 512 \<Longrightarrow> pt_entry m 0x3000 i = 0" for i
    using assms by (simp_all add: one_table_wf_def)
  have b: "bit (0x2003 :: u64) 0" "bit (0x3003 :: u64) 0" "bit (0x4003 :: u64) 0" "\<not> bit (0x3003 :: u64) 7" "\<not> bit (0x4003 :: u64) 7"
    "(0x2003 :: u64) AND 0x000FFFFFFFFFF000 = 0x2000" "(0x3003 :: u64) AND 0x000FFFFFFFFFF000 = 0x3000"
    "(0x4003 :: u64) AND 0x000FFFFFFFFFF000 = 0x4000"
    by simp_all
  have "page_leaf documented_crate m root i4 i3 i2 i1 \<longleftrightarrow> i4 = 0 \<and> i3 = 0 \<and> i2 = 0 \<and> bit (pt_entry m 0x4000 i1) 0"
    if "i4 < 512" "i3 < 512" "i2 < 512" for i4 i3 i2 i1
    using that by (cases "i4 = 0"; cases "i3 = 0"; cases "i2 = 0")
      (simp_all add: page_leaf_def documented_crate_def Let_def t b)
  then show ?thesis by (auto simp: mapped_pages_def)
qed

lemma one_entry_set:
  assumes "a < 0x200000" "b < 0x200000"
  shows "one_entry (one_set m a e) b = (if one_slot b = one_slot a then e else one_entry m b)"
  using pt_entry_one_set(1) [OF assms(1) one_slot_less [OF assms(2)]] by (simp add: one_entry_def)

lemma page_of_slot:
  assumes "page_aligned p"
  shows "page_of a = p \<longleftrightarrow> one_slot a = one_slot p"
proof -
  have "unat (page_of a) = unat a div 4096 * 4096"
    unfolding page_of_def align_masks(1) unat_align_down by simp
  moreover have "unat p = unat p div 4096 * 4096" using assms by (simp add: page_aligned_iff)
  ultimately show ?thesis unfolding word_unat_eq_iff one_slot_def by (metis nat_mult_eq_cancel_disj zero_neq_numeral mult.commute)
qed

lemma same_slot_less:
  assumes "one_slot a = one_slot p" "p < 0x200000"
  shows "a < 0x200000"
proof -
  have "unat a div 4096 < 512" using one_slot_less [OF assms(2)] assms(1) by (simp add: one_slot_def)
  then show ?thesis by (simp add: word_less_nat_alt div_less_iff_less_mult)
qed

lemma one_index:
  assumes "a < 0x200000"
  shows "page_index documented_crate a = (0, 0, 0, one_slot a)"
proof -
  have "unat a < 0x200000" using assms by (simp add: word_less_nat_alt)
  then show ?thesis
    unfolding page_index_def documented_crate_def one_slot_def by (simp add: unat_index div_less_iff_less_mult)
qed

lemma entry_frame:
  assumes "frame_addr f" and "flags_ok flags"
  shows "(f OR flags) AND 0x000FFFFFFFFFF000 = f" and "bit (f OR flags) 0"
proof -
  have k: "(0x000FFFFFFFFFF000 :: u64) = mask 52 AND NOT 0xFFF" by (simp add: mask_eq_exp_minus_1)
  have "unat f < 2 ^ 52" using assms(1) by (simp add: frame_addr_def word_less_nat_alt)
  then have "take_bit 52 f = f"
    unfolding word_unat_eq_iff unsigned_take_bit_eq by (simp only: take_bit_nat_eq_self_iff)
  then have "f AND mask 52 = f" by (simp only: take_bit_eq_mask)
  moreover have "f AND NOT 0xFFF = f" using page_of_aligned [of f] assms(1) by (simp add: frame_addr_def page_of_def)
  ultimately have "f AND 0x000FFFFFFFFFF000 = f" unfolding k by (metis and.assoc)
  then show "(f OR flags) AND 0x000FFFFFFFFFF000 = f"
    using assms(2) by (simp add: flags_ok_def bit.conj_disj_distrib2)
  show "bit (f OR flags) 0" using assms(2) by (simp add: flags_ok_def bit_or_iff)
qed

lemma one_mapped_set:
  assumes "a < 0x200000"
  shows "one_mapped (one_set m a e) b \<longleftrightarrow> (if one_slot b = one_slot a then bit e 0 else one_mapped m b)"
  using one_entry_set [OF assms, of b m e] same_slot_less [of b a] assms by (auto simp: one_mapped_def)

lemma one_pages_set:
  assumes "one_table_wf root (m, g)" "a < 0x200000"
  shows "mapped_pages documented_crate (one_set m a e) root =
    (if bit e 0 then insert (page_index documented_crate a) (mapped_pages documented_crate m root)
     else mapped_pages documented_crate m root - {page_index documented_crate a})"
  unfolding one_mapped_pages [OF assms(1)] one_mapped_pages [OF one_table_wf_set [OF assms]] one_index [OF assms(2)]
  using pt_entry_one_set(1) [OF assms(2)] one_slot_less [OF assms(2)] by (auto split: if_splits)

lemma one_mapped_iff:
  assumes "one_table_wf root (m, g)" "a < 0x200000"
  shows "page_index documented_crate a \<in> mapped_pages documented_crate m root \<longleftrightarrow> one_mapped m a"
  unfolding one_mapped_pages [OF assms(1)] one_index [OF assms(2)] using assms(2) one_slot_less
  by (simp add: one_mapped_def one_entry_def)

interpretation one: paging documented_crate one_mapper one_table_wf
proof (unfold_locales, goal_cases)
  case 1
  show ?case by (rule documented_crate_law)
next
  case (2 root m g page frame flags u m' g')
  then have p: "page < 0x200000" "\<not> one_mapped m page" "m' = one_set m page (frame OR flags)" "g' = g"
    by (auto simp: one_mapper_def split: if_splits)
  with 2 show ?case
    using one_table_wf_set [OF 2(1) p(1)] one_pages_set [OF 2(1) p(1)] one_mapped_iff [OF 2(1) p(1)] entry_frame(2) [OF 2(3,4)] by simp
next
  case (3 root m g page frame flags u m' g' a)
  then have p: "page < 0x200000" "m' = one_set m page (frame OR flags)" "page_aligned page"
    by (auto simp: one_mapper_def page_addr_def split: if_splits)
  show ?case
    using entry_frame [OF 3(3,4)] p(1) same_slot_less [of a page]
    by (auto simp: one_mapper_def p(2) one_mapped_set [OF p(1)] page_of_slot [OF p(3)] one_entry_set one_mapped_def split: if_splits)
next
  case (4 root m g page frame flags e m' g')
  then show ?case by (auto simp: one_mapper_def split: if_splits)
next
  case (5 root m g page frame m')
  then have p: "page < 0x200000" "one_mapped m page" "m' = one_set m page 0"
    by (auto simp: one_mapper_def one_mapped_def split: if_splits)
  with 5 show ?case
    using one_table_wf_set [OF 5(1) p(1)] one_pages_set [OF 5(1) p(1)] one_mapped_iff [OF 5(1) p(1)] by simp
next
  case (6 root m g page frame m' a)
  then have p: "page < 0x200000" "one_mapped m page" "m' = one_set m page 0" "page_aligned page"
      "frame = one_entry m page AND 0x000FFFFFFFFFF000"
    by (auto simp: one_mapper_def one_mapped_def page_addr_def split: if_splits)
  have "page AND 0xFFF = 0" using p(4) by (simp add: page_aligned_def PAGE_SIZE_def)
  then show ?case
    using p same_slot_less [of a page]
    by (auto simp: one_mapper_def one_mapped_set [OF p(1)] page_of_slot [OF p(4)] one_entry_set one_mapped_def split: if_splits)
next
  case (7 root m g page ue m')
  then show ?case by (auto simp: one_mapper_def split: if_splits)
qed

section \<open>Sequences of operations\<close>

text \<open>What the kernel can do with the manager. Addresses are those that \<open>VirtAddr\<close> and \<open>PhysAddr\<close>
  hold, and the flags of a mapping include PRESENT.\<close>

inductive vmm_run :: "x86_crate \<Rightarrow> page_mapper \<Rightarrow> vmm_world \<Rightarrow> vmm_world \<Rightarrow> bool" for cr mp w0 where
  run_start: "vmm_run cr mp w0 w0"
| run_map: "vmm_run cr mp w0 w \<Longrightarrow> canonical virt \<Longrightarrow> phys < 2 ^ 52 \<Longrightarrow> flags_ok flags \<Longrightarrow>
    vmm_run cr mp w0 (snd (map_page mp virt phys flags w))"
| run_unmap: "vmm_run cr mp w0 w \<Longrightarrow> canonical virt \<Longrightarrow> vmm_run cr mp w0 (snd (unmap_page mp virt w))"
| run_remap: "vmm_run cr mp w0 w \<Longrightarrow> canonical virt \<Longrightarrow> phys < 2 ^ 52 \<Longrightarrow> flags_ok flags \<Longrightarrow>
    vmm_run cr mp w0 (snd (remap_page mp virt phys flags w))"
| run_map_region: "vmm_run cr mp w0 w \<Longrightarrow> flags_ok flags \<Longrightarrow> vmm_run cr mp w0 (snd (map_region cr mp virt phys count flags w))"
| run_unmap_region: "vmm_run cr mp w0 w \<Longrightarrow> vmm_run cr mp w0 (snd (unmap_region cr mp virt count w))"
| run_identity_map: "vmm_run cr mp w0 w \<Longrightarrow> flags_ok flags \<Longrightarrow> vmm_run cr mp w0 (snd (identity_map cr mp phys count flags w))"
| run_flush: "vmm_run cr mp w0 w \<Longrightarrow> vmm_run cr mp w0 (snd (flush_tlb w))"

lemma vmm_run_consistent:
  assumes p: "paging cr mp pt_wf" and "vmm_run cr mp w0 w" and "paging.consistent cr pt_wf w0"
  shows "paging.consistent cr pt_wf w"
  using assms(2,3)
proof (induction rule: vmm_run.induct)
  case run_start
  then show ?case .
qed (use paging.stable_map_page [OF p] paging.stable_unmap_page [OF p] paging.stable_remap_page [OF p]
    paging.stable_map_region [OF p] paging.stable_unmap_region [OF p] paging.stable_identity_map [OF p]
    paging.stable_flush [OF p] in \<open>simp_all add: paging.stable_def [OF p]\<close>)

text \<open>C33: Over a mapper that behaves as documented, the page counter of the manager is the
  number of pages that the tables map, and the byte counter 4096 times as much, after
  initialisation and after every sequence of map, unmap, remap, region and identity map operations,
  whether they succeed or fail: \<open>validate\<close> never reports a mismatch. The operations that map are called with flags that
  contain PRESENT and no bits of the address (\<open>flags_ok\<close>): the code does not add PRESENT, though the comment on
  \<open>map_page\<close> says that it is implied, and without it the counters and the tables part
  (\<open>map_page_without_present\<close>).\<close>

theorem vmm_validate_always:
  assumes "paging cr mp pt_wf" and "pt_wf cr3 (m, g)" and "vmm_init cr mp m cr3 = Some v"
    and "vmm_run cr mp \<lparr> v_mgr = v, v_mem = m, v_pmm = g \<rparr> w"
  shows "vmm_validate cr (v_mem w) (v_mgr w) \<and>
    total_mapped_bytes (vmm_stats (v_mgr w)) = of_nat (count_mapped_pages cr (v_mem w) (v_mgr w)) * PAGE_SIZE"
proof -
  have "paging.consistent cr pt_wf \<lparr> v_mgr = v, v_mem = m, v_pmm = g \<rparr>"
    using vmm_init_Some [OF paging.law [OF assms(1)] assms(3)] assms(2) by (simp add: paging.consistent_def [OF assms(1)])
  then have "paging.consistent cr pt_wf w" by (rule vmm_run_consistent [OF assms(1,4)])
  then show ?thesis by (simp add: paging.consistent_def [OF assms(1)] vmm_validate_def)
qed

text \<open>C34: \<open>remap_page\<close> over a mapper that behaves as documented. When it succeeds, the page
  leads to the new frame, the result is the old one, and every other page leads where it led.
  When only the second half fails, for example because the new address is not aligned, the
  error is returned, the page is left unmapped, and the old frame is lost to the caller.\<close>

theorem remap_page_effect:
  assumes "paging cr mp pt_wf" and "pt_wf (page_table (v_mgr w)) (v_mem w, v_pmm w)"
    and "canonical virt" "new_phys < 2 ^ 52" "flags_ok flags"
  shows "case remap_page mp virt new_phys flags w of
      (Inr old, w') \<Rightarrow> vmm_translate mp virt w = Some old \<and> vmm_translate mp virt w' = Some new_phys \<and>
        (\<forall>a. canonical a \<and> page_of a \<noteq> virt \<longrightarrow> vmm_translate mp a w' = vmm_translate mp a w)
    | (Inl e, w') \<Rightarrow> (\<forall>old w1. unmap_page mp virt w = (Inr old, w1) \<longrightarrow>
        vmm_translate mp virt w = Some old \<and> vmm_translate mp virt w' = None)"
proof -
  note p = assms(1)
  obtain r w1 where u: "unmap_page mp virt w = (r, w1)" by fastforce
  show ?thesis
  proof (cases r)
    case (Inl e)
    with u show ?thesis by (simp add: remap_page_def io_bind_def)
  next
    case (Inr old)
    note u1 = paging.unmap_page_translate [OF p assms(2,3) u [unfolded Inr]]
    have pv: "page_of virt = virt" by (rule page_of_aligned [OF u1(4) [OF assms(3)]])
    have z: "virt AND 0xFFF = 0" using u1(4) [OF assms(3)] by (simp add: page_aligned_def PAGE_SIZE_def)
    obtain r2 w2 where m: "map_page mp virt new_phys flags w1 = (r2, w2)" by fastforce
    show ?thesis
    proof (cases r2)
      case (Inl e)
      have "vmm_translate mp virt w2 = None"
        using paging.map_page_fails_translate [OF p u1(3) [OF assms(3)] assms(3) m [unfolded Inl] assms(3)] u1(2) [OF assms(3)] pv
        by simp
      then show ?thesis using Inl m u \<open>r = Inr old\<close> u1(1) [OF assms(3)] by (simp add: remap_page_def io_bind_def)
    next
      case (Inr x)
      have t: "vmm_translate mp a w2 = (if page_of a = virt then Some (new_phys + (a AND 0xFFF)) else vmm_translate mp a w1)"
        if "canonical a" for a
        by (rule paging.map_page_translate [OF p u1(3) [OF assms(3)] assms(3-5) m [unfolded Inr] that])
      have "vmm_translate mp a (w2 \<lparr> v_mgr := count_remap (v_mgr w2) \<rparr>) = vmm_translate mp a w2" for a
        by (simp add: vmm_translate_def count_remap_def)
      then show ?thesis
        using Inr m u \<open>r = Inr old\<close> u1(1) [OF assms(3)] u1(2) t [OF assms(3)] t pv z by (simp add: remap_page_def io_bind_def)
    qed
  qed
qed

section \<open>Witnesses\<close>

definition one_mem :: phys_bytes where
  "one_mem = store64 (store64 (store64 (\<lambda>_. 0) 0x1000 0x2003) 0x2000 0x3003) 0x3000 0x4003"

lemma pt_entry_store:
  assumes "8 dvd x" "8 dvd t" "x < 2 ^ 31" "t + 8 * i < 2 ^ 31"
  shows "pt_entry (store64 m (of_nat x) e) (of_nat t) i = (if x = t + 8 * i then e else pt_entry m (of_nat t) i)"
proof (cases "x = t + 8 * i")
  case True
  then show ?thesis by (simp add: pt_entry_def)
next
  case False
  have "8 dvd t + 8 * i" using assms(2) by simp
  then have "t + 8 * i + 8 \<le> x \<or> x + 8 \<le> t + 8 * i" using assms(1) False by (auto elim!: dvdE)
  then have "apart (of_nat (t + 8 * i)) (of_nat x)" using assms(3,4) by (intro apart_of_nat) auto
  from load64_store64_other [OF this] False show ?thesis by (simp add: pt_entry_def)
qed

lemma one_mem_entries:
  assumes "i < 512"
  shows "pt_entry one_mem 0x1000 i = (if i = 0 then 0x2003 else 0)" "pt_entry one_mem 0x2000 i = (if i = 0 then 0x3003 else 0)"
    "pt_entry one_mem 0x3000 i = (if i = 0 then 0x4003 else 0)" "pt_entry one_mem 0x4000 i = 0"
proof -
  have z: "pt_entry (\<lambda>_. 0) t i = 0" for t by (simp add: pt_entry_def load64_def load32_def u32_from_le_def)
  note s = pt_entry_store [of 4096 4096 i, simplified] pt_entry_store [of 4096 8192 i, simplified] pt_entry_store [of 4096 12288 i, simplified] pt_entry_store [of 4096 16384 i, simplified]
    pt_entry_store [of 8192 4096 i, simplified] pt_entry_store [of 8192 8192 i, simplified] pt_entry_store [of 8192 12288 i, simplified] pt_entry_store [of 8192 16384 i, simplified]
    pt_entry_store [of 12288 4096 i, simplified] pt_entry_store [of 12288 8192 i, simplified] pt_entry_store [of 12288 12288 i, simplified] pt_entry_store [of 12288 16384 i, simplified]
  show "pt_entry one_mem 0x1000 i = (if i = 0 then 0x2003 else 0)" "pt_entry one_mem 0x2000 i = (if i = 0 then 0x3003 else 0)"
    "pt_entry one_mem 0x3000 i = (if i = 0 then 0x4003 else 0)" "pt_entry one_mem 0x4000 i = 0"
    using assms by (simp_all add: one_mem_def s z)
qed

lemma one_mem_wf: "one_table_wf 0x1000 (one_mem, g)"
  by (simp add: one_table_wf_def one_mem_entries)

lemma one_mem_init: "\<exists>v. vmm_init documented_crate one_mapper one_mem 0x1000 = Some v"
proof -
  have "count_entry documented_crate one_mem 0x1000 i4 0 = 0" if "256 \<le> i4" "i4 < 512" for i4
    using that one_mem_entries(1) [of i4] by (simp add: count_entry_def documented_crate_def)
  then show ?thesis using vmm_init_None [OF documented_crate_law, of one_mapper one_mem "0x1000"] by force
qed

theorem vmm_init_outcome_witness:
  "\<exists>v. vmm_init documented_crate one_mapper one_mem 0x1000 = Some v \<and> vmm_validate documented_crate one_mem v \<and>
     sum_list (map mr_size (mapped_regions v)) = total_mapped_bytes (vmm_stats v)"
  using vmm_init_outcome [OF documented_crate_law, of one_mem "0x1000" one_mapper] one_mem_init by (auto split: option.splits)

theorem vmm_validate_always_witness:
  "\<exists>v. vmm_init documented_crate one_mapper one_mem 0x1000 = Some v \<and>
     vmm_validate documented_crate (v_mem (snd (map_page one_mapper 0x5000 0x7000 3 \<lparr> v_mgr = v, v_mem = one_mem, v_pmm = None \<rparr>)))
       (v_mgr (snd (map_page one_mapper 0x5000 0x7000 3 \<lparr> v_mgr = v, v_mem = one_mem, v_pmm = None \<rparr>)))"
proof -
  obtain v where v: "vmm_init documented_crate one_mapper one_mem 0x1000 = Some v" using one_mem_init by blast
  have "vmm_run documented_crate one_mapper \<lparr> v_mgr = v, v_mem = one_mem, v_pmm = None \<rparr>
      (snd (map_page one_mapper 0x5000 0x7000 3 \<lparr> v_mgr = v, v_mem = one_mem, v_pmm = None \<rparr>))"
    by (rule run_map [OF run_start]) (simp_all add: canonical_def flags_ok_def)
  from vmm_validate_always [OF one.paging_axioms one_mem_wf v this] v show ?thesis by blast
qed

definition one_world :: vmm_world where
  "one_world = \<lparr> v_mgr = \<lparr> page_table = 0x1000, mapped_regions = [], vmm_stats = VmmStatistics_new, vmm_validation = True \<rparr>,
     v_mem = one_set one_mem 0x5000 0x7003, v_pmm = None \<rparr>"

theorem remap_page_effect_witness:
  "\<exists>w'. remap_page one_mapper 0x5000 0x8001 3 one_world = (Inl (Vmm InvalidAddress), w') \<and>
     vmm_translate one_mapper 0x5000 one_world = Some 0x7000 \<and> vmm_translate one_mapper 0x5000 w' = None"
proof -
  have wf: "one_table_wf (page_table (v_mgr one_world)) (v_mem one_world, v_pmm one_world)"
    using one_table_wf_set [OF one_mem_wf, of "0x5000"] by (simp add: one_world_def)
  have e: "one_entry (v_mem one_world) 0x5000 = 0x7003" by (simp add: one_world_def one_entry_set)
  have al: "page_aligned 0x5000" "\<not> page_aligned 0x8001" by (simp_all add: page_aligned_def PAGE_SIZE_def)
  have "one_mapped (v_mem one_world) 0x5000" by (simp add: one_mapped_def e)
  then obtain w1 where u: "unmap_page one_mapper 0x5000 one_world = (Inr 0x7000, w1)"
    using al page_of_aligned [OF al(1)] by (simp add: unmap_page_def one_mapper_def e)
  then have r: "remap_page one_mapper 0x5000 0x8001 3 one_world = (Inl (Vmm InvalidAddress), w1)"
    using al by (simp add: remap_page_def map_page_def vmm_err_def io_bind_def io_err_def)
  show ?thesis
    using remap_page_effect [OF one.paging_axioms wf, of "0x5000" "0x8001" 3] r u by (simp add: canonical_def flags_ok_def)
qed

text \<open>PRESENT is not implied: mapping a page as writable only succeeds and is counted, but the walk of
  \<open>validate\<close> does not find the page.\<close>

lemma map_page_without_present:
  assumes v: "vmm_init documented_crate one_mapper one_mem 0x1000 = Some v"
  shows "\<exists>w'. map_page one_mapper 0x5000 0x7000 2 \<lparr> v_mgr = v, v_mem = one_mem, v_pmm = None \<rparr> = (Inr (), w') \<and>
    \<not> vmm_validate documented_crate (v_mem w') (v_mgr w')"
proof -
  let ?m = "one_set one_mem 0x5000 0x7002"
  have i: "page_table v = 0x1000" "vmm_validate documented_crate one_mem v"
    using vmm_init_Some [OF documented_crate_law v] by simp_all
  have n: "\<not> bit (0x7002 :: u64) 0" "(0x7000 :: u64) OR 2 = 0x7002" by simp_all
  have e: "\<not> one_mapped one_mem 0x5000"
    by (simp add: one_mapped_def one_entry_def one_mem_entries one_slot_def)
  have "mapped_pages documented_crate ?m 0x1000 = mapped_pages documented_crate one_mem 0x1000"
    using one_pages_set [OF one_mem_wf, of "0x5000"] one_mapped_iff [OF one_mem_wf, of "0x5000"] e n(1) by simp
  then have c: "count_mapped_pages documented_crate ?m (track_page a b f d v) = total_mapped_pages (vmm_stats v)" for a b f d
    using i by (simp add: count_is_card vmm_validate_def track_page_def)
  have al: "page_aligned 0x5000" "page_aligned 0x7000" by (simp_all add: page_aligned_def PAGE_SIZE_def)
  show ?thesis
    using al page_of_aligned [OF al(1)] page_of_aligned [OF al(2)] e c
    by (simp add: map_page_def one_mapper_def i(1) n(2) vmm_validate_def track_page_def)
qed

end
