(* ===== verification/Scancode_Queue.thy ===== *)
theory Scancode_Queue
  imports Prelude
begin

text \<open>
  The queue of keyboard scan codes in \<open>kernel/src/terminal/mod.rs\<close>: a ring buffer that
  the keyboard interrupt fills and the terminal empties. The interface is a bounded queue
  over lists; the ring buffer implements it, also when interrupts arrive in the middle of
  \<open>pop_scancode\<close>.
\<close>

section \<open>The interface\<close>

locale bounded_queue =
  fixes enq :: "'a \<Rightarrow> 'q \<Rightarrow> 'q" and deq :: "'q \<Rightarrow> 'a option \<times> 'q" and items :: "'q \<Rightarrow> 'a list"
    and invar :: "'q \<Rightarrow> bool" and capacity :: nat
  assumes items_enq: "invar q \<Longrightarrow> items (enq x q) = (if length (items q) < capacity then items q @ [x] else items q)"
    and deq_empty: "invar q \<Longrightarrow> items q = [] \<Longrightarrow> deq q = (None, q)"
    and deq_items: "invar q \<Longrightarrow> items q = x # xs \<Longrightarrow> fst (deq q) = Some x \<and> items (snd (deq q)) = xs"
    and invar_enq: "invar q \<Longrightarrow> invar (enq x q)"
    and invar_deq: "invar q \<Longrightarrow> invar (snd (deq q))"
    and items_bound: "invar q \<Longrightarrow> length (items q) \<le> capacity"
begin

lemma invar_enqs: "invar q \<Longrightarrow> invar (fold enq xs q)"
  by (induction xs arbitrary: q) (simp_all add: invar_enq)

text \<open>Elements that arrive at a full queue are dropped; the others keep their order.\<close>

lemma items_enqs: "invar q \<Longrightarrow> items (fold enq xs q) = items q @ take (capacity - length (items q)) xs"
proof (induction xs arbitrary: q)
  case (Cons x xs)
  show ?case
  proof (cases "length (items q) < capacity")
    case True
    then have "capacity - length (items q) = Suc (capacity - Suc (length (items q)))" by simp
    then have "take (capacity - length (items q)) (x # xs) = x # take (capacity - Suc (length (items q))) xs"
      by (metis take_Suc_Cons)
    with True Cons show ?thesis by (simp add: items_enq invar_enq)
  next
    case False
    with Cons show ?thesis by (simp add: items_enq invar_enq)
  qed
qed simp

primrec deqs :: "nat \<Rightarrow> 'q \<Rightarrow> 'a option list" where
  "deqs 0 q = []"
| "deqs (Suc n) q = (case deq q of (r, q') \<Rightarrow> r # deqs n q')"

lemma deqs_items: "invar q \<Longrightarrow> n \<le> length (items q) \<Longrightarrow> deqs n q = map Some (take n (items q))"
proof (induction n arbitrary: q)
  case (Suc n)
  then obtain x xs where x: "items q = x # xs" by (cases "items q") simp_all
  obtain r q' where d: "deq q = (r, q')" by fastforce
  with deq_items [OF Suc.prems(1) x] invar_deq [OF Suc.prems(1)] Suc.IH [of q'] Suc.prems(2) x show ?case by simp
qed simp

end

section \<open>The ring buffer\<close>

definition SCANCODE_BUFFER_SIZE :: nat where "SCANCODE_BUFFER_SIZE = 256"

record scan_queue =
  SCANCODE_BUFFER :: "u8 list"
  SCANCODE_HEAD :: nat
  SCANCODE_TAIL :: nat

definition scan_init :: scan_queue where
  "scan_init = \<lparr> SCANCODE_BUFFER = replicate SCANCODE_BUFFER_SIZE 0, SCANCODE_HEAD = 0, SCANCODE_TAIL = 0 \<rparr>"

definition push_scancode :: "u8 \<Rightarrow> scan_queue \<Rightarrow> scan_queue" where
  "push_scancode scancode q =
     (let tail = SCANCODE_TAIL q; next = (tail + 1) mod SCANCODE_BUFFER_SIZE in
      if next = SCANCODE_HEAD q then q
      else q \<lparr> SCANCODE_BUFFER := (SCANCODE_BUFFER q)[tail := scancode], SCANCODE_TAIL := next \<rparr>)"

text \<open>The steps of \<open>pop_scancode\<close>: the test for emptiness, the read of the buffer with
  interrupts off, and the store of the new head. The head that was loaded first is an
  argument of the later steps.\<close>

definition pop_test :: "scan_queue \<Rightarrow> bool" where
  "pop_test q \<longleftrightarrow> SCANCODE_HEAD q = SCANCODE_TAIL q"

definition pop_read :: "nat \<Rightarrow> scan_queue \<Rightarrow> u8" where
  "pop_read head q = SCANCODE_BUFFER q ! head"

definition pop_store :: "nat \<Rightarrow> scan_queue \<Rightarrow> scan_queue" where
  "pop_store head q = q \<lparr> SCANCODE_HEAD := (head + 1) mod SCANCODE_BUFFER_SIZE \<rparr>"

definition pop_scancode :: "scan_queue \<Rightarrow> u8 option \<times> scan_queue" where
  "pop_scancode q =
     (let head = SCANCODE_HEAD q in
      if pop_test q then (None, q) else (Some (pop_read head q), pop_store head q))"

text \<open>The same with interrupts: \<open>xs\<close> and \<open>ys\<close> are pushed after the test and after
  the read.\<close>

definition pop_interrupted :: "u8 list \<Rightarrow> u8 list \<Rightarrow> scan_queue \<Rightarrow> u8 option \<times> scan_queue" where
  "pop_interrupted xs ys q =
     (let head = SCANCODE_HEAD q in
      if pop_test q then (None, fold push_scancode ys (fold push_scancode xs q))
      else let q1 = fold push_scancode xs q; r = pop_read head q1; q2 = fold push_scancode ys q1 in
        (Some r, pop_store head q2))"

section \<open>Refinement\<close>

definition scan_inv :: "scan_queue \<Rightarrow> bool" where
  "scan_inv q \<longleftrightarrow> length (SCANCODE_BUFFER q) = 256 \<and> SCANCODE_HEAD q < 256 \<and> SCANCODE_TAIL q < 256"

definition scan_length :: "scan_queue \<Rightarrow> nat" where
  "scan_length q = (SCANCODE_TAIL q + 256 - SCANCODE_HEAD q) mod 256"

definition scan_items :: "scan_queue \<Rightarrow> u8 list" where
  "scan_items q = map (\<lambda>i. SCANCODE_BUFFER q ! ((SCANCODE_HEAD q + i) mod 256)) [0..<scan_length q]"

lemma scan_length_less: "scan_length q < 256"
  by (simp add: scan_length_def)

lemma tail_position: "scan_inv q \<Longrightarrow> (SCANCODE_HEAD q + scan_length q) mod 256 = SCANCODE_TAIL q"
  by (simp add: scan_length_def scan_inv_def mod_simps)

lemma ring_position: "h < 256 \<Longrightarrow> i < 256 \<Longrightarrow> (h + i) mod 256 = (if h + i < 256 then h + i else h + i - 256)" for h i :: nat
  by (simp add: mod_if)

lemma position_inj: "h < 256 \<Longrightarrow> i < 256 \<Longrightarrow> j < 256 \<Longrightarrow> (h + i) mod 256 = (h + j) mod 256 \<Longrightarrow> i = j" for h i j :: nat
  by (simp add: ring_position split: if_splits)

lemma scan_length_cases:
  "scan_inv q \<Longrightarrow> scan_length q = (if SCANCODE_HEAD q \<le> SCANCODE_TAIL q then SCANCODE_TAIL q - SCANCODE_HEAD q
     else SCANCODE_TAIL q + 256 - SCANCODE_HEAD q)"
  by (auto simp: scan_length_def scan_inv_def mod_if)

lemma scan_full:
  assumes "scan_inv q"
  shows "(SCANCODE_TAIL q + 1) mod 256 = SCANCODE_HEAD q \<longleftrightarrow> scan_length q = 255"
  using assms ring_position [of "SCANCODE_TAIL q" 1] by (auto simp: scan_length_cases scan_inv_def split: if_splits)

lemma scan_inv_push: "scan_inv q \<Longrightarrow> scan_inv (push_scancode x q)"
  by (simp add: push_scancode_def scan_inv_def SCANCODE_BUFFER_SIZE_def Let_def)

lemma push_full: "scan_inv q \<Longrightarrow> scan_length q = 255 \<Longrightarrow> push_scancode x q = q"
  using scan_full [of q] by (simp add: push_scancode_def SCANCODE_BUFFER_SIZE_def Let_def)

lemma scan_length_push:
  assumes "scan_inv q" and "scan_length q \<noteq> 255"
  shows "scan_length (push_scancode x q) = Suc (scan_length q)" "SCANCODE_HEAD (push_scancode x q) = SCANCODE_HEAD q"
    "SCANCODE_BUFFER (push_scancode x q) = (SCANCODE_BUFFER q)[SCANCODE_TAIL q := x]"
proof -
  have n: "(SCANCODE_TAIL q + 1) mod 256 \<noteq> SCANCODE_HEAD q" using scan_full [OF assms(1)] assms(2) by simp
  then have p: "push_scancode x q = q \<lparr> SCANCODE_BUFFER := (SCANCODE_BUFFER q)[SCANCODE_TAIL q := x],
      SCANCODE_TAIL := (SCANCODE_TAIL q + 1) mod 256 \<rparr>"
    by (simp add: push_scancode_def SCANCODE_BUFFER_SIZE_def Let_def)
  show "SCANCODE_HEAD (push_scancode x q) = SCANCODE_HEAD q"
    "SCANCODE_BUFFER (push_scancode x q) = (SCANCODE_BUFFER q)[SCANCODE_TAIL q := x]" by (simp_all add: p)
  show "scan_length (push_scancode x q) = Suc (scan_length q)"
    using scan_inv_push [OF assms(1), of x] assms n ring_position [of "SCANCODE_TAIL q" 1] unfolding p
    by (auto simp: scan_length_cases scan_inv_def split: if_splits)
qed

lemma items_push:
  assumes "scan_inv q"
  shows "scan_items (push_scancode x q) = (if length (scan_items q) < 255 then scan_items q @ [x] else scan_items q)"
proof (cases "scan_length q = 255")
  case True
  with assms show ?thesis by (simp add: push_full scan_items_def)
next
  case False
  note p = scan_length_push [OF assms False, of x]
  have lt: "scan_length q < 255" using scan_length_less [of q] False by simp
  have h: "SCANCODE_HEAD q < 256" "length (SCANCODE_BUFFER q) = 256" "SCANCODE_TAIL q < 256" using assms by (simp_all add: scan_inv_def)
  have ne: "(SCANCODE_HEAD q + i) mod 256 \<noteq> SCANCODE_TAIL q" if "i < scan_length q" for i
    using position_inj [OF h(1), of i "scan_length q"] that lt tail_position [OF assms] by auto
  have "map (\<lambda>i. (SCANCODE_BUFFER q)[SCANCODE_TAIL q := x] ! ((SCANCODE_HEAD q + i) mod 256)) [0..<scan_length q] = scan_items q"
    unfolding scan_items_def using ne by (intro map_cong refl) (metis atLeastLessThan_iff nth_list_update_neq set_upt)
  then show ?thesis
    using lt tail_position [OF assms] h by (simp add: scan_items_def [of "push_scancode x q"] p) (simp add: scan_items_def)
qed

lemma items_pop:
  assumes "scan_inv q" and "scan_items q = x # xs"
  shows "pop_read (SCANCODE_HEAD q) q = x" "scan_items (pop_store (SCANCODE_HEAD q) q) = xs"
proof -
  have h: "SCANCODE_HEAD q < 256" "SCANCODE_TAIL q < 256" using assms(1) by (simp_all add: scan_inv_def)
  obtain n where n: "scan_length q = Suc n" using assms(2) by (cases "scan_length q") (simp_all add: scan_items_def)
  have u: "[0..<Suc n] = 0 # map Suc [0..<n]" by (simp add: map_Suc_upt upt_conv_Cons del: upt_Suc)
  have e: "pop_read (SCANCODE_HEAD q) q # map (\<lambda>i. SCANCODE_BUFFER q ! ((SCANCODE_HEAD q + Suc i) mod 256)) [0..<n] = x # xs"
    using assms(2) h unfolding scan_items_def n u by (simp add: pop_read_def comp_def)
  show "pop_read (SCANCODE_HEAD q) q = x" using e by simp
  have l: "scan_length (pop_store (SCANCODE_HEAD q) q) = n"
    using n h ring_position [of "SCANCODE_HEAD q" 1]
    by (auto simp: scan_length_def pop_store_def SCANCODE_BUFFER_SIZE_def mod_if split: if_splits)
  have "(SCANCODE_HEAD (pop_store (SCANCODE_HEAD q) q) + i) mod 256 = (SCANCODE_HEAD q + Suc i) mod 256" for i
    by (simp add: pop_store_def SCANCODE_BUFFER_SIZE_def mod_simps)
  then show "scan_items (pop_store (SCANCODE_HEAD q) q) = xs"
    using e unfolding scan_items_def l by (simp add: pop_store_def)
qed

lemma scan_inv_pop: "scan_inv q \<Longrightarrow> scan_inv (pop_store h q)"
  by (simp add: scan_inv_def pop_store_def SCANCODE_BUFFER_SIZE_def)

lemma pop_test_iff: "scan_inv q \<Longrightarrow> pop_test q \<longleftrightarrow> scan_items q = []"
  by (auto simp: pop_test_def scan_items_def scan_length_cases scan_inv_def)

interpretation scan: bounded_queue push_scancode pop_scancode scan_items scan_inv 255
proof (unfold_locales, goal_cases)
  case (1 q x)
  then show ?case by (rule items_push)
next
  case (2 q)
  then show ?case by (simp add: pop_scancode_def pop_test_iff)
next
  case (3 q x xs)
  then show ?case by (simp add: pop_scancode_def pop_test_iff items_pop)
next
  case (4 q x)
  then show ?case by (rule scan_inv_push)
next
  case (5 q)
  then show ?case by (simp add: pop_scancode_def scan_inv_pop Let_def)
next
  case (6 q)
  then show ?case using scan_length_less [of q] by (simp add: scan_items_def)
qed

lemma head_pushes: "SCANCODE_HEAD (fold push_scancode xs q) = SCANCODE_HEAD q"
  by (induction xs arbitrary: q) (simp_all add: push_scancode_def Let_def)

lemma scan_init_inv: "scan_inv scan_init" "scan_items scan_init = []"
  by (simp_all add: scan_inv_def scan_init_def SCANCODE_BUFFER_SIZE_def scan_items_def scan_length_def)

end
