(* ===== verification/Terminal.thy ===== *)
theory Terminal
  imports Scancode_Queue Vfs
begin

text \<open>
  The terminal: \<open>kernel/src/terminal/mod.rs\<close>. Reading a line with its editing and
  history, splitting it into a command and arguments, and the commands that work on the file
  system. Text is a list of characters (code points); the file system takes the bytes of its
  UTF-8 form. The decoder of the \<open>pc_keyboard\<close> crate is a parameter. What a command
  prints is a value that names the message and its arguments.
\<close>

section \<open>Characters\<close>

type_synonym rchar = u32

definition char_len :: "rchar \<Rightarrow> nat" where
  "char_len c = (if c < 0x80 then 1 else if c < 0x800 then 2 else if c < 0x10000 then 3 else 4)"

definition str_len :: "rchar list \<Rightarrow> nat" where
  "str_len s = sum_list (map char_len s)"

definition encode_char :: "rchar \<Rightarrow> bytes" where
  "encode_char c =
     (if c < 0x80 then [ucast c]
      else if c < 0x800 then [ucast (0xC0 OR drop_bit 6 c), ucast (0x80 OR (c AND 0x3F))]
      else if c < 0x10000 then [ucast (0xE0 OR drop_bit 12 c), ucast (0x80 OR (drop_bit 6 c AND 0x3F)), ucast (0x80 OR (c AND 0x3F))]
      else [ucast (0xF0 OR drop_bit 18 c), ucast (0x80 OR (drop_bit 12 c AND 0x3F)), ucast (0x80 OR (drop_bit 6 c AND 0x3F)),
            ucast (0x80 OR (c AND 0x3F))])"

definition encode_str :: "rchar list \<Rightarrow> bytes" where
  "encode_str s = concat (map encode_char s)"

definition is_control :: "rchar \<Rightarrow> bool" where
  "is_control c \<longleftrightarrow> c < 0x20 \<or> (0x7F \<le> c \<and> c \<le> 0x9F)"

definition is_whitespace :: "rchar \<Rightarrow> bool" where
  "is_whitespace c \<longleftrightarrow> (9 \<le> c \<and> c \<le> 13) \<or> c = 0x20 \<or> c = 0x85 \<or> c = 0xA0 \<or> c = 0x1680 \<or> (0x2000 \<le> c \<and> c \<le> 0x200A)
     \<or> c = 0x2028 \<or> c = 0x2029 \<or> c = 0x202F \<or> c = 0x205F \<or> c = 0x3000"

text \<open>\<open>split_whitespace\<close>: the maximal runs of other characters.\<close>

function split_whitespace :: "rchar list \<Rightarrow> rchar list list" where
  "split_whitespace s =
     (let s' = dropWhile is_whitespace s in
      if s' = [] then []
      else takeWhile (\<lambda>c. \<not> is_whitespace c) s' # split_whitespace (dropWhile (\<lambda>c. \<not> is_whitespace c) s'))"
  by pat_completeness auto
termination
proof (relation "measure length", goal_cases)
  case (2 s s')
  have "dropWhile (\<lambda>c. \<not> is_whitespace c) s' = dropWhile (\<lambda>c. \<not> is_whitespace c) (tl s')"
  proof (cases s')
    case (Cons c cs)
    then have "\<not> is_whitespace c" using 2(1) by (simp add: dropWhile_eq_Cons_conv)
    with Cons show ?thesis by simp
  qed simp
  then have "length (dropWhile (\<lambda>c. \<not> is_whitespace c) s') < length s'"
    using 2(2) length_dropWhile_le [of "\<lambda>c. \<not> is_whitespace c" "tl s'"] by (cases s') simp_all
  moreover have "length s' \<le> length s" unfolding 2(1) by (rule length_dropWhile_le)
  ultimately show ?case by simp
qed simp

declare split_whitespace.simps [simp del]

section \<open>Reading a line\<close>

definition MAX_INPUT_LEN :: nat where "MAX_INPUT_LEN = 256"
definition MAX_HISTORY :: nat where "MAX_HISTORY = 50"

record Terminal =
  input_buffer :: "rchar list"
  history :: "rchar list list"
  history_index :: "nat option"

definition terminal_new :: Terminal where
  "terminal_new = \<lparr> input_buffer = [], history = [], history_index = None \<rparr>"

definition finish_line :: "Terminal \<Rightarrow> Terminal" where
  "finish_line t =
     (if input_buffer t = [] then t
      else let h = history t @ [input_buffer t] in
        t \<lparr> history := (if length h > MAX_HISTORY then tl h else h), history_index := None \<rparr>)"

definition push_char :: "rchar \<Rightarrow> Terminal \<Rightarrow> Terminal" where
  "push_char c t = (if str_len (input_buffer t) < MAX_INPUT_LEN then t \<lparr> input_buffer := input_buffer t @ [c] \<rparr> else t)"

definition pop_char :: "Terminal \<Rightarrow> Terminal" where
  "pop_char t = t \<lparr> input_buffer := butlast (input_buffer t) \<rparr>"

datatype decoded_key = Unicode rchar | ArrowUp | ArrowDown | OtherKey

definition arrow_up :: "Terminal \<Rightarrow> Terminal" where
  "arrow_up t =
     (case history_index t of
        Some i \<Rightarrow> if i > 0 then t \<lparr> history_index := Some (i - 1) \<rparr> else t
      | None \<Rightarrow> if history t \<noteq> [] then t \<lparr> history_index := Some (length (history t) - 1) \<rparr> else t)"

definition arrow_down :: "Terminal \<Rightarrow> Terminal" where
  "arrow_down t =
     (case history_index t of
        Some i \<Rightarrow> t \<lparr> history_index := (if i + 1 < length (history t) then Some (i + 1) else None) \<rparr>
      | None \<Rightarrow> t)"

text \<open>One key or one byte: the new state, and whether the line is complete.\<close>

definition handle_key :: "decoded_key \<Rightarrow> Terminal \<Rightarrow> Terminal \<times> bool" where
  "handle_key key t =
     (case key of
        Unicode c \<Rightarrow>
          if c = 0x0A then (finish_line t, True)
          else if c = 0x08 then (pop_char t, False)
          else if \<not> is_control c then (push_char c t, False)
          else (t, False)
      | ArrowUp \<Rightarrow> (arrow_up t, False)
      | ArrowDown \<Rightarrow> (arrow_down t, False)
      | OtherKey \<Rightarrow> (t, False))"

definition handle_serial :: "u8 \<Rightarrow> Terminal \<Rightarrow> Terminal \<times> bool" where
  "handle_serial b t =
     (if b = 0x0D \<or> b = 0x0A then (finish_line t, True)
      else if b = 0x08 \<or> b = 0x7F then (pop_char t, False)
      else if 0x20 \<le> b \<and> b < 0x7F then (push_char (ucast b) t, False)
      else (t, False))"

text \<open>The loop. Every iteration comes with the scan codes that the keyboard interrupt has pushed
  since the one before and with the byte the serial port would deliver. When the inputs are
  used up before the line ends, the terminal is still waiting: \<open>None\<close>.\<close>

primrec read_loop ::
  "('k \<Rightarrow> u8 \<Rightarrow> 'k \<times> decoded_key option) \<Rightarrow> (u8 list \<times> u8 option) list \<Rightarrow> 'k \<Rightarrow> scan_queue \<Rightarrow> Terminal \<Rightarrow>
     (scan_queue \<times> Terminal) option" where
  "read_loop decode [] k q t = None"
| "read_loop decode (i # is) k q t =
     (case pop_scancode (fold push_scancode (fst i) q) of
        (Some scancode, q') \<Rightarrow>
          (case decode k scancode of
             (k', Some key) \<Rightarrow> (case handle_key key t of
                (t', True) \<Rightarrow> Some (q', t') | (t', False) \<Rightarrow> read_loop decode is k' q' t')
           | (k', None) \<Rightarrow> read_loop decode is k' q' t)
      | (None, q') \<Rightarrow>
          (case snd i of
             Some b \<Rightarrow> (case handle_serial b t of
                (t', True) \<Rightarrow> Some (q', t') | (t', False) \<Rightarrow> read_loop decode is k q' t')
           | None \<Rightarrow> read_loop decode is k q' t))"

definition read_line ::
  "('k \<Rightarrow> u8 \<Rightarrow> 'k \<times> decoded_key option) \<Rightarrow> 'k \<Rightarrow> (u8 list \<times> u8 option) list \<Rightarrow> scan_queue \<Rightarrow> Terminal \<Rightarrow>
     (scan_queue \<times> Terminal) option" where
  "read_line decode k0 inputs q t = read_loop decode inputs k0 q (t \<lparr> input_buffer := [] \<rparr>)"

section \<open>Commands on the file system\<close>

datatype term_msg =
  Usage | Exists_Msg bytes | Created bytes | Created_Dir bytes | Wrote nat bytes | Deleted bytes | Path_Msg bytes
  | Listing bytes "VfsNode list" | Empty_Listing | Contents bytes | Is_Directory | Error_Msg VfsError

text \<open>A panic of the file system stops the kernel: \<open>None\<close>.\<close>

type_synonym 'd term_cmd = "'d VfsManager \<Rightarrow> 'd \<Rightarrow> (term_msg \<times> 'd VfsManager \<times> 'd) option"

definition report :: "'d VfsManager \<Rightarrow> ('a \<Rightarrow> term_msg) \<Rightarrow> (vfs_fail + 'a) \<times> 'd \<Rightarrow> (term_msg \<times> 'd VfsManager \<times> 'd) option" where
  "report v f r =
     (case r of
        (Inr x, d) \<Rightarrow> Some (f x, v, d)
      | (Inl (Vfs e), d) \<Rightarrow> Some (Error_Msg e, v, d)
      | (Inl Vfs_Panic, d) \<Rightarrow> None)"

definition cmd_ls :: "bytes list \<Rightarrow> 'd term_cmd" where
  "cmd_ls args v d =
     (let path = (if args = [] then cwd v else hd args) in
      report v (\<lambda>entries. if entries = [] then Empty_Listing else Listing path entries) (list_dir v path d))"

definition cmd_cat :: "bytes list \<Rightarrow> 'd term_cmd" where
  "cmd_cat args v d =
     (if args = [] then Some (Usage, v, d)
      else report v (\<lambda>data. Contents (filter (\<lambda>b. b \<noteq> 0x0D) data @ (if data \<noteq> [] \<and> last data = 0x0A then [] else [0x0A])))
        (read_file_content v (hd args) d))"

definition cmd_touch :: "bytes list \<Rightarrow> 'd term_cmd" where
  "cmd_touch args v d =
     (if args = [] then Some (Usage, v, d)
      else let path = hd args in
        (case stat v path d of
           (Inr node, d') \<Rightarrow> Some (Exists_Msg path, v, d')
         | (Inl (Vfs NotFound), d') \<Rightarrow> report v (\<lambda>_. Created path) (create_file v path [] d')
         | (Inl (Vfs e), d') \<Rightarrow> Some (Error_Msg e, v, d')
         | (Inl Vfs_Panic, d') \<Rightarrow> None))"

definition cmd_mkdir :: "bytes list \<Rightarrow> 'd term_cmd" where
  "cmd_mkdir args v d =
     (if args = [] then Some (Usage, v, d)
      else report v (\<lambda>_. Created_Dir (hd args)) (mkdir v (hd args) d))"

definition join_space :: "bytes list \<Rightarrow> bytes" where
  "join_space xs = (case xs of [] \<Rightarrow> [] | y # ys \<Rightarrow> y @ concat (map (\<lambda>z. 0x20 # z) ys))"

definition cmd_write :: "bytes list \<Rightarrow> 'd term_cmd" where
  "cmd_write args v d =
     (if length args < 2 then Some (Usage, v, d)
      else let path = hd args; data = join_space (tl args) in
        report v (\<lambda>_. Wrote (length data) path) (create_file v path data d))"

definition cmd_rm :: "bytes list \<Rightarrow> 'd term_cmd" where
  "cmd_rm args v d =
     (if args = [] then Some (Usage, v, d)
      else (case stat v (hd args) d of
          (Inr node, d') \<Rightarrow>
            if node_is_dir node then Some (Is_Directory, v, d')
            else report v (\<lambda>_. Deleted (hd args)) (vfs_delete v (hd args) d')
        | (Inl (Vfs _), d') \<Rightarrow> Some (Error_Msg NotFound, v, d')
        | (Inl Vfs_Panic, d') \<Rightarrow> None))"

definition cd_target :: "bytes \<Rightarrow> bytes \<Rightarrow> bytes" where
  "cd_target current target =
     (if target \<noteq> [] \<and> hd target = 0x2F then target
      else if target = [0x2E, 0x2E] then
        (case split_last 0x2F (trim_end_slash current) of
           Some (parent, _) \<Rightarrow> if parent = [] then [0x2F] else parent
         | None \<Rightarrow> [0x2F])
      else let new = (if current \<noteq> [] \<and> last current = 0x2F then current else current @ [0x2F]) in new @ target)"

definition cmd_cd :: "bytes list \<Rightarrow> 'd term_cmd" where
  "cmd_cd args v d =
     (if args = [] then Some (Path_Msg (cwd v), v, d)
      else let new_path = cd_target (cwd v) (hd args) in
        (case resolve_path v new_path d of
           (Inr _, d') \<Rightarrow> Some (Path_Msg new_path, v \<lparr> cwd := new_path \<rparr>, d')
         | (Inl (Vfs e), d') \<Rightarrow> Some (Error_Msg e, v, d')
         | (Inl Vfs_Panic, d') \<Rightarrow> None))"

definition cmd_pwd :: "'d term_cmd" where
  "cmd_pwd v d = Some (Path_Msg (cwd v), v, d)"

section \<open>Dispatch\<close>

datatype command =
  C_Help | C_Clear | C_Version | C_Mem | C_Vmm | C_Reboot | C_Halt | C_Echo | C_Hostname | C_Whoami | C_Uname | C_Cpuinfo
  | C_Meminfo | C_Sysinfo | C_Neofetch | C_Uptime | C_Ticks | C_Disk | C_Partitions | C_Ls | C_Cat | C_Touch | C_Mkdir
  | C_Write | C_Rm | C_Mount | C_Cd | C_Pwd | C_Run | C_Ps | C_Exit | C_Unknown

definition str_chars :: "string \<Rightarrow> rchar list" where
  "str_chars s = map (\<lambda>c. of_nat (of_char c)) s"

definition command_table :: "(string \<times> command) list" where
  "command_table = [(''help'', C_Help), (''clear'', C_Clear), (''version'', C_Version), (''mem'', C_Mem), (''vmm'', C_Vmm),
     (''reboot'', C_Reboot), (''halt'', C_Halt), (''echo'', C_Echo), (''hostname'', C_Hostname), (''whoami'', C_Whoami),
     (''uname'', C_Uname), (''cpuinfo'', C_Cpuinfo), (''meminfo'', C_Meminfo), (''sysinfo'', C_Sysinfo),
     (''neofetch'', C_Neofetch), (''uptime'', C_Uptime), (''ticks'', C_Ticks), (''disk'', C_Disk),
     (''partitions'', C_Partitions), (''parts'', C_Partitions), (''ls'', C_Ls), (''cat'', C_Cat), (''touch'', C_Touch),
     (''mkdir'', C_Mkdir), (''write'', C_Write), (''rm'', C_Rm), (''mount'', C_Mount), (''cd'', C_Cd), (''pwd'', C_Pwd),
     (''run'', C_Run), (''ps'', C_Ps), (''exit'', C_Exit)]"

definition command_of :: "rchar list \<Rightarrow> command" where
  "command_of s = (case find (\<lambda>(n, c). str_chars n = s) command_table of Some (n, c) \<Rightarrow> c | None \<Rightarrow> C_Unknown)"

text \<open>The command of a line and its arguments; a blank line has none.\<close>

definition parse_command :: "rchar list \<Rightarrow> (command \<times> bytes list) option" where
  "parse_command line =
     (case split_whitespace line of
        [] \<Rightarrow> None
      | cmd # args \<Rightarrow> Some (command_of cmd, map encode_str args))"

text \<open>The commands on the file system; every other command leaves it alone.\<close>

definition fs_command :: "command \<Rightarrow> bytes list \<Rightarrow> 'd term_cmd option" where
  "fs_command c args =
     (case c of
        C_Ls \<Rightarrow> Some (cmd_ls args) | C_Cat \<Rightarrow> Some (cmd_cat args) | C_Touch \<Rightarrow> Some (cmd_touch args)
      | C_Mkdir \<Rightarrow> Some (cmd_mkdir args) | C_Write \<Rightarrow> Some (cmd_write args) | C_Rm \<Rightarrow> Some (cmd_rm args)
      | C_Cd \<Rightarrow> Some (cmd_cd args) | C_Pwd \<Rightarrow> Some cmd_pwd | _ \<Rightarrow> None)"

end
