(* ===== verification/Terminal_Properties.thy ===== *)
theory Terminal_Properties
  imports Terminal
begin

text \<open>
  Properties of the terminal: the scan code queue under interrupts, that a line is read, and
  the bounds on what the terminal keeps.
\<close>

section \<open>Scan codes\<close>

lemma items_store_after_pushes:
  assumes "scan_inv q" and "scan_items q = x # rest"
  shows "scan_items (pop_store (SCANCODE_HEAD q) (fold push_scancode zs q)) = rest @ take (254 - length rest) zs"
    and "pop_read (SCANCODE_HEAD q) (fold push_scancode zs q) = x"
proof -
  have i: "scan_items (fold push_scancode zs q) = x # rest @ take (254 - length rest) zs"
    using scan.items_enqs [OF assms(1), of zs] assms(2) by simp
  note p = items_pop [OF scan.invar_enqs [OF assms(1), of zs] i, unfolded head_pushes]
  show "scan_items (pop_store (SCANCODE_HEAD q) (fold push_scancode zs q)) = rest @ take (254 - length rest) zs"
    and "pop_read (SCANCODE_HEAD q) (fold push_scancode zs q) = x" by (rule p)+
qed

text \<open>C27: \<open>pop_scancode\<close> takes the oldest scan code of the ring, also when the keyboard
  interrupt pushes \<open>xs\<close> between its test for emptiness and the read of the buffer and
  \<open>ys\<close> between that read and the store of the new head: the value is the one that was
  oldest at the test, nothing that was queued is lost or reordered, and what arrives is appended in order
  as far as the ring has room; what finds it full is dropped.\<close>

theorem pop_scancode_linearizable:
  assumes "scan_inv q"
  shows "case pop_interrupted xs ys q of (r, q') \<Rightarrow>
     scan_inv q' \<and>
     (case scan_items q of
        [] \<Rightarrow> r = None \<and> scan_items q' = take 255 (xs @ ys)
      | x # rest \<Rightarrow> r = Some x \<and> scan_items q' = rest @ take (254 - length rest) (xs @ ys))"
proof (cases "scan_items q")
  case Nil
  then show ?thesis
    using assms scan.items_enqs [OF assms, of "xs @ ys"] scan.invar_enqs [OF assms, of "xs @ ys"]
    by (simp add: pop_interrupted_def pop_test_iff Let_def)
next
  case (Cons x rest)
  then show ?thesis
    using assms items_store_after_pushes [OF assms Cons, of "xs @ ys"] items_store_after_pushes [OF assms Cons, of xs]
      scan.invar_enqs [OF assms, of "xs @ ys"]
    by (simp add: pop_interrupted_def pop_test_iff scan_inv_pop Let_def)
qed

theorem pop_scancode_linearizable_witness:
  "case pop_interrupted [0x9E] [0x1F] (fold push_scancode [0x1E, 0x30] scan_init) of (r, q') \<Rightarrow>
     scan_inv q' \<and> r = Some 0x1E \<and> scan_items q' = [0x30, 0x9E, 0x1F]"
proof -
  have i: "scan_inv (fold push_scancode [0x1E, 0x30] scan_init)" by (rule scan.invar_enqs [OF scan_init_inv(1)])
  have "scan_items (fold push_scancode [0x1E, 0x30] scan_init) = [0x1E, 0x30]"
    using scan.items_enqs [OF scan_init_inv(1), of "[0x1E, 0x30]"] scan_init_inv(2) by simp
  then show ?thesis using pop_scancode_linearizable [OF i, of "[0x9E]" "[0x1F]"] by simp
qed

section \<open>Lines\<close>

lemma str_len_ascii: "\<forall>c\<in>set s. c < 0x80 \<Longrightarrow> str_len s = length s"
  by (induction s) (simp_all add: str_len_def char_len_def)

lemma word_127_less: "b < 0x7F \<Longrightarrow> b < 0x80" for b :: u8
  by (simp add: word_less_nat_alt)

lemma ucast_ascii: "b < 0x80 \<Longrightarrow> (ucast (b :: u8) :: rchar) < 0x80"
  using le_less_trans [OF take_bit_nat_less_eq_self [of 32 "unat b"]] by (simp add: word_less_nat_alt unsigned_ucast_eq)

definition printable :: "u8 \<Rightarrow> bool" where
  "printable b \<longleftrightarrow> 0x20 \<le> b \<and> b < 0x7F"

definition typed :: "(u8 list \<times> u8 option) list \<Rightarrow> u8 list" where
  "typed is = List.map_filter snd is"

lemma typed_simps [simp]: "typed [] = []" "typed (i # is) = (case snd i of Some b \<Rightarrow> b # typed is | None \<Rightarrow> typed is)"
  by (simp_all add: typed_def List.map_filter_def split: option.split)

definition edits :: "u8 \<Rightarrow> bool" where
  "edits b \<longleftrightarrow> b \<in> {0x08, 0x0A, 0x0D, 0x7F}"

text \<open>Bytes that neither end the line nor delete: the printable ones are kept up to the limit.\<close>

lemma handle_serial_plain:
  assumes "\<not> edits b" and "\<forall>c\<in>set (input_buffer t). c < 0x80" and "length (input_buffer t) \<le> 256"
  shows "handle_serial b t = (t \<lparr> input_buffer := take 256 (input_buffer t @ (if printable b then [ucast b] else [])) \<rparr>, False)"
  using assms str_len_ascii [OF assms(2)]
  by (auto simp: handle_serial_def push_char_def printable_def edits_def MAX_INPUT_LEN_def)

lemma pop_silent: "scan_inv q \<Longrightarrow> scan_items q = [] \<Longrightarrow> pop_scancode q = (None, q)"
  by (rule scan.deq_empty)

lemma take_take_append: "take n (take n xs @ ys) = take n (xs @ ys)"
  by (cases "length xs \<le> n") simp_all

lemma read_loop_typed:
  assumes "scan_inv q" and "scan_items q = []"
    and "\<forall>i\<in>set is. fst i = []" and "\<forall>b\<in>set (typed is). \<not> edits b" and "e = 0x0D \<or> e = 0x0A"
  shows "\<forall>c\<in>set (input_buffer t). c < 0x80 \<Longrightarrow> length (input_buffer t) \<le> 256 \<Longrightarrow>
    read_loop decode (is @ ([], Some e) # later) k q t =
      Some (q, finish_line (t \<lparr> input_buffer := take 256 (input_buffer t @ map ucast (filter printable (typed is))) \<rparr>))"
  using assms(3,4)
proof (induction "is" arbitrary: t)
  case Nil
  then show ?case using assms(5) pop_silent [OF assms(1,2)] by (auto simp: handle_serial_def)
next
  case (Cons i "is")
  show ?case
  proof (cases "snd i")
    case None
    with Cons pop_silent [OF assms(1,2)] show ?thesis by simp
  next
    case (Some b)
    let ?t = "t \<lparr> input_buffer := take 256 (input_buffer t @ (if printable b then [ucast b] else [])) \<rparr>"
    have b: "\<not> edits b" using Cons.prems(4) Some by simp
    have "\<forall>c\<in>set (input_buffer ?t). c < 0x80"
      using Cons.prems(1) ucast_ascii [of b] word_127_less [of b] by (auto simp: printable_def dest!: in_set_takeD)
    moreover have "\<forall>i\<in>set is. fst i = []" "\<forall>b\<in>set (typed is). \<not> edits b"
      using Cons.prems(3,4) Some by simp_all
    ultimately have ih: "read_loop decode (is @ ([], Some e) # later) k q ?t =
        Some (q, finish_line (?t \<lparr> input_buffer := take 256 (input_buffer ?t @ map ucast (filter printable (typed is))) \<rparr>))"
      by (intro Cons.IH) simp_all
    have "read_loop decode ((i # is) @ ([], Some e) # later) k q t = read_loop decode (is @ ([], Some e) # later) k q ?t"
      using Cons.prems(3) Some pop_silent [OF assms(1,2)] handle_serial_plain [OF b Cons.prems(1,2)] by simp
    moreover have "take 256 (input_buffer ?t @ map ucast (filter printable (typed is))) =
        take 256 (input_buffer t @ map ucast (filter printable (typed (i # is))))"
      using take_take_append [of 256 "input_buffer t @ (if printable b then [ucast b] else [])"] Some by (simp del: take_append)
    ultimately show ?thesis using ih by simp
  qed
qed

text \<open>C28: When no key is pressed, a line typed over the serial port is read: whatever pauses are
  between the bytes, the carriage return or line feed makes \<open>read_line\<close> return, with the
  printable bytes in the buffer, at most 256 of them, and control bytes other than the
  deleting ones ignored. A line that is not empty becomes the newest of at most 50 lines of
  history.\<close>

theorem read_line_returns:
  assumes "scan_inv q" and "scan_items q = []"
    and "\<forall>i\<in>set is. fst i = []" and "\<forall>b\<in>set (typed is). \<not> edits b" and "e = 0x0D \<or> e = 0x0A"
    and "length (history t) \<le> 50"
  shows "\<exists>t'. read_line decode k (is @ ([], Some e) # later) q t = Some (q, t') \<and>
    input_buffer t' = take 256 (map ucast (filter printable (typed is))) \<and>
    length (history t') \<le> 50 \<and>
    (if filter printable (typed is) = [] then history t' = history t
     else history t' = drop (length (history t) - 49) (history t) @ [input_buffer t'] \<and> history_index t' = None)"
proof -
  let ?l = "take 256 (map ucast (filter printable (typed is))) :: rchar list"
  have r: "read_line decode k (is @ ([], Some e) # later) q t = Some (q, finish_line (t \<lparr> input_buffer := ?l \<rparr>))"
    using read_loop_typed [OF assms(1-5), of "t \<lparr> input_buffer := [] \<rparr>" decode later k] by (simp add: read_line_def)
  have "length (history t) = 50 \<or> length (history t) \<le> 49" using assms(6) by linarith
  then have h: "(if 50 < length (history t @ [x]) then tl (history t @ [x]) else history t @ [x]) =
      drop (length (history t) - 49) (history t) @ [x]" for x
    by (cases "history t") (auto simp: numeral_eq_Suc)
  show ?thesis using assms(6) h unfolding r by (auto simp: finish_line_def MAX_HISTORY_def Let_def)
qed

theorem read_line_returns_witness:
  "\<exists>t'. read_line (\<lambda>k b. (k, None)) () [([], Some 0x6C), ([], None), ([], Some 0x01), ([], Some 0x73), ([], Some 0x0D)]
      scan_init terminal_new = Some (scan_init, t') \<and> input_buffer t' = [0x6C, 0x73] \<and> history t' = [[0x6C, 0x73]]"
proof -
  let ?is = "[([], Some 0x6C), ([], None), ([], Some 0x01), ([], Some 0x73)] :: (u8 list \<times> u8 option) list"
  have t: "typed ?is = [0x6C, 0x01, 0x73]" by simp
  have "\<forall>b\<in>set (typed ?is). \<not> edits b" unfolding t by (simp add: edits_def)
  moreover have "\<not> printable 1" "printable 0x6C" "printable 0x73" by (simp_all add: printable_def word_le_nat_alt)
  ultimately show ?thesis
    using read_line_returns [OF scan_init_inv, of ?is "0x0D" terminal_new "\<lambda>k b. (k, None)" "()" "[]"]
    by (auto simp: t terminal_new_def)
qed

end
