(* ===== verification/Pci.thy ===== *)
theory Pci
  imports Prelude
begin

text \<open>
  The PCI bus: \<open>kernel/src/drivers/pci/mod.rs\<close>. Configuration registers are read through the
  address port \<open>0xCF8\<close> and the data port \<open>0xCFC\<close>; the 32-bit port instructions are a
  parameter over a machine state. \<open>pci_law\<close> states the documented access mechanism.
\<close>

section \<open>Configuration space\<close>

record 'm port32 =
  inl :: "u16 \<Rightarrow> 'm \<Rightarrow> u32 \<times> 'm"
  outl :: "u16 \<Rightarrow> u32 \<Rightarrow> 'm \<Rightarrow> 'm"

definition pci_address :: "u8 \<Rightarrow> u8 \<Rightarrow> u8 \<Rightarrow> u8 \<Rightarrow> u32" where
  "pci_address bus device function offset =
     0x80000000 OR push_bit 16 (ucast bus) OR push_bit 11 (ucast device) OR push_bit 8 (ucast function) OR (ucast offset AND 0xFC)"

definition pci_read_u32 :: "'m port32 \<Rightarrow> u8 \<Rightarrow> u8 \<Rightarrow> u8 \<Rightarrow> u8 \<Rightarrow> 'm \<Rightarrow> u32 \<times> 'm" where
  "pci_read_u32 P bus device function offset m = inl P 0xCFC (outl P 0xCF8 (pci_address bus device function offset) m)"

definition pci_read_u16 :: "'m port32 \<Rightarrow> u8 \<Rightarrow> u8 \<Rightarrow> u8 \<Rightarrow> u8 \<Rightarrow> 'm \<Rightarrow> u16 \<times> 'm" where
  "pci_read_u16 P bus device function offset m =
     (case inl P 0xCFC (outl P 0xCF8 (pci_address bus device function offset) m) of (v, m') \<Rightarrow> (ucast v, m'))"

definition pci_read_u8 :: "'m port32 \<Rightarrow> u8 \<Rightarrow> u8 \<Rightarrow> u8 \<Rightarrow> u8 \<Rightarrow> 'm \<Rightarrow> u8 \<times> 'm" where
  "pci_read_u8 P bus device function offset m =
     (case inl P 0xCFC (outl P 0xCF8 (pci_address bus device function offset) m) of (v, m') \<Rightarrow> (ucast v, m'))"

section \<open>Devices\<close>

record PciDevice =
  pci_bus :: u8
  pci_device :: u8
  pci_function :: u8
  vendor_id :: u16
  device_id :: u16
  pci_class :: u8
  pci_subclass :: u8
  header_type :: u8

definition pci_device_new :: "'m port32 \<Rightarrow> u8 \<Rightarrow> u8 \<Rightarrow> u8 \<Rightarrow> 'm \<Rightarrow> PciDevice option \<times> 'm" where
  "pci_device_new P bus device function m =
     (case pci_read_u16 P bus device function 0 m of (vendor, m) \<Rightarrow>
        if vendor = 0xFFFF then (None, m)
        else (case pci_read_u16 P bus device function 2 m of (dev, m) \<Rightarrow>
          (case pci_read_u32 P bus device function 8 m of (class_rev, m) \<Rightarrow>
            (case pci_read_u8 P bus device function 14 m of (header, m) \<Rightarrow>
              (Some \<lparr> pci_bus = bus, pci_device = device, pci_function = function, vendor_id = vendor, device_id = dev,
                 pci_class = ucast (drop_bit 24 class_rev), pci_subclass = ucast (drop_bit 16 class_rev),
                 header_type = header \<rparr>, m)))))"

definition is_bridge :: "PciDevice \<Rightarrow> bool" where
  "is_bridge d \<longleftrightarrow> pci_class d = 0x06 \<and> pci_subclass d = 0x04"

text \<open>The probes of a loop, appended to the devices found so far.\<close>

definition probe_push :: "'m port32 \<Rightarrow> u8 \<times> u8 \<times> u8 \<Rightarrow> PciDevice list \<times> 'm \<Rightarrow> PciDevice list \<times> 'm" where
  "probe_push P a s =
     (case a of (bus, device, function) \<Rightarrow> (case s of (devices, m) \<Rightarrow>
        (case pci_device_new P bus device function m of
           (Some d, m) \<Rightarrow> (devices @ [d], m) | (None, m) \<Rightarrow> (devices, m))))"

definition scan_slot_of :: "'m port32 \<Rightarrow> u8 \<Rightarrow> u8 \<Rightarrow> PciDevice list \<times> 'm \<Rightarrow> PciDevice list \<times> 'm" where
  "scan_slot_of P bus device s =
     (case s of (devices, m) \<Rightarrow>
        (case pci_device_new P bus device 0 m of
           (None, m) \<Rightarrow> (devices, m)
         | (Some dev, m) \<Rightarrow>
             let multi_func = header_type dev AND 0x80 \<noteq> 0;
                 s1 = (devices @ [dev], m);
                 s2 = (if is_bridge dev then
                         (case pci_read_u8 P bus device 0 0x19 (snd s1) of (sub_bus, m) \<Rightarrow>
                            fold (\<lambda>sub_device. probe_push P (sub_bus, of_nat sub_device, 0)) [0..<32] (fst s1, m))
                       else s1) in
             if multi_func then fold (\<lambda>func. probe_push P (bus, device, of_nat func)) [1..<8] s2 else s2))"

definition scan_pci_bus :: "'m port32 \<Rightarrow> 'm \<Rightarrow> PciDevice list \<times> 'm" where
  "scan_pci_bus P m =
     fold (\<lambda>bus s. fold (\<lambda>device. scan_slot_of P (of_nat bus) (of_nat device)) [0..<32] s) [0..<256] ([], m)"

section \<open>What the scan finds\<close>

text \<open>The access mechanism: the data port reads the register whose address was written last.\<close>

definition pci_law :: "'m port32 \<Rightarrow> (u32 \<Rightarrow> u32) \<Rightarrow> bool" where
  "pci_law P config \<longleftrightarrow> (\<forall>a m. fst (inl P 0xCFC (outl P 0xCF8 a m)) = config a)"

definition config_device :: "(u32 \<Rightarrow> u32) \<Rightarrow> u8 \<times> u8 \<times> u8 \<Rightarrow> PciDevice option" where
  "config_device config a =
     (case a of (b, d, f) \<Rightarrow>
        let id = config (pci_address b d f 0); class_rev = config (pci_address b d f 8) in
        if (ucast id :: u16) = 0xFFFF then None
        else Some \<lparr> pci_bus = b, pci_device = d, pci_function = f, vendor_id = ucast id, device_id = ucast id,
          pci_class = ucast (drop_bit 24 class_rev), pci_subclass = ucast (drop_bit 16 class_rev),
          header_type = ucast (config (pci_address b d f 12)) \<rparr>)"

definition config_slot :: "(u32 \<Rightarrow> u32) \<Rightarrow> u8 \<Rightarrow> u8 \<Rightarrow> PciDevice list" where
  "config_slot config b d =
     (case config_device config (b, d, 0) of
        None \<Rightarrow> []
      | Some dev \<Rightarrow> dev #
          (if is_bridge dev then
             List.map_filter (\<lambda>i. config_device config (ucast (config (pci_address b d 0 0x18)), of_nat i, 0)) [0..<32] else []) @
          (if header_type dev AND 0x80 \<noteq> 0 then List.map_filter (\<lambda>i. config_device config (b, d, of_nat i)) [1..<8] else []))"

lemma address_aligned: "pci_address b d f 2 = pci_address b d f 0" "pci_address b d f 14 = pci_address b d f 12"
  "pci_address b d f 0x19 = pci_address b d f 0x18"
  by (simp_all add: pci_address_def)

lemma device_new_config:
  assumes "pci_law P config"
  shows "fst (pci_device_new P b d f m) = config_device config (b, d, f)"
proof -
  have r: "\<exists>m'. inl P 0xCFC (outl P 0xCF8 a m) = (config a, m')" for a m
    using assms unfolding pci_law_def by (metis prod.collapse)
  obtain m1 where 1: "inl P 0xCFC (outl P 0xCF8 (pci_address b d f 0) m) = (config (pci_address b d f 0), m1)" using r by blast
  obtain m2 where 2: "inl P 0xCFC (outl P 0xCF8 (pci_address b d f 0) m1) = (config (pci_address b d f 0), m2)" using r by blast
  obtain m3 where 3: "inl P 0xCFC (outl P 0xCF8 (pci_address b d f 8) m2) = (config (pci_address b d f 8), m3)" using r by blast
  obtain m4 where 4: "inl P 0xCFC (outl P 0xCF8 (pci_address b d f 12) m3) = (config (pci_address b d f 12), m4)" using r by blast
  show ?thesis
    by (simp add: pci_device_new_def pci_read_u16_def pci_read_u32_def pci_read_u8_def address_aligned 1 2 3 4 config_device_def Let_def)
qed

lemma probes_config:
  assumes "pci_law P config"
  shows "fst (fold (\<lambda>i. probe_push P (g i)) is s) = fst s @ List.map_filter (\<lambda>i. config_device config (g i)) is"
proof (induction "is" arbitrary: s)
  case (Cons i "is")
  obtain b d f where g: "g i = (b, d, f)" by (cases "g i")
  obtain r m' where r: "pci_device_new P b d f (snd s) = (r, m')" by fastforce
  then have "config_device config (b, d, f) = r" using device_new_config [OF assms, of b d f "snd s"] by simp
  with r Cons g show ?case by (cases s; cases r) (simp_all add: probe_push_def List.map_filter_def)
qed (simp add: List.map_filter_def)

lemma slot_config:
  assumes "pci_law P config"
  shows "fst (scan_slot_of P b d s) = fst s @ config_slot config b d"
proof -
  obtain r m' where r: "pci_device_new P b d 0 (snd s) = (r, m')" by fastforce
  then have c: "config_device config (b, d, 0) = r" using device_new_config [OF assms, of b d 0 "snd s"] by simp
  obtain m2 where "inl P 0xCFC (outl P 0xCF8 (pci_address b d 0 0x18) m') = (config (pci_address b d 0 0x18), m2)"
    using assms unfolding pci_law_def by (metis prod.collapse)
  then have "pci_read_u8 P b d 0 0x19 m' = (ucast (config (pci_address b d 0 0x18)), m2)"
    by (simp add: pci_read_u8_def address_aligned)
  with r c show ?thesis
    by (cases s; cases r) (simp_all add: scan_slot_of_def config_slot_def Let_def probes_config [OF assms])
qed

lemma fold_appends: "(\<And>i s. fst (F i s) = fst s @ g i) \<Longrightarrow> fst (fold F is s) = fst s @ concat (map g is)"
  by (induction "is" arbitrary: s) simp_all

lemma config_device_ids: "config_device config a = Some dev \<Longrightarrow> device_id dev = vendor_id dev"
  by (auto simp: config_device_def Let_def split: prod.splits if_splits)

lemma config_slot_ids: "dev \<in> set (config_slot config b d) \<Longrightarrow> device_id dev = vendor_id dev"
  by (auto simp: config_slot_def List.map_filter_def split: option.splits if_splits dest: config_device_ids config_device_ids [OF sym])

section \<open>Properties\<close>

text \<open>C35: What the scan lists, over the documented access mechanism. The low two bits of a register offset are dropped
  and the low half of the word is taken, so the code decides by other registers than it means to. For every slot of the 256
  buses that has a device it lists this device; then, for a bridge (by its class), the devices of the bus
  whose number is in the byte of the primary bus, which the code takes for the secondary bus; then the functions 1
  to 7 that answer, when the top bit of the byte of the cache line size is set, which the code takes for the header
  type. Every device is listed with its vendor number as device number.\<close>

theorem scan_pci_bus_result:
  assumes "pci_law P config"
  shows "fst (scan_pci_bus P m) =
      concat (map (\<lambda>b. concat (map (\<lambda>d. config_slot config (of_nat b) (of_nat d)) [0..<32])) [0..<256]) \<and>
    (\<forall>dev\<in>set (fst (scan_pci_bus P m)). device_id dev = vendor_id dev)"
proof -
  have inner: "fst (fold (\<lambda>device. scan_slot_of P (of_nat b) (of_nat device)) [0..<32] s) =
      fst s @ concat (map (\<lambda>d. config_slot config (of_nat b) (of_nat d)) [0..<32])" for b s
    by (rule fold_appends) (rule slot_config [OF assms])
  have "fst (scan_pci_bus P m) =
      fst ([] :: PciDevice list, m) @ concat (map (\<lambda>b. concat (map (\<lambda>d. config_slot config (of_nat b) (of_nat d)) [0..<32])) [0..<256])"
    unfolding scan_pci_bus_def by (rule fold_appends) (rule inner)
  then show ?thesis using config_slot_ids by (auto simp del: upt_rec_numeral)
qed

text \<open>A machine with one network card, number \<open>0x100E\<close> of vendor \<open>0x8086\<close>.\<close>

definition one_card :: "u32 port32" where
  "one_card = \<lparr> inl = (\<lambda>port a. (if a = 0x80001800 then 0x100E8086 else 0xFFFFFFFF, a)), outl = (\<lambda>port v a. v) \<rparr>"

lemma mem_concat_concat: "x \<in> set (g i j) \<Longrightarrow> i \<in> set is \<Longrightarrow> j \<in> set js \<Longrightarrow> x \<in> set (concat (map (\<lambda>i. concat (map (g i) js)) is))"
  by auto

theorem scan_pci_bus_result_witness:
  "\<exists>dev\<in>set (fst (scan_pci_bus one_card 0)). vendor_id dev = 0x8086 \<and> device_id dev = 0x8086"
proof -
  let ?c = "\<lambda>a :: u32. if a = 0x80001800 then 0x100E8086 else 0xFFFFFFFF :: u32"
  have l: "pci_law one_card ?c" by (simp add: pci_law_def one_card_def)
  have "pci_address 0 3 0 0 = 0x80001800" by (simp add: pci_address_def)
  then obtain dev where dev: "config_device ?c (0, 3, 0) = Some dev" "vendor_id dev = 0x8086"
    by (auto simp: config_device_def Let_def)
  then have "dev \<in> set (config_slot ?c (of_nat 0) (of_nat 3))" by (simp add: config_slot_def)
  moreover have "(0 :: nat) \<in> set [0..<256]" "(3 :: nat) \<in> set [0..<32]" unfolding set_upt by simp_all
  ultimately have "dev \<in> set (concat (map (\<lambda>b. concat (map (\<lambda>d. config_slot ?c (of_nat b) (of_nat d)) [0..<32])) [0..<256]))"
    by (rule mem_concat_concat)
  then have "dev \<in> set (fst (scan_pci_bus one_card 0))" unfolding scan_pci_bus_result [OF l, THEN conjunct1] .
  moreover from this have "device_id dev = vendor_id dev" by (rule scan_pci_bus_result [OF l, THEN conjunct2, rule_format])
  ultimately show ?thesis using dev(2) by (intro bexI [of _ dev]) simp_all
qed

end
