(* ===== verification/Timer.thy ===== *)
theory Timer
  imports Ata_Driver Scancode_Queue
begin

text \<open>
  The timer and the interrupt handlers: \<open>kernel/src/time/mod.rs\<close>,
  \<open>kernel/src/interrupts/mod.rs\<close> and the handlers of \<open>kernel/src/arch/idt.rs\<close> that change state.
  Port instructions are the record \<open>port_io\<close>; the interrupt controller of the crate pic8259 is
  a parameter. Waiting is explicit: a list says how many ticks arrive between two looks at the
  counter.
\<close>

section \<open>The programmable interval timer\<close>

definition PIT_FREQUENCY :: u64 where "PIT_FREQUENCY = 1193182"
definition TICK_RATE :: u64 where "TICK_RATE = 100"
definition PIT_DIVISOR :: u64 where "PIT_DIVISOR = PIT_FREQUENCY div TICK_RATE"
definition PIT_CHANNEL0_PORT :: u16 where "PIT_CHANNEL0_PORT = 0x40"
definition PIT_COMMAND_PORT :: u16 where "PIT_COMMAND_PORT = 0x43"

record 'm timer =
  TICK_COUNT :: u64
  UPTIME_MS :: u64
  PIT_INITIALIZED :: bool
  timer_ports :: 'm

definition timer_boot :: "'m \<Rightarrow> 'm timer" where
  "timer_boot m = \<lparr> TICK_COUNT = 0, UPTIME_MS = 0, PIT_INITIALIZED = False, timer_ports = m \<rparr>"

definition time_init :: "'m port_io \<Rightarrow> 'm timer \<Rightarrow> 'm timer" where
  "time_init P t =
     (if PIT_INITIALIZED t then t
      else
        let divisor = ucast PIT_DIVISOR :: u16;
            divisor_lo = ucast (divisor AND 0xFF) :: u8;
            divisor_hi = ucast (drop_bit 8 divisor AND 0xFF) :: u8;
            m = outb P PIT_COMMAND_PORT 0x34 (timer_ports t);
            m = outb P PIT_CHANNEL0_PORT divisor_lo m;
            m = outb P PIT_CHANNEL0_PORT divisor_hi m in
        t \<lparr> PIT_INITIALIZED := True, timer_ports := m \<rparr>)"

definition tick :: "'m timer \<Rightarrow> 'm timer" where
  "tick t = t \<lparr> TICK_COUNT := TICK_COUNT t + 1 \<rparr>"

definition ticks :: "'m timer \<Rightarrow> u64" where
  "ticks t = TICK_COUNT t"

definition uptime_ms :: "'m timer \<Rightarrow> u64" where
  "uptime_ms t = TICK_COUNT t * (1000 div TICK_RATE)"

definition uptime_secs :: "'m timer \<Rightarrow> u64" where
  "uptime_secs t = uptime_ms t div 1000"

definition tick_rate :: u64 where "tick_rate = TICK_RATE"

definition timer_interrupt_handler :: "'m port_io \<Rightarrow> 'm timer \<Rightarrow> 'm timer" where
  "timer_interrupt_handler P t =
     (let t = tick t in t \<lparr> timer_ports := outb P 0x20 0x20 (timer_ports t) \<rparr>)"

text \<open>The waiting loop: every element of the list is the number of timer interrupts before the
  next look at the counter. \<open>None\<close>: the list ends while the processor still waits.\<close>

fun sleep_loop :: "'m port_io \<Rightarrow> u64 \<Rightarrow> nat list \<Rightarrow> 'm timer \<Rightarrow> ('m timer \<times> nat list) option" where
  "sleep_loop P end_tick ws t =
     (if TICK_COUNT t < end_tick then
        (case ws of [] \<Rightarrow> None | n # ws \<Rightarrow> sleep_loop P end_tick ws ((timer_interrupt_handler P ^^ n) t))
      else Some (t, ws))"

declare sleep_loop.simps [simp del]

definition sleep_ms :: "'m port_io \<Rightarrow> u64 \<Rightarrow> nat list \<Rightarrow> 'm timer \<Rightarrow> ('m timer \<times> nat list) option" where
  "sleep_ms P ms ws t =
     (let target_ticks = ms * TICK_RATE div 1000 in
      if target_ticks = 0 then Some (t, ws)
      else
        let start = TICK_COUNT t; end_tick = start + target_ticks in
        case sleep_loop P end_tick ws t of
          None \<Rightarrow> None
        | Some (t, ws) \<Rightarrow> Some (t \<lparr> UPTIME_MS := UPTIME_MS t + ms \<rparr>, ws))"

section \<open>Interrupts\<close>

definition PIC_1_OFFSET :: u8 where "PIC_1_OFFSET = 32"
definition PIC_2_OFFSET :: u8 where "PIC_2_OFFSET = PIC_1_OFFSET + 8"

datatype HardwareInterrupt = Timer | Keyboard | Cascade | Serial2 | Serial1

primrec irq_as_u8 :: "HardwareInterrupt \<Rightarrow> u8" where
  "irq_as_u8 Timer = PIC_1_OFFSET"
| "irq_as_u8 Keyboard = PIC_1_OFFSET + 1"
| "irq_as_u8 Cascade = PIC_1_OFFSET + 2"
| "irq_as_u8 Serial2 = PIC_1_OFFSET + 3"
| "irq_as_u8 Serial1 = PIC_1_OFFSET + 4"

text \<open>The controller: its set-up and the end-of-interrupt message, with the offsets it was created with.\<close>

record 'm pics =
  pics_initialize :: "u8 \<Rightarrow> u8 \<Rightarrow> 'm \<Rightarrow> 'm"
  notify_end_of_interrupt :: "u8 \<Rightarrow> u8 \<Rightarrow> u8 \<Rightarrow> 'm \<Rightarrow> 'm"

definition interrupts_init :: "'m port_io \<Rightarrow> 'm pics \<Rightarrow> 'm timer \<times> bool \<Rightarrow> 'm timer \<times> bool" where
  "interrupts_init P C s =
     (let t = time_init P (fst s);
          m = pics_initialize C PIC_1_OFFSET PIC_2_OFFSET (timer_ports t);
          m = outb P 0x21 0xFC m;
          m = outb P 0xA1 0xFF m in
      (t \<lparr> timer_ports := m \<rparr>, True))"

definition keyboard_interrupt_handler :: "'m port_io \<Rightarrow> 'm pics \<Rightarrow> scan_queue \<times> 'm \<Rightarrow> scan_queue \<times> 'm" where
  "keyboard_interrupt_handler P C s =
     (case s of (q, m) \<Rightarrow> (case inb P 0x60 m of (scancode, m) \<Rightarrow>
        (push_scancode scancode q, notify_end_of_interrupt C PIC_1_OFFSET PIC_2_OFFSET (irq_as_u8 Keyboard) m)))"

definition serial_interrupt_handler :: "'m pics \<Rightarrow> 'm \<Rightarrow> 'm" where
  "serial_interrupt_handler C m = notify_end_of_interrupt C PIC_1_OFFSET PIC_2_OFFSET (irq_as_u8 Serial1) m"

section \<open>Sleeping\<close>

lemma timer_ticks: "TICK_COUNT ((timer_interrupt_handler P ^^ n) t) = TICK_COUNT t + of_nat n"
  by (induction n) (simp_all add: timer_interrupt_handler_def tick_def Let_def)

lemma timer_uptime: "UPTIME_MS ((timer_interrupt_handler P ^^ n) t) = UPTIME_MS t"
  by (induction n) (simp_all add: timer_interrupt_handler_def tick_def Let_def)

lemma timer_acks: "timer_ports ((timer_interrupt_handler P ^^ n) t) = (outb P 0x20 0x20 ^^ n) (timer_ports t)"
  by (induction n) (simp_all add: timer_interrupt_handler_def tick_def Let_def)

text \<open>The loop stops after the shortest prefix of the list that reaches the end, if there is one.\<close>

lemma sleep_loop_outcome:
  assumes "unat (TICK_COUNT t) + sum_list ws < 2 ^ 64" and "unat end_tick = unat (TICK_COUNT t) + k"
  shows "case sleep_loop P end_tick ws t of
      None \<Rightarrow> sum_list ws < k
    | Some (t', rest) \<Rightarrow> \<exists>used. ws = used @ rest \<and> k \<le> sum_list used \<and> (used \<noteq> [] \<longrightarrow> sum_list (butlast used) < k) \<and>
        t' = (timer_interrupt_handler P ^^ sum_list used) t"
  using assms
proof (induction ws arbitrary: t k)
  case Nil
  then show ?case by (simp add: sleep_loop.simps [of P end_tick "[]"] word_less_nat_alt)
next
  case (Cons n ws)
  show ?case
  proof (cases "TICK_COUNT t < end_tick")
    case False
    with Cons.prems show ?thesis by (simp add: sleep_loop.simps word_less_nat_alt)
  next
    case True
    let ?t = "(timer_interrupt_handler P ^^ n) t"
    have c: "unat (TICK_COUNT ?t) = unat (TICK_COUNT t) + n"
      using Cons.prems(1) by (simp add: timer_ticks unat_word_ariths take_bit_nat_def unat_of_nat)
    have loop: "sleep_loop P end_tick (n # ws) t = sleep_loop P end_tick ws ?t"
      using True by (subst sleep_loop.simps) simp
    have k: "0 < k" using True Cons.prems(2) by (simp add: word_less_nat_alt)
    show ?thesis
    proof (cases "n \<le> k")
      case True
      have *: "case sleep_loop P end_tick ws ?t of
          None \<Rightarrow> sum_list ws < k - n
        | Some (t', rest) \<Rightarrow> \<exists>used. ws = used @ rest \<and> k - n \<le> sum_list used \<and> (used \<noteq> [] \<longrightarrow> sum_list (butlast used) < k - n) \<and>
            t' = (timer_interrupt_handler P ^^ sum_list used) ?t"
        by (rule Cons.IH) (use c Cons.prems True in simp_all)
      show ?thesis
      proof (cases "sleep_loop P end_tick ws ?t")
        case None
        with * loop show ?thesis by simp
      next
        case (Some r)
        obtain t' rest where r: "r = (t', rest)" by fastforce
        with * Some obtain used where u: "ws = used @ rest" "k - n \<le> sum_list used"
            "used \<noteq> [] \<longrightarrow> sum_list (butlast used) < k - n" "t' = (timer_interrupt_handler P ^^ sum_list used) ?t" by auto
        have "n # ws = (n # used) @ rest \<and> k \<le> sum_list (n # used) \<and> sum_list (butlast (n # used)) < k \<and>
            t' = (timer_interrupt_handler P ^^ sum_list (n # used)) t"
          using u k by (auto simp: funpow_add add.commute [of n])
        with Some r loop show ?thesis by auto
      qed
    next
      case False
      have "\<not> TICK_COUNT ?t < end_tick" using c Cons.prems(2) False by (simp add: word_less_nat_alt)
      then have "sleep_loop P end_tick ws ?t = Some (?t, ws)" by (simp add: sleep_loop.simps)
      with loop False k show ?thesis by (auto intro!: exI [of _ "[n]"])
    qed
  qed
qed

lemma sleep_target:
  assumes "unat ms * 100 < 2 ^ 64"
  shows "unat (ms * TICK_RATE div 1000) = unat ms div 10"
proof -
  have "unat (ms * TICK_RATE) = unat ms * 100"
    using assms by (simp add: TICK_RATE_def unat_word_ariths take_bit_nat_def)
  then show ?thesis by (simp add: unat_div)
qed

text \<open>The counter is programmed once: the command byte of mode 2, then the divisor \<open>11931\<close>, low byte first.\<close>

lemma time_init_once:
  "time_init P (time_init P t) = time_init P t"
  "\<not> PIT_INITIALIZED t \<Longrightarrow> timer_ports (time_init P t) = outb P 0x40 0x2E (outb P 0x40 0x9B (outb P 0x43 0x34 (timer_ports t)))"
  by (simp_all add: time_init_def Let_def PIT_DIVISOR_def PIT_FREQUENCY_def TICK_RATE_def PIT_COMMAND_PORT_def PIT_CHANNEL0_PORT_def)

text \<open>One tick is ten milliseconds of uptime, as long as the product stays in range.\<close>

lemma uptime_ms_ticks: "unat (TICK_COUNT t) * 10 < 2 ^ 64 \<Longrightarrow> unat (uptime_ms t) = unat (ticks t) * 10"
  by (simp add: uptime_ms_def ticks_def TICK_RATE_def unat_word_ariths take_bit_nat_def)

text \<open>The keyboard and the serial handler acknowledge the vectors they are installed at, 33 and 36.\<close>

lemma handler_vectors: "irq_as_u8 Timer = 32" "irq_as_u8 Keyboard = 33" "irq_as_u8 Serial1 = 36"
  by (simp_all add: PIC_1_OFFSET_def)

text \<open>The product of the wait wraps: a very long wait ends at once.\<close>

lemma sleep_ms_wraps: "sleep_ms P 184467440737095517 ws t = Some (t, ws)"
  by (simp add: sleep_ms_def TICK_RATE_def)

section \<open>Properties\<close>

text \<open>C36: A wait returns if enough timer interrupts arrive, and otherwise still waits when they are over. It
  returns at the first look at the counter after one tick for every ten milliseconds asked for,
  and at once, without an account in \<open>UPTIME_MS\<close>, when fewer than ten are asked for; the handler has
  counted and acknowledged each interrupt.\<close>

theorem sleep_ms_outcome:
  assumes "unat ms * 100 < 2 ^ 64"
    and "unat (TICK_COUNT t) + unat ms div 10 < 2 ^ 64"
    and "unat (TICK_COUNT t) + sum_list ws < 2 ^ 64"
  shows "case sleep_ms P ms ws t of
      None \<Rightarrow> sum_list ws < unat ms div 10
    | Some (t', rest) \<Rightarrow> \<exists>used. ws = used @ rest \<and> unat ms div 10 \<le> sum_list used \<and>
        (used \<noteq> [] \<longrightarrow> sum_list (butlast used) < unat ms div 10) \<and>
        unat (ticks t') = unat (ticks t) + sum_list used \<and>
        UPTIME_MS t' = (if unat ms < 10 then UPTIME_MS t else UPTIME_MS t + ms) \<and>
        timer_ports t' = (outb P 0x20 0x20 ^^ sum_list used) (timer_ports t)"
proof (cases "unat ms div 10 = 0")
  case True
  then have "ms * TICK_RATE div 1000 = 0" using sleep_target [OF assms(1)] by (simp add: unat_eq_0)
  with True show ?thesis by (auto simp: sleep_ms_def Let_def)
next
  case False
  let ?d = "ms * TICK_RATE div 1000"
  have d: "unat ?d = unat ms div 10" by (rule sleep_target [OF assms(1)])
  then have "?d \<noteq> 0" using False by auto
  moreover have e: "unat (TICK_COUNT t + ?d) = unat (TICK_COUNT t) + unat ms div 10"
    using assms(2) d by (simp add: unat_word_ariths take_bit_nat_def)
  ultimately show ?thesis
  proof (cases "sleep_loop P (TICK_COUNT t + ?d) ws t")
    case None
    with sleep_loop_outcome [OF assms(3) e, of P] \<open>?d \<noteq> 0\<close> show ?thesis by (simp add: sleep_ms_def Let_def)
  next
    case (Some r)
    obtain t1 rest where r: "r = (t1, rest)" by fastforce
    with sleep_loop_outcome [OF assms(3) e, of P] Some obtain used where u: "ws = used @ rest"
        "unat ms div 10 \<le> sum_list used" "used \<noteq> [] \<longrightarrow> sum_list (butlast used) < unat ms div 10"
        "t1 = (timer_interrupt_handler P ^^ sum_list used) t" by auto
    have "unat (TICK_COUNT t1) = unat (TICK_COUNT t) + sum_list used"
      using u(1,4) assms(3) by (simp add: timer_ticks unat_word_ariths take_bit_nat_def unat_of_nat)
    with u False Some r \<open>?d \<noteq> 0\<close> show ?thesis
      by (auto simp: sleep_ms_def Let_def ticks_def timer_uptime timer_acks intro!: exI [of _ used])
  qed
qed

text \<open>25 milliseconds with five interrupts to come, the second and the third of them between two looks.\<close>

definition no_ports :: "nat port_io" where
  "no_ports = \<lparr> inb = (\<lambda>p m. (0, m)), outb = (\<lambda>p v m. Suc m), inw = (\<lambda>p m. (0, m)), outw = (\<lambda>p v m. m) \<rparr>"

lemma funpow_two: "(f ^^ 2) x = f (f x)"
  by (simp add: numeral_2_eq_2)

theorem sleep_ms_outcome_witness:
  "sleep_ms no_ports 25 [1, 2, 2] (timer_boot 0) = Some (\<lparr> TICK_COUNT = 3, UPTIME_MS = 25, PIT_INITIALIZED = False, timer_ports = 3 \<rparr>, [2]) \<and>
   (case sleep_ms no_ports 25 [1, 2, 2] (timer_boot 0) of
      None \<Rightarrow> False
    | Some (t', rest) \<Rightarrow> \<exists>used. [1, 2, 2] = used @ rest \<and> 2 \<le> sum_list used \<and> unat (ticks t') = sum_list used)"
proof -
  have "sleep_ms no_ports 25 [1, 2, 2] (timer_boot 0) = Some (\<lparr> TICK_COUNT = 3, UPTIME_MS = 25, PIT_INITIALIZED = False, timer_ports = 3 \<rparr>, [2])"
    by (simp add: sleep_ms_def timer_boot_def TICK_RATE_def Let_def sleep_loop.simps timer_interrupt_handler_def tick_def no_ports_def
        funpow_two)
  then show ?thesis
    using sleep_ms_outcome [of 25 "timer_boot 0 :: nat timer" "[1, 2, 2]" no_ports]
    by (auto simp: timer_boot_def ticks_def)
qed

end
