(* ===== verification/Segments.thy ===== *)
theory Segments
  imports Process_Properties
begin

text \<open>
  Segments and the task state: \<open>kernel/src/arch/gdt.rs\<close>. The descriptor table is built with
  \<open>GlobalDescriptorTable\<close> of the crate x86_64, a parameter; \<open>gdt_law\<close> states its
  documented behaviour: a descriptor is appended to the table, a segment takes one slot and a
  system descriptor two, and the selector returned is the index of the first slot with the
  privilege level of the descriptor. \<open>iretq_allows\<close> states what the processor demands of the
  selectors of a program; with it the theorem on the attempt to enter a launched process.
\<close>

section \<open>The descriptor table\<close>

datatype Descriptor = kernel_code_segment | kernel_data_segment | tss_segment | user_data_segment | user_code_segment

record 't gdt_crate =
  gdt_new :: 't
  gdt_append :: "Descriptor \<Rightarrow> 't \<Rightarrow> u16 \<times> 't"

record 't KernelGdt =
  gdt :: 't
  code_selector :: u16
  data_selector :: u16
  tss_selector :: u16
  user_code_selector :: u16
  user_data_selector :: u16

definition GDT :: "'t gdt_crate \<Rightarrow> 't KernelGdt" where
  "GDT C =
     (case gdt_append C kernel_code_segment (gdt_new C) of (code, t) \<Rightarrow>
      (case gdt_append C kernel_data_segment t of (data, t) \<Rightarrow>
      (case gdt_append C tss_segment t of (tss, t) \<Rightarrow>
      (case gdt_append C user_data_segment t of (user_data, t) \<Rightarrow>
      (case gdt_append C user_code_segment t of (user_code, t) \<Rightarrow>
        \<lparr> gdt = t, code_selector = code, data_selector = data, tss_selector = tss,
          user_code_selector = user_code, user_data_selector = user_data \<rparr>)))))"

section \<open>The task state segment\<close>

definition STACK_IST_INDEX :: u16 where "STACK_IST_INDEX = 0"

record TaskState =
  privilege_stack_table :: "u64 list"
  interrupt_stack_table :: "u64 list"

definition TSS_new :: TaskState where
  "TSS_new = \<lparr> privilege_stack_table = replicate 3 0, interrupt_stack_table = replicate 7 0 \<rparr>"

record 't cpu_segments =
  TSS :: TaskState
  gdt_register :: "'t option"
  reg_cs :: u16
  reg_ds :: u16
  task_register :: u16

text \<open>\<open>None\<close>: \<open>VirtAddr::new\<close> panics.\<close>

definition gdt_init :: "'t gdt_crate \<Rightarrow> x86_crate \<Rightarrow> 't cpu_segments \<Rightarrow> 't cpu_segments option" where
  "gdt_init C cr s =
     (case (virt_new cr 0x65000, virt_new cr 0x6A000) of
        (Some df, Some nmi) \<Rightarrow>
          let s = s \<lparr> TSS := (TSS s) \<lparr> interrupt_stack_table := (interrupt_stack_table (TSS s))[0 := df, 1 := nmi] \<rparr> \<rparr> in
          Some (s \<lparr> gdt_register := Some (gdt (GDT C)), reg_cs := code_selector (GDT C), reg_ds := data_selector (GDT C),
            task_register := tss_selector (GDT C) \<rparr>)
      | _ \<Rightarrow> None)"

definition set_tss_rsp0 :: "x86_crate \<Rightarrow> u64 \<Rightarrow> 't cpu_segments \<Rightarrow> 't cpu_segments option" where
  "set_tss_rsp0 cr rsp s =
     map_option (\<lambda>v. s \<lparr> TSS := (TSS s) \<lparr> privilege_stack_table := (privilege_stack_table (TSS s))[0 := v] \<rparr> \<rparr>) (virt_new cr rsp)"

section \<open>What the selectors name\<close>

datatype gdt_slot = NullSlot | SegmentSlot Descriptor | HighHalf Descriptor

definition descriptor_slots :: "Descriptor \<Rightarrow> gdt_slot list" where
  "descriptor_slots d = (if d = tss_segment then [SegmentSlot d, HighHalf d] else [SegmentSlot d])"

definition descriptor_dpl :: "Descriptor \<Rightarrow> u16" where
  "descriptor_dpl d = (if d = user_data_segment \<or> d = user_code_segment then 3 else 0)"

definition gdt_law :: "'t gdt_crate \<Rightarrow> ('t \<Rightarrow> gdt_slot list) \<Rightarrow> bool" where
  "gdt_law C slots \<longleftrightarrow> slots (gdt_new C) = [NullSlot] \<and>
     (\<forall>d t. length (slots t) + length (descriptor_slots d) \<le> 8 \<longrightarrow>
        fst (gdt_append C d t) = push_bit 3 (of_nat (length (slots t))) OR descriptor_dpl d \<and>
        slots (snd (gdt_append C d t)) = slots t @ descriptor_slots d)"

text \<open>The slot that a selector names, for selectors of the global table.\<close>

definition selected_slot :: "gdt_slot list \<Rightarrow> u16 \<Rightarrow> gdt_slot option" where
  "selected_slot xs sel = (let i = unat (drop_bit 3 sel) in if i < length xs then Some (xs ! i) else None)"

lemma gdt_layout:
  assumes "gdt_law C slots"
  shows "slots (gdt (GDT C)) = [NullSlot, SegmentSlot kernel_code_segment, SegmentSlot kernel_data_segment,
      SegmentSlot tss_segment, HighHalf tss_segment, SegmentSlot user_data_segment, SegmentSlot user_code_segment]"
    and "code_selector (GDT C) = 0x08" "data_selector (GDT C) = 0x10" "tss_selector (GDT C) = 0x18"
      "user_data_selector (GDT C) = 0x2B" "user_code_selector (GDT C) = 0x33"
proof -
  have a: "\<exists>t'. gdt_append C d t = (push_bit 3 (of_nat (length (slots t))) OR descriptor_dpl d, t') \<and> slots t' = slots t @ descriptor_slots d"
    if "length (slots t) + length (descriptor_slots d) \<le> 8" for d t
    using assms that unfolding gdt_law_def by (metis prod.collapse)
  have n: "slots (gdt_new C) = [NullSlot]" using assms by (simp add: gdt_law_def)
  note ds = descriptor_slots_def descriptor_dpl_def
  obtain t1 where 1: "gdt_append C kernel_code_segment (gdt_new C) = (0x08, t1)"
      "slots t1 = [NullSlot, SegmentSlot kernel_code_segment]"
    using a [of "gdt_new C" kernel_code_segment] n by (auto simp: ds)
  obtain t2 where 2: "gdt_append C kernel_data_segment t1 = (0x10, t2)" "slots t2 = slots t1 @ [SegmentSlot kernel_data_segment]"
    using a [of t1 kernel_data_segment] 1 by (auto simp: ds)
  obtain t3 where 3: "gdt_append C tss_segment t2 = (0x18, t3)" "slots t3 = slots t2 @ [SegmentSlot tss_segment, HighHalf tss_segment]"
    using a [of t2 tss_segment] 1 2 by (auto simp: ds)
  obtain t4 where 4: "gdt_append C user_data_segment t3 = (0x2B, t4)" "slots t4 = slots t3 @ [SegmentSlot user_data_segment]"
    using a [of t3 user_data_segment] 1 2 3 by (auto simp: ds)
  obtain t5 where 5: "gdt_append C user_code_segment t4 = (0x33, t5)" "slots t5 = slots t4 @ [SegmentSlot user_code_segment]"
    using a [of t4 user_code_segment] 1 2 3 4 by (auto simp: ds)
  show "slots (gdt (GDT C)) = [NullSlot, SegmentSlot kernel_code_segment, SegmentSlot kernel_data_segment,
      SegmentSlot tss_segment, HighHalf tss_segment, SegmentSlot user_data_segment, SegmentSlot user_code_segment]"
    "code_selector (GDT C) = 0x08" "data_selector (GDT C) = 0x10" "tss_selector (GDT C) = 0x18"
    "user_data_selector (GDT C) = 0x2B" "user_code_selector (GDT C) = 0x33"
    by (simp_all add: GDT_def 1 2 3 4 5)
qed

lemma ist_entries: "take 2 ((replicate 7 x)[0 := a, Suc 0 := b]) = [a, b]"
  by (simp add: eval_nat_numeral)

text \<open>The interrupt stacks lie in the range that the frame allocator keeps reserved.\<close>

lemma gdt_init_effect:
  assumes "gdt_law C slots" and "x86_law cr" and "TSS s = TSS_new"
  obtains s' where "gdt_init C cr s = Some s'" "take 2 (interrupt_stack_table (TSS s')) = [0x65000, 0x6A000]"
    "reg_cs s' = 0x08" "reg_ds s' = 0x10" "task_register s' = 0x18"
proof -
  have "virt_new cr a = (if canonical a then Some a else None)" for a using assms(2) unfolding x86_law_def by blast
  then have "\<exists>s'. gdt_init C cr s = Some s' \<and> take 2 (interrupt_stack_table (TSS s')) = [0x65000, 0x6A000] \<and>
      reg_cs s' = 0x08 \<and> reg_ds s' = 0x10 \<and> task_register s' = 0x18"
    using assms(3) by (simp add: gdt_init_def canonical_def gdt_layout [OF assms(1)] TSS_new_def Let_def ist_entries)
  then show thesis using that by blast
qed

text \<open>The crate as documented, on lists of slots.\<close>

definition documented_gdt :: "gdt_slot list gdt_crate" where
  "documented_gdt = \<lparr> gdt_new = [NullSlot],
     gdt_append = (\<lambda>d t. (push_bit 3 (of_nat (length t)) OR descriptor_dpl d, t @ descriptor_slots d)) \<rparr>"

lemma documented_gdt_law: "gdt_law documented_gdt (\<lambda>t. t)"
  by (simp add: gdt_law_def documented_gdt_def)

section \<open>Entering a process\<close>

text \<open>What \<open>iretq\<close> demands of the selectors it loads for a program: a code segment and a data segment of the
  global table, of the privilege that both selectors ask for.\<close>

definition iretq_allows :: "gdt_slot list \<Rightarrow> u64 \<Rightarrow> u64 \<Rightarrow> bool" where
  "iretq_allows xs cs ss \<longleftrightarrow> \<not> bit cs 2 \<and> \<not> bit ss 2 \<and> ss AND 3 = cs AND 3 \<and>
     (case (selected_slot xs (ucast cs), selected_slot xs (ucast ss)) of
        (Some (SegmentSlot c), Some (SegmentSlot d)) \<Rightarrow>
          c \<in> {kernel_code_segment, user_code_segment} \<and> d \<in> {kernel_data_segment, user_data_segment} \<and>
          descriptor_dpl c = ucast cs AND 3 \<and> descriptor_dpl d = ucast ss AND 3
      | _ \<Rightarrow> False)"

lemma first_selectors_refused:
  "gdt_law C slots \<Longrightarrow> \<not> iretq_allows (slots (gdt (GDT C))) (cx_cs (first_context e)) (cx_ss (first_context e))"
  by (simp add: iretq_allows_def gdt_layout selected_slot_def first_context_def USER_CS_def USER_SS_def)

text \<open>The frame is read from the bytes at its addresses.\<close>

lemma stack_words_cong:
  assumes "\<forall>a\<in>set (frame_bytes rsp). m1 a = m2 a"
  shows "stack_words 20 m1 rsp = stack_words 20 m2 rsp"
proof (rule nth_equalityI)
  fix i
  assume "i < length (stack_words 20 m1 rsp)"
  then have i: "i < 20" by simp
  have "m1 (rsp + 8 * of_nat i + of_nat j) = m2 (rsp + 8 * of_nat i + of_nat j)" if "j < 8" for j
  proof -
    have "rsp + 8 * of_nat i + of_nat j = rsp + of_nat (8 * i + j)" by simp
    moreover have "8 * i + j \<in> set [0..<160]" using i that by (simp only: set_upt) auto
    ultimately have "rsp + 8 * of_nat i + of_nat j \<in> set (frame_bytes rsp)" unfolding frame_bytes_def set_map by blast
    then show ?thesis using assms by blast
  qed
  from this [of 0] this [of 1] this [of 2] this [of 3] this [of 4] this [of 5] this [of 6] this [of 7] i
  show "stack_words 20 m1 rsp ! i = stack_words 20 m2 rsp ! i"
    by (simp add: nth_stack_words load64_def load32_def add.assoc)
qed simp

lemma find_Some: "List.find P xs = Some x \<Longrightarrow> x \<in> set xs \<and> P x"
  by (induction xs) (auto split: if_splits)

lemma find_None: "List.find P xs = None \<longleftrightarrow> (\<forall>x\<in>set xs. \<not> P x)"
  by (induction xs) auto

text \<open>What happens behind the switch of the tables, when the frame in memory has selectors that are refused.\<close>

lemma after_switch_outcome:
  assumes m: "w_mem w = m" "translate m (w_cr3 w) = va"
    and refused: "\<not> sw_selectors sw (cx_cs (pop_and_iretq m rsp)) (cx_ss (pop_and_iretq m rsp))"
  shows "case after_switch sw rsp w of
      Entry_Panic \<Rightarrow> False
    | Page_Fault a u \<Rightarrow> u = w \<and> a \<in> set (sw_code sw) \<union> set (frame_bytes rsp) \<and> va a = None
    | Foreign_Code a u \<Rightarrow> u = w \<and> a \<in> set (sw_code sw) \<and> (\<exists>b. b \<noteq> a \<and> va a = Some b)
    | Protection_Fault u \<Rightarrow> u = w \<and> (\<forall>a\<in>set (sw_code sw). va a = Some a) \<and> (\<forall>a\<in>set (frame_bytes rsp). va a \<noteq> None)
    | Entered c u \<Rightarrow> u = w \<and> (\<forall>a\<in>set (sw_code sw). va a = Some a) \<and> (\<forall>a\<in>set (frame_bytes rsp). va a \<noteq> None) \<and>
        (\<exists>a\<in>set (frame_bytes rsp). va a \<noteq> Some a)"
proof -
  let ?m = "virtual_bytes m (w_cr3 w)"
  have same: "pop_and_iretq ?m rsp = pop_and_iretq m rsp" if "\<forall>a\<in>set (frame_bytes rsp). va a = Some a"
    unfolding pop_and_iretq_def
    by (rule arg_cong [OF stack_words_cong]) (use that m in \<open>simp add: virtual_bytes_def\<close>)
  have "\<exists>a\<in>set (frame_bytes rsp). va a \<noteq> Some a"
    if "sw_selectors sw (cx_cs (pop_and_iretq ?m rsp)) (cx_ss (pop_and_iretq ?m rsp))"
    using that refused same by metis
  then show ?thesis
    unfolding after_switch_def Let_def m
    by (auto split: option.split dest!: find_Some simp: find_None)
qed

section \<open>Properties\<close>

text \<open>C22: What becomes of a launched process. After a successful launch with no process running, only the
  first unused slot has changed, and the frame of the new process is in memory: the entry point of the ELF
  file, the selectors for programs, interrupts on, the top of the user stack, and zero in all other registers. It
  lies 8032 bytes above the start of the kernel stack, beyond the one page that was allocated for it. But the
  process is not entered with this frame. \<open>enter_user_mode\<close> panics exactly when the crate refuses an address. Else it sets
  the stack for interrupts and switches to the tables of the process, and from there on every address goes through them:
  an instruction or a byte of the frame that they do not map faults; or the file has put its own code where the kernel
  continues; or \<open>iretq\<close> refuses the selectors. A process is entered only when its tables
  keep the code of the kernel and put another frame at the address.\<close>

theorem launch_entry_outcome:
  assumes "gdt_law C slots" and "launch_init_process cr mt elf w = (Inr (), w')"
    and "list_all (\<lambda>p. pcb_state p \<noteq> Running) (w_procs w)" and "sw_selectors sw = iretq_allows (slots (gdt (GDT C)))"
  shows "\<exists>info i p. parse_elf elf = Inr info \<and> i < length (w_procs w) \<and> pcb_state (w_procs w ! i) = Unused \<and>
    w_procs w' = (w_procs w)[i := p] \<and> pcb_state p = Running \<and> kernel_rsp p = kernel_stack_phys p + 8032 \<and>
    pop_and_iretq (w_mem w') (kernel_rsp p) = first_context (elf_entry_point info) \<and>
    (case (virt_new cr (kernel_rsp p), phys_new cr (pml4_phys p)) of
       (Some rsp0, Some root) \<Rightarrow>
         (let va = translate (w_mem w') (page_of root); code = set (sw_code sw); bytes = set (frame_bytes (kernel_rsp p));
              switched = (\<lambda>u. u = w' \<lparr> w_rsp0 := rsp0, w_cr3 := page_of root \<rparr>) in
          case enter_user_mode cr sw w' of
            Entry_Panic \<Rightarrow> False
          | Page_Fault a u \<Rightarrow> switched u \<and> a \<in> code \<union> bytes \<and> va a = None
          | Foreign_Code a u \<Rightarrow> switched u \<and> a \<in> code \<and> (\<exists>b. b \<noteq> a \<and> va a = Some b)
          | Protection_Fault u \<Rightarrow> switched u \<and> (\<forall>a\<in>code. va a = Some a) \<and> (\<forall>a\<in>bytes. va a \<noteq> None)
          | Entered c u \<Rightarrow> switched u \<and> (\<forall>a\<in>code. va a = Some a) \<and> (\<forall>a\<in>bytes. va a \<noteq> None) \<and> (\<exists>a\<in>bytes. va a \<noteq> Some a))
     | _ \<Rightarrow> enter_user_mode cr sw w' = Entry_Panic)"
proof -
  obtain info i p where L: "parse_elf elf = Inr info" "i < length (w_procs w)" "pcb_state (w_procs w ! i) = Unused"
      "w_procs w' = (w_procs w)[i := p]" "pcb_state p = Running" "kernel_rsp p = kernel_stack_phys p + 8032"
      "pop_and_iretq (w_mem w') (kernel_rsp p) = first_context (elf_entry_point info)"
      "find_slot (\<lambda>p. pcb_state p = Running) (w_procs w') = Some i" "w_procs w' ! i = p"
    by (rule launch_frame [OF assms(2,3)])
  have sel: "\<not> sw_selectors sw (cx_cs (pop_and_iretq (w_mem w') (kernel_rsp p))) (cx_ss (pop_and_iretq (w_mem w') (kernel_rsp p)))"
    unfolding L(7) assms(4) by (rule first_selectors_refused [OF assms(1)])
  show ?thesis
  proof (cases "virt_new cr (kernel_rsp p) = None \<or> phys_new cr (pml4_phys p) = None")
    case True
    then have "enter_user_mode cr sw w' = Entry_Panic"
      by (auto simp: enter_user_mode_def L(8,9) Let_def split: option.split)
    with True L(1-7) show ?thesis by (intro exI [of _ info] exI [of _ i] exI [of _ p]) (auto split: option.split)
  next
    case False
    then obtain rsp0 root where ok: "virt_new cr (kernel_rsp p) = Some rsp0" "phys_new cr (pml4_phys p) = Some root" by auto
    then have e: "enter_user_mode cr sw w' = after_switch sw (kernel_rsp p) (w' \<lparr> w_rsp0 := rsp0, w_cr3 := page_of root \<rparr>)"
      by (simp add: enter_user_mode_def L(8,9) Let_def)
    let ?u = "w' \<lparr> w_rsp0 := rsp0, w_cr3 := page_of root \<rparr>"
    have "w_mem ?u = w_mem w'" "translate (w_mem w') (w_cr3 ?u) = translate (w_mem w') (page_of root)" by simp_all
    note out = after_switch_outcome [OF this sel]
    show ?thesis
      by (intro exI [of _ info] exI [of _ i] exI [of _ p] conjI L(1-7)) (simp only: ok e Let_def option.case prod.case out)
  qed
qed

lemma both_SomeD:
  "(case (x, y) of (Some a, Some b) \<Rightarrow> P a b | _ \<Rightarrow> q) \<Longrightarrow> \<not> q \<Longrightarrow> \<exists>a b. x = Some a \<and> y = Some b \<and> P a b"
  by (auto split: option.splits)

theorem launch_entry_outcome_witness:
  "\<exists>w' w'' rsp. launch_init_process documented_crate tiny_map tiny_elf tiny_world = (Inr (), w') \<and>
     pop_and_iretq (w_mem w') rsp = first_context 0x400078 \<and>
     enter_user_mode documented_crate (tiny_switch \<lparr> sw_selectors := iretq_allows (gdt (GDT documented_gdt)) \<rparr>) w' = Page_Fault 0x100000 w'' \<and>
     translate (w_mem w') (w_cr3 w'') 0x100000 = None"
proof -
  let ?sw = "tiny_switch \<lparr> sw_selectors := iretq_allows (gdt (GDT documented_gdt)) \<rparr>"
  obtain w' w'' where L: "launch_init_process documented_crate tiny_map tiny_elf tiny_world = (Inr (), w')"
      "enter_user_mode documented_crate ?sw w' = Page_Fault 0x100000 w''"
    using tiny_launch by blast
  have idle: "list_all (\<lambda>p. pcb_state p \<noteq> Running) (w_procs tiny_world)"
    by (simp add: tiny_world_def initial_table_def empty_pcb_def list_all_iff)
  have sel: "sw_selectors ?sw = iretq_allows (gdt (GDT documented_gdt))" by simp
  note out = launch_entry_outcome [OF documented_gdt_law L(1) idle sel]
  have "\<exists>rsp. pop_and_iretq (w_mem w') rsp = first_context (elf_entry_point tiny_info) \<and> translate (w_mem w') (w_cr3 w'') 0x100000 = None"
    using out by - (elim exE conjE, drule both_SomeD, simp add: L(2), force simp: L(2) parse_tiny_elf Let_def)
  then obtain rsp where "pop_and_iretq (w_mem w') rsp = first_context (elf_entry_point tiny_info)"
      "translate (w_mem w') (w_cr3 w'') 0x100000 = None" by blast
  with L show ?thesis by (intro exI [of _ w'] exI [of _ w''] exI [of _ rsp]) (simp add: tiny_info_def)
qed

text \<open>C37: The selectors a new process starts with are not those of the segments made for it. The table
  has the user data segment at selector 0x2B and the user code segment at 0x33, because the
  task state takes two slots. The first frame of every process, whatever its table entry, sets
  CS to the user data segment and SS to the upper half of the task state descriptor.\<close>

theorem user_selectors_wrong:
  assumes "gdt_law C slots" and "build_initial_kernel_stack p m = (p', m')"
    and "c = pop_and_iretq m' (kernel_rsp p')"
  shows "user_code_selector (GDT C) = 0x33 \<and> user_data_selector (GDT C) = 0x2B \<and>
    selected_slot (slots (gdt (GDT C))) (user_code_selector (GDT C)) = Some (SegmentSlot user_code_segment) \<and>
    selected_slot (slots (gdt (GDT C))) (ucast (cx_cs c)) = Some (SegmentSlot user_data_segment) \<and>
    selected_slot (slots (gdt (GDT C))) (ucast (cx_ss c)) = Some (HighHalf tss_segment)"
proof -
  have "c = (first_context (elf_entry p)) \<lparr> cx_rsp := user_rsp p \<rparr>"
    unfolding assms(3) pop_and_iretq_def build_stack_words(1) [OF assms(2)] by (rule initial_context)
  then have "cx_cs c = 0x2B" "cx_ss c = 0x23" by (simp_all add: first_context_def USER_CS_def USER_SS_def)
  then show ?thesis by (simp add: gdt_layout [OF assms(1)] selected_slot_def)
qed

theorem user_selectors_wrong_witness:
  "\<exists>p' m'. build_initial_kernel_stack (fst (pcb_new 1)) (\<lambda>_. 0) = (p', m') \<and>
     selected_slot (gdt (GDT documented_gdt)) (ucast (cx_cs (pop_and_iretq m' (kernel_rsp p')))) = Some (SegmentSlot user_data_segment)"
proof -
  obtain p' m' where b: "build_initial_kernel_stack (fst (pcb_new 1)) (\<lambda>_. 0) = (p', m')" by fastforce
  from user_selectors_wrong [OF documented_gdt_law b refl] b show ?thesis by blast
qed

end
