(* ===== verification/Vga.thy ===== *)
theory Vga
  imports Rust_Std
begin

text \<open>
  The text console: \<open>kernel/src/vga_buffer.rs\<close>. The memory at \<open>0xb8000\<close> is a list of 25 rows
  of 80 cells, and an access outside of it panics. The reference is a typesetter that works on
  the whole text; the console shows its last 25 lines.
\<close>

section \<open>Cells and colours\<close>

datatype Color = Black | Blue | Green | Cyan | Red | Magenta | Brown | LightGray | DarkGray | LightBlue | LightGreen |
  LightCyan | LightRed | Pink | Yellow | White

primrec color_u8 :: "Color \<Rightarrow> u8" where
  "color_u8 Black = 0" | "color_u8 Blue = 1" | "color_u8 Green = 2" | "color_u8 Cyan = 3" | "color_u8 Red = 4"
| "color_u8 Magenta = 5" | "color_u8 Brown = 6" | "color_u8 LightGray = 7" | "color_u8 DarkGray = 8"
| "color_u8 LightBlue = 9" | "color_u8 LightGreen = 10" | "color_u8 LightCyan = 11" | "color_u8 LightRed = 12"
| "color_u8 Pink = 13" | "color_u8 Yellow = 14" | "color_u8 White = 15"

definition ColorCode_new :: "Color \<Rightarrow> Color \<Rightarrow> u8" where
  "ColorCode_new foreground background = push_bit 4 (color_u8 background) OR color_u8 foreground"

record ScreenChar =
  ascii_character :: u8
  cell_color :: u8

definition BUFFER_HEIGHT :: nat where "BUFFER_HEIGHT = 25"
definition BUFFER_WIDTH :: nat where "BUFFER_WIDTH = 80"

record Writer =
  column_position :: nat
  color_code :: u8
  chars :: "ScreenChar list list"

datatype vga_panic = IndexOutOfBounds

section \<open>The writer\<close>

definition write_volatile :: "nat \<Rightarrow> nat \<Rightarrow> ScreenChar \<Rightarrow> (Writer, vga_panic, unit) io" where
  "write_volatile row col character w =
     (if row < BUFFER_HEIGHT \<and> col < BUFFER_WIDTH
      then (Inr (), w \<lparr> chars := (chars w)[row := (chars w ! row)[col := character]] \<rparr>)
      else (Inl IndexOutOfBounds, w))"

definition read_volatile :: "nat \<Rightarrow> nat \<Rightarrow> (Writer, vga_panic, ScreenChar) io" where
  "read_volatile row col w =
     (if row < BUFFER_HEIGHT \<and> col < BUFFER_WIDTH then (Inr (chars w ! row ! col), w) else (Inl IndexOutOfBounds, w))"

definition blank_cell :: "u8 \<Rightarrow> ScreenChar" where
  "blank_cell c = \<lparr> ascii_character = 0x20, cell_color = c \<rparr>"

definition clear_row :: "nat \<Rightarrow> (Writer, vga_panic, unit) io" where
  "clear_row row w =
     (let blank = blank_cell (color_code w) in io_for [0..<BUFFER_WIDTH] (\<lambda>col. write_volatile row col blank) w)"

definition start_line :: "(Writer, vga_panic, unit) io" where
  "start_line w = (Inr (), w \<lparr> column_position := 0 \<rparr>)"

definition new_line :: "(Writer, vga_panic, unit) io" where
  "new_line =
     io_bind (io_for [1..<BUFFER_HEIGHT] (\<lambda>row. io_for [0..<BUFFER_WIDTH] (\<lambda>col.
         io_bind (read_volatile row col) (write_volatile (row - 1) col))))
       (\<lambda>_. io_bind (clear_row (BUFFER_HEIGHT - 1)) (\<lambda>_. start_line))"

definition clear_screen :: "(Writer, vga_panic, unit) io" where
  "clear_screen = io_bind (io_for [0..<BUFFER_HEIGHT] clear_row) (\<lambda>_. start_line)"

definition put_byte :: "u8 \<Rightarrow> (Writer, vga_panic, unit) io" where
  "put_byte byte w =
     io_bind (write_volatile (BUFFER_HEIGHT - 1) (column_position w) \<lparr> ascii_character = byte, cell_color = color_code w \<rparr>)
       (\<lambda>_ w. (Inr (), w \<lparr> column_position := column_position w + 1 \<rparr>)) w"

definition write_byte :: "u8 \<Rightarrow> (Writer, vga_panic, unit) io" where
  "write_byte byte w =
     (if byte = 0x0A then new_line w
      else io_bind (if BUFFER_WIDTH \<le> column_position w then new_line else io_ret ()) (\<lambda>_. put_byte byte) w)"

text \<open>\<open>fmt::Write::write_str\<close>, and \<open>_print\<close> on the pieces that \<open>write_fmt\<close> makes of its arguments.\<close>

definition vga_code :: "u8 \<Rightarrow> u8" where
  "vga_code byte = (if 0x20 \<le> byte \<and> byte \<le> 0x7E \<or> byte = 0x0A then byte else 0xFE)"

definition vga_write_str :: "bytes \<Rightarrow> (Writer, vga_panic, unit) io" where
  "vga_write_str s = io_for s (\<lambda>byte. write_byte (vga_code byte))"

definition vga_print :: "bytes list \<Rightarrow> (Writer, vga_panic, unit) io" where
  "vga_print pieces = io_for pieces vga_write_str"

text \<open>The lazily initialised global: the memory is cleared on first use.\<close>

definition WRITER :: "ScreenChar list list \<Rightarrow> (vga_panic + unit) \<times> Writer" where
  "WRITER mem = clear_screen \<lparr> column_position = 0, color_code = ColorCode_new LightGreen Black, chars = mem \<rparr>"

section \<open>What the loops do\<close>

definition screen_wf :: "ScreenChar list list \<Rightarrow> bool" where
  "screen_wf cs \<longleftrightarrow> length cs = 25 \<and> (\<forall>row\<in>set cs. length row = 80)"

lemma screen_row: "screen_wf cs \<Longrightarrow> r < 25 \<Longrightarrow> length (cs ! r) = 80" and screen_length: "screen_wf cs \<Longrightarrow> length cs = 25"
  by (simp_all add: screen_wf_def)

lemma io_for_single: "io_for [x] body = body x"
  by (simp add: fun_eq_iff io_bind_def split: prod.splits sum.splits)

lemma cells_loop:
  assumes "screen_wf (chars w)" and "r < 25" and "n \<le> 80"
    and "\<And>col xs. col < 80 \<Longrightarrow> length xs = 80 \<Longrightarrow>
      body col (w \<lparr> chars := (chars w)[r := xs] \<rparr>) = (Inr (), w \<lparr> chars := (chars w)[r := xs[col := f col]] \<rparr>)"
  shows "io_for [0..<n] body w = (Inr (), w \<lparr> chars := (chars w)[r := map f [0..<n] @ drop n (chars w ! r)] \<rparr>)"
  using assms(3)
proof (induction n)
  case 0
  show ?case by simp
next
  case (Suc n)
  let ?xs = "map f [0..<n] @ drop n (chars w ! r)"
  have len: "length ?xs = 80" using Suc.prems screen_row [OF assms(1,2)] by simp
  have "drop n (chars w ! r) = chars w ! r ! n # drop (Suc n) (chars w ! r)"
    using Suc.prems screen_row [OF assms(1,2)] by (simp add: Cons_nth_drop_Suc)
  then have "?xs[n := f n] = map f [0..<Suc n] @ drop (Suc n) (chars w ! r)"
    by (simp add: list_update_append)
  moreover have "body n (w \<lparr> chars := (chars w)[r := ?xs] \<rparr>) = (Inr (), w \<lparr> chars := (chars w)[r := ?xs[n := f n]] \<rparr>)"
    by (rule assms(4)) (use Suc.prems len in simp_all)
  ultimately show ?case using Suc by (simp add: io_for_append)
qed

lemma clear_row_effect:
  assumes "screen_wf (chars w)" and "r < 25"
  shows "clear_row r w = (Inr (), w \<lparr> chars := (chars w)[r := replicate 80 (blank_cell (color_code w))] \<rparr>)"
proof -
  have "io_for [0..<80] (\<lambda>col. write_volatile r col (blank_cell (color_code w))) w =
      (Inr (), w \<lparr> chars := (chars w)[r := map (\<lambda>_. blank_cell (color_code w)) [0..<80] @ drop 80 (chars w ! r)] \<rparr>)"
    by (rule cells_loop [OF assms])
      (use assms in \<open>simp_all add: write_volatile_def BUFFER_HEIGHT_def BUFFER_WIDTH_def screen_length\<close>)
  then show ?thesis
    using screen_row [OF assms] by (simp add: clear_row_def BUFFER_WIDTH_def Let_def map_replicate_const del: upt_rec_numeral)
qed

lemma copy_row_effect:
  assumes "screen_wf (chars w)" and "Suc r < 25"
  shows "io_for [0..<80] (\<lambda>col. io_bind (read_volatile (Suc r) col) (write_volatile r col)) w =
    (Inr (), w \<lparr> chars := (chars w)[r := chars w ! Suc r] \<rparr>)"
proof -
  have "io_for [0..<80] (\<lambda>col. io_bind (read_volatile (Suc r) col) (write_volatile r col)) w =
      (Inr (), w \<lparr> chars := (chars w)[r := map (\<lambda>col. chars w ! Suc r ! col) [0..<80] @ drop 80 (chars w ! r)] \<rparr>)"
    by (rule cells_loop) (use assms in \<open>simp_all add: write_volatile_def read_volatile_def io_bind_def BUFFER_HEIGHT_def BUFFER_WIDTH_def
        screen_length\<close>)
  moreover have "map (\<lambda>col. chars w ! Suc r ! col) [0..<80] = chars w ! Suc r"
    using screen_row [OF assms(1), of "Suc r"] assms(2) by (metis map_nth)
  ultimately show ?thesis using screen_row [OF assms(1), of r] assms(2) by simp
qed

lemma shift_rows:
  assumes "screen_wf cs" and "Suc k < 25"
  shows "(take k (tl cs) @ drop k cs)[k := cs ! Suc k] = take (Suc k) (tl cs) @ drop (Suc k) cs"
proof -
  have l: "length cs = 25" using assms(1) by (rule screen_length)
  have "drop k cs = cs ! k # drop (Suc k) cs" using assms l by (simp add: Cons_nth_drop_Suc)
  moreover have "take (Suc k) (tl cs) = take k (tl cs) @ [cs ! Suc k]"
    using l assms(2) by (simp add: take_Suc_conv_app_nth nth_tl)
  ultimately show ?thesis using l assms(2) by (simp add: list_update_append)
qed

lemma screen_wf_update: "screen_wf cs \<Longrightarrow> length row = 80 \<Longrightarrow> screen_wf (cs[r := row])"
  by (auto simp: screen_wf_def dest!: set_update_subset_insert [THEN subsetD])

lemma shift_loop:
  assumes "screen_wf (chars w)"
  shows "k \<le> 24 \<Longrightarrow> io_for [1..<Suc k] (\<lambda>row. io_for [0..<80] (\<lambda>col. io_bind (read_volatile row col) (write_volatile (row - 1) col))) w =
    (Inr (), w \<lparr> chars := take k (tl (chars w)) @ drop k (chars w) \<rparr>)"
proof (induction k)
  case 0
  show ?case by simp
next
  case (Suc k)
  let ?cs = "take k (tl (chars w)) @ drop k (chars w)"
  let ?w = "w \<lparr> chars := ?cs \<rparr>"
  let ?B = "\<lambda>row. io_for [0..<80] (\<lambda>col. io_bind (read_volatile row col) (write_volatile (row - 1) col))"
  have len: "length (chars w) = 25" using assms by (rule screen_length)
  have "set (tl (chars w)) \<subseteq> set (chars w)" by (cases "chars w") auto
  then have wf: "screen_wf (chars ?w)"
    using assms Suc.prems by (auto simp: screen_wf_def dest!: set_take_subset [THEN subsetD] set_drop_subset [THEN subsetD])
  have "?cs ! Suc k = chars w ! Suc k" using len Suc.prems by (simp add: nth_append nth_tl)
  moreover have "?cs[k := chars w ! Suc k] = take (Suc k) (tl (chars w)) @ drop (Suc k) (chars w)"
    by (rule shift_rows [OF assms]) (use Suc.prems in simp_all)
  ultimately have step: "?B (Suc k) ?w = (Inr (), w \<lparr> chars := take (Suc k) (tl (chars w)) @ drop (Suc k) (chars w) \<rparr>)"
    using copy_row_effect [OF wf, of k] Suc.prems by simp
  have "io_for [1..<Suc k] ?B w = (Inr (), ?w)" using Suc by simp
  then have "io_for ([1..<Suc k] @ [Suc k]) ?B w = io_for [Suc k] ?B ?w"
    unfolding io_for_append by (rule io_bind_Inr)
  also have "\<dots> = (Inr (), w \<lparr> chars := take (Suc k) (tl (chars w)) @ drop (Suc k) (chars w) \<rparr>)"
    unfolding io_for_single by (rule step)
  finally show ?case by simp
qed

lemma new_line_effect:
  assumes "screen_wf (chars w)"
  shows "new_line w = (Inr (), w \<lparr> chars := tl (chars w) @ [replicate 80 (blank_cell (color_code w))], column_position := 0 \<rparr>)"
proof -
  have len: "length (chars w) = 25" using assms by (rule screen_length)
  let ?cs = "take 24 (tl (chars w)) @ drop 24 (chars w)"
  obtain x where x: "drop 24 (chars w) = [x]" "x \<in> set (chars w)"
    using len by (metis (no_types) Cons_nth_drop_Suc Suc_numeral drop_all le_refl lessI nth_mem numeral_plus_one semiring_norm(5) semiring_norm(8))
  have t: "take 24 (tl (chars w)) = tl (chars w)" using len by simp
  have "set (tl (chars w)) \<subseteq> set (chars w)" by (cases "chars w") auto
  then have wf: "screen_wf ?cs" using assms x by (auto simp: screen_wf_def t)
  have "(tl (chars w) @ [x])[24 := b] = tl (chars w) @ [b]" for b using len by (simp add: list_update_append)
  then show ?thesis
    using shift_loop [OF assms, of 24] clear_row_effect [of "w \<lparr> chars := ?cs \<rparr>" 24] wf
    by (simp add: new_line_def BUFFER_HEIGHT_def BUFFER_WIDTH_def start_line_def x t del: upt_rec_numeral)
qed

lemma clear_loop:
  assumes "screen_wf (chars w)"
  shows "k \<le> 25 \<Longrightarrow> io_for [0..<k] clear_row w =
    (Inr (), w \<lparr> chars := replicate k (replicate 80 (blank_cell (color_code w))) @ drop k (chars w) \<rparr>)"
proof (induction k)
  case 0
  show ?case by simp
next
  case (Suc k)
  let ?b = "replicate 80 (blank_cell (color_code w))"
  let ?cs = "replicate k ?b @ drop k (chars w)"
  have len: "length (chars w) = 25" using assms by (rule screen_length)
  have wf: "screen_wf ?cs" using assms Suc.prems by (auto simp: screen_wf_def dest!: set_drop_subset [THEN subsetD])
  have "drop k (chars w) = chars w ! k # drop (Suc k) (chars w)" using Suc.prems len by (simp add: Cons_nth_drop_Suc)
  then have "?cs[k := ?b] = replicate (Suc k) ?b @ drop (Suc k) (chars w)"
    by (simp add: list_update_append replicate_append_same [symmetric])
  with Suc clear_row_effect [of "w \<lparr> chars := ?cs \<rparr>" k] wf show ?case by (simp add: io_for_append)
qed

lemma clear_screen_effect:
  assumes "screen_wf (chars w)"
  shows "clear_screen w = (Inr (), w \<lparr> chars := replicate 25 (replicate 80 (blank_cell (color_code w))), column_position := 0 \<rparr>)"
  using clear_loop [OF assms, of 25] screen_length [OF assms]
  by (simp add: clear_screen_def BUFFER_HEIGHT_def start_line_def del: upt_rec_numeral)

section \<open>The typesetter\<close>

text \<open>Lines end at a newline and are cut after 80 characters; the last line is the one being written.\<close>

fun split_lines :: "bytes \<Rightarrow> bytes list" where
  "split_lines [] = [[]]"
| "split_lines (b # bs) =
     (if b = 0x0A then [] # split_lines bs else (case split_lines bs of l # ls \<Rightarrow> (b # l) # ls | [] \<Rightarrow> [[b]]))"

function chop80 :: "bytes \<Rightarrow> bytes list" where
  "chop80 l = (if length l \<le> 80 then [l] else take 80 l # chop80 (drop 80 l))"
  by pat_completeness auto
termination by (relation "measure length") auto

declare chop80.simps [simp del]

definition typeset :: "bytes \<Rightarrow> bytes list" where
  "typeset s = concat (map chop80 (split_lines s))"

text \<open>The effect of one byte on the lines so far.\<close>

definition put_line :: "bytes list \<Rightarrow> u8 \<Rightarrow> bytes list" where
  "put_line ls b =
     (if b = 0x0A then ls @ [[]]
      else if 80 \<le> length (last ls) then ls @ [[b]] else butlast ls @ [last ls @ [b]])"

lemma split_lines_ne [simp]: "split_lines s \<noteq> []"
  by (cases s) (auto split: list.splits)

lemma chop80_ne [simp]: "chop80 l \<noteq> []"
  by (subst chop80.simps) simp

lemma typeset_ne [simp]: "typeset s \<noteq> []"
  by (cases "split_lines s") (simp_all add: typeset_def)

lemma split_lines_snoc:
  "split_lines (s @ [b]) = (if b = 0x0A then split_lines s @ [[]] else butlast (split_lines s) @ [last (split_lines s) @ [b]])"
proof (induction s)
  case (Cons a s)
  show ?case
  proof (cases "split_lines s")
    case (Cons l ls)
    with Cons.IH show ?thesis by (cases ls) auto
  qed (use split_lines_ne [of s] in blast)
qed simp

lemma chop80_snoc: "b \<noteq> 0x0A \<Longrightarrow> chop80 (l @ [b]) = put_line (chop80 l) b"
proof (induction l rule: chop80.induct)
  case (1 l)
  consider "length l < 80" | "length l = 80" | "80 < length l" by linarith
  then show ?case
  proof cases
    case 1
    then show ?thesis using "1.prems" by (simp add: chop80.simps [of l] chop80.simps [of "l @ [b]"] put_line_def)
  next
    case 2
    then show ?thesis
      using "1.prems" by (simp add: chop80.simps [of l] chop80.simps [of "l @ [b]"] chop80.simps [of "[b]"] put_line_def)
  next
    case 3
    then have "chop80 (drop 80 l @ [b]) = put_line (chop80 (drop 80 l)) b" using 1 by simp
    with 3 show ?thesis by (simp add: chop80.simps [of l] chop80.simps [of "l @ [b]"] put_line_def)
  qed
qed

lemma put_line_prefix: "ls \<noteq> [] \<Longrightarrow> put_line (xs @ ls) b = xs @ put_line ls b"
  by (simp add: put_line_def butlast_append)

lemma typeset_snoc: "typeset (s @ [b]) = put_line (typeset s) b"
proof (cases "b = 0x0A")
  case True
  then show ?thesis by (simp add: typeset_def split_lines_snoc put_line_def chop80.simps [of "[]"])
next
  case False
  obtain ls l where l: "split_lines s = ls @ [l]" by (metis append_butlast_last_id split_lines_ne)
  with False show ?thesis
    by (simp add: typeset_def split_lines_snoc chop80_snoc put_line_prefix [symmetric])
qed

lemma typeset_length: "l \<in> set (typeset s) \<Longrightarrow> length l \<le> 80"
proof -
  have "l \<in> set (chop80 xs) \<Longrightarrow> length l \<le> 80" for l xs
  proof (induction xs rule: chop80.induct)
    case (1 xs)
    then show ?case by (subst (asm) (2) chop80.simps) (auto split: if_splits)
  qed
  then show "l \<in> set (typeset s) \<Longrightarrow> length l \<le> 80" by (auto simp: typeset_def)
qed

section \<open>The console refines the typesetter\<close>

definition render_line :: "u8 \<Rightarrow> bytes \<Rightarrow> ScreenChar list" where
  "render_line c l = map (\<lambda>b. \<lparr> ascii_character = b, cell_color = c \<rparr>) l @ replicate (80 - length l) (blank_cell c)"

definition last_rows :: "bytes list \<Rightarrow> bytes list" where
  "last_rows ls = drop (length ls) (replicate 25 [] @ ls)"

definition console_shows :: "Writer \<Rightarrow> bytes list \<Rightarrow> bool" where
  "console_shows w ls \<longleftrightarrow> ls \<noteq> [] \<and> (\<forall>l\<in>set ls. length l \<le> 80) \<and> column_position w = length (last ls) \<and>
     chars w = map (render_line (color_code w)) (last_rows ls)"

lemma last_rows_length [simp]: "length (last_rows ls) = 25"
  by (simp add: last_rows_def)

lemma last_rows_snoc: "last_rows (ls @ [l]) = tl (last_rows ls) @ [l]"
proof -
  have "drop (Suc n) (zs @ [l]) = tl (drop n zs) @ [l]" if "n < length zs" for n and zs :: "bytes list"
    using that by (simp add: drop_Suc tl_drop)
  from this [of "length ls" "replicate 25 [] @ ls"] show ?thesis by (simp only: last_rows_def append_assoc length_append) simp
qed

lemma last_rows_mem: "l \<in> set (last_rows ls) \<Longrightarrow> l = [] \<or> l \<in> set ls"
  by (auto simp: last_rows_def dest!: set_drop_subset [THEN subsetD])

lemma render_length [simp]: "length l \<le> 80 \<Longrightarrow> length (render_line c l) = 80"
  by (simp add: render_line_def)

lemma console_wf: "console_shows w ls \<Longrightarrow> screen_wf (chars w)"
  by (auto simp: console_shows_def screen_wf_def dest!: last_rows_mem intro!: render_length)

lemma new_line_shows:
  assumes "console_shows w ls"
  shows "\<exists>w'. new_line w = (Inr (), w') \<and> console_shows w' (ls @ [[]]) \<and> color_code w' = color_code w"
  using new_line_effect [OF console_wf [OF assms]] assms
  by (simp add: console_shows_def last_rows_snoc map_tl render_line_def)

lemma put_byte_shows:
  assumes "console_shows w ls" and "column_position w < 80"
  shows "\<exists>w'. put_byte b w = (Inr (), w') \<and> console_shows w' (butlast ls @ [last ls @ [b]]) \<and> color_code w' = color_code w"
proof -
  obtain xs l where ls: "ls = xs @ [l]" using assms(1) by (metis append_butlast_last_id console_shows_def)
  let ?r = "render_line (color_code w)"
  have l: "length l < 80" "column_position w = length l" using assms by (simp_all add: console_shows_def ls)
  have c: "chars w = map ?r (tl (last_rows xs)) @ [?r l]" using assms(1) by (simp add: console_shows_def ls last_rows_snoc)
  have n: "length (map ?r (tl (last_rows xs))) = 24" by simp
  have "replicate (80 - length l) (blank_cell (color_code w)) = blank_cell (color_code w) # replicate (79 - length l) (blank_cell (color_code w))"
    using l(1) by (simp add: Suc_diff_le [symmetric] replicate_Suc [symmetric] del: replicate_Suc)
  then have r: "(?r l)[length l := \<lparr> ascii_character = b, cell_color = color_code w \<rparr>] = ?r (l @ [b])"
    by (simp add: render_line_def list_update_append)
  have "(chars w)[24 := (chars w ! 24)[length l := \<lparr> ascii_character = b, cell_color = color_code w \<rparr>]] =
      map ?r (tl (last_rows xs)) @ [?r (l @ [b])]"
    unfolding c using n r by (simp add: nth_append list_update_append)
  then show ?thesis
    using assms(1) l by (simp add: put_byte_def io_bind_def write_volatile_def BUFFER_HEIGHT_def BUFFER_WIDTH_def console_shows_def ls last_rows_snoc)
qed

lemma write_byte_shows:
  assumes "console_shows w ls"
  shows "\<exists>w'. write_byte b w = (Inr (), w') \<and> console_shows w' (put_line ls b) \<and> color_code w' = color_code w"
proof -
  have col: "column_position w = length (last ls)" using assms by (simp add: console_shows_def)
  consider "b = 0x0A" | "b \<noteq> 0x0A" "80 \<le> length (last ls)" | "b \<noteq> 0x0A" "length (last ls) < 80" by fastforce
  then show ?thesis
  proof cases
    case 1
    then show ?thesis using new_line_shows [OF assms] by (simp add: write_byte_def put_line_def)
  next
    case 2
    obtain w1 where w1: "new_line w = (Inr (), w1)" "console_shows w1 (ls @ [[]])" "color_code w1 = color_code w"
      using new_line_shows [OF assms] by blast
    then have "column_position w1 < 80" by (simp add: console_shows_def)
    from put_byte_shows [OF w1(2) this, of b] w1 2 col show ?thesis
      by (simp add: write_byte_def BUFFER_WIDTH_def put_line_def io_bind_def)
  next
    case 3
    with put_byte_shows [OF assms, of b] col show ?thesis
      by (simp add: write_byte_def BUFFER_WIDTH_def put_line_def io_bind_def)
  qed
qed

lemma write_str_shows:
  assumes "console_shows w (typeset t)"
  shows "\<exists>w'. vga_write_str s w = (Inr (), w') \<and> console_shows w' (typeset (t @ map vga_code s)) \<and> color_code w' = color_code w"
  using assms
proof (induction s arbitrary: t w)
  case (Cons b s)
  obtain w1 where w1: "write_byte (vga_code b) w = (Inr (), w1)" "console_shows w1 (typeset (t @ [vga_code b]))" "color_code w1 = color_code w"
    using write_byte_shows [OF Cons.prems, of "vga_code b"] by (auto simp: typeset_snoc)
  with Cons.IH [OF w1(2)] show ?case by (simp add: vga_write_str_def io_bind_def)
qed (simp add: vga_write_str_def)

lemma print_shows:
  assumes "console_shows w (typeset t)"
  shows "\<exists>w'. vga_print ps w = (Inr (), w') \<and> console_shows w' (typeset (t @ map vga_code (concat ps))) \<and> color_code w' = color_code w"
  using assms
proof (induction ps arbitrary: t w)
  case (Cons s ps)
  obtain w1 where w1: "vga_write_str s w = (Inr (), w1)" "console_shows w1 (typeset (t @ map vga_code s))" "color_code w1 = color_code w"
    using write_str_shows [OF Cons.prems] by blast
  with Cons.IH [OF w1(2)] show ?case by (simp add: vga_print_def io_bind_def)
qed (simp add: vga_print_def)

section \<open>Properties\<close>

text \<open>C38: The console refines the typesetter. Whatever the video memory held before and whatever is
  printed, no access leaves the buffer, and the screen shows the last 25 lines of the whole text,
  in light green on black, with the bytes that are not printable ASCII shown as a block.\<close>

theorem console_refines_typesetter:
  assumes "length mem = 25" and "\<forall>row\<in>set mem. length row = 80"
  shows "\<exists>w0 w. WRITER mem = (Inr (), w0) \<and> vga_print pieces w0 = (Inr (), w) \<and> column_position w \<le> 80 \<and>
    chars w = map (render_line 0x0A) (last_rows (typeset (map vga_code (concat pieces))))"
proof -
  let ?w = "\<lparr> column_position = 0, color_code = ColorCode_new LightGreen Black, chars = mem \<rparr>"
  let ?w0 = "?w \<lparr> chars := replicate 25 (replicate 80 (blank_cell (color_code ?w))), column_position := 0 \<rparr>"
  have c: "color_code ?w = 0x0A" by (simp add: ColorCode_new_def)
  have w0: "WRITER mem = (Inr (), ?w0)"
    unfolding WRITER_def by (rule clear_screen_effect) (use assms in \<open>simp add: screen_wf_def\<close>)
  have "typeset [] = [[]]" by (simp add: typeset_def chop80.simps)
  moreover have "last_rows [[]] = replicate 25 []" by (simp add: last_rows_def replicate_append_same)
  ultimately have "console_shows ?w0 (typeset [])" by (simp add: console_shows_def render_line_def)
  from print_shows [OF this, of pieces] obtain w where w: "vga_print pieces ?w0 = (Inr (), w)"
      "console_shows w (typeset (map vga_code (concat pieces)))" "color_code w = 0x0A"
    using c by auto
  then have "column_position w \<le> 80"
    using typeset_length [OF last_in_set [OF typeset_ne]] by (simp add: console_shows_def)
  with w0 w show ?thesis by (auto simp: console_shows_def)
qed

theorem console_refines_typesetter_witness:
  "\<exists>w0 w. WRITER (replicate 25 (replicate 80 (blank_cell 0))) = (Inr (), w0) \<and>
     vga_print [[0x6F, 0x6B, 0x0A], [0x07]] w0 = (Inr (), w) \<and>
     chars w ! 23 = render_line 0x0A [0x6F, 0x6B] \<and> chars w ! 24 = render_line 0x0A [0xFE]"
proof -
  let ?mem = "replicate 25 (replicate 80 (blank_cell 0))"
  obtain w0 w where w: "WRITER ?mem = (Inr (), w0)" "vga_print [[0x6F, 0x6B, 0x0A], [0x07]] w0 = (Inr (), w)"
      "chars w = map (render_line 0x0A) (last_rows (typeset (map vga_code (concat [[0x6F, 0x6B, 0x0A], [0x07]]))))"
    using console_refines_typesetter [of ?mem "[[0x6F, 0x6B, 0x0A], [0x07]]"] by auto
  moreover have "typeset (map vga_code (concat [[0x6F, 0x6B, 0x0A], [0x07]])) = [[0x6F, 0x6B], [0xFE]]"
    by (simp add: vga_code_def typeset_def chop80.simps)
  moreover have "last_rows [[0x6F, 0x6B], [0xFE]] = replicate 23 [] @ [[0x6F, 0x6B], [0xFE]]"
    by (simp add: last_rows_def drop_replicate)
  ultimately show ?thesis by (simp add: nth_append)
qed

end
