(* ===== verification/Fmt.thy ===== *)
theory Fmt
  imports Rust_Std
begin

text \<open>
  Formatting of numbers as \<open>core::fmt\<close> does it: decimal, and hexadecimal in upper case with
  leading zeros. Text is a list of bytes.
\<close>

definition str_bytes :: "string \<Rightarrow> bytes" where
  "str_bytes s = map (\<lambda>c. of_nat (of_char c)) s"

section \<open>Digits\<close>

text \<open>The digits of a number, the most significant first; the base is at least two.\<close>

function digits :: "nat \<Rightarrow> nat \<Rightarrow> nat list" where
  "digits b n = (if b \<le> 1 \<or> n < b then [n] else digits b (n div b) @ [n mod b])"
  by pat_completeness auto
termination by (relation "measure snd") (auto intro!: div_less_dividend)

declare digits.simps [simp del]

definition digits_value :: "nat \<Rightarrow> nat list \<Rightarrow> nat" where
  "digits_value b ds = foldl (\<lambda>a d. a * b + d) 0 ds"

lemma digits_value_digits: "2 \<le> b \<Longrightarrow> digits_value b (digits b n) = n"
proof (induction b n rule: digits.induct)
  case (1 b n)
  then show ?case
    by (cases "n < b") (simp_all add: digits.simps [of b n] digits_value_def)
qed

lemma digits_less: "2 \<le> b \<Longrightarrow> d \<in> set (digits b n) \<Longrightarrow> d < b"
proof (induction b n rule: digits.induct)
  case (1 b n)
  then show ?case
    by (cases "n < b") (auto simp: digits.simps [of b n])
qed

lemma digits_ne [simp]: "digits b n \<noteq> []"
  by (subst digits.simps) simp

lemma digits_no_zero: "2 \<le> b \<Longrightarrow> 0 < n \<Longrightarrow> hd (digits b n) \<noteq> 0"
proof (induction b n rule: digits.induct)
  case (1 b n)
  show ?case
  proof (cases "n < b")
    case False
    then have "0 < n div b" using "1.prems" by (simp add: div_greater_zero_iff)
    with 1 False show ?thesis by (simp add: digits.simps [of b n])
  qed (use "1.prems" in \<open>simp add: digits.simps [of b n]\<close>)
qed

lemma digits_length: "2 \<le> b \<Longrightarrow> n < b ^ Suc k \<Longrightarrow> length (digits b n) \<le> Suc k"
proof (induction k arbitrary: n)
  case (Suc k)
  show ?case
  proof (cases "n < b")
    case False
    have "n div b < b ^ Suc k" using Suc.prems by (simp add: less_mult_imp_div_less mult.commute)
    with Suc False show ?thesis by (simp add: digits.simps [of b n])
  qed (simp add: digits.simps [of b n])
qed (subst digits.simps, simp)

section \<open>Bytes of digits\<close>

definition digit_byte :: "nat \<Rightarrow> u8" where
  "digit_byte d = (if d < 10 then 0x30 + of_nat d else 0x41 + of_nat (d - 10))"

definition byte_digit :: "u8 \<Rightarrow> nat" where
  "byte_digit c = (if c < 0x41 then unat (c - 0x30) else unat (c - 0x41) + 10)"

definition fmt_dec :: "nat \<Rightarrow> bytes" where
  "fmt_dec n = map digit_byte (digits 10 n)"

definition fmt_hex :: "nat \<Rightarrow> nat \<Rightarrow> bytes" where
  "fmt_hex width n = (let ds = map digit_byte (digits 16 n) in replicate (width - length ds) 0x30 @ ds)"

lemma digit_byte_inverse: "d < 16 \<Longrightarrow> byte_digit (digit_byte d) = d"
proof -
  assume "d < 16"
  then have "d \<in> set [0..<16]" by simp
  moreover have "\<forall>d\<in>set [0..<16]. byte_digit (digit_byte d) = d"
    by code_simp
  ultimately show ?thesis by blast
qed

lemma digit_bytes_inverse: "\<forall>d\<in>set ds. d < 16 \<Longrightarrow> map byte_digit (map digit_byte ds) = ds"
  by (induction ds) (simp_all add: digit_byte_inverse)

lemma fmt_dec_value: "digits_value 10 (map byte_digit (fmt_dec n)) = n"
proof -
  have "map byte_digit (fmt_dec n) = digits 10 n"
    unfolding fmt_dec_def by (rule digit_bytes_inverse) (auto dest: digits_less [rotated])
  then show ?thesis by (simp add: digits_value_digits)
qed

section \<open>Widths\<close>

definition fmt_left :: "nat \<Rightarrow> bytes \<Rightarrow> bytes" where
  "fmt_left width s = s @ replicate (width - length s) 0x20"

definition fmt_right :: "nat \<Rightarrow> bytes \<Rightarrow> bytes" where
  "fmt_right width s = replicate (width - length s) 0x20 @ s"

definition fmt_zero :: "nat \<Rightarrow> nat \<Rightarrow> bytes" where
  "fmt_zero width n = (let s = fmt_dec n in replicate (width - length s) 0x30 @ s)"

definition fmt_int :: "int \<Rightarrow> bytes" where
  "fmt_int i = (if i < 0 then 0x2D # fmt_dec (nat (- i)) else fmt_dec (nat i))"

text \<open>\<open>from_str_radix\<close> of an unsigned type with the given largest value: an optional plus sign and
  digits, at least one.\<close>

definition char_digit :: "nat \<Rightarrow> u8 \<Rightarrow> nat option" where
  "char_digit radix c =
     (let d = (if 0x30 \<le> c \<and> c \<le> 0x39 then unat (c - 0x30)
               else if 0x61 \<le> c \<and> c \<le> 0x7A then unat (c - 0x61) + 10
               else if 0x41 \<le> c \<and> c \<le> 0x5A then unat (c - 0x41) + 10 else radix) in
      if d < radix then Some d else None)"

fun radix_loop :: "nat \<Rightarrow> nat \<Rightarrow> bytes \<Rightarrow> nat \<Rightarrow> nat option" where
  "radix_loop radix max_value [] acc = Some acc"
| "radix_loop radix max_value (c # cs) acc =
     (case char_digit radix c of
        None \<Rightarrow> None
      | Some d \<Rightarrow> (let v = acc * radix + d in if v > max_value then None else radix_loop radix max_value cs v))"

definition from_str_radix :: "nat \<Rightarrow> nat \<Rightarrow> bytes \<Rightarrow> nat option" where
  "from_str_radix radix max_value s =
     (let ds = (if s \<noteq> [] \<and> hd s = 0x2B then tl s else s) in if ds = [] then None else radix_loop radix max_value ds 0)"

text \<open>What is printed in decimal is parsed back.\<close>

lemma radix_loop_digits:
  assumes "\<forall>d\<in>set ds. d < 10" and "foldl (\<lambda>a d. a * 10 + d) acc ds \<le> max_value"
  shows "radix_loop 10 max_value (map digit_byte ds) acc = Some (foldl (\<lambda>a d. a * 10 + d) acc ds)"
  using assms
proof (induction ds arbitrary: acc)
  case (Cons d ds)
  have "d \<in> set [0..<10]" using Cons.prems(1) by simp
  moreover have "\<forall>d\<in>set [0..<10]. char_digit 10 (digit_byte d) = Some d" by code_simp
  ultimately have c: "char_digit 10 (digit_byte d) = Some d" by blast
  have mono: "a \<le> foldl (\<lambda>a d. a * 10 + d) a ds" for a and ds :: "nat list"
  proof (induction ds arbitrary: a)
    case (Cons d ds)
    have "a \<le> a * 10 + d" by simp
    also have "\<dots> \<le> foldl (\<lambda>a d. a * 10 + d) (a * 10 + d) ds" by (rule Cons)
    finally show ?case by simp
  qed simp
  have "acc * 10 + d \<le> max_value" using mono [of "acc * 10 + d" ds] Cons.prems(2) by simp
  with Cons c show ?case by (simp add: Let_def)
qed simp

lemma from_str_radix_dec: "n \<le> max_value \<Longrightarrow> from_str_radix 10 max_value (fmt_dec n) = Some n"
proof -
  assume n: "n \<le> max_value"
  have d: "\<forall>d\<in>set (digits 10 n). d < 10" by (auto dest: digits_less [rotated])
  have v: "foldl (\<lambda>a d. a * 10 + d) 0 (digits 10 n) = n"
    using digits_value_digits [of 10 n] by (simp add: digits_value_def)
  have "radix_loop 10 max_value (map digit_byte (digits 10 n)) 0 = Some n"
    using radix_loop_digits [OF d, of 0 max_value] v n by simp
  moreover have "hd (map digit_byte (digits 10 n)) \<noteq> 0x2B"
  proof -
    have "hd (digits 10 n) \<in> set [0..<10]" using d by simp
    moreover have "\<forall>d\<in>set [0..<10]. digit_byte d \<noteq> 0x2B" by code_simp
    ultimately show ?thesis by (simp add: hd_map)
  qed
  ultimately show ?thesis by (simp add: from_str_radix_def fmt_dec_def Let_def)
qed

end
