(* ===== verification/Cpu_Info.thy ===== *)
theory Cpu_Info
  imports Fmt
begin

text \<open>
  Processor identification: \<open>kernel/src/sysinfo/cpu.rs\<close>. The \<open>cpuid\<close> instruction is a
  parameter, a function from the leaf to the four registers; every detection function is a
  function of it. The global record is an optional value that \<open>cpu_init\<close> sets.
\<close>

record cpuid_result =
  cpuid_eax :: u32
  cpuid_ebx :: u32
  cpuid_ecx :: u32
  cpuid_edx :: u32

type_synonym cpuid = "u32 \<Rightarrow> cpuid_result"

section \<open>Vendor and signature\<close>

definition VENDOR_STRING_LENGTH :: nat where "VENDOR_STRING_LENGTH = 13"
definition BRAND_STRING_LENGTH :: nat where "BRAND_STRING_LENGTH = 48"

datatype CpuVendor = Intel | Amd | UnknownVendor bytes

fun vendor_as_str :: "CpuVendor \<Rightarrow> string" where
  "vendor_as_str Intel = ''Intel''"
| "vendor_as_str Amd = ''AMD''"
| "vendor_as_str (UnknownVendor _) = ''Unknown''"

fun vendor_raw_string :: "CpuVendor \<Rightarrow> bytes" where
  "vendor_raw_string Intel = str_bytes ''GenuineIntel'' @ [0]"
| "vendor_raw_string Amd = str_bytes ''AuthenticAMD'' @ [0]"
| "vendor_raw_string (UnknownVendor v) = v"

record CpuSignature =
  extended_family :: u8
  family :: u8
  extended_model :: u8
  model_number :: u8
  stepping :: u8

definition CpuSignature_new :: "u32 \<Rightarrow> CpuSignature" where
  "CpuSignature_new eax =
     \<lparr> extended_family = ucast (drop_bit 20 eax AND 0xFF), family = ucast (drop_bit 8 eax AND 0xF),
       extended_model = ucast (drop_bit 16 eax AND 0xF), model_number = ucast (drop_bit 4 eax AND 0xF),
       stepping = ucast (eax AND 0xF) \<rparr>"

definition full_family :: "CpuSignature \<Rightarrow> u8" where
  "full_family s = extended_family s + family s"

definition full_model :: "CpuSignature \<Rightarrow> u8" where
  "full_model s = push_bit 4 (extended_model s) OR model_number s"

definition signature_format :: "CpuSignature \<Rightarrow> bytes" where
  "signature_format s =
     fmt_dec (unat (full_family s)) @ str_bytes ''.'' @ fmt_dec (unat (full_model s)) @ str_bytes ''.'' @
     fmt_dec (unat (stepping s))"

section \<open>Features\<close>

record CpuFeatures =
  f_fpu :: bool
  f_vme :: bool
  f_de :: bool
  f_pse :: bool
  f_tsc :: bool
  f_msr :: bool
  f_pae :: bool
  f_mce :: bool
  f_cx8 :: bool
  f_apic :: bool
  f_sep :: bool
  f_mtrr :: bool
  f_pge :: bool
  f_mca :: bool
  f_cmov :: bool
  f_pat :: bool
  f_pse36 :: bool
  f_mmx :: bool
  f_fxsr :: bool
  f_sse :: bool
  f_sse2 :: bool
  f_self_snoop :: bool
  f_ht :: bool
  f_tm :: bool
  f_sse3 :: bool
  f_pclmulqdq :: bool
  f_dtes64 :: bool
  f_monitor :: bool
  f_ds_cpl :: bool
  f_vmx :: bool
  f_smx :: bool
  f_est :: bool
  f_tm2 :: bool
  f_ssse3 :: bool
  f_cid :: bool
  f_fma :: bool
  f_cx16 :: bool
  f_xtpr :: bool
  f_pdcm :: bool
  f_pcid :: bool
  f_dca :: bool
  f_sse41 :: bool
  f_sse42 :: bool
  f_x2apic :: bool
  f_movbe :: bool
  f_popcnt :: bool
  f_aes :: bool
  f_xsave :: bool
  f_osxsave :: bool
  f_avx :: bool
  f_f16c :: bool
  f_rdrand :: bool
  f_hypervisor :: bool

definition CpuFeatures_new :: "u32 \<Rightarrow> u32 \<Rightarrow> CpuFeatures" where
  "CpuFeatures_new edx ecx = \<lparr>
     f_fpu = (edx AND push_bit 0 1 \<noteq> 0), f_vme = (edx AND push_bit 1 1 \<noteq> 0),
     f_de = (edx AND push_bit 2 1 \<noteq> 0), f_pse = (edx AND push_bit 3 1 \<noteq> 0),
     f_tsc = (edx AND push_bit 4 1 \<noteq> 0), f_msr = (edx AND push_bit 5 1 \<noteq> 0),
     f_pae = (edx AND push_bit 6 1 \<noteq> 0), f_mce = (edx AND push_bit 7 1 \<noteq> 0),
     f_cx8 = (edx AND push_bit 8 1 \<noteq> 0), f_apic = (edx AND push_bit 9 1 \<noteq> 0),
     f_sep = (edx AND push_bit 11 1 \<noteq> 0), f_mtrr = (edx AND push_bit 12 1 \<noteq> 0),
     f_pge = (edx AND push_bit 13 1 \<noteq> 0), f_mca = (edx AND push_bit 14 1 \<noteq> 0),
     f_cmov = (edx AND push_bit 15 1 \<noteq> 0), f_pat = (edx AND push_bit 16 1 \<noteq> 0),
     f_pse36 = (edx AND push_bit 17 1 \<noteq> 0), f_mmx = (edx AND push_bit 23 1 \<noteq> 0),
     f_fxsr = (edx AND push_bit 24 1 \<noteq> 0), f_sse = (edx AND push_bit 25 1 \<noteq> 0),
     f_sse2 = (edx AND push_bit 26 1 \<noteq> 0), f_self_snoop = (edx AND push_bit 27 1 \<noteq> 0),
     f_ht = (edx AND push_bit 28 1 \<noteq> 0), f_tm = (edx AND push_bit 29 1 \<noteq> 0),
     f_sse3 = (ecx AND push_bit 0 1 \<noteq> 0), f_pclmulqdq = (ecx AND push_bit 1 1 \<noteq> 0),
     f_dtes64 = (ecx AND push_bit 2 1 \<noteq> 0), f_monitor = (ecx AND push_bit 3 1 \<noteq> 0),
     f_ds_cpl = (ecx AND push_bit 4 1 \<noteq> 0), f_vmx = (ecx AND push_bit 5 1 \<noteq> 0),
     f_smx = (ecx AND push_bit 6 1 \<noteq> 0), f_est = (ecx AND push_bit 7 1 \<noteq> 0),
     f_tm2 = (ecx AND push_bit 8 1 \<noteq> 0), f_ssse3 = (ecx AND push_bit 9 1 \<noteq> 0),
     f_cid = (ecx AND push_bit 10 1 \<noteq> 0), f_fma = (ecx AND push_bit 12 1 \<noteq> 0),
     f_cx16 = (ecx AND push_bit 13 1 \<noteq> 0), f_xtpr = (ecx AND push_bit 14 1 \<noteq> 0),
     f_pdcm = (ecx AND push_bit 15 1 \<noteq> 0), f_pcid = (ecx AND push_bit 17 1 \<noteq> 0),
     f_dca = (ecx AND push_bit 18 1 \<noteq> 0), f_sse41 = (ecx AND push_bit 19 1 \<noteq> 0),
     f_sse42 = (ecx AND push_bit 20 1 \<noteq> 0), f_x2apic = (ecx AND push_bit 21 1 \<noteq> 0),
     f_movbe = (ecx AND push_bit 22 1 \<noteq> 0), f_popcnt = (ecx AND push_bit 23 1 \<noteq> 0),
     f_aes = (ecx AND push_bit 25 1 \<noteq> 0), f_xsave = (ecx AND push_bit 26 1 \<noteq> 0),
     f_osxsave = (ecx AND push_bit 27 1 \<noteq> 0), f_avx = (ecx AND push_bit 28 1 \<noteq> 0),
     f_f16c = (ecx AND push_bit 29 1 \<noteq> 0), f_rdrand = (ecx AND push_bit 30 1 \<noteq> 0),
     f_hypervisor = (ecx AND push_bit 31 1 \<noteq> 0) \<rparr>"

definition push_if :: "bool \<Rightarrow> string \<Rightarrow> string list" where
  "push_if b s = (if b then [s] else [])"

definition enabled_features :: "CpuFeatures \<Rightarrow> string list" where
  "enabled_features f =
     push_if (f_fpu f) ''FPU'' @ push_if (f_vme f) ''VME'' @ push_if (f_de f) ''DE'' @ push_if (f_pse f) ''PSE'' @
     push_if (f_tsc f) ''TSC'' @ push_if (f_msr f) ''MSR'' @ push_if (f_pae f) ''PAE'' @ push_if (f_mce f) ''MCE'' @
     push_if (f_cx8 f) ''CX8'' @ push_if (f_apic f) ''APIC'' @ push_if (f_sep f) ''SEP'' @
     push_if (f_mtrr f) ''MTRR'' @ push_if (f_pge f) ''PGE'' @ push_if (f_mca f) ''MCA'' @
     push_if (f_cmov f) ''CMOV'' @ push_if (f_pat f) ''PAT'' @ push_if (f_pse36 f) ''PSE36'' @
     push_if (f_mmx f) ''MMX'' @ push_if (f_fxsr f) ''FXSR'' @ push_if (f_sse f) ''SSE'' @
     push_if (f_sse2 f) ''SSE2'' @ push_if (f_ht f) ''HT'' @ push_if (f_tm f) ''TM'' @ push_if (f_sse3 f) ''SSE3'' @
     push_if (f_pclmulqdq f) ''PCLMULQDQ'' @ push_if (f_monitor f) ''MONITOR'' @ push_if (f_vmx f) ''VMX'' @
     push_if (f_smx f) ''SMX'' @ push_if (f_est f) ''EST'' @ push_if (f_tm2 f) ''TM2'' @
     push_if (f_ssse3 f) ''SSSE3'' @ push_if (f_fma f) ''FMA'' @ push_if (f_cx16 f) ''CX16'' @
     push_if (f_sse41 f) ''SSE4.1'' @ push_if (f_sse42 f) ''SSE4.2'' @ push_if (f_x2apic f) ''x2APIC'' @
     push_if (f_popcnt f) ''POPCNT'' @ push_if (f_aes f) ''AES'' @ push_if (f_xsave f) ''XSAVE'' @
     push_if (f_osxsave f) ''OSXSAVE'' @ push_if (f_avx f) ''AVX'' @ push_if (f_f16c f) ''F16C'' @
     push_if (f_rdrand f) ''RDRAND'' @ push_if (f_hypervisor f) ''HYPERVISOR''"

text \<open>The arms of the match in \<open>has_feature\<close>, in order; any other name is not a feature.\<close>

definition feature_match :: "(string \<times> (CpuFeatures \<Rightarrow> bool)) list" where
  "feature_match =
    [(''FPU'', f_fpu), (''VME'', f_vme), (''DE'', f_de), (''PSE'', f_pse), (''TSC'', f_tsc), (''MSR'', f_msr),
     (''PAE'', f_pae), (''MCE'', f_mce), (''CX8'', f_cx8), (''APIC'', f_apic), (''SEP'', f_sep), (''MTRR'', f_mtrr),
     (''PGE'', f_pge), (''MCA'', f_mca), (''CMOV'', f_cmov), (''PAT'', f_pat), (''PSE36'', f_pse36), (''MMX'', f_mmx),
     (''FXSR'', f_fxsr), (''SSE'', f_sse), (''SSE2'', f_sse2), (''HT'', f_ht), (''TM'', f_tm), (''SSE3'', f_sse3),
     (''PCLMULQDQ'', f_pclmulqdq), (''MONITOR'', f_monitor), (''VMX'', f_vmx), (''SMX'', f_smx), (''EST'', f_est),
     (''TM2'', f_tm2), (''SSSE3'', f_ssse3), (''FMA'', f_fma), (''CX16'', f_cx16), (''SSE4.1'', f_sse41),
     (''SSE4.2'', f_sse42), (''x2APIC'', f_x2apic), (''POPCNT'', f_popcnt), (''AES'', f_aes), (''XSAVE'', f_xsave),
     (''OSXSAVE'', f_osxsave), (''AVX'', f_avx), (''F16C'', f_f16c), (''RDRAND'', f_rdrand),
     (''HYPERVISOR'', f_hypervisor)]"

definition has_feature :: "CpuFeatures \<Rightarrow> string \<Rightarrow> bool" where
  "has_feature f feature = (case map_of feature_match feature of Some g \<Rightarrow> g f | None \<Rightarrow> False)"

text \<open>What \<open>features\<close> returns before the detection.\<close>

definition DEFAULT_FEATURES :: CpuFeatures where
  "DEFAULT_FEATURES = \<lparr>
     f_fpu = False, f_vme = False, f_de = False, f_pse = False, f_tsc = False, f_msr = False, f_pae = False,
     f_mce = False, f_cx8 = False, f_apic = False, f_sep = False, f_mtrr = False, f_pge = False, f_mca = False,
     f_cmov = False, f_pat = False, f_pse36 = False, f_mmx = False, f_fxsr = False, f_sse = False, f_sse2 = False,
     f_self_snoop = False, f_ht = False, f_tm = False, f_sse3 = False, f_pclmulqdq = False, f_dtes64 = False,
     f_monitor = False, f_ds_cpl = False, f_vmx = False, f_smx = False, f_est = False, f_tm2 = False, f_ssse3 = False,
     f_cid = False, f_fma = False, f_cx16 = False, f_xtpr = False, f_pdcm = False, f_pcid = False, f_dca = False,
     f_sse41 = False, f_sse42 = False, f_x2apic = False, f_movbe = False, f_popcnt = False, f_aes = False,
     f_xsave = False, f_osxsave = False, f_avx = False, f_f16c = False, f_rdrand = False, f_hypervisor = False \<rparr>"

section \<open>Brand string\<close>

definition CpuBrandString_new :: "u32 \<Rightarrow> u32 \<Rightarrow> u32 \<Rightarrow> u32 \<Rightarrow> bytes" where
  "CpuBrandString_new eax ebx ecx edx =
     (u32_to_le eax @ u32_to_le ebx @ u32_to_le ecx @ u32_to_le edx) @ replicate (BRAND_STRING_LENGTH - 16) 0"

definition trim_nulls :: "bytes \<Rightarrow> bytes" where
  "trim_nulls raw = rev (dropWhile (\<lambda>b. b = 0) (rev raw))"

definition brand_as_str :: "bytes \<Rightarrow> bytes" where
  "brand_as_str raw = utf8_lossy (trim_nulls raw)"

section \<open>Detection\<close>

definition detect_vendor :: "cpuid \<Rightarrow> CpuVendor" where
  "detect_vendor cpuid =
     (let result = cpuid 0;
          vendor_bytes = u32_to_le (cpuid_ebx result) @ u32_to_le (cpuid_edx result) @ u32_to_le (cpuid_ecx result) in
      if vendor_bytes = str_bytes ''GenuineIntel'' then Intel
      else if vendor_bytes = str_bytes ''AuthenticAMD'' then Amd
      else UnknownVendor (vendor_bytes @ replicate (VENDOR_STRING_LENGTH - 12) 0))"

definition detect_signature :: "cpuid \<Rightarrow> CpuSignature" where
  "detect_signature cpuid = CpuSignature_new (cpuid_eax (cpuid 1))"

definition detect_features :: "cpuid \<Rightarrow> CpuFeatures" where
  "detect_features cpuid = CpuFeatures_new (cpuid_edx (cpuid 1)) (cpuid_ecx (cpuid 1))"

definition detect_brand_string :: "cpuid \<Rightarrow> bytes" where
  "detect_brand_string cpuid =
     (let r = cpuid 0x80000002 in CpuBrandString_new (cpuid_eax r) (cpuid_ebx r) (cpuid_ecx r) (cpuid_edx r))"

definition detect_core_count :: "cpuid \<Rightarrow> u8 \<times> u8" where
  "detect_core_count cpuid =
     (let logical_per_physical = ucast (drop_bit 16 (cpuid_ebx (cpuid 1)) AND 0xFF) :: u8 in
      (1, if 0 < logical_per_physical then logical_per_physical else 1))"

definition detect_cache_info :: "cpuid \<Rightarrow> u32 \<times> u32 \<times> u32" where
  "detect_cache_info cpuid =
     (let l1 = (drop_bit 24 (cpuid_ecx (cpuid 0x80000005)) AND 0xFF) * 1024;
          result6 = cpuid 0x80000006;
          l2 = (drop_bit 16 (cpuid_ecx result6) AND 0xFFFF) * 1024;
          l3 = (if drop_bit 18 (cpuid_edx result6) AND 0x3FFF \<noteq> 0
                then (drop_bit 18 (cpuid_edx result6) AND 0x3FFF) * 512 * 1024 div 1024 else 0) in
      (l1, l2, l3))"

definition detect_frequency :: "cpuid \<Rightarrow> u32" where
  "detect_frequency cpuid =
     (let result = cpuid 0x16 in if cpuid_eax result \<noteq> 0 then cpuid_eax result AND 0xFFFF else 0)"

record CpuInfo =
  ci_vendor :: CpuVendor
  ci_brand_string :: bytes
  ci_signature :: CpuSignature
  ci_features :: CpuFeatures
  ci_physical_cores :: u8
  ci_logical_cores :: u8
  ci_frequency_mhz :: u32
  ci_cache_l1 :: u32
  ci_cache_l2 :: u32
  ci_cache_l3 :: u32

definition CpuInfo_new :: "cpuid \<Rightarrow> CpuInfo" where
  "CpuInfo_new cpuid =
     (case detect_core_count cpuid of (physical, logical) \<Rightarrow> (case detect_cache_info cpuid of (l1, l2, l3) \<Rightarrow>
        \<lparr> ci_vendor = detect_vendor cpuid, ci_brand_string = detect_brand_string cpuid,
          ci_signature = detect_signature cpuid, ci_features = detect_features cpuid,
          ci_physical_cores = physical, ci_logical_cores = logical, ci_frequency_mhz = detect_frequency cpuid,
          ci_cache_l1 = l1, ci_cache_l2 = l2, ci_cache_l3 = l3 \<rparr>))"

text \<open>A number, or the word for an unknown one.\<close>

definition or_unavailable :: "bool \<Rightarrow> bytes \<Rightarrow> bytes" where
  "or_unavailable b s = (if b then s else str_bytes ''Unavailable'')"

definition cpu_summary :: "CpuInfo \<Rightarrow> bytes" where
  "cpu_summary c =
     (let dec32 = (\<lambda>v :: u32. fmt_dec (unat v)); dec8 = (\<lambda>v :: u8. fmt_dec (unat v)); newline = [0x0A];
          physical_str = or_unavailable (0 < ci_physical_cores c) (dec8 (ci_physical_cores c));
          logical_str = or_unavailable (0 < ci_logical_cores c) (dec8 (ci_logical_cores c));
          frequency_str = or_unavailable (0 < ci_frequency_mhz c) (dec32 (ci_frequency_mhz c) @ str_bytes '' MHz'');
          cache_str = or_unavailable (0 < ci_cache_l1 c \<or> 0 < ci_cache_l2 c \<or> 0 < ci_cache_l3 c)
            (str_bytes ''L1='' @ dec32 (ci_cache_l1 c) @ str_bytes '' KB, L2='' @ dec32 (ci_cache_l2 c) @
             str_bytes '' KB, L3='' @ dec32 (ci_cache_l3 c) @ str_bytes '' KB'') in
      str_bytes ''Vendor: '' @ str_bytes (vendor_as_str (ci_vendor c)) @ newline @
      str_bytes ''Brand: '' @ brand_as_str (ci_brand_string c) @ newline @
      str_bytes ''Family: '' @ dec8 (full_family (ci_signature c)) @ str_bytes '' Model: '' @ dec8 (full_model (ci_signature c)) @
      str_bytes '' Stepping: '' @ dec8 (stepping (ci_signature c)) @ newline @
      str_bytes ''Cores: '' @ physical_str @ str_bytes '' physical, '' @ logical_str @ str_bytes '' logical'' @ newline @
      str_bytes ''Frequency: '' @ frequency_str @ newline @ str_bytes ''Cache: '' @ cache_str)"

definition feature_count :: "CpuInfo \<Rightarrow> nat" where
  "feature_count c = length (enabled_features (ci_features c))"

section \<open>The global record\<close>

text \<open>\<open>CPU_INFO\<close>; \<open>cpu_info\<close> panics before the detection.\<close>

definition cpu_init :: "cpuid \<Rightarrow> CpuInfo option \<Rightarrow> CpuInfo option" where
  "cpu_init cpuid _ = Some (CpuInfo_new cpuid)"

definition cpu_info :: "CpuInfo option \<Rightarrow> CpuInfo option" where
  "cpu_info g = g"

definition cpu_is_initialized :: "CpuInfo option \<Rightarrow> bool" where
  "cpu_is_initialized g \<longleftrightarrow> g \<noteq> None"

definition from_cpu_info :: "'a \<Rightarrow> (CpuInfo \<Rightarrow> 'a) \<Rightarrow> CpuInfo option \<Rightarrow> 'a" where
  "from_cpu_info d get g = (case g of Some c \<Rightarrow> get c | None \<Rightarrow> d)"

definition vendor_string :: "CpuInfo option \<Rightarrow> bytes" where
  "vendor_string = from_cpu_info (str_bytes ''Unknown'') (\<lambda>c. str_bytes (vendor_as_str (ci_vendor c)))"

definition brand_string :: "CpuInfo option \<Rightarrow> bytes" where
  "brand_string = from_cpu_info (str_bytes ''Unknown'') (\<lambda>c. brand_as_str (ci_brand_string c))"

definition signature_string :: "CpuInfo option \<Rightarrow> bytes" where
  "signature_string = from_cpu_info (str_bytes ''Unknown'') (\<lambda>c. signature_format (ci_signature c))"

definition frequency_mhz :: "CpuInfo option \<Rightarrow> u32" where
  "frequency_mhz = from_cpu_info 0 ci_frequency_mhz"

definition physical_cores :: "CpuInfo option \<Rightarrow> u8" where
  "physical_cores = from_cpu_info 0 ci_physical_cores"

definition logical_cores :: "CpuInfo option \<Rightarrow> u8" where
  "logical_cores = from_cpu_info 0 ci_logical_cores"

definition cpu_features :: "CpuInfo option \<Rightarrow> CpuFeatures" where
  "cpu_features = from_cpu_info DEFAULT_FEATURES ci_features"

section \<open>The documented flags\<close>

text \<open>The bits of leaf 1 for the names the kernel knows: \<open>Inl\<close> in EDX, \<open>Inr\<close> in ECX.\<close>

definition documented_bits :: "(string \<times> (nat + nat)) list" where
  "documented_bits =
    [(''FPU'', Inl 0), (''VME'', Inl 1), (''DE'', Inl 2), (''PSE'', Inl 3), (''TSC'', Inl 4), (''MSR'', Inl 5),
     (''PAE'', Inl 6), (''MCE'', Inl 7), (''CX8'', Inl 8), (''APIC'', Inl 9), (''SEP'', Inl 11), (''MTRR'', Inl 12),
     (''PGE'', Inl 13), (''MCA'', Inl 14), (''CMOV'', Inl 15), (''PAT'', Inl 16), (''PSE36'', Inl 17),
     (''MMX'', Inl 23), (''FXSR'', Inl 24), (''SSE'', Inl 25), (''SSE2'', Inl 26), (''HT'', Inl 28), (''TM'', Inl 29),
     (''SSE3'', Inr 0), (''PCLMULQDQ'', Inr 1), (''MONITOR'', Inr 3), (''VMX'', Inr 5), (''SMX'', Inr 6),
     (''EST'', Inr 7), (''TM2'', Inr 8), (''SSSE3'', Inr 9), (''FMA'', Inr 12), (''CX16'', Inr 13),
     (''SSE4.1'', Inr 19), (''SSE4.2'', Inr 20), (''x2APIC'', Inr 21), (''POPCNT'', Inr 23), (''AES'', Inr 25),
     (''XSAVE'', Inr 26), (''OSXSAVE'', Inr 27), (''AVX'', Inr 28), (''F16C'', Inr 29), (''RDRAND'', Inr 30),
     (''HYPERVISOR'', Inr 31)]"

definition leaf1_flag :: "u32 \<Rightarrow> u32 \<Rightarrow> nat + nat \<Rightarrow> bool" where
  "leaf1_flag edx ecx s = (case s of Inl i \<Rightarrow> bit edx i | Inr i \<Rightarrow> bit ecx i)"

lemma feature_match_bits:
  "map (\<lambda>(n, g). (n, g (CpuFeatures_new edx ecx))) feature_match = map (\<lambda>(n, s). (n, leaf1_flag edx ecx s)) documented_bits"
  unfolding feature_match_def documented_bits_def list.map CpuFeatures_new_def and_push_bit_1_iff
  by (simp add: leaf1_flag_def)

lemma has_feature_bits:
  "has_feature (CpuFeatures_new edx ecx) n = (case map_of documented_bits n of Some s \<Rightarrow> leaf1_flag edx ecx s | None \<Rightarrow> False)"
proof -
  have m: "map_of (map (\<lambda>(n, g). (n, h g)) xs) n = map_option h (map_of xs n)" for h and xs :: "(string \<times> 'b) list"
    by (induction xs) auto
  have "map_option (\<lambda>g. g (CpuFeatures_new edx ecx)) (map_of feature_match n) = map_option (leaf1_flag edx ecx) (map_of documented_bits n)"
    using arg_cong [OF feature_match_bits [of edx ecx], of "\<lambda>t. map_of t n"] unfolding m .
  then show ?thesis
    by (cases "map_of feature_match n"; cases "map_of documented_bits n") (simp_all add: has_feature_def)
qed

lemma enabled_Cons: "map fst (filter (\<lambda>(n, g). g f) ((n, g) # xs)) = push_if (g f) n @ map fst (filter (\<lambda>(n, g). g f) xs)"
  by (simp add: push_if_def)

lemma enabled_filter: "enabled_features f = map fst (filter (\<lambda>(n, g). g f) feature_match)"
  unfolding enabled_features_def feature_match_def enabled_Cons filter.simps(1) list.map(1) append_Nil2 append_assoc ..

lemma feature_names_distinct: "distinct (map fst feature_match)"
  by (simp add: feature_match_def)

lemma enabled_has_feature: "n \<in> set (enabled_features f) \<longleftrightarrow> has_feature f n"
proof -
  have "n \<in> set (enabled_features f) \<longleftrightarrow> (\<exists>g. (n, g) \<in> set feature_match \<and> g f)"
    by (force simp: enabled_filter)
  also have "\<dots> \<longleftrightarrow> (\<exists>g. map_of feature_match n = Some g \<and> g f)"
    using feature_names_distinct by simp
  finally show ?thesis by (auto simp: has_feature_def split: option.splits)
qed

lemma enabled_distinct: "distinct (enabled_features f)"
  unfolding enabled_filter using feature_names_distinct by (rule distinct_map_filter)

section \<open>Decoding\<close>

text \<open>The fields of the signature are the bits of the register that are not reserved.\<close>

lemma low_mask: "(0xFF :: u32) = mask 8" "(0xF :: u32) = mask 4"
  by (simp_all add: mask_eq_exp_minus_1)

lemma signature_bits:
  "bit (extended_family (CpuSignature_new eax)) i \<longleftrightarrow> i < 8 \<and> bit eax (20 + i)"
  "bit (extended_model (CpuSignature_new eax)) i \<longleftrightarrow> i < 4 \<and> bit eax (16 + i)"
  "bit (family (CpuSignature_new eax)) i \<longleftrightarrow> i < 4 \<and> bit eax (8 + i)"
  "bit (model_number (CpuSignature_new eax)) i \<longleftrightarrow> i < 4 \<and> bit eax (4 + i)"
  "bit (stepping (CpuSignature_new eax)) i \<longleftrightarrow> i < 4 \<and> bit eax i"
  by (auto simp: CpuSignature_new_def low_mask bit_simps)

text \<open>Only the first 16 of the 48 bytes of the brand string are ever set.\<close>

lemma brand_string_short: "length (detect_brand_string cpuid) = 48" "\<forall>b\<in>set (drop 16 (detect_brand_string cpuid)). b = 0"
  by (simp_all add: detect_brand_string_def CpuBrandString_new_def BRAND_STRING_LENGTH_def Let_def)

text \<open>The vendor that is recognised is the one whose name the registers spell.\<close>

lemma vendor_raw:
  "take 12 (vendor_raw_string (detect_vendor cpuid)) =
     u32_to_le (cpuid_ebx (cpuid 0)) @ u32_to_le (cpuid_edx (cpuid 0)) @ u32_to_le (cpuid_ecx (cpuid 0))"
  by (simp add: detect_vendor_def Let_def str_bytes_def)

lemma field_less:
  "unat (drop_bit 24 w AND 0xFF) < 256" "unat (drop_bit 16 w AND 0xFFFF) < 65536" "unat (drop_bit 18 w AND 0x3FFF) < 16384"
  for w :: u32
  using word_and_le1 [of "drop_bit 24 w" "0xFF"] word_and_le1 [of "drop_bit 16 w" "0xFFFF"] word_and_le1 [of "drop_bit 18 w" "0x3FFF"]
  by (simp_all add: word_le_nat_alt)

lemma scaled_1024: "unat (x * 1024) = 1024 * unat x" if "unat x < 65536" for x :: u32
  using that by (simp add: unat_word_ariths take_bit_nat_def)

lemma scaled_512: "unat (x * 512 * 1024 div 1024) = 512 * (unat x mod 8192)" for x :: u32
proof -
  have "unat (x * 524288) = (524288 * unat x) mod (524288 * 8192)" by (simp add: unat_word_ariths take_bit_nat_def mult.commute)
  then have "unat (x * 512 * 1024) = 524288 * (unat x mod 8192)" by (simp only: mult_mod_right mult.assoc) simp
  then show ?thesis by (simp add: unat_div)
qed

section \<open>Properties\<close>

text \<open>The feature set is that of the documented flags: a name is reported by \<open>has_feature\<close> exactly
  when its bit of leaf 1 is set, unknown names never, and the list of enabled features has the same names,
  each once, so that the number of features is the number of documented flags that are set.\<close>

theorem features_documented:
  "has_feature (detect_features cpuid) n =
     (case map_of documented_bits n of
        Some s \<Rightarrow> leaf1_flag (cpuid_edx (cpuid 1)) (cpuid_ecx (cpuid 1)) s
      | None \<Rightarrow> False) \<and>
   (n \<in> set (enabled_features (detect_features cpuid)) \<longleftrightarrow> has_feature (detect_features cpuid) n) \<and>
   feature_count (CpuInfo_new cpuid) =
     length (filter (\<lambda>(n, s). leaf1_flag (cpuid_edx (cpuid 1)) (cpuid_ecx (cpuid 1)) s) documented_bits)"
proof -
  let ?f = "CpuFeatures_new (cpuid_edx (cpuid 1)) (cpuid_ecx (cpuid 1))"
  let ?v = "leaf1_flag (cpuid_edx (cpuid 1)) (cpuid_ecx (cpuid 1))"
  have c: "length (filter (\<lambda>(n, g). h g) xs) = length (filter snd (map (\<lambda>(n, g). (n, h g)) xs))" for h and xs :: "(string \<times> 'b) list"
    by (induction xs) auto
  have "length (enabled_features ?f) = length (filter (\<lambda>(n, s). ?v s) documented_bits)"
    unfolding enabled_filter length_map c [of "\<lambda>g. g ?f"] c [of ?v] feature_match_bits ..
  then have "feature_count (CpuInfo_new cpuid) = length (filter (\<lambda>(n, s). ?v s) documented_bits)"
    by (simp add: feature_count_def CpuInfo_new_def detect_features_def split: prod.split)
  then show ?thesis by (simp add: detect_features_def has_feature_bits enabled_has_feature)
qed

text \<open>The cache sizes that are shown as kilobytes. The registers hold the first two sizes in
  kilobytes, and the code multiplies them by 1024, so they are shown 1024 times too large. The third, in
  units of 512 kilobytes, is right up to 4 gigabytes; from there on the product wraps.\<close>

theorem cache_sizes_shown:
  "unat (fst (detect_cache_info cpuid)) = 1024 * unat (drop_bit 24 (cpuid_ecx (cpuid 0x80000005)) AND 0xFF) \<and>
   unat (fst (snd (detect_cache_info cpuid))) = 1024 * unat (drop_bit 16 (cpuid_ecx (cpuid 0x80000006)) AND 0xFFFF) \<and>
   unat (snd (snd (detect_cache_info cpuid))) =
     512 * (unat (drop_bit 18 (cpuid_edx (cpuid 0x80000006)) AND 0x3FFF) mod 8192)"
proof -
  let ?l1 = "drop_bit 24 (cpuid_ecx (cpuid 0x80000005)) AND 0xFF" and ?l2 = "drop_bit 16 (cpuid_ecx (cpuid 0x80000006)) AND 0xFFFF"
  let ?l3 = "drop_bit 18 (cpuid_edx (cpuid 0x80000006)) AND 0x3FFF"
  have "unat (?l1 * 1024) = 1024 * unat ?l1" "unat (?l2 * 1024) = 1024 * unat ?l2"
    using field_less(1) [of "cpuid_ecx (cpuid 0x80000005)"] field_less(2) [of "cpuid_ecx (cpuid 0x80000006)"]
    by (simp_all only: scaled_1024)
  moreover have "unat (?l3 * 512 * 1024 div 1024) = 512 * (unat ?l3 mod 8192)" by (rule scaled_512)
  ultimately show ?thesis by (simp only: detect_cache_info_def Let_def fst_conv snd_conv) (auto simp: unat_eq_0)
qed

end
