(* ===== verification/Memory_Info.thy ===== *)
theory Memory_Info
  imports Cpu_Info "HOL-Library.Multiset"
begin

text \<open>
  Memory information for display: \<open>kernel/src/sysinfo/memory.rs\<close> and
  \<open>kernel/src/sysinfo/mod.rs\<close>. \<open>PhysAddr::new\<close> of the crate x86_64 is a parameter that panics
  (\<open>None\<close>); sums and differences of sizes wrap.
\<close>

section \<open>Regions\<close>

datatype MemoryRegionType = Usable | Reserved | Acpi | AcpiNvs | Bad | BootloaderReclaimable | Kernel | Framebuffer | Unknown

definition mrt_from_u32 :: "u32 \<Rightarrow> MemoryRegionType" where
  "mrt_from_u32 t =
     (if t = 1 then Usable else if t = 2 then Reserved else if t = 3 then Acpi else if t = 4 then AcpiNvs
      else if t = 5 then Bad else if t = 6 then BootloaderReclaimable else if t = 7 then Kernel
      else if t = 8 then Framebuffer else Unknown)"

primrec mrt_as_u32 :: "MemoryRegionType \<Rightarrow> u32" where
  "mrt_as_u32 Usable = 1" | "mrt_as_u32 Reserved = 2" | "mrt_as_u32 Acpi = 3" | "mrt_as_u32 AcpiNvs = 4" | "mrt_as_u32 Bad = 5"
| "mrt_as_u32 BootloaderReclaimable = 6" | "mrt_as_u32 Kernel = 7" | "mrt_as_u32 Framebuffer = 8" | "mrt_as_u32 Unknown = 0"

primrec mrt_as_str :: "MemoryRegionType \<Rightarrow> string" where
  "mrt_as_str Usable = ''Usable RAM''"
| "mrt_as_str Reserved = ''Reserved''"
| "mrt_as_str Acpi = ''ACPI Tables''"
| "mrt_as_str AcpiNvs = ''ACPI NVS''"
| "mrt_as_str Bad = ''Bad Memory''"
| "mrt_as_str BootloaderReclaimable = ''Bootloader Reclaimable''"
| "mrt_as_str Kernel = ''Kernel''"
| "mrt_as_str Framebuffer = ''Framebuffer''"
| "mrt_as_str Unknown = ''Unknown''"

record MemoryRegion =
  mr_base :: u64
  mr_size :: u64
  mr_type :: MemoryRegionType
  mr_usable :: bool

definition MemoryRegion_new :: "u64 \<Rightarrow> u64 \<Rightarrow> MemoryRegionType \<Rightarrow> MemoryRegion" where
  "MemoryRegion_new base sz region_type =
     \<lparr> mr_base = base, mr_size = sz, mr_type = region_type,
       mr_usable = (region_type = Usable \<or> region_type = BootloaderReclaimable) \<rparr>"

definition mr_end :: "(u64 \<Rightarrow> u64 option) \<Rightarrow> MemoryRegion \<Rightarrow> u64 option" where
  "mr_end phys_new r =
     (let e = mr_base r + mr_size r in phys_new (if e < mr_base r then 0 else e))"

definition mr_format :: "(u64 \<Rightarrow> u64 option) \<Rightarrow> MemoryRegion \<Rightarrow> bytes option" where
  "mr_format phys_new r =
     map_option (\<lambda>e. str_bytes ''0x'' @ fmt_hex 16 (unat (mr_base r)) @ str_bytes '' - 0x'' @ fmt_hex 16 (unat e) @
       str_bytes '' ('' @ fmt_dec (unat (mr_size r div (1024 * 1024))) @ str_bytes '' MiB) '' @ str_bytes (mrt_as_str (mr_type r)))
     (mr_end phys_new r)"

section \<open>The information record\<close>

record MemoryInfo =
  mi_total_bytes :: u64
  mi_usable_bytes :: u64
  mi_reserved_bytes :: u64
  mi_memory_map :: "MemoryRegion list"
  mi_firmware_regions :: "MemoryRegion list"
  mi_usable_regions :: "MemoryRegion list"
  mi_reserved_regions :: "MemoryRegion list"

definition with_memory_map :: "MemoryRegion list \<Rightarrow> MemoryInfo" where
  "with_memory_map memory_map =
     (let usable_regions = filter mr_usable memory_map; reserved_regions = filter (\<lambda>r. \<not> mr_usable r) memory_map in
      \<lparr> mi_total_bytes = sum_list (map mr_size memory_map), mi_usable_bytes = sum_list (map mr_size usable_regions),
        mi_reserved_bytes = sum_list (map mr_size reserved_regions), mi_memory_map = memory_map, mi_firmware_regions = [],
        mi_usable_regions = usable_regions, mi_reserved_regions = reserved_regions \<rparr>)"

definition mi_add_region :: "MemoryRegion \<Rightarrow> MemoryInfo \<Rightarrow> MemoryInfo" where
  "mi_add_region region m =
     (let m = m \<lparr> mi_memory_map := mi_memory_map m @ [region] \<rparr>;
          usable_regions = filter mr_usable (mi_memory_map m);
          reserved_regions = filter (\<lambda>r. \<not> mr_usable r) (mi_memory_map m);
          m = m \<lparr> mi_usable_regions := usable_regions, mi_reserved_regions := reserved_regions \<rparr> in
      m \<lparr> mi_usable_bytes := sum_list (map mr_size (mi_usable_regions m)),
          mi_reserved_bytes := sum_list (map mr_size (mi_reserved_regions m)),
          mi_total_bytes := sum_list (map mr_size (mi_memory_map m)) \<rparr>)"

definition new_with_total :: "u64 \<Rightarrow> MemoryInfo" where
  "new_with_total total_bytes =
     with_memory_map (MemoryRegion_new 0 0x100000 Reserved #
       (if 0x100000 < total_bytes then [MemoryRegion_new 0x100000 (total_bytes - 0x100000) Usable] else []))"

text \<open>The shift \<open>1u64 << physical_bits\<close> uses the low six bits of the count.\<close>

definition mi_detect_total_memory :: "cpuid \<Rightarrow> u64" where
  "mi_detect_total_memory cpuid =
     (let physical_bits = ucast (cpuid_eax (cpuid 0x80000008) AND 0xFF) :: u8 in
      if 0 < physical_bits then push_bit (unat physical_bits mod 64) 1 - 1 else 256 * 1024 * 1024)"

definition MemoryInfo_new :: "cpuid \<Rightarrow> MemoryInfo" where
  "MemoryInfo_new cpuid =
     (let total = mi_detect_total_memory cpuid;
          memory_map = [MemoryRegion_new 0 0x100000 Reserved, MemoryRegion_new 0x100000 (total - 0x100000) Usable];
          usable_regions = filter mr_usable memory_map; reserved_regions = filter (\<lambda>r. \<not> mr_usable r) memory_map in
      \<lparr> mi_total_bytes = total, mi_usable_bytes = sum_list (map mr_size usable_regions),
        mi_reserved_bytes = sum_list (map mr_size reserved_regions), mi_memory_map = memory_map, mi_firmware_regions = [],
        mi_usable_regions = usable_regions, mi_reserved_regions = reserved_regions \<rparr>)"

definition mi_total_mib :: "MemoryInfo \<Rightarrow> u64" where
  "mi_total_mib m = mi_total_bytes m div (1024 * 1024)"

definition mi_usable_mib :: "MemoryInfo \<Rightarrow> u64" where
  "mi_usable_mib m = mi_usable_bytes m div (1024 * 1024)"

definition mi_reserved_mib :: "MemoryInfo \<Rightarrow> u64" where
  "mi_reserved_mib m = mi_reserved_bytes m div (1024 * 1024)"

definition mi_summary :: "MemoryInfo \<Rightarrow> bytes" where
  "mi_summary m =
     str_bytes ''Total Memory: '' @ fmt_dec (unat (mi_total_mib m)) @ str_bytes '' MiB'' @ [0x0A] @
     str_bytes ''Usable Memory: '' @ fmt_dec (unat (mi_usable_mib m)) @ str_bytes '' MiB'' @ [0x0A] @
     str_bytes ''Reserved Memory: '' @ fmt_dec (unat (mi_reserved_mib m)) @ str_bytes '' MiB'' @ [0x0A] @
     str_bytes ''Memory Regions: '' @ fmt_dec (length (mi_memory_map m))"

text \<open>A heading and one line for every region; the first panic stops the loop.\<close>

fun region_lines :: "(u64 \<Rightarrow> u64 option) \<Rightarrow> MemoryRegion list \<Rightarrow> bytes option" where
  "region_lines phys_new [] = Some []"
| "region_lines phys_new (r # rs) =
     (case mr_format phys_new r of None \<Rightarrow> None
      | Some s \<Rightarrow> map_option (\<lambda>t. str_bytes ''  '' @ s @ [0x0A] @ t) (region_lines phys_new rs))"

definition memory_map_string :: "(u64 \<Rightarrow> u64 option) \<Rightarrow> MemoryInfo \<Rightarrow> bytes option" where
  "memory_map_string phys_new m =
     map_option (\<lambda>t. str_bytes ''Memory Map:'' @ [0x0A] @ t) (region_lines phys_new (mi_memory_map m))"

definition usable_regions_string :: "(u64 \<Rightarrow> u64 option) \<Rightarrow> MemoryInfo \<Rightarrow> bytes option" where
  "usable_regions_string phys_new m =
     map_option (\<lambda>t. str_bytes ''Usable Memory Regions:'' @ [0x0A] @ t) (region_lines phys_new (mi_usable_regions m))"

definition reserved_regions_string :: "(u64 \<Rightarrow> u64 option) \<Rightarrow> MemoryInfo \<Rightarrow> bytes option" where
  "reserved_regions_string phys_new m =
     map_option (\<lambda>t. str_bytes ''Reserved Memory Regions:'' @ [0x0A] @ t) (region_lines phys_new (mi_reserved_regions m))"

section \<open>The global records\<close>

definition mi_init :: "u64 \<Rightarrow> MemoryInfo option \<Rightarrow> MemoryInfo option" where
  "mi_init total_memory _ = Some (new_with_total total_memory)"

definition mi_init_with_memory_map :: "MemoryRegion list \<Rightarrow> MemoryInfo option \<Rightarrow> MemoryInfo option" where
  "mi_init_with_memory_map memory_map _ = Some (with_memory_map memory_map)"

text \<open>\<open>memory_info\<close> panics before the initialisation; the accessors have a default.\<close>

definition memory_info :: "MemoryInfo option \<Rightarrow> MemoryInfo option" where
  "memory_info g = g"

definition mi_is_initialized :: "MemoryInfo option \<Rightarrow> bool" where
  "mi_is_initialized g \<longleftrightarrow> g \<noteq> None"

definition from_memory_info :: "'a \<Rightarrow> (MemoryInfo \<Rightarrow> 'a) \<Rightarrow> MemoryInfo option \<Rightarrow> 'a" where
  "from_memory_info d get g = (case g of Some m \<Rightarrow> get m | None \<Rightarrow> d)"

definition total_bytes :: "MemoryInfo option \<Rightarrow> u64" where "total_bytes = from_memory_info 0 mi_total_bytes"
definition total_mib :: "MemoryInfo option \<Rightarrow> u64" where "total_mib = from_memory_info 0 mi_total_mib"
definition usable_bytes :: "MemoryInfo option \<Rightarrow> u64" where "usable_bytes = from_memory_info 0 mi_usable_bytes"
definition usable_mib :: "MemoryInfo option \<Rightarrow> u64" where "usable_mib = from_memory_info 0 mi_usable_mib"
definition reserved_bytes :: "MemoryInfo option \<Rightarrow> u64" where "reserved_bytes = from_memory_info 0 mi_reserved_bytes"
definition reserved_mib :: "MemoryInfo option \<Rightarrow> u64" where "reserved_mib = from_memory_info 0 mi_reserved_mib"
definition global_memory_map :: "MemoryInfo option \<Rightarrow> MemoryRegion list" where "global_memory_map = from_memory_info [] mi_memory_map"
definition usable_regions :: "MemoryInfo option \<Rightarrow> MemoryRegion list" where
  "usable_regions = from_memory_info [] mi_usable_regions"
definition reserved_regions :: "MemoryInfo option \<Rightarrow> MemoryRegion list" where
  "reserved_regions = from_memory_info [] mi_reserved_regions"

record SystemInfo =
  si_cpu :: CpuInfo
  si_memory :: MemoryInfo

definition SystemInfo_new :: "cpuid \<Rightarrow> SystemInfo" where
  "SystemInfo_new cpuid = \<lparr> si_cpu = CpuInfo_new cpuid, si_memory = MemoryInfo_new cpuid \<rparr>"

definition si_summary :: "SystemInfo \<Rightarrow> bytes" where
  "si_summary s = str_bytes ''System Information'' @ [0x0A] @ cpu_summary (si_cpu s) @ [0x0A] @ mi_summary (si_memory s)"

record sysinfo_globals =
  CPU_INFO :: "CpuInfo option"
  MEMORY_INFO :: "MemoryInfo option"
  SYSTEM_INFO :: "SystemInfo option"

definition sysinfo_init :: "cpuid \<Rightarrow> u64 \<Rightarrow> sysinfo_globals \<Rightarrow> sysinfo_globals" where
  "sysinfo_init cpuid total_memory g =
     g \<lparr> CPU_INFO := cpu_init cpuid (CPU_INFO g), MEMORY_INFO := mi_init total_memory (MEMORY_INFO g) \<rparr>"

definition init_with_total_memory :: "cpuid \<Rightarrow> u64 \<Rightarrow> sysinfo_globals \<Rightarrow> sysinfo_globals" where
  "init_with_total_memory cpuid total_memory g =
     (sysinfo_init cpuid total_memory g) \<lparr> SYSTEM_INFO := Some (SystemInfo_new cpuid) \<rparr>"

definition system_info :: "sysinfo_globals \<Rightarrow> SystemInfo option" where
  "system_info g = SYSTEM_INFO g"

definition sysinfo_is_initialized :: "sysinfo_globals \<Rightarrow> bool" where
  "sysinfo_is_initialized g \<longleftrightarrow> cpu_is_initialized (CPU_INFO g) \<and> mi_is_initialized (MEMORY_INFO g)"

text \<open>\<open>system_summary\<close> reads the two global records and panics when one is missing.\<close>

definition system_summary :: "sysinfo_globals \<Rightarrow> bytes option" where
  "system_summary g =
     (case (cpu_info (CPU_INFO g), memory_info (MEMORY_INFO g)) of
        (Some c, Some m) \<Rightarrow> Some (str_bytes ''System Information'' @ [0x0A] @ cpu_summary c @ [0x0A] @ mi_summary m)
      | _ \<Rightarrow> None)"

section \<open>Consistency\<close>

definition mi_consistent :: "MemoryInfo \<Rightarrow> bool" where
  "mi_consistent m \<longleftrightarrow>
     mi_usable_regions m = filter mr_usable (mi_memory_map m) \<and>
     mi_reserved_regions m = filter (\<lambda>r. \<not> mr_usable r) (mi_memory_map m) \<and>
     mi_total_bytes m = sum_list (map mr_size (mi_memory_map m)) \<and>
     mi_usable_bytes m = sum_list (map mr_size (mi_usable_regions m)) \<and>
     mi_reserved_bytes m = sum_list (map mr_size (mi_reserved_regions m))"

lemma sum_split: "sum_list (map f (filter P xs)) + sum_list (map f (filter (\<lambda>x. \<not> P x) xs)) = sum_list (map f xs)"
  for f :: "'a \<Rightarrow> u64"
  by (induction xs) (simp_all add: algebra_simps)

lemma consistent_total: "mi_consistent m \<Longrightarrow> mi_usable_bytes m + mi_reserved_bytes m = mi_total_bytes m"
  by (simp add: mi_consistent_def sum_split)

lemma mset_split: "mset (filter P xs) + mset (filter (\<lambda>x. \<not> P x) xs) = mset xs"
  by (induction xs) simp_all

lemma with_memory_map_consistent: "mi_consistent (with_memory_map rs)"
  by (simp add: mi_consistent_def with_memory_map_def Let_def)

lemma add_region_map: "mi_add_region r m = (with_memory_map (mi_memory_map m @ [r])) \<lparr> mi_firmware_regions := mi_firmware_regions m \<rparr>"
  by (simp add: mi_add_region_def with_memory_map_def Let_def)

lemma MemoryInfo_new_consistent: "mi_consistent (MemoryInfo_new cpuid)"
  by (simp add: mi_consistent_def MemoryInfo_new_def Let_def MemoryRegion_new_def)

lemma type_roundtrip: "mrt_from_u32 (mrt_as_u32 t) = t"
  by (cases t) (simp_all add: mrt_from_u32_def)

text \<open>The totals after the initialisation from the boot: at least the first megabyte.\<close>

lemma new_with_total_bytes:
  "mi_total_bytes (new_with_total t) = (if 0x100000 < t then t else 0x100000)"
  "mi_usable_bytes (new_with_total t) = (if 0x100000 < t then t - 0x100000 else 0)"
  "mi_reserved_bytes (new_with_total t) = 0x100000"
  by (simp_all add: new_with_total_def with_memory_map_def Let_def MemoryRegion_new_def)

lemma consistent_add_region: "mi_consistent (mi_add_region r m)"
  by (simp add: add_region_map mi_consistent_def with_memory_map_def Let_def)

lemma add_regions_map: "fold mi_add_region rs (with_memory_map xs) = with_memory_map (xs @ rs)"
proof (induction rs arbitrary: xs)
  case (Cons r rs)
  have "mi_add_region r (with_memory_map xs) = with_memory_map (xs @ [r])"
    by (simp add: add_region_map) (simp add: with_memory_map_def Let_def)
  then show ?case using Cons [of "xs @ [r]"] by simp
qed simp

section \<open>Properties\<close>

text \<open>The memory information is consistent however it is made: from a map, from the total of the boot or
  from the processor, and after any regions were added one by one. Usable and reserved bytes add up
  to the total modulo \<open>2 ^ 64\<close>, the two lists partition the map, and adding regions gives
  what the extended map gives.\<close>

theorem memory_info_consistent:
  "(\<forall>m\<in>{with_memory_map xs, new_with_total t, MemoryInfo_new cpuid}.
      let m' = fold mi_add_region rs m in
      mi_consistent m' \<and> mi_usable_bytes m' + mi_reserved_bytes m' = mi_total_bytes m' \<and>
      mset (mi_usable_regions m') + mset (mi_reserved_regions m') = mset (mi_memory_map m') \<and>
      mi_memory_map m' = mi_memory_map m @ rs) \<and>
   fold mi_add_region rs (with_memory_map xs) = with_memory_map (xs @ rs)"
proof -
  have c: "mi_consistent (fold mi_add_region rs m)" if "mi_consistent m" for m
    using that by (rule fold_preserves) (rule consistent_add_region)
  have m: "mi_memory_map (fold mi_add_region rs m) = mi_memory_map m @ rs" for m
    by (induction rs arbitrary: m) (simp_all add: mi_add_region_def Let_def)
  have "mi_consistent m" if "m \<in> {with_memory_map xs, new_with_total t, MemoryInfo_new cpuid}" for m
    using that by (auto simp: with_memory_map_consistent MemoryInfo_new_consistent new_with_total_def)
  note c [OF this]
  moreover have "mset (mi_usable_regions m') + mset (mi_reserved_regions m') = mset (mi_memory_map m')" if "mi_consistent m'" for m'
    using that by (simp add: mi_consistent_def mset_split)
  ultimately show ?thesis using m add_regions_map by (auto simp: Let_def consistent_total)
qed

theorem memory_info_consistent_witness:
  "mi_total_bytes (fold mi_add_region [MemoryRegion_new 0x200000 0x1000 Bad] (new_with_total 0x200000)) = 0x201000 \<and>
   mi_consistent (fold mi_add_region [MemoryRegion_new 0x200000 0x1000 Bad] (new_with_total 0x200000))"
  using memory_info_consistent [of "[]" "0x200000" "\<lambda>_. \<lparr> cpuid_eax = 0, cpuid_ebx = 0, cpuid_ecx = 0, cpuid_edx = 0 \<rparr>"
      "[MemoryRegion_new 0x200000 0x1000 Bad]"]
  by (simp add: Let_def add_region_map) (simp add: new_with_total_def with_memory_map_def Let_def MemoryRegion_new_def)

end
