(* ===== verification/Boot_Console.thy ===== *)
theory Boot_Console
  imports Ata_Driver Cpu_Info
begin

text \<open>
  The early boot: the helpers of \<open>kernel/src/arch/boot_entry.rs\<close> for the serial port, the progress
  display and the detection of the memory size. Port instructions are the record
  \<open>port_io\<close>, text memory a function from byte offsets, and an index outside of a buffer panics
  (\<open>None\<close>).
\<close>

section \<open>Serial output\<close>

text \<open>At most 100000 looks at the line status; then the byte is sent in any case.\<close>

primrec serial_poll :: "'m port_io \<Rightarrow> nat \<Rightarrow> 'm \<Rightarrow> 'm" where
  "serial_poll P 0 m = m"
| "serial_poll P (Suc timeout) m =
     (case inb P 0x3FD m of (v, m') \<Rightarrow> if v AND 0x20 = 0 then serial_poll P timeout m' else m')"

definition early_serial_write :: "'m port_io \<Rightarrow> u8 \<Rightarrow> 'm \<Rightarrow> 'm" where
  "early_serial_write P b m = outb P 0x3F8 b (serial_poll P 100000 m)"

definition early_serial_print :: "'m port_io \<Rightarrow> bytes \<Rightarrow> 'm \<Rightarrow> 'm" where
  "early_serial_print P s m =
     fold (\<lambda>b m. early_serial_write P b (if b = 0x0A then early_serial_write P 0x0D m else m)) s m"

text \<open>Digits go to a buffer, the least significant first, and are sent in reverse.\<close>

function hex_loop :: "u64 \<Rightarrow> nat \<Rightarrow> bytes \<Rightarrow> (bytes \<times> nat) option" where
  "hex_loop val i buf =
     (if val = 0 then Some (buf, i)
      else if i < length buf then
        let nibble = ucast (val AND 0xF) :: u8 in
        hex_loop (drop_bit 4 val) (i + 1) (buf[i := if nibble < 10 then 0x30 + nibble else 0x41 + nibble - 10])
      else None)"
  by pat_completeness auto
termination
  by (relation "measure (\<lambda>(val, i, buf). length buf - i)") auto

declare hex_loop.simps [simp del]

definition send_reversed :: "'m port_io \<Rightarrow> bytes \<Rightarrow> nat \<Rightarrow> 'm \<Rightarrow> 'm" where
  "send_reversed P buf i m = fold (\<lambda>j. early_serial_write P (buf ! j)) (rev [0..<i]) m"

definition early_serial_write_hex :: "'m port_io \<Rightarrow> u64 \<Rightarrow> 'm \<Rightarrow> 'm option" where
  "early_serial_write_hex P val m =
     (if val = 0 then Some (early_serial_write P 0x30 m)
      else map_option (\<lambda>(buf, i). send_reversed P buf i m) (hex_loop val 0 (replicate 16 0)))"

function dec_loop :: "nat \<Rightarrow> nat \<Rightarrow> bytes \<Rightarrow> (bytes \<times> nat) option" where
  "dec_loop val i buf =
     (if val = 0 then Some (buf, i)
      else if i < length buf then dec_loop (val div 10) (i + 1) (buf[i := 0x30 + of_nat (val mod 10)])
      else None)"
  by pat_completeness auto
termination
  by (relation "measure (\<lambda>(val, i, buf). length buf - i)") auto

declare dec_loop.simps [simp del]

definition early_serial_write_dec :: "'m port_io \<Rightarrow> nat \<Rightarrow> 'm \<Rightarrow> 'm option" where
  "early_serial_write_dec P val m =
     (if val = 0 then Some (early_serial_write P 0x30 m)
      else map_option (\<lambda>(buf, i). send_reversed P buf i m) (dec_loop val 0 (replicate 20 0)))"

definition HEX_DIGITS :: bytes where "HEX_DIGITS = str_bytes ''0123456789ABCDEF''"

definition early_serial_write_hex8 :: "'m port_io \<Rightarrow> u32 \<Rightarrow> 'm \<Rightarrow> 'm" where
  "early_serial_write_hex8 P val m =
     early_serial_write P (HEX_DIGITS ! unat (val AND 0xF)) (early_serial_write P (HEX_DIGITS ! unat (drop_bit 4 val AND 0xF)) m)"

section \<open>Progress display\<close>

definition pct_text :: "u8 \<Rightarrow> bytes" where
  "pct_text pct =
     (let s = (if 100 \<le> pct then [0x30 + pct div 100, 0x30 + (pct div 10) mod 10, 0x30 + pct mod 10]
               else if 10 \<le> pct then [0x30 + pct div 10, 0x30 + pct mod 10]
               else [0x30 + pct]) in
      if utf8_valid s then s else str_bytes ''?'')"

definition progress_serial :: "'m port_io \<Rightarrow> bytes \<Rightarrow> u8 \<Rightarrow> 'm \<Rightarrow> 'm" where
  "progress_serial P phase pct m =
     (let m = early_serial_print P (str_bytes ''[BOOT] '') m;
          m = early_serial_print P phase m;
          m = early_serial_print P (str_bytes '' ['') m;
          filled = unat (pct div 5);
          m = fold (\<lambda>i. early_serial_write P (if i < filled then 0x23 else 0x2D)) [0..<20] m;
          m = early_serial_print P (str_bytes ''] '') m;
          m = early_serial_print P (pct_text pct) m in
      early_serial_print P (str_bytes ''%'' @ [0x0D, 0x0A]) m)"

text \<open>A cell of the last row: the character and its attribute.\<close>

definition row_cell :: "nat \<Rightarrow> u8 \<Rightarrow> u8 \<Rightarrow> (nat \<Rightarrow> u8) \<Rightarrow> (nat \<Rightarrow> u8)" where
  "row_cell col ch attr v = v((24 * 80 + col) * 2 := ch, (24 * 80 + col) * 2 + 1 := attr)"

definition progress_vga :: "bytes \<Rightarrow> u8 \<Rightarrow> (nat \<Rightarrow> u8) \<Rightarrow> (nat \<Rightarrow> u8)" where
  "progress_vga phase pct v =
     (let v = fold (\<lambda>col. row_cell col 0x20 0x07) [0..<80] v;
          prefix = str_bytes ''[BOOT] ''; offset = length prefix;
          v = fold (\<lambda>i. row_cell i (prefix ! i) 0x0B) [0..<length prefix] v;
          v = fold (\<lambda>i. row_cell (offset + i) (phase ! i) 0x0F) [0..<min 40 (length phase)] v;
          bar_start = offset + length phase + 1;
          v = row_cell bar_start 0x5B 0x08 v;
          v = fold (\<lambda>i. row_cell (bar_start + 1 + i) (if i < unat (pct div 5) then 0x23 else 0x2D)
                (if i < unat (pct div 5) then 0x0A else 0x08)) [0..<20] v in
      row_cell (bar_start + 21) 0x5D 0x08 v)"

definition boot_progress :: "'m port_io \<Rightarrow> bool \<Rightarrow> bool \<Rightarrow> bytes \<Rightarrow> u8 \<Rightarrow> 'm \<times> (nat \<Rightarrow> u8) \<Rightarrow> 'm \<times> (nat \<Rightarrow> u8)" where
  "boot_progress P vga to_serial phase pct s =
     (if to_serial then progress_serial P phase pct (fst s) else fst s, if vga then progress_vga phase pct (snd s) else snd s)"

section \<open>Detection\<close>

datatype BootCpuVendor = BootIntel | BootAmd | BootOther

definition detect_cpu_vendor :: "cpuid \<Rightarrow> BootCpuVendor" where
  "detect_cpu_vendor cpuid =
     (let r = cpuid 0; vendor = [cpuid_ebx r, cpuid_edx r, cpuid_ecx r] in
      if vendor = [0x756E6547, 0x49656E65, 0x6C65746E] then BootIntel
      else if vendor = [0x68747541, 0x69746E65, 0x444D4163] then BootAmd
      else BootOther)"

definition detect_total_memory :: "cpuid \<Rightarrow> u64" where
  "detect_total_memory cpuid =
     (let physical_bits = ucast (cpuid_eax (cpuid 0x80000008) AND 0xFF) :: u8 in
      if 0x80000008 \<le> cpuid_eax (cpuid 0x80000000) \<and> 0 < physical_bits \<and> physical_bits < 64
      then push_bit (unat physical_bits) 1
      else 128 * 1024 * 1024)"

section \<open>What is sent\<close>

text \<open>A serial port: every byte that is written to the data port is sent, and looking at the status
  sends nothing.\<close>

definition serial_law :: "'m port_io \<Rightarrow> ('m \<Rightarrow> bytes) \<Rightarrow> bool" where
  "serial_law P sent \<longleftrightarrow> (\<forall>b m. sent (outb P 0x3F8 b m) = sent m @ [b]) \<and> (\<forall>m. sent (snd (inb P 0x3FD m)) = sent m)"

lemma poll_sends: "serial_law P sent \<Longrightarrow> sent (serial_poll P n m) = sent m"
  by (induction n arbitrary: m) (simp_all add: serial_law_def split: prod.split, metis snd_conv)

lemma write_sends: "serial_law P sent \<Longrightarrow> sent (early_serial_write P b m) = sent m @ [b]"
  using poll_sends [of P sent] by (simp add: early_serial_write_def serial_law_def)

lemma reversed_sends: "serial_law P sent \<Longrightarrow> i \<le> length buf \<Longrightarrow> sent (send_reversed P buf i m) = sent m @ rev (take i buf)"
proof (induction i arbitrary: m)
  case (Suc i)
  then have "send_reversed P buf (Suc i) m = send_reversed P buf i (early_serial_write P (buf ! i) m)"
    by (simp add: send_reversed_def)
  with Suc show ?case by (simp add: write_sends take_Suc_conv_app_nth)
qed (simp add: send_reversed_def)

lemma print_sends:
  "serial_law P sent \<Longrightarrow> sent (early_serial_print P s m) = sent m @ concat (map (\<lambda>b. if b = 0x0A then [0x0D, 0x0A] else [b]) s)"
  by (induction s arbitrary: m) (simp_all add: early_serial_print_def write_sends)

lemma dec_loop_digits:
  assumes "0 < val" and "i + length (digits 10 val) \<le> length buf"
  shows "\<exists>buf'. dec_loop val i buf = Some (buf', i + length (digits 10 val)) \<and> length buf' = length buf \<and>
    take (i + length (digits 10 val)) buf' = take i buf @ map digit_byte (rev (digits 10 val))"
  using assms
proof (induction val i buf rule: dec_loop.induct)
  case (1 val i buf)
  let ?b = "buf[i := 0x30 + of_nat (val mod 10)]"
  have i: "i < length buf"
    using "1.prems" length_greater_0_conv [of "digits 10 val"] by (metis add_lessD1 digits_ne le_neq_implies_less less_add_same_cancel1 order.strict_trans2)
  have loop: "dec_loop val i buf = dec_loop (val div 10) (i + 1) ?b"
    using "1.prems"(1) i by (subst dec_loop.simps) simp
  have d: "0x30 + of_nat (val mod 10) = digit_byte (val mod 10)"
    by (simp add: digit_byte_def)
  have t: "take (Suc i) ?b = take i buf @ [digit_byte (val mod 10)]"
    using i by (simp add: take_Suc_conv_app_nth d)
  show ?case
  proof (cases "val < 10")
    case True
    then have "dec_loop val i buf = Some (?b, i + 1)" using loop by (simp add: dec_loop.simps [of 0])
    then show ?thesis using True t by (simp add: digits.simps [of 10 val])
  next
    case False
    then have ds: "digits 10 val = digits 10 (val div 10) @ [val mod 10]" by (subst digits.simps) simp
    have "0 < val div 10" using False by (simp add: div_greater_zero_iff)
    then obtain buf' where "dec_loop (val div 10) (i + 1) ?b = Some (buf', i + 1 + length (digits 10 (val div 10)))"
        "length buf' = length ?b"
        "take (i + 1 + length (digits 10 (val div 10))) buf' = take (i + 1) ?b @ map digit_byte (rev (digits 10 (val div 10)))"
      using "1.IH" "1.prems" i ds by auto
    then show ?thesis using loop t ds by simp
  qed
qed

text \<open>The hexadecimal loop is the same on the value of the word.\<close>

lemma hex_nibble:
  "(if ucast (val AND 0xF) < (10 :: u8) then 0x30 + ucast (val AND 0xF) else 0x41 + ucast (val AND 0xF) - 10) = digit_byte (unat val mod 16)"
  for val :: u64
proof -
  have e: "val AND 0xF = of_nat (unat val mod 16)"
  proof -
    have "val AND 0xF = take_bit 4 val" by (simp add: take_bit_eq_mask mask_eq_exp_minus_1)
    then have "unat (val AND 0xF) = unat val mod 16" by (simp add: take_bit_eq_mod unat_mod)
    then show ?thesis by (metis of_nat_unat ucast_id)
  qed
  have n: "d < 16 \<Longrightarrow> (if ucast (of_nat d :: u64) < (10 :: u8) then 0x30 + ucast (of_nat d :: u64) else 0x41 + ucast (of_nat d :: u64) - 10) = digit_byte d" for d
  proof -
    have "\<forall>d\<in>set [0..<16]. (if ucast (of_nat d :: u64) < (10 :: u8) then 0x30 + ucast (of_nat d :: u64) else 0x41 + ucast (of_nat d :: u64) - 10) = digit_byte d"
      by code_simp
    then show "d < 16 \<Longrightarrow> ?thesis" by simp
  qed
  show ?thesis unfolding e by (rule n) simp
qed

lemma hex_loop_digits:
  assumes "0 < val" and "i + length (digits 16 (unat val)) \<le> length buf"
  shows "\<exists>buf'. hex_loop val i buf = Some (buf', i + length (digits 16 (unat val))) \<and> length buf' = length buf \<and>
    take (i + length (digits 16 (unat val))) buf' = take i buf @ map digit_byte (rev (digits 16 (unat val)))"
  using assms
proof (induction val i buf rule: hex_loop.induct)
  case (1 val i buf)
  let ?b = "buf[i := digit_byte (unat val mod 16)]"
  let ?v = "drop_bit 4 val"
  have v: "unat ?v = unat val div 16" by (simp add: drop_bit_eq_div unat_div)
  have i: "i < length buf"
    using "1.prems" by (metis add_lessD1 digits_ne length_greater_0_conv le_neq_implies_less less_add_same_cancel1 order.strict_trans2)
  have loop: "hex_loop val i buf = hex_loop ?v (i + 1) ?b"
    using "1.prems"(1) i unfolding hex_nibble [symmetric] by (subst hex_loop.simps) (auto simp: Let_def)
  have t: "take (Suc i) ?b = take i buf @ [digit_byte (unat val mod 16)]"
    using i by (simp add: take_Suc_conv_app_nth)
  show ?case
  proof (cases "unat val < 16")
    case True
    then have "?v = 0" using v by (simp add: unat_eq_0 [symmetric])
    then have "hex_loop val i buf = Some (?b, i + 1)" using loop by (simp add: hex_loop.simps [of 0])
    then show ?thesis using True t by (simp add: digits.simps [of 16 "unat val"])
  next
    case False
    then have ds: "digits 16 (unat val) = digits 16 (unat ?v) @ [unat val mod 16]" unfolding v by (subst digits.simps) simp
    have p: "0 < ?v" using False v by (simp add: word_less_nat_alt div_greater_zero_iff)
    have "val \<noteq> 0" using "1.prems"(1) by auto
    note IH = "1.IH" [OF this i refl, folded, unfolded hex_nibble]
    obtain buf' where "hex_loop ?v (i + 1) ?b = Some (buf', i + 1 + length (digits 16 (unat ?v)))"
        "length buf' = length ?b"
        "take (i + 1 + length (digits 16 (unat ?v))) buf' = take (i + 1) ?b @ map digit_byte (rev (digits 16 (unat ?v)))"
      using IH p "1.prems" i ds by auto
    then show ?thesis using loop t ds by simp
  qed
qed

lemma u64_less: "unat (w :: u64) < 2 ^ 64" and u8_less: "unat (b :: u8) < 256"
  by (rule order_less_le_trans [OF unsigned_less], simp)+

lemma dec_sends:
  assumes "serial_law P sent" and "n < 2 ^ 64"
  shows "\<exists>m1. early_serial_write_dec P n m = Some m1 \<and> sent m1 = sent m @ fmt_dec n"
proof (cases "n = 0")
  case True
  then show ?thesis using assms(1) by (simp add: early_serial_write_dec_def write_sends fmt_dec_def digits.simps digit_byte_def)
next
  case False
  have "length (digits 10 n) \<le> Suc 19" by (rule digits_length) (use assms(2) in simp_all)
  then obtain buf where "dec_loop n 0 (replicate 20 0) = Some (buf, length (digits 10 n))" "length buf = 20"
      "take (length (digits 10 n)) buf = map digit_byte (rev (digits 10 n))"
    using dec_loop_digits [of n 0 "replicate 20 0"] False by auto
  with \<open>length (digits 10 n) \<le> Suc 19\<close> show ?thesis
    using False assms(1) by (simp add: early_serial_write_dec_def reversed_sends fmt_dec_def rev_map)
qed

lemma hex_sends:
  assumes "serial_law P sent"
  shows "\<exists>m1. early_serial_write_hex P w m = Some m1 \<and> sent m1 = sent m @ fmt_hex 0 (unat w)"
proof (cases "w = 0")
  case True
  then show ?thesis using assms by (simp add: early_serial_write_hex_def write_sends fmt_hex_def Let_def digits.simps digit_byte_def)
next
  case False
  then have p: "0 < w" by (simp add: word_greater_zero_iff)
  have "length (digits 16 (unat w)) \<le> Suc 15" by (rule digits_length) (use u64_less [of w] in simp_all)
  then obtain buf where "hex_loop w 0 (replicate 16 0) = Some (buf, length (digits 16 (unat w)))" "length buf = 16"
      "take (length (digits 16 (unat w))) buf = map digit_byte (rev (digits 16 (unat w)))"
    using hex_loop_digits [of w 0 "replicate 16 0"] p by auto
  with \<open>length (digits 16 (unat w)) \<le> Suc 15\<close> show ?thesis
    using False assms by (simp add: early_serial_write_hex_def reversed_sends fmt_hex_def Let_def rev_map)
qed

lemma fmt_hex_value: "digits_value 16 (map byte_digit (fmt_hex 0 n)) = n"
proof -
  have "map byte_digit (fmt_hex 0 n) = digits 16 n"
    unfolding fmt_hex_def Let_def diff_0_eq_0 replicate_0 append_Nil by (rule digit_bytes_inverse) (auto dest: digits_less [rotated])
  then show ?thesis by (simp add: digits_value_digits)
qed

lemma fmt_dec_utf8: "utf8_valid (fmt_dec n)"
proof (rule utf8_valid_ascii, rule ballI)
  fix c
  assume "c \<in> set (fmt_dec n)"
  then obtain d where "d < 10" "c = digit_byte d"
    unfolding fmt_dec_def by (auto dest: digits_less [rotated])
  moreover have "\<forall>d\<in>set [0..<10]. digit_byte d < 0x80" by code_simp
  ultimately show "c < 0x80" by auto
qed

lemma pct_text_dec: "pct_text pct = fmt_dec (unat pct)"
proof -
  let ?n = "unat pct"
  have n: "?n < 256" by (rule u8_less)
  have w: "pct div 100 = of_nat (?n div 100)" "(pct div 10) mod 10 = of_nat (?n div 10 mod 10)" "pct div 10 = of_nat (?n div 10)"
    "pct mod 10 = of_nat (?n mod 10)"
    using n by (simp_all add: word_unat_eq_iff unat_div unat_mod unat_of_nat take_bit_nat_def)
  have c: "100 \<le> pct \<longleftrightarrow> 100 \<le> ?n" "10 \<le> pct \<longleftrightarrow> 10 \<le> ?n" by (simp_all add: word_le_nat_alt)
  have d: "0x30 + of_nat k = digit_byte k" if "k < 10" for k using that by (simp add: digit_byte_def)
  have "(if 100 \<le> pct then [0x30 + pct div 100, 0x30 + (pct div 10) mod 10, 0x30 + pct mod 10]
      else if 10 \<le> pct then [0x30 + pct div 10, 0x30 + pct mod 10] else [0x30 + pct]) = fmt_dec ?n"
  proof -
    consider "?n < 10" | "10 \<le> ?n" "?n < 100" | "100 \<le> ?n" by linarith
    then show ?thesis
    proof cases
      case 1
      then have "0x30 + pct = digit_byte ?n" by (simp add: digit_byte_def)
      with 1 c show ?thesis by (simp add: fmt_dec_def digits.simps [of 10 ?n])
    next
      case 2
      then have "digits 10 ?n = [?n div 10, ?n mod 10]"
        by (simp add: digits.simps [of 10 ?n] digits.simps [of 10 "?n div 10"] div_less_iff_less_mult)
      with 2 c w d show ?thesis by (simp add: fmt_dec_def div_less_iff_less_mult)
    next
      case 3
      then have "digits 10 ?n = [?n div 100, ?n div 10 mod 10, ?n mod 10]"
        using n by (simp add: digits.simps [of 10 ?n] digits.simps [of 10 "?n div 10"] digits.simps [of 10 "?n div 100"]
            div_less_iff_less_mult div_mult2_eq [symmetric])
      with 3 n c w d show ?thesis by (simp add: fmt_dec_def div_less_iff_less_mult)
    qed
  qed
  then show ?thesis by (simp only: pct_text_def Let_def fmt_dec_utf8 if_True)
qed

lemma cells_sent:
  "serial_law P sent \<Longrightarrow> sent (fold (\<lambda>i. early_serial_write P (f i)) is m) = sent m @ map f is"
  by (induction "is" arbitrary: m) (simp_all add: write_sends)

lemma no_newline: "0x0A \<notin> set s \<Longrightarrow> concat (map (\<lambda>b. if b = 0x0A then [0x0D, 0x0A] else [b]) s) = s"
  by (induction s) auto

lemma fmt_dec_no_newline: "0x0A \<notin> set (fmt_dec n)"
proof
  assume "0x0A \<in> set (fmt_dec n)"
  then obtain d where "d < 10" "digit_byte d = 0x0A"
    unfolding fmt_dec_def by (auto dest: digits_less [rotated])
  moreover have "\<forall>d\<in>set [0..<10]. digit_byte d \<noteq> 0x0A" by code_simp
  ultimately show False by auto
qed

text \<open>The row on the screen: the display stays in it when the name of the phase has at most 50 bytes.\<close>

lemma row_cell_other: "col < 80 \<Longrightarrow> j < 3840 \<or> 4000 \<le> j \<Longrightarrow> row_cell col ch attr v j = v j"
  by (auto simp: row_cell_def)

lemma row_cells_other:
  "\<forall>i\<in>set is. g i < 80 \<Longrightarrow> j < 3840 \<or> 4000 \<le> j \<Longrightarrow> fold (\<lambda>i. row_cell (g i) (ch i) (attr i)) is v j = v j"
  by (induction "is" arbitrary: v) (simp_all add: row_cell_other)

lemma progress_vga_other:
  assumes "length phase \<le> 50" and "j < 3840 \<or> 4000 \<le> j"
  shows "progress_vga phase pct v j = v j"
proof -
  have p: "length (str_bytes ''[BOOT] '') = 7" by (simp add: str_bytes_def)
  show ?thesis
    using assms unfolding progress_vga_def Let_def p
    by (simp only: row_cell_other row_cells_other) (simp add: row_cell_other row_cells_other del: upt_rec_numeral)
qed

section \<open>Properties\<close>

text \<open>Numbers printed during the early boot are right. Whatever a serial port does with the status
  bits, the decimal and the hexadecimal routine return without leaving their buffers and send the digits of
  the number, without leading zeros, and the digits read back are the number.\<close>

theorem early_serial_numbers:
  assumes "serial_law P sent" and "n < 2 ^ 64"
  shows "(\<exists>m1. early_serial_write_dec P n m = Some m1 \<and> sent m1 = sent m @ map digit_byte (digits 10 n)) \<and>
    (\<exists>m1. early_serial_write_hex P w m = Some m1 \<and> sent m1 = sent m @ map digit_byte (digits 16 (unat w))) \<and>
    digits_value 10 (map byte_digit (map digit_byte (digits 10 n))) = n \<and>
    digits_value 16 (map byte_digit (map digit_byte (digits 16 (unat w)))) = unat w \<and>
    (0 < n \<longrightarrow> hd (digits 10 n) \<noteq> 0) \<and> (0 < w \<longrightarrow> hd (digits 16 (unat w)) \<noteq> 0)"
proof -
  have "0 < unat w \<longrightarrow> hd (digits 16 (unat w)) \<noteq> 0" "0 < n \<longrightarrow> hd (digits 10 n) \<noteq> 0"
    using digits_no_zero [of 16 "unat w"] digits_no_zero [of 10 n] by simp_all
  then show ?thesis
    using dec_sends [OF assms, of m] hex_sends [OF assms(1), of w m] fmt_dec_value [of n] fmt_hex_value [of "unat w"]
    by (simp add: fmt_dec_def fmt_hex_def Let_def word_less_nat_alt)
qed

text \<open>A port that is never ready: the state is what was sent.\<close>

definition slow_port :: "bytes port_io" where
  "slow_port = \<lparr> inb = (\<lambda>p m. (0, m)), outb = (\<lambda>p v m. if p = 0x3F8 then m @ [v] else m), inw = (\<lambda>p m. (0, m)), outw = (\<lambda>p v m. m) \<rparr>"

lemma slow_port_law: "serial_law slow_port (\<lambda>m. m)"
  by (simp add: serial_law_def slow_port_def)

theorem early_serial_numbers_witness:
  "\<exists>m1. early_serial_write_dec slow_port 4096 [] = Some m1 \<and> m1 = [0x34, 0x30, 0x39, 0x36]"
  using early_serial_numbers [OF slow_port_law, of 4096 "[]" 0]
  by (simp add: digits.simps digit_byte_def)

text \<open>The progress display. The serial line is the name of the phase, a bar of 20 cells with one mark for
  every five percent, and the number in decimal; on the screen only the last row changes.\<close>

theorem boot_progress_output:
  assumes "serial_law P sent" and "0x0A \<notin> set phase" and "length phase \<le> 50"
  shows "sent (fst (boot_progress P vga True phase pct (m, v))) = sent m @ str_bytes ''[BOOT] '' @ phase @ str_bytes '' ['' @
      map (\<lambda>i. if i < unat pct div 5 then 0x23 else 0x2D) [0..<20] @ str_bytes ''] '' @ map digit_byte (digits 10 (unat pct)) @
      str_bytes ''%'' @ [0x0D, 0x0D, 0x0A] \<and>
    (\<forall>j. j < 24 * 160 \<or> 25 * 160 \<le> j \<longrightarrow> snd (boot_progress P vga True phase pct (m, v)) j = v j)"
proof -
  have "unat (pct div 5) = unat pct div 5" by (simp add: unat_div)
  then have "sent (progress_serial P phase pct m) = sent m @ str_bytes ''[BOOT] '' @ phase @ str_bytes '' ['' @
      map (\<lambda>i. if i < unat pct div 5 then 0x23 else 0x2D) [0..<20] @ str_bytes ''] '' @ fmt_dec (unat pct) @
      str_bytes ''%'' @ [0x0D, 0x0D, 0x0A]"
    unfolding progress_serial_def Let_def print_sends [OF assms(1)] cells_sent [OF assms(1)] pct_text_dec
      no_newline [OF assms(2)] no_newline [OF fmt_dec_no_newline]
    by (simp add: str_bytes_def del: upt_rec_numeral)
  then show ?thesis
    using progress_vga_other [OF assms(3)] by (simp add: boot_progress_def fmt_dec_def del: upt_rec_numeral)
qed

theorem boot_progress_output_witness:
  "fst (boot_progress slow_port True True [0x43, 0x50, 0x55] 40 ([], \<lambda>_. 0)) = str_bytes ''[BOOT] CPU [########------------] 40%'' @ [0x0D, 0x0D, 0x0A]"
proof -
  have "map (\<lambda>i. if i < 8 then 0x23 else 0x2D) [0..<20] = str_bytes ''########------------''" by code_simp
  then show ?thesis
    using boot_progress_output [OF slow_port_law, of "[0x43, 0x50, 0x55]" True 40 "[]" "\<lambda>_. 0"]
    by (simp add: digits.simps digit_byte_def str_bytes_def del: upt_rec_numeral)
qed

end
