(* ===== verification/Boot.thy ===== *)
theory Boot
  imports Boot_Console Memory_Properties Vmm_Properties
begin

text \<open>
  The memory phase of the boot: \<open>arcadia_kernel_main\<close> of
  \<open>kernel/src/arch/boot_entry.rs\<close> from the detection of the memory size to the two managers,
  with \<open>kernel/src/memory/mod.rs\<close> and the constants of \<open>kernel/src/memory/heap.rs\<close>. The
  models of the physical and the virtual memory manager are composed as the code does.
\<close>

definition HEAP_START :: u64 where "HEAP_START = 0x400000"
definition HEAP_SIZE :: u64 where "HEAP_SIZE = 128 * 1024"

section \<open>Set-up of the memory managers\<close>

text \<open>\<open>None\<close>: an address is refused with a panic.\<close>

definition memory_init ::
  "x86_crate \<Rightarrow> page_mapper \<Rightarrow> phys_bytes \<Rightarrow> u64 \<Rightarrow> u8 list \<Rightarrow> u64 \<Rightarrow> (pmm_global \<times> VirtualMemoryManager) option" where
  "memory_init cr mp mem cr3 bitmap total_memory =
     (let g = physmem_init bitmap total_memory in map_option (\<lambda>v. (g, v)) (vmm_init cr mp mem cr3))"

definition memory_init_with_memmap ::
  "x86_crate \<Rightarrow> page_mapper \<Rightarrow> phys_bytes \<Rightarrow> u64 \<Rightarrow> u8 list \<Rightarrow> u64 \<Rightarrow> memory_region list \<Rightarrow>
     (pmm_global \<times> VirtualMemoryManager) option" where
  "memory_init_with_memmap cr mp mem cr3 bitmap total_memory entries =
     (case physmem_init_with_memmap (phys_new cr) bitmap total_memory entries of
        None \<Rightarrow> None
      | Some g \<Rightarrow> map_option (\<lambda>v. (g, v)) (vmm_init cr mp mem cr3))"

section \<open>The memory phase\<close>

definition crlf :: bytes where "crlf = [0x0D, 0x0A]"

definition report_region :: "'m port_io \<Rightarrow> memory_region \<Rightarrow> 'm \<Rightarrow> 'm option" where
  "report_region P r m =
     Option.bind (early_serial_write_hex P (mr_base r) (early_serial_print P (str_bytes ''  0x'') m)) (\<lambda>m.
     Option.bind (early_serial_write_hex P (mr_base r + memory_region.mr_size r) (early_serial_print P (str_bytes '' - 0x'') m)) (\<lambda>m.
     let m = early_serial_print P (str_bytes ''  '') m;
         m = early_serial_print P (str_bytes (type_as_str (region_type r))) m;
         m = early_serial_print P (str_bytes '' ('') m in
     Option.bind (early_serial_write_dec P (unat (memory_region.mr_size r div (1024 * 1024))) m) (\<lambda>m.
     Some (early_serial_print P (str_bytes '' MiB)'' @ crlf) m))))"

fun report_regions :: "'m port_io \<Rightarrow> memory_region list \<Rightarrow> 'm \<Rightarrow> 'm option" where
  "report_regions P [] m = Some m"
| "report_regions P (r # rs) m = Option.bind (report_region P r m) (report_regions P rs)"

definition hvm_regions :: "'m port_io \<Rightarrow> x86_crate \<Rightarrow> phys_bytes \<Rightarrow> u64 \<Rightarrow> 'm \<Rightarrow> (memory_region list \<times> 'm) option" where
  "hvm_regions P cr mem hvm_info_paddr m =
     (if hvm_info_paddr \<noteq> 0 then
        Option.bind (early_serial_write_hex P hvm_info_paddr (early_serial_print P (str_bytes ''[BOOT] HVM start info at 0x'') m)) (\<lambda>m.
        let m = early_serial_print P crlf m in
        map_option (\<lambda>rs. (rs, m)) (parse_hvm_start_info (phys_new cr) mem hvm_info_paddr))
      else Some ([], early_serial_print P (str_bytes ''[BOOT] No HVM start info - using CPUID fallback'' @ crlf) m))"

definition boot_memory ::
  "'m port_io \<Rightarrow> x86_crate \<Rightarrow> page_mapper \<Rightarrow> phys_bytes \<Rightarrow> u64 \<Rightarrow> u8 list \<Rightarrow> cpuid \<Rightarrow> u64 \<Rightarrow> 'm \<Rightarrow>
     ((pmm_global \<times> VirtualMemoryManager) \<times> 'm) option" where
  "boot_memory P cr mp mem cr3 bitmap cpuid hvm_info_paddr m =
     (let total_memory = detect_total_memory cpuid in
      case hvm_regions P cr mem hvm_info_paddr m of
        None \<Rightarrow> None
      | Some (regions, m) \<Rightarrow>
          if regions \<noteq> [] then
            let m = early_serial_print P (str_bytes ''[BOOT] Memory map: '') m in
            Option.bind (early_serial_write_dec P (length regions) m) (\<lambda>m.
            let m = early_serial_print P (str_bytes '' region(s)'' @ crlf) m in
            Option.bind (report_regions P regions m) (\<lambda>m.
            map_option (\<lambda>s. (s, m)) (memory_init_with_memmap cr mp mem cr3 bitmap total_memory regions)))
          else map_option (\<lambda>s. (s, m)) (memory_init cr mp mem cr3 bitmap total_memory))"

section \<open>After the memory phase\<close>

lemma hex_returns: "\<exists>m1. early_serial_write_hex P w m = Some m1"
proof (cases "w = 0")
  case False
  then have p: "0 < w" by (simp add: word_greater_zero_iff)
  have "length (digits 16 (unat w)) \<le> Suc 15" by (rule digits_length) (use u64_less [of w] in simp_all)
  then show ?thesis
    using hex_loop_digits [of w 0 "replicate 16 0"] p False by (auto simp: early_serial_write_hex_def)
qed (simp add: early_serial_write_hex_def)

lemma dec_returns: "n < 2 ^ 64 \<Longrightarrow> \<exists>m1. early_serial_write_dec P n m = Some m1"
proof (cases "n = 0")
  case False
  assume "n < 2 ^ 64"
  then have "length (digits 10 n) \<le> Suc 19" by (intro digits_length) simp_all
  then show ?thesis
    using dec_loop_digits [of n 0 "replicate 20 0"] False by (auto simp: early_serial_write_dec_def)
qed (simp add: early_serial_write_dec_def)

lemma report_region_returns: "\<exists>m1. report_region P r m = Some m1"
proof -
  obtain m1 where 1: "early_serial_write_hex P (mr_base r) (early_serial_print P (str_bytes ''  0x'') m) = Some m1"
    using hex_returns by metis
  obtain m2 where 2: "early_serial_write_hex P (mr_base r + memory_region.mr_size r) (early_serial_print P (str_bytes '' - 0x'') m1) = Some m2"
    using hex_returns by metis
  have "\<forall>m. \<exists>m1. early_serial_write_dec P (unat (memory_region.mr_size r div (1024 * 1024))) m = Some m1"
    by (intro allI dec_returns u64_less)
  from choice [OF this] obtain f where
    3: "early_serial_write_dec P (unat (memory_region.mr_size r div (1024 * 1024))) m = Some (f m)" for m by metis
  show ?thesis by (simp add: report_region_def Let_def 1 2 3 [simplified])
qed

lemma report_returns: "\<exists>m1. report_regions P rs m = Some m1"
proof (induction rs arbitrary: m)
  case (Cons r rs)
  obtain m1 where "report_region P r m = Some m1" using report_region_returns by metis
  with Cons [of m1] show ?case by simp
qed simp

lemma hvm_regions_outcome:
  "map_option fst (hvm_regions P cr mem hvm m) = (if hvm \<noteq> 0 then parse_hvm_start_info (phys_new cr) mem hvm else Some [])"
proof -
  obtain m1 where "early_serial_write_hex P hvm (early_serial_print P (str_bytes ''[BOOT] HVM start info at 0x'') m) = Some m1"
    using hex_returns by metis
  then show ?thesis by (simp add: hvm_regions_def Let_def option.map_comp comp_def option.map_ident)
qed

lemma boot_memory_outcome:
  assumes "length rs < 2 ^ 64" and "(if hvm \<noteq> 0 then parse_hvm_start_info (phys_new cr) mem hvm else Some []) = Some rs"
  shows "map_option fst (boot_memory P cr mp mem cr3 bitmap cpuid hvm m) =
    (if rs \<noteq> [] then memory_init_with_memmap cr mp mem cr3 bitmap (detect_total_memory cpuid) rs
     else memory_init cr mp mem cr3 bitmap (detect_total_memory cpuid))"
proof -
  obtain m1 where h: "hvm_regions P cr mem hvm m = Some (rs, m1)"
    using hvm_regions_outcome [of P cr mem hvm m] assms(2) by (cases "hvm_regions P cr mem hvm m") auto
  obtain m2 where d: "early_serial_write_dec P (length rs) (early_serial_print P (str_bytes ''[BOOT] Memory map: '') m1) = Some m2"
    using dec_returns [OF assms(1)] by metis
  obtain m3 where r: "report_regions P rs (early_serial_print P (str_bytes '' region(s)'' @ crlf) m2) = Some m3"
    using report_returns by metis
  show ?thesis
    by (simp add: boot_memory_def Let_def h d r option.map_comp comp_def option.map_ident)
qed

lemma heap_standard: "0x420000 \<le> unat t \<Longrightarrow> f < 512 \<or> 1024 \<le> f \<and> f < 1056 \<Longrightarrow>
    f \<in> standard_frames (min (unat (t :: u64) div 4096) MAX_TRACKED_FRAMES)"
proof -
  assume "0x420000 \<le> unat t" "f < 512 \<or> 1024 \<le> f \<and> f < 1056"
  moreover have "1056 \<le> unat t div 4096" using calculation(1) by simp
  ultimately show ?thesis by (auto simp: standard_frames_def MAX_TRACKED_FRAMES_def)
qed

section \<open>Properties\<close>

text \<open>The memory phase of the boot. It fails only when a page is mapped in the upper half. Otherwise the
  two managers are consistent: the frames of the low two megabytes and of the heap are reserved, so that
  they are never handed out, and the virtual memory manager agrees with the page tables. Without a memory map
  the allocator validates; with one, its hint is tight, but its counter may be wrong.\<close>

theorem boot_memory_state:
  assumes "x86_law cr" and "length bitmap = BITMAP_SIZE" and "0x420000 \<le> unat (detect_total_memory cpuid)"
    and "(if hvm \<noteq> 0 then parse_hvm_start_info (phys_new cr) mem hvm else Some []) = Some rs"
    and "list_all region_fits rs" and "length rs < 2 ^ 64"
  shows "case boot_memory P cr mp mem cr3 bitmap cpuid hvm m of
      None \<Rightarrow> \<exists>i4. 256 \<le> i4 \<and> i4 < 512 \<and> 0 < count_entry cr mem cr3 i4 0
    | Some ((g, v), m') \<Rightarrow> \<exists>pm. g = Some pm \<and> vmm_validate cr mem v \<and> page_table v = cr3 \<and>
        (\<forall>f. f < 512 \<or> unat HEAP_START div 4096 \<le> f \<and> f < unat (HEAP_START + HEAP_SIZE) div 4096 \<longrightarrow>
          is_frame_reserved (pmm_alloc pm) f) \<and>
        (if rs = [] then pmm_validate pm \<and> pfa_inv (pmm_alloc pm) else hint_tight (pmm_alloc pm))"
proof -
  let ?t = "detect_total_memory cpuid"
  let ?n = "min (unat ?t div 4096) MAX_TRACKED_FRAMES"
  have law: "phys_addr_law (phys_new cr)" using assms(1) by (simp add: x86_law_def)
  obtain pm where pm: "(if rs \<noteq> [] then physmem_init_with_memmap (phys_new cr) bitmap ?t rs else Some (physmem_init bitmap ?t)) = Some (Some pm)"
      and rsv: "standard_frames ?n \<subseteq> reserved_set (pmm_alloc pm)"
      and ok: "if rs = [] then pmm_validate pm \<and> pfa_inv (pmm_alloc pm) else hint_tight (pmm_alloc pm)"
  proof (cases "rs = []")
    case True
    have "2097152 + 4096 \<le> unat ?t" using assms(3) by simp
    from pmm_init_spec [OF assms(2) this] True show ?thesis
      by (intro that [of "pmm_init (pmm_new bitmap ?t)"]) (auto simp: physmem_init_def)
  next
    case False
    with init_from_memmap_spec [OF law assms(2,5), of ?t] that show ?thesis
      by (auto simp: physmem_init_with_memmap_def)
  qed
  have heap: "unat HEAP_START div 4096 = 1024" "unat (HEAP_START + HEAP_SIZE) div 4096 = 1056"
    by (simp_all add: HEAP_START_def HEAP_SIZE_def)
  have frames: "is_frame_reserved (pmm_alloc pm) f" if "f < 512 \<or> 1024 \<le> f \<and> f < 1056" for f
    using heap_standard [OF assms(3) that] rsv by (auto simp: reserved_set_def)
  have out: "map_option fst (boot_memory P cr mp mem cr3 bitmap cpuid hvm m) = map_option (\<lambda>v. (Some pm, v)) (vmm_init cr mp mem cr3)"
    using boot_memory_outcome [OF assms(6,4), of P mp cr3 bitmap cpuid m] pm
    by (cases "rs = []") (auto simp: memory_init_def memory_init_with_memmap_def Let_def)
  show ?thesis
  proof (cases "vmm_init cr mp mem cr3")
    case None
    with out vmm_init_None [OF assms(1), of mp mem cr3] show ?thesis by simp
  next
    case (Some v)
    with out obtain m' where "boot_memory P cr mp mem cr3 bitmap cpuid hvm m = Some ((Some pm, v), m')" by auto
    with vmm_init_Some [OF assms(1) Some] frames ok show ?thesis by (simp add: heap)
  qed
qed

theorem boot_memory_state_witness:
  "\<exists>pm v m'. boot_memory slow_port documented_crate one_mapper one_mem 0x1000 (replicate BITMAP_SIZE 0)
       (\<lambda>_. \<lparr> cpuid_eax = 0, cpuid_ebx = 0, cpuid_ecx = 0, cpuid_edx = 0 \<rparr>) 0 [] = Some ((Some pm, v), m') \<and>
     pmm_validate pm \<and> vmm_validate documented_crate one_mem v \<and> is_frame_reserved (pmm_alloc pm) 1055"
proof -
  let ?c = "\<lambda>_ :: u32. \<lparr> cpuid_eax = 0, cpuid_ebx = 0, cpuid_ecx = 0, cpuid_edx = 0 \<rparr>"
  have t: "0x420000 \<le> unat (detect_total_memory ?c)" by (simp add: detect_total_memory_def Let_def)
  have "\<not> (\<exists>i4. 256 \<le> i4 \<and> i4 < 512 \<and> 0 < count_entry documented_crate one_mem 0x1000 i4 0)"
    using one_mem_init vmm_init_None [OF documented_crate_law, of one_mapper one_mem "0x1000"] by auto
  then show ?thesis
    using boot_memory_state [OF documented_crate_law, of "replicate BITMAP_SIZE 0" ?c 0 one_mem "[]" "0x1000" slow_port one_mapper "[]"] t
    by (auto simp: HEAP_START_def HEAP_SIZE_def split: option.splits prod.splits)
qed

end
