(* ===== verification/Terminal_Commands.thy ===== *)
theory Terminal_Commands
  imports Terminal Mbr Process Vmm Timer Memory_Info
begin

text \<open>
  The other commands of \<open>kernel/src/terminal/mod.rs\<close>: those that print the state of a component, the
  sector command, and the one that runs the init program. A command returns the bytes it prints on
  the serial port, with the new state when it changes one. Names are those of
  \<open>kernel/src/version.rs\<close>.
\<close>

section \<open>Version\<close>

definition OS_NAME :: string where "OS_NAME = ''Arcadia OS''"
definition VERSION :: string where "VERSION = ''0.2.0 Alpha''"
definition STAGE :: string where "STAGE = ''Alpha''"
definition KERNEL_NAME :: string where "KERNEL_NAME = ''arcadia-kernel''"
definition ARCH :: string where "ARCH = ''x86_64''"
definition BANNER_VERSION :: string where "BANNER_VERSION = ''Arcadia OS v0.2 Alpha''"

section \<open>Texts\<close>

definition println :: "bytes \<Rightarrow> bytes" where
  "println s = s @ [0x0A]"

definition dec32 :: "u32 \<Rightarrow> bytes" where "dec32 v = fmt_dec (unat v)"
definition dec64 :: "u64 \<Rightarrow> bytes" where "dec64 v = fmt_dec (unat v)"

definition help_lines :: "string list" where
  "help_lines =
    [''Available commands:'',
     ''  help          - Show this help message'',
     ''  clear         - Clear the screen'',
     ''  version       - Show system version'',
     ''  uname         - Show system information'',
     ''  mem           - Show physical memory information'',
     ''  vmm           - Show virtual memory manager statistics'',
     ''  cpuinfo       - Show CPU information'',
     ''  meminfo       - Show memory information'',
     ''  sysinfo       - Show complete system information'',
     ''  echo [text]   - Print text'',
     ''  hostname      - Show hostname'',
     ''  whoami        - Show current user'',
     ''  neofetch      - Show system info'',
     ''  uptime        - Show system uptime'',
     ''  ticks         - Show raw tick count'',
     ''  disk [r|w]    - Disk info, read/write sectors'',
     ''  partitions    - Show MBR partition table'',
     ''  ls [path]     - List directory contents'',
     ''  cat <file>    - Read file contents'',
     ''  touch <file>  - Create empty file'',
     ''  mkdir <dir>   - Create directory'',
     ''  write <f> <s> - Write string to file'',
     ''  rm <file>     - Delete file'',
     ''  mount         - Show filesystem info'',
     ''  cd <path>     - Change directory'',
     ''  pwd           - Print working directory'',
     ''  run           - Run init process in Ring 3'',
     ''  ps            - List processes'',
     ''  reboot        - Reboot the system'',
     ''  halt          - Halt the system'',
     ''  exit          - Shut down'']"

definition cmd_help :: bytes where
  "cmd_help = concat (map (\<lambda>l. println (str_bytes l)) help_lines)"

definition cmd_version :: bytes where
  "cmd_version =
     println (str_bytes OS_NAME @ str_bytes '' ('' @ str_bytes BANNER_VERSION @ str_bytes '')'') @
     println (str_bytes ''Kernel: '' @ str_bytes KERNEL_NAME @ str_bytes '' '' @ str_bytes VERSION) @
     println (str_bytes ''Architecture: '' @ str_bytes ARCH)"

definition cmd_uname :: bytes where
  "cmd_uname = println (str_bytes OS_NAME @ str_bytes '' '' @ str_bytes VERSION @ str_bytes '' '' @ str_bytes ARCH)"

definition cmd_echo :: "bytes list \<Rightarrow> bytes" where
  "cmd_echo args = println (join_space args)"

definition run_banner :: bytes where
  "run_banner =
     println [] @ println (str_bytes ''+======================================+'') @
     println (str_bytes ''|     '' @ str_bytes BANNER_VERSION @ str_bytes ''    |'') @
     println (str_bytes ''|     Terminal Ready                    |'') @
     println (str_bytes ''+======================================+'') @ println [] @
     println (str_bytes ''Type '' @ [0x27] @ str_bytes ''help'' @ [0x27] @ str_bytes '' for available commands.'') @ println []"

section \<open>Memory\<close>

text \<open>\<open>mem\<close>: the statistics of the last update.\<close>

definition cmd_memory :: "pmm_global \<Rightarrow> bytes" where
  "cmd_memory g =
     (case physmem_statistics g of
        None \<Rightarrow> println (str_bytes ''[MEMORY] Physical Memory Manager not initialized.'')
      | Some st \<Rightarrow>
          println (str_bytes ''[MEMORY] Total: '' @ dec64 (memory_statistics.total_bytes st div (1024 * 1024)) @ str_bytes '' MiB ('' @
            dec64 (memory_statistics.total_bytes st) @ str_bytes '' bytes)'') @
          println (str_bytes ''[MEMORY] Usable: '' @ dec64 (memory_statistics.usable_bytes st div (1024 * 1024)) @ str_bytes '' MiB'') @
          println (str_bytes ''[MEMORY] Reserved: '' @ dec64 (memory_statistics.reserved_bytes st div (1024 * 1024)) @ str_bytes '' MiB'') @
          println (str_bytes ''[MEMORY] Allocated: '' @ fmt_dec (st_allocated_frames st) @ str_bytes '' frames'') @
          println (str_bytes ''[MEMORY] Free: '' @ fmt_dec (st_free_frames st) @ str_bytes '' frames'') @
          println (str_bytes ''[MEMORY] Total frames: '' @ fmt_dec (st_total_frames st)))"

definition vmm_region_line :: "MappedRegion \<Rightarrow> bytes" where
  "vmm_region_line r =
     println (str_bytes ''  0x'' @ fmt_hex 12 (unat (virtual_addr r)) @ str_bytes '' -> 0x'' @ fmt_hex 12 (unat (physical_addr r)) @
       str_bytes ''  '' @ dec64 (MappedRegion.mr_size r div 1024) @ str_bytes '' KiB  '' @ str_bytes (description r))"

text \<open>\<open>vmm\<close>: the global manager, when there is one, with the result of \<open>validate\<close>.\<close>

definition cmd_vmm :: "x86_crate \<Rightarrow> phys_bytes \<Rightarrow> VirtualMemoryManager option \<Rightarrow> bytes" where
  "cmd_vmm cr m g =
     (case g of
        None \<Rightarrow> println (str_bytes ''[VMM] Virtual Memory Manager not initialized.'')
      | Some v \<Rightarrow>
          let st = vmm_stats v; valid = vmm_validate cr m v in
          println (str_bytes ''[VMM] Virtual Memory Manager Statistics:'') @
          println (str_bytes ''[VMM] Mapped pages: '' @ fmt_dec (total_mapped_pages st) @ str_bytes '' ('' @ dec64 (total_mapped_bytes st) @
            str_bytes '' bytes)'') @
          println (str_bytes ''[VMM] Map operations: '' @ dec64 (map_count st)) @
          println (str_bytes ''[VMM] Unmap operations: '' @ dec64 (unmap_count st)) @
          println (str_bytes ''[VMM] Remap operations: '' @ dec64 (remap_count st)) @
          println (str_bytes ''[VMM] TLB flushes: '' @ dec64 (tlb_flush_count st)) @
          println (str_bytes ''[VMM] Page table frames: '' @ fmt_dec (page_table_frames st)) @
          println (str_bytes ''[VMM] Validation: '' @ str_bytes (if valid then ''PASS'' else ''FAIL'')) @
          println (str_bytes ''[VMM] Mapped regions:'') @
          concat (map vmm_region_line (mapped_regions v)))"

section \<open>Hardware information\<close>

definition family_line :: "CpuInfo \<Rightarrow> bytes" where
  "family_line c =
     println (str_bytes ''  Family: '' @ fmt_dec (unat (full_family (ci_signature c))) @ str_bytes '' Model: '' @
       fmt_dec (unat (full_model (ci_signature c))) @ str_bytes '' Stepping: '' @ fmt_dec (unat (stepping (ci_signature c))))"

definition cores_line :: "CpuInfo \<Rightarrow> bytes" where
  "cores_line c =
     println (str_bytes ''  Cores: '' @ fmt_dec (unat (ci_physical_cores c)) @ str_bytes '' physical, '' @
       fmt_dec (unat (ci_logical_cores c)) @ str_bytes '' logical'')"

definition cmd_cpuinfo :: "CpuInfo option \<Rightarrow> bytes" where
  "cmd_cpuinfo g =
     (case g of
        None \<Rightarrow> println (str_bytes ''CPU information not available. System detection not initialized.'')
      | Some c \<Rightarrow>
          println (str_bytes ''CPU Information:'') @
          println (str_bytes ''  Vendor: '' @ str_bytes (vendor_as_str (ci_vendor c))) @
          println (str_bytes ''  Brand: '' @ brand_as_str (ci_brand_string c)) @
          family_line c @ cores_line c @
          println (str_bytes ''  Frequency: '' @ dec32 (ci_frequency_mhz c) @ str_bytes '' MHz'') @
          println (str_bytes ''  Cache: L1='' @ dec32 (ci_cache_l1 c) @ str_bytes '' KB, L2='' @ dec32 (ci_cache_l2 c) @
            str_bytes '' KB, L3='' @ dec32 (ci_cache_l3 c) @ str_bytes '' KB'') @
          println (str_bytes ''  Features: '' @ fmt_dec (feature_count c)))"

definition memory_lines :: "MemoryInfo \<Rightarrow> bytes" where
  "memory_lines m =
     println (str_bytes ''  Total: '' @ dec64 (mi_total_mib m) @ str_bytes '' MiB'') @
     println (str_bytes ''  Usable: '' @ dec64 (mi_usable_mib m) @ str_bytes '' MiB'') @
     println (str_bytes ''  Reserved: '' @ dec64 (mi_reserved_mib m) @ str_bytes '' MiB'')"

definition cmd_meminfo :: "MemoryInfo option \<Rightarrow> bytes" where
  "cmd_meminfo g =
     (case g of
        None \<Rightarrow> println (str_bytes ''Memory information not available. System detection not initialized.'')
      | Some m \<Rightarrow>
          println (str_bytes ''Memory Information:'') @ memory_lines m @
          println (str_bytes ''  Memory Regions: '' @ fmt_dec (length (mi_memory_map m))))"

definition cmd_sysinfo :: "sysinfo_globals \<Rightarrow> bytes" where
  "cmd_sysinfo g =
     (case (CPU_INFO g, MEMORY_INFO g) of
        (Some c, Some m) \<Rightarrow>
          println (str_bytes ''System Information:'') @ println (str_bytes ''  ==== CPU ===='') @
          println (str_bytes ''  Vendor: '' @ str_bytes (vendor_as_str (ci_vendor c))) @
          println (str_bytes ''  Brand: '' @ brand_as_str (ci_brand_string c)) @
          family_line c @ cores_line c @ println (str_bytes ''  ==== Memory ===='') @ memory_lines m
      | _ \<Rightarrow> println (str_bytes ''System information not available. System detection not initialized.''))"

definition cmd_neofetch :: "sysinfo_globals \<Rightarrow> bytes" where
  "cmd_neofetch g =
     println (str_bytes ''       _              '') @
     println (str_bytes ''      / '' @ [0x5C] @ str_bytes ''   Arcadia   '') @
     println (str_bytes ''     /   '' @ [0x5C] @ str_bytes ''  --------  '') @
     println (str_bytes ''    / Arc '' @ [0x5C] @ str_bytes ''  OS v0.2  '') @
     println (str_bytes ''   /       '' @ [0x5C] @ str_bytes ''  x86_64  '') @
     println (str_bytes ''  /_________'' @ [0x5C] @ str_bytes ''          '') @
     println [] @
     println (str_bytes ''  OS:     Arcadia '' @ str_bytes VERSION @ str_bytes '' ('' @ str_bytes STAGE @ str_bytes '')'') @
     println (str_bytes ''  Kernel: arcadia-kernel'') @ println (str_bytes ''  Shell:  arcadia-sh'') @
     (case CPU_INFO g of
        Some c \<Rightarrow> println (str_bytes ''  CPU:    '' @ str_bytes (vendor_as_str (ci_vendor c)) @ str_bytes '' ('' @
          fmt_dec (unat (ci_logical_cores c)) @ str_bytes '' cores)'')
      | None \<Rightarrow> println (str_bytes ''  CPU:    x86_64'')) @
     (case MEMORY_INFO g of
        Some m \<Rightarrow> println (str_bytes ''  Memory: '' @ dec64 (mi_total_mib m) @ str_bytes '' MiB'')
      | None \<Rightarrow> println (str_bytes ''  Memory: 128 KiB heap''))"

section \<open>Time\<close>

text \<open>Days, hours, minutes, seconds and milliseconds of the uptime.\<close>

definition uptime_parts :: "u64 \<Rightarrow> u64 \<times> u64 \<times> u64 \<times> u64 \<times> u64" where
  "uptime_parts ms =
     (let secs = ms div 1000; mins = secs div 60; hours = mins div 60; days = hours div 24 in
      (days, hours mod 24, mins mod 60, secs mod 60, ms mod 1000))"

definition cmd_uptime :: "'m timer \<Rightarrow> bytes" where
  "cmd_uptime t =
     (case uptime_parts (uptime_ms t) of (days, hours, mins, secs, ms) \<Rightarrow>
        println (str_bytes ''Uptime: '' @ dec64 days @ str_bytes ''d '' @ fmt_zero 2 (unat hours) @ str_bytes '':'' @ fmt_zero 2 (unat mins) @
          str_bytes '':'' @ fmt_zero 2 (unat secs) @ str_bytes ''.'' @ fmt_zero 3 (unat ms) @ str_bytes '' ('' @ dec64 (uptime_ms t) @
          str_bytes '' ms, '' @ dec64 (ticks t) @ str_bytes '' ticks @ '' @ dec64 tick_rate @ str_bytes '' Hz)''))"

definition cmd_ticks :: "'m timer \<Rightarrow> bytes" where
  "cmd_ticks t =
     println (str_bytes ''Ticks: '' @ dec64 (ticks t) @ str_bytes '' ('' @ dec64 tick_rate @ str_bytes '' Hz, '' @ dec64 (uptime_ms t) @
       str_bytes '' ms elapsed)'')"

section \<open>Sectors\<close>

definition driver_error_str :: "DriverError \<Rightarrow> string" where
  "driver_error_str e =
     (case e of
        DrvDeviceNotFound \<Rightarrow> ''Device not found'' | InitFailed \<Rightarrow> ''Initialization failed'' | DrvTimeout \<Rightarrow> ''Operation timed out''
      | DrvIoError \<Rightarrow> ''I/O error'' | NotReady \<Rightarrow> ''Device not ready'' | Unsupported \<Rightarrow> ''Unsupported operation''
      | InvalidParam \<Rightarrow> ''Invalid parameter'' | BufferTooSmall \<Rightarrow> ''Buffer too small'')"

definition utf8_or_unknown :: "bytes \<Rightarrow> bytes" where
  "utf8_or_unknown s = (if utf8_valid s then s else str_bytes ''Unknown'')"

definition disk_info :: "AtaDriver \<Rightarrow> bytes" where
  "disk_info driver =
     (let info = device_info driver PRIMARY_BASE False in
      if present info \<and> is_ata info then
        println (str_bytes ''ATA Primary Master:'') @
        println (str_bytes ''  Model:    '' @ utf8_or_unknown (model info)) @
        println (str_bytes ''  Serial:   '' @ utf8_or_unknown (serial info)) @
        println (str_bytes ''  Firmware: '' @ utf8_or_unknown (firmware info)) @
        println (str_bytes ''  Sectors:  '' @ dec32 (sectors_28 info) @ str_bytes '' ('' @ dec32 (sectors_28 info div 2048) @ str_bytes '' MiB)'') @
        println (str_bytes ''  LBA48:    '' @ str_bytes (if lba48 info then ''Yes'' else ''No''))
      else println (str_bytes ''No ATA device on primary master.''))"

definition u32_arg :: "bytes \<Rightarrow> u32 option" where
  "u32_arg s = map_option of_nat (from_str_radix 10 (2 ^ 32 - 1) s)"

text \<open>The optional count: at most four sectors, and one when it is not a number.\<close>

definition count_arg :: "nat \<Rightarrow> bytes list \<Rightarrow> u32" where
  "count_arg i args =
     (if i < length args then (case u32_arg (args ! i) of Some v \<Rightarrow> min v 4 | None \<Rightarrow> 1) else 1)"

text \<open>The first 64 bytes of a sector in hexadecimal.\<close>

definition dump_sector :: "u32 \<Rightarrow> bytes \<Rightarrow> nat \<Rightarrow> bytes" where
  "dump_sector lba buf sec =
     (let off = sec * SECTOR_SIZE; end_off = min (off + 64) (length buf) in
      str_bytes ''  LBA '' @ dec32 (lba + of_nat sec) @ str_bytes '': '' @
      concat (map (\<lambda>i. fmt_hex 2 (unat (buf ! i)) @ str_bytes '' '') [off..<end_off]) @ println [])"

definition disk_read :: "'m port_io \<Rightarrow> bytes list \<Rightarrow> 'm ata_world \<Rightarrow> bytes \<times> 'm ata_world" where
  "disk_read P args w =
     (if length args < 2 then (println (str_bytes ''Usage: disk r <lba> [count]''), w)
      else case u32_arg (args ! 1) of
        None \<Rightarrow> (println (str_bytes ''Invalid LBA.''), w)
      | Some lba \<Rightarrow>
          let count = count_arg 2 args in
          (case read_sectors P PRIMARY_BASE False lba count (replicate (unat count * SECTOR_SIZE) 0) (machine w) of
             (Inr _, buf, m) \<Rightarrow>
               (println (str_bytes ''Read '' @ dec32 count @ str_bytes '' sector(s) from LBA '' @ dec32 lba @ str_bytes '':'') @
                  concat (map (dump_sector lba buf) [0..<unat count]), w \<lparr> machine := m \<rparr>)
           | (Inl e, buf, m) \<Rightarrow> (println (str_bytes ''Read error: '' @ str_bytes (driver_error_str e)), w \<lparr> machine := m \<rparr>)))"

definition disk_write :: "'m port_io \<Rightarrow> bytes list \<Rightarrow> 'm ata_world \<Rightarrow> bytes \<times> 'm ata_world" where
  "disk_write P args w =
     (if length args < 3 then (println (str_bytes ''Usage: disk w <lba> <hex-byte> [count]''), w)
      else case u32_arg (args ! 1) of
        None \<Rightarrow> (println (str_bytes ''Invalid LBA.''), w)
      | Some lba \<Rightarrow>
          (case from_str_radix 16 255 (args ! 2) of
             None \<Rightarrow> (println (str_bytes ''Invalid hex byte.''), w)
           | Some byte_val \<Rightarrow>
               let count = count_arg 3 args in
               (case write_sectors P PRIMARY_BASE False lba count (replicate (unat count * SECTOR_SIZE) (of_nat byte_val)) (machine w) of
                  (Inr _, m) \<Rightarrow>
                    (println (str_bytes ''Wrote '' @ dec32 count @ str_bytes '' sector(s) to LBA '' @ dec32 lba @ str_bytes ''.''),
                     w \<lparr> machine := m \<rparr>)
                | (Inl e, m) \<Rightarrow> (println (str_bytes ''Write error: '' @ str_bytes (driver_error_str e)), w \<lparr> machine := m \<rparr>))))"

definition cmd_disk :: "'m port_io \<Rightarrow> bytes list \<Rightarrow> 'm ata_world \<Rightarrow> bytes \<times> 'm ata_world" where
  "cmd_disk P args w =
     (case ATA w of
        None \<Rightarrow> (println (str_bytes ''No ATA driver initialized.''), w)
      | Some driver \<Rightarrow>
          if args = [] then (disk_info driver, w)
          else if args ! 0 = str_bytes ''r'' then disk_read P args w
          else if args ! 0 = str_bytes ''w'' then disk_write P args w
          else (println (str_bytes ''Usage: disk [r <lba> [count] | w <lba> <byte> [count]]''), w))"

section \<open>Partitions and the mounted volume\<close>

text \<open>The printed size of a partition is an argument: it is made with floating-point numbers.\<close>

definition partition_line :: "(human_size \<Rightarrow> bytes) \<Rightarrow> nat \<times> PartitionEntry \<Rightarrow> bytes" where
  "partition_line size_text ip =
     (case ip of (i, part) \<Rightarrow>
        let status = (if part_is_active part then ''Active'' else if part_is_empty part then ''---'' else ''     '') in
        println (str_bytes ''  '' @ fmt_dec (i + 1) @ str_bytes ''   '' @ fmt_left 16 (str_bytes (pt_name (partition_type part))) @ str_bytes '' '' @
          fmt_left 10 (str_bytes status) @ str_bytes '' '' @ fmt_right 11 (dec32 (lba_first part)) @ str_bytes '' '' @
          fmt_right 13 (dec32 (lba_last part)) @ str_bytes '' '' @ fmt_right 13 (dec32 (sector_count part)) @ str_bytes '' '' @
          size_text (size_human part)))"

definition mbr_error_str :: "mbr_error \<Rightarrow> string" where
  "mbr_error_str e = (case e of No_Driver \<Rightarrow> ''No ATA driver'' | Read_Error \<Rightarrow> ''Read error'')"

definition cmd_partitions :: "(human_size \<Rightarrow> bytes) \<Rightarrow> 'm port_io \<Rightarrow> 'm ata_world \<Rightarrow> bytes \<times> 'm ata_world" where
  "cmd_partitions size_text P w =
     (case read_mbr P w of
        (Inl e, w') \<Rightarrow> (println (str_bytes ''Failed to read MBR: '' @ str_bytes (mbr_error_str e)), w')
      | (Inr mbr, w') \<Rightarrow>
          (if \<not> mbr_valid mbr then println (str_bytes ''Invalid MBR (missing 0xAA55 boot signature).'')
           else
             println (str_bytes ''MBR Partition Table:'') @
             println (str_bytes ''  Boot Sig: 0x'' @ fmt_hex 4 (unat (boot_sig mbr))) @ println [] @
             println (str_bytes ''  #   Type             Status     LBA Start   LBA End       Sectors       Size'') @
             println (str_bytes ''  --- ---------------- ---------- ----------- ------------- ------------- ----------'') @
             concat (map (partition_line size_text) (enumerate 0 (partitions mbr))) @ println [] @
             (if partition_count mbr = 0 then println (str_bytes ''No partitions found.'')
              else println (fmt_dec (partition_count mbr) @ str_bytes '' partition(s) found.'')), w'))"

text \<open>\<open>str::trim\<close>: white space characters in UTF-8, stripped from both ends.\<close>

definition white_space :: "bytes list" where
  "white_space = map encode_char ([9, 10, 11, 12, 13, 0x20, 0x85, 0xA0, 0x1680, 0x2000, 0x2001, 0x2002, 0x2003, 0x2004, 0x2005, 0x2006,
     0x2007, 0x2008, 0x2009, 0x200A, 0x2028, 0x2029, 0x202F, 0x205F, 0x3000])"

definition strip_one :: "bytes list \<Rightarrow> bytes \<Rightarrow> bytes" where
  "strip_one ws s = (case find (\<lambda>c. take (length c) s = c) ws of Some c \<Rightarrow> drop (length c) s | None \<Rightarrow> s)"

definition str_trim :: "bytes \<Rightarrow> bytes" where
  "str_trim s =
     (let s = (strip_one white_space ^^ length s) s in rev ((strip_one (map rev white_space) ^^ length s) (rev s)))"

definition volume_label_str :: "Fat32Bpb \<Rightarrow> bytes" where
  "volume_label_str b = str_trim (if utf8_valid (volume_label b) then volume_label b else replicate 11 0x20)"

definition cmd_mount :: "'d VfsManager \<Rightarrow> bytes" where
  "cmd_mount v =
     (if \<not> is_mounted v then println (str_bytes ''No filesystem mounted.'')
      else
        println (str_bytes ''Mounted: FAT32 on /'') @
        println (str_bytes ''  Root cluster: '' @ dec32 (vfs_root v)) @
        (case fat_fs v of
           Some fs \<Rightarrow>
             println (str_bytes ''  Volume label: '' @ volume_label_str (bpb fs)) @
             println (str_bytes ''  Cluster size: '' @ fmt_dec (cluster_size_bytes (bpb fs)) @ str_bytes '' bytes'') @
             println (str_bytes ''  Total sectors: '' @ dec32 (total_sectors_32 (bpb fs)) @ str_bytes '' ('' @
               dec32 (total_sectors_32 (bpb fs) div 2048) @ str_bytes '' MiB)'')
         | None \<Rightarrow> []))"

section \<open>Processes\<close>

definition state_name :: "ProcessState \<Rightarrow> string" where
  "state_name s =
     (case s of Unused \<Rightarrow> ''unused'' | Ready \<Rightarrow> ''ready'' | Running \<Rightarrow> ''running'' | Blocked \<Rightarrow> ''blocked''
      | Sleeping \<Rightarrow> ''sleeping'' | Exited \<Rightarrow> ''exited '')"

definition ps_line :: "ProcessControlBlock \<Rightarrow> bytes" where
  "ps_line p =
     (if pcb_state p \<noteq> Unused then
        println (fmt_right 3 (dec32 (pcb_pid p)) @ str_bytes ''  '' @ fmt_left 9 (str_bytes (state_name (pcb_state p))) @ str_bytes ''  0x'' @
          fmt_hex 14 (unat (elf_entry p)) @ str_bytes ''  '' @ fmt_int (sint (exit_code p)))
      else [])"

definition cmd_ps :: "proc_world \<Rightarrow> bytes" where
  "cmd_ps w =
     println (str_bytes ''PID  STATE      ELF_ENTRY       EXIT_CODE'') @
     println (str_bytes ''---  ---------  --------------- ----------'') @
     concat (map ps_line (w_procs w)) @ println (str_bytes ''Processes active.'')"

text \<open>\<open>run\<close>: the command saves its stack, and execution comes back to the point behind it when the
  process exits. The first part runs up to this point, the second from there, with what was printed. The
  binary is built separately and is an argument, and so is what the processor adds when a process is
  entered. A fault there leaves no way back, since the handlers are not mapped.\<close>

datatype run_result = Run_Back | Run_Failed string | Run_Entered Context | Run_Panic | Run_Lost

definition run_resume :: "x86_crate \<Rightarrow> map_to \<Rightarrow> user_switch \<Rightarrow> bytes \<Rightarrow> proc_world \<Rightarrow> run_result \<times> bytes \<times> proc_world" where
  "run_resume cr mt sw elf_data w =
     (if EXIT_REQUESTED w then (Run_Back, [], w)
      else
        let out = println (str_bytes ''Loaded init binary ('' @ fmt_dec (length elf_data) @ str_bytes '' bytes)'') in
        (case launch_init_process cr mt elf_data w of
           (Inr _, w') \<Rightarrow>
             let out = out @ println (str_bytes ''Init process created. Entering Ring 3...'') in
             (case enter_user_mode cr sw w' of
                Entered c w'' \<Rightarrow> (Run_Entered c, out, w'')
              | Entry_Panic \<Rightarrow> (Run_Panic, out, w')
              | Page_Fault _ w'' \<Rightarrow> (Run_Lost, out, w'')
              | Foreign_Code _ w'' \<Rightarrow> (Run_Lost, out, w'')
              | Protection_Fault w'' \<Rightarrow> (Run_Lost, out, w''))
         | (Inl (Proc_Err e), w') \<Rightarrow> (Run_Failed e, out @ println (str_bytes ''Failed to launch process: '' @ str_bytes e), w')
         | (Inl Proc_Panic, w') \<Rightarrow> (Run_Panic, out, w')))"

definition cmd_run :: "x86_crate \<Rightarrow> map_to \<Rightarrow> user_switch \<Rightarrow> bytes \<Rightarrow> u64 \<Rightarrow> proc_world \<Rightarrow> run_result \<times> bytes \<times> proc_world" where
  "cmd_run cr mt sw elf_data rsp w =
     (let w = w \<lparr> EXIT_REQUESTED := False \<rparr>;
          out = println (str_bytes ''Preparing to launch init process...'');
          w = save_kernel_state rsp w in
      case run_resume cr mt sw elf_data w of (r, out', w') \<Rightarrow> (r, out @ out', w'))"

end
