(* ===== verification/Command_Properties.thy ===== *)
theory Command_Properties
  imports Terminal_Commands Process_Properties Ata_Properties
begin

text \<open>
  Properties of the terminal commands: \<open>run\<close> over the life of the process table, \<open>disk\<close> over a
  drive that follows the PIO protocol, and the parts of the uptime.
\<close>

section \<open>Slots of the process table\<close>

definition unused_slots :: "proc_world \<Rightarrow> nat" where
  "unused_slots w = length (filter (\<lambda>p. pcb_state p = Unused) (w_procs w))"

lemma filter_update_less:
  "i < length xs \<Longrightarrow> P (xs ! i) \<Longrightarrow> \<not> P x \<Longrightarrow> length (filter P xs) = Suc (length (filter P (xs[i := x])))"
  by (induction xs arbitrary: i) (auto split: nat.split simp: less_Suc_eq_0_disj)

lemma filter_update_le: "(P x \<Longrightarrow> i < length xs \<Longrightarrow> P (xs ! i)) \<Longrightarrow> length (filter P (xs[i := x])) \<le> length (filter P xs)"
  by (induction xs arbitrary: i) (auto split: nat.split simp: le_SucI)

text \<open>Computations that free no slot.\<close>

definition frees_no_slot :: "'a proc_io \<Rightarrow> bool" where
  "frees_no_slot p \<longleftrightarrow> (\<forall>w. unused_slots (snd (p w)) \<le> unused_slots w)"

lemma frees_keeps: "keeps_procs p \<Longrightarrow> frees_no_slot p"
  by (simp add: keeps_procs_def frees_no_slot_def unused_slots_def)

lemma frees_bind: "frees_no_slot p \<Longrightarrow> (\<And>x. frees_no_slot (f x)) \<Longrightarrow> frees_no_slot (io_bind p f)"
  unfolding frees_no_slot_def io_bind_def by (auto split: prod.split sum.split) (metis order_trans snd_conv)+

lemma frees_update: "(\<And>p. pcb_state (f p) = Unused \<Longrightarrow> pcb_state p = Unused) \<Longrightarrow> frees_no_slot (update_proc i f)"
  by (auto simp: frees_no_slot_def unused_slots_def intro!: filter_update_le)

lemma frees_build: "frees_no_slot (build_stack_at i)"
  by (auto simp: frees_no_slot_def unused_slots_def build_stack_at_def build_initial_kernel_stack_def
      intro!: filter_update_le split: prod.split)

lemma frees_launch: "frees_no_slot (launch_init_process cr mt elf)"
proof -
  have s: "frees_no_slot (launch_stacks cr mt info pml4 i)" for info pml4 i
    unfolding launch_stacks_def
    by (intro frees_bind frees_keeps [OF keeps_alloc_zeroed] frees_keeps [OF keeps_map] frees_update frees_build)
      (auto simp: frees_no_slot_def unused_slots_def)
  have l: "frees_no_slot (launch_in_slot cr mt elf info i)" for info i
    unfolding launch_in_slot_def
    by (intro frees_bind frees_keeps [OF keeps_create])
      (auto intro!: frees_bind frees_update frees_keeps [OF keeps_err] frees_keeps [OF keeps_for [OF keeps_load_segment]] s split: option.split)
  then have "unused_slots (snd (launch_in_slot cr mt elf info i w)) \<le> unused_slots w" for info i w
    unfolding frees_no_slot_def by blast
  then show ?thesis
    unfolding frees_no_slot_def launch_init_process_def
    by (auto split: sum.split elf_fail.split option.split)
qed

lemma launch_takes_slot:
  assumes "launch_init_process cr mt elf w = (Inr (), w')"
  shows "unused_slots w = Suc (unused_slots w')"
proof -
  obtain i p m where "find_slot (\<lambda>p. pcb_state p = Unused) (w_procs w) = Some i"
      "w_procs w' = (w_procs w)[i := (fst (build_initial_kernel_stack p m)) \<lparr> pcb_state := Running \<rparr>]"
    by (rule launch_effect [OF assms])
  with find_slot_Some [OF this(1)] show ?thesis
    unfolding unused_slots_def by (auto intro: filter_update_less)
qed

lemma exit_frees_no_slot: "exit_process cr code w = Some w' \<Longrightarrow> unused_slots w' \<le> unused_slots w"
  by (auto simp: exit_process_def exit_fields_def unused_slots_def Let_def intro!: filter_update_le split: option.splits prod.splits)

lemma find_slot_None: "find_slot P ps = None \<longleftrightarrow> (\<forall>p\<in>set ps. \<not> P p)"
  by (induction ps) auto

text \<open>Histories of the process table, with the number of successful launches: launches, attempts to enter user
  mode, whatever comes of them, and exits in any order, and anything that leaves the table alone.\<close>

inductive run_history :: "x86_crate \<Rightarrow> map_to \<Rightarrow> proc_world \<Rightarrow> nat \<Rightarrow> proc_world \<Rightarrow> bool" for cr mt w0 where
  history_start: "run_history cr mt w0 0 w0"
| history_launch: "run_history cr mt w0 n w \<Longrightarrow> launch_init_process cr mt elf w = (Inr (), w') \<Longrightarrow> run_history cr mt w0 (Suc n) w'"
| history_failed: "run_history cr mt w0 n w \<Longrightarrow> launch_init_process cr mt elf w = (Inl e, w') \<Longrightarrow> run_history cr mt w0 n w'"
| history_enter: "run_history cr mt w0 n w \<Longrightarrow> entry_world (enter_user_mode cr sw w) = Some w' \<Longrightarrow> run_history cr mt w0 n w'"
| history_exit: "run_history cr mt w0 n w \<Longrightarrow> exit_process cr code w = Some w' \<Longrightarrow> run_history cr mt w0 n w'"
| history_other: "run_history cr mt w0 n w \<Longrightarrow> w_procs w' = w_procs w \<Longrightarrow> run_history cr mt w0 n w'"

lemma history_slots: "run_history cr mt w0 n w \<Longrightarrow> n + unused_slots w \<le> unused_slots w0"
proof (induction rule: run_history.induct)
  case (history_failed n w elf e w')
  moreover have "unused_slots w' \<le> unused_slots w"
    using frees_launch [of cr mt elf] history_failed(2) unfolding frees_no_slot_def by (metis snd_conv)
  ultimately show ?case by simp
next
  case (history_enter n w sw w')
  then show ?case using entry_keeps [OF history_enter(2)] by (simp add: unused_slots_def)
next
  case (history_other n w w')
  then show ?case by (simp add: unused_slots_def)
qed (auto dest: launch_takes_slot exit_frees_no_slot)

lemma initial_unused: "w_procs w = initial_table \<Longrightarrow> unused_slots w = 8"
  by (simp add: unused_slots_def initial_table_def empty_pcb_def MAX_PROCESSES_def)

section \<open>Sector commands\<close>

lemma u32_arg_dec: "n < 2 ^ 32 \<Longrightarrow> u32_arg (fmt_dec n) = Some (of_nat n)"
  by (simp add: u32_arg_def from_str_radix_dec)

lemma u32_arg_lba: "u32_arg (dec32 lba) = Some lba"
proof -
  have "unat lba < 2 ^ 32" by (rule order_less_le_trans [OF unsigned_less]) simp
  then show ?thesis by (simp add: dec32_def u32_arg_dec)
qed

lemma count_arg_dec: "i < length args \<Longrightarrow> args ! i = fmt_dec k \<Longrightarrow> k \<le> 4 \<Longrightarrow> count_arg i args = of_nat k"
proof -
  assume "i < length args" "args ! i = fmt_dec k" "k \<le> 4"
  moreover have "of_nat k \<le> (4 :: u32)" using \<open>k \<le> 4\<close> by (simp add: word_le_nat_alt unat_of_nat)
  ultimately show ?thesis by (simp add: count_arg_def u32_arg_dec min_def)
qed

section \<open>Uptime\<close>

lemma uptime_parts_value:
  assumes "uptime_parts ms = (d, h, m, s, r)"
  shows "(((unat d * 24 + unat h) * 60 + unat m) * 60 + unat s) * 1000 + unat r = unat ms"
    and "unat h < 24" "unat m < 60" "unat s < 60" "unat r < 1000"
proof -
  have u: "unat d = unat ms div 1000 div 60 div 60 div 24" "unat h = unat ms div 1000 div 60 div 60 mod 24"
      "unat m = unat ms div 1000 div 60 mod 60" "unat s = unat ms div 1000 mod 60" "unat r = unat ms mod 1000"
    using assms by (auto simp: uptime_parts_def Let_def unat_div unat_mod)
  show "(((unat d * 24 + unat h) * 60 + unat m) * 60 + unat s) * 1000 + unat r = unat ms" unfolding u by simp
  show "unat h < 24" "unat m < 60" "unat s < 60" "unat r < 1000" by (simp_all add: u)
qed

section \<open>Properties\<close>

text \<open>C40: A slot of the process table is never given back. From boot on, whatever is launched, entered and
  exited in whatever order, at most eight launches succeed; after the eighth every \<open>run\<close> of a valid
  program fails with the message that no slot is free, also when all processes have exited.\<close>

theorem process_slots_exhausted:
  assumes "run_history cr mt w0 n w" and "w_procs w0 = initial_table"
  shows "n + unused_slots w \<le> 8 \<and>
    (n = 8 \<longrightarrow> (\<forall>sw elf info rsp. parse_elf elf = Inr info \<longrightarrow> fst (cmd_run cr mt sw elf rsp w) = Run_Failed ''No free process slot''))"
proof -
  have b: "n + unused_slots w \<le> 8" using history_slots [OF assms(1)] initial_unused [OF assms(2)] by simp
  moreover have "fst (cmd_run cr mt sw elf rsp w) = Run_Failed ''No free process slot''"
    if "n = 8" "parse_elf elf = Inr info" for sw elf info rsp
  proof -
    have "unused_slots w = 0" using b that(1) by simp
    then have "find_slot (\<lambda>p. pcb_state p = Unused) (w_procs w) = None"
      by (simp add: unused_slots_def filter_empty_conv find_slot_None)
    with that(2) show ?thesis
      by (simp add: cmd_run_def run_resume_def save_kernel_state_def launch_init_process_def Let_def)
  qed
  ultimately show ?thesis by blast
qed

theorem process_slots_exhausted_witness:
  "\<exists>w' w''. launch_init_process documented_crate tiny_map tiny_elf tiny_world = (Inr (), w') \<and>
     entry_world (enter_user_mode documented_crate (tiny_switch \<lparr> sw_selectors := \<lambda>cs ss. True \<rparr>) w') = Some w'' \<and> unused_slots w'' \<le> 7"
proof -
  obtain w' w'' where L: "launch_init_process documented_crate tiny_map tiny_elf tiny_world = (Inr (), w')"
      "entry_world (enter_user_mode documented_crate (tiny_switch \<lparr> sw_selectors := \<lambda>cs ss. True \<rparr>) w') = Some w''"
    using tiny_launch by (auto simp: entry_world_def)
  have h: "run_history documented_crate tiny_map tiny_world (Suc 0) w''"
    by (rule history_enter [OF history_launch [OF history_start L(1)] L(2)])
  have "w_procs tiny_world = initial_table" by (simp add: tiny_world_def)
  from process_slots_exhausted [OF h this] L show ?thesis by auto
qed

text \<open>The sector commands are inverse. Over a drive that follows the protocol, \<open>disk w\<close> with the decimal
  text of an address and a count of at most four reports success, and \<open>disk r\<close> with the same
  texts then prints the byte that was written, for the first 64 bytes of every sector. The other
  sectors keep their contents.\<close>

theorem disk_commands_roundtrip:
  assumes "ata_disk P abd_primary_master phase tf delay sec cap hw"
    and "hw (machine w)" "phase (machine w) = Pio_Idle" "delay (machine w) = 0" and "ATA w \<noteq> None"
    and "k \<le> 4" and "unat lba + k \<le> unat cap" and "from_str_radix 16 255 hex = Some b"
  shows "\<exists>w1 w2. cmd_disk P [str_bytes ''w'', dec32 lba, hex, fmt_dec k] w =
      (println (str_bytes ''Wrote '' @ fmt_dec k @ str_bytes '' sector(s) to LBA '' @ dec32 lba @ str_bytes ''.''), w1) \<and>
    cmd_disk P [str_bytes ''r'', dec32 lba, fmt_dec k] w1 =
      (println (str_bytes ''Read '' @ fmt_dec k @ str_bytes '' sector(s) from LBA '' @ dec32 lba @ str_bytes '':'') @
       concat (map (dump_sector lba (replicate (k * 512) (of_nat b))) [0..<k]), w2) \<and>
    (\<forall>l. unat l < unat lba \<or> unat lba + k \<le> unat l \<longrightarrow> sec (machine w2) l = sec (machine w) l)"
proof -
  have k: "unat (of_nat k :: u32) = k" using assms(6) by (simp add: unat_of_nat)
  have dk: "dec32 (of_nat k) = fmt_dec k" by (simp add: dec32_def k)
  have base: "abd_base_port abd_primary_master = PRIMARY_BASE" "abd_slave abd_primary_master = False"
    by (simp_all add: abd_primary_master_def)
  obtain m1 m2 where
      wr: "write_sectors P PRIMARY_BASE False lba (of_nat k) (replicate (k * 512) (of_nat b)) (machine w) = (Inr (), m1)"
      and rd: "read_sectors P PRIMARY_BASE False lba (of_nat k) (replicate (k * 512) 0) m1 = (Inr (), replicate (k * 512) (of_nat b), m2)"
      and other: "\<forall>l. unat l < unat lba \<or> unat lba + k \<le> unat l \<longrightarrow> sec m2 l = sec (machine w) l"
    using write_then_read_sectors [OF assms(1-4), of lba "of_nat k" "replicate (k * 512) (of_nat b)" "replicate (k * 512) 0"] assms(7)
    by (auto simp: k base)
  obtain d where d: "ATA w = Some d" using assms(5) by blast
  have "str_bytes ''w'' \<noteq> str_bytes ''r''" by (simp add: str_bytes_def)
  then have "cmd_disk P [str_bytes ''w'', dec32 lba, hex, fmt_dec k] w =
      (println (str_bytes ''Wrote '' @ fmt_dec k @ str_bytes '' sector(s) to LBA '' @ dec32 lba @ str_bytes ''.''), w \<lparr> machine := m1 \<rparr>)"
    using wr assms(6,8) by (simp add: cmd_disk_def d disk_write_def u32_arg_lba count_arg_dec Let_def SECTOR_SIZE_def k dk)
  moreover have "cmd_disk P [str_bytes ''r'', dec32 lba, fmt_dec k] (w \<lparr> machine := m1 \<rparr>) =
      (println (str_bytes ''Read '' @ fmt_dec k @ str_bytes '' sector(s) from LBA '' @ dec32 lba @ str_bytes '':'') @
       concat (map (dump_sector lba (replicate (k * 512) (of_nat b))) [0..<k]), w \<lparr> machine := m2 \<rparr>)"
    using rd assms(6) by (simp add: cmd_disk_def d disk_read_def u32_arg_lba count_arg_dec Let_def SECTOR_SIZE_def k dk)
  ultimately show ?thesis using other by auto
qed

theorem disk_commands_roundtrip_witness:
  "\<exists>w1 w2. cmd_disk (pd_ports 7 100) [str_bytes ''w'', str_bytes ''40'', str_bytes ''aB'', str_bytes ''2'']
       \<lparr> ATA = Some AtaDriver_new, machine = empty_pio_disk \<rparr> = (println (str_bytes ''Wrote 2 sector(s) to LBA 40.''), w1) \<and>
     snd (cmd_disk (pd_ports 7 100) [str_bytes ''r'', str_bytes ''40'', str_bytes ''2''] w1) = w2"
proof -
  let ?w = "\<lparr> ATA = Some AtaDriver_new, machine = empty_pio_disk \<rparr>"
  have p: "pd_hw (machine ?w)" "pd_phase (machine ?w) = Pio_Idle" "pd_delay (machine ?w) = 0" "ATA ?w \<noteq> None"
    "(2 :: nat) \<le> 4" "unat (40 :: u32) + 2 \<le> unat (pd_capacity 100)"
    by (simp_all add: empty_pio_disk_def pd_hw_def pd_capacity_def)
  have t: "dec32 40 = str_bytes ''40''" "fmt_dec 2 = str_bytes ''2''" "from_str_radix 16 255 (str_bytes ''aB'') = Some 0xAB"
    by code_simp+
  show ?thesis
    using disk_commands_roundtrip [OF primary.ata_disk_axioms p t(3)] unfolding t
    by (auto simp: str_bytes_def)
qed

end
