(* ===== verification/Kernel_Session.thy ===== *)
theory Kernel_Session
  imports Command_Properties Vga Vfs_Properties Terminal_Properties
begin

text \<open>
  The terminal over the whole kernel: \<open>process_command\<close> with the state of every component, and the
  loop of \<open>run\<close> (\<open>kernel/src/terminal/mod.rs\<close>). The file system works on the ATA driver
  that the sector command uses as well. The theorems: a file written by a line on the serial port
  is shown again, and what every session keeps.
\<close>

section \<open>The state\<close>

record 'm kernel =
  k_terminal :: Terminal
  k_queue :: scan_queue
  k_vfs :: "'m ata_world VfsManager option"
  k_ata :: "'m ata_world"
  k_procs :: proc_world
  k_vmm :: "VirtualMemoryManager option"
  k_sysinfo :: sysinfo_globals
  k_timer :: "'m timer"
  k_screen :: Writer

text \<open>The parts of the program that come from outside: port instructions, the crate x86_64, the mapper,
  the embedded binary, the text of a size, the stack pointer that \<open>run\<close> saves, and the program in ring 3:
  from its first context to its exit call, the exit code, what its write calls send to the serial port and
  the memory it leaves; \<open>None\<close> if it never exits.\<close>

record 'm platform =
  pf_ports :: "'m port_io"
  pf_crate :: x86_crate
  pf_map_to :: map_to
  pf_switch :: user_switch
  pf_init_elf :: bytes
  pf_size_text :: "human_size \<Rightarrow> bytes"
  pf_rsp :: u64
  pf_user :: "Context \<Rightarrow> proc_world \<Rightarrow> (u32 \<times> bytes \<times> phys_bytes) option"

datatype reply =
  No_Reply | Text bytes | Fs_Reply term_msg | Run_Reply run_result bytes | Halted bytes

text \<open>\<open>run\<close> with the life of the program: when it exits, \<open>exit_process\<close> continues at the saved stack, and the
  command returns from there. \<open>None\<close>: a panic, a fault
  on the way to the program, or the program does not exit.\<close>

definition run_program ::
  "x86_crate \<Rightarrow> map_to \<Rightarrow> user_switch \<Rightarrow> bytes \<Rightarrow> u64 \<Rightarrow> (Context \<Rightarrow> proc_world \<Rightarrow> (u32 \<times> bytes \<times> phys_bytes) option) \<Rightarrow> proc_world \<Rightarrow>
     (run_result \<times> bytes \<times> proc_world) option" where
  "run_program cr mt sw elf rsp user w =
     (case cmd_run cr mt sw elf rsp w of
        (Run_Entered c, out, w) \<Rightarrow>
          (case user c w of
             None \<Rightarrow> None
           | Some (code, user_out, mem) \<Rightarrow>
               (case exit_process cr code (w \<lparr> w_serial := w_serial w @ user_out, w_mem := mem \<rparr>) of
                  None \<Rightarrow> None
                | Some w \<Rightarrow> (case run_resume cr mt sw elf w of (r, out', w) \<Rightarrow> Some (r, out @ user_out @ out', w))))
      | (Run_Panic, out, w) \<Rightarrow> None
      | (Run_Lost, out, w) \<Rightarrow> None
      | r \<Rightarrow> Some r)"

section \<open>One command\<close>

text \<open>A file-system command needs the global manager, except when it only prints its usage. \<open>None\<close>
  is a panic.\<close>

definition usage_only :: "command \<Rightarrow> bytes list \<Rightarrow> bool" where
  "usage_only c args =
     (case c of
        C_Cat \<Rightarrow> args = [] | C_Touch \<Rightarrow> args = [] | C_Mkdir \<Rightarrow> args = [] | C_Rm \<Rightarrow> args = []
      | C_Write \<Rightarrow> length args < 2 | _ \<Rightarrow> False)"

definition with_vfs :: "bool \<Rightarrow> 'm ata_world term_cmd \<Rightarrow> 'm kernel \<Rightarrow> (reply \<times> 'm kernel) option" where
  "with_vfs usage cmd k =
     (case k_vfs k of
        None \<Rightarrow> if usage then Some (Fs_Reply Usage, k) else None
      | Some v \<Rightarrow>
          (case cmd v (k_ata k) of
             None \<Rightarrow> None
           | Some (msg, v', d') \<Rightarrow> Some (Fs_Reply msg, k \<lparr> k_vfs := Some v', k_ata := d' \<rparr>)))"

definition text_reply :: "bytes \<Rightarrow> 'm kernel \<Rightarrow> (reply \<times> 'm kernel) option" where
  "text_reply s k = Some (Text s, k)"

definition ata_reply :: "bytes \<times> 'm ata_world \<Rightarrow> 'm kernel \<Rightarrow> (reply \<times> 'm kernel) option" where
  "ata_reply r k = Some (Text (fst r), k \<lparr> k_ata := snd r \<rparr>)"

definition run_command :: "'m platform \<Rightarrow> command \<Rightarrow> bytes \<Rightarrow> bytes list \<Rightarrow> 'm kernel \<Rightarrow> (reply \<times> 'm kernel) option" where
  "run_command pf c name args k =
     (case c of
        C_Help \<Rightarrow> text_reply cmd_help k
      | C_Clear \<Rightarrow>
          (case clear_screen (k_screen k) of
             (Inr _, s) \<Rightarrow> Some (Text (println (str_bytes ''Screen cleared.'')), k \<lparr> k_screen := s \<rparr>)
           | (Inl _, s) \<Rightarrow> None)
      | C_Version \<Rightarrow> text_reply cmd_version k
      | C_Mem \<Rightarrow> text_reply (cmd_memory (w_pmm (k_procs k))) k
      | C_Vmm \<Rightarrow> text_reply (cmd_vmm (pf_crate pf) (w_mem (k_procs k)) (k_vmm k)) k
      | C_Reboot \<Rightarrow>
          Some (Text (println (str_bytes ''Rebooting...'')),
            k \<lparr> k_ata := (k_ata k) \<lparr> machine := outb (pf_ports pf) 0x64 0xFE (machine (k_ata k)) \<rparr> \<rparr>)
      | C_Halt \<Rightarrow> Some (Halted (println (str_bytes ''System halted.'')), k)
      | C_Echo \<Rightarrow> text_reply (cmd_echo args) k
      | C_Hostname \<Rightarrow> text_reply (println (str_bytes ''arcadia'')) k
      | C_Whoami \<Rightarrow> text_reply (println (str_bytes ''root'')) k
      | C_Uname \<Rightarrow> text_reply cmd_uname k
      | C_Cpuinfo \<Rightarrow> text_reply (cmd_cpuinfo (CPU_INFO (k_sysinfo k))) k
      | C_Meminfo \<Rightarrow> text_reply (cmd_meminfo (MEMORY_INFO (k_sysinfo k))) k
      | C_Sysinfo \<Rightarrow> text_reply (cmd_sysinfo (k_sysinfo k)) k
      | C_Neofetch \<Rightarrow> text_reply (cmd_neofetch (k_sysinfo k)) k
      | C_Uptime \<Rightarrow> text_reply (cmd_uptime (k_timer k)) k
      | C_Ticks \<Rightarrow> text_reply (cmd_ticks (k_timer k)) k
      | C_Disk \<Rightarrow> ata_reply (cmd_disk (pf_ports pf) args (k_ata k)) k
      | C_Partitions \<Rightarrow> ata_reply (cmd_partitions (pf_size_text pf) (pf_ports pf) (k_ata k)) k
      | C_Mount \<Rightarrow> (case k_vfs k of None \<Rightarrow> None | Some v \<Rightarrow> text_reply (cmd_mount v) k)
      | C_Run \<Rightarrow>
          map_option (\<lambda>(r, out, w). (Run_Reply r out, k \<lparr> k_procs := w \<rparr>))
            (run_program (pf_crate pf) (pf_map_to pf) (pf_switch pf) (pf_init_elf pf) (pf_rsp pf) (pf_user pf) (k_procs k))
      | C_Ps \<Rightarrow> text_reply (cmd_ps (k_procs k)) k
      | C_Exit \<Rightarrow> Some (Halted (println (str_bytes ''Shutting down...'')), k)
      | C_Unknown \<Rightarrow>
          text_reply (println (str_bytes ''Unknown command: '' @ [0x27] @ name @ [0x27] @ str_bytes ''. Type '' @ [0x27] @
            str_bytes ''help'' @ [0x27] @ str_bytes '' for commands.'')) k
      | _ \<Rightarrow> (case fs_command c args of Some cmd \<Rightarrow> with_vfs (usage_only c args) cmd k | None \<Rightarrow> None))"

definition process_command :: "'m platform \<Rightarrow> 'm kernel \<Rightarrow> (reply \<times> 'm kernel) option" where
  "process_command pf k =
     (case split_whitespace (input_buffer (k_terminal k)) of
        [] \<Rightarrow> Some (No_Reply, k)
      | cmd # args \<Rightarrow> run_command pf (command_of cmd) (encode_str cmd) (map encode_str args) k)"

section \<open>The loop\<close>

text \<open>The inputs of a line are those of \<open>read_line\<close>, with a fresh decoder for every line. The loop ends
  only when a command halts the machine or a panic stops it; it is given as many lines as there are.\<close>

definition run_line ::
  "('k \<Rightarrow> u8 \<Rightarrow> 'k \<times> decoded_key option) \<Rightarrow> 'k \<Rightarrow> 'm platform \<Rightarrow> (u8 list \<times> u8 option) list \<Rightarrow> 'm kernel \<Rightarrow>
     (reply \<times> 'm kernel) option" where
  "run_line decode k0 pf inputs k =
     (case read_line decode k0 inputs (k_queue k) (k_terminal k) of
        None \<Rightarrow> None
      | Some (q, t) \<Rightarrow> process_command pf (k \<lparr> k_queue := q, k_terminal := t \<rparr>))"

fun run_lines ::
  "('k \<Rightarrow> u8 \<Rightarrow> 'k \<times> decoded_key option) \<Rightarrow> 'k \<Rightarrow> 'm platform \<Rightarrow> (u8 list \<times> u8 option) list list \<Rightarrow> 'm kernel \<Rightarrow>
     (reply list \<times> 'm kernel) option" where
  "run_lines decode k0 pf [] k = Some ([], k)"
| "run_lines decode k0 pf (l # ls) k =
     (case run_line decode k0 pf l k of
        None \<Rightarrow> None
      | Some (Halted s, k') \<Rightarrow> Some ([Halted s], k')
      | Some (r, k') \<Rightarrow> map_option (\<lambda>(rs, k''). (r # rs, k'')) (run_lines decode k0 pf ls k'))"

section \<open>From typed bytes to commands\<close>

text \<open>A word is a run of printable ASCII bytes without blanks.\<close>

definition word_bytes :: "bytes \<Rightarrow> bool" where
  "word_bytes w \<longleftrightarrow> w \<noteq> [] \<and> (\<forall>b\<in>set w. 0x20 < b \<and> b < 0x7F)"

lemma ucast_ucast_b: "(ucast (ucast b :: rchar) :: u8) = b" for b :: u8
  by transfer (simp add: take_bit_take_bit)

lemma word_char:
  assumes "0x20 < b" and "b < (0x7F :: u8)"
  shows "\<not> is_whitespace (ucast b)" "encode_char (ucast b) = [b]" "printable b" "\<not> edits b"
proof -
  have n: "unat (ucast b :: rchar) = unat b" by (simp add: unsigned_ucast_eq take_bit_nat_eq_self order_less_trans [OF unsigned_less])
  have c: "(ucast (ucast b :: rchar) :: u8) = b"
    by (rule ucast_ucast_b)
  have b: "32 < unat b" "unat b < 127" using assms by (simp_all add: word_less_nat_alt)
  show "\<not> is_whitespace (ucast b)"
    using b by (simp add: is_whitespace_def word_le_nat_alt word_less_nat_alt word_unat_eq_iff n)
  show "encode_char (ucast b) = [b]"
    using b by (simp add: encode_char_def word_less_nat_alt n c)
  show "printable b" "\<not> edits b" using assms by (auto simp: printable_def edits_def)
qed

lemma encode_word_chars: "\<forall>b\<in>set w. 0x20 < b \<and> b < 0x7F \<Longrightarrow> encode_str (map ucast w) = w"
  by (induction w) (simp_all add: encode_str_def word_char(2))

lemma encode_word: "word_bytes w \<Longrightarrow> encode_str (map ucast w) = w"
  by (simp add: word_bytes_def encode_word_chars)

lemma join_space_Cons: "join_space (w # v # ws) = w @ 0x20 # join_space (v # ws)"
  by (simp add: join_space_def)

lemma join_space_one [simp]: "join_space [w] = w"
  by (simp add: join_space_def)

lemma word_whitespace: "word_bytes w \<Longrightarrow> c \<in> set (map ucast w) \<Longrightarrow> \<not> is_whitespace (c :: rchar)"
  using word_char(1) by (auto simp: word_bytes_def)

lemma split_one: "word_bytes w \<Longrightarrow> split_whitespace (map ucast w) = [map ucast w]"
  using word_whitespace [of w]
  by (subst split_whitespace.simps, subst split_whitespace.simps)
    (simp add: dropWhile_eq_self_iff [THEN iffD2] word_bytes_def hd_map takeWhile_eq_all_conv [THEN iffD2]
      dropWhile_eq_Nil_conv [THEN iffD2])

lemma split_more:
  assumes "word_bytes w"
  shows "split_whitespace (map ucast w @ 0x20 # r) = map ucast w # split_whitespace r"
proof -
  let ?w = "map ucast w :: rchar list"
  have nw: "\<forall>c\<in>set ?w. \<not> is_whitespace c" using word_whitespace [OF assms] by blast
  have sp: "is_whitespace 0x20" by (simp add: is_whitespace_def)
  have "dropWhile is_whitespace (?w @ 0x20 # r) = ?w @ 0x20 # r"
    using nw assms by (cases w) (simp_all add: word_bytes_def)
  moreover have "takeWhile (\<lambda>c. \<not> is_whitespace c) (?w @ 0x20 # r) = ?w"
    and "dropWhile (\<lambda>c. \<not> is_whitespace c) (?w @ 0x20 # r) = 0x20 # r"
    using nw sp takeWhile_append2 [of ?w "\<lambda>c. \<not> is_whitespace c" "0x20 # r"]
      dropWhile_append2 [of ?w "\<lambda>c. \<not> is_whitespace c" "0x20 # r"] by auto
  moreover have "split_whitespace (0x20 # r) = split_whitespace r"
    using sp by (subst (1 2) split_whitespace.simps) simp
  ultimately show ?thesis using assms by (subst split_whitespace.simps) (simp add: word_bytes_def)
qed

lemma split_join: "\<forall>w\<in>set ws. word_bytes w \<Longrightarrow> split_whitespace (map ucast (join_space ws)) = map (map ucast) ws"
proof (induction ws rule: induct_list012)
  case 1
  show ?case by (simp add: join_space_def split_whitespace.simps)
next
  case (3 w v ws)
  then show ?case using split_more [of w "map ucast (join_space (v # ws))"] by (simp add: join_space_Cons)
qed (simp add: split_one)

lemma join_printable: "\<forall>w\<in>set ws. word_bytes w \<Longrightarrow> b \<in> set (join_space ws) \<Longrightarrow> printable b \<and> \<not> edits b"
proof (induction ws rule: induct_list012)
  case (2 w)
  then show ?case using word_char(3,4) by (auto simp: word_bytes_def)
next
  case (3 w v ws)
  have "printable 0x20 \<and> \<not> edits 0x20" by (simp add: printable_def edits_def)
  then show ?case using 3 word_char(3,4) by (auto simp: join_space_Cons word_bytes_def)
qed (simp add: join_space_def)

section \<open>Lines typed on the serial port\<close>

text \<open>The inputs of a line whose bytes \<open>s\<close> come over the serial port, with pauses anywhere, ended by
  a carriage return or line feed, while no key is pressed.\<close>

definition types_line :: "(u8 list \<times> u8 option) list \<Rightarrow> bytes \<Rightarrow> bool" where
  "types_line l s \<longleftrightarrow>
     (\<exists>is e. l = is @ [([], Some e)] \<and> (\<forall>i\<in>set is. fst i = []) \<and> typed is = s \<and> (e = 0x0D \<or> e = 0x0A))"

lemma finish_line_buffer [simp]: "input_buffer (finish_line t) = input_buffer t"
  by (simp add: finish_line_def Let_def)

lemma run_line_words:
  assumes "scan_inv (k_queue k)" "scan_items (k_queue k) = []" and l: "types_line l (join_space (c # args))"
    and w: "\<forall>w\<in>set (c # args). word_bytes w" and len: "length (join_space (c # args)) \<le> 256"
  shows "\<exists>t. run_line decode k0 pf l k = run_command pf (command_of (map ucast c)) c args (k \<lparr> k_terminal := t \<rparr>)"
proof -
  let ?s = "join_space (c # args)"
  obtain "is" e where l': "l = is @ [([], Some e)]" "\<forall>i\<in>set is. fst i = []" "typed is = ?s" "e = 0x0D \<or> e = 0x0A"
    using l by (auto simp: types_line_def)
  have p: "\<forall>b\<in>set ?s. printable b \<and> \<not> edits b" using join_printable [OF w] by blast
  let ?t = "(k_terminal k) \<lparr> input_buffer := [] \<rparr>"
  have "read_loop decode l k0 (k_queue k) ?t = Some (k_queue k, finish_line (?t \<lparr> input_buffer := map ucast ?s \<rparr>))"
    using read_loop_typed [OF assms(1,2) l'(2) _ l'(4), of ?t decode "[]" k0] p len
    by (simp add: l'(1,3) filter_True)
  then obtain t where t: "read_line decode k0 l (k_queue k) (k_terminal k) = Some (k_queue k, t)"
      "input_buffer t = map ucast ?s"
    by (auto simp: read_line_def)
  have "split_whitespace (map ucast ?s) = map (map ucast) (c # args)" by (rule split_join [OF w])
  moreover have "map encode_str (map (map ucast) (c # args)) = c # args"
    using w encode_word by (simp add: map_idI)
  ultimately show ?thesis
    by (auto simp: run_line_def t process_command_def)
qed

lemma command_names:
  "command_of (map ucast (str_bytes ''write'')) = C_Write" "command_of (map ucast (str_bytes ''cat'')) = C_Cat"
  "word_bytes (str_bytes ''write'')" "word_bytes (str_bytes ''cat'')"
  by code_simp+

text \<open>What each command leaves alone.\<close>

lemma run_command_frame:
  assumes "run_command pf c name args (k :: 'm kernel) = Some (r, k')"
  shows "k_terminal k' = k_terminal k" "k_queue k' = k_queue k" "k_vmm k' = k_vmm k" "k_timer k' = k_timer k"
    "k_sysinfo k' = k_sysinfo k" "c \<noteq> C_Run \<Longrightarrow> k_procs k' = k_procs k" "c \<noteq> C_Clear \<Longrightarrow> k_screen k' = k_screen k"
    "fs_command c args = (None :: 'm ata_world term_cmd option) \<Longrightarrow> k_vfs k' = k_vfs k"
  using assms
  by (cases c; auto simp: run_command_def text_reply_def ata_reply_def with_vfs_def fs_command_def Let_def
    split: option.splits prod.splits sum.splits if_splits)+

section \<open>A file through the terminal\<close>

lemma join_words_no_cr: "\<forall>w\<in>set ws. word_bytes w \<Longrightarrow> filter (\<lambda>b. b \<noteq> 0x0D) (join_space ws) = join_space ws \<and>
    (join_space ws \<noteq> [] \<longrightarrow> last (join_space ws) \<noteq> 0x0A)"
  using join_printable [of ws] by (auto simp: edits_def filter_id_conv dest: last_in_set)

lemma cmd_write_stores:
  assumes "create_file v path (join_space ws) d = (Inr (), d')" and "ws \<noteq> []"
  shows "cmd_write (path # ws) v d = Some (Wrote (length (join_space ws)) path, v, d')"
  using assms by (simp add: cmd_write_def report_def Let_def Suc_le_eq)

lemma cmd_cat_shows:
  assumes "read_file_content v path d = (Inr (join_space ws), d')" and "\<forall>w\<in>set ws. word_bytes w"
  shows "cmd_cat [path] v d = Some (Contents (join_space ws @ [0x0A]), v, d')"
  using assms(1) join_words_no_cr [OF assms(2)] by (auto simp: cmd_cat_def report_def)

text \<open>The two lines on their own: the first stores the file and leaves the reserved sectors alone, the second
  shows a stored file and leaves the volume alone.\<close>

lemma typed_write:
  fixes k :: "'m kernel"
  assumes bd: "block_device dev content cap dinv" and m: "mounted_on dev cap fs" and d: "dinv (k_ata k)"
    and v: "k_vfs k = Some v" "fat_fs v = Some fs"
    and q: "scan_inv (k_queue k)" "scan_items (k_queue k) = []"
    and i: "intact_chain (bpb fs) (fat_entry fs (content (k_ata k))) (vfs_root v # cs)"
    and clean: "dir_clean (dir_entries fs (content (k_ata k)) (vfs_root v # cs))"
    and p: "root_name path name" and n: "valid_83 (to_upper_83 name)" "hd (to_upper_83 name) \<noteq> 0xE5"
    and new: "dir_lookup (dir_entries fs (content (k_ata k)) (vfs_root v # cs)) (to_upper_83 name) = None"
    and slot: "dir_slot (dir_entries fs (content (k_ata k)) (vfs_root v # cs)) \<noteq> None"
    and c: "first_free (bpb fs) (fat_entry fs (content (k_ata k))) \<noteq> None"
    and words: "\<forall>w\<in>set (path # ws). word_bytes w" "ws \<noteq> []"
    and line: "types_line l (join_space (str_bytes ''write'' # path # ws))"
    and len: "length (join_space (str_bytes ''write'' # path # ws)) \<le> 256"
      "length (join_space ws) \<le> cluster_size_bytes (bpb fs)"
  obtains k1 where "run_line decode k0 pf l k = Some (Fs_Reply (Wrote (length (join_space ws)) path), k1)"
    "k_vfs k1 = Some v" "k_queue k1 = k_queue k" "dinv (k_ata k1)"
    "stored_file fs (content (k_ata k1)) (vfs_root v # cs) (to_upper_83 name) (join_space ws)"
    "\<And>l. is_reserved_sector fs l \<Longrightarrow> content (k_ata k1) l = content (k_ata k) l"
proof -
  have "length (join_space ws) \<le> 256"
    using len(1) words(2) by (cases ws) (simp_all add: join_space_def)
  then have ne: "length (join_space ws) < 2 ^ 32" by simp
  obtain d1 where d1: "create_file v path (join_space ws) (k_ata k) = (Inr (), d1)" "dinv d1"
      "stored_file fs (content d1) (vfs_root v # cs) (to_upper_83 name) (join_space ws)"
      "\<forall>n'. n' \<noteq> to_upper_83 name \<longrightarrow> dir_lookup (dir_entries fs (content d1) (vfs_root v # cs)) n' =
         dir_lookup (dir_entries fs (content (k_ata k)) (vfs_root v # cs)) n'"
      "\<forall>l. is_reserved_sector fs l \<longrightarrow> content d1 l = content (k_ata k) l"
    by (rule block_device.create_stored_file [OF bd m d v(2) i clean p n new slot c len(2) ne])
  obtain t where t: "run_line decode k0 pf l k =
      run_command pf C_Write (str_bytes ''write'') (path # ws) (k \<lparr> k_terminal := t \<rparr>)"
    using run_line_words [OF q line _ len(1), of decode k0 pf] words(1) command_names by auto
  show thesis
    by (rule that [of "k \<lparr> k_terminal := t, k_vfs := Some v, k_ata := d1 \<rparr>"])
      (use cmd_write_stores [OF d1(1) words(2)] v(1) d1(2,3,5) in \<open>simp_all add: t run_command_def fs_command_def with_vfs_def\<close>)
qed

lemma typed_cat:
  fixes k :: "'m kernel"
  assumes bd: "block_device dev content cap dinv" and m: "mounted_on dev cap fs" and d: "dinv (k_ata k)"
    and v: "k_vfs k = Some v" "fat_fs v = Some fs"
    and q: "scan_inv (k_queue k)" "scan_items (k_queue k) = []" and p: "root_name path name"
    and s: "stored_file fs (content (k_ata k)) (vfs_root v # cs) (to_upper_83 name) (join_space ws)"
    and words: "\<forall>w\<in>set (path # ws). word_bytes w"
    and line: "types_line l (join_space [str_bytes ''cat'', path])" "length (join_space [str_bytes ''cat'', path]) \<le> 256"
  obtains k1 where "run_line decode k0 pf l k = Some (Fs_Reply (Contents (join_space ws @ [0x0A])), k1)"
    "k_vfs k1 = Some v" "dinv (k_ata k1)" "content (k_ata k1) = content (k_ata k)"
proof -
  obtain d1 where d1: "read_file_content v path (k_ata k) = (Inr (join_space ws), d1)" "dinv d1" "content d1 = content (k_ata k)"
    using block_device.read_stored_file [OF bd m d v(2) p s] unfolding block_device.op_ok_def [OF bd] by metis
  obtain t where t: "run_line decode k0 pf l k = run_command pf C_Cat (str_bytes ''cat'') [path] (k \<lparr> k_terminal := t \<rparr>)"
    using run_line_words [of k l "str_bytes ''cat''" "[path]" decode k0 pf] q line words command_names by auto
  have "\<forall>w\<in>set ws. word_bytes w" using words by simp
  note c = cmd_cat_shows [OF d1(1) this]
  show thesis
    by (rule that [of "k \<lparr> k_terminal := t, k_vfs := Some v, k_ata := d1 \<rparr>"])
      (use c v(1) d1(2,3) in \<open>simp_all add: t run_command_def fs_command_def with_vfs_def\<close>)
qed

lemma cat_line_shorter: "length (join_space (str_bytes ''write'' # path # ws)) \<le> 256 \<Longrightarrow> ws \<noteq> [] \<Longrightarrow>
    length (join_space [str_bytes ''cat'', path]) \<le> 256"
  by (cases ws) (simp_all add: join_space_def str_bytes_def)

text \<open>Typing \<open>write NAME TEXT\<close> and then \<open>cat NAME\<close> on the serial port, with any pauses
  between the bytes, shows the text again: on a mounted volume whose root directory has a free slot
  and which has a free cluster, for a new name of the form 8.3 and words of printable characters
  that fit a cluster and the line.\<close>

theorem typed_write_then_cat:
  assumes bd: "block_device dev content cap dinv" and m: "mounted_on dev cap fs" and d: "dinv (k_ata k)"
    and v: "k_vfs k = Some v" "fat_fs v = Some fs"
    and q: "scan_inv (k_queue k)" "scan_items (k_queue k) = []"
    and i: "intact_chain (bpb fs) (fat_entry fs (content (k_ata k))) (vfs_root v # cs)"
    and clean: "dir_clean (dir_entries fs (content (k_ata k)) (vfs_root v # cs))"
    and p: "root_name path name" and n: "valid_83 (to_upper_83 name)" "hd (to_upper_83 name) \<noteq> 0xE5"
    and new: "dir_lookup (dir_entries fs (content (k_ata k)) (vfs_root v # cs)) (to_upper_83 name) = None"
    and slot: "dir_slot (dir_entries fs (content (k_ata k)) (vfs_root v # cs)) \<noteq> None"
    and c: "first_free (bpb fs) (fat_entry fs (content (k_ata k))) \<noteq> None"
    and words: "\<forall>w\<in>set (path # ws). word_bytes w" "ws \<noteq> []"
    and lines: "types_line l1 (join_space (str_bytes ''write'' # path # ws))" "types_line l2 (join_space [str_bytes ''cat'', path])"
    and len: "length (join_space (str_bytes ''write'' # path # ws)) \<le> 256"
      "length (join_space ws) \<le> cluster_size_bytes (bpb fs)"
  shows "\<exists>k'. run_lines decode k0 pf [l1, l2] k =
    Some ([Fs_Reply (Wrote (length (join_space ws)) path), Fs_Reply (Contents (join_space ws @ [0x0A]))], k')"
proof -
  note len2 = cat_line_shorter [OF len(1) words(2)]
  obtain k1 where k1: "run_line decode k0 pf l1 k = Some (Fs_Reply (Wrote (length (join_space ws)) path), k1)"
      "k_vfs k1 = Some v" "k_queue k1 = k_queue k" "dinv (k_ata k1)"
      "stored_file fs (content (k_ata k1)) (vfs_root v # cs) (to_upper_83 name) (join_space ws)"
    by (rule typed_write [OF bd m d v q i clean p n new slot c words lines(1) len])
  obtain k2 where "run_line decode k0 pf l2 k1 = Some (Fs_Reply (Contents (join_space ws @ [0x0A])), k2)"
    by (rule typed_cat [OF bd m k1(4,2) v(2) _ _ p k1(5) words(1) lines(2) len2]) (use q k1(3) in simp_all)
  with k1(1) show ?thesis by simp
qed

text \<open>The session on the sample volume: \<open>write /hi a b\<close> and \<open>cat /hi\<close>.\<close>

definition sample_kernel :: "pio_disk kernel" where
  "sample_kernel = \<lparr> k_terminal = terminal_new, k_queue = scan_init, k_vfs = Some sample_vfs, k_ata = sample_world,
     k_procs = tiny_world, k_vmm = None, k_sysinfo = \<lparr> CPU_INFO = None, MEMORY_INFO = None, SYSTEM_INFO = None \<rparr>,
     k_timer = timer_boot (machine sample_world), 
     k_screen = \<lparr> column_position = 0, color_code = 0x0A, chars = replicate 25 (replicate 80 (blank_cell 0x0A)) \<rparr> \<rparr>"

definition serial_line :: "bytes \<Rightarrow> (u8 list \<times> u8 option) list" where
  "serial_line s = map (\<lambda>b. ([], Some b)) s @ [([], Some 0x0D)]"

lemma serial_line_typed: "types_line (serial_line s) s"
proof -
  have "typed (map (\<lambda>b. ([], Some b)) s) = s" by (induction s) simp_all
  then show ?thesis by (auto simp: types_line_def serial_line_def)
qed

theorem typed_write_then_cat_witness:
  "\<forall>pf :: pio_disk platform. \<exists>k'.
     run_lines (\<lambda>k b. (k, None)) () pf [serial_line (str_bytes ''write /hi a b''), serial_line (str_bytes ''cat /hi'')] sample_kernel =
       Some ([Fs_Reply (Wrote 3 (str_bytes ''/hi'')), Fs_Reply (Contents (str_bytes ''a b'' @ [0x0A]))], k')"
proof
  fix pf :: "pio_disk platform"
  have s: "join_space (str_bytes ''write'' # [0x2F, 0x68, 0x69] # [[0x61], [0x62]]) = str_bytes ''write /hi a b''"
    "join_space [str_bytes ''cat'', [0x2F, 0x68, 0x69]] = str_bytes ''cat /hi''"
    "join_space [[0x61], [0x62]] = str_bytes ''a b''" "str_bytes ''/hi'' = [0x2F, 0x68, 0x69]"
    "\<forall>w\<in>set ([0x2F, 0x68, 0x69] # [[0x61], [0x62]]). word_bytes w"
    by code_simp+
  have v: "k_vfs sample_kernel = Some sample_vfs" "fat_fs sample_vfs = Some sample_fs" "vfs_root sample_vfs = 2"
    "k_ata sample_kernel = sample_world" "k_queue sample_kernel = scan_init"
    by (simp_all add: sample_kernel_def sample_vfs_def)
  have l: "length (str_bytes ''write /hi a b'') \<le> 256" "length (str_bytes ''a b'') = 3"
    by (simp_all add: str_bytes_def)
  show "\<exists>k'. run_lines (\<lambda>k b. (k, None)) () pf [serial_line (str_bytes ''write /hi a b''), serial_line (str_bytes ''cat /hi'')] sample_kernel =
       Some ([Fs_Reply (Wrote 3 (str_bytes ''/hi'')), Fs_Reply (Contents (str_bytes ''a b'' @ [0x0A]))], k')"
    using typed_write_then_cat [OF sample_block_device sample_mounted, of sample_kernel sample_vfs "[]" "[0x2F, 0x68, 0x69]"
        "[0x68, 0x69]" "[[0x61], [0x62]]" "serial_line (str_bytes ''write /hi a b'')" "serial_line (str_bytes ''cat /hi'')"
        "\<lambda>k b. (k, None)" "()" pf]
      sample_world_inv sample_chain sample_root sample_dir_slot sample_free sample_name scan_init_inv s(5) l
    unfolding s(1-4) v by (simp add: serial_line_typed del: dir_entries_Cons)
qed

section \<open>Invariants of a session\<close>

text \<open>The terminal keeps a bounded line and a bounded history, and the index points into the history.\<close>

definition terminal_inv :: "Terminal \<Rightarrow> bool" where
  "terminal_inv t \<longleftrightarrow> str_len (input_buffer t) \<le> 259 \<and> length (history t) \<le> 50 \<and>
     (case history_index t of None \<Rightarrow> True | Some i \<Rightarrow> i < length (history t))"

lemma str_len_append: "str_len (s @ t) = str_len s + str_len t"
  by (simp add: str_len_def)

lemma str_len_butlast: "str_len (butlast s) \<le> str_len s"
  by (induction s) (simp_all add: str_len_def)

lemma terminal_inv_finish: "terminal_inv t \<Longrightarrow> terminal_inv (finish_line t)"
  by (auto simp: terminal_inv_def finish_line_def MAX_HISTORY_def Let_def)

lemma terminal_inv_push: "terminal_inv t \<Longrightarrow> terminal_inv (push_char c t)"
  by (auto simp: terminal_inv_def push_char_def MAX_INPUT_LEN_def str_len_append split: option.splits)
    (simp_all add: str_len_def char_len_def)

lemma terminal_inv_pop: "terminal_inv t \<Longrightarrow> terminal_inv (pop_char t)"
  using str_len_butlast [of "input_buffer t"] by (auto simp: terminal_inv_def pop_char_def split: option.splits)

lemma terminal_inv_arrows: "terminal_inv t \<Longrightarrow> terminal_inv (arrow_up t)" "terminal_inv t \<Longrightarrow> terminal_inv (arrow_down t)"
  by (auto simp: terminal_inv_def arrow_up_def arrow_down_def split: option.splits)

lemma terminal_inv_key: "terminal_inv t \<Longrightarrow> terminal_inv (fst (handle_key key t))"
  by (auto simp: handle_key_def terminal_inv_finish terminal_inv_push terminal_inv_pop terminal_inv_arrows split: decoded_key.split)

lemma terminal_inv_serial: "terminal_inv t \<Longrightarrow> terminal_inv (fst (handle_serial b t))"
  by (auto simp: handle_serial_def terminal_inv_finish terminal_inv_push terminal_inv_pop)

lemma read_loop_inv:
  "read_loop decode is k q t = Some (q', t') \<Longrightarrow> scan_inv q \<Longrightarrow> terminal_inv t \<Longrightarrow> scan_inv q' \<and> terminal_inv t'"
proof (induction "is" arbitrary: k q t)
  case (Cons i "is")
  obtain r q1 where p: "pop_scancode (fold push_scancode (fst i) q) = (r, q1)" by fastforce
  have q1: "scan_inv q1"
    using scan.invar_deq [OF scan.invar_enqs [OF Cons.prems(2), of "fst i"]] p by simp
  show ?case
  proof (cases r)
    case None
    then show ?thesis
      using Cons.prems p Cons.IH [OF _ q1] terminal_inv_serial [OF Cons.prems(3)] q1
      by (auto split: option.splits prod.splits bool.splits) (metis fst_conv)+
  next
    case (Some c)
    then show ?thesis
      using Cons.prems p Cons.IH [OF _ q1] terminal_inv_key [OF Cons.prems(3)] q1
      by (auto split: option.splits prod.splits bool.splits) (metis fst_conv)+
  qed
qed simp

text \<open>The commands change nothing of the manager but the working directory.\<close>

lemma fs_command_keeps:
  assumes "fs_command c args = Some cmd" and "cmd v d = Some (msg, v', d')"
  shows "v' = v \<lparr> cwd := cwd v' \<rparr>"
  using assms
  by (cases c; auto simp: fs_command_def cmd_ls_def cmd_cat_def cmd_touch_def cmd_mkdir_def cmd_write_def cmd_rm_def cmd_cd_def
      cmd_pwd_def report_def Let_def split: if_splits sum.splits prod.splits vfs_fail.splits VfsError.splits)

text \<open>The process table: a run never frees a slot.\<close>

lemma resume_slots: "run_resume cr mt sw elf w = (r, out, w') \<Longrightarrow> unused_slots w' \<le> unused_slots w"
proof -
  assume r: "run_resume cr mt sw elf w = (r, out, w')"
  have "unused_slots w1 \<le> unused_slots w" if "launch_init_process cr mt elf w = (x, w1)" for x w1
    using frees_launch [of cr mt elf] that unfolding frees_no_slot_def by (metis snd_conv)
  moreover have "enter_user_mode cr sw w1 = Page_Fault a w2 \<Longrightarrow> unused_slots w2 = unused_slots w1"
    "enter_user_mode cr sw w1 = Foreign_Code a w2 \<Longrightarrow> unused_slots w2 = unused_slots w1"
    "enter_user_mode cr sw w1 = Protection_Fault w2 \<Longrightarrow> unused_slots w2 = unused_slots w1"
    "enter_user_mode cr sw w1 = Entered c w2 \<Longrightarrow> unused_slots w2 = unused_slots w1" for a c w1 w2
    using entry_keeps [of cr sw w1 w2] by (simp_all add: entry_world_def unused_slots_def)
  ultimately show ?thesis
    using r by (auto simp: run_resume_def Let_def
        split: if_splits prod.splits sum.splits proc_fail.splits option.splits user_entry.splits)
qed

lemma program_slots: "run_program cr mt sw elf rsp user w = Some (r, out, w') \<Longrightarrow> unused_slots w' \<le> unused_slots w"
proof -
  assume a: "run_program cr mt sw elf rsp user w = Some (r, out, w')"
  obtain r1 o1 w1 where c: "cmd_run cr mt sw elf rsp w = (r1, o1, w1)" by (metis prod_cases3)
  then have 1: "unused_slots w1 \<le> unused_slots w"
    using resume_slots [of cr mt sw elf "save_kernel_state rsp (w \<lparr> EXIT_REQUESTED := False \<rparr>)"]
    by (auto simp: cmd_run_def Let_def save_kernel_state_def unused_slots_def split: prod.splits)
  show ?thesis
  proof (cases r1)
    case (Run_Entered ctx)
    with a c obtain code user_out mem w2 o3 where
        e: "exit_process cr code (w1 \<lparr> w_serial := w_serial w1 @ user_out, w_mem := mem \<rparr>) = Some w2"
          "run_resume cr mt sw elf w2 = (r, o3, w')"
      by (auto simp: run_program_def split: option.splits prod.splits)
    have "unused_slots w2 \<le> unused_slots (w1 \<lparr> w_serial := w_serial w1 @ user_out, w_mem := mem \<rparr>)"
      by (rule exit_frees_no_slot [OF e(1)])
    with 1 resume_slots [OF e(2)] show ?thesis by (simp add: unused_slots_def)
  qed (use a c 1 in \<open>simp_all add: run_program_def\<close>)
qed

definition session_inv :: "'m kernel \<Rightarrow> bool" where
  "session_inv k \<longleftrightarrow> scan_inv (k_queue k) \<and> terminal_inv (k_terminal k) \<and> screen_wf (chars (k_screen k)) \<and> k_vfs k \<noteq> None"

text \<open>What one kernel may become: the volume, the descriptors and what the boot found stay; slots of the
  process table are only used up.\<close>

definition session_rel :: "'m kernel \<Rightarrow> 'm kernel \<Rightarrow> bool" where
  "session_rel k k' \<longleftrightarrow>
     (\<exists>v c. k_vfs k = Some v \<and> k_vfs k' = Some (v \<lparr> cwd := c \<rparr>)) \<and>
     unused_slots (k_procs k') \<le> unused_slots (k_procs k) \<and>
     k_vmm k' = k_vmm k \<and> k_sysinfo k' = k_sysinfo k \<and> k_timer k' = k_timer k"

lemma same_cwd: "\<exists>c. v = v \<lparr> cwd := c \<rparr>"
  by (rule exI [of _ "cwd v"]) simp

lemma session_rel_refl: "k_vfs k \<noteq> None \<Longrightarrow> session_rel k k"
  by (auto simp: session_rel_def intro: same_cwd)

lemma session_rel_trans: "session_rel k1 k2 \<Longrightarrow> session_rel k2 k3 \<Longrightarrow> session_rel k1 k3"
  by (auto simp: session_rel_def)

lemma screen_wf_blank: "screen_wf (replicate 25 (replicate 80 c))"
  by (auto simp: screen_wf_def)

lemma run_command_session:
  assumes "run_command pf c name args k = Some (r, k')" and "session_inv (k :: 'm kernel)"
  shows "session_inv k' \<and> session_rel k k'"
proof -
  note f = run_command_frame [OF assms(1)]
  obtain v where v: "k_vfs k = Some v" using assms(2) by (auto simp: session_inv_def)
  have vfs: "\<exists>cd. k_vfs k' = Some (v \<lparr> cwd := cd \<rparr>)"
  proof (cases "fs_command c args :: 'm ata_world term_cmd option")
    case None
    with f(8) v show ?thesis by (simp add: same_cwd)
  next
    case (Some cmd)
    then have "run_command pf c name args k = with_vfs (usage_only c args) cmd k"
      by (cases c) (simp_all add: run_command_def fs_command_def)
    with assms(1) v obtain msg v' d' where "cmd v (k_ata k) = Some (msg, v', d')" "k_vfs k' = Some v'"
      by (auto simp: with_vfs_def split: option.splits prod.splits)
    with fs_command_keeps [OF Some] show ?thesis by metis
  qed
  have procs: "unused_slots (k_procs k') \<le> unused_slots (k_procs k)"
  proof (cases "c = C_Run")
    case True
    with assms(1) program_slots show ?thesis by (fastforce simp: run_command_def)
  qed (simp add: f(6))
  have screen: "screen_wf (chars (k_screen k'))"
  proof (cases "c = C_Clear")
    case True
    with assms clear_screen_effect [of "k_screen k"] screen_wf_blank show ?thesis
      by (auto simp: run_command_def session_inv_def)
  qed (use f(7) assms(2) in \<open>simp add: session_inv_def\<close>)
  show ?thesis
    using assms(2) f(1-5) v vfs procs screen by (auto simp: session_inv_def session_rel_def)
qed

lemma process_command_session:
  "process_command pf k = Some (r, k') \<Longrightarrow> session_inv k \<Longrightarrow> session_inv k' \<and> session_rel k k'"
  using session_rel_refl [of k]
  by (auto simp: process_command_def session_inv_def dest: run_command_session split: list.splits)

lemma run_line_session:
  assumes "run_line decode k0 pf l k = Some (r, k')" and "session_inv k"
  shows "session_inv k' \<and> session_rel k k'"
proof -
  obtain q t where t: "read_line decode k0 l (k_queue k) (k_terminal k) = Some (q, t)"
      "process_command pf (k \<lparr> k_queue := q, k_terminal := t \<rparr>) = Some (r, k')"
    using assms(1) by (auto simp: run_line_def split: option.splits)
  have "terminal_inv ((k_terminal k) \<lparr> input_buffer := [] \<rparr>)"
    using assms(2) by (auto simp: session_inv_def terminal_inv_def str_len_def split: option.splits)
  with t(1) assms(2) have "scan_inv q \<and> terminal_inv t"
    unfolding read_line_def session_inv_def by (blast dest: read_loop_inv)
  with process_command_session [OF t(2)] assms(2) show ?thesis
    by (simp add: session_inv_def session_rel_def)
qed

text \<open>Whatever lines are typed, on the keyboard or over the serial port, and whatever commands they give:
  the ring of scan codes, the line buffer, the history with its index and the screen stay within their
  bounds; the volume, the descriptor table and everything the boot found stay as they were, up to the working
  directory; and slots of the process table are only used up.\<close>

theorem session_invariant:
  assumes "session_inv k" and "run_lines decode k0 pf ls k = Some (rs, k')"
  shows "session_inv k' \<and> session_rel k k'"
  using assms
proof (induction ls arbitrary: k rs)
  case Nil
  then show ?case by (auto simp: session_inv_def intro: session_rel_refl)
next
  case (Cons l ls)
  obtain r k1 where l: "run_line decode k0 pf l k = Some (r, k1)"
    using Cons.prems(2) by (cases "run_line decode k0 pf l k") auto
  note s = run_line_session [OF l Cons.prems(1)]
  show ?case
  proof (cases "\<exists>x. r = Halted x")
    case True
    with Cons.prems(2) l s show ?thesis by auto
  next
    case False
    then obtain rs' where "run_lines decode k0 pf ls k1 = Some (rs', k')"
      using Cons.prems(2) l by (cases r) auto
    with Cons.IH s show ?thesis by (blast intro: session_rel_trans)
  qed
qed

theorem session_invariant_witness:
  "\<forall>pf :: pio_disk platform. \<exists>rs k'.
     run_lines (\<lambda>k b. (k, None)) () pf [serial_line (str_bytes ''pwd'')] sample_kernel = Some (rs, k') \<and>
     session_inv k' \<and> session_rel sample_kernel k'"
proof
  fix pf :: "pio_disk platform"
  have w: "word_bytes (str_bytes ''pwd'')" "command_of (map ucast (str_bytes ''pwd'')) = C_Pwd" by code_simp+
  have i: "session_inv sample_kernel"
    using scan_init_inv screen_wf_blank by (simp add: session_inv_def sample_kernel_def terminal_inv_def terminal_new_def str_len_def)
  have "length (str_bytes ''pwd'') \<le> 256" by (simp add: str_bytes_def)
  then obtain t where "run_line (\<lambda>k b. (k, None)) () pf (serial_line (str_bytes ''pwd'')) sample_kernel =
      run_command pf C_Pwd (str_bytes ''pwd'') [] (sample_kernel \<lparr> k_terminal := t \<rparr>)"
    using run_line_words [of sample_kernel "serial_line (str_bytes ''pwd'')" "str_bytes ''pwd''" "[]" "\<lambda>k b. (k, None)" "()" pf]
      serial_line_typed [of "str_bytes ''pwd''"] w scan_init_inv by (auto simp: sample_kernel_def)
  then obtain rs k' where "run_lines (\<lambda>k b. (k, None)) () pf [serial_line (str_bytes ''pwd'')] sample_kernel = Some (rs, k')"
    by (simp add: run_command_def fs_command_def with_vfs_def cmd_pwd_def sample_kernel_def)
  with session_invariant [OF i this] show "\<exists>rs k'.
     run_lines (\<lambda>k b. (k, None)) () pf [serial_line (str_bytes ''pwd'')] sample_kernel = Some (rs, k') \<and>
     session_inv k' \<and> session_rel sample_kernel k'" by blast
qed

end
