(* ===== verification/Idt.thy ===== *)
theory Idt
  imports Segments Timer Fmt
begin

text \<open>
  The interrupt descriptor table and the exception handlers: \<open>kernel/src/arch/idt.rs\<close>. The
  table of the crate x86_64 is a parameter; \<open>idt_law\<close> states its documented behaviour: a handler
  takes the gate of its vector, with privilege level 0 and no stack of its own until these are set. The
  handlers of the hardware interrupts are in \<open>Timer\<close>.
\<close>

section \<open>The table\<close>

datatype int_handler =
  Double_Fault_Handler | Breakpoint_Handler | Page_Fault_Handler | Nmi_Handler | Timer_Handler | Keyboard_Handler
  | Serial_Handler | Syscall_Handler

definition IST_DF :: u16 where "IST_DF = 0"
definition IST_NMI :: u16 where "IST_NMI = 1"

record 't idt_crate =
  idt_new :: 't
  set_handler_fn :: "nat \<Rightarrow> int_handler \<Rightarrow> 't \<Rightarrow> 't"
  set_stack_index :: "nat \<Rightarrow> u16 \<Rightarrow> 't \<Rightarrow> 't"
  set_privilege_level :: "nat \<Rightarrow> u8 \<Rightarrow> 't \<Rightarrow> 't"

text \<open>The named entries of the crate are the vectors of the architecture.\<close>

definition NMI_VECTOR :: nat where "NMI_VECTOR = 2"
definition BREAKPOINT_VECTOR :: nat where "BREAKPOINT_VECTOR = 3"
definition DOUBLE_FAULT_VECTOR :: nat where "DOUBLE_FAULT_VECTOR = 8"
definition PAGE_FAULT_VECTOR :: nat where "PAGE_FAULT_VECTOR = 14"

definition IDT :: "'t idt_crate \<Rightarrow> 't" where
  "IDT C =
     (let idt = idt_new C;
          idt = set_stack_index C DOUBLE_FAULT_VECTOR IST_DF (set_handler_fn C DOUBLE_FAULT_VECTOR Double_Fault_Handler idt);
          idt = set_handler_fn C BREAKPOINT_VECTOR Breakpoint_Handler idt;
          idt = set_handler_fn C PAGE_FAULT_VECTOR Page_Fault_Handler idt;
          idt = set_stack_index C NMI_VECTOR IST_NMI (set_handler_fn C NMI_VECTOR Nmi_Handler idt);
          idt = set_handler_fn C 32 Timer_Handler idt;
          idt = set_handler_fn C 33 Keyboard_Handler idt;
          idt = set_handler_fn C 36 Serial_Handler idt in
      set_privilege_level C 0x80 3 (set_handler_fn C 0x80 Syscall_Handler idt))"

text \<open>\<open>init\<close> loads the register.\<close>

definition idt_init :: "'t idt_crate \<Rightarrow> 't option \<Rightarrow> 't option" where
  "idt_init C register = Some (IDT C)"

section \<open>Exception handlers\<close>

text \<open>What a handler prints on the serial port, and whether it returns. The text of the stack frame, of
  the faulting address and of the error code come from the crate.\<close>

datatype handler_end = Handler_Returns | Handler_Panics bytes

definition breakpoint_handler :: "bytes \<Rightarrow> bytes \<times> handler_end" where
  "breakpoint_handler stack_frame = (str_bytes ''EXCEPTION: BREAKPOINT'' @ [0x0A] @ stack_frame @ [0x0A], Handler_Returns)"

definition double_fault_handler :: "bytes \<Rightarrow> bytes \<times> handler_end" where
  "double_fault_handler stack_frame = ([], Handler_Panics (str_bytes ''EXCEPTION: DOUBLE FAULT'' @ [0x0A] @ stack_frame))"

definition nmi_handler :: "bytes \<Rightarrow> bytes \<times> handler_end" where
  "nmi_handler stack_frame = (str_bytes ''EXCEPTION: NMI'' @ [0x0A] @ stack_frame @ [0x0A], Handler_Returns)"

definition page_fault_handler :: "bytes \<Rightarrow> bytes \<Rightarrow> bytes \<Rightarrow> bytes \<times> handler_end" where
  "page_fault_handler address error_code stack_frame =
     (str_bytes ''EXCEPTION: PAGE FAULT'' @ [0x0A] @
      str_bytes ''Accessed Address: '' @ address @ [0x0A] @
      str_bytes ''Error Code: '' @ error_code @ [0x0A] @ stack_frame @ [0x0A],
      Handler_Panics (str_bytes ''PAGE FAULT''))"

section \<open>What the gates are\<close>

record gate =
  gate_handler :: int_handler
  gate_stack :: "u16 option"
  gate_level :: u8

definition plain_gate :: "int_handler \<Rightarrow> gate" where
  "plain_gate h = \<lparr> gate_handler = h, gate_stack = None, gate_level = 0 \<rparr>"

definition idt_law :: "'t idt_crate \<Rightarrow> ('t \<Rightarrow> nat \<Rightarrow> gate option) \<Rightarrow> bool" where
  "idt_law C gates \<longleftrightarrow> gates (idt_new C) = (\<lambda>_. None) \<and>
     (\<forall>v h t. v < 256 \<longrightarrow> gates (set_handler_fn C v h t) = (gates t)(v \<mapsto> plain_gate h)) \<and>
     (\<forall>v i t. v < 256 \<longrightarrow> gates (set_stack_index C v i t) = (gates t)(v := map_option (gate_stack_update (\<lambda>_. Some i)) (gates t v))) \<and>
     (\<forall>v l t. v < 256 \<longrightarrow> gates (set_privilege_level C v l t) = (gates t)(v := map_option (gate_level_update (\<lambda>_. l)) (gates t v)))"

lemma idt_gates:
  assumes "idt_law C gates"
  shows "gates (IDT C) =
    [8 \<mapsto> \<lparr> gate_handler = Double_Fault_Handler, gate_stack = Some 0, gate_level = 0 \<rparr>,
     3 \<mapsto> plain_gate Breakpoint_Handler, 14 \<mapsto> plain_gate Page_Fault_Handler,
     2 \<mapsto> \<lparr> gate_handler = Nmi_Handler, gate_stack = Some 1, gate_level = 0 \<rparr>,
     32 \<mapsto> plain_gate Timer_Handler, 33 \<mapsto> plain_gate Keyboard_Handler, 36 \<mapsto> plain_gate Serial_Handler,
     128 \<mapsto> \<lparr> gate_handler = Syscall_Handler, gate_stack = None, gate_level = 3 \<rparr>]"
proof -
  have n: "gates (idt_new C) = (\<lambda>_. None)"
    and h: "\<And>v h t. v < 256 \<Longrightarrow> gates (set_handler_fn C v h t) = (gates t)(v \<mapsto> plain_gate h)"
    and i: "\<And>v i t. v < 256 \<Longrightarrow> gates (set_stack_index C v i t) = (gates t)(v := map_option (gate_stack_update (\<lambda>_. Some i)) (gates t v))"
    and l: "\<And>v l t. v < 256 \<Longrightarrow> gates (set_privilege_level C v l t) = (gates t)(v := map_option (gate_level_update (\<lambda>_. l)) (gates t v))"
    using assms unfolding idt_law_def by blast+
  show ?thesis
    by (simp add: IDT_def Let_def n h i l NMI_VECTOR_def BREAKPOINT_VECTOR_def DOUBLE_FAULT_VECTOR_def PAGE_FAULT_VECTOR_def
        IST_DF_def IST_NMI_def plain_gate_def)
qed

text \<open>Programs may only enter through the system call gate; every line that the controller lets through has
  its handler, at the vector its interrupt number stands for; and a stack that a gate asks for is one that
  \<open>gdt::init\<close> has set.\<close>

lemma idt_consistent:
  assumes "idt_law C gates"
  shows "gates (IDT C) v = Some g \<Longrightarrow> gate_level g = 3 \<longleftrightarrow> v = 0x80"
    and "\<not> bit (0xFC :: u8) i \<Longrightarrow> i < 8 \<Longrightarrow> \<exists>h. gates (IDT C) (unat PIC_1_OFFSET + i) = Some (plain_gate h)"
    and "gates (IDT C) (unat (irq_as_u8 Keyboard)) = Some (plain_gate Keyboard_Handler)"
    and "gates (IDT C) (unat (irq_as_u8 Serial1)) = Some (plain_gate Serial_Handler)"
    and "gates (IDT C) v = Some g \<Longrightarrow> gate_stack g = Some k \<Longrightarrow> k < 2"
proof -
  show "gates (IDT C) v = Some g \<Longrightarrow> gate_level g = 3 \<longleftrightarrow> v = 0x80"
    by (auto simp: idt_gates [OF assms] plain_gate_def split: if_splits)
  show "\<exists>h. gates (IDT C) (unat PIC_1_OFFSET + i) = Some (plain_gate h)" if "\<not> bit (0xFC :: u8) i" "i < 8"
  proof -
    have "\<forall>i\<in>set [0..<8]. bit (0xFC :: u8) i \<or> i = 0 \<or> i = 1" by code_simp
    with that have "i = 0 \<or> i = 1" by auto
    then show ?thesis by (auto simp: idt_gates [OF assms] PIC_1_OFFSET_def)
  qed
  show "gates (IDT C) (unat (irq_as_u8 Keyboard)) = Some (plain_gate Keyboard_Handler)"
    "gates (IDT C) (unat (irq_as_u8 Serial1)) = Some (plain_gate Serial_Handler)"
    by (simp_all add: idt_gates [OF assms] PIC_1_OFFSET_def)
  show "gates (IDT C) v = Some g \<Longrightarrow> gate_stack g = Some k \<Longrightarrow> k < 2"
    by (auto simp: idt_gates [OF assms] plain_gate_def split: if_splits)
qed

text \<open>The crate as documented, on maps of gates.\<close>

definition documented_idt :: "(nat \<Rightarrow> gate option) idt_crate" where
  "documented_idt = \<lparr> idt_new = (\<lambda>_. None), set_handler_fn = (\<lambda>v h t. t(v \<mapsto> plain_gate h)),
     set_stack_index = (\<lambda>v i t. t(v := map_option (gate_stack_update (\<lambda>_. Some i)) (t v))),
     set_privilege_level = (\<lambda>v l t. t(v := map_option (gate_level_update (\<lambda>_. l)) (t v))) \<rparr>"

lemma documented_idt_law: "idt_law documented_idt (\<lambda>t. t)"
  by (simp add: idt_law_def documented_idt_def)

end
