(* ===== verification/Boot_Loader.thy ===== *)
theory Boot_Loader
  imports Fmt Process_Context
begin

text \<open>
  The UEFI boot loader: \<open>boot/src/lib.rs\<close>. The boot services of the crate uefi are a parameter
  over a state of the firmware; the loader copies the file to memory, asks for the memory map and
  calls the address the file was copied to.
\<close>

section \<open>The services\<close>

text \<open>Handles of a protocol, an opened file system, a directory and a file are values of the
  firmware. Every call may fail. The console can panic the loader.\<close>

record ('s, 'h, 'v, 'd, 'f) uefi_services =
  stdout_clear :: "'s \<Rightarrow> 's option"
  stdout_write :: "bytes \<Rightarrow> 's \<Rightarrow> 's option"
  get_handle_for_protocol :: "'s \<Rightarrow> 'h option \<times> 's"
  open_protocol_exclusive :: "'h \<Rightarrow> 's \<Rightarrow> 'v option \<times> 's"
  open_volume :: "'v \<Rightarrow> 's \<Rightarrow> 'd option \<times> 's"
  open_file :: "'d \<Rightarrow> bytes \<Rightarrow> 's \<Rightarrow> 'f option \<times> 's"
  get_file_size :: "'f \<Rightarrow> nat \<Rightarrow> 's \<Rightarrow> u64 option \<times> 's"
  read_file :: "'f \<Rightarrow> bytes \<Rightarrow> 's \<Rightarrow> bytes option \<times> 's"
  allocate_pages :: "u64 \<Rightarrow> nat \<Rightarrow> 's \<Rightarrow> bool \<times> 's"
  exit_boot_services :: "'s \<Rightarrow> (u64 \<times> u64) list \<times> 's"

text \<open>The operator \<open>?\<close> after \<open>ok()\<close>.\<close>

definition ok_then :: "('s \<Rightarrow> 'a option \<times> 's) \<Rightarrow> ('a \<Rightarrow> 's \<Rightarrow> 'b option \<times> 's) \<Rightarrow> 's \<Rightarrow> 'b option \<times> 's" where
  "ok_then f g s = (case f s of (None, s) \<Rightarrow> (None, s) | (Some x, s) \<Rightarrow> g x s)"

definition KERNEL_PATH :: bytes where
  "KERNEL_PATH = [0x5C] @ str_bytes ''EFI'' @ [0x5C] @ str_bytes ''Arcadia'' @ [0x5C] @ str_bytes ''kernel.elf''"

definition load_path :: bytes where
  "load_path = str_bytes '' '' @ [0x5C] @ str_bytes '' E F I '' @ [0x5C] @ str_bytes '' A r c a d i a '' @ [0x5C] @
     str_bytes '' k e r n e l . e l f''"

definition load_kernel :: "('s, 'h, 'v, 'd, 'f) uefi_services \<Rightarrow> 's \<Rightarrow> bytes option \<times> 's" where
  "load_kernel U =
     ok_then (get_handle_for_protocol U) (\<lambda>handle.
     ok_then (open_protocol_exclusive U handle) (\<lambda>fs.
     ok_then (open_volume U fs) (\<lambda>root_dir.
     ok_then (open_file U root_dir load_path) (\<lambda>file.
     ok_then (get_file_size U file 512) (\<lambda>file_size.
     read_file U file (replicate (unat file_size) 0))))))"

section \<open>The entry\<close>

definition KERNEL_START :: u64 where "KERNEL_START = 0x100000"

definition copy_bytes :: "u64 \<Rightarrow> bytes \<Rightarrow> phys_bytes \<Rightarrow> phys_bytes" where
  "copy_bytes dest data mem = fold (\<lambda>i m. m(dest + of_nat i := data ! i)) [0..<length data] mem"

definition loader_total_memory :: "(u64 \<times> u64) list \<Rightarrow> u64" where
  "loader_total_memory entries =
     fold (\<lambda>(phys_start, page_count) total. let end = phys_start + page_count * 0x1000 in if total < end then end else total) entries 0"

datatype loader_end = Loader_Panics | Load_Error | Enters u64 u64 u64

definition writeln_to :: "('s, 'h, 'v, 'd, 'f) uefi_services \<Rightarrow> bytes \<Rightarrow> 's \<Rightarrow> 's option" where
  "writeln_to U s = stdout_write U (s @ [0x0A])"

definition efi_main :: "('s, 'h, 'v, 'd, 'f) uefi_services \<Rightarrow> phys_bytes \<Rightarrow> 's \<Rightarrow> loader_end \<times> phys_bytes" where
  "efi_main U mem s =
     (case Option.bind (stdout_clear U s) (\<lambda>s. Option.bind (writeln_to U (str_bytes ''Arcadia Bootloader'') s)
            (writeln_to U (str_bytes ''Loading kernel...''))) of
        None \<Rightarrow> (Loader_Panics, mem)
      | Some s \<Rightarrow>
          (case load_kernel U s of
             (None, s) \<Rightarrow>
               (case writeln_to U (str_bytes ''ERROR: Failed to load kernel'') s of
                  None \<Rightarrow> (Loader_Panics, mem) | Some s \<Rightarrow> (Load_Error, mem))
           | (Some kernel_data, s) \<Rightarrow>
               (case writeln_to U (str_bytes ''Kernel loaded: '' @ fmt_dec (length kernel_data) @ str_bytes '' bytes'') s of
                  None \<Rightarrow> (Loader_Panics, mem)
                | Some s \<Rightarrow>
                    let kernel_size_pages = (length kernel_data + 0xFFF) div 0x1000;
                        (_, s) = allocate_pages U KERNEL_START kernel_size_pages s;
                        mem = copy_bytes KERNEL_START kernel_data mem in
                    (case Option.bind (writeln_to U (str_bytes ''Kernel at 0x'' @ fmt_hex 0 (unat KERNEL_START)) s)
                           (writeln_to U (str_bytes ''Exiting boot services...'')) of
                       None \<Rightarrow> (Loader_Panics, mem)
                     | Some s \<Rightarrow>
                         (case exit_boot_services U s of (entries, s) \<Rightarrow>
                            (Enters KERNEL_START 0 (loader_total_memory entries), mem))))))"

section \<open>What it does\<close>

lemma copy_bytes_at:
  assumes "length data \<le> 2 ^ 32" and "i < length data"
  shows "copy_bytes KERNEL_START data mem (KERNEL_START + of_nat i) = data ! i"
proof -
  have inj: "KERNEL_START + of_nat a = KERNEL_START + (of_nat b :: u64) \<longleftrightarrow> a = b" if "a < length data" "b < length data" for a b
  proof -
    have "(of_nat a :: u64) = of_nat b \<longleftrightarrow> a = b"
      using that assms(1) by (auto simp: word_unat_eq_iff unat_of_nat take_bit_nat_eq_self)
    then show ?thesis by simp
  qed
  have "fold (\<lambda>i m. m(KERNEL_START + of_nat i := data ! i)) [0..<n] mem (KERNEL_START + of_nat i) =
      (if i < n then data ! i else mem (KERNEL_START + of_nat i))" if "n \<le> length data" for n
    using that
  proof (induction n)
    case (Suc n)
    with inj [of n i] assms(2) show ?case by (auto simp: less_Suc_eq)
  qed simp
  with assms(2) show ?thesis by (simp add: copy_bytes_def)
qed

text \<open>The kernel is entered at the first byte of the file, whatever the file is: for an ELF file that is the
  magic number, and its entry point is never looked at.\<close>

lemma efi_main_enters:
  assumes "efi_main U mem s = (Enters entry arg0 arg1, mem')"
  obtains data s1 s2 where "load_kernel U s1 = (Some data, s2)" "entry = 0x100000" "arg0 = 0" "mem' = copy_bytes 0x100000 data mem"
proof -
  obtain data s1 s2 where "load_kernel U s1 = (Some data, s2)" "entry = 0x100000 \<and> arg0 = 0 \<and> mem' = copy_bytes 0x100000 data mem"
    using assms by (auto simp: efi_main_def Let_def KERNEL_START_def split: option.splits prod.splits)
  with that show thesis by blast
qed

lemma elf_header_executed:
  assumes "efi_main U mem s = (Enters entry arg0 arg1, mem')" and "\<And>s1 data s2. load_kernel U s1 = (Some data, s2) \<Longrightarrow>
      length data \<le> 2 ^ 32 \<and> take 4 data = [0x7F, 0x45, 0x4C, 0x46]"
  shows "map (\<lambda>i. mem' (entry + of_nat i)) [0..<4] = [0x7F, 0x45, 0x4C, 0x46]"
proof -
  obtain data s1 s2 where d: "load_kernel U s1 = (Some data, s2)" "entry = 0x100000" "mem' = copy_bytes 0x100000 data mem"
    by (rule efi_main_enters [OF assms(1)])
  note a = assms(2) [OF d(1)]
  have "length (take 4 data) = 4" unfolding conjunct2 [OF a] by simp
  then have len: "4 \<le> length data" by simp
  have m: "mem' (entry + of_nat i) = data ! i" if "i < 4" for i
    using copy_bytes_at [of data i mem] a len that unfolding d by (simp add: KERNEL_START_def)
  have "map (\<lambda>i. mem' (entry + of_nat i)) [0..<4] = take 4 data"
    using len by (intro nth_equalityI) (simp_all add: m del: of_nat_numeral upt_rec_numeral)
  then show ?thesis using a by simp
qed

text \<open>The path that is opened is not the documented one: it has a space before every character.\<close>

lemma load_path_spaced: "load_path = concat (map (\<lambda>b. [0x20, b]) KERNEL_PATH)" "load_path \<noteq> KERNEL_PATH"
  by code_simp+

text \<open>The size of memory is the largest end of an entry.\<close>

lemma total_memory_max:
  "loader_total_memory entries = foldl max 0 (map (\<lambda>(s, n). s + n * 0x1000) entries)"
proof -
  have "fold (\<lambda>(s, n) total. let end = s + n * 0x1000 in if total < end then end else total) entries a =
      foldl max a (map (\<lambda>(s, n). s + n * 0x1000) entries)" for a :: u64
    by (induction entries arbitrary: a) (auto simp: Let_def max_def intro: arg_cong2 [where f = "foldl _"])
  then show ?thesis by (simp add: loader_total_memory_def)
qed

end
