(* ===== verification/Kernel_Main.thy ===== *)
theory Kernel_Main
  imports Boot Pci Idt Kernel_Session
begin

text \<open>
  The kernel entry \<open>arcadia_kernel_main\<close> (\<open>kernel/src/arch/boot_entry.rs\<close>): the phases of the
  boot in their order, from the first byte on the serial port to the terminal, on one machine
  state. A panic is the result \<open>None\<close>. The heap of the crate linked_list_allocator has no model, and no interrupt is taken before the
  terminal starts.
\<close>

section \<open>What the entry works on\<close>

record ('m, 't, 'i) machine_env =
  env_ports :: "'m port_io"
  env_ports32 :: "'m port32"
  env_pics :: "'m pics"
  env_crate :: x86_crate
  env_mapper :: page_mapper
  env_gdt :: "'t gdt_crate"
  env_idt :: "'i idt_crate"
  env_cpuid :: cpuid
  env_mem :: phys_bytes
  env_cr3 :: u64
  env_bitmap :: "u8 list"

text \<open>The registers of the processor at the entry, and the text memory.\<close>

record ('m, 't, 'i) boot_state =
  bs_machine :: 'm
  bs_vga :: "nat \<Rightarrow> u8"
  bs_segments :: "'t cpu_segments"
  bs_idt :: "'i option"
  bs_interrupts :: bool

section \<open>Text memory\<close>

definition vga_clear :: "(nat \<Rightarrow> u8) \<Rightarrow> (nat \<Rightarrow> u8)" where
  "vga_clear v = fold (\<lambda>i v. v(i := (if i mod 2 = 0 then 0x20 else 0x07))) [0..<80 * 25 * 2] v"

definition vga_header :: "(nat \<Rightarrow> u8) \<Rightarrow> (nat \<Rightarrow> u8)" where
  "vga_header v = fold (\<lambda>i v. v(i * 2 := str_bytes BANNER_VERSION ! i, i * 2 + 1 := 0x0B)) [0..<length (str_bytes BANNER_VERSION)] v"

text \<open>The same memory as the console reads it.\<close>

definition vga_cells :: "(nat \<Rightarrow> u8) \<Rightarrow> ScreenChar list list" where
  "vga_cells v = map (\<lambda>r. map (\<lambda>c. \<lparr> ascii_character = v ((r * 80 + c) * 2), cell_color = v ((r * 80 + c) * 2 + 1) \<rparr>) [0..<80]) [0..<25]"

section \<open>The phases\<close>

definition early_serial_init :: "'m port_io \<Rightarrow> 'm \<Rightarrow> 'm" where
  "early_serial_init P m =
     fold (\<lambda>(p, v). outb P p v) [(0x3FB, 0x80), (0x3F8, 0x03), (0x3F9, 0x00), (0x3FB, 0x03), (0x3FC, 0x00), (0x3F9, 0x00)] m"

definition boot_banner :: "'m port_io \<Rightarrow> 'm \<Rightarrow> 'm" where
  "boot_banner P m =
     fold (early_serial_print P)
       [crlf, str_bytes ''========================================'' @ crlf, str_bytes ''  '', str_bytes BANNER_VERSION, crlf,
        str_bytes ''  Kernel: '', str_bytes KERNEL_NAME, crlf, str_bytes ''  Arch:  '', str_bytes ARCH, str_bytes '' '' @ crlf,
        str_bytes ''========================================'' @ crlf, crlf] m"

definition pci_line :: "PciDevice \<Rightarrow> bytes" where
  "pci_line d =
     str_bytes ''  PCI '' @ fmt_hex 2 (unat (pci_bus d)) @ str_bytes '':'' @ fmt_hex 2 (unat (pci_device d)) @ str_bytes ''.'' @
     fmt_dec (unat (pci_function d)) @ str_bytes '' - Vendor: 0x'' @ fmt_hex 4 (unat (vendor_id d)) @ str_bytes '' Device: 0x'' @
     fmt_hex 4 (unat (device_id d)) @ str_bytes '' Class: '' @ fmt_hex 2 (unat (pci_class d)) @ str_bytes '':'' @
     fmt_hex 2 (unat (pci_subclass d)) @ crlf"

definition report_pci :: "'m port_io \<Rightarrow> PciDevice list \<Rightarrow> 'm \<Rightarrow> 'm" where
  "report_pci P devices m =
     (if 0 < length devices then
        fold (\<lambda>d. early_serial_print P (pci_line d)) devices
          (early_serial_print P (str_bytes ''[BOOT] Found '' @ fmt_dec (length devices) @ str_bytes '' PCI device(s)'' @ crlf) m)
      else early_serial_print P (str_bytes ''[BOOT] No PCI devices found'' @ crlf) m)"

definition boot_storage :: "'m port_io \<Rightarrow> 'm \<Rightarrow> 'm ata_world" where
  "boot_storage P m =
     (case init_ata_driver P \<lparr> ATA = None, machine = m \<rparr> of
        (Inr _, w) \<Rightarrow> w \<lparr> machine := early_serial_print P (str_bytes ''[BOOT] ATA driver initialized.'' @ crlf) (machine w) \<rparr>
      | (Inl e, w) \<Rightarrow> w \<lparr> machine := fold (early_serial_print P)
          [str_bytes ''[BOOT] ATA: '', str_bytes (driver_error_str e), str_bytes '' (no disk)'' @ crlf] (machine w) \<rparr>)"

definition progress :: "('m, 't, 'i) machine_env \<Rightarrow> string \<Rightarrow> u8 \<Rightarrow> ('m, 't, 'i) boot_state \<Rightarrow> ('m, 't, 'i) boot_state" where
  "progress E phase pct s =
     (case boot_progress (env_ports E) True True (str_bytes phase) pct (bs_machine s, bs_vga s) of
        (m, v) \<Rightarrow> s \<lparr> bs_machine := m, bs_vga := v \<rparr>)"

text \<open>The first phase, up to the memory managers.\<close>

definition boot_early :: "('m, 't, 'i) machine_env \<Rightarrow> ('m, 't, 'i) boot_state \<Rightarrow> ('m, 't, 'i) boot_state" where
  "boot_early E s =
     s \<lparr> bs_machine := boot_banner (env_ports E) (early_serial_init (env_ports E) (bs_machine s)),
         bs_vga := vga_header (vga_clear (bs_vga s)) \<rparr>"

text \<open>The processor tables and the interrupt controller; \<open>None\<close> is a panic of \<open>VirtAddr::new\<close>.\<close>

definition boot_cpu ::
  "('m, 't, 'i) machine_env \<Rightarrow> ('m, 't, 'i) boot_state \<Rightarrow> ('m timer \<times> ('m, 't, 'i) boot_state) option" where
  "boot_cpu E s =
     (case gdt_init (env_gdt E) (env_crate E) (bs_segments s) of
        None \<Rightarrow> None
      | Some seg \<Rightarrow>
          let s = progress E ''CPU'' 40 (s \<lparr> bs_segments := seg \<rparr>);
              s = progress E ''Interrupts'' 55 (s \<lparr> bs_idt := idt_init (env_idt E) (bs_idt s) \<rparr>);
              (t, on) = interrupts_init (env_ports E) (env_pics E) (timer_boot (bs_machine s), bs_interrupts s) in
          Some (t, progress E ''Interrupts'' 65 (s \<lparr> bs_machine := timer_ports t, bs_interrupts := on \<rparr>)))"

definition boot_process_world :: "('m, 't, 'i) machine_env \<Rightarrow> pmm_global \<Rightarrow> proc_world" where
  "boot_process_world E pmm =
     \<lparr> w_mem = env_mem E, w_pmm = pmm, w_procs = initial_table, CURRENT_PID = 0, KERNEL_PML4_PHYS = 0, SHELL_RSP = 0,
       EXIT_REQUESTED = False, EXIT_CODE = 0, w_cr3 = env_cr3 E, w_rsp0 = 0, w_serial = [] \<rparr>"

text \<open>The devices, the file system and the terminal. The first use of the console clears the screen, and
  then the call does.\<close>

definition boot_devices :: "('m, 't, 'i) machine_env \<Rightarrow> ('m, 't, 'i) boot_state \<Rightarrow> 'm ata_world \<times> ('m, 't, 'i) boot_state" where
  "boot_devices E s =
     (case scan_pci_bus (env_ports32 E) (bs_machine s) of (devices, m) \<Rightarrow>
        let s = progress E ''PCI'' 75 (s \<lparr> bs_machine := m \<rparr>);
            m = report_pci (env_ports E) devices (bs_machine s);
            s = progress E ''Storage'' 85 (s \<lparr> bs_machine := m \<rparr>);
            w = boot_storage (env_ports E) (bs_machine s) in
        (w, s))"

definition boot_screen :: "(nat \<Rightarrow> u8) \<Rightarrow> Writer option" where
  "boot_screen v =
     (case WRITER (vga_cells v) of
        (Inl _, w) \<Rightarrow> None
      | (Inr _, w) \<Rightarrow> (case clear_screen w of (Inr _, w) \<Rightarrow> Some w | (Inl _, w) \<Rightarrow> None))"

text \<open>The phases up to the devices: the memory managers, the system information, the timer and the ATA driver
  with its machine.\<close>

definition kernel_devices ::
  "('m, 't, 'i) machine_env \<Rightarrow> u64 \<Rightarrow> ('m, 't, 'i) boot_state \<Rightarrow>
     (pmm_global \<times> VirtualMemoryManager \<times> sysinfo_globals \<times> 'm timer \<times> 'm ata_world \<times> ('m, 't, 'i) boot_state) option" where
  "kernel_devices E hvm_info_paddr s =
     (let s = progress E ''Memory'' 15 (boot_early E s) in
      case boot_memory (env_ports E) (env_crate E) (env_mapper E) (env_mem E) (env_cr3 E) (env_bitmap E) (env_cpuid E)
             hvm_info_paddr (bs_machine s) of
        None \<Rightarrow> None
      | Some ((pmm, vmm), m) \<Rightarrow>
          let s = progress E ''Memory'' 25 (s \<lparr> bs_machine := m \<rparr>);
              s = progress E ''System Info'' 28 s;
              info = sysinfo_init (env_cpuid E) (detect_total_memory (env_cpuid E))
                \<lparr> CPU_INFO = None, MEMORY_INFO = None, SYSTEM_INFO = None \<rparr>;
              s = progress E ''System Info'' 30 s in
          case boot_cpu E s of
            None \<Rightarrow> None
          | Some (t, s) \<Rightarrow> (case boot_devices E s of (w, s) \<Rightarrow> Some (pmm, vmm, info, t, w, s)))"

definition kernel_main ::
  "('m, 't, 'i) machine_env \<Rightarrow> u64 \<Rightarrow> ('m, 't, 'i) boot_state \<Rightarrow> ('m kernel \<times> ('m, 't, 'i) boot_state) option" where
  "kernel_main E hvm_info_paddr s =
     (case kernel_devices E hvm_info_paddr s of
        None \<Rightarrow> None
      | Some (pmm, vmm, info, t, w, s) \<Rightarrow>
          (case init_vfs (ata_block_dev (env_ports E) abd_primary_master) w of
             None \<Rightarrow> None
           | Some (vfs, w) \<Rightarrow>
               let s = progress E ''ArcShell'' 95 (s \<lparr> bs_machine := machine w \<rparr>) in
               case boot_screen (bs_vga s) of
                 None \<Rightarrow> None
               | Some screen \<Rightarrow>
                   let m = fold (early_serial_print (env_ports E)) [str_bytes ''[BOOT] Arcadia OS ready.'' @ crlf, crlf] (bs_machine s) in
                   Some (\<lparr> k_terminal = terminal_new, k_queue = scan_init, k_vfs = Some vfs, k_ata = w \<lparr> machine := m \<rparr>,
                       k_procs = boot_process_world E pmm, k_vmm = Some vmm, k_sysinfo = info, k_timer = t,
                       k_screen = screen \<rparr>, s \<lparr> bs_machine := m \<rparr>)))"

section \<open>What the boot leaves\<close>

lemma screen_wf_cells: "screen_wf (vga_cells v)"
  by (auto simp: screen_wf_def vga_cells_def simp del: upt_rec_numeral)

lemma boot_screen_blank:
  "\<exists>w. boot_screen v = Some w \<and> column_position w = 0 \<and>
     chars w = replicate 25 (replicate 80 (blank_cell (ColorCode_new LightGreen Black)))"
proof -
  let ?c = "ColorCode_new LightGreen Black"
  let ?blank = "replicate 25 (replicate 80 (blank_cell ?c))"
  have 1: "WRITER (vga_cells v) = (Inr (), \<lparr> column_position = 0, color_code = ?c, chars = ?blank \<rparr>)"
    unfolding WRITER_def by (subst clear_screen_effect) (simp_all add: screen_wf_cells)
  have "screen_wf ?blank" by (rule screen_wf_blank)
  then show ?thesis
    using clear_screen_effect [of "\<lparr> column_position = 0, color_code = ?c, chars = ?blank \<rparr>"]
    by (simp add: boot_screen_def 1)
qed

lemma progress_keeps [simp]:
  "bs_segments (progress E p n s) = bs_segments s" "bs_idt (progress E p n s) = bs_idt s"
  "bs_interrupts (progress E p n s) = bs_interrupts s"
  by (simp_all add: progress_def split: prod.split)

lemma boot_cpu_effect:
  assumes "gdt_law (env_gdt E) slots" and "x86_law (env_crate E)" and "TSS (bs_segments s) = TSS_new"
  shows "\<exists>t s'. boot_cpu E s = Some (t, s') \<and>
    take 2 (interrupt_stack_table (TSS (bs_segments s'))) = [0x65000, 0x6A000] \<and> reg_cs (bs_segments s') = 0x08 \<and>
    task_register (bs_segments s') = 0x18 \<and> bs_idt s' = Some (IDT (env_idt E)) \<and> bs_interrupts s' \<and> TICK_COUNT t = 0"
proof -
  obtain seg where g: "gdt_init (env_gdt E) (env_crate E) (bs_segments s) = Some seg"
      "take 2 (interrupt_stack_table (TSS seg)) = [0x65000, 0x6A000]" "reg_cs seg = 0x08" "task_register seg = 0x18"
    by (rule gdt_init_effect [OF assms])
  show ?thesis
    by (simp add: boot_cpu_def g interrupts_init_def idt_init_def time_init_def timer_boot_def Let_def)
qed

lemma devices_keep: "boot_devices E s = (w, s') \<Longrightarrow>
    bs_segments s' = bs_segments s \<and> bs_idt s' = bs_idt s \<and> bs_interrupts s' = bs_interrupts s"
  by (auto simp: boot_devices_def Let_def split: prod.splits)

lemma kernel_devices_outcome:
  assumes "gdt_law (env_gdt E) slots" and "x86_law (env_crate E)" and "TSS (bs_segments s) = TSS_new"
    and m: "m0 = bs_machine (progress E ''Memory'' 15 (boot_early E s))"
    and b: "boot_memory (env_ports E) (env_crate E) (env_mapper E) (env_mem E) (env_cr3 E) (env_bitmap E) (env_cpuid E) hvm m0 =
      Some ((pmm, vmm), m1)"
  shows "\<exists>info t w s'. kernel_devices E hvm s = Some (pmm, vmm, info, t, w, s') \<and> sysinfo_is_initialized info \<and> TICK_COUNT t = 0 \<and>
    take 2 (interrupt_stack_table (TSS (bs_segments s'))) = [0x65000, 0x6A000] \<and>
    bs_idt s' = Some (IDT (env_idt E)) \<and> bs_interrupts s'"
proof -
  let ?s1 = "progress E ''Memory'' 15 (boot_early E s)"
  let ?s2 = "progress E ''System Info'' 30 (progress E ''System Info'' 28 (progress E ''Memory'' 25 (?s1 \<lparr> bs_machine := m1 \<rparr>)))"
  have "TSS (bs_segments ?s2) = TSS_new" using assms(3) by (simp add: boot_early_def)
  from boot_cpu_effect [OF assms(1,2) this] obtain t s3 where c: "boot_cpu E ?s2 = Some (t, s3)"
      "take 2 (interrupt_stack_table (TSS (bs_segments s3))) = [0x65000, 0x6A000]"
      "bs_idt s3 = Some (IDT (env_idt E))" "bs_interrupts s3" "TICK_COUNT t = 0" by blast
  obtain w s4 where d: "boot_devices E s3 = (w, s4)" by fastforce
  show ?thesis
    using devices_keep [OF d] c(2-5)
    by (simp add: kernel_devices_def Let_def b [unfolded m] c(1) d sysinfo_init_def
        sysinfo_is_initialized_def cpu_is_initialized_def cpu_init_def mi_is_initialized_def mi_init_def)
qed

lemma kernel_main_None: "kernel_devices E hvm s = None \<Longrightarrow> kernel_main E hvm s = None"
  by (simp add: kernel_main_def)

lemma kernel_devices_panics:
  "boot_memory (env_ports E) (env_crate E) (env_mapper E) (env_mem E) (env_cr3 E) (env_bitmap E) (env_cpuid E) hvm
     (bs_machine (progress E ''Memory'' 15 (boot_early E s))) = None \<Longrightarrow> kernel_devices E hvm s = None"
  by (simp add: kernel_devices_def Let_def)

text \<open>The rest of the boot: it panics in the message about the volume, or ends in the terminal.\<close>

lemma kernel_main_outcome:
  assumes "kernel_devices E hvm s = Some (pmm, vmm, info, t, w, s4)"
  shows "case init_vfs (ata_block_dev (env_ports E) abd_primary_master) w of
      None \<Rightarrow> kernel_main E hvm s = None
    | Some (v, w') \<Rightarrow> \<exists>k s'. kernel_main E hvm s = Some (k, s') \<and>
        w_pmm (k_procs k) = pmm \<and> k_vmm k = Some vmm \<and> w_procs (k_procs k) = initial_table \<and>
        k_terminal k = terminal_new \<and> k_queue k = scan_init \<and> k_vfs k = Some v \<and> ATA (k_ata k) = ATA w' \<and>
        k_sysinfo k = info \<and> k_timer k = t \<and>
        chars (k_screen k) = replicate 25 (replicate 80 (blank_cell (ColorCode_new LightGreen Black))) \<and>
        bs_segments s' = bs_segments s4 \<and> bs_idt s' = bs_idt s4 \<and> bs_interrupts s' = bs_interrupts s4"
proof (cases "init_vfs (ata_block_dev (env_ports E) abd_primary_master) w")
  case None
  then show ?thesis by (simp add: kernel_main_def assms)
next
  case (Some vw)
  obtain v w' where f: "vw = (v, w')" by fastforce
  let ?s5 = "progress E ''ArcShell'' 95 (s4 \<lparr> bs_machine := machine w' \<rparr>)"
  obtain screen where sc: "boot_screen (bs_vga ?s5) = Some screen"
      "chars screen = replicate 25 (replicate 80 (blank_cell (ColorCode_new LightGreen Black)))"
    using boot_screen_blank by blast
  show ?thesis
    using sc(2) by (simp add: kernel_main_def Let_def assms Some f sc(1) boot_process_world_def)
qed

lemma booted_session:
  assumes "k_terminal k = terminal_new" "k_queue k = scan_init" "k_vfs k = Some v"
    "chars (k_screen k) = replicate 25 (replicate 80 c)"
  shows "session_inv k"
  using assms scan_init_inv screen_wf_blank
  by (simp add: session_inv_def terminal_inv_def terminal_new_def str_len_def)

section \<open>Properties\<close>


text \<open>A machine without a memory map and without devices.\<close>

definition sample_env :: "(bytes, gdt_slot list, nat \<Rightarrow> gate option) machine_env" where
  "sample_env = \<lparr> env_ports = slow_port, env_ports32 = \<lparr> inl = (\<lambda>_ m. (0xFFFFFFFF, m)), outl = (\<lambda>_ _ m. m) \<rparr>,
     env_pics = \<lparr> pics_initialize = (\<lambda>_ _ m. m), notify_end_of_interrupt = (\<lambda>_ _ _ m. m) \<rparr>,
     env_crate = documented_crate, env_mapper = one_mapper, env_gdt = documented_gdt, env_idt = documented_idt,
     env_cpuid = (\<lambda>_. \<lparr> cpuid_eax = 0, cpuid_ebx = 0, cpuid_ecx = 0, cpuid_edx = 0 \<rparr>), env_mem = one_mem, env_cr3 = 0x1000,
     env_bitmap = replicate BITMAP_SIZE 0 \<rparr>"

definition sample_boot :: "(bytes, gdt_slot list, nat \<Rightarrow> gate option) boot_state" where
  "sample_boot = \<lparr> bs_machine = [], bs_vga = (\<lambda>_. 0),
     bs_segments = \<lparr> TSS = TSS_new, gdt_register = None, reg_cs = 0, reg_ds = 0, task_register = 0 \<rparr>, bs_idt = None,
     bs_interrupts = False \<rparr>"

lemma sample_no_drive: "kernel_devices sample_env 0 sample_boot = Some (pmm, vmm, info, t, w, s1) \<Longrightarrow> ATA w = None"
proof -
  have "fst (probe_device slow_port ch sl m) = AtaDeviceInfo_new" for ch sl m
    by (simp add: probe_device_def read_reg_def Let_def, simp add: slow_port_def)
  then have "\<exists>m'. probe_device slow_port ch sl m = (AtaDeviceInfo_new, m')" for ch sl m
    by (metis prod.collapse)
  then obtain f where f: "\<And>ch sl m. probe_device slow_port ch sl m = (AtaDeviceInfo_new, f ch sl m)" by metis
  have "ATA (boot_storage slow_port m) = None" for m
    by (simp add: boot_storage_def init_ata_driver_def ata_init_def probe_all_def f AtaDeviceInfo_new_def Let_def)
  then show "kernel_devices sample_env 0 sample_boot = Some (pmm, vmm, info, t, w, s1) \<Longrightarrow> ATA w = None"
    by (auto simp: kernel_devices_def boot_devices_def Let_def sample_env_def split: option.splits prod.splits)
qed


end
