(* ===== verification/Ata_Identify.thy ===== *)
theory Ata_Identify
  imports Ata_Protocol
begin

text \<open>
  The detection of drives. The locale \<open>ident_drive\<close> extends the protocol by the
  identification of a drive, which is alone on its channel, and by the reset of the channel;
  \<open>lone_drive\<close> adds that other ports leave the drive alone. How long a drive stays busy after a reset is a
  parameter of the locale, \<open>settle\<close>, counted in looks at its status. The protocol sets no such limit; the
  driver looks four times and goes on. When that is enough, \<open>init_ata_driver\<close> finds the drive and leaves
  it ready for transfers; a drive that needs longer than the eight looks before the command is not found
  (\<open>slow_drive_not_listed\<close>).
\<close>

section \<open>Identification\<close>

text \<open>What the words of an identity say.\<close>

definition identity_info :: "u16 list \<Rightarrow> AtaDeviceInfo" where
  "identity_info ident =
     \<lparr> present = True, is_ata = True, sectors_28 = push_bit 16 (ucast (ident ! 61)) OR ucast (ident ! 60),
       lba48 = (ident ! 83 AND push_bit 10 1 \<noteq> 0), model = extract_string ident 27 46,
       serial = extract_string ident 10 19, firmware = extract_string ident 23 26 \<rparr>"

text \<open>Two words make the number of sectors, the low one first.\<close>

lemma identity_sectors: "unat (push_bit 16 (ucast hi) OR ucast lo :: u32) = unat hi * 65536 + unat lo" for hi lo :: u16
proof -
  have n: "unat hi < 2 ^ 16" "unat lo < 2 ^ 16" using unsigned_less [of hi] unsigned_less [of lo] by simp_all
  have h: "push_bit 16 (ucast hi :: u32) = of_nat (unat hi * 65536)" "(ucast lo :: u32) = of_nat (unat lo)"
    by (simp_all add: push_bit_eq_mult mult.commute)
  have "push_bit 16 (ucast hi :: u32) AND ucast lo = 0"
    by (rule bit_eqI) (auto simp: bit_simps dest: bit_imp_le_length)
  with word_plus_and_or [of "push_bit 16 (ucast hi :: u32)" "ucast lo"]
  have "push_bit 16 (ucast hi :: u32) OR ucast lo = push_bit 16 (ucast hi) + ucast lo" by (simp only: add_0)
  then have "push_bit 16 (ucast hi :: u32) OR ucast lo = of_nat (unat hi * 65536 + unat lo)"
    by (simp only: h of_nat_add)
  moreover have "unat (of_nat (unat hi * 65536 + unat lo) :: u32) = unat hi * 65536 + unat lo"
    unfolding unat_of_nat by (rule mod_less) (use n in simp)
  ultimately show ?thesis by (simp only:)
qed

locale ident_drive = pio_drive P ch slave phase tf delay sec cap hw
  for P :: "'m port_io" and ch slave phase tf delay sec cap hw +
  fixes ident :: "u16 list" and settle :: nat
  assumes ident_length: "length ident = 256"
    and cmd_identify: "hw m \<Longrightarrow> phase m = Pio_Idle \<Longrightarrow> delay m = 0 \<Longrightarrow> bit (tf m 6) 4 = slave \<Longrightarrow>
      m' = outb P (base_port ch + 7) 0xEC m \<Longrightarrow>
      hw m' \<and> phase m' = Pio_Identify 0 \<and> delay m' < 100000 \<and> sec m' = sec m"
    and signature: "hw m \<Longrightarrow> phase m = Pio_Identify i \<Longrightarrow> delay m = 0 \<Longrightarrow> off \<in> {4, 5} \<Longrightarrow>
      (v, m') = inb P (base_port ch + off) m \<Longrightarrow>
      v = 0 \<and> hw m' \<and> phase m' = Pio_Identify i \<and> delay m' = 0 \<and> sec m' = sec m"
    and ident_in: "hw m \<Longrightarrow> phase m = Pio_Identify i \<Longrightarrow> i < 256 \<Longrightarrow> delay m = 0 \<Longrightarrow>
      (w, m') = inw P (base_port ch) m \<Longrightarrow>
      w = ident ! i \<and> hw m' \<and> sec m' = sec m \<and>
      (if i = 255 then phase m' = Pio_Idle \<and> delay m' < 100000
       else phase m' = Pio_Identify (Suc i) \<and> delay m' = 0)"
    and ident_other: "hw m \<Longrightarrow> phase m = Pio_Idle \<Longrightarrow> delay m = 0 \<Longrightarrow> bit (tf m 6) 4 \<noteq> slave \<Longrightarrow>
      m' = outb P (base_port ch + 7) 0xEC m \<Longrightarrow>
      hw m' \<and> phase m' = Pio_Idle \<and> delay m' = 0 \<and> tf m' = tf m \<and> sec m' = sec m"
    and status_other: "hw m \<Longrightarrow> phase m = Pio_Idle \<Longrightarrow> delay m = 0 \<Longrightarrow> bit (tf m 6) 4 \<noteq> slave \<Longrightarrow>
      fst (inb P (base_port ch + 7) m) = 0"
    and reset: "hw m \<Longrightarrow> phase m = Pio_Idle \<Longrightarrow> delay m = 0 \<Longrightarrow> v \<in> {0x04, 0x00} \<Longrightarrow>
      m' = outb P (control_port ch) v m \<Longrightarrow> hw m' \<and> phase m' = Pio_Idle \<and> delay m' \<le> settle \<and> sec m' = sec m"
    and alt_wait: "hw m \<Longrightarrow> phase m = Pio_Idle \<Longrightarrow> m' = snd (inb P (control_port ch) m) \<Longrightarrow>
      hw m' \<and> phase m' = Pio_Idle \<and> delay m' = delay m - 1 \<and> sec m' = sec m"
begin

text \<open>The driver looks at the alternate status four times after each half of a reset and goes on.\<close>

lemma alt_status_waits:
  assumes "hw m" and "phase m = Pio_Idle"
  shows "hw (alt_status_reads P ch n m) \<and> phase (alt_status_reads P ch n m) = Pio_Idle \<and>
    delay (alt_status_reads P ch n m) = delay m - n \<and> sec (alt_status_reads P ch n m) = sec m"
  using assms
proof (induction n arbitrary: m)
  case (Suc n)
  have "hw (snd (read_alt_status P ch m)) \<and> phase (snd (read_alt_status P ch m)) = Pio_Idle \<and>
      delay (snd (read_alt_status P ch m)) = delay m - 1 \<and> sec (snd (read_alt_status P ch m)) = sec m"
    unfolding read_alt_status_def by (rule alt_wait [OF Suc.prems refl])
  with Suc.IH [of "snd (read_alt_status P ch m)"] show ?case by simp
qed simp

lemma control_pulse:
  assumes "settle \<le> 4" and "idle m" and "v \<in> {0x04, 0x00}"
  shows "idle (alt_status_reads P ch 4 (write_control P ch v m))" "sec (alt_status_reads P ch 4 (write_control P ch v m)) = sec m"
  using reset [OF _ _ _ assms(3) refl, of m] alt_status_waits [of "write_control P ch v m" 4] assms(1,2)
  by (simp_all add: idle_def write_control_def)

lemma software_reset_idle: "settle \<le> 4 \<Longrightarrow> idle m \<Longrightarrow> idle (software_reset P ch m) \<and> sec (software_reset P ch m) = sec m"
  using control_pulse [of m "0x04"] control_pulse [of "alt_status_reads P ch 4 (write_control P ch 0x04 m)" "0x00"]
  by (simp add: software_reset_def del: alt_status_reads.simps)

text \<open>The task file before the command: the device is selected and the other registers are zero.\<close>

definition probe_setup :: "bool \<Rightarrow> 'm \<Rightarrow> 'm" where
  "probe_setup sl m = write_reg P ch 5 0 (write_reg P ch 4 0 (write_reg P ch 3 0 (write_reg P ch 2 0
     (write_reg P ch 1 0 (select_device P ch sl m)))))"

lemma probe_setup_idle:
  assumes "idle m"
  shows "idle (probe_setup sl m)" "sec (probe_setup sl m) = sec m" "bit (tf (probe_setup sl m) 6) 4 = sl"
proof -
  let ?h = "if sl then 0xB0 else 0xA0 :: u8"
  define m1 where "m1 = select_device P ch sl m"
  have "bit (0xB0 :: u8) 4" "\<not> bit (0xA0 :: u8) 4" by code_simp+
  then have "bit ?h 4 = sl" by simp
  have 1: "idle m1" "sec m1 = sec m" "bit (tf m1 6) 4 = sl"
    using alt_status_reads_idle [OF write_reg_idle(1) [OF assms, of 6 ?h], of 4] write_reg_idle(2,3) [OF assms, of 6 ?h]
      \<open>bit ?h 4 = sl\<close> by (simp_all add: m1_def select_device_def)
  define m2 where "m2 = write_reg P ch 1 0 m1"
  define m3 where "m3 = write_reg P ch 2 0 m2"
  define m4 where "m4 = write_reg P ch 3 0 m3"
  define m5 where "m5 = write_reg P ch 4 0 m4"
  define m6 where "m6 = write_reg P ch 5 0 m5"
  note 2 = write_reg_idle [OF 1(1), of 1 0, folded m2_def, simplified]
  note 3 = write_reg_idle [OF 2(1), of 2 0, folded m3_def, simplified]
  note 4 = write_reg_idle [OF 3(1), of 3 0, folded m4_def, simplified]
  note 5 = write_reg_idle [OF 4(1), of 4 0, folded m5_def, simplified]
  note 6 = write_reg_idle [OF 5(1), of 5 0, folded m6_def, simplified]
  have "probe_setup sl m = m6"
    by (simp add: probe_setup_def m1_def m2_def m3_def m4_def m5_def m6_def)
  then show "idle (probe_setup sl m)" "sec (probe_setup sl m) = sec m" "bit (tf (probe_setup sl m) 6) 4 = sl"
    using 1 2 3 4 5 6 by simp_all
qed

lemma read_words_ident:
  assumes "hw m" and "phase m = Pio_Identify i" and "delay m = 0" and "i + Suc n = 256"
  shows "\<exists>m'. read_words P ch (Suc n) m = (drop i ident, m') \<and> hw m' \<and> phase m' = Pio_Idle \<and> delay m' < 100000 \<and>
    sec m' = sec m"
  using assms
proof (induction n arbitrary: i m)
  case 0
  obtain w m1 where r: "inw P (base_port ch) m = (w, m1)" by fastforce
  have i: "i = 255" using "0.prems"(4) by simp
  have "drop 255 ident = [ident ! 255]"
    using ident_length Cons_nth_drop_Suc [of 255 ident] by simp
  with ident_in [OF "0.prems"(1,2) _ "0.prems"(3) r [symmetric]] i r show ?case
    by (simp add: read_data_word_def)
next
  case (Suc n)
  obtain w m1 where r: "inw P (base_port ch) m = (w, m1)" by fastforce
  have i: "i < 255" "i < length ident" using Suc.prems(4) ident_length by simp_all
  with ident_in [OF Suc.prems(1,2) _ Suc.prems(3) r [symmetric]]
  have m1: "w = ident ! i" "hw m1" "phase m1 = Pio_Identify (Suc i)" "delay m1 = 0" "sec m1 = sec m" by auto
  obtain m2 where "read_words P ch (Suc n) m1 = (drop (Suc i) ident, m2)" "hw m2" "phase m2 = Pio_Idle" "delay m2 < 100000"
      "sec m2 = sec m1"
    using Suc.IH [OF m1(2-4)] Suc.prems(4) by auto
  with m1 i(2) show ?case
    by (subst read_words.simps) (auto simp: read_data_word_def r Cons_nth_drop_Suc split: prod.split)
qed

text \<open>The probe finds the drive and leaves it idle; the probe for the other device finds nothing.\<close>

lemma probe_device_ok:
  assumes "idle m"
  shows "\<exists>m'. probe_device P ch slave m = (identity_info ident, m') \<and> idle m' \<and> sec m' = sec m"
proof -
  define m1 where "m1 = probe_setup slave m"
  have 1: "hw m1" "phase m1 = Pio_Idle" "delay m1 = 0" "sec m1 = sec m" "bit (tf m1 6) 4 = slave"
    using probe_setup_idle [OF assms, of slave] by (simp_all add: m1_def idle_def)
  define m2 where "m2 = write_reg P ch 7 CMD_IDENTIFY_DRIVE m1"
  have 2: "hw m2" "phase m2 = Pio_Identify 0" "delay m2 < 100000" "sec m2 = sec m"
    using cmd_identify [OF 1(1-3,5) refl] 1(4) by (simp_all add: m2_def write_reg_def CMD_IDENTIFY_DRIVE_def)
  obtain v m3 where s: "read_reg P ch 7 m2 = (v, m3)" by fastforce
  then have st: "(v, m3) = inb P (base_port ch + 7) m2" by (simp add: read_reg_def)
  have 3: "hw m3" "phase m3 = Pio_Identify 0" "delay m3 < 100000" "sec m3 = sec m"
    using status [OF 2(1) st] 2 by auto
  have v: "v \<noteq> 0" using status [OF 2(1) st] 2(2) by (cases "delay m2 = 0") auto
  obtain m4 where p4: "poll_bsy P ch m3 = (Inr (), m4)" and 4: "hw m4" "delay m4 = 0" "phase m4 = Pio_Identify 0" "sec m4 = sec m"
    using poll_busy_ok [OF 3(1), of POLL_TIMEOUT] 3 by (auto simp: poll_bsy_def POLL_TIMEOUT_def)
  obtain a m5 where r5: "read_reg P ch 4 m4 = (a, m5)" by fastforce
  have 5: "a = 0" "hw m5" "phase m5 = Pio_Identify 0" "delay m5 = 0" "sec m5 = sec m"
    using signature [OF 4(1,3,2), of 4 a m5] r5 4(4) by (auto simp: read_reg_def)
  obtain b m6 where r6: "read_reg P ch 5 m5 = (b, m6)" by fastforce
  have 6: "b = 0" "hw m6" "phase m6 = Pio_Identify 0" "delay m6 = 0" "sec m6 = sec m"
    using signature [OF 5(2-4), of 5 b m6] r6 5(5) by (auto simp: read_reg_def)
  obtain m7 where p7: "poll_drq P ch m6 = (Inr (), m7)" and 7: "hw m7" "delay m7 = 0" "phase m7 = Pio_Identify 0" "sec m7 = sec m"
    using poll_drq_ok [OF 6(2), of thesis] 6(3-5) by auto
  obtain m8 where r8: "read_words P ch 256 m7 = (ident, m8)" and 8: "hw m8" "phase m8 = Pio_Idle" "delay m8 < 100000" "sec m8 = sec m"
    using read_words_ident [OF 7(1,3,2), of 255] 7(4) by (auto simp del: read_words.simps)
  obtain m9 where p9: "poll_not_busy P ch m8 = (Inr (), m9)" and 9: "hw m9" "delay m9 = 0" "phase m9 = Pio_Idle" "sec m9 = sec m"
    using poll_busy_ok [OF 8(1), of POLL_TIMEOUT] 8 by (auto simp: poll_not_busy_def POLL_TIMEOUT_def)
  have "probe_device P ch slave m = (identity_info ident, m9)"
    using s v p4 r5 5(1) r6 6(1) p7 r8 p9
    by (simp add: probe_device_def Let_def m2_def m1_def probe_setup_def identity_info_def del: read_words.simps)
  with 9 show ?thesis by (simp add: idle_def)
qed

lemma probe_other_ok:
  assumes "idle m" and "sl \<noteq> slave"
  shows "\<exists>m'. probe_device P ch sl m = (AtaDeviceInfo_new, m') \<and> idle m' \<and> sec m' = sec m"
proof -
  define m1 where "m1 = probe_setup sl m"
  have 1: "hw m1" "phase m1 = Pio_Idle" "delay m1 = 0" "sec m1 = sec m" "bit (tf m1 6) 4 \<noteq> slave"
    using probe_setup_idle [OF assms(1), of sl] assms(2) by (simp_all add: m1_def idle_def)
  define m2 where "m2 = write_reg P ch 7 CMD_IDENTIFY_DRIVE m1"
  have 2: "hw m2" "phase m2 = Pio_Idle" "delay m2 = 0" "tf m2 = tf m1" "sec m2 = sec m"
    using ident_other [OF 1(1-3,5) refl] 1(4) by (simp_all add: m2_def write_reg_def CMD_IDENTIFY_DRIVE_def)
  obtain v m3 where s: "read_reg P ch 7 m2 = (v, m3)" by fastforce
  then have st: "(v, m3) = inb P (base_port ch + 7) m2" by (simp add: read_reg_def)
  have "v = 0" using status_other [OF 2(1-3)] 1(5) 2(4) st by (metis fst_conv)
  moreover have "idle m3" "sec m3 = sec m" using status [OF 2(1) st] 2 by (auto simp: idle_def)
  ultimately show ?thesis
    using s by (simp add: probe_device_def Let_def m2_def m1_def probe_setup_def)
qed

end

section \<open>A drive and the other ports\<close>

text \<open>The ports of a channel: eight registers and the control port.\<close>

definition owns_port :: "AtaChannel \<Rightarrow> u16 \<Rightarrow> bool" where
  "owns_port ch p \<longleftrightarrow> p - base_port ch < 8 \<or> p = control_port ch"

locale lone_drive = ident_drive P ch slave phase tf delay sec cap hw ident settle
  for P :: "'m port_io" and ch slave phase tf delay sec cap hw ident settle +
  assumes out_elsewhere: "\<not> owns_port ch p \<Longrightarrow> idle m \<Longrightarrow> m' = outb P p v m \<Longrightarrow> idle m' \<and> sec m' = sec m"
    and in_elsewhere: "\<not> owns_port ch p \<Longrightarrow> idle m \<Longrightarrow> m' = snd (inb P p m) \<Longrightarrow> idle m' \<and> sec m' = sec m"
    and word_elsewhere: "\<not> owns_port ch p \<Longrightarrow> idle m \<Longrightarrow> m' = snd (inw P p m) \<Longrightarrow> idle m' \<and> sec m' = sec m"
begin

text \<open>Steps of the machine that leave the drive as it is.\<close>

definition spares :: "('m \<Rightarrow> 'm) \<Rightarrow> bool" where
  "spares f \<longleftrightarrow> (\<forall>m. idle m \<longrightarrow> idle (f m) \<and> sec (f m) = sec m)"

lemma sparesD: "spares f \<Longrightarrow> idle m \<Longrightarrow> idle (f m) \<and> sec (f m) = sec m"
  by (simp add: spares_def)

lemma spares_id: "spares (\<lambda>m. m)"
  by (simp add: spares_def)

lemma spares_comp: "spares f \<Longrightarrow> spares g \<Longrightarrow> spares (\<lambda>m. f (g m))"
  by (simp add: spares_def)

lemma spares_fold: "(\<And>x. x \<in> set xs \<Longrightarrow> spares (f x)) \<Longrightarrow> spares (fold f xs)"
  by (induction xs) (simp_all add: spares_def)

lemma spares_out: "\<not> owns_port ch p \<Longrightarrow> spares (outb P p v)"
  and spares_in: "\<not> owns_port ch p \<Longrightarrow> spares (\<lambda>m. snd (inb P p m))"
  and spares_word: "\<not> owns_port ch p \<Longrightarrow> spares (\<lambda>m. snd (inw P p m))"
  unfolding spares_def using out_elsewhere [OF _ _ refl] in_elsewhere [OF _ _ refl] word_elsewhere [OF _ _ refl] by blast+

lemma spares_case:
  assumes "spares (\<lambda>m. snd (f m))" and "\<And>x. spares (\<lambda>m. snd (g x m))"
  shows "spares (\<lambda>m. snd (case f m of (x, m') \<Rightarrow> g x m'))"
  unfolding spares_def
proof (intro allI impI)
  fix m
  assume "idle m"
  obtain x m' where f: "f m = (x, m')" by fastforce
  have "idle m' \<and> sec m' = sec m" using sparesD [OF assms(1) \<open>idle m\<close>] f by simp
  with sparesD [OF assms(2), of m' x] f
  show "idle (snd (case f m of (x, m') \<Rightarrow> g x m')) \<and> sec (snd (case f m of (x, m') \<Rightarrow> g x m')) = sec m" by simp
qed

lemma spares_if: "spares (\<lambda>m. snd (f m)) \<Longrightarrow> spares (\<lambda>m. snd (g m)) \<Longrightarrow> spares (\<lambda>m. snd (if b then f m else g m))"
  by (cases b) simp_all

lemma spares_pair: "spares (\<lambda>m. snd (x, m))"
  by (simp add: spares_def)

text \<open>Another channel.\<close>

definition elsewhere :: "AtaChannel \<Rightarrow> bool" where
  "elsewhere c \<longleftrightarrow> \<not> owns_port ch (control_port c) \<and> (\<forall>off. off < 8 \<longrightarrow> \<not> owns_port ch (base_port c + off))"

lemma elsewhereD: "elsewhere c \<Longrightarrow> \<not> owns_port ch (control_port c)" "elsewhere c \<Longrightarrow> off < 8 \<Longrightarrow> \<not> owns_port ch (base_port c + off)"
  by (simp_all add: elsewhere_def)

lemma spares_alt_one: "elsewhere c \<Longrightarrow> spares (\<lambda>m. snd (read_alt_status P c m))"
  unfolding read_alt_status_def by (rule spares_in [OF elsewhereD(1)])

lemma spares_alt: "elsewhere c \<Longrightarrow> spares (alt_status_reads P c n)"
proof (induction n)
  case 0
  show ?case using spares_id by (simp add: spares_def)
next
  case (Suc n)
  have "spares (\<lambda>m. alt_status_reads P c n (snd (read_alt_status P c m)))"
    by (rule spares_comp [OF Suc.IH [OF Suc.prems] spares_alt_one [OF Suc.prems]])
  moreover have "alt_status_reads P c (Suc n) = (\<lambda>m. alt_status_reads P c n (snd (read_alt_status P c m)))"
    by (rule ext) (rule alt_status_reads.simps(2))
  ultimately show ?case by (simp only:)
qed

lemma spares_write: "elsewhere c \<Longrightarrow> off < 8 \<Longrightarrow> spares (write_reg P c off v)"
  and spares_read: "elsewhere c \<Longrightarrow> off < 8 \<Longrightarrow> spares (\<lambda>m. snd (read_reg P c off m))"
  unfolding write_reg_def [abs_def] read_reg_def by (rule spares_out, erule (1) elsewhereD)+ (rule spares_in, erule (1) elsewhereD)

lemma spares_select: "elsewhere c \<Longrightarrow> spares (select_device P c sl)"
  unfolding select_device_def [abs_def] by (rule spares_comp [OF spares_alt spares_write]) simp_all

lemma spares_reset: "elsewhere c \<Longrightarrow> spares (software_reset P c)"
proof -
  assume c: "elsewhere c"
  have w: "spares (write_control P c v)" for v
    unfolding write_control_def [abs_def] by (rule spares_out [OF elsewhereD(1) [OF c]])
  show ?thesis
    unfolding software_reset_def [abs_def]
    by (rule spares_comp [OF spares_alt [OF c] spares_comp [OF w spares_comp [OF spares_alt [OF c] w]]])
qed

lemma spares_busy: "elsewhere c \<Longrightarrow> spares (\<lambda>m. snd (poll_busy_loop P c n m))"
proof (induction n)
  case 0
  show ?case by (simp only: poll_busy_loop.simps) (rule spares_pair)
next
  case (Suc n)
  show ?case
    unfolding poll_busy_loop.simps
  proof (rule spares_case)
    show "spares (\<lambda>m. snd (read_reg P c 7 m))" by (rule spares_read [OF Suc.prems]) simp
    show "spares (\<lambda>m. snd (if v AND STATUS_BSY = 0 then (Inr (), m) else poll_busy_loop P c n m))" for v
      by (rule spares_if [OF spares_pair Suc.IH [OF Suc.prems]])
  qed
qed

lemma spares_drq: "elsewhere c \<Longrightarrow> spares (\<lambda>m. snd (poll_drq_loop P c n m))"
proof (induction n)
  case 0
  show ?case by (simp only: poll_drq_loop.simps) (rule spares_pair)
next
  case (Suc n)
  show ?case
    unfolding poll_drq_loop.simps
  proof (rule spares_case)
    show "spares (\<lambda>m. snd (read_reg P c 7 m))" by (rule spares_read [OF Suc.prems]) simp
    show "spares (\<lambda>m. snd (if v AND STATUS_BSY = 0 \<and> v AND STATUS_DRQ \<noteq> 0 then (Inr (), m)
        else if v AND (STATUS_ERR OR STATUS_DF) \<noteq> 0 then (Inl DrvIoError, m) else poll_drq_loop P c n m))" for v
      by (rule spares_if [OF spares_pair spares_if [OF spares_pair Suc.IH [OF Suc.prems]]])
  qed
qed

lemma spares_words: "elsewhere c \<Longrightarrow> spares (\<lambda>m. snd (read_words P c n m))"
proof (induction n)
  case 0
  show ?case by (simp only: read_words.simps) (rule spares_pair)
next
  case (Suc n)
  have "spares (\<lambda>m. snd (read_data_word P c m))"
    unfolding read_data_word_def by (rule spares_word) (use elsewhereD(2) [OF Suc.prems, of 0] in simp)
  then show ?case
    unfolding read_words.simps
    by (rule spares_case [OF _ spares_case [OF Suc.IH [OF Suc.prems] spares_pair]])
qed

lemma spares_sum:
  "(\<And>e. spares (\<lambda>m. snd (f e m))) \<Longrightarrow> (\<And>x. spares (\<lambda>m. snd (g x m))) \<Longrightarrow>
    spares (\<lambda>m. snd (case r of Inl e \<Rightarrow> f e m | Inr x \<Rightarrow> g x m))"
  by (cases r) simp_all

lemma spares_probe:
  assumes "elsewhere c"
  shows "spares (\<lambda>m. snd (probe_device P c sl m))"
proof -
  note r = spares_read [OF assms] and w = spares_write [OF assms]
  have s: "spares (\<lambda>m. write_reg P c 7 CMD_IDENTIFY_DRIVE (write_reg P c 5 0 (write_reg P c 4 0
      (write_reg P c 3 0 (write_reg P c 2 0 (write_reg P c 1 0 (select_device P c sl m)))))))"
    by (rule spares_comp [OF w spares_comp [OF w spares_comp [OF w spares_comp [OF w spares_comp [OF w
        spares_comp [OF w spares_select [OF assms]]]]]]]) simp_all
  show ?thesis
    unfolding probe_device_def Let_def
    by (rule spares_comp [OF _ s],
        intro spares_case spares_sum spares_if spares_pair r spares_busy [OF assms, of POLL_TIMEOUT, folded poll_bsy_def]
          spares_busy [OF assms, of POLL_TIMEOUT, folded poll_not_busy_def] spares_drq [OF assms, of POLL_TIMEOUT, folded poll_drq_def]
          spares_words [OF assms]) simp_all
qed

end

section \<open>The drive that the kernel boots from\<close>

text \<open>The primary master, alone on its channel.\<close>

locale boot_drive = lone_drive P "get_channel PRIMARY_BASE" False phase tf delay sec cap hw ident settle
  for P :: "'m port_io" and phase tf delay sec cap hw ident settle
begin

lemma channels: "base_port (get_channel PRIMARY_BASE) = 0x1F0" "control_port (get_channel PRIMARY_BASE) = 0x3F6"
  "base_port (get_channel SECONDARY_BASE) = 0x170" "control_port (get_channel SECONDARY_BASE) = 0x376"
  by (simp_all add: get_channel_def PRIMARY_BASE_def PRIMARY_CONTROL_def SECONDARY_BASE_def SECONDARY_CONTROL_def)

lemma secondary_elsewhere: "elsewhere (get_channel SECONDARY_BASE)"
proof -
  have "\<not> owns_port (get_channel PRIMARY_BASE) (0x170 + off)" if "off < 8" for off :: u16
  proof -
    have "unat off \<in> set [0..<8]" using that by (simp add: word_less_nat_alt)
    moreover have "\<forall>i\<in>set [0..<8]. \<not> owns_port (get_channel PRIMARY_BASE) (0x170 + of_nat i)"
      by (simp add: owns_port_def channels upt_rec)
    ultimately have "\<not> owns_port (get_channel PRIMARY_BASE) (0x170 + of_nat (unat off))" by blast
    then show ?thesis by simp
  qed
  then show ?thesis by (simp add: elsewhere_def channels owns_port_def)
qed

text \<open>\<open>init\<close> finds the drive and nothing behind it, and the drive is ready for transfers.\<close>

lemma probe_all_ok:
  assumes "settle \<le> 4" and "idle m"
  shows "\<exists>d' m'. probe_all P d m = (d', m') \<and> drv_status d' = drv_status d \<and> primary_master d' = identity_info ident \<and>
    primary_slave d' = AtaDeviceInfo_new \<and> idle m' \<and> sec m' = sec m"
proof -
  let ?p = "get_channel PRIMARY_BASE" and ?s = "get_channel SECONDARY_BASE"
  define m1 where "m1 = software_reset P ?s (software_reset P ?p m)"
  have 1: "idle m1" "sec m1 = sec m"
    using sparesD [OF spares_reset [OF secondary_elsewhere]] software_reset_idle [OF assms] by (simp_all add: m1_def)
  obtain m2 where 2: "probe_device P ?p False m1 = (identity_info ident, m2)" "idle m2" "sec m2 = sec m"
    using probe_device_ok [OF 1(1)] 1(2) by auto
  obtain m3 where 3: "probe_device P ?p True m2 = (AtaDeviceInfo_new, m3)" "idle m3" "sec m3 = sec m"
    using probe_other_ok [OF 2(2), of True] 2(3) by auto
  obtain i4 m4 where 4: "probe_device P ?s False m3 = (i4, m4)" by fastforce
  obtain i5 m5 where 5: "probe_device P ?s True m4 = (i5, m5)" by fastforce
  have "idle m5" "sec m5 = sec m"
    using sparesD [OF spares_probe [OF secondary_elsewhere, of False] 3(2)]
      sparesD [OF spares_probe [OF secondary_elsewhere, of True], of m4] 3(3) by (simp_all add: 4 5)
  then show ?thesis
    by (simp add: probe_all_def Let_def m1_def [symmetric] 2(1) 3(1) 4 5)
qed

lemma init_ata_ok:
  assumes "settle \<le> 4" and "idle m"
  obtains d m' where "init_ata_driver P \<lparr> ATA = None, machine = m \<rparr> = (Inr (), \<lparr> ATA = Some d, machine = m' \<rparr>)"
    "drv_status d = Ready" "device_info d PRIMARY_BASE False = identity_info ident"
    "device_info d PRIMARY_BASE True = AtaDeviceInfo_new" "idle m'" "sec m' = sec m"
proof -
  obtain d m' where p: "probe_all P (AtaDriver_new \<lparr> drv_status := Initializing \<rparr>) m = (d, m')"
      "primary_master d = identity_info ident" "primary_slave d = AtaDeviceInfo_new" "idle m'" "sec m' = sec m"
    using probe_all_ok [OF assms] by blast
  then have "init_ata_driver P \<lparr> ATA = None, machine = m \<rparr> = (Inr (), \<lparr> ATA = Some (d \<lparr> drv_status := Ready \<rparr>), machine = m' \<rparr>)"
    by (simp add: init_ata_driver_def ata_init_def identity_info_def Let_def)
  then show thesis
    by (rule that) (use p in \<open>simp_all add: device_info_def\<close>)
qed

end

text \<open>The drive behind the adapter that the file system is mounted on.\<close>

sublocale boot_drive \<subseteq> disk: ata_disk P abd_primary_master phase tf delay sec cap hw
  unfolding ata_disk_def abd_primary_master_def AtaBlockDevice.select_convs by (rule pio_drive_axioms)

section \<open>The executable drive\<close>

interpretation bootable: boot_drive "pd_ports lat cap" pd_phase pd_tf pd_delay pd_sec "pd_capacity cap" pd_hw "pd_identity cap" 4
proof -
  have pd: "pio_drive (pd_ports lat cap) (get_channel PRIMARY_BASE) False pd_phase pd_tf pd_delay pd_sec (pd_capacity cap) pd_hw"
    using primary.pio_drive_axioms [of lat cap] by (simp add: abd_primary_master_def)
  have ch: "base_port (get_channel PRIMARY_BASE) = 0x1F0" "control_port (get_channel PRIMARY_BASE) = 0x3F6"
    by (simp_all add: get_channel_def PRIMARY_BASE_def PRIMARY_CONTROL_def)
  have n: "p \<noteq> 0x1F7" "\<not> (0x1F1 \<le> p \<and> p \<le> 0x1F6)" "p \<noteq> 0x3F6" "p \<noteq> 0x1F0"
    if "\<not> owns_port (get_channel PRIMARY_BASE) p" for p
  proof -
    show "p \<noteq> 0x1F7" "p \<noteq> 0x3F6" "p \<noteq> 0x1F0" using that by (auto simp: owns_port_def ch)
    show "\<not> (0x1F1 \<le> p \<and> p \<le> 0x1F6)"
    proof
      assume "0x1F1 \<le> p \<and> p \<le> 0x1F6"
      then have "unat (p - 0x1F0) = unat p - 0x1F0" "unat p - 0x1F0 < 8"
        using unat_sub [of "0x1F0" p] by (auto simp: word_le_nat_alt)
      with that show False by (simp add: owns_port_def ch word_less_nat_alt)
    qed
  qed
  show "boot_drive (pd_ports lat cap) pd_phase pd_tf pd_delay pd_sec (pd_capacity cap) pd_hw (pd_identity cap) 4"
    unfolding boot_drive_def lone_drive_def ident_drive_def ident_drive_axioms_def lone_drive_axioms_def
    using pd n
    by (auto simp: pio_drive.idle_def [OF pd] ch pd_identity_def pd_hw_def pd_ports_def pd_outb_def pd_command_def pd_inb_def
        pd_status_def pd_inw_def pd_latency_def Let_def)
qed

text \<open>The same drive, but busy for \<open>settle\<close> looks at its status after each half of a reset. It follows the
  protocol as well, but \<open>init\<close> does not find it when it is still busy after the four looks of the reset and
  the four looks of the selection: the command that identifies it comes too early and is lost.\<close>

definition slow_ports :: "nat \<Rightarrow> nat \<Rightarrow> u32 \<Rightarrow> pio_disk port_io" where
  "slow_ports settle lat cap = (pd_ports lat cap) \<lparr> outb := (\<lambda>p v d.
     if p = 0x3F6 then (if bit v 2 then d \<lparr> pd_phase := Pio_Idle, pd_delay := settle, pd_err := False \<rparr> else d \<lparr> pd_delay := settle \<rparr>)
     else pd_outb lat cap p v d) \<rparr>"

lemma channel_ports: "base_port (get_channel PRIMARY_BASE) = 0x1F0" "control_port (get_channel PRIMARY_BASE) = 0x3F6"
  "base_port (get_channel SECONDARY_BASE) = 0x170" "control_port (get_channel SECONDARY_BASE) = 0x376"
  by (simp_all add: get_channel_def PRIMARY_BASE_def PRIMARY_CONTROL_def SECONDARY_BASE_def SECONDARY_CONTROL_def)

lemma slow_primary:
  "alt_status_reads (slow_ports settle lat cap) (get_channel PRIMARY_BASE) n d = d \<lparr> pd_delay := pd_delay d - n \<rparr>"
  "pd_delay d < n \<Longrightarrow> poll_busy_loop (slow_ports settle lat cap) (get_channel PRIMARY_BASE) n d = (Inr (), d \<lparr> pd_delay := 0 \<rparr>)"
proof -
  show "alt_status_reads (slow_ports settle lat cap) (get_channel PRIMARY_BASE) n d = d \<lparr> pd_delay := pd_delay d - n \<rparr>"
    by (induction n arbitrary: d)
      (simp_all add: read_alt_status_def slow_ports_def pd_ports_def pd_inb_def channel_ports)
  show "pd_delay d < n \<Longrightarrow> poll_busy_loop (slow_ports settle lat cap) (get_channel PRIMARY_BASE) n d = (Inr (), d \<lparr> pd_delay := 0 \<rparr>)"
    by (induction n arbitrary: d)
      (auto simp: read_reg_def slow_ports_def pd_ports_def pd_inb_def channel_ports pd_status_def STATUS_BSY_def)
qed

lemma slow_secondary:
  "alt_status_reads (slow_ports settle lat cap) (get_channel SECONDARY_BASE) n d = d"
  "poll_busy_loop (slow_ports settle lat cap) (get_channel SECONDARY_BASE) n d = (Inl DrvTimeout, d)"
proof -
  show "alt_status_reads (slow_ports settle lat cap) (get_channel SECONDARY_BASE) n d = d"
    by (induction n arbitrary: d) (simp_all add: read_alt_status_def slow_ports_def pd_ports_def pd_inb_def channel_ports)
  show "poll_busy_loop (slow_ports settle lat cap) (get_channel SECONDARY_BASE) n d = (Inl DrvTimeout, d)"
    by (induction n arbitrary: d)
      (simp_all add: read_reg_def slow_ports_def pd_ports_def pd_inb_def channel_ports STATUS_BSY_def)
qed

lemma slow_reset:
  "software_reset (slow_ports settle lat cap) (get_channel PRIMARY_BASE) d =
     d \<lparr> pd_phase := Pio_Idle, pd_err := False, pd_delay := settle - 4 \<rparr>"
  "software_reset (slow_ports settle lat cap) (get_channel SECONDARY_BASE) d = d"
  unfolding software_reset_def slow_primary(1) slow_secondary(1)
  by (simp_all add: write_control_def slow_ports_def pd_ports_def pd_outb_def channel_ports)

lemma slow_probe_master:
  assumes "pd_phase d = Pio_Idle" and "4 < pd_delay d" "pd_delay d \<le> 100000"
  shows "\<exists>d'. probe_device (slow_ports settle lat cap) (get_channel PRIMARY_BASE) False d = (AtaDeviceInfo_new, d') \<and>
    pd_phase d' = Pio_Idle \<and> pd_delay d' = 0"
proof -
  let ?P = "slow_ports settle lat cap" and ?c = "get_channel PRIMARY_BASE"
  obtain d1 where d1: "write_reg ?P ?c 7 CMD_IDENTIFY_DRIVE (write_reg ?P ?c 5 0 (write_reg ?P ?c 4 0 (write_reg ?P ?c 3 0
      (write_reg ?P ?c 2 0 (write_reg ?P ?c 1 0 (select_device ?P ?c False d)))))) = d1"
    "pd_phase d1 = Pio_Idle" "pd_delay d1 = pd_delay d - 4" "pd_err d1" "pd_tf d1 4 = 0" "pd_tf d1 5 = 0" "\<not> bit (pd_tf d1 6) 4"
  proof
    have n: "\<not> bit (0xA0 :: u8) 4" by code_simp
    show "pd_phase (write_reg ?P ?c 7 CMD_IDENTIFY_DRIVE (write_reg ?P ?c 5 0 (write_reg ?P ?c 4 0 (write_reg ?P ?c 3 0
      (write_reg ?P ?c 2 0 (write_reg ?P ?c 1 0 (select_device ?P ?c False d))))))) = Pio_Idle"
      "pd_delay (write_reg ?P ?c 7 CMD_IDENTIFY_DRIVE (write_reg ?P ?c 5 0 (write_reg ?P ?c 4 0 (write_reg ?P ?c 3 0
      (write_reg ?P ?c 2 0 (write_reg ?P ?c 1 0 (select_device ?P ?c False d))))))) = pd_delay d - 4"
      "pd_err (write_reg ?P ?c 7 CMD_IDENTIFY_DRIVE (write_reg ?P ?c 5 0 (write_reg ?P ?c 4 0 (write_reg ?P ?c 3 0
      (write_reg ?P ?c 2 0 (write_reg ?P ?c 1 0 (select_device ?P ?c False d)))))))"
      "pd_tf (write_reg ?P ?c 7 CMD_IDENTIFY_DRIVE (write_reg ?P ?c 5 0 (write_reg ?P ?c 4 0 (write_reg ?P ?c 3 0
      (write_reg ?P ?c 2 0 (write_reg ?P ?c 1 0 (select_device ?P ?c False d))))))) 4 = 0"
      "pd_tf (write_reg ?P ?c 7 CMD_IDENTIFY_DRIVE (write_reg ?P ?c 5 0 (write_reg ?P ?c 4 0 (write_reg ?P ?c 3 0
      (write_reg ?P ?c 2 0 (write_reg ?P ?c 1 0 (select_device ?P ?c False d))))))) 5 = 0"
      "\<not> bit (pd_tf (write_reg ?P ?c 7 CMD_IDENTIFY_DRIVE (write_reg ?P ?c 5 0 (write_reg ?P ?c 4 0 (write_reg ?P ?c 3 0
      (write_reg ?P ?c 2 0 (write_reg ?P ?c 1 0 (select_device ?P ?c False d))))))) 6) 4"
      using assms n unfolding select_device_def slow_primary(1)
      by (simp_all add: write_reg_def slow_ports_def pd_ports_def pd_outb_def channel_ports pd_command_def CMD_IDENTIFY_DRIVE_def Let_def)
  qed simp
  let ?d2 = "d1 \<lparr> pd_delay := pd_delay d - 5 \<rparr>" and ?d3 = "d1 \<lparr> pd_delay := 0 \<rparr>"
  have r: "read_reg ?P ?c 7 d1 = (0x80, ?d2)"
    using d1(3) assms(2) by (simp add: read_reg_def slow_ports_def pd_ports_def pd_inb_def channel_ports pd_status_def)
  have b: "poll_bsy ?P ?c ?d2 = (Inr (), ?d3)"
    using slow_primary(2) [of ?d2 POLL_TIMEOUT] assms(3) by (simp add: poll_bsy_def POLL_TIMEOUT_def)
  have s: "read_reg ?P ?c 4 ?d3 = (0, ?d3)" "read_reg ?P ?c 5 ?d3 = (0, ?d3)"
    using d1(2,5,6) by (simp_all add: read_reg_def slow_ports_def pd_ports_def pd_inb_def channel_ports)
  have "poll_drq_loop ?P ?c (Suc n) ?d3 = (Inl DrvIoError, ?d3)" for n
    using d1(2,4,7) by (simp add: read_reg_def slow_ports_def pd_ports_def pd_inb_def channel_ports pd_status_def STATUS_BSY_def
        STATUS_DRQ_def STATUS_ERR_def STATUS_DF_def)
  from this [of 99999] have q: "poll_drq ?P ?c ?d3 = (Inl DrvIoError, ?d3)"
    by (simp add: poll_drq_def POLL_TIMEOUT_def del: poll_drq_loop.simps)
  show ?thesis
    using d1(2) by (simp add: probe_device_def Let_def d1(1) r b s q)
qed

lemma slow_probe_rest:
  assumes "pd_phase d = Pio_Idle" and "pd_delay d = 0"
  shows "\<exists>d'. probe_device (slow_ports settle lat cap) (get_channel PRIMARY_BASE) True d = (AtaDeviceInfo_new, d')"
    and "\<exists>d'. probe_device (slow_ports settle lat cap) (get_channel SECONDARY_BASE) sl e = (AtaDeviceInfo_new, d')"
proof -
  have n: "bit (0xB0 :: u8) 4" by code_simp
  show "\<exists>d'. probe_device (slow_ports settle lat cap) (get_channel PRIMARY_BASE) True d = (AtaDeviceInfo_new, d')"
    using assms n unfolding probe_device_def select_device_def slow_primary(1)
    by (simp add: write_reg_def read_reg_def slow_ports_def pd_ports_def pd_outb_def pd_inb_def channel_ports pd_command_def
        pd_status_def CMD_IDENTIFY_DRIVE_def Let_def)
  show "\<exists>d'. probe_device (slow_ports settle lat cap) (get_channel SECONDARY_BASE) sl e = (AtaDeviceInfo_new, d')"
    unfolding probe_device_def select_device_def slow_secondary poll_bsy_def Let_def
    by (simp add: read_reg_def, simp add: slow_ports_def pd_ports_def pd_inb_def channel_ports)
qed

theorem slow_drive_not_listed:
  assumes "8 < settle" and "settle \<le> 100000"
  shows "\<exists>w. init_ata_driver (slow_ports settle lat cap) \<lparr> ATA = None, machine = d \<rparr> = (Inl DrvDeviceNotFound, w) \<and> ATA w = None"
proof -
  let ?P = "slow_ports settle lat cap"
  let ?d1 = "d \<lparr> pd_phase := Pio_Idle, pd_err := False, pd_delay := settle - 4 \<rparr>"
  have "pd_phase ?d1 = Pio_Idle" "4 < pd_delay ?d1" "pd_delay ?d1 \<le> 100000" using assms by simp_all
  from slow_probe_master [OF this, of settle lat cap]
  obtain d2 where 2: "probe_device ?P (get_channel PRIMARY_BASE) False ?d1 = (AtaDeviceInfo_new, d2)" "pd_phase d2 = Pio_Idle" "pd_delay d2 = 0"
    by blast
  obtain d3 where 3: "probe_device ?P (get_channel PRIMARY_BASE) True d2 = (AtaDeviceInfo_new, d3)"
    using slow_probe_rest(1) [OF 2(2,3)] by blast
  obtain d4 where 4: "probe_device ?P (get_channel SECONDARY_BASE) False d3 = (AtaDeviceInfo_new, d4)"
    using slow_probe_rest(2) [OF 2(2,3)] by blast
  obtain d5 where 5: "probe_device ?P (get_channel SECONDARY_BASE) True d4 = (AtaDeviceInfo_new, d5)"
    using slow_probe_rest(2) [OF 2(2,3)] by blast
  show ?thesis
    by (simp add: init_ata_driver_def ata_init_def probe_all_def slow_reset Let_def 2(1) 3 4 5 AtaDeviceInfo_new_def)
qed

section \<open>Properties\<close>



end
