(* ===== verification/Boot_Disk.thy ===== *)
theory Boot_Disk
  imports Kernel_Main Ata_Identify
begin

text \<open>
  The boot on a machine with a disk: \<open>arcadia_kernel_main\<close> over the drive of \<open>Ata_Identify\<close>. The
  locale \<open>drive_machine\<close> states that the other devices leave the drive alone; then the boot finds
  the drive, when this is ready within four looks at its status after a reset, keeps its sectors, and mounts the volume of its first sector. The theorem: a file
  that was written on the terminal is there after the next boot.
\<close>

section \<open>A machine with a drive\<close>

locale drive_machine = boot_drive "env_ports E" phase tf delay sec cap hw ident settle
  for E :: "('m, 't, 'i) machine_env" and phase :: "'m \<Rightarrow> pio_phase" and tf delay sec cap hw ident settle +
  assumes out32_elsewhere: "idle m \<Longrightarrow> m' = outl (env_ports32 E) 0xCF8 v m \<Longrightarrow> idle m' \<and> sec m' = sec m"
    and in32_elsewhere: "idle m \<Longrightarrow> m' = snd (inl (env_ports32 E) 0xCFC m) \<Longrightarrow> idle m' \<and> sec m' = sec m"
    and pics_elsewhere: "idle m \<Longrightarrow> m' = pics_initialize (env_pics E) o1 o2 m \<Longrightarrow> idle m' \<and> sec m' = sec m"
begin

text \<open>One state of the machine after another, with the drive and its sectors as they were.\<close>

definition still :: "'m \<Rightarrow> 'm \<Rightarrow> bool" where
  "still m0 m \<longleftrightarrow> idle m \<and> sec m = sec m0"

lemma still_spares: "spares f \<Longrightarrow> still m0 m \<Longrightarrow> still m0 (f m)"
  by (simp add: still_def spares_def)

named_theorems stills

lemma other_ports: "\<not> owns_port (get_channel PRIMARY_BASE) p"
  if "p \<in> {0x3F8, 0x3F9, 0x3FB, 0x3FC, 0x3FD, 0x40, 0x43, 0x21, 0xA1}"
  using that by (auto simp: owns_port_def channels)

lemma still_out [stills]:
  "p \<in> {0x3F8, 0x3F9, 0x3FB, 0x3FC, 0x3FD, 0x40, 0x43, 0x21, 0xA1} \<Longrightarrow> still m0 m \<Longrightarrow> still m0 (outb (env_ports E) p v m)"
  by (rule still_spares [OF spares_out [OF other_ports]])

lemma still_in: "still m0 m \<Longrightarrow> inb (env_ports E) 0x3FD m = (v, m') \<Longrightarrow> still m0 m'"
  using still_spares [OF spares_in [OF other_ports], of "0x3FD" m0 m] by simp

lemma still_fold [stills]: "(\<And>x m. still m0 m \<Longrightarrow> still m0 (f x m)) \<Longrightarrow> still m0 m \<Longrightarrow> still m0 (fold f xs m)"
  by (induction xs arbitrary: m) simp_all

lemma still_poll: "still m0 m \<Longrightarrow> still m0 (serial_poll (env_ports E) n m)"
  by (induction n arbitrary: m) (auto split: prod.split dest: still_in)

lemma still_write [stills]: "still m0 m \<Longrightarrow> still m0 (early_serial_write (env_ports E) b m)"
  unfolding early_serial_write_def by (rule still_out, simp, rule still_poll)

lemma still_print [stills]: "still m0 m \<Longrightarrow> still m0 (early_serial_print (env_ports E) s m)"
  unfolding early_serial_print_def by (rule still_fold) (simp_all add: stills)

lemma still_serial_init [stills]: "still m0 m \<Longrightarrow> still m0 (early_serial_init (env_ports E) m)"
  by (simp add: early_serial_init_def stills)

lemma still_banner [stills]: "still m0 m \<Longrightarrow> still m0 (boot_banner (env_ports E) m)"
  unfolding boot_banner_def by (intro stills)

lemma still_progress_serial [stills]: "still m0 m \<Longrightarrow> still m0 (progress_serial (env_ports E) ph pct m)"
  unfolding progress_serial_def Let_def by (intro stills)

lemma still_progress [stills]: "still m0 (bs_machine s) \<Longrightarrow> still m0 (bs_machine (progress E p n s))"
  by (simp add: progress_def boot_progress_def stills)

lemma still_early [stills]: "still m0 (bs_machine s) \<Longrightarrow> still m0 (bs_machine (boot_early E s))"
  by (simp add: boot_early_def stills)

lemma still_reversed [stills]: "still m0 m \<Longrightarrow> still m0 (send_reversed (env_ports E) buf i m)"
  unfolding send_reversed_def by (intro stills)

lemma still_hex: "early_serial_write_hex (env_ports E) w m = Some m' \<Longrightarrow> still m0 m \<Longrightarrow> still m0 m'"
  and still_dec: "early_serial_write_dec (env_ports E) n m = Some m' \<Longrightarrow> still m0 m \<Longrightarrow> still m0 m'"
  by (auto simp: early_serial_write_hex_def early_serial_write_dec_def stills split: if_splits)

lemma still_report_region: "report_region (env_ports E) r m = Some m' \<Longrightarrow> still m0 m \<Longrightarrow> still m0 m'"
  by (auto simp: report_region_def Let_def bind_eq_Some_conv dest!: still_hex still_dec intro!: still_print)

lemma still_report_regions: "report_regions (env_ports E) rs m = Some m' \<Longrightarrow> still m0 m \<Longrightarrow> still m0 m'"
  by (induction rs arbitrary: m) (auto simp: bind_eq_Some_conv dest: still_report_region)

lemma still_hvm_regions: "hvm_regions (env_ports E) cr mem hvm m = Some (rs, m') \<Longrightarrow> still m0 m \<Longrightarrow> still m0 m'"
  by (auto simp: hvm_regions_def Let_def bind_eq_Some_conv split: if_splits dest!: still_hex intro!: still_print)

lemma still_memory: "boot_memory (env_ports E) cr mp mem cr3 bm ci hvm m = Some (x, m') \<Longrightarrow> still m0 m \<Longrightarrow> still m0 m'"
  by (auto simp: boot_memory_def Let_def bind_eq_Some_conv split: option.splits prod.splits if_splits
      dest!: still_hvm_regions still_dec still_report_regions intro!: still_print)

lemma still_interrupts [stills]:
  "still m0 (timer_ports t) \<Longrightarrow> still m0 (timer_ports (fst (interrupts_init (env_ports E) (env_pics E) (t, b))))"
proof -
  assume t: "still m0 (timer_ports t)"
  have "still m0 (timer_ports (time_init (env_ports E) t))"
    using t by (simp add: time_init_def Let_def PIT_COMMAND_PORT_def PIT_CHANNEL0_PORT_def stills)
  then have "still m0 (pics_initialize (env_pics E) PIC_1_OFFSET PIC_2_OFFSET (timer_ports (time_init (env_ports E) t)))"
    using pics_elsewhere [OF _ refl] by (simp add: still_def)
  then show ?thesis by (simp add: interrupts_init_def Let_def stills)
qed

lemma still_cpu: "boot_cpu E s = Some (t, s') \<Longrightarrow> still m0 (bs_machine s) \<Longrightarrow> still m0 (bs_machine s')"
proof -
  assume a: "boot_cpu E s = Some (t, s')" "still m0 (bs_machine s)"
  obtain seg where g: "gdt_init (env_gdt E) (env_crate E) (bs_segments s) = Some seg"
    using a(1) by (auto simp: boot_cpu_def split: option.splits)
  let ?s1 = "progress E ''Interrupts'' 55 ((progress E ''CPU'' 40 (s \<lparr> bs_segments := seg \<rparr>)) \<lparr> bs_idt := idt_init (env_idt E) (bs_idt s) \<rparr>)"
  obtain t1 on where i: "interrupts_init (env_ports E) (env_pics E) (timer_boot (bs_machine ?s1), bs_interrupts s) = (t1, on)" by fastforce
  have "still m0 (bs_machine ?s1)" using a(2) by (simp add: stills)
  then have "still m0 (timer_ports t1)" using still_interrupts [of m0 "timer_boot (bs_machine ?s1)" "bs_interrupts s"] i by (simp add: timer_boot_def)
  then show ?thesis using a(1) by (auto simp: boot_cpu_def g Let_def i stills)
qed

lemma still_pci_read:
  "still m0 m \<Longrightarrow> inl (env_ports32 E) 0xCFC (outl (env_ports32 E) 0xCF8 a m) = (v, m') \<Longrightarrow> still m0 m'"
  using out32_elsewhere [OF _ refl, of m a] in32_elsewhere [of "outl (env_ports32 E) 0xCF8 a m" m'] by (simp add: still_def)

lemma still_pci_device: "pci_device_new (env_ports32 E) b d f m = (r, m') \<Longrightarrow> still m0 m \<Longrightarrow> still m0 m'"
  by (auto simp: pci_device_new_def pci_read_u16_def pci_read_u32_def pci_read_u8_def split: prod.splits if_splits
      dest!: still_pci_read [rotated])

lemma still_probe: "still m0 (snd s) \<Longrightarrow> still m0 (snd (probe_push (env_ports32 E) a s))"
  by (auto simp: probe_push_def split: prod.splits option.splits dest: still_pci_device)

lemma still_fold_snd: "(\<And>x s. still m0 (snd s) \<Longrightarrow> still m0 (snd (f x s))) \<Longrightarrow> still m0 (snd s) \<Longrightarrow> still m0 (snd (fold f xs s))"
  by (induction xs arbitrary: s) simp_all

lemma still_slot: "still m0 (snd s) \<Longrightarrow> still m0 (snd (scan_slot_of (env_ports32 E) b d s))"
proof -
  assume s: "still m0 (snd s)"
  obtain r m1 where r: "pci_device_new (env_ports32 E) b d 0 (snd s) = (r, m1)" by fastforce
  have 1: "still m0 m1" by (rule still_pci_device [OF r s])
  obtain v m2 where v: "inl (env_ports32 E) 0xCFC (outl (env_ports32 E) 0xCF8 (pci_address b d 0 0x19) m1) = (v, m2)" by fastforce
  have 2: "still m0 m2" by (rule still_pci_read [OF 1 v])
  show ?thesis
    using r 1 2 v by (cases s) (auto simp: scan_slot_of_def pci_read_u8_def Let_def split: option.split
        intro!: still_fold_snd [OF still_probe])
qed

lemma still_scan: "still m0 m \<Longrightarrow> still m0 (snd (scan_pci_bus (env_ports32 E) m))"
  unfolding scan_pci_bus_def by (rule still_fold_snd, rule still_fold_snd, rule still_slot) simp_all

lemma still_report_pci [stills]: "still m0 m \<Longrightarrow> still m0 (report_pci (env_ports E) ds m)"
  by (simp add: report_pci_def stills del: length_greater_0_conv)

text \<open>The devices: a drive that is ready in time is found, and the driver is ready.\<close>

lemma boot_devices_disk:
  assumes fast: "settle \<le> 4" and "still m0 (bs_machine s)"
  obtains d m s' where "boot_devices E s = (\<lparr> ATA = Some d, machine = m \<rparr>, s')" "drv_status d = DriverStatus.Ready"
    "device_info d PRIMARY_BASE False = identity_info ident" "still m0 m"
proof -
  obtain ds m1 where p: "scan_pci_bus (env_ports32 E) (bs_machine s) = (ds, m1)" by fastforce
  then have 1: "still m0 m1" using still_scan [OF assms(2)] by (metis snd_conv)
  define s2 where "s2 = progress E ''PCI'' 75 (s \<lparr> bs_machine := m1 \<rparr>)"
  define s3 where "s3 = progress E ''Storage'' 85 (s2 \<lparr> bs_machine := report_pci (env_ports E) ds (bs_machine s2) \<rparr>)"
  have 3: "still m0 (bs_machine s3)" using 1 by (simp add: s3_def s2_def stills)
  then have i3: "idle (bs_machine s3)" unfolding still_def by (rule conjunct1)
  obtain d m where i: "init_ata_driver (env_ports E) \<lparr> ATA = None, machine = bs_machine s3 \<rparr> = (Inr (), \<lparr> ATA = Some d, machine = m \<rparr>)"
      "drv_status d = DriverStatus.Ready" "device_info d PRIMARY_BASE False = identity_info ident" "idle m" "sec m = sec (bs_machine s3)"
    using init_ata_ok [OF fast i3, of thesis] by blast
  have m: "still m0 m" using i(4,5) 3 by (simp add: still_def)
  show thesis
    by (rule that [of d _ s3, OF _ i(2,3) still_print [OF m]])
      (simp add: boot_devices_def p Let_def s2_def [symmetric] s3_def [symmetric] boot_storage_def i(1))
qed

lemma disk_device: "block_device (ata_block_dev (env_ports E) abd_primary_master) (\<lambda>w. sec (machine w)) cap
    (\<lambda>w. ATA w \<noteq> None \<and> idle (machine w))"
  by (rule disk.blk.block_device_axioms)

lemma kernel_devices_disk:
  assumes fast: "settle \<le> 4" and i: "idle (bs_machine s)"
    and bm: "boot_memory (env_ports E) (env_crate E) (env_mapper E) (env_mem E) (env_cr3 E) (env_bitmap E) (env_cpuid E) hvm
      (bs_machine (progress E ''Memory'' 15 (boot_early E s))) = Some ((pmm, vmm), m1)"
    and kd: "kernel_devices E hvm s = Some (pmm', vmm', info, t, w, s')"
  shows "ATA w \<noteq> None" and "still (bs_machine s) (machine w)"
proof -
  let ?m0 = "bs_machine s"
  let ?s1 = "progress E ''Memory'' 15 (boot_early E s)"
  let ?s2 = "progress E ''System Info'' 30 (progress E ''System Info'' 28 (progress E ''Memory'' 25 (?s1 \<lparr> bs_machine := m1 \<rparr>)))"
  have "still ?m0 ?m0" using i by (simp add: still_def)
  then have "still ?m0 (bs_machine ?s1)" by (simp add: stills)
  then have 2: "still ?m0 (bs_machine ?s2)" using still_memory [OF bm] by (simp add: stills)
  obtain t' s3 where cpu: "boot_cpu E ?s2 = Some (t', s3)"
    using kd by (auto simp: kernel_devices_def Let_def bm split: option.splits)
  obtain d m4 s4 where dev: "boot_devices E s3 = (\<lparr> ATA = Some d, machine = m4 \<rparr>, s4)" and 4: "still ?m0 m4"
    by (rule boot_devices_disk [OF fast still_cpu [OF cpu 2]])
  have "w = \<lparr> ATA = Some d, machine = m4 \<rparr>" using kd by (simp add: kernel_devices_def Let_def bm cpu dev)
  with 4 show "ATA w \<noteq> None" "still ?m0 (machine w)" by simp_all
qed

text \<open>What the boot leaves: the volume of the first sector is mounted, and the sectors are as they were. The
  number of clusters in the message about the volume is defined, since a cluster has sectors.\<close>

lemma mounts_volume:
  assumes w: "ATA w \<noteq> None" "still m0 (machine w)" and c: "0 < cap"
    and b: "bpb_from_bytes (sec m0 0) = Some b" "sectors_per_cluster b \<noteq> 0"
  obtains v w' where "init_vfs (ata_block_dev (env_ports E) abd_primary_master) w = Some (v, w')" "vfs_root v = root_cluster b"
    "fat_fs v = Some \<lparr> bpb = b, fs_device = ata_block_dev (env_ports E) abd_primary_master, partition_lba = 0 \<rparr>"
    "ATA w' \<noteq> None" "still m0 (machine w')"
proof -
  let ?dev = "ata_block_dev (env_ports E) abd_primary_master"
  have "disk.blk.op_ok (mount ?dev 0) w \<lparr> bpb = b, fs_device = ?dev, partition_lba = 0 \<rparr> (sec (machine w))"
    by (rule disk.blk.mount_ok) (use w b c in \<open>simp_all add: still_def\<close>)
  then obtain w' where m: "mount ?dev 0 w = (Inr \<lparr> bpb = b, fs_device = ?dev, partition_lba = 0 \<rparr>, w')"
      "ATA w' \<noteq> None" "still m0 (machine w')"
    using w(2) unfolding disk.blk.op_ok_def still_def by auto
  obtain n where "total_clusters b = Some n"
    using b(2) by (auto simp: total_clusters_def Let_def)
  with m show thesis by (intro that) (auto simp: init_vfs_def)
qed

lemma still_machine:
  assumes "kernel_main E hvm s = Some (k, s')" and "kernel_devices E hvm s = Some (pmm, vmm, info, t, w, s1)"
    and "init_vfs (ata_block_dev (env_ports E) abd_primary_master) w = Some (v, w')" and "still m0 (machine w')"
  shows "still m0 (machine (k_ata k))"
  using assms(1,4) by (auto simp: kernel_main_def Let_def assms(2,3) split: option.splits intro!: still_print stills)

end

section \<open>When the kernel boots\<close>

text \<open>A machine on which the memory phase succeeds: the crate follows its documentation, the bitmap has its
  size, there is memory beyond the heap, the memory map can be read, and no page is mapped in the upper half.\<close>

definition boot_ready :: "('m, 't, 'i) machine_env \<Rightarrow> u64 \<Rightarrow> bool" where
  "boot_ready E hvm \<longleftrightarrow> x86_law (env_crate E) \<and> length (env_bitmap E) = BITMAP_SIZE \<and>
     0x420000 \<le> unat (detect_total_memory (env_cpuid E)) \<and>
     (\<exists>rs. (if hvm \<noteq> 0 then parse_hvm_start_info (phys_new (env_crate E)) (env_mem E) hvm else Some []) = Some rs \<and>
        list_all region_fits rs \<and> length rs < 2 ^ 64) \<and>
     \<not> (\<exists>i4. 256 \<le> i4 \<and> i4 < 512 \<and> 0 < count_entry (env_crate E) (env_mem E) (env_cr3 E) i4 0)"

lemma boot_memory_returns:
  assumes "boot_ready E hvm"
  obtains pmm vmm m1 where "boot_memory (env_ports E) (env_crate E) (env_mapper E) (env_mem E) (env_cr3 E) (env_bitmap E)
    (env_cpuid E) hvm m = Some ((pmm, vmm), m1)"
proof -
  let ?boot = "boot_memory (env_ports E) (env_crate E) (env_mapper E) (env_mem E) (env_cr3 E) (env_bitmap E) (env_cpuid E) hvm m"
  obtain rs where rs: "(if hvm \<noteq> 0 then parse_hvm_start_info (phys_new (env_crate E)) (env_mem E) hvm else Some []) = Some rs"
      "list_all region_fits rs" "length rs < 2 ^ 64" and r: "x86_law (env_crate E)" "length (env_bitmap E) = BITMAP_SIZE"
      "0x420000 \<le> unat (detect_total_memory (env_cpuid E))"
    using assms by (auto simp: boot_ready_def)
  note state = boot_memory_state [OF r rs, of "env_cr3 E" "env_ports E" "env_mapper E" m]
  have "?boot \<noteq> None"
  proof
    assume "?boot = None"
    with state assms show False by (simp add: boot_ready_def)
  qed
  then show thesis using that by auto
qed

text \<open>Then the boot either panics over the message about the volume, or it returns.\<close>

lemma kernel_returns_state:
  assumes "boot_ready E hvm" and "gdt_law (env_gdt E) slots" and "TSS (bs_segments s) = TSS_new"
  obtains pmm vmm info t w s1 where "kernel_devices E hvm s = Some (pmm, vmm, info, t, w, s1)"
    "case init_vfs (ata_block_dev (env_ports E) abd_primary_master) w of
       None \<Rightarrow> kernel_main E hvm s = None
     | Some (v, w') \<Rightarrow> \<exists>k s'. kernel_main E hvm s = Some (k, s') \<and> session_inv k \<and> unused_slots (k_procs k) = 8 \<and>
         k_vfs k = Some v \<and> k_vmm k \<noteq> None \<and> sysinfo_is_initialized (k_sysinfo k) \<and> TICK_COUNT (k_timer k) = 0 \<and>
         k_queue k = scan_init \<and> ATA (k_ata k) = ATA w'"
proof -
  obtain pmm vmm m1 where m: "boot_memory (env_ports E) (env_crate E) (env_mapper E) (env_mem E) (env_cr3 E) (env_bitmap E)
      (env_cpuid E) hvm (bs_machine (progress E ''Memory'' 15 (boot_early E s))) = Some ((pmm, vmm), m1)"
    by (rule boot_memory_returns [OF assms(1)])
  have "x86_law (env_crate E)" using assms(1) by (simp add: boot_ready_def)
  from kernel_devices_outcome [OF assms(2) this assms(3) refl m] obtain info t w s1 where
      d: "kernel_devices E hvm s = Some (pmm, vmm, info, t, w, s1)" "sysinfo_is_initialized info" "TICK_COUNT t = 0"
    by blast
  show thesis
    by (rule that [OF d(1)])
      (use kernel_main_outcome [OF d(1)] booted_session initial_unused d(2,3) in \<open>fastforce split: option.split\<close>)
qed

text \<open>On a machine with a drive that is ready in time and a volume with clusters, it returns, with the volume mounted.\<close>

lemma kernel_boots_disk:
  assumes dm: "drive_machine E phase tf delay sec cap hw ident settle" and fast: "settle \<le> 4"
    and i: "pio_drive.idle phase delay hw (bs_machine s)" and c: "0 < cap"
    and b: "bpb_from_bytes (sec (bs_machine s) 0) = Some b" "sectors_per_cluster b \<noteq> 0"
    and boot: "boot_ready E hvm" "gdt_law (env_gdt E) slots" "TSS (bs_segments s) = TSS_new"
  obtains k s' v where "kernel_main E hvm s = Some (k, s')" "k_vfs k = Some v" "vfs_root v = root_cluster b" "k_queue k = scan_init"
    "fat_fs v = Some \<lparr> bpb = b, fs_device = ata_block_dev (env_ports E) abd_primary_master, partition_lba = 0 \<rparr>"
    "ATA (k_ata k) \<noteq> None" "pio_drive.idle phase delay hw (machine (k_ata k))" "sec (machine (k_ata k)) = sec (bs_machine s)"
proof -
  note still = drive_machine.still_def [OF dm]
  obtain pmm0 vmm0 m1 where bm: "boot_memory (env_ports E) (env_crate E) (env_mapper E) (env_mem E) (env_cr3 E) (env_bitmap E)
      (env_cpuid E) hvm (bs_machine (progress E ''Memory'' 15 (boot_early E s))) = Some ((pmm0, vmm0), m1)"
    by (rule boot_memory_returns [OF boot(1)])
  obtain pmm vmm info t w s1 where kd: "kernel_devices E hvm s = Some (pmm, vmm, info, t, w, s1)" and
    out: "case init_vfs (ata_block_dev (env_ports E) abd_primary_master) w of
       None \<Rightarrow> kernel_main E hvm s = None
     | Some (v, w') \<Rightarrow> \<exists>k s'. kernel_main E hvm s = Some (k, s') \<and> session_inv k \<and> unused_slots (k_procs k) = 8 \<and>
         k_vfs k = Some v \<and> k_vmm k \<noteq> None \<and> sysinfo_is_initialized (k_sysinfo k) \<and> TICK_COUNT (k_timer k) = 0 \<and>
         k_queue k = scan_init \<and> ATA (k_ata k) = ATA w'"
    by (rule kernel_returns_state [OF boot])
  obtain v w' where v: "init_vfs (ata_block_dev (env_ports E) abd_primary_master) w = Some (v, w')" "vfs_root v = root_cluster b"
      "fat_fs v = Some \<lparr> bpb = b, fs_device = ata_block_dev (env_ports E) abd_primary_master, partition_lba = 0 \<rparr>"
      "ATA w' \<noteq> None" "drive_machine.still phase delay sec hw (bs_machine s) (machine w')"
    by (rule drive_machine.mounts_volume [OF dm drive_machine.kernel_devices_disk [OF dm fast i bm kd] c b])
  from out v(1) obtain k s' where k: "kernel_main E hvm s = Some (k, s')" "k_vfs k = Some v" "k_queue k = scan_init" "ATA (k_ata k) = ATA w'"
    by auto
  have "drive_machine.still phase delay sec hw (bs_machine s) (machine (k_ata k))"
    by (rule drive_machine.still_machine [OF dm k(1) kd v(1,5)])
  with k v(2-4) show thesis by (intro that [of k s' v]) (simp_all add: still)
qed

section \<open>Properties\<close>

text \<open>C1: A file survives a reboot, on a drive that is ready in time. On a machine whose primary master drive holds a
  FAT32 volume with room for a file, and is ready again after at most four looks at its status when it has been reset
  (\<open>settle\<close>: the driver looks four times and does not wait, while the protocol sets no limit, and a slower
  drive may not be found), the kernel boots; the line \<open>write NAME TEXT\<close> stores the file; and after any restart that
  keeps the sectors of the drive, the kernel boots again and the line \<open>cat NAME\<close> shows the text. The
  drive is a machine that follows the ATA protocol: it is detected, reset and read through its ports only, and
  what the boot does to the other devices leaves it alone.\<close>

theorem file_survives_reboot:
  fixes E :: "('m, 't, 'i) machine_env"
  assumes drive: "drive_machine E phase tf delay sec cap hw ident settle" "settle \<le> 4" "pio_drive.idle phase delay hw (bs_machine s)"
    and boot: "boot_ready E hvm" "gdt_law (env_gdt E) slots" "TSS (bs_segments s) = TSS_new"
    and b: "bpb_from_bytes (sec (bs_machine s) 0) = Some b" "0 < reserved_sector_count b"
    and fs: "fs = \<lparr> bpb = b, fs_device = ata_block_dev (env_ports E) abd_primary_master, partition_lba = 0 \<rparr>" "fat_geometry cap fs"
    and i: "intact_chain b (fat_entry fs (sec (bs_machine s))) (root_cluster b # cs)"
    and es: "es = dir_entries fs (sec (bs_machine s)) (root_cluster b # cs)" "dir_clean es" "dir_slot es \<noteq> None"
    and c: "first_free b (fat_entry fs (sec (bs_machine s))) \<noteq> None"
    and p: "root_name path name" "valid_83 (to_upper_83 name)" "hd (to_upper_83 name) \<noteq> 0xE5"
      "dir_lookup es (to_upper_83 name) = None"
    and words: "\<forall>w\<in>set (path # ws). word_bytes w" "ws \<noteq> []"
    and lines: "types_line l1 (join_space (str_bytes ''write'' # path # ws))" "types_line l2 (join_space [str_bytes ''cat'', path])"
    and len: "length (join_space (str_bytes ''write'' # path # ws)) \<le> 256" "length (join_space ws) \<le> cluster_size_bytes b"
  shows "\<exists>k1 s1 k2. kernel_main E hvm s = Some (k1, s1) \<and>
    run_lines decode k0 pf [l1] k1 = Some ([Fs_Reply (Wrote (length (join_space ws)) path)], k2) \<and>
    pio_drive.idle phase delay hw (machine (k_ata k2)) \<and>
    (\<forall>s2. TSS (bs_segments s2) = TSS_new \<and> pio_drive.idle phase delay hw (bs_machine s2) \<and>
       sec (bs_machine s2) = sec (machine (k_ata k2)) \<longrightarrow>
       (\<exists>k3 s3 k4. kernel_main E hvm s2 = Some (k3, s3) \<and>
          run_lines decode k0 pf [l2] k3 = Some ([Fs_Reply (Contents (join_space ws @ [0x0A]))], k4)))"
proof -
  let ?dev = "ata_block_dev (env_ports E) abd_primary_master" and ?content = "\<lambda>w :: 'm ata_world. sec (machine w)"
  let ?inv = "\<lambda>w :: 'm ata_world. ATA w \<noteq> None \<and> pio_drive.idle phase delay hw (machine w)"
  note bd = drive_machine.disk_device [OF drive(1)]
  have m: "mounted_on ?dev cap fs" using fs by (simp add: mounted_on_def)
  have bp: "bpb fs = b" using fs(1) by simp
  have cap: "0 < cap" using fat_geometryD(5,7) [OF fs(2)] by (cases "cap = 0") (simp_all add: fat_nclusters_def word_gt_0)
  have spc: "sectors_per_cluster b \<noteq> 0" using fat_geometryD(2) [OF fs(2)] bp by auto
  obtain k1 s1 v where k1: "kernel_main E hvm s = Some (k1, s1)" and
      v: "k_vfs k1 = Some v" "vfs_root v = root_cluster b" "k_queue k1 = scan_init" "fat_fs v = Some fs"
      "?inv (k_ata k1)" "sec (machine (k_ata k1)) = sec (bs_machine s)"
    by (rule kernel_boots_disk [OF drive cap b(1) spc boot]) (simp add: fs(1))
  have q: "scan_inv (k_queue k1)" "scan_items (k_queue k1) = []" using v(3) scan_init_inv by simp_all
  obtain k2 where k2: "run_line decode k0 pf l1 k1 = Some (Fs_Reply (Wrote (length (join_space ws)) path), k2)" "?inv (k_ata k2)"
      "stored_file fs (?content (k_ata k2)) (root_cluster b # cs) (to_upper_83 name) (join_space ws)"
      "\<And>l. is_reserved_sector fs l \<Longrightarrow> ?content (k_ata k2) l = ?content (k_ata k1) l"
    by (rule typed_write [OF bd m v(5,1,4) q, of cs path name ws l1 decode k0 pf])
      (use i es c p words lines(1) len in \<open>simp_all add: v(2,6) bp del: dir_entries_Cons\<close>)
  have "is_reserved_sector fs 0" using b(2) by (simp add: is_reserved_sector_def bp word_less_nat_alt)
  then have b2: "bpb_from_bytes (sec (machine (k_ata k2)) 0) = Some b" using k2(4) b(1) v(6) by simp
  have "\<exists>k3 s3 k4. kernel_main E hvm s2 = Some (k3, s3) \<and>
      run_lines decode k0 pf [l2] k3 = Some ([Fs_Reply (Contents (join_space ws @ [0x0A]))], k4)"
    if s2: "TSS (bs_segments s2) = TSS_new" "pio_drive.idle phase delay hw (bs_machine s2)"
      "sec (bs_machine s2) = sec (machine (k_ata k2))" for s2
  proof -
    obtain k3 s3 v' where k3: "kernel_main E hvm s2 = Some (k3, s3)" and
        v': "k_vfs k3 = Some v'" "vfs_root v' = root_cluster b" "k_queue k3 = scan_init" "fat_fs v' = Some fs"
        "?inv (k_ata k3)" "sec (machine (k_ata k3)) = sec (bs_machine s2)"
      by (rule kernel_boots_disk [OF drive(1,2) s2(2) cap b2 [folded s2(3)] spc boot(1,2) s2(1)]) (simp add: fs(1))
    obtain k4 where "run_line decode k0 pf l2 k3 = Some (Fs_Reply (Contents (join_space ws @ [0x0A])), k4)"
      by (rule typed_cat [OF bd m v'(5,1,4) _ _ p(1) _ words(1) lines(2) cat_line_shorter [OF len(1) words(2)], of cs decode k0 pf])
        (use k2(3) scan_init_inv in \<open>simp_all add: v'(2,3,6) s2(3) del: dir_entries_Cons\<close>)
    with k3 show ?thesis by simp
  qed
  with k1 k2(1,2) show ?thesis by (intro exI [of _ k1] exI [of _ s1] exI [of _ k2]) simp
qed

text \<open>A machine with the executable drive, and the sample volume on it.\<close>

definition disk_env :: "(pio_disk, gdt_slot list, nat \<Rightarrow> gate option) machine_env" where
  "disk_env = \<lparr> env_ports = pd_ports 2 100, env_ports32 = \<lparr> inl = (\<lambda>_ m. (0xFFFFFFFF, m)), outl = (\<lambda>_ _ m. m) \<rparr>,
     env_pics = \<lparr> pics_initialize = (\<lambda>_ _ m. m), notify_end_of_interrupt = (\<lambda>_ _ _ m. m) \<rparr>,
     env_crate = documented_crate, env_mapper = one_mapper, env_gdt = documented_gdt, env_idt = documented_idt,
     env_cpuid = (\<lambda>_. \<lparr> cpuid_eax = 0, cpuid_ebx = 0, cpuid_ecx = 0, cpuid_edx = 0 \<rparr>), env_mem = one_mem, env_cr3 = 0x1000,
     env_bitmap = replicate BITMAP_SIZE 0 \<rparr>"

definition disk_boot :: "(pio_disk, gdt_slot list, nat \<Rightarrow> gate option) boot_state" where
  "disk_boot = \<lparr> bs_machine = machine sample_world, bs_vga = (\<lambda>_. 0),
     bs_segments = \<lparr> TSS = TSS_new, gdt_register = None, reg_cs = 0, reg_ds = 0, task_register = 0 \<rparr>, bs_idt = None,
     bs_interrupts = False \<rparr>"

interpretation disk_machine: drive_machine disk_env pd_phase pd_tf pd_delay pd_sec "pd_capacity 100" pd_hw "pd_identity 100" 4
  unfolding drive_machine_def drive_machine_axioms_def
  using bootable.boot_drive_axioms [of 2 100] by (simp add: disk_env_def)

lemma disk_env_ready: "boot_ready disk_env 0"
proof -
  have "\<not> (\<exists>i4. 256 \<le> i4 \<and> i4 < 512 \<and> 0 < count_entry documented_crate one_mem 0x1000 i4 0)"
    using one_mem_init vmm_init_None [OF documented_crate_law, of one_mapper one_mem "0x1000"] by auto
  then show ?thesis
    unfolding boot_ready_def by (simp add: disk_env_def documented_crate_law detect_total_memory_def Let_def)
qed

lemma disk_boots:
  obtains k s where "kernel_main disk_env 0 disk_boot = Some (k, s)"
proof -
  have m: "pd_sec (bs_machine disk_boot) 0 = sample_boot_sector"
    by (simp add: disk_boot_def sample_world_def sample_sector_0)
  have idle: "pio_drive.idle pd_phase pd_delay pd_hw (bs_machine disk_boot)"
    using sample_world_inv by (simp add: disk_boot_def sample_inv_def)
  have b: "bpb_from_bytes (pd_sec (bs_machine disk_boot) 0) = Some sample_bpb"
    unfolding m by (rule sample_boot_sector_ok(2))
  have spc: "sectors_per_cluster sample_bpb \<noteq> 0"
    using fat_geometryD(2) [OF sample_geometry] by (auto simp: sample_fs_def)
  have g: "gdt_law (env_gdt disk_env) (\<lambda>t. t)" "TSS (bs_segments disk_boot) = TSS_new"
    by (simp_all add: disk_env_def disk_boot_def documented_gdt_law)
  have c: "0 < pd_capacity 100" by (simp add: sample_capacity)
  show thesis
    by (rule kernel_boots_disk [OF disk_machine.drive_machine_axioms order_refl idle c b spc disk_env_ready g]) (rule that)
qed

theorem file_survives_reboot_witness:
  "\<forall>pf :: pio_disk platform. \<exists>k1 s1 k2 k3 s3 k4. kernel_main disk_env 0 disk_boot = Some (k1, s1) \<and>
     run_lines (\<lambda>k b. (k, None)) () pf [serial_line (str_bytes ''write /hi a b'')] k1 =
       Some ([Fs_Reply (Wrote 3 (str_bytes ''/hi''))], k2) \<and>
     kernel_main disk_env 0 (disk_boot \<lparr> bs_machine := machine (k_ata k2) \<rparr>) = Some (k3, s3) \<and>
     run_lines (\<lambda>k b. (k, None)) () pf [serial_line (str_bytes ''cat /hi'')] k3 =
       Some ([Fs_Reply (Contents (str_bytes ''a b'' @ [0x0A]))], k4)"
proof
  fix pf :: "pio_disk platform"
  have s: "join_space (str_bytes ''write'' # [0x2F, 0x68, 0x69] # [[0x61], [0x62]]) = str_bytes ''write /hi a b''"
    "join_space [str_bytes ''cat'', [0x2F, 0x68, 0x69]] = str_bytes ''cat /hi''"
    "join_space [[0x61], [0x62]] = str_bytes ''a b''" "str_bytes ''/hi'' = [0x2F, 0x68, 0x69]"
    "\<forall>w\<in>set ([0x2F, 0x68, 0x69] # [[0x61], [0x62]]). word_bytes w"
    by code_simp+
  have l: "length (str_bytes ''write /hi a b'') \<le> 256" "length (str_bytes ''a b'') = 3"
    by (simp_all add: str_bytes_def)
  have m: "bs_machine disk_boot = machine sample_world" "pd_sec (machine sample_world) = sample_sectors"
    by (simp_all add: disk_boot_def sample_world_def)
  have fs: "sample_fs = \<lparr> bpb = sample_bpb, fs_device = ata_block_dev (env_ports disk_env) abd_primary_master, partition_lba = 0 \<rparr>"
    by (simp add: sample_fs_def sample_dev_def disk_env_def)
  have g: "gdt_law (env_gdt disk_env) (\<lambda>t. t)" "TSS (bs_segments disk_boot) = TSS_new"
    by (simp_all add: disk_env_def disk_boot_def documented_gdt_law)
  have idle: "pio_drive.idle pd_phase pd_delay pd_hw (bs_machine disk_boot)"
    using sample_world_inv by (simp add: m sample_inv_def)
  have t: "TSS (bs_segments (disk_boot \<lparr> bs_machine := x \<rparr>)) = TSS_new" for x by (simp add: disk_boot_def)
  obtain k1 s1 k2 where k: "kernel_main disk_env 0 disk_boot = Some (k1, s1)"
      "run_lines (\<lambda>k b. (k, None)) () pf [serial_line (str_bytes ''write /hi a b'')] k1 =
        Some ([Fs_Reply (Wrote (length (str_bytes ''a b'')) [0x2F, 0x68, 0x69])], k2)"
      "pio_drive.idle pd_phase pd_delay pd_hw (machine (k_ata k2))"
    and next_boot: "\<And>s2. TSS (bs_segments s2) = TSS_new \<and> pio_drive.idle pd_phase pd_delay pd_hw (bs_machine s2) \<and>
        pd_sec (bs_machine s2) = pd_sec (machine (k_ata k2)) \<Longrightarrow>
        \<exists>k3 s3 k4. kernel_main disk_env 0 s2 = Some (k3, s3) \<and>
          run_lines (\<lambda>k b. (k, None)) () pf [serial_line (str_bytes ''cat /hi'')] k3 =
            Some ([Fs_Reply (Contents (str_bytes ''a b'' @ [0x0A]))], k4)"
    using file_survives_reboot [OF disk_machine.drive_machine_axioms order_refl idle disk_env_ready g, of sample_bpb sample_fs "[]" _
        "[0x2F, 0x68, 0x69]" "[0x68, 0x69]" "[[0x61], [0x62]]" "serial_line (str_bytes ''write /hi a b'')"
        "serial_line (str_bytes ''cat /hi'')" "\<lambda>k b. (k, None)" "()" pf, OF _ _ fs sample_geometry _ refl]
      sample_boot_sector_ok(2) sample_sector_0 sample_chain sample_root sample_dir_slot sample_free sample_name s(5) l
    unfolding s(1-3) m
    by (auto simp: serial_line_typed simp del: dir_entries_Cons)
  show "\<exists>k1 s1 k2 k3 s3 k4. kernel_main disk_env 0 disk_boot = Some (k1, s1) \<and>
     run_lines (\<lambda>k b. (k, None)) () pf [serial_line (str_bytes ''write /hi a b'')] k1 =
       Some ([Fs_Reply (Wrote 3 (str_bytes ''/hi''))], k2) \<and>
     kernel_main disk_env 0 (disk_boot \<lparr> bs_machine := machine (k_ata k2) \<rparr>) = Some (k3, s3) \<and>
     run_lines (\<lambda>k b. (k, None)) () pf [serial_line (str_bytes ''cat /hi'')] k3 =
       Some ([Fs_Reply (Contents (str_bytes ''a b'' @ [0x0A]))], k4)"
    using k next_boot [of "disk_boot \<lparr> bs_machine := machine (k_ata k2) \<rparr>"] t by (auto simp: l(2) s(4))
qed

end
