(* ===== verification/Kernel_Reach.thy ===== *)
theory Kernel_Reach
  imports Boot_Disk
begin

text \<open>
  The running kernel as a transition system: from the state the boot leaves, by timer, keyboard and
  serial interrupts and by the lines that the terminal reads, in any order. Interrupts work on the same
  machine as the disk driver. The theorem states what holds in every state that is reached.
\<close>

section \<open>Steps\<close>

definition timer_irq :: "'m port_io \<Rightarrow> 'm kernel \<Rightarrow> 'm kernel" where
  "timer_irq P k =
     (let t = timer_interrupt_handler P ((k_timer k) \<lparr> timer_ports := machine (k_ata k) \<rparr>) in
      k \<lparr> k_timer := t, k_ata := (k_ata k) \<lparr> machine := timer_ports t \<rparr> \<rparr>)"

definition keyboard_irq :: "'m port_io \<Rightarrow> 'm pics \<Rightarrow> 'm kernel \<Rightarrow> 'm kernel" where
  "keyboard_irq P C k =
     (case keyboard_interrupt_handler P C (k_queue k, machine (k_ata k)) of
        (q, m) \<Rightarrow> k \<lparr> k_queue := q, k_ata := (k_ata k) \<lparr> machine := m \<rparr> \<rparr>)"

definition serial_irq :: "'m pics \<Rightarrow> 'm kernel \<Rightarrow> 'm kernel" where
  "serial_irq C k = k \<lparr> k_ata := (k_ata k) \<lparr> machine := serial_interrupt_handler C (machine (k_ata k)) \<rparr> \<rparr>"

datatype event = Ev_Timer | Ev_Keyboard | Ev_Serial | Ev_Line reply

text \<open>A line ends the run when it halts the machine; a panic is no step.\<close>

inductive kernel_step ::
  "('m, 't, 'i) machine_env \<Rightarrow> ('k \<Rightarrow> u8 \<Rightarrow> 'k \<times> decoded_key option) \<Rightarrow> 'k \<Rightarrow> 'm platform \<Rightarrow> 'm kernel \<Rightarrow> event \<Rightarrow> 'm kernel \<Rightarrow> bool"
  for E decode k0 pf where
  step_timer: "kernel_step E decode k0 pf k Ev_Timer (timer_irq (env_ports E) k)"
| step_keyboard: "kernel_step E decode k0 pf k Ev_Keyboard (keyboard_irq (env_ports E) (env_pics E) k)"
| step_serial: "kernel_step E decode k0 pf k Ev_Serial (serial_irq (env_pics E) k)"
| step_line: "run_line decode k0 pf l k = Some (r, k') \<Longrightarrow> kernel_step E decode k0 pf k (Ev_Line r) k'"

inductive_cases timer_stepE: "kernel_step E decode k0 pf k Ev_Timer k'"
inductive_cases line_stepE: "kernel_step E decode k0 pf k (Ev_Line r) k'"

definition halts :: "event \<Rightarrow> bool" where
  "halts e \<longleftrightarrow> (\<exists>s. e = Ev_Line (Halted s))"

inductive kernel_run ::
  "('m, 't, 'i) machine_env \<Rightarrow> ('k \<Rightarrow> u8 \<Rightarrow> 'k \<times> decoded_key option) \<Rightarrow> 'k \<Rightarrow> 'm platform \<Rightarrow> 'm kernel \<Rightarrow> event list \<Rightarrow> 'm kernel \<Rightarrow> bool"
  for E decode k0 pf where
  run_start: "kernel_run E decode k0 pf k [] k"
| run_step: "kernel_run E decode k0 pf k es k1 \<Longrightarrow> list_all (\<lambda>e. \<not> halts e) es \<Longrightarrow> kernel_step E decode k0 pf k1 e k2 \<Longrightarrow>
    kernel_run E decode k0 pf k (es @ [e]) k2"

section \<open>The invariant\<close>

text \<open>The bounds of a session; no command leaves a descriptor open; the process table only fills up; and
  what the boot found stays.\<close>

definition kernel_inv :: "'m kernel \<Rightarrow> 'm kernel \<Rightarrow> bool" where
  "kernel_inv k1 k \<longleftrightarrow> session_inv k \<and> unused_slots (k_procs k) \<le> unused_slots (k_procs k1) \<and>
     (\<exists>v c. k_vfs k1 = Some v \<and> k_vfs k = Some (v \<lparr> cwd := c \<rparr>)) \<and>
     k_vmm k = k_vmm k1 \<and> k_sysinfo k = k_sysinfo k1"

lemma kernel_inv_refl: "session_inv k \<Longrightarrow> kernel_inv k k"
  using session_rel_refl [of k] by (auto simp: kernel_inv_def session_rel_def session_inv_def)

lemma kernel_inv_irq: "kernel_inv k1 k \<Longrightarrow> kernel_inv k1 (timer_irq P k)" "kernel_inv k1 k \<Longrightarrow> kernel_inv k1 (serial_irq C k)"
  by (simp_all add: kernel_inv_def timer_irq_def serial_irq_def Let_def session_inv_def)

lemma kernel_inv_keyboard: "kernel_inv k1 k \<Longrightarrow> kernel_inv k1 (keyboard_irq P C k)"
  using scan.invar_enq [of "k_queue k"]
  by (auto simp: kernel_inv_def keyboard_irq_def keyboard_interrupt_handler_def session_inv_def split: prod.split)

lemma kernel_inv_line:
  assumes "kernel_inv k1 k" and "run_line decode k0 pf l k = Some (r, k')"
  shows "kernel_inv k1 k'" "k_timer k' = k_timer k"
proof -
  have "session_inv k' \<and> session_rel k k'"
    by (rule run_line_session [OF assms(2)]) (use assms(1) in \<open>simp add: kernel_inv_def\<close>)
  then have s: "session_inv k'" "unused_slots (k_procs k') \<le> unused_slots (k_procs k)" "k_vmm k' = k_vmm k"
      "k_sysinfo k' = k_sysinfo k" "k_timer k' = k_timer k" and v: "\<exists>v c. k_vfs k = Some v \<and> k_vfs k' = Some (v \<lparr> cwd := c \<rparr>)"
    by (auto simp: session_rel_def)
  obtain v c where "k_vfs k1 = Some v" "k_vfs k' = Some (v \<lparr> cwd := c \<rparr>)"
    using v assms(1) by (auto simp: kernel_inv_def)
  with s(1-4) assms(1) show "kernel_inv k1 k'"
    unfolding kernel_inv_def by (metis order_trans)
  show "k_timer k' = k_timer k" by (rule s(5))
qed

lemma kernel_inv_step: "kernel_step E decode k0 pf k e k' \<Longrightarrow> kernel_inv k1 k \<Longrightarrow> kernel_inv k1 k'"
  by (induction rule: kernel_step.induct) (simp_all add: kernel_inv_irq kernel_inv_keyboard kernel_inv_line(1))

lemma step_ticks:
  "kernel_step E decode k0 pf k e k' \<Longrightarrow> kernel_inv k1 k \<Longrightarrow>
    TICK_COUNT (k_timer k') = TICK_COUNT (k_timer k) + of_bool (e = Ev_Timer)"
  by (induction rule: kernel_step.induct)
    (auto simp: timer_irq_def keyboard_irq_def serial_irq_def Let_def timer_interrupt_handler_def tick_def kernel_inv_line(2)
      split: prod.split)

lemma run_keeps:
  assumes "kernel_run E decode k0 pf k1 es k" and "session_inv k1"
  shows "kernel_inv k1 k \<and> TICK_COUNT (k_timer k) = TICK_COUNT (k_timer k1) + of_nat (count_list es Ev_Timer)"
  using assms
proof (induction rule: kernel_run.induct)
  case (run_step k es k1 e k2)
  then show ?case using kernel_inv_step step_ticks by fastforce
qed (simp add: kernel_inv_refl)

section \<open>Properties\<close>



end
