(* ===== verification/Kernel_Globals.thy ===== *)
theory Kernel_Globals
  imports Vmm
begin

text \<open>
  The global managers: \<open>PMM\<close> of \<open>kernel/src/memory/physmem.rs\<close> and \<open>VMM\<close> of \<open>kernel/src/memory/vmm.rs\<close>. Each is
  a cell with a flag; the flag is set after the cell, and an access that sees the flag reads the cell
  without a check. The rest of the development uses an optional manager instead: the steps below never
  make the unchecked read undefined, and the option is what they leave.
\<close>

section \<open>A cell with a flag\<close>

record 'a singleton =
  sg_cell :: "'a option"
  sg_ready :: bool

datatype 'a access = Acc_Panic | Acc_Undefined | Acc 'a

definition sg_empty :: "'a singleton" where
  "sg_empty = \<lparr> sg_cell = None, sg_ready = False \<rparr>"

text \<open>The two stores of \<open>init\<close>.\<close>

definition sg_store :: "'a \<Rightarrow> 'a singleton \<Rightarrow> 'a singleton" where
  "sg_store x s = s \<lparr> sg_cell := Some x \<rparr>"

definition sg_release :: "'a singleton \<Rightarrow> 'a singleton" where
  "sg_release s = s \<lparr> sg_ready := True \<rparr>"

text \<open>The access with \<open>unwrap_unchecked\<close>.\<close>

definition sg_access :: "'a singleton \<Rightarrow> 'a access" where
  "sg_access s = (if \<not> sg_ready s then Acc_Panic else case sg_cell s of None \<Rightarrow> Acc_Undefined | Some x \<Rightarrow> Acc x)"

section \<open>The two instances\<close>

definition pmm_init_global :: "u8 list \<Rightarrow> u64 \<Rightarrow> phys_mem singleton \<Rightarrow> phys_mem singleton" where
  "pmm_init_global bitmap total_memory s = sg_release (sg_store (pmm_init (pmm_new bitmap total_memory)) s)"

definition pmm_access :: "phys_mem singleton \<Rightarrow> phys_mem access" where
  "pmm_access s = sg_access s"

definition vmm_init_global ::
  "x86_crate \<Rightarrow> page_mapper \<Rightarrow> phys_bytes \<Rightarrow> u64 \<Rightarrow> VirtualMemoryManager singleton \<Rightarrow> VirtualMemoryManager singleton option" where
  "vmm_init_global cr mp mem cr3 s = map_option (\<lambda>v. sg_release (sg_store v s)) (vmm_init cr mp mem cr3)"

definition vmm_access :: "VirtualMemoryManager singleton \<Rightarrow> VirtualMemoryManager access" where
  "vmm_access s = sg_access s"

definition vmm_is_initialized :: "VirtualMemoryManager singleton \<Rightarrow> bool" where
  "vmm_is_initialized s = sg_ready s"

definition map_access :: "('a \<Rightarrow> 'b) \<Rightarrow> 'a access \<Rightarrow> 'b access" where
  "map_access f a = (case a of Acc_Panic \<Rightarrow> Acc_Panic | Acc_Undefined \<Rightarrow> Acc_Undefined | Acc x \<Rightarrow> Acc (f x))"

definition translate_global :: "page_mapper \<Rightarrow> phys_bytes \<Rightarrow> u64 \<Rightarrow> VirtualMemoryManager singleton \<Rightarrow> u64 option access" where
  "translate_global mp mem virt s = map_access (\<lambda>v. translate_addr mp (page_table v) virt mem) (vmm_access s)"

definition vmm_statistics :: "VirtualMemoryManager \<Rightarrow> VmmStatistics" where
  "vmm_statistics v = vmm_stats v"

definition statistics_global :: "VirtualMemoryManager singleton \<Rightarrow> VmmStatistics access" where
  "statistics_global s = map_access vmm_statistics (vmm_access s)"

definition validate_global :: "x86_crate \<Rightarrow> phys_bytes \<Rightarrow> VirtualMemoryManager singleton \<Rightarrow> bool access" where
  "validate_global cr mem s = map_access (vmm_validate cr mem) (vmm_access s)"

text \<open>The allocator that the mapper is given: \<open>None\<close> is the panic of a manager that is not there, and the
  address of a frame is aligned down.\<close>

definition pmm_frame_allocate :: "pmm_global \<Rightarrow> (u64 option \<times> pmm_global) option" where
  "pmm_frame_allocate g = map_option (\<lambda>(r, g'). (map_option (\<lambda>a. a AND NOT 0xFFF) r, g')) (physmem_allocate_frame g)"

section \<open>Reading the managers\<close>

definition pfa_statistics :: "frame_allocator \<Rightarrow> memory_statistics" where
  "pfa_statistics a = stats a"

definition pmm_statistics :: "phys_mem \<Rightarrow> memory_statistics" where
  "pmm_statistics m = pfa_statistics (pmm_alloc m)"

definition reserved_base :: "reserved_region \<Rightarrow> u64" where
  "reserved_base r = mr_base (rr_region r)"

definition reserved_end :: "(u64 \<Rightarrow> u64 option) \<Rightarrow> reserved_region \<Rightarrow> u64 option" where
  "reserved_end pa_new r = region_end pa_new (rr_region r)"

definition reserved_size :: "reserved_region \<Rightarrow> u64" where
  "reserved_size r = memory_region.mr_size (rr_region r)"

definition mark_frame_free_public :: "nat \<Rightarrow> frame_allocator \<Rightarrow> frame_allocator" where
  "mark_frame_free_public frame a = mark_frame_free a frame"

definition recalculate_next_free_public :: "frame_allocator \<Rightarrow> frame_allocator" where
  "recalculate_next_free_public a = recalculate_next_free a"

section \<open>The unchecked read\<close>

text \<open>What the kernel does with a cell: the two stores of an initialisation, the second right after the
  first, and updates through the reference that an access returns. Accesses may come between.\<close>

inductive sg_reach :: "'a singleton \<Rightarrow> bool" where
  sg_start: "sg_reach sg_empty"
| sg_init_store: "sg_reach s \<Longrightarrow> sg_reach (sg_store x s)"
| sg_init_release: "sg_reach s \<Longrightarrow> sg_reach (sg_release (sg_store x s))"
| sg_update: "sg_reach s \<Longrightarrow> sg_access s = Acc x \<Longrightarrow> sg_reach (s \<lparr> sg_cell := Some (f x) \<rparr>)"

lemma sg_reach_cell: "sg_reach s \<Longrightarrow> sg_ready s \<Longrightarrow> sg_cell s \<noteq> None"
  by (induction rule: sg_reach.induct) (simp_all add: sg_empty_def sg_store_def sg_release_def)

text \<open>The option that the other theories use.\<close>

definition sg_option :: "'a singleton \<Rightarrow> 'a option" where
  "sg_option s = (if sg_ready s then sg_cell s else None)"

lemma sg_access_option:
  assumes "sg_reach s"
  shows "sg_access s = (case sg_option s of None \<Rightarrow> Acc_Panic | Some x \<Rightarrow> Acc x)"
  using sg_reach_cell [OF assms] by (auto simp: sg_access_def sg_option_def)

lemma pmm_init_global_option: "sg_option (pmm_init_global bitmap total_memory s) = physmem_init bitmap total_memory"
  by (simp add: sg_option_def pmm_init_global_def sg_store_def sg_release_def physmem_init_def)

lemma vmm_init_global_option: "vmm_init_global cr mp mem cr3 s = Some s' \<Longrightarrow> sg_option s' = vmm_init cr mp mem cr3"
  by (auto simp: vmm_init_global_def sg_option_def sg_store_def sg_release_def)

text \<open>In every state the kernel reaches an access panics before the initialisation and reads the manager
  after it; the read without a check is never undefined, also between the two stores.\<close>

theorem unchecked_read_safe:
  assumes "sg_reach s"
  shows "sg_access s \<noteq> Acc_Undefined \<and> (sg_access s = Acc_Panic \<longleftrightarrow> \<not> sg_ready s)"
  using sg_reach_cell [OF assms] by (auto simp: sg_access_def split: option.split)

theorem unchecked_read_safe_witness:
  "sg_access (sg_store (0 :: nat) sg_empty) = Acc_Panic \<and> sg_access (sg_release (sg_store (0 :: nat) sg_empty)) \<noteq> Acc_Undefined"
  using unchecked_read_safe [OF sg_init_release [OF sg_start], of "0 :: nat"]
  by (simp add: sg_access_def sg_store_def sg_release_def sg_empty_def)

end
