(* ===== verification/Serial_Console.thy ===== *)
theory Serial_Console
  imports Vga Ata_Driver Fmt
begin

text \<open>
  The serial port after the early boot: \<open>kernel/src/serial.rs\<close>, which prints through the crate uart_16550, the
  byte that the terminal reads (\<open>serial_read_byte\<close> of \<open>kernel/src/terminal/mod.rs\<close>), and the panic handler
  \<open>kernel/src/panic.rs\<close>, which prints to the screen and to the port. The crate is a parameter.
\<close>

section \<open>Printing\<close>

text \<open>What is used of the crate: the set-up of a port, and sending a string, which cannot fail.\<close>

record 'm uart =
  uart_init :: "u16 \<Rightarrow> 'm \<Rightarrow> 'm"
  uart_write_str :: "u16 \<Rightarrow> bytes \<Rightarrow> 'm \<Rightarrow> 'm"

record 'm serial_state =
  SERIAL1 :: "u16 option"
  serial_machine :: 'm

definition com_ports :: "u16 list" where
  "com_ports = [0x3F8, 0x2F8, 0x3E8, 0x2E8]"

text \<open>The loop over the ports leaves after its first round.\<close>

fun serial_probe :: "'m uart \<Rightarrow> u16 list \<Rightarrow> u16 \<Rightarrow> 'm \<Rightarrow> u16 \<times> 'm" where
  "serial_probe U [] found_port m = (found_port, m)"
| "serial_probe U (port_addr # ports) found_port m = (port_addr, uart_init U port_addr m)"

text \<open>The global is set up on its first use.\<close>

definition serial_force :: "'m uart \<Rightarrow> 'm serial_state \<Rightarrow> u16 \<times> 'm serial_state" where
  "serial_force U s =
     (case SERIAL1 s of
        Some p \<Rightarrow> (p, s)
      | None \<Rightarrow> (case serial_probe U com_ports 0x3F8 (serial_machine s) of
                  (p, m) \<Rightarrow> (p, s \<lparr> SERIAL1 := Some p, serial_machine := m \<rparr>)))"

definition serial_print :: "'m uart \<Rightarrow> bytes list \<Rightarrow> 'm serial_state \<Rightarrow> 'm serial_state" where
  "serial_print U pieces s =
     (case serial_force U s of (p, s) \<Rightarrow> s \<lparr> serial_machine := fold (uart_write_str U p) pieces (serial_machine s) \<rparr>)"

definition serial_println :: "'m uart \<Rightarrow> bytes list \<Rightarrow> 'm serial_state \<Rightarrow> 'm serial_state" where
  "serial_println U pieces = serial_print U (pieces @ [[0x0A]])"

section \<open>The panic handler\<close>

text \<open>The interrupts are switched off, both consoles get the message, and the processor halts in the state
  that is returned. \<open>None\<close>: printing on the screen panics again.\<close>

definition vga_println :: "bytes list \<Rightarrow> (Writer, vga_panic, unit) io" where
  "vga_println pieces = vga_print (pieces @ [[0x0A]])"

definition panic_handler ::
  "'m uart \<Rightarrow> bytes list \<Rightarrow> Writer \<times> 'm serial_state \<times> bool \<Rightarrow> (Writer \<times> 'm serial_state \<times> bool) option" where
  "panic_handler U info st =
     (case st of (w, s, interrupts) \<Rightarrow>
        (case vga_println [str_bytes ''[KERNEL PANIC]''] w of
           (Inl _, w) \<Rightarrow> None
         | (Inr _, w) \<Rightarrow>
             (case vga_println info w of
                (Inl _, w) \<Rightarrow> None
              | (Inr _, w) \<Rightarrow> Some (w, serial_println U info (serial_println U [str_bytes ''[KERNEL PANIC]''] s), False))))"

section \<open>Reading\<close>

definition serial_read_byte :: "'m port_io \<Rightarrow> 'm \<Rightarrow> u8 option \<times> 'm" where
  "serial_read_byte P m =
     (case inb P 0x3FD m of (lsr, m) \<Rightarrow>
        if lsr AND 1 \<noteq> 0 then (case inb P 0x3F8 m of (d, m) \<Rightarrow> (Some d, m)) else (None, m))"

primrec serial_reads :: "'m port_io \<Rightarrow> nat \<Rightarrow> 'm \<Rightarrow> u8 option list \<times> 'm" where
  "serial_reads P 0 m = ([], m)"
| "serial_reads P (Suc n) m =
     (case serial_read_byte P m of (b, m) \<Rightarrow> (case serial_reads P n m of (bs, m) \<Rightarrow> (b # bs, m)))"

section \<open>What is printed and read\<close>

text \<open>Whatever is printed goes to the first port, which is set up once, before the first byte.\<close>

lemma serial_print_ready:
  "SERIAL1 s = Some p \<Longrightarrow> serial_print U ps s = s \<lparr> serial_machine := fold (uart_write_str U p) ps (serial_machine s) \<rparr>"
  by (simp add: serial_print_def serial_force_def)

lemma serial_prints_ready:
  "SERIAL1 s = Some p \<Longrightarrow> fold (serial_print U) pss s = s \<lparr> serial_machine := fold (uart_write_str U p) (concat pss) (serial_machine s) \<rparr>"
  by (induction pss arbitrary: s) (simp_all add: serial_print_ready)

lemma serial_prints_first:
  assumes "SERIAL1 s = None" and "pss \<noteq> []"
  shows "fold (serial_print U) pss s = s \<lparr> SERIAL1 := Some 0x3F8,
    serial_machine := fold (uart_write_str U 0x3F8) (concat pss) (uart_init U 0x3F8 (serial_machine s)) \<rparr>"
proof -
  obtain ps pss' where p: "pss = ps # pss'" using assms(2) by (cases pss) auto
  have "serial_print U ps s = s \<lparr> SERIAL1 := Some 0x3F8,
      serial_machine := fold (uart_write_str U 0x3F8) ps (uart_init U 0x3F8 (serial_machine s)) \<rparr>"
    using assms(1) by (simp add: serial_print_def serial_force_def com_ports_def)
  then show ?thesis by (simp add: p serial_prints_ready [of _ "0x3F8"])
qed

text \<open>A panic always reaches its end, with the interrupts off and the message on the screen below what was
  there.\<close>

lemma panic_handler_shows:
  assumes "console_shows w (typeset t)"
  obtains w' where "panic_handler U info (w, s, b) =
      Some (w', serial_println U info (serial_println U [str_bytes ''[KERNEL PANIC]''] s), False)"
    "console_shows w' (typeset (t @ map vga_code (str_bytes ''[KERNEL PANIC]'' @ [0x0A] @ concat info @ [0x0A])))"
proof -
  obtain w1 where 1: "vga_println [str_bytes ''[KERNEL PANIC]''] w = (Inr (), w1)"
      "console_shows w1 (typeset (t @ map vga_code (str_bytes ''[KERNEL PANIC]'' @ [0x0A])))"
    using print_shows [OF assms, of "[str_bytes ''[KERNEL PANIC]'', [0x0A]]"] by (auto simp: vga_println_def)
  obtain w2 where 2: "vga_println info w1 = (Inr (), w2)"
      "console_shows w2 (typeset ((t @ map vga_code (str_bytes ''[KERNEL PANIC]'' @ [0x0A])) @ map vga_code (concat info @ [0x0A])))"
    using print_shows [OF 1(2), of "info @ [[0x0A]]"] by (auto simp: vga_println_def)
  show thesis
    by (rule that [of w2]) (use 1(1) 2 in \<open>simp_all add: panic_handler_def\<close>)
qed

text \<open>A receiver with a queue: the status says whether a byte waits, looking at it takes none, and the data port
  takes the first.\<close>

definition uart_rx_law :: "'m port_io \<Rightarrow> ('m \<Rightarrow> bytes) \<Rightarrow> bool" where
  "uart_rx_law P rx \<longleftrightarrow> (\<forall>m. (fst (inb P 0x3FD m) AND 1 \<noteq> 0 \<longleftrightarrow> rx m \<noteq> []) \<and> rx (snd (inb P 0x3FD m)) = rx m \<and>
     (rx m \<noteq> [] \<longrightarrow> fst (inb P 0x3F8 m) = hd (rx m) \<and> rx (snd (inb P 0x3F8 m)) = tl (rx m)))"

lemma serial_read_byte_queue:
  assumes "uart_rx_law P rx"
  shows "fst (serial_read_byte P m) = (case rx m of [] \<Rightarrow> None | b # bs \<Rightarrow> Some b)"
    and "rx (snd (serial_read_byte P m)) = tl (rx m)"
proof -
  obtain v m1 where 1: "inb P 0x3FD m = (v, m1)" by fastforce
  obtain d m2 where 2: "inb P 0x3F8 m1 = (d, m2)" by fastforce
  have l: "v AND 1 \<noteq> 0 \<longleftrightarrow> rx m \<noteq> []" "rx m1 = rx m" "rx m \<noteq> [] \<Longrightarrow> d = hd (rx m) \<and> rx m2 = tl (rx m)"
    using assms [unfolded uart_rx_law_def, rule_format, of m] assms [unfolded uart_rx_law_def, rule_format, of m1] 1 2 by auto
  then show "fst (serial_read_byte P m) = (case rx m of [] \<Rightarrow> None | b # bs \<Rightarrow> Some b)"
    and "rx (snd (serial_read_byte P m)) = tl (rx m)"
    by (cases "rx m"; auto simp: serial_read_byte_def 1 2)+
qed

text \<open>No byte is lost or read twice: the reads return the queue in its order and then nothing.\<close>

lemma serial_reads_queue:
  assumes "uart_rx_law P rx"
  shows "fst (serial_reads P n m) = map Some (take n (rx m)) @ replicate (n - length (rx m)) None"
proof (induction n arbitrary: m)
  case (Suc n)
  obtain b m1 where b: "serial_read_byte P m = (b, m1)" by fastforce
  with serial_read_byte_queue [OF assms, of m] Suc [of m1] show ?case
    by (cases "rx m") (auto split: prod.split)
qed simp

end
