(* ===== verification/Error_Texts.thy ===== *)
theory Error_Texts
  imports Terminal_Commands
begin

text \<open>
  What the errors and states of the modules are printed as: the instances of \<open>Display\<close>, the accessors of the
  disk driver, and the error type of \<open>libs/shared\<close>. No two errors of a type are printed alike.
\<close>

section \<open>The kernel\<close>

definition pmm_error_text :: "pmm_error \<Rightarrow> string" where
  "pmm_error_text e =
     (case e of
        OutOfMemory \<Rightarrow> ''Out of physical memory'' | AllocationTooLarge \<Rightarrow> ''Allocation too large''
      | InvalidFree \<Rightarrow> ''Invalid free: frame not allocated'' | DoubleFree \<Rightarrow> ''Double free: frame already freed''
      | pmm_error.NotInitialized \<Rightarrow> ''PMM not initialized'')"

definition vmm_error_text :: "VmmError \<Rightarrow> string" where
  "vmm_error_text e =
     (case e of
        VmmError.NotInitialized \<Rightarrow> ''VMM not initialized'' | AlreadyMapped \<Rightarrow> ''Page already mapped''
      | NotMapped \<Rightarrow> ''Page not mapped'' | VmmOutOfMemory \<Rightarrow> ''Out of memory for page tables''
      | InvalidAddress \<Rightarrow> ''Invalid address (not page-aligned or out of range)''
      | MapFailed \<Rightarrow> ''Page table mapping failed'' | UnmapFailed \<Rightarrow> ''Page table unmapping failed''
      | ParentEntryHugePage \<Rightarrow> ''Parent entry is a huge page'')"

definition vfs_error_text :: "VfsError \<Rightarrow> string" where
  "vfs_error_text e =
     (case e of
        NotFound \<Rightarrow> ''Not found'' | NotADirectory \<Rightarrow> ''Not a directory'' | NotAFile \<Rightarrow> ''Not a file''
      | AlreadyExists \<Rightarrow> ''Already exists'' | PermissionDenied \<Rightarrow> ''Permission denied'' | VfsIoError \<Rightarrow> ''I/O error''
      | NoSpace \<Rightarrow> ''No space left'' | InvalidPath \<Rightarrow> ''Invalid path'')"

definition block_error_text :: "block_error \<Rightarrow> string" where
  "block_error_text e =
     (case e of
        IoError \<Rightarrow> ''I/O error'' | InvalidSector \<Rightarrow> ''Invalid sector'' | ReadOnly \<Rightarrow> ''Read-only device''
      | DeviceNotFound \<Rightarrow> ''Device not found'')"

definition driver_status_text :: "DriverStatus \<Rightarrow> string" where
  "driver_status_text s =
     (case s of
        Uninitialized \<Rightarrow> ''Uninitialized'' | Initializing \<Rightarrow> ''Initializing'' | DriverStatus.Ready \<Rightarrow> ''Ready''
      | StatusError \<Rightarrow> ''Error'' | Disabled \<Rightarrow> ''Disabled'')"

section \<open>The disk driver and its adapter\<close>

definition ata_name :: string where "ata_name = ''ATA PIO Driver''"

definition ata_status :: "AtaDriver \<Rightarrow> DriverStatus" where
  "ata_status d = drv_status d"

definition abd_new :: "u16 \<Rightarrow> bool \<Rightarrow> AtaBlockDevice" where
  "abd_new base slave = \<lparr> abd_base_port = base, abd_slave = slave \<rparr>"

definition abd_sector_size :: "AtaBlockDevice \<Rightarrow> nat" where
  "abd_sector_size b = SECTOR_SIZE"

definition abd_name :: "AtaBlockDevice \<Rightarrow> string" where
  "abd_name b = (if abd_slave b then ''ATA-primary-slave'' else ''ATA-primary-master'')"

lemma abd_primary_master_new: "abd_primary_master = abd_new PRIMARY_BASE False" "abd_name abd_primary_master = ''ATA-primary-master''"
  by (simp_all add: abd_primary_master_def abd_new_def abd_name_def)

text \<open>The name does not look at the channel.\<close>

lemma abd_name_channel: "abd_name (abd_new PRIMARY_BASE slave) = abd_name (abd_new SECONDARY_BASE slave)"
  by (simp add: abd_name_def abd_new_def)

section \<open>The shared library\<close>

datatype ArcadiaError =
  Arc_NotFound | Arc_PermissionDenied | Arc_InvalidPath | Arc_IoError | Arc_OutOfMemory | Arc_DeviceNotFound
| Arc_UnsupportedOperation | Arc_BufferTooSmall | Arc_AlreadyExists | Arc_InvalidArgument | Arc_NotInitialized | Arc_Timeout
| Arc_Unknown

definition arcadia_error_text :: "ArcadiaError \<Rightarrow> string" where
  "arcadia_error_text e =
     (case e of
        Arc_NotFound \<Rightarrow> ''Not found'' | Arc_PermissionDenied \<Rightarrow> ''Permission denied'' | Arc_InvalidPath \<Rightarrow> ''Invalid path''
      | Arc_IoError \<Rightarrow> ''I/O error'' | Arc_OutOfMemory \<Rightarrow> ''Out of memory'' | Arc_DeviceNotFound \<Rightarrow> ''Device not found''
      | Arc_UnsupportedOperation \<Rightarrow> ''Unsupported operation'' | Arc_BufferTooSmall \<Rightarrow> ''Buffer too small''
      | Arc_AlreadyExists \<Rightarrow> ''Already exists'' | Arc_InvalidArgument \<Rightarrow> ''Invalid argument''
      | Arc_NotInitialized \<Rightarrow> ''Not initialized'' | Arc_Timeout \<Rightarrow> ''Timeout'' | Arc_Unknown \<Rightarrow> ''Unknown error'')"

datatype LogLevel = Log_Info | Log_Warn | Log_Error | Log_Debug | Log_Trace

datatype LogModule = Mod_Kernel | Mod_Memory | Mod_Drivers | Mod_Filesystem | Mod_Terminal | Mod_Flux | Mod_BuildSystem | Mod_Unknown

section \<open>Different errors, different texts\<close>

lemma error_texts_distinct:
  "inj pmm_error_text" "inj vmm_error_text" "inj vfs_error_text" "inj block_error_text" "inj driver_status_text"
  "inj driver_error_str" "inj arcadia_error_text"
proof -
  show "inj pmm_error_text" by (rule injI, rename_tac x y, case_tac x; case_tac y; simp add: pmm_error_text_def)
  show "inj vmm_error_text" by (rule injI, rename_tac x y, case_tac x; case_tac y; simp add: vmm_error_text_def)
  show "inj vfs_error_text" by (rule injI, rename_tac x y, case_tac x; case_tac y; simp add: vfs_error_text_def)
  show "inj block_error_text" by (rule injI, rename_tac x y, case_tac x; case_tac y; simp add: block_error_text_def)
  show "inj driver_status_text" by (rule injI, rename_tac x y, case_tac x; case_tac y; simp add: driver_status_text_def)
  show "inj driver_error_str" by (rule injI, rename_tac x y, case_tac x; case_tac y; simp add: driver_error_str_def)
  show "inj arcadia_error_text" by (rule injI, rename_tac x y, case_tac x; case_tac y; simp add: arcadia_error_text_def)
qed

end
