(* ===== verification/Placeholders.thy ===== *)
theory Placeholders
  imports Rust_Std
begin

text \<open>
  The crates \<open>editor\<close> and \<open>flux\<close>: an editor that opens files and a package manager, as far as they are
  written. Opening a file only notes its path, and no package is ever installed.
\<close>

section \<open>The editor\<close>

record ArcEditor =
  file_path :: "bytes option"
  ed_content :: "bytes list"
  cursor_x :: nat
  cursor_y :: nat
  dirty :: bool

definition ArcEditor_new :: ArcEditor where
  "ArcEditor_new = \<lparr> file_path = None, ed_content = [], cursor_x = 0, cursor_y = 0, dirty = False \<rparr>"

definition editor_open :: "bytes \<Rightarrow> (ArcEditor, string, unit) io" where
  "editor_open path e = (Inr (), e \<lparr> file_path := Some path \<rparr>)"

definition editor_save :: "ArcEditor \<Rightarrow> string + unit" where
  "editor_save e = Inl ''Not implemented''"

inductive editor_reach :: "ArcEditor \<Rightarrow> bool" where
  editor_start: "editor_reach ArcEditor_new"
| editor_opened: "editor_reach e \<Longrightarrow> editor_open path e = (r, e') \<Longrightarrow> editor_reach e'"

lemma editor_always_empty: "editor_reach e \<Longrightarrow> ed_content e = [] \<and> \<not> dirty e \<and> cursor_x e = 0 \<and> cursor_y e = 0"
  by (induction rule: editor_reach.induct) (auto simp: ArcEditor_new_def editor_open_def)

section \<open>The package manager\<close>

record Package =
  pkg_name :: bytes
  pkg_version :: bytes
  pkg_description :: bytes

record FluxManager =
  installed_packages :: "Package list"

definition FluxManager_new :: FluxManager where
  "FluxManager_new = \<lparr> installed_packages = [] \<rparr>"

definition flux_install :: "bytes \<Rightarrow> (FluxManager, string, unit) io" where
  "flux_install package = io_err ''Not implemented''"

definition flux_remove :: "bytes \<Rightarrow> (FluxManager, string, unit) io" where
  "flux_remove package = io_err ''Not implemented''"

definition flux_update :: "(FluxManager, string, unit) io" where
  "flux_update = io_err ''Not implemented''"

definition flux_list :: "FluxManager \<Rightarrow> unit" where
  "flux_list m = ()"

lemma flux_never_installs:
  "op \<in> {flux_install p, flux_remove p, flux_update} \<Longrightarrow> op m = (r, m') \<Longrightarrow> m' = m \<and> r = Inl ''Not implemented''"
  by (auto simp: flux_install_def flux_remove_def flux_update_def)

end
