(* ===== verification/Spec2Isabelle.thy ===== *)
theory Spec2Isabelle
  imports Prelude Rust_Std Block_Device Ata_Driver Ata_Protocol Ata_Properties Fat_Bpb Fat_Table Fat_View
    Fat_Refine Fat_File Fat_Dir Fat_Sample Fat_Properties Vfs Vfs_Laws Vfs_Files Vfs_Properties Mbr
    Frame_Allocator Frame_Pool Frame_Stats Phys_Mem Memory_Properties Kernel_Memory Process_Context Page_Tables
    Elf Process Process_Properties Vmm Vmm_Laws Vmm_Properties Scancode_Queue Terminal Terminal_Properties
    Pci Timer Segments Vga Fmt Cpu_Info Memory_Info Boot_Console Boot
    Terminal_Commands Command_Properties Kernel_Session
    Idt Boot_Loader Kernel_Main Ata_Identify Boot_Disk Kernel_Reach
    Kernel_Globals Serial_Console Error_Texts Placeholders
begin

text \<open>
  \<^bold>\<open>Arcadia OS\<close>, a kernel in Rust for x86-64. The development models the code under
  \<open>kernel/src\<close> and the loader under \<open>boot/src\<close> that keeps state or decides something, and proves what makes it correct, or
  what it does instead. Definitions carry the names of the source; a prefix or suffix is
  added where two modules use a name or HOL has it already.

  \<^bold>\<open>The program.\<close> The kernel boots, sets up a bitmap of physical frames from the boot
  memory map and a manager of the page tables, detects the processor, installs its descriptor tables
  and interrupt handlers, scans the PCI bus, initialises the ATA driver, mounts a FAT32 volume over it, and
  runs a terminal that reads commands from the keyboard and the serial port. Commands show what the
  kernel knows and work on the file system, and one launches an ELF program, which is to run in ring 3 and
  to come back through system calls. \<open>kernel_main\<close> composes the initialisations as the kernel entry does,
  and its result is the state \<open>run_lines\<close> starts from, which composes reading, dispatch and commands.

  \<^bold>\<open>Conventions.\<close> Machine integers are words of their width and wrap, as in the release
  build; \<open>usize\<close> values that only count or index are natural numbers with the wrap written
  out where the code can reach it (\<open>usize_add\<close>, \<open>usize_sub\<close>). Structs are records, enums
  datatypes. A call with a result and an effect is a function from a state to a result and a
  state (type \<open>io\<close> of \<open>Prelude\<close>), with errors as the left summand; a panic is an error value
  of its own. Code of other crates and the hardware are parameters, and what is assumed of
  them is a locale (\<open>pio_drive\<close> with its extensions \<open>ata_disk\<close>, \<open>ident_drive\<close>, \<open>lone_drive\<close>, \<open>boot_drive\<close>,
  \<open>drive_machine\<close>; \<open>block_device\<close>; \<open>paging\<close>) or a named predicate
  (\<open>x86_law\<close> for addresses and table entries, \<open>gdt_law\<close> and \<open>idt_law\<close> for the descriptor tables,
  \<open>pci_law\<close> for configuration space, \<open>serial_law\<close> for the serial port); each is shown of a concrete
  instance. Locks are left out: the kernel runs on one processor, and the one structure
  that interrupts share with the terminal is modelled with its interrupts.

  \<^bold>\<open>Shared theories.\<close>
  \<^item> \<open>Prelude\<close>: words, little-endian codecs, the state and error monad, loops over lists.
  \<^item> \<open>Rust_Std\<close>: UTF-8 validation and lossy decoding, slices, splitting of strings. \<open>Fmt\<close>: numbers as
    text with widths, and parsing them back.

  \<^bold>\<open>Physical memory\<close> (\<open>memory/physmem.rs\<close>).
  \<^item> \<open>Frame_Allocator\<close>: the bitmap allocator, every method. The invariant \<open>pfa_inv\<close> says that the
    counter is the number of set bits and that \<open>next_free\<close> is free or the end.
  \<^item> \<open>Frame_Pool\<close>: the locale of a frame pool, interpreted on the allocator, and the states
    reachable from boot. \<open>Frame_Stats\<close>: the fragmentation scan and the self test.
  \<^item> \<open>Phys_Mem\<close>: regions, the manager, the boot map and its parser, the global functions.
  \<^item> \<open>Memory_Properties\<close>: the invariant in every state reachable from a boot without a memory map, no frame handed out twice, first
    fit, atomic release, what initialisation reserves, and two defects: frames that a block
    allocation strands, and the counter that drifts when regions of the boot map overlap.

  \<^bold>\<open>Virtual memory\<close> (\<open>memory/vmm.rs\<close>).
  \<^item> \<open>Vmm\<close>: every method, with the walk that discovers what the boot has mapped. The mapper of the
    crate x86_64 is a parameter.
  \<^item> \<open>Vmm_Laws\<close>: the set of mapped pages of a table and how single mappings change it; the locale
    \<open>paging\<close> states what the crate documents of its mapper.
  \<^item> \<open>Vmm_Properties\<close>: what initialisation records and when it panics, that \<open>validate\<close> holds after every
    sequence of operations that map with the flag PRESENT, what a failed \<open>remap_page\<close> leaves, an instance of the locale, and
    that a mapping without PRESENT breaks \<open>validate\<close>.

  \<^bold>\<open>Disk\<close> (\<open>drivers/mod.rs\<close>, \<open>drivers/ata/mod.rs\<close>, \<open>block/mod.rs\<close>, \<open>block/ata.rs\<close>, \<open>fs/mbr.rs\<close>).
  \<^item> \<open>Block_Device\<close>: the trait as a record and its contract as the locale \<open>block_device\<close>.
  \<^item> \<open>Ata_Driver\<close>: the driver over port instructions. Polling loops have the fuel of the source,
    \<open>POLL_TIMEOUT\<close> iterations.
  \<^item> \<open>Ata_Protocol\<close>: the PIO protocol of a drive as a locale, transfers over it, the sublocale that
    makes the adapter a \<open>block_device\<close>, and an executable drive that interprets it.
  \<^item> \<open>Ata_Identify\<close>: what a drive does when it is reset and identified, and that other ports leave it
    alone, as locales. How long a drive stays busy after a reset is a parameter, \<open>settle\<close>; the protocol has no
    limit, and the driver takes four looks at the status. With \<open>settle \<le> 4\<close>, a hypothesis of the theorems, \<open>init\<close> finds the
    drive; a concrete drive that needs between 9 and 100000 looks is not listed.
  \<^item> \<open>Ata_Properties\<close>: sectors written are read back, guards, timeouts, and the 28-bit addresses.
  \<^item> \<open>Mbr\<close>: the partition table, with a round trip from the bytes of a boot sector on the drive.

  \<^bold>\<open>FAT32\<close> (\<open>fs/fat32\<close>).
  \<^item> \<open>Fat_Bpb\<close>: the packed structures and 8.3 names. \<open>Fat_Table\<close>: the table, chains and file data
    (\<open>fat.rs\<close>, \<open>mod.rs\<close>). The loop over a chain ends because the code stops after 100001 clusters.
  \<^item> \<open>Fat_View\<close>: an abstract view of a volume (entries, clusters, chains, bytes of a file) as
    functions of the sectors. \<open>Fat_Refine\<close>, \<open>Fat_File\<close>, \<open>Fat_Dir\<close>: each operation refines an update of
    this view over any \<open>block_device\<close>.
  \<^item> \<open>Fat_Sample\<close>: a small volume for the witnesses. \<open>Fat_Properties\<close>: the theorems, among them that
    a write which needs two new clusters loses data.

  \<^bold>\<open>Virtual file system\<close> (\<open>fs/vfs/mod.rs\<close>).
  \<^item> \<open>Vfs\<close>: the manager and every method. \<open>Vfs_Laws\<close>, \<open>Vfs_Files\<close>: path resolution, the descriptor
    table, and reading, writing and resizing of files. \<open>Vfs_Properties\<close>: paths do not depend on
    case, \<open>..\<close> leads to the root, created files are read back, the invariant of the
    descriptor table, and what reads and writes through a descriptor do.

  \<^bold>\<open>Processes\<close> (\<open>elf/mod.rs\<close>, \<open>process\<close>, the selectors of \<open>arch/gdt.rs\<close>).
  \<^item> \<open>Kernel_Memory\<close>: 64-bit words in physical memory and pushes on a stack.
  \<^item> \<open>Process_Context\<close>: control blocks, the initial stack, the register-level stubs.
  \<^item> \<open>Page_Tables\<close>: the walk that checks user pointers and the release of an address space. The
    loop of the check may not end for a general crate; with \<open>x86_law\<close> it does. Its section on paging states the
    translation of the processor (\<open>translate\<close>, \<open>user_mapped\<close>) apart from the code that reads the tables.
  \<^item> \<open>Elf\<close>: the parser, and a specification of the files it is for (\<open>elf_identified\<close>). \<open>Process\<close>: launching, entering and
    leaving a process, system calls. Behind the switch of the tables, \<open>enter_user_mode\<close> addresses its code and the frame
    through the tables of the process (\<open>after_switch\<close>); the addresses of the code are a parameter.
  \<^item> \<open>Process_Properties\<close>: the frame the launcher builds, a system
    call keeps the registers, exactly which files the parser accepts, exactly which user pointers
    are accepted, and which bytes of a segment are copied. What becomes of a launched process is a theorem of
    \<open>Segments\<close>, which has the selectors: it is not entered with its frame.

  \<^bold>\<open>Terminal\<close> (\<open>terminal/mod.rs\<close>).
  \<^item> \<open>Scancode_Queue\<close>: the locale of a bounded queue and its interpretation on the ring buffer of
    256 slots, which holds 255 codes. \<open>Terminal\<close>: reading a line, the command table, the commands
    on the file system. The inputs of the reading loop are an explicit list, one item per
    iteration; when they end before the line does, the result is \<open>None\<close>, and
    \<open>read_line_returns\<close> proves that a line that ends is read.
  \<^item> \<open>Terminal_Properties\<close>: the queue under interrupts and the reading of lines.
  \<^item> \<open>Terminal_Commands\<close>: every other command with the text it prints. \<open>Command_Properties\<close>: eight launches use
    up the process table, and the sector commands are inverse over a drive that follows the protocol.
  \<^item> \<open>Kernel_Session\<close>: the terminal over the state of the whole kernel: dispatch, and the loop over the
    lines that are typed; the program that \<open>run\<close> starts is a parameter from its first context to its
    exit. Its theorems: what is written with \<open>write\<close> is shown by \<open>cat\<close>, from typed bytes to the
    sectors of the disk, and the invariants of every session.

  \<^bold>\<open>Hardware\<close>.
  \<^item> \<open>Pci\<close> (\<open>drivers/pci/mod.rs\<close>): configuration reads and the scan, with what it finds and the
    registers it confuses.
  \<^item> \<open>Timer\<close> (\<open>time/mod.rs\<close>, \<open>interrupts/mod.rs\<close>, the hardware handlers of \<open>arch/idt.rs\<close>): the tick
    counter, waits as functions of the interrupts that arrive, the interrupt controller.
  \<^item> \<open>Segments\<close> (\<open>arch/gdt.rs\<close>) and \<open>Idt\<close> (\<open>arch/idt.rs\<close>): the tables as they are built, their gates and
    selectors, that the selectors for programs name the wrong segments, and how the attempt to enter a program ends.
  \<^item> \<open>Vga\<close> (\<open>vga_buffer.rs\<close>): the text console, which refines a typesetter on whole texts.
  \<^item> \<open>Serial_Console\<close> (\<open>serial.rs\<close>, \<open>panic.rs\<close>): printing over the crate uart_16550, the reads of the terminal, and
    the panic handler, which always reaches its halt with the message on both consoles.
  \<^item> \<open>Cpu_Info\<close>, \<open>Memory_Info\<close> (\<open>sysinfo\<close>): what is read from CPUID and from the memory map, and its summaries.

  \<^bold>\<open>Boot\<close> (\<open>arch/boot_entry.rs\<close>, \<open>memory/mod.rs\<close>, \<open>boot/src/lib.rs\<close>).
  \<^item> \<open>Boot_Loader\<close>: the UEFI loader over the boot services.
  \<^item> \<open>Boot_Console\<close>: serial output, whose number buffers of 16 and 20 bytes are proved large enough, and
    the progress display. The wait for the port has the fuel of the source, 100000 looks.
  \<^item> \<open>Boot\<close>: the memory phase. \<open>Kernel_Main\<close>: the kernel entry as a whole, the state it leaves,
    and the two panics it can end with: a page in the upper half, and a volume without sectors in a cluster, by which a message
    of \<open>init_vfs\<close> divides.
  \<^item> \<open>Boot_Disk\<close>: the boot over a machine with a formatted drive that is ready in time. The locale \<open>drive_machine\<close> says that the
    other devices leave the drive alone; no step of the boot changes a sector, the volume is mounted, and
    a file that was typed in before is there after the next boot.
  \<^item> \<open>Kernel_Reach\<close>: the running kernel as a step relation, from the booted state by interrupts and
    lines in any order, and what holds in every state it reaches.
  \<^item> \<open>Kernel_Globals\<close>: the global managers as cells with a flag, whose unchecked read is never undefined.

  \<^bold>\<open>Others.\<close> \<open>Error_Texts\<close>: what errors and states are printed as. \<open>Placeholders\<close>: the editor and the
  package manager Flux, as far as they are written.

  \<^bold>\<open>Not modelled.\<close> The mode switch in assembly consists of privileged instructions; the
  heap is the crate linked_list_allocator, of which only the place and the size are kept. Interrupts are
  modelled where they meet other code (the scan codes, also in the middle of a line; the waits; between
  lines), not between the steps of the boot or of one command. \<open>device_info\<close> of the disk adapter, which
  nothing calls, and floating-point ratios that are only printed are left out.
\<close>

end
